(* ===== verification/Prelude.thy ===== *)
theory Prelude
  imports Complex_Main
begin

text \<open>
  What every component of the model shares: the identifiers and clock values of the database
  rows, the closed error taxonomy (\<open>flo/kernel/errors/codes.py\<close>) and the other Python
  exceptions the code raises, and database work as explicit state passing.

  A piece of work on the tenant's connection is a function from the state to an error or to a
  result and the new state.  An error carries no state, which is what \<open>tenant_transaction\<close>
  (\<open>flo/kernel/tenancy/rls.py\<close>) guarantees: the transaction or savepoint around the work is
  rolled back when an exception leaves it.  Row locks serialise the writers of one project, so
  one operation is one step of the model.
\<close>

section \<open>Identifiers, clock, errors\<close>

type_synonym uuid = nat
type_synonym timestamp = int  \<comment> \<open>microseconds since the epoch, time zone UTC\<close>

datatype error_code =
    BadRequest | Conflict | Forbidden | IdempotencyKeyReused | InvalidOrExpired
  | InsufficientBudgetCode | InternalError | MethodNotAllowed | MfaEnrollmentRequired
  | MfaVerificationRequired | PayloadTooLarge | OrganizationSelectionRequired | NotFound
  | RequestInFlight | ServiceUnavailable | StepUpRequired | TooManyRequests | Unauthorized
  | UnsupportedMediaType | ValidationFailed

text \<open>The other exceptions the modelled code raises or lets through, the database's included.\<close>

datatype exn =
    ValueError | TypeError | RuntimeError | AssertionError | LookupFailed
  | InvalidOperation | CurrencyMismatch string string
  | CheckViolation string | UniqueViolation string | ForeignKeyViolation string
  | ExclusionViolation string | NotNullViolation string | QueryNotReturning
  | MasterCodeUnusable string | NumericValueOutOfRange | SessionIssueDenied | CorrelationMissing
  | LookupMissing | PermissionDenied | PasswordPolicyFailed | IdentityNotFound | IdentityExists

text \<open>
  A \<open>ProblemError\<close> is its code and the stable \<open>problem\<close> label of its \<open>checks\<close>, when
  it has one.  The wording of \<open>detail\<close> is not modelled.
\<close>

datatype problem =
    Problem error_code "string option"
  | InsufficientBudget rat rat
  | Raised exn

abbreviation not_found :: problem where
  "not_found \<equiv> Problem NotFound None"

definition conflict :: "string \<Rightarrow> problem" where
  "conflict label = Problem Conflict (Some label)"

section \<open>Work on the database as state passing\<close>

type_synonym ('s, 'a) tx = "'s \<Rightarrow> problem + 'a \<times> 's"

definition tx_return :: "'a \<Rightarrow> ('s, 'a) tx" where
  "tx_return x = (\<lambda>s. Inr (x, s))"

definition tx_fail :: "problem \<Rightarrow> ('s, 'a) tx" where
  "tx_fail e = (\<lambda>s. Inl e)"

definition tx_bind :: "('s, 'a) tx \<Rightarrow> ('a \<Rightarrow> ('s, 'b) tx) \<Rightarrow> ('s, 'b) tx" where
  "tx_bind m k = (\<lambda>s. case m s of Inl e \<Rightarrow> Inl e | Inr (x, s') \<Rightarrow> k x s')"

definition tx_read :: "('s \<Rightarrow> 'a) \<Rightarrow> ('s, 'a) tx" where
  "tx_read f = (\<lambda>s. Inr (f s, s))"

definition tx_update :: "('s \<Rightarrow> 's) \<Rightarrow> ('s, unit) tx" where
  "tx_update f = (\<lambda>s. Inr ((), f s))"

definition tx_require :: "bool \<Rightarrow> problem \<Rightarrow> ('s, unit) tx" where
  "tx_require b e = (if b then tx_return () else tx_fail e)"

definition tx_lift :: "problem + 'a \<Rightarrow> ('s, 'a) tx" where
  "tx_lift r = (case r of Inl e \<Rightarrow> tx_fail e | Inr x \<Rightarrow> tx_return x)"

definition tx_some :: "'a option \<Rightarrow> problem \<Rightarrow> ('s, 'a) tx" where
  "tx_some v e = (case v of None \<Rightarrow> tx_fail e | Some x \<Rightarrow> tx_return x)"

text \<open>A savepoint whose exception is caught: the handler starts from the state before it.\<close>

definition tx_catch :: "('s, 'a) tx \<Rightarrow> (problem \<Rightarrow> ('s, 'a) tx) \<Rightarrow> ('s, 'a) tx" where
  "tx_catch m h = (\<lambda>s. case m s of Inl e \<Rightarrow> h e s | Inr r \<Rightarrow> Inr r)"

fun tx_each :: "('a \<Rightarrow> ('s, 'b) tx) \<Rightarrow> 'a list \<Rightarrow> ('s, 'b list) tx" where
  "tx_each f [] = tx_return []"
| "tx_each f (x # xs) = tx_bind (f x) (\<lambda>y. tx_bind (tx_each f xs) (\<lambda>ys. tx_return (y # ys)))"

text \<open>How a piece of work can succeed, one fact per combinator.\<close>

named_theorems tx_simps \<open>successful and failing runs of the combinators\<close>

lemma tx_return_Inr [simp, tx_simps]: "tx_return x s = Inr (y, t) \<longleftrightarrow> y = x \<and> t = s"
  by (auto simp: tx_return_def)

lemma tx_return_Inl [simp, tx_simps]: "tx_return x s \<noteq> Inl e"
  by (simp add: tx_return_def)

lemma tx_fail_Inr [simp, tx_simps]: "tx_fail e s \<noteq> Inr r"
  by (simp add: tx_fail_def)

lemma tx_fail_Inl [simp, tx_simps]: "tx_fail e s = Inl e' \<longleftrightarrow> e' = e"
  by (auto simp: tx_fail_def)

lemma tx_bind_Inr [tx_simps]:
  "tx_bind m k s = Inr r \<longleftrightarrow> (\<exists>x s'. m s = Inr (x, s') \<and> k x s' = Inr r)"
  by (auto simp: tx_bind_def split: sum.splits)

lemma tx_bindE:
  assumes "tx_bind m k s = Inr r"
  obtains x s' where "m s = Inr (x, s')" "k x s' = Inr r"
  using assms by (auto simp: tx_bind_Inr)

lemma tx_bind_Inl [tx_simps]:
  "tx_bind m k s = Inl e \<longleftrightarrow> m s = Inl e \<or> (\<exists>x s'. m s = Inr (x, s') \<and> k x s' = Inl e)"
  by (auto simp: tx_bind_def split: sum.splits)

lemma tx_read_Inr [simp, tx_simps]: "tx_read f s = Inr (y, t) \<longleftrightarrow> y = f s \<and> t = s"
  by (auto simp: tx_read_def)

lemma tx_read_Inl [simp, tx_simps]: "tx_read f s \<noteq> Inl e"
  by (simp add: tx_read_def)

lemma tx_update_Inr [simp, tx_simps]: "tx_update f s = Inr (y, t) \<longleftrightarrow> t = f s"
  by (auto simp: tx_update_def)

lemma tx_update_Inl [simp, tx_simps]: "tx_update f s \<noteq> Inl e"
  by (simp add: tx_update_def)

lemma tx_require_Inr [simp, tx_simps]: "tx_require b e s = Inr (y, t) \<longleftrightarrow> b \<and> t = s"
  by (auto simp: tx_require_def)

lemma tx_require_Inl [simp, tx_simps]: "tx_require b e s = Inl e' \<longleftrightarrow> \<not> b \<and> e' = e"
  by (auto simp: tx_require_def)

lemma tx_lift_Inr [simp, tx_simps]: "tx_lift r s = Inr (y, t) \<longleftrightarrow> r = Inr y \<and> t = s"
  by (auto simp: tx_lift_def split: sum.splits)

lemma tx_lift_Inl [simp, tx_simps]: "tx_lift r s = Inl e \<longleftrightarrow> r = Inl e"
  by (auto simp: tx_lift_def split: sum.splits)

lemma tx_some_Inr [simp, tx_simps]: "tx_some v e s = Inr (y, t) \<longleftrightarrow> v = Some y \<and> t = s"
  by (auto simp: tx_some_def split: option.splits)

lemma tx_some_Inl [simp, tx_simps]: "tx_some v e s = Inl e' \<longleftrightarrow> v = None \<and> e' = e"
  by (auto simp: tx_some_def split: option.splits)

text \<open>Evaluation: a run on a concrete state computes with these.\<close>

lemmas tx_eval = tx_return_def tx_fail_def tx_bind_def tx_read_def tx_update_def
  tx_require_def tx_lift_def tx_some_def tx_catch_def

section \<open>Relations between the states before and after\<close>

text \<open>
  \<open>tx_rel R m\<close>: every successful run of \<open>m\<close> relates the state before to the state after
  by \<open>R\<close>.  When \<open>R\<close> is a preorder (an invariant is kept, a log only grows, another tenant's
  rows are untouched) the combinators respect it as soon as their parts do; the locale proves
  that once.
\<close>

definition tx_rel :: "('s \<Rightarrow> 's \<Rightarrow> bool) \<Rightarrow> ('s, 'a) tx \<Rightarrow> bool" where
  "tx_rel R m \<longleftrightarrow> (\<forall>s x s'. m s = Inr (x, s') \<longrightarrow> R s s')"

lemma tx_relI: "(\<And>s x s'. m s = Inr (x, s') \<Longrightarrow> R s s') \<Longrightarrow> tx_rel R m"
  by (simp add: tx_rel_def)

lemma tx_relD: "tx_rel R m \<Longrightarrow> m s = Inr (x, s') \<Longrightarrow> R s s'"
  by (auto simp: tx_rel_def)

lemma tx_rel_fail [intro!, simp]: "tx_rel R (tx_fail e)"
  by (simp add: tx_rel_def)

text \<open>The branches of a piece of work.\<close>

lemma tx_rel_if: "(b \<Longrightarrow> tx_rel R m) \<Longrightarrow> (\<not> b \<Longrightarrow> tx_rel R n) \<Longrightarrow> tx_rel R (if b then m else n)"
  by simp

lemma tx_rel_option: "tx_rel R m \<Longrightarrow> (\<And>x. tx_rel R (f x)) \<Longrightarrow> tx_rel R (case v of None \<Rightarrow> m | Some x \<Rightarrow> f x)"
  by (simp split: option.split)

lemma tx_rel_prod: "(\<And>x y. tx_rel R (f x y)) \<Longrightarrow> tx_rel R (case p of (x, y) \<Rightarrow> f x y)"
  by (simp split: prod.split)

lemmas tx_branches = tx_rel_if tx_rel_option tx_rel_prod

definition keeps :: "('s \<Rightarrow> bool) \<Rightarrow> 's \<Rightarrow> 's \<Rightarrow> bool" where
  "keeps P s t \<longleftrightarrow> (P s \<longrightarrow> P t)"

locale tx_preorder =
  fixes R :: "'s \<Rightarrow> 's \<Rightarrow> bool"
  assumes R_refl: "R s s"
    and R_trans: "R s t \<Longrightarrow> R t u \<Longrightarrow> R s u"
begin

lemma return_ok: "tx_rel R (tx_return x)"
  by (auto intro!: tx_relI R_refl)

lemma read_ok: "tx_rel R (tx_read f)"
  by (auto intro!: tx_relI R_refl)

lemma require_ok: "tx_rel R (tx_require b e)"
  by (auto intro!: tx_relI R_refl)

lemma lift_ok: "tx_rel R (tx_lift r)"
  by (auto intro!: tx_relI R_refl)

lemma some_ok: "tx_rel R (tx_some v e)"
  by (auto intro!: tx_relI R_refl)

lemma bind_ok:
  assumes "tx_rel R m" "\<And>x. tx_rel R (k x)"
  shows "tx_rel R (tx_bind m k)"
proof (rule tx_relI)
  fix s y t
  assume "tx_bind m k s = Inr (y, t)"
  then obtain x s' where "m s = Inr (x, s')" "k x s' = Inr (y, t)"
    by (auto simp: tx_bind_Inr)
  with assms show "R s t" by (blast intro: R_trans dest: tx_relD)
qed

lemma update_ok: "(\<And>s. R s (f s)) \<Longrightarrow> tx_rel R (tx_update f)"
  by (auto intro!: tx_relI)

lemma catch_ok:
  assumes "tx_rel R m" "\<And>e. tx_rel R (h e)"
  shows "tx_rel R (tx_catch m h)"
  using assms by (auto simp: tx_rel_def tx_catch_def split: sum.splits)

lemma each_ok: "(\<And>x. x \<in> set xs \<Longrightarrow> tx_rel R (f x)) \<Longrightarrow> tx_rel R (tx_each f xs)"
  by (induction xs) (auto intro!: bind_ok return_ok)

lemmas tx_ok = return_ok read_ok require_ok lift_ok some_ok bind_ok each_ok

end

section \<open>Which errors a piece of work can raise\<close>

definition tx_err :: "(problem \<Rightarrow> bool) \<Rightarrow> ('s, 'a) tx \<Rightarrow> bool" where
  "tx_err E m \<longleftrightarrow> (\<forall>s e. m s = Inl e \<longrightarrow> E e)"

lemma tx_errI: "(\<And>s e. m s = Inl e \<Longrightarrow> E e) \<Longrightarrow> tx_err E m"
  by (simp add: tx_err_def)

lemma tx_errD: "tx_err E m \<Longrightarrow> m s = Inl e \<Longrightarrow> E e"
  by (auto simp: tx_err_def)

lemma tx_err_bind: "tx_err E m \<Longrightarrow> (\<And>x. tx_err E (k x)) \<Longrightarrow> tx_err E (tx_bind m k)"
  unfolding tx_err_def tx_bind_Inl by blast

lemma tx_err_simps [simp]:
  "tx_err E (tx_return x)" "tx_err E (tx_read f)" "tx_err E (tx_update g)"
  "tx_err E (tx_fail e) \<longleftrightarrow> E e" "tx_err E (tx_require b e) \<longleftrightarrow> (\<not> b \<longrightarrow> E e)"
  "tx_err E (tx_some v e) \<longleftrightarrow> (v = None \<longrightarrow> E e)" "tx_err E (tx_lift r) \<longleftrightarrow> (\<forall>e. r = Inl e \<longrightarrow> E e)"
  by (auto simp: tx_err_def)

lemma tx_err_each: "(\<And>x. x \<in> set xs \<Longrightarrow> tx_err E (f x)) \<Longrightarrow> tx_err E (tx_each f xs)"
  by (induction xs) (auto intro!: tx_err_bind)

section \<open>Text\<close>

text \<open>\<open>str.strip\<close> and \<open>str.upper\<close> on ASCII text.\<close>

definition is_space :: "char \<Rightarrow> bool" where
  "is_space c \<longleftrightarrow> (let n = of_char c :: nat in 9 \<le> n \<and> n \<le> 13 \<or> 28 \<le> n \<and> n \<le> 32)"

definition strip :: "string \<Rightarrow> string" where
  "strip s = rev (dropWhile is_space (rev (dropWhile is_space s)))"

definition char_upper :: "char \<Rightarrow> char" where
  "char_upper c = (let n = of_char c :: nat in if 97 \<le> n \<and> n \<le> 122 then char_of (n - 32) else c)"

definition char_lower :: "char \<Rightarrow> char" where
  "char_lower c = (let n = of_char c :: nat in if 65 \<le> n \<and> n \<le> 90 then char_of (n + 32) else c)"

text \<open>\<open>str\<close> of a natural number, or of an identifier.\<close>

fun decimal :: "nat \<Rightarrow> string" where
  "decimal n = (if n < 10 then [char_of (48 + n)] else decimal (n div 10) @ [char_of (48 + n mod 10)])"

declare decimal.simps [simp del]

section \<open>Generic lemmas\<close>

lemma Inr_not_Inl_iff [simp]: "(\<forall>e. r \<noteq> Inl e) \<longleftrightarrow> (\<exists>x. r = Inr x)"
  by (cases r) auto

lemma sum_list_filter_snoc:
  "sum_list (map f (filter P (xs @ [x]))) =
     sum_list (map f (filter P xs)) + (if P x then f x else (0::'a::comm_monoid_add))"
  by simp

lemma find_Some_iff_mem: "find P xs = Some x \<Longrightarrow> x \<in> set xs \<and> P x"
  by (auto simp: find_Some_iff)

lemma find_snoc: "find P (xs @ [x]) = (case find P xs of Some y \<Rightarrow> Some y | None \<Rightarrow> if P x then Some x else None)"
  by (induction xs) auto

end
