(* ===== verification/Money.thy ===== *)
theory Money
  imports Prelude
begin

text \<open>
  \<open>flo/kernel/money.py\<close>: fixed-precision amounts, the ISO 4217 exponent table of
  \<open>flo/kernel/data/iso4217.json\<close>, HALF_UP quantisation and the allocation of an amount over
  integer ratios.  A finite \<open>Decimal\<close> is its value, a rational; arithmetic on decimals goes
  through \<open>context_round\<close>, the rounding of the default decimal context (28 significant digits,
  half even), and \<open>quantize\<close> fails as the library does when the coefficient would need more than
  28 digits.  The exponent limits of the context (six decimal digits) are not modelled.
\<close>

section \<open>Decimal arithmetic of the standard library\<close>

definition round_half_even :: "rat \<Rightarrow> int" where
  "round_half_even x =
     (let f = \<lfloor>x\<rfloor>; r = x - of_int f
      in if r < 1/2 then f else if 1/2 < r then f + 1 else if even f then f else f + 1)"

definition round_half_up :: "rat \<Rightarrow> int" where
  "round_half_up x = (if 0 \<le> x then \<lfloor>x + 1/2\<rfloor> else - \<lfloor>- x + 1/2\<rfloor>)"

definition round_down :: "rat \<Rightarrow> int" where
  "round_down x = (if 0 \<le> x then \<lfloor>x\<rfloor> else - \<lfloor>- x\<rfloor>)"

fun digits :: "nat \<Rightarrow> nat" where
  "digits n = (if n < 10 then 1 else Suc (digits (n div 10)))"

declare digits.simps [simp del]

lemma tenth_below_floor: "1 < y \<Longrightarrow> y / 10 < of_int \<lfloor>y\<rfloor>" for y :: rat
proof -
  assume y: "1 < y"
  then have "1 \<le> \<lfloor>y\<rfloor>" by (simp add: le_floor_iff)
  then have "(1::rat) \<le> of_int \<lfloor>y\<rfloor>" by simp
  moreover have "y < of_int \<lfloor>y\<rfloor> + 1" by linarith
  ultimately show ?thesis by linarith
qed

lemma floor_shrinks:
  fixes x :: rat
  assumes "0 < x" "x < 1"
  shows "nat \<lfloor>1 / (10 * x)\<rfloor> < nat \<lfloor>1 / x\<rfloor>"
proof -
  have y: "1 < 1 / x" using assms by simp
  have "\<lfloor>(1 / x) / 10\<rfloor> < \<lfloor>1 / x\<rfloor>"
    using tenth_below_floor [OF y] by (simp add: floor_less_iff)
  moreover have "0 \<le> \<lfloor>(1 / x) / 10\<rfloor>" using assms by simp
  ultimately have "nat \<lfloor>(1 / x) / 10\<rfloor> < nat \<lfloor>1 / x\<rfloor>" by linarith
  moreover have "1 / (10 * x) = (1 / x) / 10" by simp
  ultimately show ?thesis by (simp only:)
qed

text \<open>How many decimal places lie before the first significant digit of a number below 1.\<close>

function lead_zeros :: "rat \<Rightarrow> nat" where
  "lead_zeros x = (if x \<le> 0 \<or> 1 \<le> x then 0 else Suc (lead_zeros (10 * x)))"
  by pat_completeness auto

termination
proof (relation "measure (\<lambda>x. nat \<lfloor>1 / x\<rfloor>)")
  fix x :: rat
  assume "\<not> (x \<le> 0 \<or> 1 \<le> x)"
  then have "0 < x" "x < 1" by auto
  then show "(10 * x, x) \<in> measure (\<lambda>x. nat \<lfloor>1 / x\<rfloor>)"
    using floor_shrinks by (simp only: in_measure)
qed simp

declare lead_zeros.simps [simp del]

text \<open>The power of ten that brings a number to 28 digits before the point.\<close>

definition sig_factor :: "rat \<Rightarrow> rat" where
  "sig_factor x =
     (if 1 \<le> \<bar>x\<bar>
      then let d = digits (nat \<lfloor>\<bar>x\<bar>\<rfloor>) in if d \<le> 28 then 10 ^ (28 - d) else 1 / 10 ^ (d - 28)
      else 10 ^ (27 + lead_zeros \<bar>x\<bar>))"

definition context_round :: "rat \<Rightarrow> rat" where
  "context_round x =
     (if x = 0 then 0 else of_int (round_half_even (x * sig_factor x)) / sig_factor x)"

definition dec_add :: "rat \<Rightarrow> rat \<Rightarrow> rat" where "dec_add a b = context_round (a + b)"
definition dec_sub :: "rat \<Rightarrow> rat \<Rightarrow> rat" where "dec_sub a b = context_round (a - b)"
definition dec_mul :: "rat \<Rightarrow> rat \<Rightarrow> rat" where "dec_mul a b = context_round (a * b)"
definition dec_div :: "rat \<Rightarrow> rat \<Rightarrow> rat" where "dec_div a b = context_round (a / b)"
definition dec_neg :: "rat \<Rightarrow> rat" where "dec_neg a = context_round (- a)"

definition dec_sum :: "rat list \<Rightarrow> rat" where
  "dec_sum xs = foldl dec_add 0 xs"

text \<open>\<open>Decimal.quantize\<close> to \<open>e\<close> decimal places, with a rounding mode.\<close>

definition dec_quantize :: "(rat \<Rightarrow> int) \<Rightarrow> rat \<Rightarrow> nat \<Rightarrow> problem + rat" where
  "dec_quantize rounding x e =
     (let c = rounding (x * 10 ^ e)
      in if \<bar>c\<bar> < 10 ^ 28 then Inr (of_int c / 10 ^ e) else Inl (Raised InvalidOperation))"

section \<open>Currencies\<close>

definition iso4217 :: "(string \<times> nat) list" where
  "iso4217 =
   [(''AED'', 2), (''AFN'', 2), (''ALL'', 2), (''AMD'', 2), (''AOA'', 2), (''ARS'', 2), (''AUD'', 2),
    (''AWG'', 2), (''AZN'', 2), (''BAM'', 2), (''BBD'', 2), (''BDT'', 2), (''BHD'', 3), (''BIF'', 0),
    (''BMD'', 2), (''BND'', 2), (''BOB'', 2), (''BOV'', 2), (''BRL'', 2), (''BSD'', 2), (''BTN'', 2),
    (''BWP'', 2), (''BYN'', 2), (''BZD'', 2), (''CAD'', 2), (''CDF'', 2), (''CHE'', 2), (''CHF'', 2),
    (''CHW'', 2), (''CLF'', 4), (''CLP'', 0), (''CNY'', 2), (''COP'', 2), (''COU'', 2), (''CRC'', 2),
    (''CUP'', 2), (''CVE'', 2), (''CZK'', 2), (''DJF'', 0), (''DKK'', 2), (''DOP'', 2), (''DZD'', 2),
    (''EGP'', 2), (''ERN'', 2), (''ETB'', 2), (''EUR'', 2), (''FJD'', 2), (''FKP'', 2), (''GBP'', 2),
    (''GEL'', 2), (''GHS'', 2), (''GIP'', 2), (''GMD'', 2), (''GNF'', 0), (''GTQ'', 2), (''GYD'', 2),
    (''HKD'', 2), (''HNL'', 2), (''HTG'', 2), (''HUF'', 2), (''IDR'', 2), (''ILS'', 2), (''INR'', 2),
    (''IQD'', 3), (''IRR'', 2), (''ISK'', 0), (''JMD'', 2), (''JOD'', 3), (''JPY'', 0), (''KES'', 2),
    (''KGS'', 2), (''KHR'', 2), (''KMF'', 0), (''KPW'', 2), (''KRW'', 0), (''KWD'', 3), (''KYD'', 2),
    (''KZT'', 2), (''LAK'', 2), (''LBP'', 2), (''LKR'', 2), (''LRD'', 2), (''LSL'', 2), (''LYD'', 3),
    (''MAD'', 2), (''MDL'', 2), (''MGA'', 2), (''MKD'', 2), (''MMK'', 2), (''MNT'', 2), (''MOP'', 2),
    (''MRU'', 2), (''MUR'', 2), (''MVR'', 2), (''MWK'', 2), (''MXN'', 2), (''MXV'', 2), (''MYR'', 2),
    (''MZN'', 2), (''NAD'', 2), (''NGN'', 2), (''NIO'', 2), (''NOK'', 2), (''NPR'', 2), (''NZD'', 2),
    (''OMR'', 3), (''PAB'', 2), (''PEN'', 2), (''PGK'', 2), (''PHP'', 2), (''PKR'', 2), (''PLN'', 2),
    (''PYG'', 0), (''QAR'', 2), (''RON'', 2), (''RSD'', 2), (''RUB'', 2), (''RWF'', 0), (''SAR'', 2),
    (''SBD'', 2), (''SCR'', 2), (''SDG'', 2), (''SEK'', 2), (''SGD'', 2), (''SHP'', 2), (''SLE'', 2),
    (''SOS'', 2), (''SRD'', 2), (''SSP'', 2), (''STN'', 2), (''SVC'', 2), (''SYP'', 2), (''SZL'', 2),
    (''THB'', 2), (''TJS'', 2), (''TMT'', 2), (''TND'', 3), (''TOP'', 2), (''TRY'', 2), (''TTD'', 2),
    (''TWD'', 2), (''TZS'', 2), (''UAH'', 2), (''UGX'', 0), (''USD'', 2), (''USN'', 2), (''UYI'', 0),
    (''UYU'', 2), (''UYW'', 4), (''UZS'', 2), (''VED'', 2), (''VES'', 2), (''VND'', 0), (''VUV'', 0),
    (''WST'', 2), (''XAF'', 0), (''XCD'', 2), (''XCG'', 2), (''XOF'', 0), (''XPF'', 0), (''YER'', 2),
    (''ZAR'', 2), (''ZMW'', 2), (''ZWG'', 2)]"

definition is_ascii_upper :: "char \<Rightarrow> bool" where
  "is_ascii_upper c \<longleftrightarrow> of_char c \<ge> (65::nat) \<and> of_char c \<le> (90::nat)"

definition is_ascii_lower :: "char \<Rightarrow> bool" where
  "is_ascii_lower c \<longleftrightarrow> of_char c \<ge> (97::nat) \<and> of_char c \<le> (122::nat)"

text \<open>\<open>str.isascii\<close>, and \<open>str.isupper\<close> on ASCII text: a cased letter and no lower-case one.\<close>

definition isascii :: "string \<Rightarrow> bool" where
  "isascii s \<longleftrightarrow> list_all (\<lambda>c. of_char c < (128::nat)) s"

definition isupper :: "string \<Rightarrow> bool" where
  "isupper s \<longleftrightarrow> list_ex is_ascii_upper s \<and> \<not> list_ex is_ascii_lower s"

definition currency_exponent :: "string \<Rightarrow> problem + nat" where
  "currency_exponent currency =
     (if length currency \<noteq> 3 \<or> \<not> isascii currency \<or> \<not> isupper currency then Inl (Raised ValueError)
      else case map_of iso4217 currency of
        None \<Rightarrow> Inl (Raised ValueError)
      | Some e \<Rightarrow> Inr e)"

section \<open>Amounts of money\<close>

text \<open>What Python may pass where a number is expected.\<close>

datatype py_num =
    PyDecimal rat | PyInfinity | PyNaN | PySignalingNaN | PyInt int | PyBool bool | PyOther

fun require_decimal :: "py_num \<Rightarrow> problem + rat" where
  "require_decimal (PyDecimal x) = Inr x"
| "require_decimal PyInfinity = Inl (Raised ValueError)"
| "require_decimal PyNaN = Inl (Raised ValueError)"
| "require_decimal PySignalingNaN = Inl (Raised ValueError)"
| "require_decimal _ = Inl (Raised TypeError)"

definition quantize :: "py_num \<Rightarrow> string \<Rightarrow> problem + rat" where
  "quantize amount currency =
     (case require_decimal amount of Inl p \<Rightarrow> Inl p
      | Inr x \<Rightarrow> (case currency_exponent currency of Inl p \<Rightarrow> Inl p
        | Inr e \<Rightarrow> dec_quantize round_half_up x e))"

record money =
  m_amount :: rat
  m_currency :: string

definition make_money :: "py_num \<Rightarrow> string \<Rightarrow> problem + money" where
  "make_money amount currency =
     (case require_decimal amount of Inl p \<Rightarrow> Inl p
      | Inr x \<Rightarrow> (case currency_exponent currency of Inl p \<Rightarrow> Inl p
        | Inr _ \<Rightarrow> Inr \<lparr>m_amount = x, m_currency = currency\<rparr>))"

definition require_same_currency :: "money \<Rightarrow> money \<Rightarrow> problem + unit" where
  "require_same_currency m n =
     (if m_currency m \<noteq> m_currency n
      then Inl (Raised (CurrencyMismatch (m_currency m) (m_currency n))) else Inr ())"

definition money_add :: "money \<Rightarrow> money \<Rightarrow> problem + money" where
  "money_add m n =
     (case require_same_currency m n of Inl p \<Rightarrow> Inl p
      | Inr _ \<Rightarrow> make_money (PyDecimal (dec_add (m_amount m) (m_amount n))) (m_currency m))"

definition money_sub :: "money \<Rightarrow> money \<Rightarrow> problem + money" where
  "money_sub m n =
     (case require_same_currency m n of Inl p \<Rightarrow> Inl p
      | Inr _ \<Rightarrow> make_money (PyDecimal (dec_sub (m_amount m) (m_amount n))) (m_currency m))"

text \<open>
  A factor that is no \<open>int\<close> or \<open>Decimal\<close>, or a \<open>bool\<close>, gives \<open>NotImplemented\<close>, which the
  interpreter turns into a \<open>TypeError\<close>.
\<close>

fun money_mul :: "money \<Rightarrow> py_num \<Rightarrow> problem + money" where
  "money_mul m (PyDecimal q) = make_money (PyDecimal (dec_mul (m_amount m) q)) (m_currency m)"
| "money_mul m (PyInt q) = make_money (PyDecimal (dec_mul (m_amount m) (of_int q))) (m_currency m)"
| "money_mul m PyInfinity =
     (if m_amount m = 0 then Inl (Raised InvalidOperation) else make_money PyInfinity (m_currency m))"
| "money_mul m PyNaN = make_money PyNaN (m_currency m)"
| "money_mul m PySignalingNaN = Inl (Raised InvalidOperation)"
| "money_mul m _ = Inl (Raised TypeError)"

fun int_ratios :: "py_num list \<Rightarrow> int list option" where
  "int_ratios [] = Some []"
| "int_ratios (PyInt r # rs) = map_option ((#) r) (int_ratios rs)"
| "int_ratios _ = None"

fun all_results :: "('e + 'a) list \<Rightarrow> 'e + 'a list" where
  "all_results [] = Inr []"
| "all_results (Inl e # _) = Inl e"
| "all_results (Inr x # rs) = (case all_results rs of Inl e \<Rightarrow> Inl e | Inr xs \<Rightarrow> Inr (x # xs))"

text \<open>The truncated shares, before the remainder is handed out.\<close>

definition allocation_shares :: "rat \<Rightarrow> nat \<Rightarrow> int list \<Rightarrow> problem + rat list" where
  "allocation_shares amount e ratios =
     all_results (map (\<lambda>ratio.
       dec_quantize round_down
         (dec_div (dec_mul amount (of_int ratio)) (of_int (sum_list ratios))) e) ratios)"

definition eligible_indexes :: "int list \<Rightarrow> nat list" where
  "eligible_indexes ratios = filter (\<lambda>i. ratios ! i \<noteq> 0) [0..<length ratios]"

definition hand_out :: "rat \<Rightarrow> nat \<Rightarrow> int list \<Rightarrow> rat list \<Rightarrow> rat list" where
  "hand_out amount e ratios amounts =
     (let unit = 1 / 10 ^ e;
          remainder_units = round_down (dec_div (dec_sub amount (dec_sum amounts)) unit);
          adjustment = (if 0 < remainder_units then unit else - unit)
      in foldl (\<lambda>as i. as[i := dec_add (as ! i) adjustment]) amounts
           (take (nat \<bar>remainder_units\<bar>) (eligible_indexes ratios)))"

definition allocate :: "money \<Rightarrow> py_num list \<Rightarrow> problem + money list" where
  "allocate m ratios =
     (if ratios = [] then Inl (Raised ValueError)
      else case int_ratios ratios of
        None \<Rightarrow> Inl (Raised TypeError)
      | Some rs \<Rightarrow>
        if list_ex (\<lambda>r. r < 0) rs \<or> \<not> list_ex (\<lambda>r. r \<noteq> 0) rs then Inl (Raised ValueError)
        else case quantize (PyDecimal (m_amount m)) (m_currency m) of
          Inl p \<Rightarrow> Inl p
        | Inr q \<Rightarrow>
          if m_amount m \<noteq> q then Inl (Raised ValueError)
          else case currency_exponent (m_currency m) of
            Inl p \<Rightarrow> Inl p
          | Inr e \<Rightarrow>
            (case allocation_shares (m_amount m) e rs of
              Inl p \<Rightarrow> Inl p
            | Inr amounts \<Rightarrow>
              all_results (map (\<lambda>a. make_money (PyDecimal a) (m_currency m))
                (hand_out (m_amount m) e rs amounts))))"


section \<open>Rounding\<close>

lemma digits_bounds: "(0 < n \<longrightarrow> 10 ^ (digits n - 1) \<le> n) \<and> n < 10 ^ digits n \<and> 1 \<le> digits n"
proof (induction n rule: digits.induct)
  case (1 n)
  show ?case
  proof (cases "n < 10")
    case True
    then show ?thesis by (simp add: digits.simps [of n])
  next
    case False
    let ?d = "digits (n div 10)"
    from False have pos: "0 < n div 10" by (simp add: div_greater_zero_iff)
    with 1 False have ih: "10 ^ (?d - 1) \<le> n div 10" "n div 10 < 10 ^ ?d" "1 \<le> ?d" by auto
    have "10 ^ ?d = 10 * (10::nat) ^ (?d - 1)"
      using ih(3) by (cases ?d) auto
    also have "\<dots> \<le> n" using ih(1) by linarith
    finally have "10 ^ ?d \<le> n" .
    moreover have "n < 10 * 10 ^ ?d" using ih(2) by linarith
    ultimately show ?thesis using False by (simp add: digits.simps [of n])
  qed
qed

lemma lead_zeros_bound: "0 < x \<Longrightarrow> x < 1 \<Longrightarrow> 1 \<le> x * 10 ^ lead_zeros x"
proof (induction x rule: lead_zeros.induct)
  case (1 x)
  show ?case
  proof (cases "10 * x < 1")
    case True
    have "1 \<le> 10 * x * 10 ^ lead_zeros (10 * x)"
      using 1 True by simp
    then show ?thesis using 1(2,3) by (subst lead_zeros.simps) (simp add: mult.assoc mult.left_commute)
  next
    case False
    then show ?thesis
      using 1(2,3) by (subst lead_zeros.simps, subst lead_zeros.simps) simp
  qed
qed

lemma sig_factor_cases:
  obtains m where "sig_factor x = 10 ^ m" | m where "sig_factor x = 1 / 10 ^ m" "10 ^ (28 + m - 1) \<le> \<bar>x\<bar>" "0 < m"
proof (cases "1 \<le> \<bar>x\<bar>")
  case False
  then show ?thesis using that(1) by (simp add: sig_factor_def)
next
  case True
  let ?d = "digits (nat \<lfloor>\<bar>x\<bar>\<rfloor>)"
  show ?thesis
  proof (cases "?d \<le> 28")
    case True
    with \<open>1 \<le> \<bar>x\<bar>\<close> show ?thesis using that(1) by (simp add: sig_factor_def Let_def)
  next
    case False
    have f: "1 \<le> \<lfloor>\<bar>x\<bar>\<rfloor>" using True by (simp add: le_floor_iff)
    then have "10 ^ (?d - 1) \<le> nat \<lfloor>\<bar>x\<bar>\<rfloor>" using digits_bounds [of "nat \<lfloor>\<bar>x\<bar>\<rfloor>"] by auto
    then have "(10::int) ^ (?d - 1) \<le> \<lfloor>\<bar>x\<bar>\<rfloor>" using f by (simp add: le_nat_iff)
    then have "of_int ((10::int) ^ (?d - 1)) \<le> \<bar>x\<bar>" by (subst le_floor_iff [symmetric])
    then have "10 ^ (28 + (?d - 28) - 1) \<le> \<bar>x\<bar>" using False by simp
    then show ?thesis
      using that(2) [of "?d - 28"] True False by (simp add: sig_factor_def Let_def)
  qed
qed

lemma sig_factor_pos: "0 < sig_factor x"
  by (rule sig_factor_cases [of x]) auto

lemma sig_factor_large: "x \<noteq> 0 \<Longrightarrow> 10 ^ 27 \<le> \<bar>x\<bar> * sig_factor x"
proof (cases "1 \<le> \<bar>x\<bar>")
  case False
  assume "x \<noteq> 0"
  with False have "1 \<le> \<bar>x\<bar> * 10 ^ lead_zeros \<bar>x\<bar>" by (intro lead_zeros_bound) auto
  then have "10 ^ 27 * 1 \<le> 10 ^ 27 * (\<bar>x\<bar> * 10 ^ lead_zeros \<bar>x\<bar>)" by (rule mult_left_mono) simp
  then show ?thesis using False by (simp add: sig_factor_def power_add mult.left_commute)
next
  case True
  let ?n = "nat \<lfloor>\<bar>x\<bar>\<rfloor>"
  let ?d = "digits ?n"
  have f: "1 \<le> \<lfloor>\<bar>x\<bar>\<rfloor>" using True by (simp add: le_floor_iff)
  then have "10 ^ (?d - 1) \<le> ?n" using digits_bounds [of ?n] by auto
  then have "(10::int) ^ (?d - 1) \<le> \<lfloor>\<bar>x\<bar>\<rfloor>" using f by (simp add: le_nat_iff)
  then have "of_int ((10::int) ^ (?d - 1)) \<le> \<bar>x\<bar>" by (subst le_floor_iff [symmetric])
  then have le: "10 ^ (?d - 1) \<le> \<bar>x\<bar>" by simp
  have one: "1 \<le> ?d" using digits_bounds [of ?n] by simp
  show ?thesis
  proof (cases "?d \<le> 28")
    case d: True
    have "(10::rat) ^ 27 = 10 ^ (?d - 1) * 10 ^ (28 - ?d)"
      using d one by (simp only: power_add [symmetric]) simp
    also have "\<dots> \<le> \<bar>x\<bar> * 10 ^ (28 - ?d)" using le by (intro mult_right_mono) auto
    finally show ?thesis using d True by (simp add: sig_factor_def Let_def)
  next
    case d: False
    have "27 + (?d - 28) = ?d - 1" using d by simp
    then have "(10::rat) ^ 27 * 10 ^ (?d - 28) = 10 ^ (?d - 1)"
      by (simp only: power_add [symmetric])
    also have "\<dots> \<le> \<bar>x\<bar>" by (rule le)
    finally have "10 ^ 27 \<le> \<bar>x\<bar> / 10 ^ (?d - 28)" by (simp only: pos_le_divide_eq zero_less_power zero_less_numeral)
    then show ?thesis using d True by (simp only: sig_factor_def Let_def if_True if_False times_divide_eq_right mult_1_right)
  qed
qed

lemma round_half_even_of_int [simp]: "round_half_even (of_int k) = k"
  by (simp add: round_half_even_def)

lemma round_half_even_error: "\<bar>of_int (round_half_even x) - x\<bar> \<le> 1 / 2"
  unfolding round_half_even_def Let_def by (auto simp: abs_if) linarith+

lemma context_round_error: "\<bar>context_round x - x\<bar> \<le> \<bar>x\<bar> * (5 / 10 ^ 28)"
proof (cases "x = 0")
  case False
  let ?f = "sig_factor x"
  have f: "0 < ?f" by (rule sig_factor_pos)
  have "context_round x - x = (of_int (round_half_even (x * ?f)) - x * ?f) / ?f"
    using f False by (simp add: context_round_def diff_divide_distrib)
  then have "\<bar>context_round x - x\<bar> = \<bar>of_int (round_half_even (x * ?f)) - x * ?f\<bar> / ?f"
    using f by simp
  also have "\<dots> \<le> (1 / 2) / ?f" using f round_half_even_error by (intro divide_right_mono) auto
  also have "\<dots> \<le> \<bar>x\<bar> * (5 / 10 ^ 28)"
  proof -
    have "10 ^ 27 * (5 / 10 ^ 28) \<le> \<bar>x\<bar> * ?f * (5 / 10 ^ 28 :: rat)"
      using sig_factor_large [OF False] by (rule mult_right_mono) simp
    then have "1 / 2 \<le> \<bar>x\<bar> * (5 / 10 ^ 28) * ?f" by (simp add: mult.commute mult.left_commute)
    then show ?thesis using f by (simp only: pos_divide_le_eq)
  qed
  finally show ?thesis .
qed (simp add: context_round_def)


text \<open>Values of at most 28 digits are what the context leaves alone.\<close>

definition repr28 :: "rat \<Rightarrow> bool" where
  "repr28 x \<longleftrightarrow> (\<exists>k n. x = of_int k / 10 ^ n \<and> \<bar>k\<bar> < 10 ^ 28)"

lemma repr28I: "\<bar>k\<bar> < 10 ^ 28 \<Longrightarrow> repr28 (of_int k / 10 ^ n)"
  unfolding repr28_def by blast

lemma repr28_neg [simp]: "repr28 (- x) \<longleftrightarrow> repr28 x"
proof -
  have "repr28 (- y)" if "repr28 y" for y
  proof -
    from that obtain k n where "y = of_int k / 10 ^ n" "\<bar>k\<bar> < 10 ^ 28" by (auto simp: repr28_def)
    then have "- y = of_int (- k) / 10 ^ n" "\<bar>- k\<bar> < 10 ^ 28" by simp_all
    then show ?thesis unfolding repr28_def by blast
  qed
  from this [of x] this [of "- x"] show ?thesis by auto
qed

lemma scaled_integer:
  assumes x: "x \<noteq> 0" "x = of_int k / 10 ^ n" "\<bar>k\<bar> < 10 ^ 28" and f: "sig_factor x = 10 ^ m"
  shows "\<exists>j. x * 10 ^ m = of_int j"
proof (cases "n \<le> m")
  case True
  then have "(10::rat) ^ m = 10 ^ n * 10 ^ (m - n)" by (simp flip: power_add)
  then have "x * 10 ^ m = of_int (k * 10 ^ (m - n))"
    using x(2) by simp
  then show ?thesis by blast
next
  case False
  have "10 ^ 27 \<le> \<bar>x\<bar> * 10 ^ m" using sig_factor_large [OF x(1)] f by simp
  also have "(10::rat) ^ n = 10 ^ m * 10 ^ (n - m)" using False by (simp flip: power_add)
  then have "\<bar>x\<bar> * 10 ^ m = \<bar>of_int k\<bar> / 10 ^ (n - m)"
    using x(2) by simp
  finally have "10 ^ 27 * 10 ^ (n - m) \<le> (of_int \<bar>k\<bar> :: rat)"
    by (simp only: of_int_abs pos_le_divide_eq zero_less_power zero_less_numeral)
  moreover have "(10::rat) ^ 28 \<le> 10 ^ (27 + (n - m))"
    using False by (intro power_increasing) auto
  ultimately have "of_int (10 ^ 28) \<le> (of_int \<bar>k\<bar> :: rat)"
    unfolding power_add of_int_power of_int_numeral by (rule order_trans [rotated])
  with x(3) show ?thesis by (simp only: of_int_le_iff)
qed

lemma context_round_exact:
  assumes "repr28 x" shows "context_round x = x"
proof (cases "x = 0")
  case False
  from assms obtain k n where k: "x = of_int k / 10 ^ n" "\<bar>k\<bar> < 10 ^ 28" by (auto simp: repr28_def)
  show ?thesis
  proof (rule sig_factor_cases [of x])
    fix m assume f: "sig_factor x = 10 ^ m"
    from scaled_integer [OF False k f] obtain j where "x * 10 ^ m = of_int j" by blast
    then show ?thesis
      using f False by (simp only: context_round_def round_half_even_of_int if_False)
        (metis nonzero_mult_div_cancel_right power_not_zero zero_neq_numeral)
  next
    fix m assume m: "10 ^ (28 + m - 1) \<le> \<bar>x\<bar>" "0 < (m::nat)"
    have "\<bar>x\<bar> = of_int \<bar>k\<bar> / 10 ^ n" by (simp add: k(1))
    also have "\<dots> \<le> of_int \<bar>k\<bar>" by (simp add: divide_le_eq mult_le_cancel_left1)
    also have "\<dots> < of_int (10 ^ 28)" using k(2) by (simp only: of_int_less_iff)
    finally have "\<bar>x\<bar> < 10 ^ 28" by simp
    moreover have "(10::rat) ^ 28 \<le> 10 ^ (28 + m - 1)" using m(2) by (intro power_increasing) auto
    ultimately show ?thesis using m(1) by (meson leD le_less_trans order_trans)
  qed
qed (simp add: context_round_def)

lemma context_round_units: "\<bar>k\<bar> < 10 ^ 28 \<Longrightarrow> context_round (of_int k / 10 ^ e) = of_int k / 10 ^ e"
  by (simp add: context_round_exact repr28I)

lemma round_half_up_error: "\<bar>of_int (round_half_up x) - x\<bar> \<le> 1 / 2"
  unfolding round_half_up_def by (auto simp: abs_if) linarith+

lemma round_half_up_of_int [simp]: "round_half_up (of_int k) = k"
  unfolding round_half_up_def by (auto simp: floor_eq_iff)

lemma round_half_up_neg: "round_half_up (- x) = - round_half_up x"
proof (cases "x = 0")
  case True
  then show ?thesis using round_half_up_of_int [of 0] by simp
next
  case False
  then show ?thesis by (cases "0 < x") (auto simp: round_half_up_def)
qed

lemma dec_quantize_Inr:
  "dec_quantize r x e = Inr q \<longleftrightarrow> q = of_int (r (x * 10 ^ e)) / 10 ^ e \<and> \<bar>r (x * 10 ^ e)\<bar> < 10 ^ 28"
  by (auto simp: dec_quantize_def Let_def)

lemma quantize_Inr:
  "quantize (PyDecimal x) c = Inr q \<longleftrightarrow>
     (\<exists>e. currency_exponent c = Inr e \<and> dec_quantize round_half_up x e = Inr q)"
  by (auto simp: quantize_def split: sum.splits)

lemma quantize_repr28: "quantize (PyDecimal x) c = Inr q \<Longrightarrow> repr28 q"
  by (auto simp: quantize_Inr dec_quantize_Inr intro: repr28I)


section \<open>Allocation over ratios\<close>

definition tdiv :: "int \<Rightarrow> int \<Rightarrow> int" where
  "tdiv a b = (if 0 \<le> a then a div b else - ((- a) div b))"

lemma tdiv_dvd: "b dvd a \<Longrightarrow> tdiv a b = a div b"
  by (simp add: tdiv_def dvd_neg_div)

lemma tdiv_abs: "0 < b \<Longrightarrow> \<bar>tdiv a b\<bar> = \<bar>a\<bar> div b"
  by (auto simp: tdiv_def pos_imp_zdiv_nonneg_iff)

lemma tdiv_abs_le: "0 < b \<Longrightarrow> \<bar>tdiv a b\<bar> \<le> \<bar>a\<bar>"
  by (simp add: tdiv_abs) (metis abs_ge_zero div_by_1 int_one_le_iff_zero_less zdiv_mono2 zero_less_one)

lemma floor_near_quotient:
  fixes v :: rat
  assumes T: "0 < T" and a: "\<not> T dvd a" and near: "\<bar>v - of_int a / of_int T\<bar> < 1 / of_int T"
  shows "\<lfloor>v\<rfloor> = a div T"
proof -
  have m: "1 \<le> a mod T" "a mod T \<le> T - 1"
    using T a pos_mod_sign [OF T, of a] pos_mod_bound [OF T, of a] by (auto simp: dvd_eq_mod_eq_0)
  have e: "(of_int a / of_int T :: rat) = of_int (a div T) + of_int (a mod T) / of_int T"
    using T by (simp add: field_simps flip: of_int_mult of_int_add)
  have "(1::rat) / of_int T \<le> of_int (a mod T) / of_int T"
    using m T by (intro divide_right_mono) auto
  moreover have "of_int (a mod T) / of_int T \<le> (of_int (T - 1) / of_int T :: rat)"
    using m T by (intro divide_right_mono) (simp_all only: of_int_le_iff of_int_0_le_iff)
  moreover have "(of_int (T - 1) / of_int T :: rat) = 1 - 1 / of_int T"
    using T by (simp add: diff_divide_distrib)
  ultimately have "of_int (a div T) \<le> v" "v < of_int (a div T) + 1"
    using near e by (auto simp: abs_less_iff)
  then show ?thesis by (simp add: floor_unique)
qed

lemma round_down_near_quotient:
  fixes v :: rat
  assumes T: "0 < T" and a: "\<not> T dvd a" and near: "\<bar>v - of_int a / of_int T\<bar> < 1 / of_int T"
  shows "round_down v = tdiv a T"
proof (cases "0 \<le> a")
  case True
  have f: "\<lfloor>v\<rfloor> = a div T" using assms by (rule floor_near_quotient)
  with True T have "0 \<le> v" by (simp add: pos_imp_zdiv_nonneg_iff flip: zero_le_floor)
  with f True show ?thesis by (simp add: round_down_def tdiv_def)
next
  case False
  have "\<bar>- v - of_int (- a) / of_int T\<bar> < 1 / of_int T"
    using near by (simp add: abs_minus_commute)
  with T a have f: "\<lfloor>- v\<rfloor> = (- a) div T" by (intro floor_near_quotient) auto
  with False T have "0 \<le> - v" by (simp add: pos_imp_zdiv_nonneg_iff flip: zero_le_floor)
  with f False show ?thesis
    by (cases "v = 0") (auto simp: round_down_def tdiv_def)
qed

lemma round_down_of_int [simp]: "round_down (of_int k) = k"
  by (auto simp: round_down_def floor_eq_iff)

lemma share_exact:
  assumes T: "0 < T" and small: "\<bar>N * r\<bar> < 10 ^ 27"
  shows "dec_quantize round_down (dec_div (dec_mul (of_int N / 10 ^ e) (of_int r)) (of_int T)) e =
    Inr (of_int (tdiv (N * r) T) / 10 ^ e)"
proof -
  let ?a = "N * r"
  let ?x = "of_int ?a / 10 ^ e / of_int T :: rat"
  have b: "\<bar>?a\<bar> < 10 ^ 28" using small by simp
  have mul: "dec_mul (of_int N / 10 ^ e) (of_int r) = of_int ?a / 10 ^ e"
    using context_round_units [OF b] by (simp add: dec_mul_def)
  have "round_down (context_round ?x * 10 ^ e) = tdiv ?a T"
  proof (cases "T dvd ?a")
    case True
    then obtain q where q: "?a = T * q" by blast
    then have "?x = of_int q / 10 ^ e" using T by simp
    moreover have "\<bar>q\<bar> < 10 ^ 28"
    proof -
      have "\<bar>q\<bar> \<le> \<bar>?a\<bar>" using q T by (simp add: abs_mult mult_le_cancel_right1)
      then show ?thesis using b by linarith
    qed
    ultimately have "context_round ?x * 10 ^ e = of_int q" by (simp add: context_round_units)
    then show ?thesis using True q T by (simp add: tdiv_dvd)
  next
    case False
    have "context_round ?x * 10 ^ e - of_int ?a / of_int T = (context_round ?x - ?x) * 10 ^ e"
      by (simp add: left_diff_distrib)
    then have "\<bar>context_round ?x * 10 ^ e - of_int ?a / of_int T\<bar> = \<bar>context_round ?x - ?x\<bar> * 10 ^ e"
      by (simp add: abs_mult)
    also have "\<dots> \<le> \<bar>?x\<bar> * (5 / 10 ^ 28) * 10 ^ e"
      by (intro mult_right_mono context_round_error) simp
    also have "\<dots> = (of_int \<bar>?a\<bar> * (5 / 10 ^ 28)) / of_int T"
      using T by (simp add: abs_mult)
    also have "\<dots> < 1 / of_int T"
    proof (rule divide_strict_right_mono)
      have "(of_int \<bar>?a\<bar> :: rat) < of_int (10 ^ 27)" using small by (simp only: of_int_less_iff)
      then show "of_int \<bar>?a\<bar> * (5 / 10 ^ 28) < (1::rat)" by simp
    qed (use T in simp)
    finally show ?thesis by (rule round_down_near_quotient [OF T False])
  qed
  moreover have "\<bar>tdiv ?a T\<bar> < 10 ^ 28" using tdiv_abs_le [OF T, of ?a] b by linarith
  ultimately show ?thesis
    unfolding mul dec_div_def dec_quantize_def Let_def by simp
qed


lemma all_results_Inr: "all_results (map (\<lambda>x. Inr (f x)) xs) = Inr (map f xs)"
  by (induction xs) auto

lemma int_ratios_map [simp]: "int_ratios (map PyInt rs) = Some rs"
  by (induction rs) auto

lemma foldl_dec_add_units:
  "\<bar>a\<bar> + (\<Sum>c\<leftarrow>cs. \<bar>c\<bar>) < 10 ^ 28 \<Longrightarrow>
   foldl dec_add (of_int a / 10 ^ e) (map (\<lambda>c. of_int c / 10 ^ e) cs) = of_int (a + sum_list cs) / 10 ^ e"
proof (induction cs arbitrary: a)
  case (Cons c cs)
  have "0 \<le> (\<Sum>c\<leftarrow>cs. \<bar>c\<bar>)" by (induction cs) auto
  with Cons.prems have "\<bar>a + c\<bar> < 10 ^ 28" by simp
  then have "dec_add (of_int a / 10 ^ e) (of_int c / 10 ^ e) = of_int (a + c) / 10 ^ e"
    using context_round_units [of "a + c" e] by (simp add: dec_add_def add_divide_distrib)
  then show ?case using Cons.IH [of "a + c"] Cons.prems by (simp add: add.assoc)
qed simp

lemma dec_sum_units:
  "(\<Sum>c\<leftarrow>cs. \<bar>c\<bar>) < 10 ^ 28 \<Longrightarrow>
   dec_sum (map (\<lambda>c. of_int c / 10 ^ e) cs) = of_int (sum_list cs) / 10 ^ e"
  using foldl_dec_add_units [of 0 cs e] by (simp add: dec_sum_def)

text \<open>The truncated shares and what is left of the amount, in units.\<close>

lemma shares_split:
  assumes "0 < T" "0 \<le> (A::int)" "\<forall>r\<in>set rs. 0 \<le> r"
  shows "T * (\<Sum>r\<leftarrow>rs. A * r div T) + (\<Sum>r\<leftarrow>rs. A * r mod T) = A * sum_list rs"
    and "0 \<le> (\<Sum>r\<leftarrow>rs. A * r mod T)"
    and "(\<Sum>r\<leftarrow>rs. A * r mod T) \<le> T * int (length (filter (\<lambda>r. r \<noteq> 0) rs))"
  using assms(3)
proof (induction rs)
  case (Cons r rs)
  { case 1
    have "T * (A * r div T) + A * r mod T = A * r" by simp
    then show ?case using Cons(1) 1 by (simp add: algebra_simps)
  next
    case 2
    then show ?case using Cons(2) assms(1) by (simp add: pos_mod_sign)
  next
    case 3
    then show ?case using Cons(3) assms(1) less_imp_le [OF pos_mod_bound [OF assms(1), of "A * r"]]
      by (simp add: algebra_simps)
  }
qed simp_all

lemma sum_list_neg: "(\<Sum>x\<leftarrow>xs. - f x) = - (\<Sum>x\<leftarrow>xs. f x :: int)"
  by (induction xs) auto

lemma abs_sum_list_map: "\<bar>\<Sum>x\<leftarrow>xs. f x\<bar> \<le> (\<Sum>x\<leftarrow>xs. \<bar>f x\<bar> :: int)"
  by (induction xs) auto

lemma shares_remainder:
  fixes N :: int
  assumes T: "T = sum_list rs" "0 < T" and rs: "\<forall>r\<in>set rs. 0 \<le> r"
  defines "S \<equiv> (\<Sum>r\<leftarrow>rs. tdiv (N * r) T)"
  shows "\<bar>N - S\<bar> \<le> int (length (filter (\<lambda>r. r \<noteq> 0) rs))"
    and "(\<Sum>r\<leftarrow>rs. \<bar>tdiv (N * r) T\<bar>) \<le> \<bar>N\<bar>"
    and "0 \<le> N \<Longrightarrow> 0 \<le> N - S" and "N \<le> 0 \<Longrightarrow> N - S \<le> 0"
proof -
  let ?D = "\<Sum>r\<leftarrow>rs. \<bar>N\<bar> * r div T"
  let ?k = "int (length (filter (\<lambda>r. r \<noteq> 0) rs))"
  note sp = shares_split [OF T(2) abs_ge_zero [of N] rs]
  have "T * (\<bar>N\<bar> - ?D) = (\<Sum>r\<leftarrow>rs. \<bar>N\<bar> * r mod T)"
    using sp(1) T(1) by (simp add: algebra_simps)
  then have "0 \<le> T * (\<bar>N\<bar> - ?D)" "T * (\<bar>N\<bar> - ?D) \<le> T * ?k" using sp(2,3) by simp_all
  then have D: "0 \<le> \<bar>N\<bar> - ?D" "\<bar>N\<bar> - ?D \<le> ?k"
    using T(2) by (simp_all only: zero_le_mult_iff mult_le_cancel_left_pos) auto
  have abs_eq: "map (\<lambda>r. \<bar>tdiv (N * r) T\<bar>) rs = map (\<lambda>r. \<bar>N\<bar> * r div T) rs"
    using rs T(2) by (auto simp: tdiv_abs abs_mult)
  show "(\<Sum>r\<leftarrow>rs. \<bar>tdiv (N * r) T\<bar>) \<le> \<bar>N\<bar>" using D(1) by (simp add: abs_eq)
  have pos: "S = ?D" if "0 \<le> N"
  proof -
    have "map (\<lambda>r. tdiv (N * r) T) rs = map (\<lambda>r. \<bar>N\<bar> * r div T) rs"
      using rs that by (auto simp: tdiv_def)
    then show ?thesis unfolding S_def by (rule arg_cong)
  qed
  have neg: "S = - ?D" if "N < 0"
  proof -
    have "tdiv (N * r) T = - (\<bar>N\<bar> * r div T)" if "r \<in> set rs" for r
    proof (cases "r = 0")
      case False
      then have "N * r < 0" using rs that \<open>N < 0\<close> by (simp add: mult_neg_pos order.not_eq_order_implies_strict)
      then show ?thesis using \<open>N < 0\<close> by (simp add: tdiv_def)
    qed (simp add: tdiv_def)
    then have "map (\<lambda>r. tdiv (N * r) T) rs = map (\<lambda>r. - (\<bar>N\<bar> * r div T)) rs" by simp
    then have "S = (\<Sum>r\<leftarrow>rs. - (\<bar>N\<bar> * r div T))" unfolding S_def by (rule arg_cong)
    then show ?thesis by (simp only: sum_list_neg)
  qed
  show "\<bar>N - S\<bar> \<le> ?k" using pos neg D by (cases "0 \<le> N") auto
  show "0 \<le> N - S" if "0 \<le> N" using pos D that by simp
  show "N - S \<le> 0" if "N \<le> 0" using pos neg D that by (cases "N = 0") auto
qed

lemma sum_list_upd:
  "i < length xs \<Longrightarrow> sum_list (xs[i := x]) = sum_list xs + x - (xs ! i :: rat)"
  by (induction xs arbitrary: i) (auto simp: nth_Cons split: nat.splits)

text \<open>Handing one unit to each of a set of positions.\<close>

lemma bump_positions:
  assumes "distinct is" "\<forall>i\<in>set is. i < length as \<and> dec_add (as ! i) u = as ! i + u"
  shows "length (foldl (\<lambda>as i. as[i := dec_add (as ! i) u]) as is) = length as"
    and "sum_list (foldl (\<lambda>as i. as[i := dec_add (as ! i) u]) as is) = sum_list as + of_nat (length is) * u"
    and "j < length as \<Longrightarrow> foldl (\<lambda>as i. as[i := dec_add (as ! i) u]) as is ! j =
      (if j \<in> set is then as ! j + u else as ! j)"
proof -
  have "length (foldl (\<lambda>as i. as[i := dec_add (as ! i) u]) as is) = length as \<and>
    sum_list (foldl (\<lambda>as i. as[i := dec_add (as ! i) u]) as is) = sum_list as + of_nat (length is) * u \<and>
    (\<forall>j < length as. foldl (\<lambda>as i. as[i := dec_add (as ! i) u]) as is ! j =
      (if j \<in> set is then as ! j + u else as ! j))"
    using assms
  proof (induction "is" arbitrary: as)
    case (Cons i "is")
    let ?as = "as[i := dec_add (as ! i) u]"
    have i: "i < length as" "dec_add (as ! i) u = as ! i + u" "i \<notin> set is" using Cons.prems by auto
    have "\<forall>j\<in>set is. j < length ?as \<and> dec_add (?as ! j) u = ?as ! j + u"
      using Cons.prems i by (auto simp: nth_list_update)
    with Cons.IH [of ?as] Cons.prems(1) i show ?case
      by (auto simp: nth_list_update sum_list_upd algebra_simps)
  qed auto
  then show "length (foldl (\<lambda>as i. as[i := dec_add (as ! i) u]) as is) = length as"
    and "sum_list (foldl (\<lambda>as i. as[i := dec_add (as ! i) u]) as is) = sum_list as + of_nat (length is) * u"
    and "j < length as \<Longrightarrow> foldl (\<lambda>as i. as[i := dec_add (as ! i) u]) as is ! j =
      (if j \<in> set is then as ! j + u else as ! j)"
    by blast+
qed


lemma length_eligible: "length (eligible_indexes rs) = length (filter (\<lambda>r. r \<noteq> 0) rs)"
proof -
  have "filter (\<lambda>r. r \<noteq> 0) (map ((!) rs) [0..<length rs]) =
      map ((!) rs) (filter (\<lambda>i. rs ! i \<noteq> 0) [0..<length rs])"
    by (simp add: filter_map o_def)
  then have "filter (\<lambda>r. r \<noteq> 0) rs = map ((!) rs) (eligible_indexes rs)"
    by (simp only: map_nth eligible_indexes_def)
  then show ?thesis by simp
qed

lemma hand_out_exact:
  fixes N :: int and e :: nat
  assumes T: "T = sum_list rs" "0 < T" and rs: "\<forall>r\<in>set rs. 0 \<le> r" and N: "\<bar>N\<bar> < 10 ^ 27"
  defines "shares \<equiv> map (\<lambda>r. of_int (tdiv (N * r) T) / 10 ^ e :: rat) rs"
  shows "sum_list (hand_out (of_int N / 10 ^ e) e rs shares) = of_int N / 10 ^ e"
    and "length (hand_out (of_int N / 10 ^ e) e rs shares) = length rs"
    and "j < length rs \<Longrightarrow> \<exists>d. hand_out (of_int N / 10 ^ e) e rs shares ! j =
      of_int (tdiv (N * (rs ! j)) T + d) / 10 ^ e \<and>
      (d = 0 \<or> rs ! j \<noteq> 0 \<and> 0 < N \<and> d = 1 \<or> rs ! j \<noteq> 0 \<and> N < 0 \<and> d = -1)"
proof -
  define S where "S = (\<Sum>r\<leftarrow>rs. tdiv (N * r) T)"
  define R where "R = N - S"
  define u :: rat where "u = (if 0 < R then 1 else -1) / 10 ^ e"
  define "is" where "is = take (nat \<bar>R\<bar>) (eligible_indexes rs)"
  note rem = shares_remainder [OF T rs, of N, folded S_def]
  have len: "length (eligible_indexes rs) = length (filter (\<lambda>r. r \<noteq> 0) rs)"
    by (rule length_eligible)
  have Rk: "\<bar>R\<bar> \<le> int (length (eligible_indexes rs))" using rem(1) by (simp add: len R_def)
  have Sb: "\<bar>S\<bar> \<le> \<bar>N\<bar>" unfolding S_def by (rule order_trans [OF abs_sum_list_map rem(2)])
  have sum: "dec_sum shares = of_int S / 10 ^ e"
    using dec_sum_units [of "map (\<lambda>r. tdiv (N * r) T) rs" e] rem(2) N
    by (simp add: shares_def S_def o_def)
  have Rb: "\<bar>R\<bar> < 10 ^ 28" using Sb N by (simp add: R_def)
  have "dec_sub (of_int N / 10 ^ e) (dec_sum shares) = of_int R / 10 ^ e"
    using context_round_units [OF Rb, of e] by (simp add: sum dec_sub_def R_def diff_divide_distrib)
  then have rem_eq: "round_down (dec_div (dec_sub (of_int N / 10 ^ e) (dec_sum shares)) (1 / 10 ^ e)) = R"
    using context_round_units [OF Rb, of 0] by (simp add: dec_div_def)
  have ho: "hand_out (of_int N / 10 ^ e) e rs shares =
      foldl (\<lambda>as i. as[i := dec_add (as ! i) u]) shares is"
    unfolding hand_out_def Let_def rem_eq u_def is_def by simp
  have "distinct is" by (simp add: is_def eligible_indexes_def)
  moreover have elig: "i < length rs \<and> rs ! i \<noteq> 0" if "i \<in> set is" for i
    using that set_take_subset [of "nat \<bar>R\<bar>" "eligible_indexes rs"] by (auto simp: is_def eligible_indexes_def)
  moreover have "dec_add (shares ! i) u = shares ! i + u" if "i < length rs" for i
  proof -
    have "rs ! i \<le> T" using that rs T(1) by (simp add: member_le_sum_list)
    let ?d = "if 0 < R then 1 else - 1 :: int"
    have "\<bar>tdiv (N * (rs ! i)) T\<bar> \<le> (\<Sum>r\<leftarrow>rs. \<bar>tdiv (N * r) T\<bar>)"
      using that by (intro member_le_sum_list) auto
    then have b: "\<bar>tdiv (N * (rs ! i)) T + ?d\<bar> < 10 ^ 28" using rem(2) N by auto
    have "shares ! i + u = of_int (tdiv (N * (rs ! i)) T + ?d) / 10 ^ e"
      using that by (simp add: shares_def u_def add_divide_distrib)
    then show ?thesis using context_round_units [OF b, of e] by (simp add: dec_add_def)
  qed
  ultimately have bump: "distinct is" "\<forall>i\<in>set is. i < length shares \<and> dec_add (shares ! i) u = shares ! i + u"
    by (auto simp: shares_def)
  have n_is: "of_nat (length is) * u = of_int R / (10 ^ e :: rat)"
    using Rk by (auto simp: is_def u_def)
  have "sum_list shares = of_int S / 10 ^ e"
    unfolding shares_def S_def by (induction rs) (simp_all add: add_divide_distrib)
  with bump_positions(2) [OF bump] n_is
  show "sum_list (hand_out (of_int N / 10 ^ e) e rs shares) = of_int N / 10 ^ e"
    by (simp add: ho R_def diff_divide_distrib)
  show "length (hand_out (of_int N / 10 ^ e) e rs shares) = length rs"
    unfolding ho bump_positions(1) [OF bump] by (simp add: shares_def)
  assume j: "j < length rs"
  let ?d = "if j \<in> set is then if 0 < R then 1 else - 1 else 0 :: int"
  have "foldl (\<lambda>as i. as[i := dec_add (as ! i) u]) shares is ! j = of_int (tdiv (N * (rs ! j)) T + ?d) / 10 ^ e"
    using bump_positions(3) [OF bump, of j] j by (simp add: shares_def u_def add_divide_distrib)
  moreover have "0 < N" if "0 < R" using that rem(3,4) by (fold R_def) (cases "0 < N", auto)
  moreover have "N < 0" if "j \<in> set is" "\<not> 0 < R"
  proof -
    have "R \<noteq> 0" using that(1) by (auto simp: is_def)
    then show ?thesis using that(2) rem(3) by (fold R_def) linarith
  qed
  ultimately show "\<exists>d. hand_out (of_int N / 10 ^ e) e rs shares ! j =
      of_int (tdiv (N * (rs ! j)) T + d) / 10 ^ e \<and>
      (d = 0 \<or> rs ! j \<noteq> 0 \<and> 0 < N \<and> d = 1 \<or> rs ! j \<noteq> 0 \<and> N < 0 \<and> d = -1)"
    using elig [of j] by (intro exI [of _ ?d]) (auto simp: ho)
qed


lemma tdiv_zero: "tdiv 0 T = 0"
  by (simp add: tdiv_def)

lemma tdiv_bounds:
  assumes "0 < T"
  shows "0 \<le> a \<Longrightarrow> of_int (tdiv a T) \<le> (of_int a / of_int T :: rat) \<and> (of_int a / of_int T :: rat) < of_int (tdiv a T) + 1"
    and "a \<le> 0 \<Longrightarrow> (of_int a / of_int T :: rat) \<le> of_int (tdiv a T) \<and> of_int (tdiv a T) - 1 < (of_int a / of_int T :: rat)"
proof -
  have fl: "of_int (b div T) \<le> (of_int b / of_int T :: rat) \<and> (of_int b / of_int T :: rat) < of_int (b div T) + 1" for b
    using floor_correct [of "of_int b / of_int T :: rat"] by (simp add: floor_divide_of_int_eq)
  show "of_int (tdiv a T) \<le> (of_int a / of_int T :: rat) \<and> (of_int a / of_int T :: rat) < of_int (tdiv a T) + 1" if "0 \<le> a"
    using fl [of a] that by (simp add: tdiv_def)
  show "(of_int a / of_int T :: rat) \<le> of_int (tdiv a T) \<and> of_int (tdiv a T) - 1 < (of_int a / of_int T :: rat)" if "a \<le> 0"
    using fl [of "- a"] that by (cases "a = 0") (auto simp: tdiv_def)
qed

lemma share_within_unit:
  assumes "0 < T" "0 \<le> r" "d = 0 \<or> 0 < N \<and> d = 1 \<or> N < 0 \<and> d = -1"
  shows "\<bar>of_int (tdiv (N * r) T + d) / 10 ^ e - of_int N / 10 ^ e * of_int r / of_int T :: rat\<bar> \<le> 1 / 10 ^ e"
proof -
  have "\<bar>of_int (tdiv (N * r) T + d) - of_int (N * r) / of_int T :: rat\<bar> \<le> 1"
  proof (cases "N * r = 0")
    case True
    then show ?thesis using assms(3) by (auto simp: tdiv_def)
  next
    case False
    then have r: "0 < r" using assms(2) by (cases "r = 0") auto
    consider "0 < N" "d = 0 \<or> d = 1" | "N < 0" "d = 0 \<or> d = -1"
      using assms(3) False by (cases N "0 :: int" rule: linorder_cases) auto
    then show ?thesis
    proof cases
      case 1
      then have "0 \<le> N * r" using r by simp
      from tdiv_bounds(1) [OF assms(1) this] 1(2) show ?thesis by (auto simp del: of_int_mult)
    next
      case 2
      then have "N * r \<le> 0" using r by (simp add: mult_le_0_iff)
      from tdiv_bounds(2) [OF assms(1) this] 2(2) show ?thesis by (auto simp del: of_int_mult)
    qed
  qed
  then have "\<bar>of_int (tdiv (N * r) T + d) - of_int (N * r) / of_int T :: rat\<bar> / 10 ^ e \<le> 1 / 10 ^ e"
    by (intro divide_right_mono) auto
  moreover have "of_int (tdiv (N * r) T + d) / 10 ^ e - of_int N / 10 ^ e * of_int r / of_int T =
      (of_int (tdiv (N * r) T + d) - of_int (N * r) / of_int T :: rat) / 10 ^ e"
    by (simp add: diff_divide_distrib)
  ultimately show ?thesis by (simp only: abs_divide power_abs abs_numeral)
qed

text \<open>
  C10. \<open>Money.allocate\<close> on a whole number of minor units and non-negative ratios with a positive
  total always succeeds: it returns one amount per ratio, in the same currency, whose total is
  exactly the amount; each is within one minor unit of its exact proportional share, and a zero
  ratio gets nothing.  The bound keeps every intermediate product within the 28 digits of the
  decimal context.
\<close>

theorem allocate_exact:
  assumes "currency_exponent (m_currency m) = Inr e" "m_amount m = of_int N / 10 ^ e"
    and "rs \<noteq> []" "\<forall>r\<in>set rs. 0 \<le> r" "0 < sum_list rs" "\<bar>N\<bar> * sum_list rs < 10 ^ 27"
  shows "\<exists>parts. allocate m (map PyInt rs) = Inr parts \<and> length parts = length rs \<and>
    sum_list (map m_amount parts) = m_amount m \<and>
    (\<forall>j < length rs. m_currency (parts ! j) = m_currency m \<and>
      \<bar>m_amount (parts ! j) - m_amount m * of_int (rs ! j) / of_int (sum_list rs)\<bar> \<le> 1 / 10 ^ e \<and>
      (rs ! j = 0 \<longrightarrow> m_amount (parts ! j) = 0))"
proof -
  let ?T = "sum_list rs"
  let ?c = "m_currency m"
  define shares where "shares = map (\<lambda>r. of_int (tdiv (N * r) ?T) / 10 ^ e :: rat) rs"
  define out where "out = hand_out (m_amount m) e rs shares"
  have "1 \<le> ?T" using assms(5) by simp
  then have "\<bar>N\<bar> * 1 \<le> \<bar>N\<bar> * ?T" by (intro mult_left_mono) auto
  then have Nb: "\<bar>N\<bar> < 10 ^ 27" using assms(6) by simp
  have ratio_le: "\<bar>N * r\<bar> < 10 ^ 27" if "r \<in> set rs" for r
  proof -
    have "r \<le> ?T" using that assms(4) by (simp add: member_le_sum_list)
    then have "\<bar>N\<bar> * r \<le> \<bar>N\<bar> * ?T" by (intro mult_left_mono) auto
    then show ?thesis using assms(4,6) that by (simp add: abs_mult)
  qed
  have "map (\<lambda>r. dec_quantize round_down (dec_div (dec_mul (m_amount m) (of_int r)) (of_int ?T)) e) rs =
      map (\<lambda>r. Inr (of_int (tdiv (N * r) ?T) / 10 ^ e)) rs"
    using share_exact [OF assms(5) ratio_le, of _ e] by (simp add: assms(2))
  then have sh: "allocation_shares (m_amount m) e rs = Inr shares"
    by (simp only: allocation_shares_def all_results_Inr shares_def)
  have q: "quantize (PyDecimal (m_amount m)) ?c = Inr (m_amount m)"
    using assms(1,2) Nb by (simp add: quantize_Inr dec_quantize_Inr)
  have "\<exists>r\<in>set rs. r \<noteq> 0" using assms(5) by (metis less_irrefl sum_list_eq_0_iff sum_list_nonneg assms(4) sum_list_0 map_idI)
  then have alloc: "allocate m (map PyInt rs) = Inr (map (\<lambda>a. \<lparr>m_amount = a, m_currency = ?c\<rparr>) out)"
    using assms(1,3,4) q sh
    by (auto simp: allocate_def make_money_def list_ex_iff all_results_Inr out_def)
  note ho = hand_out_exact [where e = e, OF refl assms(5,4) Nb, folded assms(2), folded shares_def, folded out_def]
  have "\<bar>out ! j - m_amount m * of_int (rs ! j) / of_int ?T\<bar> \<le> 1 / 10 ^ e \<and> (rs ! j = 0 \<longrightarrow> out ! j = 0)"
    if "j < length rs" for j
  proof -
    have "j < length rs" by (rule that)
    note hj = ho(3) [OF this]
    have "0 \<le> rs ! j" using assms(4) that by simp
    moreover obtain d where d: "out ! j = of_int (tdiv (N * (rs ! j)) ?T + d) / 10 ^ e"
      "d = 0 \<or> rs ! j \<noteq> 0 \<and> 0 < N \<and> d = 1 \<or> rs ! j \<noteq> 0 \<and> N < 0 \<and> d = -1"
      using hj by blast
    moreover from d(2) have "d = 0 \<or> 0 < N \<and> d = 1 \<or> N < 0 \<and> d = -1" by blast
    ultimately have "\<bar>out ! j - m_amount m * of_int (rs ! j) / of_int ?T\<bar> \<le> 1 / 10 ^ e"
      using share_within_unit [OF assms(5)] by (simp only: assms(2))
    then show ?thesis using d by (auto simp: tdiv_zero)
  qed
  then show ?thesis using alloc ho(1,2) by (auto simp: o_def)
qed


lemma usd_exponent: "currency_exponent ''USD'' = Inr 2"
  by code_simp

theorem allocate_exact_witness:
  "\<exists>parts. allocate \<lparr>m_amount = 100, m_currency = ''USD''\<rparr> (map PyInt [1, 1, 1]) = Inr parts \<and>
    length parts = 3 \<and> sum_list (map m_amount parts) = 100"
  using allocate_exact [of "\<lparr>m_amount = 100, m_currency = ''USD''\<rparr>" 2 10000 "[1, 1, 1]"]
  by (auto simp: usd_exponent)

section \<open>Quantisation\<close>

lemma round_half_up_tie:
  assumes "\<bar>of_int (round_half_up y) - y\<bar> = 1 / 2"
  shows "\<bar>y\<bar> < \<bar>of_int (round_half_up y)\<bar>"
proof -
  have pos: "\<bar>z\<bar> < \<bar>of_int (round_half_up z)\<bar>"
    if "\<bar>of_int (round_half_up z) - z\<bar> = 1 / 2" "0 \<le> z" for z :: rat
  proof -
    have f: "of_int (round_half_up z) = (of_int \<lfloor>z + 1 / 2\<rfloor> :: rat)" using that(2) by (simp add: round_half_up_def)
    have "z + 1 / 2 < of_int \<lfloor>z + 1 / 2\<rfloor> + 1" by linarith
    then have "z - 1 / 2 < of_int (round_half_up z)" unfolding f by linarith
    then have "of_int (round_half_up z) = z + 1 / 2" using that(1) by linarith
    then show ?thesis using that(2) by linarith
  qed
  show ?thesis
  proof (cases "0 \<le> y")
    case False
    then show ?thesis using pos [of "- y"] assms by (simp add: round_half_up_neg abs_minus_commute)
  qed (use pos assms in blast)
qed

text \<open>
  C11. A successful \<open>quantize\<close> returns a whole number of the currency's minor units, at most half
  a unit from the amount; an amount exactly halfway goes away from zero (HALF_UP); quantising is
  idempotent and commutes with negation.
\<close>

theorem quantize_half_up:
  assumes "quantize (PyDecimal x) c = Inr q" "currency_exponent c = Inr e"
  shows "(\<exists>k. q = of_int k / 10 ^ e) \<and> \<bar>q - x\<bar> \<le> 1 / (2 * 10 ^ e) \<and>
    (\<bar>q - x\<bar> = 1 / (2 * 10 ^ e) \<longrightarrow> \<bar>x\<bar> < \<bar>q\<bar>) \<and>
    quantize (PyDecimal q) c = Inr q \<and> quantize (PyDecimal (- x)) c = Inr (- q)"
proof -
  let ?k = "round_half_up (x * 10 ^ e)"
  let ?p = "10 ^ e :: rat"
  have p: "0 < ?p" by simp
  from assms have q: "q = of_int ?k / ?p" "\<bar>?k\<bar> < 10 ^ 28" by (auto simp: quantize_Inr dec_quantize_Inr)
  have d: "q - x = (of_int ?k - x * ?p) / ?p" by (simp add: q(1) diff_divide_distrib)
  have d2: "\<bar>q - x\<bar> = \<bar>of_int ?k - x * ?p\<bar> / ?p" by (simp only: d abs_divide power_abs abs_numeral)
  have "\<bar>of_int ?k - x * ?p\<bar> / ?p \<le> (1 / 2) / ?p"
    using round_half_up_error by (intro divide_right_mono) auto
  then have err: "\<bar>q - x\<bar> \<le> 1 / (2 * ?p)" by (simp add: d2)
  have tie: "\<bar>x\<bar> < \<bar>q\<bar>" if "\<bar>q - x\<bar> = 1 / (2 * ?p)"
  proof -
    have "\<bar>of_int ?k - x * ?p\<bar> = 1 / 2" using that p by (simp add: d2 divide_eq_eq)
    then have "\<bar>x * ?p\<bar> < \<bar>of_int ?k\<bar>" by (rule round_half_up_tie)
    moreover have "\<bar>x * ?p\<bar> = \<bar>x\<bar> * ?p" by (simp add: abs_mult)
    moreover have "\<bar>q\<bar> = \<bar>of_int ?k\<bar> / ?p" by (simp only: q(1) abs_divide power_abs abs_numeral)
    ultimately show ?thesis using p by (simp only: pos_less_divide_eq)
  qed
  have idem: "quantize (PyDecimal q) c = Inr q"
    using assms(2) q by (simp add: quantize_Inr dec_quantize_Inr)
  have "quantize (PyDecimal (- x)) c = Inr (- q)"
    using assms(2) q round_half_up_neg [of "x * ?p"] by (simp add: quantize_Inr dec_quantize_Inr)
  with q(1) err tie idem show ?thesis by blast
qed

theorem quantize_half_up_witness:
  "quantize (PyDecimal (5 / 1000)) ''USD'' = Inr (1 / 100) \<and>
   quantize (PyDecimal (- (5 / 1000))) ''USD'' = Inr (- (1 / 100))"
proof -
  have q: "quantize (PyDecimal (5 / 1000)) ''USD'' = Inr (1 / 100)"
    by (simp add: quantize_Inr usd_exponent dec_quantize_Inr round_half_up_def)
  from quantize_half_up [OF q usd_exponent] q show ?thesis by simp
qed

text \<open>The bundled currency table passes the validation of \<open>_currency_exponents\<close>.\<close>

lemma iso4217_valid:
  "list_all (\<lambda>(code, e). length code = 3 \<and> isupper code \<and> e \<le> 4) iso4217 \<and> distinct (map fst iso4217)"
  by code_simp

lemma map_of_in: "map_of xs k = Some v \<Longrightarrow> list_all P xs \<Longrightarrow> P (k, v)"
  by (auto dest: map_of_SomeD simp: list_all_iff)

lemma currency_exponent_le: "currency_exponent c = Inr e \<Longrightarrow> e \<le> 4"
  using map_of_in [of iso4217 c e] iso4217_valid
  by (auto simp: currency_exponent_def split: if_splits option.splits)

text \<open>A value stored in a \<open>numeric(18,4)\<close> column.\<close>

definition numeric18_4 :: "rat \<Rightarrow> bool" where
  "numeric18_4 x \<longleftrightarrow> (\<exists>k. x = of_int k / 10 ^ 4 \<and> \<bar>k\<bar> < 10 ^ 18)"

lemma numeric18_4_repr28: "numeric18_4 x \<Longrightarrow> repr28 x"
proof -
  assume "numeric18_4 x"
  then obtain k where k: "x = of_int k / 10 ^ 4" "\<bar>k\<bar> < 10 ^ 18" by (auto simp: numeric18_4_def)
  then have "\<bar>k\<bar> < 10 ^ 28" by simp
  then show ?thesis unfolding k(1) by (rule repr28I)
qed

lemma dec_add_numeric [simp]: "numeric18_4 a \<Longrightarrow> numeric18_4 b \<Longrightarrow> dec_add a b = a + b"
proof -
  assume "numeric18_4 a" "numeric18_4 b"
  then obtain k l where k: "a = of_int k / 10 ^ 4" "\<bar>k\<bar> < 10 ^ 18" and l: "b = of_int l / 10 ^ 4" "\<bar>l\<bar> < 10 ^ 18"
    by (auto simp: numeric18_4_def)
  have "\<bar>k + l\<bar> < 10 ^ 28" using k(2) l(2) by simp
  from context_round_units [OF this, of 4] show ?thesis
    by (simp add: dec_add_def k(1) l(1) add_divide_distrib)
qed

lemma numeric18_4_neg [simp]: "numeric18_4 (- x) \<longleftrightarrow> numeric18_4 x"
proof -
  have "numeric18_4 (- y)" if "numeric18_4 y" for y
  proof -
    from that obtain k where "y = of_int k / 10 ^ 4" "\<bar>k\<bar> < 10 ^ 18" by (auto simp: numeric18_4_def)
    then have "- y = of_int (- k) / 10 ^ 4" "\<bar>- k\<bar> < 10 ^ 18" by simp_all
    then show ?thesis unfolding numeric18_4_def by blast
  qed
  from this [of x] this [of "- x"] show ?thesis by auto
qed

lemma dec_neg_repr28 [simp]: "repr28 x \<Longrightarrow> dec_neg x = - x"
  by (simp add: dec_neg_def context_round_exact)

lemma dec_sub_numeric [simp]: "numeric18_4 a \<Longrightarrow> numeric18_4 b \<Longrightarrow> dec_sub a b = a - b"
  using dec_add_numeric [of a "- b"] by (simp add: dec_add_def dec_sub_def)

end
