(* ===== verification/Database.thy ===== *)
theory Database
  imports Money
begin

text \<open>
  The rows the tenant's business transactions read and write, one record field per table of
  \<open>migrations/\<close>.  Rows of every organization live in the same tables; each row carries its
  \<open>org_id\<close> and every query of the code filters on the scope's.  Also the calendar date of the
  standard library and the audit writer (\<open>flo/kernel/audit/writer.py\<close>).
\<close>

section \<open>Calendar dates\<close>

datatype date = Date (year: int) (month: int) (day: int)

text \<open>Dates compare by year, month and day, as \<open>datetime.date\<close> does.\<close>

instantiation date :: linorder
begin

definition less_eq_date :: "date \<Rightarrow> date \<Rightarrow> bool" where
  "less_eq_date a b \<longleftrightarrow> year a < year b \<or> year a = year b \<and>
     (month a < month b \<or> month a = month b \<and> day a \<le> day b)"

definition less_date :: "date \<Rightarrow> date \<Rightarrow> bool" where
  "less_date a b \<longleftrightarrow> year a < year b \<or> year a = year b \<and>
     (month a < month b \<or> month a = month b \<and> day a < day b)"

instance
  by standard (auto simp: less_eq_date_def less_date_def date.expand)

end

definition leap_year :: "int \<Rightarrow> bool" where
  "leap_year y \<longleftrightarrow> 4 dvd y \<and> (\<not> 100 dvd y \<or> 400 dvd y)"

text \<open>The second component of \<open>calendar.monthrange\<close>.\<close>

definition month_length :: "int \<Rightarrow> int \<Rightarrow> int" where
  "month_length y m =
     (if m = 2 then if leap_year y then 29 else 28
      else if m \<in> {4, 6, 9, 11} then 30 else 31)"

definition valid_date :: "date \<Rightarrow> bool" where
  "valid_date d \<longleftrightarrow> 1 \<le> month d \<and> month d \<le> 12 \<and> 1 \<le> day d \<and> day d \<le> month_length (year d) (month d)"

text \<open>\<open>d - timedelta(days=1)\<close>.\<close>

definition day_before :: "date \<Rightarrow> date" where
  "day_before d =
     (if 1 < day d then Date (year d) (month d) (day d - 1)
      else if 1 < month d then Date (year d) (month d - 1) (month_length (year d) (month d - 1))
      else Date (year d - 1) 12 31)"

section \<open>JSON values\<close>

datatype json =
    JNull | JBool bool | JNum rat | JStr string | JList "json list" | JObj "(string \<times> json) list"

section \<open>Rows\<close>

datatype project_status = Draft | ApprovalPending | Active | Deferred | Completed | Abandoned

datatype project_health = UnknownHealth | OnTrack | AtRisk | OffTrack

record project_row =
  p_org :: uuid
  p_bu :: uuid
  p_parent :: "uuid option"
  p_root :: uuid
  p_depth :: nat
  p_name :: string
  p_status :: project_status
  p_currency :: string
  p_department :: string
  p_account :: string
  p_version :: nat
  p_number :: string
  p_source_requisition :: "uuid option"
  p_generated_by :: "uuid option"
  p_description :: "string option"
  p_external_ref :: "string option"
  p_owner :: uuid
  p_sponsor :: "uuid option"
  p_planned_start :: "date option"
  p_planned_end :: "date option"
  p_health :: project_health
  p_percent :: int
  p_actual_start :: "date option"
  p_actual_end :: "date option"
  p_created_by :: "uuid option"

datatype ledger_type =
  Allocation | Reservation | Commitment | Actual | Release | Reversal | Transfer | Adjustment

datatype bucket = BAllocated | BReserved | BCommitted | BActual

record ledger_entry =
  le_id :: nat
  le_org :: uuid
  le_bu :: uuid
  le_project :: uuid
  le_type :: ledger_type
  le_bucket :: bucket
  le_amount :: rat
  le_currency :: string
  le_source_type :: string
  le_source_id :: "uuid option"
  le_group :: "uuid option"
  le_reverses :: "nat option"
  le_department :: string
  le_account :: string
  le_effective :: date
  le_posted_at :: timestamp
  le_actor :: uuid
  le_reason :: "string option"
  le_releases :: "nat option"
  le_key :: "string option"
  le_converts :: "nat option"

record balance_row =
  b_org :: uuid
  b_bu :: uuid
  b_currency :: string
  b_allocated :: rat
  b_reserved :: rat
  b_committed :: rat
  b_actual :: rat
  b_version :: nat
  b_updated_at :: timestamp

text \<open>The generated column \<open>available\<close> of \<open>project_balance\<close> (migration 0020).\<close>

definition b_available :: "balance_row \<Rightarrow> rat" where
  "b_available b = b_allocated b - b_reserved b - b_committed b - b_actual b"

fun bucket_of :: "bucket \<Rightarrow> balance_row \<Rightarrow> rat" where
  "bucket_of BAllocated b = b_allocated b"
| "bucket_of BReserved b = b_reserved b"
| "bucket_of BCommitted b = b_committed b"
| "bucket_of BActual b = b_actual b"

datatype unit_kind = BusinessUnit | OrganizationalUnit

record unit_row =
  u_id :: uuid
  u_org :: uuid
  u_parent :: "uuid option"
  u_code :: string
  u_name :: string
  u_kind :: unit_kind
  u_active :: bool

record setting_row =
  st_org :: uuid
  st_unit :: "uuid option"
  st_key :: string
  st_value :: json
  st_id :: uuid
  st_by :: "uuid option"

datatype period_status = PeriodOpen | PeriodClosed

record period_row =
  fp_id :: uuid
  fp_org :: uuid
  fp_year :: int
  fp_no :: int
  fp_starts :: date
  fp_ends :: date
  fp_status :: period_status
  fp_closed_by :: "uuid option"
  fp_closed_at :: "timestamp option"

record master_row =
  mr_org :: uuid
  mr_kind :: string
  mr_code :: string
  mr_active :: bool
  mr_from :: date
  mr_to :: "date option"
  mr_id :: uuid
  mr_name :: string
  mr_attributes :: "(string \<times> json) list"

record organization_row =
  or_name :: string
  or_currency :: "string option"
  or_label :: "string option"                 \<comment> \<open>of \<open>organization_code\<close>\<close>

datatype address_kind = BillTo | ShipTo

record address_row =
  ad_id :: uuid
  ad_org :: uuid
  ad_unit :: uuid
  ad_kind :: address_kind
  ad_line1 :: string
  ad_line2 :: "string option"
  ad_city :: string
  ad_region :: "string option"
  ad_postal :: "string option"
  ad_country :: string
  ad_from :: date
  ad_to :: "date option"
  ad_by :: "uuid option"

record format_row =
  nf_id :: uuid
  nf_org :: uuid
  nf_scope :: uuid
  nf_type :: string
  nf_prefix :: string
  nf_year :: bool
  nf_width :: int
  nf_from :: date

text \<open>Where permissions can be granted, each scope below its parent.\<close>

datatype scope_kind = ScopeOrg | ScopeUnit | ScopeProject

record scope_row =
  sc_org :: uuid
  sc_kind :: scope_kind
  sc_id :: uuid
  sc_parent_kind :: scope_kind
  sc_parent :: uuid
  sc_roll_down :: bool

text \<open>Who may do what: roles of explicit permissions, and their grants at a scope.\<close>

record role_row =
  ro_id :: uuid
  ro_org :: uuid
  ro_code :: string
  ro_name :: string
  ro_system :: bool

record grant_row =
  gr_id :: uuid
  gr_org :: uuid
  gr_user :: uuid
  gr_role :: uuid
  gr_kind :: scope_kind
  gr_scope :: uuid
  gr_by :: "uuid option"
  gr_at :: timestamp
  gr_from :: "timestamp option"

text \<open>Identities, their memberships and their sessions are of no organization.\<close>

record identity_row =
  idn_id :: uuid
  idn_email :: string
  idn_active :: bool
  idn_deactivated :: "timestamp option"
  idn_privileged :: int
  idn_password :: string

record member_row =
  mb_identity :: uuid
  mb_org :: uuid
  mb_used :: "timestamp option"

record session_row =
  sn_id :: uuid
  sn_identity :: uuid
  sn_hash :: string
  sn_created :: timestamp
  sn_seen :: timestamp
  sn_auth :: timestamp
  sn_mfa :: "timestamp option"
  sn_idle_seconds :: int
  sn_idle :: timestamp
  sn_absolute :: timestamp
  sn_org :: "uuid option"
  sn_revoked :: "timestamp option"
  sn_ip :: "string option"
  sn_agent :: string

record session_event =
  sv_session :: "uuid option"
  sv_identity :: uuid
  sv_type :: string
  sv_at :: timestamp
  sv_ip :: "string option"
  sv_agent :: string

record period_event =
  pe_org :: uuid
  pe_period :: uuid
  pe_close :: bool
  pe_actor :: uuid
  pe_reason :: "string option"

record status_event =
  se_org :: uuid
  se_project :: uuid
  se_from :: project_status
  se_to :: project_status
  se_actor :: "uuid option"
  se_system_actor :: "string option"
  se_reason :: "string option"
  se_override :: bool
  se_blocked :: "rat \<times> rat \<times> int \<times> string"  \<comment> \<open>reserved, committed, open documents, currency\<close>

text \<open>A request to change a budget, awaiting its approval; its payload and result are left out.\<close>

datatype change_kind = AdjustmentChange | AllocationChange | TransferChange
datatype change_status = ChangePending | ChangeApproved | ChangeRejected | ChangeWithdrawn

record change_row =
  cr_id :: uuid
  cr_org :: uuid
  cr_kind :: change_kind
  cr_project :: uuid
  cr_amount :: rat
  cr_currency :: string
  cr_requester :: uuid
  cr_key :: string
  cr_status :: change_status

datatype actor_kind = UserActor | SystemActor | JobActor | ImportActor
datatype outcome = Success | Denied | ErrorOutcome

record audit_row =
  au_org :: uuid
  au_bu :: "uuid option"
  au_occurred :: timestamp
  au_actor :: "uuid option"
  au_kind :: actor_kind
  au_action :: string
  au_target_type :: string
  au_target :: "uuid option"
  au_outcome :: outcome
  au_reason :: "string option"
  au_correlation :: string

section \<open>The state\<close>

record db =
  projects :: "uuid \<rightharpoonup> project_row"
  balances :: "uuid \<rightharpoonup> balance_row"
  entries :: "ledger_entry list"              \<comment> \<open>in insertion order\<close>
  next_entry :: nat                           \<comment> \<open>the \<open>bigserial\<close> sequence of the ledger\<close>
  evidence :: "nat \<rightharpoonup> string"                  \<comment> \<open>\<open>ledger_evidence\<close>, by entry id\<close>
  units :: "unit_row list"
  settings :: "setting_row list"
  start_months :: "uuid \<rightharpoonup> int"               \<comment> \<open>\<open>fiscal_calendar\<close>, by organization\<close>
  periods :: "period_row list"
  period_events :: "period_event list"
  next_uuid :: uuid                           \<comment> \<open>the source of fresh \<open>uuid4\<close> values\<close>
  masters :: "master_row list"
  status_events :: "status_event list"
  audits :: "audit_row list"
  clock :: timestamp
  correlation :: string                       \<comment> \<open>the request's correlation id\<close>
  project_ids :: "uuid list"                  \<comment> \<open>the keys of \<open>projects\<close>, in insertion order\<close>
  organizations :: "uuid \<rightharpoonup> organization_row"
  addresses :: "address_row list"
  formats :: "format_row list"
  counters :: "uuid \<times> uuid \<times> string \<times> int \<rightharpoonup> nat"
  scopes :: "scope_row list"
  user_roles :: "grant_row list"
  sponsors :: "(uuid \<times> uuid \<times> uuid) list" \<comment> \<open>organization, project and user\<close>
  role_rows :: "role_row list"
  permissions :: "string list"                \<comment> \<open>the catalogue of codes\<close>
  role_permissions :: "(uuid \<times> uuid \<times> string) list" \<comment> \<open>organization, role and code\<close>
  identities :: "identity_row list"
  members :: "member_row list"
  sessions :: "session_row list"
  session_events :: "session_event list"
  change_requests :: "change_row list"

text \<open>A database just after its migrations, for the concrete runs.\<close>

definition empty_db :: db where
  "empty_db = \<lparr>projects = (\<lambda>_. None), balances = (\<lambda>_. None), entries = [], next_entry = 1,
     evidence = (\<lambda>_. None), units = [], settings = [], start_months = (\<lambda>_. None), periods = [],
     period_events = [], next_uuid = 1000, masters = [], status_events = [], audits = [],
     clock = 0, correlation = ''request-1'', project_ids = [], organizations = (\<lambda>_. None), addresses = [],
     formats = [], counters = (\<lambda>_. None), scopes = [], user_roles = [], sponsors = [],
     role_rows = [], permissions = [], role_permissions = [], identities = [], members = [], sessions = [], session_events = [],
     change_requests = []\<rparr>"

section \<open>The audit writer\<close>

record audit_actor =
  aa_kind :: actor_kind
  aa_id :: "uuid option"

definition make_actor :: "actor_kind \<Rightarrow> uuid option \<Rightarrow> problem + audit_actor" where
  "make_actor kind actor_id =
     (if kind = UserActor \<and> actor_id = None then Inl (Raised ValueError)
      else Inr \<lparr>aa_kind = kind, aa_id = actor_id\<rparr>)"

definition user_actor :: "uuid \<Rightarrow> audit_actor" where
  "user_actor actor_id = \<lparr>aa_kind = UserActor, aa_id = Some actor_id\<rparr>"

text \<open>
  \<open>AuditWriter.write\<close>.  The allow-listed before and after snapshots, the partition upkeep and
  the request's address are not modelled.
\<close>

definition audit_write ::
  "uuid \<Rightarrow> audit_actor \<Rightarrow> string \<Rightarrow> string \<Rightarrow> uuid option \<Rightarrow> uuid option \<Rightarrow> outcome \<Rightarrow>
   string option \<Rightarrow> (db, audit_row) tx" where
  "audit_write org actor action target_type target bu outcome reason = (\<lambda>s.
     if correlation s = [] then Inl (Raised CorrelationMissing)
     else if action = [] \<or> target_type = [] then Inl (Raised ValueError)
     else let row = \<lparr>au_org = org, au_bu = bu, au_occurred = clock s, au_actor = aa_id actor,
            au_kind = aa_kind actor, au_action = action, au_target_type = target_type,
            au_target = target, au_outcome = outcome, au_reason = reason,
            au_correlation = correlation s\<rparr>
          in Inr (row, s\<lparr>audits := audits s @ [row]\<rparr>))"

lemma audit_write_Inr:
  "audit_write org actor action tt target bu outcome reason s = Inr (row, t) \<longleftrightarrow>
     correlation s \<noteq> [] \<and> action \<noteq> [] \<and> tt \<noteq> [] \<and>
     row = \<lparr>au_org = org, au_bu = bu, au_occurred = clock s, au_actor = aa_id actor,
            au_kind = aa_kind actor, au_action = action, au_target_type = tt,
            au_target = target, au_outcome = outcome, au_reason = reason,
            au_correlation = correlation s\<rparr> \<and>
     t = s\<lparr>audits := audits s @ [row]\<rparr>"
  by (auto simp: audit_write_def Let_def split: if_splits)

text \<open>Fresh identifiers: \<open>uuid4()\<close> never returns a value twice.\<close>

definition fresh_uuid :: "(db, uuid) tx" where
  "fresh_uuid = (\<lambda>s. Inr (next_uuid s, s\<lparr>next_uuid := Suc (next_uuid s)\<rparr>))"

lemma fresh_uuid_Inr: "fresh_uuid s = Inr (u, t) \<longleftrightarrow> u = next_uuid s \<and> t = s\<lparr>next_uuid := Suc u\<rparr>"
  by (auto simp: fresh_uuid_def)

end
