(* ===== verification/Org.thy ===== *)
theory Org
  imports Database
begin

text \<open>
  The organization services that a posting consults: the effective value of a setting
  (\<open>flo/modules/org/service.py\<close>, \<open>effective_setting\<close>, and the registry of
  \<open>flo/modules/org/settings.py\<close>) and the usability of a master code.
\<close>

section \<open>Settings\<close>

definition setting_defaults :: "(string \<times> json) list" where
  "setting_defaults =
   [(''allow_negative_budget'', JBool False),
    (''budget.evidence_required'', JBool False),
    (''funding_mode'', JStr ''roll_down''),
    (''approval.max_depth'', JNum 10),
    (''approval.separation_of_duty'', JBool True),
    (''requisition.expiry_days'', JNull)]"

definition known_key :: "string \<Rightarrow> problem + unit" where
  "known_key key =
     (if key \<in> set (map fst setting_defaults) then Inr ()
      else Inl (Problem ValidationFailed (Some ''unknown_key'')))"

fun is_json_int :: "json \<Rightarrow> bool" where
  "is_json_int (JNum x) \<longleftrightarrow> x = of_int \<lfloor>x\<rfloor>"
| "is_json_int _ \<longleftrightarrow> False"

fun in_range :: "int \<Rightarrow> int \<Rightarrow> json \<Rightarrow> bool" where
  "in_range lo hi (JNum x) \<longleftrightarrow> is_json_int (JNum x) \<and> of_int lo \<le> x \<and> x \<le> of_int hi"
| "in_range _ _ _ \<longleftrightarrow> False"

fun is_json_bool :: "json \<Rightarrow> bool" where
  "is_json_bool (JBool _) \<longleftrightarrow> True"
| "is_json_bool _ \<longleftrightarrow> False"

definition setting_validator :: "string \<Rightarrow> json \<Rightarrow> bool" where
  "setting_validator key v =
     (if key = ''approval.max_depth'' then in_range 1 50 v
      else if key = ''approval.separation_of_duty'' then is_json_bool v
      else if key = ''requisition.expiry_days'' then v = JNull \<or> in_range 1 3650 v
      else if key = ''allow_negative_budget'' then is_json_bool v
      else if key = ''budget.evidence_required'' then is_json_bool v
      else if key = ''funding_mode'' then v = JStr ''roll_down'' \<or> v = JStr ''roll_up''
      else True)"

text \<open>
  The recursive query over \<open>org_unit\<close>: the unit and its ancestors, nearest first.  Without a
  cycle it visits every unit at most once, so the number of units is enough fuel; on a cycle the
  query does not return.
\<close>

definition find_unit :: "unit_row list \<Rightarrow> uuid \<Rightarrow> uuid \<Rightarrow> unit_row option" where
  "find_unit us org u = find (\<lambda>r. u_id r = u \<and> u_org r = org) us"

fun unit_chain :: "nat \<Rightarrow> unit_row list \<Rightarrow> uuid \<Rightarrow> uuid option \<Rightarrow> uuid list option" where
  "unit_chain _ us org None = Some []"
| "unit_chain 0 us org (Some u) = None"
| "unit_chain (Suc fuel) us org (Some u) =
     (case find_unit us org u of
        None \<Rightarrow> Some []
      | Some r \<Rightarrow> map_option ((#) u) (unit_chain fuel us org (u_parent r)))"

definition setting_at :: "setting_row list \<Rightarrow> uuid \<Rightarrow> uuid option \<Rightarrow> string \<Rightarrow> json option" where
  "setting_at ss org unit key =
     map_option st_value (find (\<lambda>r. st_org r = org \<and> st_unit r = unit \<and> st_key r = key) ss)"

text \<open>The candidates with their distances: the chain's overrides, the organization's at 6, the default at 7.\<close>

fun chain_candidates :: "setting_row list \<Rightarrow> uuid \<Rightarrow> string \<Rightarrow> nat \<Rightarrow> uuid list \<Rightarrow> (nat \<times> json) list" where
  "chain_candidates ss org key d [] = []"
| "chain_candidates ss org key d (u # us) =
     (case setting_at ss org (Some u) key of None \<Rightarrow> [] | Some v \<Rightarrow> [(d, v)]) @
     chain_candidates ss org key (Suc d) us"

definition setting_candidates :: "setting_row list \<Rightarrow> uuid \<Rightarrow> string \<Rightarrow> json \<Rightarrow> uuid list \<Rightarrow> (nat \<times> json) list" where
  "setting_candidates ss org key fallback chain =
     chain_candidates ss org key 0 chain @
     (case setting_at ss org None key of None \<Rightarrow> [] | Some v \<Rightarrow> [(6, v)]) @ [(7, fallback)]"

text \<open>\<open>ORDER BY distance LIMIT 1\<close>.\<close>

fun nearest :: "(nat \<times> json) list \<Rightarrow> (nat \<times> json) option" where
  "nearest [] = None"
| "nearest (c # cs) =
     (case nearest cs of None \<Rightarrow> Some c | Some c' \<Rightarrow> if fst c \<le> fst c' then Some c else Some c')"

definition effective_setting :: "uuid \<Rightarrow> uuid \<Rightarrow> string \<Rightarrow> (db, json) tx" where
  "effective_setting org unit key = (\<lambda>s.
     case known_key key of Inl p \<Rightarrow> Inl p
     | Inr _ \<Rightarrow>
       (case unit_chain (Suc (length (units s))) (units s) org (Some unit) of
          None \<Rightarrow> Inl (Raised QueryNotReturning)
        | Some chain \<Rightarrow>
            if chain = [] then Inl not_found
            else (case nearest (setting_candidates (settings s) org key
                          (the (map_of setting_defaults key)) chain) of
                    None \<Rightarrow> Inl not_found
                  | Some c \<Rightarrow> Inr (snd c, s))))"

section \<open>Master codes\<close>

definition assert_usable :: "uuid \<Rightarrow> string \<Rightarrow> string \<Rightarrow> date \<Rightarrow> (db, master_row) tx" where
  "assert_usable org kind code on_date = (\<lambda>s.
     case find (\<lambda>r. mr_org r = org \<and> mr_kind r = kind \<and> mr_code r = map char_upper (strip code)) (masters s) of
       None \<Rightarrow> Inl (Raised (MasterCodeUnusable ''unknown''))
     | Some r \<Rightarrow>
         if \<not> mr_active r then Inl (Raised (MasterCodeUnusable ''inactive''))
         else if on_date < mr_from r \<or> (case mr_to r of None \<Rightarrow> False | Some e \<Rightarrow> e < on_date)
         then Inl (Raised (MasterCodeUnusable ''not_effective''))
         else Inr (r, s))"

end
