(* ===== verification/Fiscal.thy ===== *)
theory Fiscal
  imports Org
begin

text \<open>
  \<open>flo/modules/org/fiscal.py\<close>: the twelve periods of a fiscal year, generated on demand, their
  closing and reopening in order, and the check that a date may be posted to.  Years outside
  Python's 1 to 9999 are not modelled.
\<close>

section \<open>Fiscal periods\<close>

definition year_bounds :: "int \<Rightarrow> int \<Rightarrow> date \<times> date" where
  "year_bounds fiscal_year start_month =
     (Date (if start_month = 1 then fiscal_year else fiscal_year - 1) start_month 1,
      if start_month = 1 then Date fiscal_year 12 31
      else day_before (Date fiscal_year start_month 1))"

definition start_month :: "uuid \<Rightarrow> (db, int) tx" where
  "start_month org = tx_read (\<lambda>s. case start_months s org of None \<Rightarrow> 1 | Some m \<Rightarrow> m)"

definition fiscal_actor :: "uuid option \<Rightarrow> audit_actor" where
  "fiscal_actor actor = (case actor of Some a \<Rightarrow> user_actor a | None \<Rightarrow> \<lparr>aa_kind = SystemActor, aa_id = None\<rparr>)"

definition set_calendar :: "uuid \<Rightarrow> uuid option \<Rightarrow> int \<Rightarrow> (db, int) tx" where
  "set_calendar org actor m =
     tx_bind (tx_read (\<lambda>s. list_ex (\<lambda>p. fp_org p = org) (periods s))) (\<lambda>generated.
     tx_bind (tx_require (\<not> generated) (conflict ''calendar_locked'')) (\<lambda>_.
     tx_bind (tx_read (\<lambda>s. start_months s org)) (\<lambda>before.
     if before = Some m then tx_return m
     else
       tx_bind (tx_update (\<lambda>s. s\<lparr>start_months := (start_months s)(org \<mapsto> m)\<rparr>)) (\<lambda>_.
       tx_bind (audit_write org (fiscal_actor actor) ''fiscal_calendar.set'' ''fiscal_calendar''
                  (Some org) None Success None) (\<lambda>_.
       tx_return m)))))"

text \<open>The \<open>index\<close>-th month of a fiscal year, from 0: its first and last day.\<close>

definition period_slot :: "int \<Rightarrow> int \<Rightarrow> int \<Rightarrow> date \<times> date" where
  "period_slot fiscal_year m index =
     (let start = fst (year_bounds fiscal_year m);
          offset = month start - 1 + index;
          y = year start + offset div 12;
          mo = offset mod 12 + 1
      in (Date y mo 1, Date y mo (month_length y mo)))"

definition list_periods :: "uuid \<Rightarrow> int \<Rightarrow> (db, period_row list) tx" where
  "list_periods org fiscal_year =
     tx_read (\<lambda>s. sort_key fp_no (filter (\<lambda>p. fp_org p = org \<and> fp_year p = fiscal_year) (periods s)))"

definition ranges_meet :: "date \<times> date \<Rightarrow> date \<times> date \<Rightarrow> bool" where
  "ranges_meet r q \<longleftrightarrow> fst r \<le> snd q \<and> fst q \<le> snd r"

text \<open>
  \<open>INSERT ... ON CONFLICT (org_id, fiscal_year, period_no) DO NOTHING RETURNING id\<close>, under the
  exclusion constraint of migration 0016: no two periods of an organization share a day.
\<close>

definition insert_period :: "uuid \<Rightarrow> int \<Rightarrow> int \<Rightarrow> date \<times> date \<Rightarrow> (db, bool) tx" where
  "insert_period org fiscal_year no days =
     tx_bind fresh_uuid (\<lambda>pid. (\<lambda>s.
       if list_ex (\<lambda>p. fp_org p = org \<and> fp_year p = fiscal_year \<and> fp_no p = no) (periods s)
       then Inr (False, s)
       else if list_ex (\<lambda>p. fp_org p = org \<and> ranges_meet (fp_starts p, fp_ends p) days) (periods s)
       then Inl (Raised (ExclusionViolation ''fiscal_period''))
       else Inr (True, s\<lparr>periods := periods s @
              [\<lparr>fp_id = pid, fp_org = org, fp_year = fiscal_year, fp_no = no,
                fp_starts = fst days, fp_ends = snd days, fp_status = PeriodOpen,
                fp_closed_by = None, fp_closed_at = None\<rparr>]\<rparr>)))"

definition ensure_year :: "uuid \<Rightarrow> uuid option \<Rightarrow> int \<Rightarrow> (db, period_row list) tx" where
  "ensure_year org actor fiscal_year =
     tx_bind (start_month org) (\<lambda>m.
     tx_bind (tx_each (\<lambda>index. insert_period org fiscal_year (index + 1) (period_slot fiscal_year m index)) [0..11])
       (\<lambda>inserted.
     tx_bind (if list_ex id inserted
              then tx_bind (audit_write org (fiscal_actor actor) ''fiscal_year.generate'' ''fiscal_year''
                     (Some org) None Success None) (\<lambda>_. tx_return ())
              else tx_return ()) (\<lambda>_.
     list_periods org fiscal_year)))"

definition get_period :: "uuid \<Rightarrow> uuid \<Rightarrow> (db, period_row) tx" where
  "get_period org pid =
     tx_bind (tx_read (\<lambda>s. find (\<lambda>p. fp_org p = org \<and> fp_id p = pid) (periods s))) (\<lambda>row.
     tx_some row not_found)"

definition reopen_reason :: "string option \<Rightarrow> problem + string" where
  "reopen_reason reason =
     (let raw = (case reason of None \<Rightarrow> [] | Some r \<Rightarrow> r); v = strip raw
      in if length raw < 10 \<or> length v < 10 then Inl (Raised ValueError) else Inr v)"

definition period_update ::
  "uuid \<Rightarrow> uuid \<Rightarrow> bool \<Rightarrow> uuid option \<Rightarrow> timestamp \<Rightarrow> period_row \<Rightarrow> period_row" where
  "period_update org pid closing actor now p =
     (if fp_org p = org \<and> fp_id p = pid
      then p\<lparr>fp_status := if closing then PeriodClosed else PeriodOpen,
             fp_closed_by := if closing then actor else None,
             fp_closed_at := if closing then Some now else None\<rparr>
      else p)"

text \<open>The \<open>UPDATE\<close> and the trigger that records the transition (migration 0016), whose actor is \<open>NOT NULL\<close>.\<close>

definition set_period_status ::
  "uuid \<Rightarrow> uuid \<Rightarrow> bool \<Rightarrow> uuid option \<Rightarrow> string option \<Rightarrow> (db, unit) tx" where
  "set_period_status org pid closing actor reason =
     tx_bind (tx_some actor (Raised (NotNullViolation ''fiscal_period_event.actor_id''))) (\<lambda>a.
     tx_update (\<lambda>s. s\<lparr>
       periods := map (period_update org pid closing actor (clock s)) (periods s),
       period_events := period_events s @
         [\<lparr>pe_org = org, pe_period = pid, pe_close = closing, pe_actor = a, pe_reason = reason\<rparr>]\<rparr>))"

definition period_transition ::
  "uuid \<Rightarrow> uuid option \<Rightarrow> uuid \<Rightarrow> bool \<Rightarrow> string option \<Rightarrow> (db, period_row) tx" where
  "period_transition org actor pid closing reason =
     tx_bind (tx_read (\<lambda>s. sort_key fp_starts (filter (\<lambda>p. fp_org p = org) (periods s)))) (\<lambda>ps.
     tx_bind (tx_some (find (\<lambda>p. fp_id p = pid) ps) not_found) (\<lambda>before.
     tx_bind (tx_require (fp_status before \<noteq> (if closing then PeriodClosed else PeriodOpen))
                (conflict (if closing then ''already_closed'' else ''already_open''))) (\<lambda>_.
     tx_bind (if closing then tx_return reason
              else tx_lift (map_sum id Some (reopen_reason reason))) (\<lambda>reason.
     tx_bind (tx_require
                (\<not> (closing \<and> (case find (\<lambda>p. fp_ends p = day_before (fp_starts before)) ps of
                          None \<Rightarrow> False | Some previous \<Rightarrow> fp_status previous \<noteq> PeriodClosed)
                   \<or> \<not> closing \<and> list_ex (\<lambda>p. fp_starts before < fp_starts p \<and> fp_status p = PeriodClosed) ps))
                (conflict ''period_order'')) (\<lambda>_.
     tx_bind (set_period_status org pid closing actor reason) (\<lambda>_.
     tx_bind (get_period org pid) (\<lambda>after.
     tx_bind (audit_write org (fiscal_actor actor)
                (''fiscal_period.'' @ (if closing then ''close'' else ''reopen'')) ''fiscal_period''
                (Some pid) None Success reason) (\<lambda>_.
     tx_return after))))))))"

definition fiscal_year_of :: "int \<Rightarrow> date \<Rightarrow> int" where
  "fiscal_year_of m d = year d + (if m \<noteq> 1 \<and> m \<le> month d then 1 else 0)"

definition period_containing :: "uuid \<Rightarrow> date \<Rightarrow> (db, period_row option) tx" where
  "period_containing org d =
     tx_read (\<lambda>s. find (\<lambda>p. fp_org p = org \<and> fp_starts p \<le> d \<and> d \<le> fp_ends p) (periods s))"

definition period_for :: "uuid \<Rightarrow> uuid option \<Rightarrow> date \<Rightarrow> (db, period_row) tx" where
  "period_for org actor d =
     tx_bind (period_containing org d) (\<lambda>row.
     case row of
       Some p \<Rightarrow> tx_return p
     | None \<Rightarrow>
         tx_bind (start_month org) (\<lambda>m.
         tx_bind (ensure_year org actor (fiscal_year_of m d)) (\<lambda>_.
         tx_bind (period_containing org d) (\<lambda>row.
         tx_some row (Raised AssertionError)))))"

text \<open>Every caller of the model is inside a transaction, which is what the first check of the source requires.\<close>

definition assert_postable :: "uuid \<Rightarrow> date \<Rightarrow> (db, unit) tx" where
  "assert_postable org d =
     tx_bind (period_for org None d) (\<lambda>p.
     tx_require (fp_status p \<noteq> PeriodClosed) (conflict ''period_closed''))"

datatype range_kind = Mtd | Qtd | Ytd | FiscalYear

definition range_for :: "uuid \<Rightarrow> range_kind \<Rightarrow> date \<Rightarrow> (db, date \<times> date) tx" where
  "range_for org kind as_of =
     tx_bind (start_month org) (\<lambda>m.
       let (start, end) = year_bounds (fiscal_year_of m as_of) m in
       tx_return (case kind of
         Mtd \<Rightarrow> (Date (year as_of) (month as_of) 1, as_of)
       | Qtd \<Rightarrow> (let offset = (month as_of - m) mod 12;
                     absolute = month start - 1 + offset div 3 * 3
                 in (Date (year start + absolute div 12) (absolute mod 12 + 1) 1, as_of))
       | Ytd \<Rightarrow> (start, as_of)
       | FiscalYear \<Rightarrow> (start, end)))"


section \<open>A fiscal year is twelve calendar months\<close>

text \<open>The month number \<open>k\<close> of the calendar, counted from January of year 0.\<close>

definition month_span :: "int \<Rightarrow> date \<times> date" where
  "month_span k =
     (Date (k div 12) (k mod 12 + 1) 1, Date (k div 12) (k mod 12 + 1) (month_length (k div 12) (k mod 12 + 1)))"

definition first_month :: "int \<Rightarrow> int \<Rightarrow> int" where
  "first_month fiscal_year m = 12 * (if m = 1 then fiscal_year else fiscal_year - 1) + m - 1"

lemma div12:
  fixes q r :: int
  assumes "0 \<le> r" "r < 12"
  shows "(12 * q + r) div 12 = q" and "(12 * q + r) mod 12 = r"
  using assms by simp_all

lemma month_cases:
  obtains q r :: int where "k = 12 * q + r" "0 \<le> r" "r < 12"
proof (rule that)
  show "k = 12 * (k div 12) + k mod 12" by simp
qed simp_all

lemma period_slot_span: "period_slot y m i = month_span (first_month y m + i)"
proof -
  have "(12 * a + (m - 1 + i)) div 12 = a + (m - 1 + i) div 12"
    "(12 * a + (m - 1 + i)) mod 12 = (m - 1 + i) mod 12" for a :: int
    by simp_all
  moreover have "first_month y m + i = 12 * (if m = 1 then y else y - 1) + (m - 1 + i)"
    by (simp add: first_month_def)
  ultimately show ?thesis
    by (simp only: period_slot_def month_span_def year_bounds_def Let_def fst_conv date.sel)
qed

lemma month_number:
  fixes m a :: int
  assumes "1 \<le> m" "m \<le> 12"
  shows "(12 * a + m - 1) div 12 = a" and "(12 * a + m - 1) mod 12 = m - 1"
  using div12 [of "m - 1" a] assms by (simp_all add: algebra_simps)

lemma first_month_plus_12: "first_month y m + 12 = first_month (y + 1) m"
  by (simp add: first_month_def)

lemma month_length_pos: "28 \<le> month_length y m"
  by (simp add: month_length_def)

lemma day_before_month: "day_before (fst (month_span (k + 1))) = snd (month_span k)"
proof (cases k rule: month_cases)
  case (1 q r)
  show ?thesis
  proof (cases "r = 11")
    case True
    then have "k + 1 = 12 * (q + 1) + 0" using 1 by simp
    then have "(k + 1) div 12 = q + 1" "(k + 1) mod 12 = 0" by (simp_all only: div12 order.refl zero_less_numeral)
    moreover have "k div 12 = q" "k mod 12 = 11" using 1 True div12 [of r q] by simp_all
    ultimately show ?thesis by (simp add: month_span_def day_before_def month_length_def)
  next
    case False
    then have "(k + 1) div 12 = q" "(k + 1) mod 12 = r + 1"
      using 1 div12 [of "r + 1" q] by (simp_all add: add.assoc)
    moreover have "k div 12 = q" "k mod 12 = r" using 1 div12 [of r q] by simp_all
    ultimately show ?thesis using 1(2) by (simp add: month_span_def day_before_def add.commute)
  qed
qed

lemma month_span_order: "fst (month_span k) \<le> snd (month_span k)"
  using month_length_pos [of "k div 12" "k mod 12 + 1"] by (simp add: month_span_def less_eq_date_def)

lemma month_span_less:
  assumes "k < l" shows "snd (month_span k) < fst (month_span l)"
proof -
  have "k div 12 < l div 12 \<or> k div 12 = l div 12 \<and> k mod 12 < l mod 12"
  proof (cases "k div 12 = l div 12")
    case True
    then show ?thesis using assms div_mult_mod_eq [of k 12] div_mult_mod_eq [of l 12] by linarith
  next
    case False
    then show ?thesis using zdiv_mono1 [of k l 12] assms by simp
  qed
  then show ?thesis by (auto simp: month_span_def less_date_def)
qed

lemma month_span_meet: "ranges_meet (month_span k) (month_span l) \<longleftrightarrow> k = l"
proof
  assume m: "ranges_meet (month_span k) (month_span l)"
  show "k = l"
    using m month_span_less [of k l] month_span_less [of l k]
    by (cases k l rule: linorder_cases) (auto simp: ranges_meet_def)
qed (use month_span_order in \<open>simp add: ranges_meet_def\<close>)

lemma month_span_inj: "month_span k = month_span l \<longleftrightarrow> k = l"
  using month_span_meet [of k l] month_span_order [of l] by (auto simp: ranges_meet_def)

lemma month_span_end_inj: "snd (month_span k) = snd (month_span l) \<Longrightarrow> k = l"
  using month_span_meet [of k l] month_span_order [of k] month_span_order [of l]
  by (simp add: ranges_meet_def)

text \<open>
  The twelve slots of a fiscal year, whatever its first month, start on the first day of the
  year, follow each other without gap or overlap, and end on its last day.
\<close>

theorem fiscal_year_slots:
  assumes "1 \<le> m" "m \<le> 12"
  shows "fst (period_slot y m 0) = fst (year_bounds y m) \<and>
    snd (period_slot y m 11) = snd (year_bounds y m) \<and>
    (\<forall>i. day_before (fst (period_slot y m (i + 1))) = snd (period_slot y m i)) \<and>
    (\<forall>i j. ranges_meet (period_slot y m i) (period_slot y m j) \<longleftrightarrow> i = j)"
proof -
  have "day_before (fst (month_span (first_month y m + 12))) = snd (month_span (first_month y m + 11))"
    using day_before_month [of "first_month y m + 11"] by (simp add: add.assoc)
  moreover have "m \<noteq> 1 \<Longrightarrow> fst (month_span (first_month y m + 12)) = Date y m 1"
    using month_number [OF assms, of y] unfolding first_month_plus_12
    by (simp add: month_span_def first_month_def)
  moreover have "m = 1 \<Longrightarrow> snd (month_span (first_month y m + 11)) = Date y 12 31"
    by (simp add: month_span_def first_month_def month_length_def)
  moreover have "fst (month_span (first_month y m)) = fst (year_bounds y m)"
    using month_number [OF assms] by (auto simp: month_span_def first_month_def year_bounds_def)
  moreover have "day_before (fst (month_span (first_month y m + (i + 1)))) = snd (month_span (first_month y m + i))" for i
    using day_before_month [of "first_month y m + i"] by (simp add: add.assoc)
  ultimately show ?thesis
    by (auto simp: period_slot_span month_span_meet year_bounds_def)
qed

theorem fiscal_year_slots_witness:
  "day_before (fst (period_slot 2027 4 1)) = snd (period_slot 2027 4 0) \<and>
   snd (period_slot 2027 4 11) = Date 2027 3 31"
proof -
  have m: "1 \<le> (4::int)" "(4::int) \<le> 12" by simp_all
  note slots = fiscal_year_slots [OF m, of 2027]
  from slots have "day_before (fst (period_slot 2027 4 (0 + 1))) = snd (period_slot 2027 4 0)" by blast
  moreover from slots have "snd (period_slot 2027 4 11) = snd (year_bounds 2027 4)" by blast
  moreover have "snd (year_bounds 2027 4) = Date 2027 3 31"
    by (simp add: year_bounds_def day_before_def month_length_def)
  ultimately show ?thesis by simp
qed

section \<open>Generating a year\<close>

definition month_of :: "uuid \<Rightarrow> db \<Rightarrow> int" where
  "month_of org s = (case start_months s org of None \<Rightarrow> 1 | Some m \<Rightarrow> m)"

definition periods_ok :: "uuid \<Rightarrow> db \<Rightarrow> bool" where
  "periods_ok org s \<longleftrightarrow> 1 \<le> month_of org s \<and> month_of org s \<le> 12 \<and>
     (\<forall>p\<in>set (periods s). fp_org p = org \<longrightarrow> 1 \<le> fp_no p \<and> fp_no p \<le> 12 \<and> fp_id p < next_uuid s \<and>
        (fp_starts p, fp_ends p) = period_slot (fp_year p) (month_of org s) (fp_no p - 1)) \<and>
     (\<forall>p\<in>set (periods s). \<forall>q\<in>set (periods s). fp_org p = org \<longrightarrow> fp_org q = org \<longrightarrow>
        fp_id p = fp_id q \<or> fp_starts p = fp_starts q \<longrightarrow> p = q)"

lemma first_month_inj:
  assumes "0 \<le> i" "i \<le> 11" "0 \<le> j" "j \<le> 11"
  shows "first_month y m + i = first_month z m + j \<longleftrightarrow> y = z \<and> i = j"
  using assms by (auto simp: first_month_def split: if_splits) presburger+

lemma insert_period_ok:
  assumes ok: "periods_ok org s" and i: "0 \<le> i" "i \<le> 11"
  obtains b t where
    "insert_period org y (i + 1) (period_slot y (month_of org s) i) s = Inr (b, t)"
    "periods_ok org t" "month_of org t = month_of org s" "correlation t = correlation s"
    "set (periods s) \<subseteq> set (periods t)"
    "\<exists>p\<in>set (periods t). fp_org p = org \<and> (fp_starts p, fp_ends p) = period_slot y (month_of org s) i"
proof (cases "list_ex (\<lambda>p. fp_org p = org \<and> fp_year p = y \<and> fp_no p = i + 1) (periods s)")
  case True
  then obtain p where p: "p \<in> set (periods s)" "fp_org p = org" "fp_year p = y" "fp_no p = i + 1"
    by (auto simp: list_ex_iff)
  then have "(fp_starts p, fp_ends p) = period_slot y (month_of org s) i"
    using ok by (auto simp: periods_ok_def)
  moreover have "periods_ok org (s\<lparr>next_uuid := Suc (next_uuid s)\<rparr>)"
    using ok by (auto simp: periods_ok_def month_of_def)
  ultimately show ?thesis using that True p
    by (auto simp: insert_period_def tx_bind_def fresh_uuid_def month_of_def)
next
  case False
  let ?sl = "period_slot y (month_of org s) i"
  let ?p = "\<lparr>fp_id = next_uuid s, fp_org = org, fp_year = y, fp_no = i + 1, fp_starts = fst ?sl,
    fp_ends = snd ?sl, fp_status = PeriodOpen, fp_closed_by = None, fp_closed_at = None\<rparr>"
  let ?t = "s\<lparr>next_uuid := Suc (next_uuid s), periods := periods s @ [?p]\<rparr>"
  have apart: "\<not> ranges_meet (fp_starts q, fp_ends q) ?sl" if "q \<in> set (periods s)" "fp_org q = org" for q
  proof
    assume meet: "ranges_meet (fp_starts q, fp_ends q) ?sl"
    have q: "1 \<le> fp_no q" "fp_no q \<le> 12"
      "(fp_starts q, fp_ends q) = period_slot (fp_year q) (month_of org s) (fp_no q - 1)"
      using ok that by (auto simp: periods_ok_def)
    with meet have "first_month (fp_year q) (month_of org s) + (fp_no q - 1) = first_month y (month_of org s) + i"
      by (simp add: period_slot_span month_span_meet)
    then have "fp_year q = y \<and> fp_no q - 1 = i" using q(1,2) i by (subst (asm) first_month_inj) auto
    then show False using False that by (auto simp: list_ex_iff)
  qed
  have ne: "fp_starts q \<noteq> fst ?sl" if "q \<in> set (periods s)" "fp_org q = org" for q
  proof
    assume e: "fp_starts q = fst ?sl"
    have "fp_starts q \<le> fp_ends q"
      using ok that month_span_order by (auto simp: periods_ok_def period_slot_span prod_eq_iff)
    moreover have "fst ?sl \<le> snd ?sl" by (simp add: period_slot_span month_span_order)
    ultimately show False using apart [OF that] e by (simp add: ranges_meet_def)
  qed
  have run: "insert_period org y (i + 1) ?sl s = Inr (True, ?t)"
    using False apart by (auto simp: insert_period_def tx_bind_def fresh_uuid_def list_ex_iff)
  moreover have "periods_ok org ?t"
    using ok i ne unfolding periods_ok_def month_of_def by (auto simp: less_SucI) force+
  ultimately show ?thesis using that by (auto simp: month_of_def)
qed


lemma insert_periods_ok:
  assumes "periods_ok org s" "\<forall>i\<in>set is. 0 \<le> i \<and> i \<le> 11"
  shows "\<exists>bs t. tx_each (\<lambda>i. insert_period org y (i + 1) (period_slot y (month_of org s) i)) is s = Inr (bs, t) \<and>
    periods_ok org t \<and> month_of org t = month_of org s \<and> correlation t = correlation s \<and>
    set (periods s) \<subseteq> set (periods t) \<and>
    (\<forall>i\<in>set is. \<exists>p\<in>set (periods t). fp_org p = org \<and> (fp_starts p, fp_ends p) = period_slot y (month_of org s) i)"
  using assms
proof (induction "is" arbitrary: s)
  case Nil
  then show ?case by (simp add: tx_return_def)
next
  case (Cons i "is")
  then have i: "0 \<le> i" "i \<le> 11" by auto
  from Cons.prems(1) i obtain b t where t:
    "insert_period org y (i + 1) (period_slot y (month_of org s) i) s = Inr (b, t)"
    "periods_ok org t" "month_of org t = month_of org s" "correlation t = correlation s"
    "set (periods s) \<subseteq> set (periods t)"
    "\<exists>p\<in>set (periods t). fp_org p = org \<and> (fp_starts p, fp_ends p) = period_slot y (month_of org s) i"
    by (rule insert_period_ok)
  from Cons.IH [OF t(2)] Cons.prems(2) obtain bs u where u:
    "tx_each (\<lambda>i. insert_period org y (i + 1) (period_slot y (month_of org t) i)) is t = Inr (bs, u)"
    "periods_ok org u" "month_of org u = month_of org t" "correlation u = correlation t"
    "set (periods t) \<subseteq> set (periods u)"
    "\<forall>i\<in>set is. \<exists>p\<in>set (periods u). fp_org p = org \<and> (fp_starts p, fp_ends p) = period_slot y (month_of org t) i"
    by auto
  have "tx_each (\<lambda>i. insert_period org y (i + 1) (period_slot y (month_of org s) i)) (i # is) s = Inr (b # bs, u)"
    using t(1) u(1) t(3) by (simp add: tx_bind_def tx_return_def)
  with t u show ?case by (auto simp: subset_iff)
qed

lemma periods_ok_audits [simp]: "periods_ok org (s\<lparr>audits := a\<rparr>) \<longleftrightarrow> periods_ok org s"
  by (simp add: periods_ok_def month_of_def)

lemma ensure_year_ok:
  assumes ok: "periods_ok org s" and cor: "correlation s \<noteq> []"
  shows "\<exists>ps t. ensure_year org actor y s = Inr (ps, t) \<and> periods_ok org t \<and>
    month_of org t = month_of org s \<and> set (periods s) \<subseteq> set (periods t) \<and>
    (\<forall>i. 0 \<le> i \<and> i \<le> 11 \<longrightarrow> (\<exists>p\<in>set (periods t). fp_org p = org \<and>
        (fp_starts p, fp_ends p) = period_slot y (month_of org s) i))"
proof -
  obtain bs t where t: "tx_each (\<lambda>i. insert_period org y (i + 1) (period_slot y (month_of org s) i)) [0..11] s = Inr (bs, t)"
    "periods_ok org t" "month_of org t = month_of org s" "correlation t = correlation s"
    "set (periods s) \<subseteq> set (periods t)"
    "\<forall>i\<in>set [0..11]. \<exists>p\<in>set (periods t). fp_org p = org \<and> (fp_starts p, fp_ends p) = period_slot y (month_of org s) i"
    using insert_periods_ok [OF ok, of "[0..11]" y] by auto
  have start: "start_month org s = Inr (month_of org s, s)"
    by (simp add: start_month_def tx_read_def month_of_def)
  obtain u where u: "(if list_ex id bs
      then tx_bind (audit_write org (fiscal_actor actor) ''fiscal_year.generate'' ''fiscal_year''
             (Some org) None Success None) (\<lambda>_. tx_return ())
      else tx_return ()) t = Inr ((), u)" "periods u = periods t" "periods_ok org u" "month_of org u = month_of org t"
    using t(2,4) cor
    by (cases "list_ex id bs") (auto simp: tx_bind_def tx_return_def audit_write_def Let_def month_of_def)
  have "ensure_year org actor y s = Inr (sort_key fp_no (filter (\<lambda>p. fp_org p = org \<and> fp_year p = y) (periods u)), u)"
    unfolding ensure_year_def tx_bind_def [of "start_month org"] start
    using t(1) u(1) by (simp add: tx_bind_def list_periods_def tx_read_def)
  with t u show ?thesis by auto
qed

lemma date_in_month:
  assumes "valid_date d"
  shows "fst (month_span (12 * year d + month d - 1)) \<le> d \<and> d \<le> snd (month_span (12 * year d + month d - 1))"
  using assms month_number [of "month d" "year d"]
  by (cases d) (auto simp: month_span_def valid_date_def less_eq_date_def)

lemma fiscal_year_of_month:
  assumes "valid_date d" "1 \<le> m" "m \<le> 12"
  obtains i where "0 \<le> i" "i \<le> 11" "12 * year d + month d - 1 = first_month (fiscal_year_of m d) m + i"
proof (rule that)
  let ?i = "12 * year d + month d - 1 - first_month (fiscal_year_of m d) m"
  show "12 * year d + month d - 1 = first_month (fiscal_year_of m d) m + ?i" by simp
  show "0 \<le> ?i" "?i \<le> 11"
    using assms by (auto simp: valid_date_def first_month_def fiscal_year_of_def)
qed

lemma in_month_unique:
  assumes "fst (month_span k) \<le> d" "d \<le> snd (month_span k)" "fst (month_span l) \<le> d" "d \<le> snd (month_span l)"
  shows "k = l"
  using assms month_span_meet [of k l] by (auto simp: ranges_meet_def)

text \<open>
  Every real date of an organization whose periods follow its calendar has a fiscal period:
  \<open>period_for\<close> always succeeds (neither the exclusion constraint nor the closing assertion of the
  code ever fires), the period it returns contains the date, the generated periods again follow
  the calendar, and no period is lost.
\<close>

theorem period_for_total:
  assumes ok: "periods_ok org s" and d: "valid_date d" and cor: "correlation s \<noteq> []"
  shows "\<exists>p t. period_for org actor d s = Inr (p, t) \<and> fp_org p = org \<and> fp_starts p \<le> d \<and> d \<le> fp_ends p \<and>
    p \<in> set (periods t) \<and> periods_ok org t \<and> set (periods s) \<subseteq> set (periods t)"
proof -
  let ?in = "\<lambda>p. fp_org p = org \<and> fp_starts p \<le> d \<and> d \<le> fp_ends p"
  show ?thesis
  proof (cases "find ?in (periods s)")
    case (Some p)
    then show ?thesis
      using ok find_Some_iff_mem [OF Some] by (auto simp: period_for_def period_containing_def tx_eval)
  next
    case None
    let ?m = "month_of org s"
    let ?k = "12 * year d + month d - 1"
    have m: "1 \<le> ?m" "?m \<le> 12" using ok by (auto simp: periods_ok_def)
    from ensure_year_ok [OF ok cor] obtain ps t where t:
      "ensure_year org actor (fiscal_year_of ?m d) s = Inr (ps, t)" "periods_ok org t"
      "set (periods s) \<subseteq> set (periods t)"
      "\<And>i. 0 \<le> i \<Longrightarrow> i \<le> 11 \<Longrightarrow> \<exists>p\<in>set (periods t). fp_org p = org \<and>
        (fp_starts p, fp_ends p) = period_slot (fiscal_year_of ?m d) ?m i"
      by blast
    from d m obtain i where i: "0 \<le> i" "i \<le> 11" "?k = first_month (fiscal_year_of ?m d) ?m + i"
      by (rule fiscal_year_of_month)
    from t(4) [OF i(1,2)] obtain p where p: "p \<in> set (periods t)" "fp_org p = org"
      "(fp_starts p, fp_ends p) = month_span ?k"
      unfolding i(3) by (auto simp: period_slot_span)
    have "?in p" using p date_in_month [OF d] by (auto simp: prod_eq_iff)
    with p(1) obtain q where q: "find ?in (periods t) = Some q"
      by (cases "find ?in (periods t)") (auto simp: find_None_iff)
    have start: "start_month org s = Inr (?m, s)" by (simp add: start_month_def tx_read_def month_of_def)
    have "period_for org actor d s = Inr (q, t)"
      using None start t(1) q by (simp add: period_for_def period_containing_def tx_eval)
    with t(2,3) find_Some_iff_mem [OF q] show ?thesis by blast
  qed
qed


theorem period_for_total_witness:
  "\<exists>p t. period_for 1 None (Date 2026 2 28) empty_db = Inr (p, t) \<and>
     fp_starts p \<le> Date 2026 2 28 \<and> Date 2026 2 28 \<le> fp_ends p"
proof -
  have "periods_ok 1 empty_db" by (simp add: periods_ok_def month_of_def empty_db_def)
  moreover have "valid_date (Date 2026 2 28)" by (simp add: valid_date_def month_length_def)
  moreover have "correlation empty_db \<noteq> []" by (simp add: empty_db_def)
  ultimately show ?thesis using period_for_total by blast
qed

lemma set_calendar_ok:
  assumes "periods_ok org s" "1 \<le> m" "m \<le> 12" "set_calendar org actor m s = Inr (r, t)"
  shows "periods_ok org t"
proof -
  have none: "fp_org p \<noteq> org" if "p \<in> set (periods s)" for p
    using assms(4) that by (auto simp: set_calendar_def tx_bind_Inr list_ex_iff)
  from assms have "month_of org t = m \<or> month_of org t = month_of org s" "periods t = periods s"
    by (auto simp: set_calendar_def tx_bind_Inr audit_write_Inr month_of_def split: if_splits)
  then show ?thesis using none assms(1-3) by (auto simp: periods_ok_def)
qed

section \<open>Closing and reopening\<close>

text \<open>No closed period follows an open one directly.\<close>

definition closed_in_order :: "uuid \<Rightarrow> db \<Rightarrow> bool" where
  "closed_in_order org s \<longleftrightarrow>
     (\<forall>p\<in>set (periods s). \<forall>q\<in>set (periods s). fp_org p = org \<longrightarrow> fp_org q = org \<longrightarrow>
        fp_ends p = day_before (fp_starts q) \<longrightarrow> fp_status q = PeriodClosed \<longrightarrow> fp_status p = PeriodClosed)"

lemma period_update_sel [simp]:
  "fp_org (period_update org pid closing actor now p) = fp_org p"
  "fp_id (period_update org pid closing actor now p) = fp_id p"
  "fp_starts (period_update org pid closing actor now p) = fp_starts p"
  "fp_ends (period_update org pid closing actor now p) = fp_ends p"
  "fp_year (period_update org pid closing actor now p) = fp_year p"
  "fp_no (period_update org pid closing actor now p) = fp_no p"
  "fp_status (period_update org pid closing actor now p) =
     (if fp_org p = org \<and> fp_id p = pid then if closing then PeriodClosed else PeriodOpen else fp_status p)"
  by (simp_all add: period_update_def)

lemma period_update_other: "fp_org p \<noteq> org \<or> fp_id p \<noteq> pid \<Longrightarrow> period_update org pid closing actor now p = p"
  by (auto simp: period_update_def)

lemma day_before_less: "valid_date d \<Longrightarrow> day_before d < d"
  by (auto simp: day_before_def less_date_def valid_date_def)

lemma period_transition_Inr:
  assumes "period_transition org actor pid closing reason s = Inr (after, t)"
  obtains before a r where
    "before \<in> set (periods s)" "fp_org before = org" "fp_id before = pid" "actor = Some a"
    "fp_status before \<noteq> (if closing then PeriodClosed else PeriodOpen)"
    "closing \<Longrightarrow> (case find (\<lambda>p. fp_ends p = day_before (fp_starts before))
        (sort_key fp_starts (filter (\<lambda>p. fp_org p = org) (periods s))) of
        None \<Rightarrow> True | Some q \<Rightarrow> fp_status q = PeriodClosed)"
    "\<not> closing \<Longrightarrow> \<forall>p\<in>set (periods s). fp_org p = org \<longrightarrow> fp_starts before < fp_starts p \<longrightarrow> fp_status p = PeriodOpen"
    "\<not> closing \<Longrightarrow> \<exists>v. r = Some v \<and> 10 \<le> length v"
    "periods t = map (period_update org pid closing actor (clock s)) (periods s)"
    "period_events t = period_events s @
         [\<lparr>pe_org = org, pe_period = pid, pe_close = closing, pe_actor = a, pe_reason = r\<rparr>]"
    "find (\<lambda>p. fp_org p = org \<and> fp_id p = pid) (periods t) = Some after"
proof -
  let ?ps = "sort_key fp_starts (filter (\<lambda>p. fp_org p = org) (periods s))"
  from assms obtain before a r where
    b: "find (\<lambda>p. fp_id p = pid) ?ps = Some before" "fp_status before \<noteq> (if closing then PeriodClosed else PeriodOpen)"
    and r: "(if closing then tx_return reason else tx_lift (map_sum id Some (reopen_reason reason))) s = Inr (r, s)"
    and g: "\<not> (closing \<and> (case find (\<lambda>p. fp_ends p = day_before (fp_starts before)) ?ps of
                          None \<Rightarrow> False | Some previous \<Rightarrow> fp_status previous \<noteq> PeriodClosed)
                   \<or> \<not> closing \<and> list_ex (\<lambda>p. fp_starts before < fp_starts p \<and> fp_status p = PeriodClosed) ?ps)"
    and a: "actor = Some a"
    and t: "periods t = map (period_update org pid closing actor (clock s)) (periods s)" "period_events t = period_events s @
         [\<lparr>pe_org = org, pe_period = pid, pe_close = closing, pe_actor = a, pe_reason = r\<rparr>]"
      "find (\<lambda>p. fp_org p = org \<and> fp_id p = pid) (periods t) = Some after"
    by (simp only: period_transition_def tx_bind_Inr set_period_status_def get_period_def)
      (auto simp: audit_write_Inr split: if_splits)
  from find_Some_iff_mem [OF b(1)] have bm: "before \<in> set (periods s)" "fp_org before = org" "fp_id before = pid" by auto
  have "\<exists>v. r = Some v \<and> 10 \<le> length v" if "\<not> closing"
    using r that by (auto simp: reopen_reason_def Let_def split: if_splits option.splits)
  moreover have "\<forall>p\<in>set (periods s). fp_org p = org \<longrightarrow> fp_starts before < fp_starts p \<longrightarrow> fp_status p = PeriodOpen" if "\<not> closing"
    using g that period_status.exhaust by (auto simp: list_ex_iff)
  moreover have "closing \<Longrightarrow> (case find (\<lambda>p. fp_ends p = day_before (fp_starts before)) ?ps of
        None \<Rightarrow> True | Some q \<Rightarrow> fp_status q = PeriodClosed)"
    using g by (auto split: option.splits)
  ultimately show ?thesis using that bm a b(2) t by blast
qed

lemma slot_starts_valid: "valid_date (fst (month_span k))"
  using month_length_pos [of "k div 12" "k mod 12 + 1"]
  by (auto simp: month_span_def valid_date_def)

text \<open>
  C9. Closing and reopening keep the periods closed in order: after a successful transition no
  closed period directly follows an open one.  Only the named period changes, and the transition
  is recorded with its actor and, when it reopens, a reason of at least ten characters.
\<close>

theorem period_transition_in_order:
  assumes ok: "periods_ok org s" and ord: "closed_in_order org s"
    and run: "period_transition org actor pid closing reason s = Inr (after, t)"
  shows "closed_in_order org t \<and> periods_ok org t \<and>
    fp_status after = (if closing then PeriodClosed else PeriodOpen) \<and> fp_id after = pid \<and>
    (\<forall>p\<in>set (periods s). fp_org p \<noteq> org \<or> fp_id p \<noteq> pid \<longrightarrow> p \<in> set (periods t)) \<and>
    (\<exists>e. period_events t = period_events s @ [e] \<and> pe_period e = pid \<and> Some (pe_actor e) = actor \<and>
       (\<not> closing \<longrightarrow> (\<exists>v. pe_reason e = Some v \<and> 10 \<le> length v)))"
  using run
proof (rule period_transition_Inr)
  fix before a r
  let ?f = "period_update org pid closing actor (clock s)"
  let ?ps = "sort_key fp_starts (filter (\<lambda>p. fp_org p = org) (periods s))"
  assume b: "before \<in> set (periods s)" "fp_org before = org" "fp_id before = pid" and a: "actor = Some a"
    and prev: "closing \<Longrightarrow> (case find (\<lambda>p. fp_ends p = day_before (fp_starts before)) ?ps of
        None \<Rightarrow> True | Some q \<Rightarrow> fp_status q = PeriodClosed)"
    and later: "\<not> closing \<Longrightarrow> \<forall>p\<in>set (periods s). fp_org p = org \<longrightarrow> fp_starts before < fp_starts p \<longrightarrow> fp_status p = PeriodOpen"
    and r: "\<not> closing \<Longrightarrow> \<exists>v. r = Some v \<and> 10 \<le> length v"
    and t: "periods t = map ?f (periods s)" "period_events t = period_events s @
         [\<lparr>pe_org = org, pe_period = pid, pe_close = closing, pe_actor = a, pe_reason = r\<rparr>]"
    and after: "find (\<lambda>p. fp_org p = org \<and> fp_id p = pid) (periods t) = Some after"
  have only: "p = before" if "p \<in> set (periods s)" "fp_org p = org" "fp_id p = pid" for p
    using ok b that by (auto simp: periods_ok_def)
  have f_sel: "fp_org (?f p) = fp_org p" "fp_id (?f p) = fp_id p" "fp_starts (?f p) = fp_starts p"
    "fp_ends (?f p) = fp_ends p" "fp_year (?f p) = fp_year p" "fp_no (?f p) = fp_no p" for p
    by simp_all
  have slot: "\<exists>k. (fp_starts p, fp_ends p) = month_span k" if "p \<in> set (periods s)" "fp_org p = org" for p
    using ok that by (auto simp: periods_ok_def period_slot_span)
  have after_f: "after \<in> set (periods t)" "fp_org after = org" "fp_id after = pid"
    using find_Some_iff_mem [OF after] by simp_all
  from after_f(1) obtain p0 where "after = ?f p0" unfolding t(1) set_map by blast
  with after_f(2,3) have st: "fp_status after = (if closing then PeriodClosed else PeriodOpen)"
    by (simp split: if_splits)
  have others: "p \<in> set (periods t)" if "p \<in> set (periods s)" "fp_org p \<noteq> org \<or> fp_id p \<noteq> pid" for p
  proof -
    have "?f p = p" using that(2) by (rule period_update_other)
    with that(1) show ?thesis unfolding t(1) set_map by (metis imageI)
  qed
  have order: "fp_status (?f p) = PeriodClosed"
    if p: "p \<in> set (periods s)" "fp_org p = org" and q: "q \<in> set (periods s)" "fp_org q = org"
      and adj: "fp_ends p = day_before (fp_starts q)" and closed: "fp_status (?f q) = PeriodClosed" for p q
  proof (cases closing)
    case True
    show ?thesis
    proof (cases "fp_id q = pid")
      case True
      then have qb: "q = before" using only q by blast
      have "p \<in> set ?ps" using p by simp
      then obtain p' where p': "find (\<lambda>p. fp_ends p = day_before (fp_starts before)) ?ps = Some p'"
        using adj qb by (cases "find (\<lambda>p. fp_ends p = day_before (fp_starts before)) ?ps") (auto simp: find_None_iff)
      have "p' \<in> set (periods s)" "fp_org p' = org" "fp_ends p' = fp_ends p"
        using adj qb find_Some_iff_mem [OF p'] by auto
      note p'_in = this
      obtain k l where kl: "(fp_starts p', fp_ends p') = month_span k" "(fp_starts p, fp_ends p) = month_span l"
        using slot p'_in p by blast
      then have "k = l" using p'_in(3) month_span_end_inj [of k l] by (simp flip: kl)
      then have "fp_starts p' = fp_starts p" using kl by (metis prod.inject)
      then have "p' = p" using ok p p'_in unfolding periods_ok_def by blast
      then show ?thesis using prev [OF \<open>closing\<close>] p' \<open>closing\<close> by simp
    next
      case False
      then have "fp_status p = PeriodClosed" using closed p q adj ord q by (auto simp: closed_in_order_def)
      then show ?thesis using True by simp
    qed
  next
    case False
    then have qn: "fp_id q \<noteq> pid" "fp_status q = PeriodClosed" using closed q by (auto split: if_splits)
    have "fp_id p \<noteq> pid"
    proof
      assume "fp_id p = pid"
      then have "p = before" using only p by blast
      obtain k l where kl: "(fp_starts p, fp_ends p) = month_span k" "(fp_starts q, fp_ends q) = month_span l"
        using slot p q by blast
      then have "fp_starts p \<le> fp_ends p" "valid_date (fp_starts q)"
        using month_span_order [of k] slot_starts_valid [of l] by (metis fst_conv snd_conv)+
      then have "fp_starts p < fp_starts q" using day_before_less [of "fp_starts q"] adj by simp
      then show False using later [OF False] q qn(2) \<open>p = before\<close> by auto
    qed
    moreover have "fp_status p = PeriodClosed" using ord p q adj qn(2) by (auto simp: closed_in_order_def)
    ultimately show ?thesis by simp
  qed
  have "closed_in_order org t"
    unfolding closed_in_order_def t(1) set_map ball_simps f_sel using order by blast
  moreover have "periods_ok org t"
  proof -
    have "start_months t = start_months s" "next_uuid t = next_uuid s"
      using run by (auto simp: period_transition_def tx_bind_Inr set_period_status_def get_period_def audit_write_Inr split: if_splits)
    then have "month_of org t = month_of org s" "next_uuid t = next_uuid s" by (auto simp: month_of_def)
    note same = this
    have inj: "fp_id p = fp_id q \<or> fp_starts p = fp_starts q \<Longrightarrow> ?f p = ?f q"
      if "p \<in> set (periods s)" "q \<in> set (periods s)" "fp_org p = org" "fp_org q = org" for p q
    proof -
      assume "fp_id p = fp_id q \<or> fp_starts p = fp_starts q"
      with that ok have "p = q" unfolding periods_ok_def by blast
      then show "?f p = ?f q" by simp
    qed
    show ?thesis
      using ok inj unfolding periods_ok_def t(1) same by (auto simp only: f_sel set_map ball_simps image_iff)
    qed
  ultimately show ?thesis using after_f st others a r t(2) by simp
qed

text \<open>January 2026 of a calendar-year organization, closed by actor 7.\<close>

definition january_db :: db where
  "january_db = empty_db\<lparr>periods := [\<lparr>fp_id = 500, fp_org = 2, fp_year = 2026, fp_no = 1,
     fp_starts = Date 2026 1 1, fp_ends = Date 2026 1 31, fp_status = PeriodOpen, fp_closed_by = None,
     fp_closed_at = None\<rparr>]\<rparr>"

theorem period_transition_in_order_witness:
  "\<exists>p t. period_transition 2 (Some 7) 500 True None january_db = Inr (p, t) \<and>
     closed_in_order 2 t \<and> fp_status p = PeriodClosed"
proof -
  have "case period_transition 2 (Some 7) 500 True None january_db of Inl _ \<Rightarrow> False | Inr _ \<Rightarrow> True"
    by code_simp
  then obtain p t where run: "period_transition 2 (Some 7) 500 True None january_db = Inr (p, t)"
    by (auto split: sum.splits)
  have ok: "periods_ok 2 january_db"
    by (simp add: january_db_def empty_db_def periods_ok_def month_of_def period_slot_def year_bounds_def month_length_def Let_def)
  have ord: "closed_in_order 2 january_db" by (simp add: january_db_def empty_db_def closed_in_order_def)
  from period_transition_in_order [OF ok ord run] run show ?thesis by auto
qed

end
