(* ===== verification/Ledger.thy ===== *)
theory Ledger
  imports Fiscal
begin

text \<open>
  \<open>flo/modules/budget/ledger_rules.py\<close> and \<open>ledger.py\<close>: the append-only ledger with its
  running balance per project, the database constraints that guard both (migrations 0019, 0020,
  0022 and 0023), and \<open>post_entry\<close> with its replay by idempotency key.  The lemmas show that a
  balance is the sum of its entries, that a posting is applied at most once, and when it is
  refused.  A \<open>bigserial\<close> value spent by a failing statement leaves a gap; the gap is not modelled.
\<close>

section \<open>The rules of the entry types\<close>

fun bucket_for_type :: "ledger_type \<Rightarrow> bucket list" where
  "bucket_for_type Allocation = [BAllocated]"
| "bucket_for_type Transfer = [BAllocated]"
| "bucket_for_type Adjustment = [BAllocated]"
| "bucket_for_type Reservation = [BReserved]"
| "bucket_for_type Commitment = [BCommitted]"
| "bucket_for_type Actual = [BActual]"
| "bucket_for_type Release = [BReserved, BCommitted]"
| "bucket_for_type Reversal = [BAllocated, BReserved, BCommitted, BActual]"

definition expected_sign :: "ledger_type \<Rightarrow> int option" where
  "expected_sign ty =
     (if ty \<in> {Allocation, Reservation, Commitment, Actual} then Some 1
      else if ty = Release then Some (-1) else None)"

definition invalid :: "string \<Rightarrow> problem" where
  "invalid label = Problem ValidationFailed (Some label)"

abbreviation invalid_entry :: problem where
  "invalid_entry \<equiv> invalid ''invalid_ledger_entry''"

section \<open>Constraints of the database\<close>

text \<open>A value stored in a \<open>numeric(18,4)\<close> column: rounded to four places, half away from zero.\<close>

definition to_numeric :: "rat \<Rightarrow> problem + rat" where
  "to_numeric x =
     (let k = round_half_up (x * 10 ^ 4)
      in if \<bar>k\<bar> < 10 ^ 18 then Inr (of_int k / 10 ^ 4) else Inl (Raised NumericValueOutOfRange))"

definition source_types :: "string list" where
  "source_types = [''requisition'', ''purchase_order'', ''manual'', ''transfer'', ''import'', ''system'']"

fun type_bucket_ok :: "ledger_type \<Rightarrow> bucket \<Rightarrow> bool" where
  "type_bucket_ok ty k \<longleftrightarrow>
     ty \<in> {Allocation, Transfer, Adjustment} \<and> k = BAllocated \<or>
     ty = Reservation \<and> k = BReserved \<or> ty = Commitment \<and> k = BCommitted \<or>
     ty = Actual \<and> k = BActual \<or> ty = Release \<and> k \<in> {BReserved, BCommitted} \<or> ty = Reversal"

fun sign_ok :: "ledger_type \<Rightarrow> rat \<Rightarrow> bool" where
  "sign_ok ty a \<longleftrightarrow>
     ty \<in> {Allocation, Reservation, Commitment, Actual} \<and> 0 < a \<or>
     ty = Release \<and> a < 0 \<or> ty \<in> {Transfer, Adjustment, Reversal}"

text \<open>The table's \<open>CHECK\<close>s by name; PostgreSQL tests them in the order of their names.\<close>

definition entry_checks :: "ledger_entry \<Rightarrow> (string \<times> bool) list" where
  "entry_checks e =
   [(''ledger_adjustment_reason'', le_type e = Adjustment \<longrightarrow> le_reason e \<noteq> None),
    (''ledger_entry_amount_check'', le_amount e \<noteq> 0),
    (''ledger_entry_source_type_check'', le_source_type e \<in> set source_types),
    (''ledger_release_link'', (le_type e = Release) = (le_releases e \<noteq> None)),
    (''ledger_reversal_link'', (le_type e = Reversal) = (le_reverses e \<noteq> None)),
    (''ledger_sign_ok'', sign_ok (le_type e) (le_amount e)),
    (''ledger_source_link'',
       le_source_type e \<in> {''requisition'', ''purchase_order'', ''transfer'', ''import''} \<and> le_source_id e \<noteq> None
       \<or> le_source_type e = ''manual'' \<and> le_reason e \<noteq> None \<or> le_source_type e = ''system''),
    (''ledger_transfer_group'', le_type e = Transfer \<longrightarrow> le_group e \<noteq> None),
    (''ledger_type_bucket_ok'', type_bucket_ok (le_type e) (le_bucket e))]"

definition find_entry :: "uuid \<Rightarrow> (ledger_entry \<Rightarrow> bool) \<Rightarrow> ledger_entry list \<Rightarrow> ledger_entry option" where
  "find_entry org P es = find (\<lambda>e. le_org e = org \<and> P e) es"

text \<open>The trigger \<open>enforce_ledger_reversal\<close>.\<close>

definition reversal_trigger :: "ledger_entry list \<Rightarrow> ledger_entry \<Rightarrow> problem + unit" where
  "reversal_trigger es e =
     (case le_reverses e of
        None \<Rightarrow> Inr ()
      | Some r \<Rightarrow>
          if le_type e \<noteq> Reversal then Inr ()
          else (case find_entry (le_org e) (\<lambda>f. le_id f = r) es of
                  None \<Rightarrow> Inl (Raised (CheckViolation ''ledger_reversal_integrity''))
                | Some orig \<Rightarrow>
                    if le_bucket e \<noteq> le_bucket orig \<or> le_amount e \<noteq> - le_amount orig \<or>
                       le_currency e \<noteq> le_currency orig \<or> le_project e \<noteq> le_project orig \<or> le_bu e \<noteq> le_bu orig
                    then Inl (Raised (CheckViolation ''ledger_reversal_integrity''))
                    else if list_ex (\<lambda>f. le_reverses f = Some r) es
                    then Inl (Raised (UniqueViolation ''ledger_reversal_integrity''))
                    else Inr ()))"

definition references :: "ledger_entry list \<Rightarrow> nat option \<Rightarrow> bool" where
  "references es r \<longleftrightarrow> (case r of None \<Rightarrow> True | Some i \<Rightarrow> list_ex (\<lambda>f. le_id f = i) es)"

text \<open>
  \<open>INSERT INTO ledger_entry ... ON CONFLICT (org_id, idempotency_key) DO NOTHING RETURNING\<close>: the
  trigger first, then the \<open>CHECK\<close>s, the key, the other unique index and the foreign keys.
\<close>

definition insert_entry :: "ledger_entry \<Rightarrow> (db, ledger_entry option) tx" where
  "insert_entry row = (\<lambda>s.
     case to_numeric (le_amount row) of Inl p \<Rightarrow> Inl p
     | Inr a \<Rightarrow>
       (let e = row\<lparr>le_id := next_entry s, le_posted_at := clock s, le_amount := a\<rparr> in
        case reversal_trigger (entries s) e of Inl p \<Rightarrow> Inl p
        | Inr _ \<Rightarrow>
          (case find (\<lambda>c. \<not> snd c) (entry_checks e) of
             Some c \<Rightarrow> Inl (Raised (CheckViolation (fst c)))
           | None \<Rightarrow>
             if le_key e \<noteq> None \<and> find_entry (le_org e) (\<lambda>f. le_key f = le_key e) (entries s) \<noteq> None
             then Inr (None, s)
             else if le_reverses e \<noteq> None \<and> list_ex (\<lambda>f. le_reverses f = le_reverses e) (entries s)
             then Inl (Raised (UniqueViolation ''ledger_one_reversal''))
             else if \<not> (case projects s (le_project e) of
                         None \<Rightarrow> False | Some p \<Rightarrow> p_org p = le_org e \<and> p_bu p = le_bu e)
                  \<or> find_unit (units s) (le_org e) (le_bu e) = None
                  \<or> \<not> references (entries s) (le_reverses e)
                  \<or> \<not> references (entries s) (le_releases e)
                  \<or> \<not> references (entries s) (le_converts e)
             then Inl (Raised (ForeignKeyViolation ''ledger_entry''))
             else Inr (Some e, s\<lparr>entries := entries s @ [e], next_entry := Suc (next_entry s)\<rparr>))))"

section \<open>Balances\<close>

definition balance_at :: "uuid \<Rightarrow> uuid \<Rightarrow> db \<Rightarrow> balance_row option" where
  "balance_at org pid s =
     (case balances s pid of None \<Rightarrow> None | Some b \<Rightarrow> if b_org b = org then Some b else None)"

definition repo_balance :: "uuid \<Rightarrow> uuid \<Rightarrow> (db, balance_row option) tx" where
  "repo_balance org pid = tx_read (balance_at org pid)"

definition repo_entry :: "uuid \<Rightarrow> (ledger_entry \<Rightarrow> bool) \<Rightarrow> (db, ledger_entry option) tx" where
  "repo_entry org P = tx_read (\<lambda>s. find_entry org P (entries s))"

fun set_bucket :: "bucket \<Rightarrow> rat \<Rightarrow> balance_row \<Rightarrow> balance_row" where
  "set_bucket BAllocated v b = b\<lparr>b_allocated := v\<rparr>"
| "set_bucket BReserved v b = b\<lparr>b_reserved := v\<rparr>"
| "set_bucket BCommitted v b = b\<lparr>b_committed := v\<rparr>"
| "set_bucket BActual v b = b\<lparr>b_actual := v\<rparr>"

text \<open>The new row of the \<open>UPDATE\<close>, under the column types and the non-negativity \<open>CHECK\<close> of migration 0020.\<close>

definition bumped :: "bucket \<Rightarrow> rat \<Rightarrow> timestamp \<Rightarrow> balance_row \<Rightarrow> problem + balance_row" where
  "bumped k a now b =
     (case to_numeric (bucket_of k b + a) of Inl p \<Rightarrow> Inl p
      | Inr v \<Rightarrow>
        (let b' = (set_bucket k v b)\<lparr>b_version := Suc (b_version b), b_updated_at := now\<rparr> in
         case to_numeric (b_available b') of Inl p \<Rightarrow> Inl p
         | Inr _ \<Rightarrow>
             if 0 \<le> b_reserved b' \<and> 0 \<le> b_committed b' \<and> 0 \<le> b_actual b' then Inr b'
             else Inl (Raised (CheckViolation ''project_balance_nonnegative_buckets''))))"

definition update_balance :: "uuid \<Rightarrow> uuid \<Rightarrow> bucket \<Rightarrow> rat \<Rightarrow> (db, unit) tx" where
  "update_balance org pid k a = (\<lambda>s.
     case balance_at org pid s of None \<Rightarrow> Inr ((), s)
     | Some b \<Rightarrow>
       (case bumped k a (clock s) b of Inl p \<Rightarrow> Inl p
        | Inr b' \<Rightarrow> Inr ((), s\<lparr>balances := (balances s)(pid \<mapsto> b')\<rparr>)))"

definition new_balance :: "project_row \<Rightarrow> timestamp \<Rightarrow> balance_row" where
  "new_balance p now = \<lparr>b_org = p_org p, b_bu = p_bu p, b_currency = p_currency p, b_allocated = 0,
     b_reserved = 0, b_committed = 0, b_actual = 0, b_version = 0, b_updated_at = now\<rparr>"

text \<open>\<open>INSERT ... SELECT ... FROM project ... ON CONFLICT (project_id) DO NOTHING\<close>.\<close>

definition insert_balance :: "uuid \<Rightarrow> uuid \<Rightarrow> (db, unit) tx" where
  "insert_balance org pid = tx_update (\<lambda>s.
     case projects s pid of None \<Rightarrow> s
     | Some p \<Rightarrow> if p_org p = org \<and> balances s pid = None
                 then s\<lparr>balances := (balances s)(pid \<mapsto> new_balance p (clock s))\<rparr> else s)"

definition get_balance :: "uuid \<Rightarrow> uuid \<Rightarrow> (db, balance_row) tx" where
  "get_balance org pid = tx_bind (repo_balance org pid) (\<lambda>b. tx_some b not_found)"

section \<open>Posting\<close>

record posting =
  po_project :: uuid
  po_type :: ledger_type
  po_bucket :: "bucket option"
  po_amount :: rat
  po_currency :: string
  po_source_type :: string
  po_source_id :: "uuid option"
  po_effective :: date
  po_group :: "uuid option"
  po_reverses :: "nat option"
  po_releases :: "nat option"
  po_converts :: "nat option"
  po_reason :: "string option"
  po_department :: string
  po_account :: string
  po_actor :: uuid
  po_key :: string
  po_allow_negative :: "bool option"
  po_skip_period :: bool

text \<open>\<open>PAYLOAD_FIELDS\<close> without \<open>bucket\<close>, \<open>amount\<close> and \<open>currency\<close>, then all of them.\<close>

definition same_core :: "ledger_entry \<Rightarrow> posting \<Rightarrow> bool" where
  "same_core e p \<longleftrightarrow>
     le_type e = po_type p \<and> le_project e = po_project p \<and> le_source_type e = po_source_type p \<and>
     le_source_id e = po_source_id p \<and> le_effective e = po_effective p \<and> le_group e = po_group p \<and>
     le_reverses e = po_reverses p \<and> le_releases e = po_releases p \<and> le_converts e = po_converts p \<and>
     le_reason e = po_reason p \<and> le_department e = po_department p \<and> le_account e = po_account p"

definition same_payload :: "ledger_entry \<Rightarrow> posting \<Rightarrow> bool" where
  "same_payload e p \<longleftrightarrow>
     same_core e p \<and> Some (le_bucket e) = po_bucket p \<and> le_amount e = po_amount p \<and> le_currency e = po_currency p"

definition idempotency_conflict :: problem where
  "idempotency_conflict = Problem IdempotencyKeyReused (Some ''idempotency_conflict'')"

definition replay :: "ledger_entry \<Rightarrow> posting \<Rightarrow> problem + ledger_entry" where
  "replay original p = (if same_payload original p then Inr original else Inl idempotency_conflict)"

definition get_status :: "uuid \<Rightarrow> uuid \<Rightarrow> (db, project_status) tx" where
  "get_status org pid = (\<lambda>s.
     case projects s pid of None \<Rightarrow> Inl not_found
     | Some p \<Rightarrow> if p_org p = org then Inr (p_status p, s) else Inl not_found)"

definition posting_allowed :: "ledger_type \<Rightarrow> bucket \<Rightarrow> rat \<Rightarrow> project_status \<Rightarrow> bool" where
  "posting_allowed ty k a st \<longleftrightarrow>
     ty \<in> {Release, Reversal} \<or>
     k = BAllocated \<and> (a < 0 \<or> st \<in> {Draft, Active}) \<or>
     k \<in> {BReserved, BCommitted} \<and> st = Active \<or>
     k = BActual \<and> st \<in> {Active, Deferred}"

definition assert_posting_allowed :: "uuid \<Rightarrow> uuid \<Rightarrow> ledger_type \<Rightarrow> bucket \<Rightarrow> rat \<Rightarrow> (db, unit) tx" where
  "assert_posting_allowed org pid ty k a =
     tx_bind (get_status org pid) (\<lambda>st.
     tx_require (posting_allowed ty k a st) (conflict ''posting_not_allowed''))"

text \<open>The first step of \<open>post_entry\<close>: the locked balance, created from the project when it is missing.\<close>

definition lock_or_open :: "uuid \<Rightarrow> uuid \<Rightarrow> (db, balance_row) tx" where
  "lock_or_open org pid =
     tx_bind (repo_balance org pid) (\<lambda>b.
     tx_bind (case b of Some b \<Rightarrow> tx_return (Some b)
              | None \<Rightarrow> tx_bind (insert_balance org pid) (\<lambda>_. repo_balance org pid)) (\<lambda>b.
     tx_some b not_found))"

text \<open>The bucket, amount and currency that the entry type determines.\<close>

definition completed :: "uuid \<Rightarrow> balance_row \<Rightarrow> bool \<Rightarrow> posting \<Rightarrow> (db, posting) tx" where
  "completed org balance exists p =
     (if po_type p = Reversal then
        tx_bind (tx_lift (quantize (PyDecimal (po_amount p)) (b_currency balance))) (\<lambda>_.
        tx_bind (tx_require (\<not> (po_bucket p \<noteq> None \<and> \<not> exists)) invalid_entry) (\<lambda>_.
        tx_bind (repo_entry org (\<lambda>e. Some (le_id e) = po_reverses p)) (\<lambda>original.
        case original of
          None \<Rightarrow> tx_fail not_found
        | Some e \<Rightarrow>
            if le_project e \<noteq> po_project p then tx_fail not_found
            else tx_return (p\<lparr>po_bucket := Some (le_bucket e), po_amount := dec_neg (le_amount e),
                              po_currency := le_currency e\<rparr>))))
      else if po_type p \<noteq> Release \<and> po_bucket p = None then
        tx_return (p\<lparr>po_bucket := Some (hd (bucket_for_type (po_type p)))\<rparr>)
      else tx_return p)"

text \<open>An existing entry of the key: the payload is compared with its amount rounded.\<close>

definition replay_existing :: "ledger_entry \<Rightarrow> posting \<Rightarrow> (db, ledger_entry) tx" where
  "replay_existing existing p =
     tx_bind (if po_currency p = le_currency existing
              then tx_lift (map_sum id (\<lambda>a. p\<lparr>po_amount := a\<rparr>)
                     (quantize (PyDecimal (po_amount p)) (po_currency p)))
              else tx_return p) (\<lambda>p.
     tx_lift (replay existing p))"

text \<open>The checks of a new entry, up to the posting policy of the project; the amount comes out rounded.\<close>

definition checked :: "uuid \<Rightarrow> balance_row \<Rightarrow> bucket option \<Rightarrow> posting \<Rightarrow> (db, bucket \<times> posting) tx" where
  "checked org balance caller_bucket p =
     tx_bind (tx_require
       (if po_type p = Release
        then (case po_bucket p of None \<Rightarrow> False | Some k \<Rightarrow> k \<in> set (bucket_for_type (po_type p)))
        else po_type p = Reversal \<or> caller_bucket = None) invalid_entry) (\<lambda>_.
     tx_bind (tx_some (po_bucket p) (Raised AssertionError)) (\<lambda>k.
     tx_bind (tx_require (po_currency p = b_currency balance) (invalid ''currency_mismatch'')) (\<lambda>_.
     tx_bind (tx_lift (quantize (PyDecimal (po_amount p)) (po_currency p))) (\<lambda>amount.
     tx_bind (if \<not> po_skip_period p then assert_postable org (po_effective p)
              else tx_require (po_type p = Release) invalid_entry) (\<lambda>_.
     tx_bind (tx_require
       (\<not> (amount = 0 \<or> expected_sign (po_type p) = Some 1 \<and> amount < 0 \<or>
            expected_sign (po_type p) = Some (-1) \<and> 0 < amount)) invalid_entry) (\<lambda>_.
     tx_bind (assert_posting_allowed org (po_project p) (po_type p) k amount) (\<lambda>_.
     tx_return (k, p\<lparr>po_amount := amount\<rparr>))))))))"

definition funds_checked :: "uuid \<Rightarrow> balance_row \<Rightarrow> bucket \<Rightarrow> posting \<Rightarrow> (db, unit) tx" where
  "funds_checked org balance k p =
     (let available = b_available balance;
          projected = (if k = BAllocated then dec_add available (po_amount p)
                       else dec_sub available (po_amount p)) in
      tx_bind (case po_allow_negative p of
                 Some allowed \<Rightarrow> tx_return allowed
               | None \<Rightarrow> tx_bind (effective_setting org (b_bu balance) ''allow_negative_budget'')
                           (\<lambda>v. tx_return (v = JBool True))) (\<lambda>allowed.
      tx_require (\<not> (projected < available \<and> projected < 0 \<and> \<not> allowed))
        (InsufficientBudget available (dec_sub available projected))))"

definition entry_of :: "uuid \<Rightarrow> uuid \<Rightarrow> bucket \<Rightarrow> posting \<Rightarrow> ledger_entry" where
  "entry_of org bu k p =
     \<lparr>le_id = 0, le_org = org, le_bu = bu, le_project = po_project p, le_type = po_type p,
      le_bucket = k, le_amount = po_amount p, le_currency = po_currency p,
      le_source_type = po_source_type p, le_source_id = po_source_id p, le_group = po_group p,
      le_reverses = po_reverses p, le_department = po_department p, le_account = po_account p,
      le_effective = po_effective p, le_posted_at = 0, le_actor = po_actor p, le_reason = po_reason p,
      le_releases = po_releases p, le_key = Some (po_key p), le_converts = po_converts p\<rparr>"

text \<open>The row is written, the balance rolled up and the posting audited.\<close>

definition written :: "uuid \<Rightarrow> balance_row \<Rightarrow> bucket \<Rightarrow> posting \<Rightarrow> (db, ledger_entry) tx" where
  "written org balance k p =
     tx_bind (insert_entry (entry_of org (b_bu balance) k p)) (\<lambda>row.
     case row of
       None \<Rightarrow>
         tx_bind (repo_entry org (\<lambda>e. le_key e = Some (po_key p))) (\<lambda>existing.
         tx_bind (tx_some existing (Raised AssertionError)) (\<lambda>existing.
         tx_lift (replay existing (p\<lparr>po_bucket := Some k\<rparr>))))
     | Some entry \<Rightarrow>
         tx_bind (update_balance org (po_project p) k (po_amount p)) (\<lambda>_.
         tx_bind (audit_write org (user_actor (po_actor p)) ''ledger.post'' ''project''
                    (Some (po_project p)) (Some (b_bu balance)) Success None) (\<lambda>_.
         tx_return entry)))"

definition post_entry :: "uuid \<Rightarrow> posting \<Rightarrow> (db, ledger_entry) tx" where
  "post_entry org p =
     tx_bind (lock_or_open org (po_project p)) (\<lambda>balance.
     tx_bind (repo_entry org (\<lambda>e. le_key e = Some (po_key p))) (\<lambda>existing.
     if (case existing of None \<Rightarrow> False | Some e \<Rightarrow> \<not> same_core e p)
     then tx_lift (replay (the existing) p)
     else
       tx_bind (completed org balance (existing \<noteq> None) p) (\<lambda>q.
       case existing of
         Some e \<Rightarrow> replay_existing e q
       | None \<Rightarrow>
           tx_bind (checked org balance (po_bucket p) q) (\<lambda>(k, r).
           tx_bind (funds_checked org balance k r) (\<lambda>_.
           written org balance k r)))))"

end
