(* ===== verification/LedgerLaws.thy ===== *)
theory LedgerLaws
  imports Ledger
begin

text \<open>
  What the ledger guarantees: the invariant \<open>ledger_ok\<close> of the tables, what one successful
  \<open>post_entry\<close> does to them, and the properties that follow for balances, replays and refusals.
\<close>

section \<open>Amounts in the columns\<close>

definition four_places :: "rat \<Rightarrow> bool" where
  "four_places x \<longleftrightarrow> (\<exists>k. x = of_int k / 10 ^ 4)"

lemma numeric_four_places: "numeric18_4 x \<Longrightarrow> four_places x"
  by (auto simp: numeric18_4_def four_places_def)

lemma four_places_add [intro]: "four_places x \<Longrightarrow> four_places y \<Longrightarrow> four_places (x + y)"
proof -
  assume "four_places x" "four_places y"
  then obtain k l where "x = of_int k / 10 ^ 4" "y = of_int l / 10 ^ 4" by (auto simp: four_places_def)
  then have "x + y = of_int (k + l) / 10 ^ 4" by (simp add: add_divide_distrib)
  then show ?thesis unfolding four_places_def by blast
qed

lemma four_places_diff [intro]: "four_places x \<Longrightarrow> four_places y \<Longrightarrow> four_places (x - y)"
proof -
  assume "four_places x" "four_places y"
  then obtain k l where "x = of_int k / 10 ^ 4" "y = of_int l / 10 ^ 4" by (auto simp: four_places_def)
  then have "x - y = of_int (k - l) / 10 ^ 4" by (simp add: diff_divide_distrib)
  then show ?thesis unfolding four_places_def by blast
qed

lemma to_numeric_exact: "four_places x \<Longrightarrow> to_numeric x = Inr a \<longleftrightarrow> a = x \<and> numeric18_4 x"
  by (auto simp: to_numeric_def four_places_def numeric18_4_def Let_def)

lemma to_numeric_numeric: "to_numeric x = Inr a \<Longrightarrow> numeric18_4 a"
  unfolding to_numeric_def numeric18_4_def Let_def by (metis Inl_Inr_False Inr_inject)

lemma quantize_four_places:
  assumes "quantize (PyDecimal x) c = Inr q" shows "four_places q"
proof -
  from assms obtain e where e: "currency_exponent c = Inr e" "q = of_int (round_half_up (x * 10 ^ e)) / 10 ^ e"
    by (auto simp: quantize_Inr dec_quantize_Inr)
  have le: "e \<le> 4" by (rule currency_exponent_le [OF e(1)])
  let ?k = "round_half_up (x * 10 ^ e)"
  have p: "(10::rat) ^ 4 = 10 ^ e * 10 ^ (4 - e)" using le by (simp only: le_add_diff_inverse flip: power_add)
  have "of_int (?k * 10 ^ (4 - e)) / (10::rat) ^ 4 = of_int ?k / 10 ^ e" unfolding p by simp
  with e(2) show ?thesis unfolding four_places_def by metis
qed

lemma quantize_idem: "quantize (PyDecimal x) c = Inr q \<Longrightarrow> quantize (PyDecimal q) c = Inr q"
  by (auto simp: quantize_Inr dec_quantize_Inr)

lemma quantize_neg:
  assumes "quantize (PyDecimal q) c = Inr q" shows "quantize (PyDecimal (- q)) c = Inr (- q)"
  using assms by (auto simp: quantize_Inr dec_quantize_Inr round_half_up_neg)

lemma bucket_of_set [simp]:
  "bucket_of j (set_bucket k v b) = (if j = k then v else bucket_of j b)"
  by (cases j; cases k) auto

lemma set_bucket_sel [simp]:
  "b_org (set_bucket k v b) = b_org b" "b_bu (set_bucket k v b) = b_bu b"
  "b_currency (set_bucket k v b) = b_currency b" "b_version (set_bucket k v b) = b_version b"
  by (cases k; simp)+

lemma bucket_of_stamp [simp]:
  "bucket_of j (b\<lparr>b_version := v\<rparr>) = bucket_of j b" "bucket_of j (b\<lparr>b_updated_at := w\<rparr>) = bucket_of j b"
  by (cases j; simp)+

lemma available_buckets: "b_available b = bucket_of BAllocated b - bucket_of BReserved b -
    bucket_of BCommitted b - bucket_of BActual b"
  by (simp add: b_available_def)

text \<open>The columns of a balance row: in range, and only the allocation may be negative.\<close>

definition balance_columns :: "balance_row \<Rightarrow> bool" where
  "balance_columns b \<longleftrightarrow> (\<forall>k. numeric18_4 (bucket_of k b)) \<and> numeric18_4 (b_available b) \<and>
     0 \<le> b_reserved b \<and> 0 \<le> b_committed b \<and> 0 \<le> b_actual b"

lemma bumped_Inr:
  assumes "bumped k a now b = Inr b'" "balance_columns b" "four_places a"
  shows "\<forall>j. bucket_of j b' = bucket_of j b + (if j = k then a else 0)"
    and "b_org b' = b_org b" "b_bu b' = b_bu b" "b_currency b' = b_currency b" "b_version b' = Suc (b_version b)"
    and "balance_columns b'"
proof -
  from assms(1) obtain v w where v: "to_numeric (bucket_of k b + a) = Inr v"
    and b': "b' = set_bucket k v b\<lparr>b_version := Suc (b_version b), b_updated_at := now\<rparr>"
    and w: "to_numeric (b_available b') = Inr w" and pos: "0 \<le> b_reserved b'" "0 \<le> b_committed b'" "0 \<le> b_actual b'"
    by (auto simp: bumped_def Let_def split: sum.splits if_splits)
  have "four_places (bucket_of k b + a)"
    using assms(2,3) numeric_four_places by (auto simp: balance_columns_def)
  with v have v': "v = bucket_of k b + a" "numeric18_4 v" by (simp_all add: to_numeric_exact)
  show buckets: "\<forall>j. bucket_of j b' = bucket_of j b + (if j = k then a else 0)"
    by (simp add: b' v')
  show "b_org b' = b_org b" "b_bu b' = b_bu b" "b_currency b' = b_currency b" "b_version b' = Suc (b_version b)"
    by (simp_all add: b')
  have cols: "numeric18_4 (bucket_of j b')" for j
    using v' assms(2) by (simp add: b' balance_columns_def)
  have "four_places (b_available b')"
    unfolding available_buckets by (intro four_places_diff numeric_four_places cols)
  with w have "numeric18_4 (b_available b')" by (simp add: to_numeric_exact)
  with cols pos show "balance_columns b'" by (simp add: balance_columns_def)
qed

section \<open>The invariant of the ledger\<close>

definition bucket_total :: "ledger_entry list \<Rightarrow> uuid \<Rightarrow> bucket \<Rightarrow> rat" where
  "bucket_total es pid k = sum_list (map le_amount (filter (\<lambda>e. le_project e = pid \<and> le_bucket e = k) es))"

lemma bucket_total_snoc [simp]:
  "bucket_total (es @ [e]) pid k =
     bucket_total es pid k + (if le_project e = pid \<and> le_bucket e = k then le_amount e else 0)"
  by (simp add: bucket_total_def)

lemma bucket_total_Nil [simp]: "bucket_total [] pid k = 0"
  by (simp add: bucket_total_def)

definition entry_ok :: "ledger_entry \<Rightarrow> bool" where
  "entry_ok e \<longleftrightarrow> list_all snd (entry_checks e) \<and> numeric18_4 (le_amount e) \<and>
     quantize (PyDecimal (le_amount e)) (le_currency e) = Inr (le_amount e)"

text \<open>The entry belongs to a balance row of its own organization, unit and currency.\<close>

definition entry_home :: "(uuid \<rightharpoonup> balance_row) \<Rightarrow> ledger_entry \<Rightarrow> bool" where
  "entry_home bs e \<longleftrightarrow> (\<exists>b. bs (le_project e) = Some b \<and> b_org b = le_org e \<and> b_bu b = le_bu e \<and> b_currency b = le_currency e)"

definition links_ok :: "ledger_entry list \<Rightarrow> ledger_entry \<Rightarrow> bool" where
  "links_ok es e \<longleftrightarrow>
     (\<forall>r. le_reverses e = Some r \<longrightarrow> (\<exists>f\<in>set es. le_id f = r \<and> r < le_id e \<and> le_org f = le_org e \<and> le_project f = le_project e \<and>
        le_bu f = le_bu e \<and> le_bucket f = le_bucket e \<and> le_currency f = le_currency e \<and> le_amount e = - le_amount f)) \<and>
     (\<forall>r. le_releases e = Some r \<longrightarrow> (\<exists>f\<in>set es. le_id f = r \<and> r < le_id e)) \<and>
     (\<forall>r. le_converts e = Some r \<longrightarrow> (\<exists>f\<in>set es. le_id f = r \<and> r < le_id e))"

definition unique_keys :: "ledger_entry list \<Rightarrow> bool" where
  "unique_keys es \<longleftrightarrow> distinct es \<and>
     (\<forall>e\<in>set es. \<forall>f\<in>set es. le_id e = le_id f \<longrightarrow> e = f) \<and>
     (\<forall>e\<in>set es. \<forall>f\<in>set es. le_org e = le_org f \<longrightarrow> le_key e = le_key f \<longrightarrow> le_key e \<noteq> None \<longrightarrow> e = f) \<and>
     (\<forall>e\<in>set es. \<forall>f\<in>set es. le_reverses e = le_reverses f \<longrightarrow> le_reverses e \<noteq> None \<longrightarrow> e = f)"

definition ledger_ok :: "db \<Rightarrow> bool" where
  "ledger_ok s \<longleftrightarrow>
     (\<forall>e\<in>set (entries s). entry_ok e \<and> entry_home (balances s) e \<and> links_ok (entries s) e \<and> le_id e < next_entry s) \<and>
     unique_keys (entries s) \<and>
     (\<forall>pid b. balances s pid = Some b \<longrightarrow>
        balance_columns b \<and> (\<forall>k. bucket_of k b = bucket_total (entries s) pid k))"

lemma ledger_ok_empty: "ledger_ok empty_db"
  by (simp add: ledger_ok_def empty_db_def unique_keys_def)

lemma ledger_ok_cong:
  "balances t = balances s \<Longrightarrow> entries t = entries s \<Longrightarrow> next_entry t = next_entry s \<Longrightarrow> ledger_ok t = ledger_ok s"
  by (simp add: ledger_ok_def)

text \<open>One new entry with its balance rolled up.\<close>

definition posted :: "db \<Rightarrow> ledger_entry \<Rightarrow> db \<Rightarrow> bool" where
  "posted s e t \<longleftrightarrow>
     (\<exists>b b'. balances s (le_project e) = Some b \<and> b_org b = le_org e \<and> b_bu b = le_bu e \<and> b_currency b = le_currency e \<and>
        bumped (le_bucket e) (le_amount e) (clock s) b = Inr b' \<and> balances t = (balances s)(le_project e \<mapsto> b')) \<and>
     entries t = entries s @ [e] \<and> next_entry t = Suc (next_entry s) \<and> le_id e = next_entry s \<and> entry_ok e \<and>
     (\<forall>f\<in>set (entries s). le_org f = le_org e \<longrightarrow> le_key e \<noteq> None \<longrightarrow> le_key f \<noteq> le_key e) \<and>
     (\<forall>f\<in>set (entries s). le_reverses e \<noteq> None \<longrightarrow> le_reverses f \<noteq> le_reverses e) \<and>
     (\<forall>r. le_reverses e = Some r \<longrightarrow> (\<exists>f\<in>set (entries s). le_id f = r \<and> le_org f = le_org e \<and> le_project f = le_project e \<and>
        le_bu f = le_bu e \<and> le_bucket f = le_bucket e \<and> le_currency f = le_currency e \<and> le_amount e = - le_amount f)) \<and>
     (\<forall>r. le_releases e = Some r \<longrightarrow> (\<exists>f\<in>set (entries s). le_id f = r)) \<and>
     (\<forall>r. le_converts e = Some r \<longrightarrow> (\<exists>f\<in>set (entries s). le_id f = r))"

lemma ledger_entry_facts:
  assumes "ledger_ok s" "e \<in> set (entries s)"
  shows "entry_ok e" "entry_home (balances s) e" "links_ok (entries s) e" "le_id e < next_entry s"
  using assms by (auto simp: ledger_ok_def)

lemma links_ok_mono: "links_ok es e \<Longrightarrow> set es \<subseteq> set fs \<Longrightarrow> links_ok fs e"
  unfolding links_ok_def by (meson subsetD)

lemma entry_home_upd:
  "entry_home bs e \<Longrightarrow> bs pid = Some b \<Longrightarrow> b_org b' = b_org b \<Longrightarrow> b_bu b' = b_bu b \<Longrightarrow> b_currency b' = b_currency b \<Longrightarrow>
   entry_home (bs(pid \<mapsto> b')) e"
  by (auto simp: entry_home_def)

lemma posted_keeps:
  assumes ok: "ledger_ok s" and p: "posted s e t"
  shows "ledger_ok t"
proof -
  from p obtain b b' where b: "balances s (le_project e) = Some b" "b_org b = le_org e" "b_bu b = le_bu e"
      "b_currency b = le_currency e" "bumped (le_bucket e) (le_amount e) (clock s) b = Inr b'"
      "balances t = (balances s)(le_project e \<mapsto> b')"
    and es: "entries t = entries s @ [e]" "next_entry t = Suc (next_entry s)" "le_id e = next_entry s" "entry_ok e"
    unfolding posted_def by blast
  have cols: "balance_columns b" and sums: "\<forall>k. bucket_of k b = bucket_total (entries s) (le_project e) k"
    using ok b(1) by (auto simp: ledger_ok_def)
  have "four_places (le_amount e)" using es(4) numeric_four_places by (auto simp: entry_ok_def)
  note b' = bumped_Inr [OF b(5) cols this]
  have old: "entry_ok f \<and> entry_home (balances t) f \<and> links_ok (entries t) f \<and> le_id f < next_entry t"
    if "f \<in> set (entries s)" for f
    using ledger_entry_facts [OF ok that] entry_home_upd [of "balances s" f "le_project e" b b'] b(1) b'(2-4)
      links_ok_mono [of "entries s" f "entries t"]
    by (auto simp: b(6) es)
  have new: "entry_home (balances t) e" "links_ok (entries t) e" "le_id e < next_entry t"
  proof -
    show "entry_home (balances t) e" using b b' by (auto simp: entry_home_def)
    have lt: "f \<in> set (entries s) \<Longrightarrow> le_id f < le_id e" for f
      using ledger_entry_facts(4) [OF ok] es(3) by auto
    then show "links_ok (entries t) e"
      using p unfolding posted_def links_ok_def es(1) by (metis Un_iff set_append)
    show "le_id e < next_entry t" using es by simp
  qed
  have keys: "unique_keys (entries t)"
  proof -
    have "unique_keys (entries s)" using ok by (simp add: ledger_ok_def)
    moreover have "le_id f \<noteq> le_id e" if "f \<in> set (entries s)" for f
      using ledger_entry_facts(4) [OF ok that] es(3) by simp
    ultimately show ?thesis
      using p unfolding posted_def unique_keys_def es(1) set_append by auto metis+
  qed
  have rows: "balance_columns c \<and> (\<forall>k. bucket_of k c = bucket_total (entries t) pid k)"
    if "balances t pid = Some c" for pid c
  proof (cases "pid = le_project e")
    case True
    then have "c = b'" using that b(6) by simp
    then show ?thesis using b'(1,6) sums True by (auto simp: es(1))
  next
    case False
    then show ?thesis using that b(6) ok by (auto simp: ledger_ok_def es(1))
  qed
  show ?thesis unfolding ledger_ok_def using old new es keys rows by auto
qed

section \<open>What a posting does\<close>

text \<open>The calendar's work inside a posting leaves the books alone.\<close>

definition same_books :: "db \<Rightarrow> db \<Rightarrow> bool" where
  "same_books s t \<longleftrightarrow>
     projects t = projects s \<and> balances t = balances s \<and> entries t = entries s \<and> next_entry t = next_entry s \<and>
     evidence t = evidence s \<and> units t = units s \<and> settings t = settings s \<and> masters t = masters s \<and>
     status_events t = status_events s \<and> clock t = clock s \<and> correlation t = correlation s"

interpretation books: tx_preorder same_books
  by unfold_locales (auto simp: same_books_def)

lemma audit_same_books: "tx_rel same_books (audit_write org actor a tt tg bu oc r)"
  by (auto intro!: tx_relI simp: audit_write_Inr same_books_def)

lemma insert_period_same_books: "tx_rel same_books (insert_period org y no ds)"
  by (auto intro!: tx_relI simp: insert_period_def tx_bind_Inr fresh_uuid_Inr same_books_def split: if_splits)

lemma assert_postable_same_books: "tx_rel same_books (assert_postable org d)"
  unfolding assert_postable_def period_for_def period_containing_def ensure_year_def start_month_def list_periods_def
  by (intro books.tx_ok audit_same_books insert_period_same_books | simp split: option.split if_split
      | intro conjI allI impI books.tx_ok audit_same_books insert_period_same_books)+

lemma same_books_ledger_ok: "same_books s t \<Longrightarrow> ledger_ok t = ledger_ok s"
  by (rule ledger_ok_cong) (simp_all add: same_books_def)

text \<open>The balance row, created from the project at most once.\<close>

lemma lock_or_open_Inr:
  assumes "lock_or_open org pid s = Inr (b, t)"
  shows "balances t pid = Some b" "b_org b = org"
    "t = s \<or> (\<exists>pr. balances s pid = None \<and> projects s pid = Some pr \<and> p_org pr = org \<and>
       b = new_balance pr (clock s) \<and> t = s\<lparr>balances := (balances s)(pid \<mapsto> b)\<rparr>)"
  using assms
  by (auto simp: lock_or_open_def repo_balance_def insert_balance_def balance_at_def tx_bind_Inr new_balance_def
      split: option.splits if_splits)

lemma bucket_of_new [simp]: "bucket_of k (new_balance pr now) = 0"
  by (cases k) (simp_all add: new_balance_def)

lemma numeric18_4_zero [simp]: "numeric18_4 0"
  by (auto simp: numeric18_4_def intro!: exI [of _ 0])

lemma bucket_total_none: "(\<And>e. e \<in> set es \<Longrightarrow> le_project e \<noteq> pid) \<Longrightarrow> bucket_total es pid k = 0"
  by (induction es) (auto simp: bucket_total_def)

lemma lock_or_open_keeps:
  assumes ok: "ledger_ok s" and run: "lock_or_open org pid s = Inr (b, t)"
  shows "ledger_ok t" "entries t = entries s" "next_entry t = next_entry s" "projects t = projects s"
    "clock t = clock s" "\<And>q. balances s q \<noteq> None \<Longrightarrow> balances t q = balances s q"
    "\<And>q. q \<noteq> pid \<Longrightarrow> balances t q = balances s q"
proof -
  note o = lock_or_open_Inr [OF run]
  show "entries t = entries s" "next_entry t = next_entry s" "projects t = projects s"
    "clock t = clock s" "\<And>q. balances s q \<noteq> None \<Longrightarrow> balances t q = balances s q"
    "\<And>q. q \<noteq> pid \<Longrightarrow> balances t q = balances s q"
    using o(3) by auto
  show "ledger_ok t"
  proof (cases "t = s")
    case True
    then show ?thesis using ok by simp
  next
    case False
    with o(3) obtain pr where pr: "balances s pid = None" "b = new_balance pr (clock s)"
      "t = s\<lparr>balances := (balances s)(pid \<mapsto> b)\<rparr>" by blast
    have home: "entry_home (balances s) e" if "e \<in> set (entries s)" for e
      using ledger_entry_facts [OF ok that] by simp
    then have none: "e \<in> set (entries s) \<Longrightarrow> le_project e \<noteq> pid" for e
      using pr(1) unfolding entry_home_def by (metis option.distinct(1))
    have "entry_home (balances t) e" if "e \<in> set (entries s)" for e
      using home [OF that] none [OF that] by (auto simp: entry_home_def pr(3))
    moreover have "balance_columns b"
      by (simp add: balance_columns_def pr(2)) (simp add: b_available_def new_balance_def)
    ultimately show ?thesis
      using ok none by (auto simp: ledger_ok_def pr bucket_total_none)
  qed
qed

lemma completed_Inr:
  assumes "completed org b ex p s = Inr (q, t)"
  obtains "t = s" "po_type p = Reversal" "ex \<or> po_bucket p = None" "\<exists>x. quantize (PyDecimal (po_amount p)) (b_currency b) = Inr x"
      "\<exists>f. find_entry org (\<lambda>e. Some (le_id e) = po_reverses p) (entries s) = Some f \<and> le_project f = po_project p \<and>
         q = p\<lparr>po_bucket := Some (le_bucket f), po_amount := dec_neg (le_amount f), po_currency := le_currency f\<rparr>"
  | "t = s" "po_type p \<noteq> Reversal" "po_type p \<noteq> Release" "po_bucket p = None"
      "q = p\<lparr>po_bucket := Some (hd (bucket_for_type (po_type p)))\<rparr>"
  | "t = s" "po_type p \<noteq> Reversal" "po_type p = Release \<or> po_bucket p \<noteq> None" "q = p"
proof (cases "po_type p = Reversal")
  case True
  with assms that(1) show ?thesis
    by (auto simp: completed_def tx_bind_Inr repo_entry_def split: option.splits if_splits)
next
  case False
  with assms that(2,3) show ?thesis
    by (auto simp: completed_def split: if_splits)
qed

lemma funds_checked_Inr:
  assumes "funds_checked org b k p s = Inr (u, t)"
  shows "t = s \<and> (let v = b_available b; w = (if k = BAllocated then dec_add v (po_amount p) else dec_sub v (po_amount p)) in
     v \<le> w \<or> 0 \<le> w \<or> po_allow_negative p = Some True \<or>
     po_allow_negative p = None \<and> effective_setting org (b_bu b) ''allow_negative_budget'' s = Inr (JBool True, s))"
proof -
  have eff: "effective_setting org u key s = Inr (v, t) \<Longrightarrow> t = s" for u key v t
    by (auto simp: effective_setting_def split: sum.splits option.splits if_splits)
  show ?thesis
    using assms eff by (auto simp: funds_checked_def Let_def tx_bind_Inr not_less split: option.splits)
qed

lemma get_status_Inr:
  "get_status org pid s = Inr (st, t) \<longleftrightarrow>
     t = s \<and> (\<exists>p. projects s pid = Some p \<and> p_org p = org \<and> st = p_status p)"
  by (auto simp: get_status_def split: option.splits if_splits)

lemma checked_Inr:
  assumes "checked org b cb p s = Inr ((k, r), t)"
  obtains a st where
    "po_type p = Release \<and> k \<in> set (bucket_for_type Release) \<or> po_type p = Reversal \<or> po_type p \<noteq> Release \<and> cb = None"
    "po_bucket p = Some k" "po_currency p = b_currency b" "quantize (PyDecimal (po_amount p)) (po_currency p) = Inr a"
    "r = p\<lparr>po_amount := a\<rparr>" "a \<noteq> 0" "expected_sign (po_type p) = Some 1 \<Longrightarrow> 0 < a"
    "expected_sign (po_type p) = Some (-1) \<Longrightarrow> a < 0" "same_books s t"
    "po_skip_period p \<Longrightarrow> po_type p = Release \<and> t = s"
    "\<not> po_skip_period p \<Longrightarrow> assert_postable org (po_effective p) s = Inr ((), t)"
    "get_status org (po_project p) t = Inr (st, t)" "posting_allowed (po_type p) k a st"
proof -
  from assms [unfolded checked_def assert_posting_allowed_def tx_simps get_status_Inr prod.inject]
  obtain a st u where
    "(if po_type p = Release
        then (case po_bucket p of None \<Rightarrow> False | Some k \<Rightarrow> k \<in> set (bucket_for_type (po_type p)))
        else po_type p = Reversal \<or> cb = None)"
    "po_bucket p = Some k" "po_currency p = b_currency b" "quantize (PyDecimal (po_amount p)) (po_currency p) = Inr a"
    "r = p\<lparr>po_amount := a\<rparr>"
    "(if \<not> po_skip_period p then assert_postable org (po_effective p)
              else tx_require (po_type p = Release) invalid_entry) s = Inr (u, t)"
    "\<not> (a = 0 \<or> expected_sign (po_type p) = Some 1 \<and> a < 0 \<or> expected_sign (po_type p) = Some (-1) \<and> 0 < a)"
    "get_status org (po_project p) t = Inr (st, t)" "posting_allowed (po_type p) k a st"
    unfolding get_status_Inr by blast
  note c = this
  have "same_books s t"
    using c(6) tx_relD [OF assert_postable_same_books] books.R_refl by (auto split: if_splits)
  with c show ?thesis by (intro that [of a st]) (auto split: if_splits)
qed

lemma find_entry_Some: "find_entry org P es = Some e \<Longrightarrow> e \<in> set es \<and> le_org e = org \<and> P e"
  unfolding find_entry_def using find_Some_iff_mem by fastforce

lemma find_entry_None: "find_entry org P es = None \<longleftrightarrow> (\<forall>e\<in>set es. le_org e = org \<longrightarrow> \<not> P e)"
  by (auto simp: find_entry_def find_None_iff)

lemma references_iff: "references es r \<longleftrightarrow> (\<forall>i. r = Some i \<longrightarrow> (\<exists>f\<in>set es. le_id f = i))"
  by (auto simp: references_def list_ex_iff split: option.splits)

lemma insert_entry_Inr:
  assumes "insert_entry row s = Inr (Some e, t)"
  shows "\<exists>a. to_numeric (le_amount row) = Inr a \<and> e = row\<lparr>le_id := next_entry s, le_posted_at := clock s, le_amount := a\<rparr>"
    "t = s\<lparr>entries := entries s @ [e], next_entry := Suc (next_entry s)\<rparr>"
    "list_all snd (entry_checks e)"
    "le_key e \<noteq> None \<Longrightarrow> find_entry (le_org e) (\<lambda>f. le_key f = le_key e) (entries s) = None"
    "\<forall>f\<in>set (entries s). le_reverses e \<noteq> None \<longrightarrow> le_reverses f \<noteq> le_reverses e"
    "\<forall>r. le_reverses e = Some r \<longrightarrow> (\<exists>f\<in>set (entries s). le_id f = r \<and> le_org f = le_org e \<and>
       le_project f = le_project e \<and> le_bu f = le_bu e \<and> le_bucket f = le_bucket e \<and>
       le_currency f = le_currency e \<and> le_amount e = - le_amount f)"
    "references (entries s) (le_releases e)" "references (entries s) (le_converts e)"
proof -
  from assms obtain a where
    a: "to_numeric (le_amount row) = Inr a" "e = row\<lparr>le_id := next_entry s, le_posted_at := clock s, le_amount := a\<rparr>"
    and trig: "reversal_trigger (entries s) e = Inr ()" and chk: "find (\<lambda>c. \<not> snd c) (entry_checks e) = None"
    and keys: "\<not> (le_key e \<noteq> None \<and> find_entry (le_org e) (\<lambda>f. le_key f = le_key e) (entries s) \<noteq> None)"
    and rev: "\<not> (le_reverses e \<noteq> None \<and> list_ex (\<lambda>f. le_reverses f = le_reverses e) (entries s))"
    and refs: "references (entries s) (le_releases e)" "references (entries s) (le_converts e)"
    and t: "t = s\<lparr>entries := entries s @ [e], next_entry := Suc (next_entry s)\<rparr>"
    by (auto simp: insert_entry_def Let_def split: sum.splits option.splits if_splits)
  show "\<exists>a. to_numeric (le_amount row) = Inr a \<and> e = row\<lparr>le_id := next_entry s, le_posted_at := clock s, le_amount := a\<rparr>"
    using a by blast
  show "list_all snd (entry_checks e)" using chk unfolding find_None_iff list_all_iff by blast
  moreover have "(''ledger_reversal_link'', (le_type e = Reversal) = (le_reverses e \<noteq> None)) \<in> set (entry_checks e)"
    by (simp add: entry_checks_def)
  ultimately have link: "(le_type e = Reversal) = (le_reverses e \<noteq> None)" by (auto simp: list_all_iff)
  show "t = s\<lparr>entries := entries s @ [e], next_entry := Suc (next_entry s)\<rparr>" by (rule t)
  show "le_key e \<noteq> None \<Longrightarrow> find_entry (le_org e) (\<lambda>f. le_key f = le_key e) (entries s) = None" using keys by blast
  show "\<forall>f\<in>set (entries s). le_reverses e \<noteq> None \<longrightarrow> le_reverses f \<noteq> le_reverses e"
    using rev by (auto simp: list_ex_iff)
  show "references (entries s) (le_releases e)" "references (entries s) (le_converts e)" by (rule refs)+
  show "\<forall>r. le_reverses e = Some r \<longrightarrow> (\<exists>f\<in>set (entries s). le_id f = r \<and> le_org f = le_org e \<and>
       le_project f = le_project e \<and> le_bu f = le_bu e \<and> le_bucket f = le_bucket e \<and>
       le_currency f = le_currency e \<and> le_amount e = - le_amount f)"
  proof (intro allI impI)
    fix r
    assume r: "le_reverses e = Some r"
    with link have "le_type e = Reversal" by simp
    with trig r obtain f where "find_entry (le_org e) (\<lambda>f. le_id f = r) (entries s) = Some f"
      "le_bucket e = le_bucket f" "le_amount e = - le_amount f" "le_currency e = le_currency f"
      "le_project e = le_project f" "le_bu e = le_bu f"
      by (auto simp: reversal_trigger_def split: option.splits if_splits)
    with find_entry_Some [OF this(1)]
    show "\<exists>f\<in>set (entries s). le_id f = r \<and> le_org f = le_org e \<and>
       le_project f = le_project e \<and> le_bu f = le_bu e \<and> le_bucket f = le_bucket e \<and>
       le_currency f = le_currency e \<and> le_amount e = - le_amount f" by (intro bexI [of _ f]) simp_all
  qed
qed

lemma entry_of_sel [simp]:
  "le_org (entry_of org bu k p) = org" "le_bu (entry_of org bu k p) = bu"
  "le_project (entry_of org bu k p) = po_project p" "le_type (entry_of org bu k p) = po_type p"
  "le_bucket (entry_of org bu k p) = k" "le_amount (entry_of org bu k p) = po_amount p"
  "le_currency (entry_of org bu k p) = po_currency p" "le_source_type (entry_of org bu k p) = po_source_type p"
  "le_source_id (entry_of org bu k p) = po_source_id p" "le_group (entry_of org bu k p) = po_group p"
  "le_reverses (entry_of org bu k p) = po_reverses p" "le_department (entry_of org bu k p) = po_department p"
  "le_account (entry_of org bu k p) = po_account p" "le_effective (entry_of org bu k p) = po_effective p"
  "le_actor (entry_of org bu k p) = po_actor p" "le_reason (entry_of org bu k p) = po_reason p"
  "le_releases (entry_of org bu k p) = po_releases p" "le_key (entry_of org bu k p) = Some (po_key p)"
  "le_converts (entry_of org bu k p) = po_converts p"
  by (simp_all add: entry_of_def)

text \<open>The entry that a checked posting becomes.\<close>

definition row_of :: "db \<Rightarrow> uuid \<Rightarrow> balance_row \<Rightarrow> bucket \<Rightarrow> posting \<Rightarrow> ledger_entry" where
  "row_of s org b k p = (entry_of org (b_bu b) k p)\<lparr>le_id := next_entry s, le_posted_at := clock s\<rparr>"

lemma written_Inr:
  assumes run: "written org b k p s = Inr (e, t)" and b: "balances s (po_project p) = Some b" "b_org b = org"
    and cur: "po_currency p = b_currency b" and q: "quantize (PyDecimal (po_amount p)) (po_currency p) = Inr (po_amount p)"
    and fresh: "find_entry org (\<lambda>f. le_key f = Some (po_key p)) (entries s) = None"
  shows "posted s e t" "e = row_of s org b k p" "t = s\<lparr>balances := balances t, entries := entries t, next_entry := next_entry t, audits := audits t\<rparr>"
proof -
  from run fresh obtain s1 s2 r where ins: "insert_entry (entry_of org (b_bu b) k p) s = Inr (Some e, s1)"
    and upd: "update_balance org (po_project p) k (po_amount p) s1 = Inr ((), s2)"
    and t: "t = s2\<lparr>audits := audits s2 @ [r]\<rparr>"
    by (auto simp: written_def tx_bind_Inr repo_entry_def audit_write_Inr insert_entry_def Let_def
        split: option.splits sum.splits if_splits)
  note i = insert_entry_Inr [OF ins]
  have four: "four_places (po_amount p)" by (rule quantize_four_places [OF q])
  from i(1) four have e: "e = row_of s org b k p" and num: "numeric18_4 (po_amount p)"
    by (auto simp: row_of_def entry_of_def to_numeric_exact)
  from upd b obtain b' where b': "bumped k (po_amount p) (clock s) b = Inr b'"
    "s2 = s1\<lparr>balances := (balances s)(po_project p \<mapsto> b')\<rparr>"
    by (auto simp: update_balance_def balance_at_def i(2) split: sum.splits option.splits)
  show "e = row_of s org b k p" by (rule e)
  have sel: "le_project e = po_project p" "le_org e = org" "le_bu e = b_bu b" "le_currency e = b_currency b"
    "le_bucket e = k" "le_amount e = po_amount p" "le_id e = next_entry s" "le_key e = Some (po_key p)"
    by (simp_all add: e row_of_def cur)
  show "posted s e t"
    unfolding posted_def
  proof (intro conjI)
    show "\<exists>b b'. balances s (le_project e) = Some b \<and> b_org b = le_org e \<and> b_bu b = le_bu e \<and> b_currency b = le_currency e \<and>
        bumped (le_bucket e) (le_amount e) (clock s) b = Inr b' \<and> balances t = (balances s)(le_project e \<mapsto> b')"
      using b b' by (auto simp: sel t)
    show "entry_ok e" using i(3) num q by (simp add: entry_ok_def sel cur)
    show "\<forall>r. le_releases e = Some r \<longrightarrow> (\<exists>f\<in>set (entries s). le_id f = r)"
      "\<forall>r. le_converts e = Some r \<longrightarrow> (\<exists>f\<in>set (entries s). le_id f = r)"
      using i(7,8) by (simp_all add: references_iff)
    show "\<forall>f\<in>set (entries s). le_org f = le_org e \<longrightarrow> le_key e \<noteq> None \<longrightarrow> le_key f \<noteq> le_key e"
      using fresh by (auto simp: find_entry_None sel)
  qed (use i in \<open>simp_all add: t b' sel(7)\<close>)
  show "t = s\<lparr>balances := balances t, entries := entries t, next_entry := next_entry t, audits := audits t\<rparr>"
    by (simp add: t b' i(2))
qed

text \<open>
  The abstract result of a call: \<open>e\<close> is an entry that carries the call's key and content, with the
  bucket, amount and currency the entry type determines.
\<close>

definition represents :: "uuid \<Rightarrow> posting \<Rightarrow> ledger_entry \<Rightarrow> bool" where
  "represents org p e \<longleftrightarrow>
     le_org e = org \<and> le_key e = Some (po_key p) \<and> same_core e p \<and>
     (if po_type p = Reversal then \<exists>x. quantize (PyDecimal (po_amount p)) (le_currency e) = Inr x
      else (if po_type p = Release then po_bucket p = Some (le_bucket e)
            else po_bucket p = Some (le_bucket e) \<or>
                 po_bucket p = None \<and> le_bucket e = hd (bucket_for_type (po_type p))) \<and>
        le_currency e = po_currency p \<and>
        quantize (PyDecimal (po_amount p)) (po_currency p) = Inr (le_amount e))"

lemma entry_reversed:
  assumes "ledger_ok s" "e \<in> set (entries s)" "le_reverses e = Some r"
  obtains f where "f \<in> set (entries s)" "le_id f = r" "le_org f = le_org e" "le_project f = le_project e"
    "le_bucket f = le_bucket e" "le_currency f = le_currency e" "le_amount e = - le_amount f"
  using ledger_entry_facts(3) [OF assms(1,2)] assms(3) by (auto simp: links_ok_def)

lemma entry_type_links:
  assumes "entry_ok e"
  shows "(le_type e = Reversal) = (le_reverses e \<noteq> None)" "(le_type e = Release) = (le_releases e \<noteq> None)"
    "type_bucket_ok (le_type e) (le_bucket e)" "sign_ok (le_type e) (le_amount e)" "le_amount e \<noteq> 0"
  using assms unfolding entry_ok_def entry_checks_def list.pred_inject snd_conv by blast+

lemma find_by_id:
  assumes "ledger_ok s" "f \<in> set (entries s)"
  shows "find_entry (le_org f) (\<lambda>e. Some (le_id e) = Some (le_id f)) (entries s) = Some f"
proof -
  have "find_entry (le_org f) (\<lambda>e. Some (le_id e) = Some (le_id f)) (entries s) \<noteq> None"
    using assms(2) by (auto simp: find_entry_None)
  then obtain g where g: "find_entry (le_org f) (\<lambda>e. Some (le_id e) = Some (le_id f)) (entries s) = Some g" by blast
  then have "g \<in> set (entries s)" "le_id g = le_id f" using find_entry_Some by fastforce+
  then have "g = f" using assms by (auto simp: ledger_ok_def unique_keys_def)
  with g show ?thesis by simp
qed

lemma find_by_key:
  assumes "ledger_ok s" "f \<in> set (entries s)" "le_org f = org" "le_key f = Some key"
  shows "find_entry org (\<lambda>e. le_key e = Some key) (entries s) = Some f"
proof -
  have "find_entry org (\<lambda>e. le_key e = Some key) (entries s) \<noteq> None"
    using assms by (auto simp: find_entry_None)
  then obtain g where g: "find_entry org (\<lambda>e. le_key e = Some key) (entries s) = Some g" by blast
  then have "g \<in> set (entries s)" "le_org g = org" "le_key g = Some key" using find_entry_Some by fastforce+
  then have "g = f" using assms by (auto simp: ledger_ok_def unique_keys_def)
  with g show ?thesis by simp
qed

lemma dec_neg_numeric [simp]: "numeric18_4 x \<Longrightarrow> dec_neg x = - x"
  by (simp add: numeric18_4_repr28)

lemma represents_replays:
  assumes ok: "ledger_ok s" and e: "e \<in> set (entries s)" and r: "represents org p e"
  shows "post_entry org p s = Inr (e, s)"
proof -
  from r have k: "le_org e = org" "le_key e = Some (po_key p)" and core: "same_core e p"
    by (simp_all add: represents_def)
  note facts = ledger_entry_facts [OF ok e]
  from facts(2) core k(1) obtain b where b: "balances s (po_project p) = Some b" "b_org b = org" "b_currency b = le_currency e"
    by (auto simp: entry_home_def same_core_def)
  have lock: "lock_or_open org (po_project p) s = Inr (b, s)"
    using b by (simp add: lock_or_open_def repo_balance_def balance_at_def tx_eval)
  have exi: "repo_entry org (\<lambda>e. le_key e = Some (po_key p)) s = Inr (Some e, s)"
    using find_by_key [OF ok e k] by (simp add: repo_entry_def tx_read_def)
  have q: "quantize (PyDecimal (le_amount e)) (le_currency e) = Inr (le_amount e)" using facts(1) by (simp add: entry_ok_def)
  have ty: "le_type e = po_type p" using core by (simp add: same_core_def)
  have done_: "same_core e (p\<lparr>po_bucket := bu, po_currency := c, po_amount := a\<rparr>) = same_core e p" for bu a c
    by (simp add: same_core_def)
  have "tx_bind (completed org b True p) (replay_existing e) s = Inr (e, s)"
  proof (cases "po_type p = Reversal")
    case True
    then obtain i where i: "le_reverses e = Some i"
      using entry_type_links(1) [OF facts(1)] ty by auto
    obtain f where "f \<in> set (entries s)" "le_id f = i" "le_org f = le_org e" "le_project f = le_project e"
      "le_bucket f = le_bucket e" "le_currency f = le_currency e" "le_amount e = - le_amount f"
      by (rule entry_reversed [OF ok e i])
    then have f: "f \<in> set (entries s)" "Some (le_id f) = po_reverses p" "le_org f = org" "le_project f = po_project p"
      "le_bucket f = le_bucket e" "le_currency f = le_currency e" "le_amount e = - le_amount f"
      using core k(1) i by (simp_all add: same_core_def)
    have n: "dec_neg (le_amount f) = le_amount e"
      using f(7) ledger_entry_facts(1) [OF ok f(1)] by (simp add: entry_ok_def)
    let ?q = "p\<lparr>po_bucket := Some (le_bucket e), po_amount := le_amount e, po_currency := le_currency e\<rparr>"
    have "repo_entry org (\<lambda>e. Some (le_id e) = po_reverses p) s = Inr (Some f, s)"
      using find_by_id [OF ok f(1)] f(2,3) by (simp add: repo_entry_def tx_read_def)
    moreover obtain x where "quantize (PyDecimal (po_amount p)) (b_currency b) = Inr x"
      using r True b(3) by (auto simp: represents_def)
    ultimately have "completed org b True p s = Inr (?q, s)"
      using True f n by (simp add: completed_def tx_eval)
    then show ?thesis
      using core q by (simp add: tx_eval replay_existing_def replay_def same_payload_def done_)
  next
    case False
    let ?q = "p\<lparr>po_bucket := Some (le_bucket e)\<rparr>"
    have rep: "le_currency e = po_currency p" "quantize (PyDecimal (po_amount p)) (po_currency p) = Inr (le_amount e)"
      using r False by (auto simp: represents_def)
    have "completed org b True p s = Inr (?q, s)"
      using r False by (auto simp: completed_def represents_def tx_eval split: if_splits)
    then show ?thesis
      using core rep by (simp add: tx_eval replay_existing_def replay_def same_payload_def same_core_def)
  qed
  then show ?thesis
    using core by (simp add: post_entry_def tx_bind_def lock exi)
qed

lemma replay_existing_Inr:
  "replay_existing e q s = Inr (f, t) \<Longrightarrow>
     t = s \<and> f = e \<and> same_core e q \<and> Some (le_bucket e) = po_bucket q \<and> le_currency e = po_currency q \<and>
     quantize (PyDecimal (po_amount q)) (po_currency q) = Inr (le_amount e)"
  by (cases "quantize (PyDecimal (po_amount q)) (po_currency q)")
    (auto simp: replay_existing_def replay_def same_payload_def same_core_def tx_bind_Inr split: if_splits)

text \<open>
  A successful call either finds its entry already there and changes nothing, or appends one new
  entry to the books, with the balance opened first when the project had none.
\<close>

lemma post_entry_Inr:
  assumes ok: "ledger_ok s" and run: "post_entry org p s = Inr (e, t)"
  obtains (replayed) "t = s" "e \<in> set (entries s)" "represents org p e"
  | (posted) b k q r s0 s1 where
      "find_entry org (\<lambda>f. le_key f = Some (po_key p)) (entries s) = None"
      "lock_or_open org (po_project p) s = Inr (b, s0)" "completed org b False p s0 = Inr (q, s0)"
      "checked org b (po_bucket p) q s0 = Inr ((k, r), s1)" "funds_checked org b k r s1 = Inr ((), s1)"
      "written org b k r s1 = Inr (e, t)" "ledger_ok s1" "same_books s0 s1"
      "posted s1 e t" "e = row_of s1 org b k r" "represents org p e"
proof -
  from run obtain b s0 where lock: "lock_or_open org (po_project p) s = Inr (b, s0)"
    by (auto simp: post_entry_def tx_bind_Inr)
  note l = lock_or_open_Inr [OF lock] and lk = lock_or_open_keeps [OF ok lock]
  let ?found = "find_entry org (\<lambda>f. le_key f = Some (po_key p)) (entries s)"
  have exi: "repo_entry org (\<lambda>f. le_key f = Some (po_key p)) s0 = Inr (?found, s0)"
    by (simp add: repo_entry_def tx_read_def lk(2))
  note rest = run [unfolded post_entry_def tx_bind_def, unfolded lock sum.case prod.case exi]
  show ?thesis
  proof (cases ?found)
    case (Some f)
    note f = find_entry_Some [OF Some]
    have core: "same_core f p"
      using rest Some by (auto simp: replay_def same_payload_def tx_lift_def tx_fail_def split: if_splits)
    with rest Some obtain q s2 where q: "completed org b True p s0 = Inr (q, s2)" "replay_existing f q s2 = Inr (e, t)"
      by (auto split: sum.splits)
    note re = replay_existing_Inr [OF q(2)]
    have home: "entry_home (balances s) f" using ledger_entry_facts(2) [OF ok] f by blast
    have pid: "le_project f = po_project p" using core by (simp add: same_core_def)
    have "s0 = s" using l(3) home pid by (auto simp: entry_home_def)
    have "le_currency f = b_currency b"
      using home pid l(1) \<open>s0 = s\<close> by (auto simp: entry_home_def)
    from q(1) have "s2 = s0 \<and> represents org p f"
    proof (cases rule: completed_Inr)
      case 1
      then show ?thesis using f core \<open>le_currency f = b_currency b\<close> by (simp add: represents_def)
    next
      case 2
      then show ?thesis using f core re by (auto simp: represents_def)
    next
      case 3
      then show ?thesis using f core re by (auto simp: represents_def)
    qed
    then show ?thesis using replayed re f \<open>s0 = s\<close> by auto
  next
    case None
    from rest None obtain q s2 k r s1 s3 where q: "completed org b False p s0 = Inr (q, s2)"
      and c: "checked org b (po_bucket p) q s2 = Inr ((k, r), s1)"
      and f: "funds_checked org b k r s1 = Inr ((), s3)" and w: "written org b k r s3 = Inr (e, t)"
      by (auto simp: tx_bind_def split: sum.splits)
    have s2: "s2 = s0" using q by (cases rule: completed_Inr) simp_all
    have s3: "s3 = s1" using funds_checked_Inr [OF f] by simp
    from c obtain a st where ch: "po_bucket q = Some k" "po_currency q = b_currency b"
      "quantize (PyDecimal (po_amount q)) (po_currency q) = Inr a" "r = q\<lparr>po_amount := a\<rparr>" "same_books s0 s1"
      unfolding s2 by (cases rule: checked_Inr) blast
    have proj: "po_project q = po_project p" "po_key q = po_key p" using q by (cases rule: completed_Inr; auto)+
    have ok1: "ledger_ok s1" using same_books_ledger_ok [OF ch(5)] lk(1) by simp
    have w': "posted s1 e t" "e = row_of s1 org b k r"
      using written_Inr [OF w [unfolded s3]] l(1,2) ch proj quantize_idem [OF ch(3)] None lk(2)
      by (simp_all add: same_books_def)
    have "represents org p e"
      using q
    proof (cases rule: completed_Inr)
      case 1
      then show ?thesis using ch by (auto simp: represents_def w'(2) row_of_def same_core_def)
    next
      case 2
      then show ?thesis using ch by (auto simp: represents_def w'(2) row_of_def same_core_def)
    next
      case 3
      then show ?thesis using ch by (auto simp: represents_def w'(2) row_of_def same_core_def)
    qed
    then show ?thesis
      using posted [OF None lock q [unfolded s2] c [unfolded s2] f [unfolded s3] w [unfolded s3] ok1 ch(5) w'] by simp
  qed
qed

lemma post_entry_ledger_ok:
  assumes "ledger_ok s" "post_entry org p s = Inr (e, t)"
  shows "ledger_ok t"
  using assms by (cases rule: post_entry_Inr) (use assms(1) posted_keeps in blast)+

lemma post_entry_result:
  assumes "ledger_ok s" "post_entry org p s = Inr (e, t)"
  shows "e \<in> set (entries t)" "represents org p e" "set (entries s) \<subseteq> set (entries t)"
proof -
  have "e \<in> set (entries t) \<and> represents org p e \<and> set (entries s) \<subseteq> set (entries t)"
    using assms
  proof (cases rule: post_entry_Inr)
    case replayed
    then show ?thesis by simp
  next
    case (posted b k q r s0 s1)
    have "entries s1 = entries s"
      using posted(8) lock_or_open_keeps(2) [OF assms(1) posted(2)] by (simp add: same_books_def)
    then show ?thesis using posted(9,11) by (auto simp: posted_def)
  qed
  then show "e \<in> set (entries t)" "represents org p e" "set (entries s) \<subseteq> set (entries t)" by auto
qed

text \<open>Every operation built from postings keeps the invariant, by the preorder's lemmas.\<close>

interpretation kept: tx_preorder "keeps ledger_ok"
  by unfold_locales (auto simp: keeps_def)

lemma post_entry_kept: "tx_rel (keeps ledger_ok) (post_entry org p)"
  by (rule tx_relI) (auto simp: keeps_def post_entry_ledger_ok)

end
