(* ===== verification/Samples.thy ===== *)
theory Samples
  imports LedgerLaws
begin

text \<open>
  A small concrete organization on which the properties of the ledger and of its clients are
  exercised, with the kernel evaluating the model.
\<close>

section \<open>A small organization\<close>

text \<open>
  The concrete runs below use organization 2 with one unit, an active root project 100 with an
  active child 101, a January 2026 that is open, and no funds yet.
\<close>

definition sample_project :: "uuid option \<Rightarrow> project_row" where
  "sample_project parent =
     \<lparr>p_org = 2, p_bu = 10, p_parent = parent, p_root = 100, p_depth = (if parent = None then 1 else 2),
      p_name = ''Harbour'', p_status = Active, p_currency = ''USD'', p_department = ''D1'',
      p_account = ''A1'', p_version = 1, p_number = ''P-1'', p_source_requisition = None, p_generated_by = None,
      p_description = None, p_external_ref = None, p_owner = 7, p_sponsor = None, p_planned_start = None, p_planned_end = None,
      p_health = UnknownHealth, p_percent = 0, p_actual_start = None, p_actual_end = None, p_created_by = Some 7\<rparr>"

definition sample_db :: db where
  "sample_db = empty_db\<lparr>
     project_ids := [100, 101],
     projects := [100 \<mapsto> sample_project None, 101 \<mapsto> sample_project (Some 100)],
     units := [\<lparr>u_id = 10, u_org = 2, u_parent = None, u_code = ''BU1'', u_name = ''Works'', u_kind = BusinessUnit, u_active = True\<rparr>],
     periods := [\<lparr>fp_id = 500, fp_org = 2, fp_year = 2026, fp_no = 1, fp_starts = Date 2026 1 1,
       fp_ends = Date 2026 1 31, fp_status = PeriodOpen, fp_closed_by = None, fp_closed_at = None\<rparr>]\<rparr>"

definition sample_posting :: "uuid \<Rightarrow> ledger_type \<Rightarrow> rat \<Rightarrow> string \<Rightarrow> posting" where
  "sample_posting pid ty amount key =
     \<lparr>po_project = pid, po_type = ty, po_bucket = None, po_amount = amount, po_currency = ''USD'',
      po_source_type = ''manual'', po_source_id = None, po_effective = Date 2026 1 15, po_group = None,
      po_reverses = None, po_releases = None, po_converts = None, po_reason = Some ''start'',
      po_department = ''D1'', po_account = ''A1'', po_actor = 7, po_key = key,
      po_allow_negative = None, po_skip_period = False\<rparr>"

lemma sample_ok: "ledger_ok sample_db"
  using ledger_ok_empty by (simp add: sample_db_def ledger_ok_def empty_db_def)

lemma numeric18_4_int: "\<bar>k\<bar> < 10 ^ 14 \<Longrightarrow> numeric18_4 (of_int k)"
  unfolding numeric18_4_def by (rule exI [of _ "k * 10 ^ 4"]) simp

lemma numeric18_4_numeral [simp]: "(numeral n :: int) < 10 ^ 14 \<Longrightarrow> numeric18_4 (numeral n)"
  using numeric18_4_int [of "numeral n"] by simp

lemma numeric18_4_neg_numeral [simp]: "(numeral n :: int) < 10 ^ 14 \<Longrightarrow> numeric18_4 (- numeral n)"
  by simp

lemma quantize_usd_numeral [simp]:
  "(numeral n :: int) < 10 ^ 26 \<Longrightarrow> quantize (PyDecimal (numeral n)) ''USD'' = Inr (numeral n)"
  "(numeral n :: int) < 10 ^ 26 \<Longrightarrow> quantize (PyDecimal (- numeral n)) ''USD'' = Inr (- numeral n)"
proof -
  have "quantize (PyDecimal (of_int k)) ''USD'' = Inr (of_int k)" if "\<bar>k\<bar> < 10 ^ 26" for k
  proof -
    have "(of_int k :: rat) * 10 ^ 2 = of_int (k * 10 ^ 2)" by simp
    then show ?thesis using that round_half_up_of_int [of "k * 10 ^ 2"]
      by (auto simp: quantize_Inr usd_exponent dec_quantize_Inr)
  qed
  from this [of "numeral n"] this [of "- numeral n"]
  show "(numeral n :: int) < 10 ^ 26 \<Longrightarrow> quantize (PyDecimal (numeral n)) ''USD'' = Inr (numeral n)"
    "(numeral n :: int) < 10 ^ 26 \<Longrightarrow> quantize (PyDecimal (- numeral n)) ''USD'' = Inr (- numeral n)"
    by simp_all
qed

text \<open>The organization after an allocation of 100 to its root project.\<close>

definition sample_balance :: "rat \<Rightarrow> rat \<Rightarrow> rat \<Rightarrow> rat \<Rightarrow> balance_row" where
  "sample_balance a r c x =
     \<lparr>b_org = 2, b_bu = 10, b_currency = ''USD'', b_allocated = a, b_reserved = r, b_committed = c,
      b_actual = x, b_version = 1, b_updated_at = 0\<rparr>"

definition sample_entry :: "nat \<Rightarrow> posting \<Rightarrow> bucket \<Rightarrow> ledger_entry" where
  "sample_entry i p k = (entry_of 2 10 k p)\<lparr>le_id := i\<rparr>"

definition sample_funded :: db where
  "sample_funded = sample_db\<lparr>
     balances := [100 \<mapsto> sample_balance 100 0 0 0],
     entries := [sample_entry 1 (sample_posting 100 Allocation 100 ''k1'') BAllocated],
     next_entry := 2\<rparr>"

lemma bucket_cases: "(\<forall>k. P k) \<longleftrightarrow> P BAllocated \<and> P BReserved \<and> P BCommitted \<and> P BActual"
  by (auto intro: bucket.induct)

lemmas sample_defs = sample_funded_def sample_db_def sample_posting_def sample_project_def sample_balance_def
  sample_entry_def empty_db_def entry_of_def
lemmas ledger_ok_defs = ledger_ok_def entry_ok_def entry_checks_def source_types_def entry_home_def links_ok_def
  unique_keys_def balance_columns_def b_available_def bucket_total_def

lemma sample_funded_ok: "ledger_ok sample_funded"
  by (simp add: sample_defs ledger_ok_defs bucket_cases)

text \<open>How a concrete run is evaluated: the facts of interest about its result in one computation.\<close>

definition run_ok :: "problem + 'a \<times> db \<Rightarrow> ('a \<Rightarrow> db \<Rightarrow> bool) \<Rightarrow> bool" where
  "run_ok r Q = (case r of Inl _ \<Rightarrow> False | Inr (x, t) \<Rightarrow> Q x t)"

lemma run_okE: "run_ok r Q \<Longrightarrow> (\<And>x t. r = Inr (x, t) \<Longrightarrow> Q x t \<Longrightarrow> R) \<Longrightarrow> R"
  by (auto simp: run_ok_def split: sum.splits)

lemma sample_allocation:
  "run_ok (post_entry 2 (sample_posting 100 Allocation 100 ''k1'') sample_db)
     (\<lambda>e t. entries t = entries sample_funded \<and> map_option b_available (balances t 100) = Some 100)"
  by code_simp

lemma sample_reservation:
  "run_ok (post_entry 2 (sample_posting 100 Reservation 30 ''k2'') sample_funded)
     (\<lambda>e t. length (entries t) = 2 \<and> map_option b_available (balances t 100) = Some 70 \<and>
        map_option b_bu (balances t 100) = Some 10)"
  by code_simp

lemma sample_funded_facts:
  "length (entries sample_funded) = 1"
  "case effective_setting 2 10 ''allow_negative_budget'' sample_funded of Inr (v, _) \<Rightarrow> v = JBool False | _ \<Rightarrow> False"
  by code_simp+

end
