(* ===== verification/LedgerTheorems.thy ===== *)
theory LedgerTheorems
  imports Samples
begin

text \<open>
  The properties of \<open>post_entry\<close> that the rest of the program relies on, each run once on the
  sample organization.
\<close>

section \<open>The books stay consistent\<close>

text \<open>
  C1. A posting keeps the ledger's invariant: every column constraint, key and link of the tables,
  and every balance row equal, bucket by bucket, to the sum of its project's entries.
\<close>

theorem post_entry_keeps_ledger:
  assumes ok: "ledger_ok s" and run: "post_entry org p s = Inr (e, t)"
  shows "ledger_ok t \<and> (\<exists>b. balances t (po_project p) = Some b \<and> b_org b = org \<and>
    (\<forall>k. bucket_of k b = bucket_total (entries t) (po_project p) k))"
proof -
  have t: "ledger_ok t" by (rule post_entry_ledger_ok [OF ok run])
  moreover have "\<exists>b. balances t (po_project p) = Some b \<and> b_org b = org"
    using ok run
  proof (cases rule: post_entry_Inr)
    case replayed
    then show ?thesis
      using ledger_entry_facts(2) [OF ok, of e] by (auto simp: represents_def same_core_def entry_home_def)
  next
    case posted
    have pid: "le_project e = po_project p" "le_org e = org"
      using posted(11) by (simp_all add: represents_def same_core_def)
    have "balances t (le_project e) \<noteq> None" using posted(9) by (auto simp: posted_def)
    moreover have "e \<in> set (entries t)" using posted(9) by (simp add: posted_def)
    then have "entry_home (balances t) e" using ledger_entry_facts(2) [OF t] by simp
    ultimately show ?thesis using pid by (auto simp: entry_home_def)
  qed
  ultimately show ?thesis by (auto simp: ledger_ok_def)
qed

theorem post_entry_keeps_ledger_witness:
  "\<exists>e t. post_entry 2 (sample_posting 100 Reservation 30 ''k2'') sample_funded = Inr (e, t) \<and> ledger_ok t"
  by (rule run_okE [OF sample_reservation]) (use post_entry_keeps_ledger [OF sample_funded_ok] in blast)

text \<open>
  C4. The ledger is append-only and a posting is local: a call adds at most the entry it returns,
  at the end, and no other project's balance, no project, setting or piece of evidence changes.
\<close>

theorem post_entry_appends:
  assumes ok: "ledger_ok s" and run: "post_entry org p s = Inr (e, t)"
  shows "(entries t = entries s \<or> entries t = entries s @ [e]) \<and> e \<in> set (entries t) \<and>
    le_org e = org \<and> le_project e = po_project p \<and> le_key e = Some (po_key p) \<and>
    (\<forall>pid. pid \<noteq> po_project p \<longrightarrow> balances t pid = balances s pid) \<and>
    projects t = projects s \<and> evidence t = evidence s \<and> settings t = settings s \<and> masters t = masters s"
  using ok run
proof (cases rule: post_entry_Inr)
  case replayed
  then show ?thesis by (simp add: represents_def same_core_def)
next
  case (posted b k q r s0 s1)
  have pid: "le_project e = po_project p" "le_org e = org" "le_key e = Some (po_key p)"
    using posted(11) by (simp_all add: represents_def same_core_def)
  note l = lock_or_open_Inr [OF posted(2)]
  have s0: "s0 = s\<lparr>balances := balances s0\<rparr>" "\<And>q. q \<noteq> po_project p \<Longrightarrow> balances s0 q = balances s q"
    using l(3) by auto
  have qp: "po_project r = po_project p" "po_key r = po_key p"
    using posted(3,4) by (auto elim!: completed_Inr checked_Inr)
  from posted(4) have cur: "po_currency r = b_currency b" "quantize (PyDecimal (po_amount r)) (po_currency r) = Inr (po_amount r)"
    by (auto elim!: checked_Inr dest: quantize_idem)
  have b1: "balances s1 (po_project r) = Some b" "find_entry org (\<lambda>f. le_key f = Some (po_key r)) (entries s1) = None"
    using l(1) posted(1,8) qp s0(1) by (simp_all add: same_books_def) (metis db.select_convs(3) db.surjective db.update_convs(2))
  note w = written_Inr(3) [OF posted(6) b1(1) l(2) cur b1(2)]
  have "\<forall>q. q \<noteq> po_project p \<longrightarrow> balances t q = balances s1 q"
    using posted(9) pid by (auto simp: posted_def)
  moreover have "projects t = projects s1" "evidence t = evidence s1" "settings t = settings s1" "masters t = masters s1"
    by (subst w, simp)+
  moreover have "projects s0 = projects s" "evidence s0 = evidence s" "settings s0 = settings s" "masters s0 = masters s" "entries s0 = entries s"
    by (subst s0(1), simp)+
  ultimately show ?thesis
    using posted(8,9) pid s0(2) by (auto simp: same_books_def posted_def)
qed

theorem post_entry_appends_witness:
  "\<exists>e t. post_entry 2 (sample_posting 100 Reservation 30 ''k2'') sample_funded = Inr (e, t) \<and>
     (entries t = entries sample_funded \<or> entries t = entries sample_funded @ [e])"
  by (rule run_okE [OF sample_reservation]) (use post_entry_appends [OF sample_funded_ok] in blast)

section \<open>At most once\<close>

text \<open>
  C2. Posting is idempotent by key: once a call has succeeded, the same call made again later
  returns the same entry and changes nothing, whatever was posted since and whatever has become of
  the fiscal period, the project's status or its funds.
\<close>

theorem post_entry_idempotent:
  assumes "ledger_ok s" "post_entry org p s = Inr (e, t)"
    and "ledger_ok u" "set (entries t) \<subseteq> set (entries u)"
  shows "post_entry org p u = Inr (e, u)"
  using represents_replays [OF assms(3)] post_entry_result [OF assms(1,2)] assms(4) by blast

theorem post_entry_idempotent_witness:
  "\<exists>e u. post_entry 2 (sample_posting 100 Allocation 100 ''k1'') sample_funded = Inr (e, sample_funded) \<and>
     post_entry 2 (sample_posting 100 Allocation 100 ''k1'') sample_db = Inr (e, u)"
proof (rule run_okE [OF sample_allocation])
  fix e t
  assume run: "post_entry 2 (sample_posting 100 Allocation 100 ''k1'') sample_db = Inr (e, t)"
    and "entries t = entries sample_funded \<and> map_option b_available (balances t 100) = Some 100"
  then have "set (entries t) \<subseteq> set (entries sample_funded)" by simp
  then show ?thesis
    using run post_entry_idempotent [OF sample_ok run sample_funded_ok] by blast
qed

section \<open>What is refused\<close>

lemma assert_postable_open:
  assumes "assert_postable org d s = Inr ((), t)"
  shows "\<exists>fp\<in>set (periods t). fp_org fp = org \<and> fp_starts fp \<le> d \<and> d \<le> fp_ends fp \<and> fp_status fp = PeriodOpen"
proof -
  from assms obtain fp where fp: "period_for org None d s = Inr (fp, t)" "fp_status fp \<noteq> PeriodClosed"
    by (auto simp: assert_postable_def tx_bind_Inr)
  from fp(1) have "find (\<lambda>p. fp_org p = org \<and> fp_starts p \<le> d \<and> d \<le> fp_ends p) (periods t) = Some fp"
    by (auto simp: period_for_def period_containing_def tx_bind_Inr split: option.splits)
  with fp(2) show ?thesis using find_Some_iff_mem by (cases "fp_status fp") fastforce+
qed

lemma posted_call:
  assumes "checked org b cb q s0 = Inr ((k, r), s1)" "completed org b False p s = Inr (q, s)"
  shows "po_project r = po_project p" "po_key r = po_key p" "po_type r = po_type p" "po_effective r = po_effective p"
    "po_skip_period q = po_skip_period p" "po_project q = po_project p" "po_type q = po_type p"
    "po_effective q = po_effective p" "po_allow_negative r = po_allow_negative p"
    "quantize (PyDecimal (po_amount r)) (po_currency r) = Inr (po_amount r)" "po_currency r = b_currency b"
    "po_reverses r = po_reverses p"
proof -
  have q: "po_project q = po_project p \<and> po_key q = po_key p \<and> po_type q = po_type p \<and> po_effective q = po_effective p \<and>
     po_skip_period q = po_skip_period p \<and> po_allow_negative q = po_allow_negative p \<and> po_reverses q = po_reverses p"
    using assms(2) by (cases rule: completed_Inr) auto
  from assms(1) obtain a where r: "r = q\<lparr>po_amount := a\<rparr>" "quantize (PyDecimal (po_amount q)) (po_currency q) = Inr a"
    "po_currency q = b_currency b" by (rule checked_Inr) blast
  from q r quantize_idem [OF r(2)] show "po_project r = po_project p" "po_key r = po_key p" "po_type r = po_type p"
    "po_effective r = po_effective p" "po_skip_period q = po_skip_period p" "po_project q = po_project p"
    "po_type q = po_type p" "po_effective q = po_effective p" "po_allow_negative r = po_allow_negative p"
    "quantize (PyDecimal (po_amount r)) (po_currency r) = Inr (po_amount r)" "po_currency r = b_currency b"
    "po_reverses r = po_reverses p"
    by simp_all
qed

lemma posted_frame:
  assumes "lock_or_open org (po_project p) s = Inr (b, s0)" "completed org b False p s0 = Inr (q, s0)"
    "checked org b cb q s0 = Inr ((k, r), s1)" "written org b k r s1 = Inr (e, t)" "same_books s0 s1"
    "find_entry org (\<lambda>f. le_key f = Some (po_key p)) (entries s) = None"
  shows "t = s1\<lparr>balances := balances t, entries := entries t, next_entry := next_entry t, audits := audits t\<rparr>"
    "s0 = s\<lparr>balances := balances s0\<rparr>" "balances s1 (po_project p) = Some b"
proof -
  note l = lock_or_open_Inr [OF assms(1)] and pc = posted_call [OF assms(3,2)]
  show s0: "s0 = s\<lparr>balances := balances s0\<rparr>" using l(3) by auto
  have b: "balances s1 (po_project p) = Some b" using l(1) assms(5) by (simp add: same_books_def)
  then show "balances s1 (po_project p) = Some b" .
  have "entries s1 = entries s" using assms(5) by (simp add: same_books_def) (subst s0, simp)
  with written_Inr(3) [OF assms(4)] b l(2) pc assms(6)
  show "t = s1\<lparr>balances := balances t, entries := entries t, next_entry := next_entry t, audits := audits t\<rparr>" by simp
qed

text \<open>
  C5. A new entry is dated in an open fiscal period of its organization, except that a release whose
  caller skips the period check (D-M1-12: a release may land in a closed period) may be dated anywhere;
  and, apart from releases and reversals, it meets the posting policy of its project: funds come into a
  draft or active project and leave any, reservations and commitments need an active one, actuals an
  active or deferred one.
\<close>

theorem post_entry_policy:
  assumes ok: "ledger_ok s" and run: "post_entry org p s = Inr (e, t)" and new: "entries t \<noteq> entries s"
  shows "(if po_skip_period p then po_type p = Release
      else \<exists>fp\<in>set (periods t). fp_org fp = org \<and> fp_starts fp \<le> le_effective e \<and> le_effective e \<le> fp_ends fp \<and> fp_status fp = PeriodOpen) \<and>
    (\<exists>pr. projects t (po_project p) = Some pr \<and> p_org pr = org \<and>
       posting_allowed (le_type e) (le_bucket e) (le_amount e) (p_status pr))"
  using ok run
proof (cases rule: post_entry_Inr)
  case replayed
  then show ?thesis using new by simp
next
  case (posted b k q r s0 s1)
  note pc = posted_call [OF posted(4,3)]
  note fr = posted_frame [OF posted(2,3,4,6,8,1)]
  have e: "le_type e = po_type p" "le_effective e = po_effective p" "le_bucket e = k" "le_amount e = po_amount r"
    using posted(10) pc by (simp_all add: row_of_def)
  have same: "periods t = periods s1" "projects t = projects s1" by (subst fr(1), simp)+
  from posted(4) obtain a st where c: "r = q\<lparr>po_amount := a\<rparr>"
    "po_skip_period q \<Longrightarrow> po_type q = Release" "\<not> po_skip_period q \<Longrightarrow> assert_postable org (po_effective q) s0 = Inr ((), s1)"
    "get_status org (po_project q) s1 = Inr (st, s1)" "posting_allowed (po_type q) k a st"
    by (rule checked_Inr) blast
  show ?thesis
    using c pc assert_postable_open [of org "po_effective p" s0 s1]
    by (auto simp: e same get_status_Inr)
qed

theorem post_entry_policy_witness:
  "\<exists>e t pr. post_entry 2 (sample_posting 100 Reservation 30 ''k2'') sample_funded = Inr (e, t) \<and>
     projects t 100 = Some pr \<and> posting_allowed (le_type e) (le_bucket e) (le_amount e) (p_status pr)"
proof (rule run_okE [OF sample_reservation])
  fix e t
  assume run: "post_entry 2 (sample_posting 100 Reservation 30 ''k2'') sample_funded = Inr (e, t)"
    and len: "length (entries t) = 2 \<and> map_option b_available (balances t 100) = Some 70 \<and>
        map_option b_bu (balances t 100) = Some 10"
  then have "entries t \<noteq> entries sample_funded" using sample_funded_facts(1) by auto
  then show ?thesis
    using run post_entry_policy [OF sample_funded_ok run] by (auto simp: sample_posting_def)
qed

lemma effective_setting_cong:
  assumes "units t = units s" "settings t = settings s"
  shows "(\<exists>u. effective_setting org unit key t = Inr (v, u)) = (\<exists>u. effective_setting org unit key s = Inr (v, u))"
  using assms by (auto simp: effective_setting_def split: sum.splits option.splits)

lemma posted_available:
  assumes ok: "ledger_ok s" and p: "posted s e t" and b: "balances s (le_project e) = Some b" and b': "balances t (le_project e) = Some b'"
  shows "b_available b' = b_available b + (if le_bucket e = BAllocated then le_amount e else - le_amount e)" "b_bu b' = b_bu b"
    "numeric18_4 (le_amount e)" "numeric18_4 (b_available b)"
proof -
  from p b b' have bump: "bumped (le_bucket e) (le_amount e) (clock s) b = Inr b'" and eo: "entry_ok e"
    by (auto simp: posted_def)
  show n: "numeric18_4 (le_amount e)" using eo by (simp add: entry_ok_def)
  have cols: "balance_columns b" using ok b by (auto simp: ledger_ok_def)
  then show "numeric18_4 (b_available b)" by (simp add: balance_columns_def)
  note bi = bumped_Inr [OF bump cols numeric_four_places [OF n]]
  show "b_bu b' = b_bu b" by (rule bi(3))
  have bo: "bucket_of j b' = bucket_of j b + (if j = le_bucket e then le_amount e else 0)" for j using bi(1) by blast
  show "b_available b' = b_available b + (if le_bucket e = BAllocated then le_amount e else - le_amount e)"
    unfolding available_buckets bo by (cases "le_bucket e") auto
qed

text \<open>
  C3. No overdraft: when neither the call nor the unit's setting allows a negative budget, a new
  entry that lowers the available funds of its project leaves them at zero or above.
\<close>

theorem post_entry_no_overdraft:
  assumes ok: "ledger_ok s" and run: "post_entry org p s = Inr (e, t)" and new: "entries t \<noteq> entries s"
    and b': "balances t (po_project p) = Some b'"
    and strict: "po_allow_negative p = Some False \<or>
      po_allow_negative p = None \<and> (\<forall>u. effective_setting org (b_bu b') ''allow_negative_budget'' s \<noteq> Inr (JBool True, u))"
  shows "0 \<le> b_available b' \<or> (\<exists>b. balances s (po_project p) = Some b \<and> b_available b \<le> b_available b')"
  using ok run
proof (cases rule: post_entry_Inr)
  case replayed
  then show ?thesis using new by simp
next
  case (posted b k q r s0 s1)
  note pc = posted_call [OF posted(4,3)]
  note fr = posted_frame [OF posted(2,3,4,6,8,1)]
  have e: "le_project e = po_project p" "le_bucket e = k" "le_amount e = po_amount r"
    using posted(10) pc by (simp_all add: row_of_def)
  note av = posted_available [OF posted(7,9), unfolded e(1), OF fr(3) b']
  have us: "units s1 = units s" "settings s1 = settings s"
    using posted(8) by (simp_all add: same_books_def) (subst fr(2), simp)+
  have b'v: "b_available b' = (if k = BAllocated then dec_add (b_available b) (po_amount r) else dec_sub (b_available b) (po_amount r))"
    using av by (simp add: e)
  have "b_available b \<le> b_available b' \<or> 0 \<le> b_available b' \<or> po_allow_negative r = Some True \<or>
     po_allow_negative r = None \<and> effective_setting org (b_bu b) ''allow_negative_budget'' s1 = Inr (JBool True, s1)"
    using funds_checked_Inr [OF posted(5)] by (auto simp: Let_def b'v)
  then have "b_available b \<le> b_available b' \<or> 0 \<le> b_available b'"
  proof (elim disjE conjE)
    assume "po_allow_negative r = None" and set: "effective_setting org (b_bu b) ''allow_negative_budget'' s1 = Inr (JBool True, s1)"
    then have "\<forall>u. effective_setting org (b_bu b) ''allow_negative_budget'' s \<noteq> Inr (JBool True, u)"
      using strict pc(9) av(2) by simp
    moreover have "\<exists>u. effective_setting org (b_bu b) ''allow_negative_budget'' s = Inr (JBool True, u)"
      using set unfolding effective_setting_cong [OF us, symmetric] by (rule exI)
    ultimately show ?thesis by simp
  qed (use strict pc(9) in simp_all)
  moreover have "b_available b = 0 \<or> balances s (po_project p) = Some b"
    using lock_or_open_Inr [OF posted(2)] by (auto simp: b_available_def new_balance_def)
  ultimately show ?thesis by auto
qed

theorem post_entry_no_overdraft_witness:
  "\<exists>e t b. post_entry 2 (sample_posting 100 Reservation 30 ''k2'') sample_funded = Inr (e, t) \<and>
     balances t 100 = Some b \<and> (0 \<le> b_available b \<or>
       (\<exists>c. balances sample_funded 100 = Some c \<and> b_available c \<le> b_available b))"
proof (rule run_okE [OF sample_reservation])
  fix e t
  assume run: "post_entry 2 (sample_posting 100 Reservation 30 ''k2'') sample_funded = Inr (e, t)"
    and q: "length (entries t) = 2 \<and> map_option b_available (balances t 100) = Some 70 \<and>
        map_option b_bu (balances t 100) = Some 10"
  then obtain b where b: "balances t (po_project (sample_posting 100 Reservation 30 ''k2'')) = Some b" "b_bu b = 10"
    by (auto simp: sample_posting_def)
  have "po_allow_negative (sample_posting 100 Reservation 30 ''k2'') = Some False \<or>
      po_allow_negative (sample_posting 100 Reservation 30 ''k2'') = None \<and>
      (\<forall>u. effective_setting 2 (b_bu b) ''allow_negative_budget'' sample_funded \<noteq> Inr (JBool True, u))"
    using q b(2) sample_funded_facts(2) by (auto simp: sample_posting_def split: sum.splits prod.splits)
  with post_entry_no_overdraft [OF sample_funded_ok run _ b(1)] q run b(1) sample_funded_facts(1) show ?thesis
    by (fastforce simp: sample_posting_def)
qed

section \<open>The Python rules mirror the constraints\<close>

lemma bucket_for_type_ok: "k \<in> set (bucket_for_type ty) \<longleftrightarrow> type_bucket_ok ty k"
  by (cases ty; cases k) simp_all

lemma sign_rule_ok:
  "a \<noteq> 0 \<Longrightarrow> \<not> (expected_sign ty = Some 1 \<and> a < 0 \<or> expected_sign ty = Some (-1) \<and> 0 < a) \<longleftrightarrow> sign_ok ty a"
  by (cases ty) (auto simp: expected_sign_def)

definition rule_constraints :: "string set" where
  "rule_constraints = {''ledger_entry_amount_check'', ''ledger_sign_ok'', ''ledger_type_bucket_ok'', ''ledger_reversal_integrity''}"

abbreviation not_rule :: "problem \<Rightarrow> bool" where
  "not_rule e \<equiv> (\<forall>c\<in>rule_constraints. e \<noteq> Raised (CheckViolation c))"

lemma label_not_raised [simp]:
  "invalid l \<noteq> Raised x" "Raised x \<noteq> invalid l" "conflict l \<noteq> Raised x" "Raised x \<noteq> conflict l"
  by (simp_all add: invalid_def conflict_def)

lemma quantize_not_rule: "quantize (PyDecimal x) c = Inl e \<Longrightarrow> not_rule e"
  by (auto simp: quantize_def currency_exponent_def dec_quantize_def Let_def split: sum.splits if_splits option.splits)

lemma to_numeric_not_rule: "to_numeric x = Inl e \<Longrightarrow> not_rule e"
  by (auto simp: to_numeric_def Let_def split: if_splits)

lemma audit_not_rule: "tx_err not_rule (audit_write org actor a tt tg bu oc r)"
  by (auto simp: tx_err_def audit_write_def Let_def split: if_splits)

lemma update_balance_not_rule: "tx_err not_rule (update_balance org pid k a)"
  by (auto simp: tx_err_def update_balance_def bumped_def rule_constraints_def Let_def to_numeric_def
      split: option.splits sum.splits if_splits)

lemma period_for_not_rule: "tx_err not_rule (period_for org actor d)"
proof -
  have ip: "tx_err not_rule (insert_period org y no ds)" for y no ds
    by (auto simp: tx_err_def insert_period_def tx_bind_Inl fresh_uuid_def split: if_splits)
  show ?thesis
    unfolding period_for_def period_containing_def ensure_year_def start_month_def list_periods_def
    by (intro tx_err_bind; (simp split: option.split if_split)?)
      (intro conjI impI allI tx_err_bind tx_err_each ip audit_not_rule | simp split: if_split
        | intro conjI impI tx_err_bind audit_not_rule)+
qed

lemma effective_setting_not_rule: "tx_err not_rule (effective_setting org u key)"
  by (auto simp: tx_err_def effective_setting_def known_key_def rule_constraints_def split: sum.splits option.splits if_splits)

lemma entry_checks_rule:
  assumes "(c, False) \<in> set (entry_checks e)" "c \<in> rule_constraints"
    "le_amount e \<noteq> 0" "sign_ok (le_type e) (le_amount e)" "type_bucket_ok (le_type e) (le_bucket e)"
  shows False
  using assms by (simp add: entry_checks_def rule_constraints_def del: type_bucket_ok.simps sign_ok.simps) auto

lemma insert_entry_not_rule:
  assumes fail: "insert_entry row s = Inl e"
    and amount: "four_places (le_amount row)" "le_amount row \<noteq> 0" "sign_ok (le_type row) (le_amount row)"
    and bucket: "type_bucket_ok (le_type row) (le_bucket row)"
    and rev: "le_type row = Reversal \<Longrightarrow> \<exists>f. find_entry (le_org row) (\<lambda>f. Some (le_id f) = le_reverses row) (entries s) = Some f \<and>
       le_bucket row = le_bucket f \<and> le_amount row = - le_amount f \<and> le_currency row = le_currency f \<and>
       le_project row = le_project f \<and> le_bu row = le_bu f"
  shows "not_rule e"
proof (cases "to_numeric (le_amount row)")
  case (Inl x)
  then show ?thesis using fail to_numeric_not_rule by (simp add: insert_entry_def)
next
  case (Inr a)
  then have a: "a = le_amount row" using amount(1) by (simp add: to_numeric_exact)
  let ?e = "row\<lparr>le_id := next_entry s, le_posted_at := clock s, le_amount := le_amount row\<rparr>"
  have trig: "not_rule x" if "reversal_trigger (entries s) ?e = Inl x" for x
  proof (cases "le_type row = Reversal")
    case True
    from rev [OF this] obtain f where f: "find_entry (le_org row) (\<lambda>f. Some (le_id f) = le_reverses row) (entries s) = Some f"
      "le_bucket row = le_bucket f" "le_amount row = - le_amount f" "le_currency row = le_currency f"
       "le_project row = le_project f" "le_bu row = le_bu f" by blast
    obtain i where i: "le_reverses row = Some i" using find_entry_Some [OF f(1)] by metis
    with f(1) have "find_entry (le_org row) (\<lambda>f. le_id f = i) (entries s) = Some f" by simp
    then show ?thesis using that f(2-) i
      by (auto simp: reversal_trigger_def rule_constraints_def split: if_splits)
  next
    case False
    then show ?thesis using that by (simp add: reversal_trigger_def split: option.splits)
  qed
  have chk: "fst c \<notin> rule_constraints" if "find (\<lambda>c. \<not> snd c) (entry_checks ?e) = Some c" for c
  proof
    assume c: "fst c \<in> rule_constraints"
    have "(fst c, False) \<in> set (entry_checks ?e)" using find_Some_iff_mem [OF that] by (metis (full_types) prod.collapse)
    from entry_checks_rule [OF this c] amount bucket show False by simp
  qed
  show ?thesis
    using fail Inr trig chk unfolding a
    by (auto simp: insert_entry_def Let_def rule_constraints_def split: sum.splits option.splits if_splits)
qed

lemma written_not_rule:
  assumes ok: "ledger_ok s0" and q: "completed org b False p s0 = Inr (q, s0)"
    and ch: "checked org b (po_bucket p) q s0 = Inr ((k, r), s1)" and w: "written org b k r s1 = Inl e"
    and b: "balances s0 (po_project p) = Some b" "b_org b = org"
  shows "not_rule e"
proof -
  note pc = posted_call [OF ch q]
  from ch obtain a where c: "po_type q = Release \<and> k \<in> set (bucket_for_type Release) \<or> po_type q = Reversal \<or> po_type q \<noteq> Release \<and> po_bucket p = None"
    "po_bucket q = Some k" "quantize (PyDecimal (po_amount q)) (po_currency q) = Inr a" "r = q\<lparr>po_amount := a\<rparr>" "a \<noteq> 0"
    "expected_sign (po_type q) = Some 1 \<Longrightarrow> 0 < a" "expected_sign (po_type q) = Some (-1) \<Longrightarrow> a < 0" "same_books s0 s1"
    by (rule checked_Inr) blast
  have sign: "sign_ok (po_type r) a"
    using sign_rule_ok [OF c(5), of "po_type q"] c(4,6,7) by (auto simp del: sign_ok.simps dest: order.asym)
  have bucket: "type_bucket_ok (po_type r) k"
  proof -
    have "k \<in> set (bucket_for_type (po_type p))"
      using q
    proof (cases rule: completed_Inr)
      case 1
      then show ?thesis using c(2) by (cases k) auto
    next
      case 2
      then show ?thesis using c(2) by (cases "po_type p") auto
    next
      case 3
      then show ?thesis using c(1) by auto
    qed
    then show ?thesis using pc(3) bucket_for_type_ok by metis
  qed
  have es: "entries s1 = entries s0" using c(8) by (simp add: same_books_def)
  have rev: "\<exists>f. find_entry org (\<lambda>f. Some (le_id f) = po_reverses r) (entries s1) = Some f \<and>
       k = le_bucket f \<and> a = - le_amount f \<and> po_currency r = le_currency f \<and> po_project r = le_project f \<and> b_bu b = le_bu f"
    if "po_type r = Reversal"
    using q
  proof (cases rule: completed_Inr)
    case 1
    then obtain f where f: "find_entry org (\<lambda>e. Some (le_id e) = po_reverses p) (entries s0) = Some f" "le_project f = po_project p"
      "q = p\<lparr>po_bucket := Some (le_bucket f), po_amount := dec_neg (le_amount f), po_currency := le_currency f\<rparr>" by blast
    from find_entry_Some [OF f(1)] have fi: "f \<in> set (entries s0)" by simp
    have eo: "numeric18_4 (le_amount f)" "quantize (PyDecimal (le_amount f)) (le_currency f) = Inr (le_amount f)"
      using ledger_entry_facts(1) [OF ok fi] by (simp_all add: entry_ok_def)
    have "a = - le_amount f" using c(3) f(3) quantize_neg [OF eo(2)] eo(1) by simp
    moreover have "le_bu f = b_bu b" using ledger_entry_facts(2) [OF ok fi] b f(2) by (auto simp: entry_home_def)
    ultimately show ?thesis using f c(2,4) es by (auto intro!: exI [of _ f])
  qed (use that pc(3) in simp_all)
  have four: "four_places a" by (rule quantize_four_places [OF c(3)])
  have ins: "not_rule x" if "insert_entry (entry_of org (b_bu b) k r) s1 = Inl x" for x
    by (rule insert_entry_not_rule [OF that]) (use four c(4,5) sign bucket rev in \<open>simp_all del: sign_ok.simps type_bucket_ok.simps\<close>)
  show ?thesis
    using w ins unfolding written_def tx_bind_Inl
    by (auto simp: repo_entry_def replay_def idempotency_conflict_def tx_bind_Inl split: option.splits if_splits
        dest!: tx_errD [OF update_balance_not_rule] tx_errD [OF audit_not_rule])
qed

text \<open>
  On a ledger in order the rules of the Python code anticipate four of the database's: a call never
  fails on the \<open>CHECK\<close>s of the amount, of its sign and of the bucket of its type, nor on the integrity
  trigger of reversals.  The other constraints can still be what refuses a call, as the unique index
  does to a second reversal.
\<close>

theorem post_entry_anticipates_constraints:
  assumes ok: "ledger_ok s" and fail: "post_entry org p s = Inl e"
    and c: "c \<in> {''ledger_entry_amount_check'', ''ledger_sign_ok'', ''ledger_type_bucket_ok'', ''ledger_reversal_integrity''}"
  shows "e \<noteq> Raised (CheckViolation c)"
proof -
  have "not_rule e"
  proof (cases "lock_or_open org (po_project p) s")
    case (Inl x)
    then show ?thesis using fail
      by (auto simp: post_entry_def tx_bind_def lock_or_open_def repo_balance_def insert_balance_def tx_eval split: option.splits)
  next
    case (Inr bs)
    obtain b s0 where lock: "lock_or_open org (po_project p) s = Inr (b, s0)" using Inr by (cases bs) auto
    note l = lock_or_open_Inr [OF lock] and lk = lock_or_open_keeps [OF ok lock]
    let ?found = "find_entry org (\<lambda>f. le_key f = Some (po_key p)) (entries s)"
    have exi: "repo_entry org (\<lambda>f. le_key f = Some (po_key p)) s0 = Inr (?found, s0)"
      by (simp add: repo_entry_def tx_read_def lk(2))
    note rest = fail [unfolded post_entry_def tx_bind_def, unfolded lock sum.case prod.case exi]
    have comp: "not_rule x" if "completed org b ex p s0 = Inl x" for ex x
      using that quantize_not_rule by (auto simp: completed_def tx_bind_Inl repo_entry_def split: if_splits option.splits)
    show ?thesis
    proof (cases ?found)
      case (Some f)
      then show ?thesis using rest comp quantize_not_rule
        by (fastforce simp: replay_def replay_existing_def idempotency_conflict_def tx_eval tx_bind_Inl map_sum_def
            split: if_splits sum.splits)
    next
      case None
      have chk: "tx_err not_rule (checked org b cb q)" for cb q
        unfolding checked_def assert_posting_allowed_def assert_postable_def
        using quantize_not_rule
        by (auto intro!: tx_err_bind period_for_not_rule simp: invalid_def conflict_def get_status_def split: option.splits)
          (auto simp: tx_err_def get_status_def split: option.splits)
      have funds: "tx_err not_rule (funds_checked org b k r)" for k r
        unfolding funds_checked_def Let_def by (auto intro!: tx_err_bind effective_setting_not_rule split: option.splits)
      have "not_rule e \<or> (\<exists>q k r s1. completed org b False p s0 = Inr (q, s0) \<and>
          checked org b (po_bucket p) q s0 = Inr ((k, r), s1) \<and> written org b k r s1 = Inl e)"
      proof (cases "completed org b False p s0")
        case (Inl x)
        then show ?thesis using rest None comp by simp
      next
        case (Inr qs)
        then obtain q where q: "completed org b False p s0 = Inr (q, s0)"
          by (cases qs) (auto elim: completed_Inr)
        with rest None have run: "tx_bind (checked org b (po_bucket p) q) (\<lambda>(k, r).
           tx_bind (funds_checked org b k r) (\<lambda>_. written org b k r)) s0 = Inl e"
          by (simp add: tx_bind_def)
        then show ?thesis
        proof (subst (asm) tx_bind_Inl, elim disjE exE conjE)
          fix x s1 assume x: "checked org b (po_bucket p) q s0 = Inr (x, s1)"
            and more: "(case x of (k, r) \<Rightarrow> tx_bind (funds_checked org b k r) (\<lambda>_. written org b k r)) s1 = Inl e"
          obtain k r where kr: "x = (k, r)" by (cases x)
          with more have "not_rule e \<or> written org b k r s1 = Inl e"
            using tx_errD [OF funds] funds_checked_Inr by (fastforce simp: tx_bind_Inl)
          then show ?thesis using q x kr by blast
        qed (use tx_errD [OF chk] in blast)
      qed
      then show ?thesis
      proof (elim disjE exE conjE)
        fix q k r s1
        assume q: "completed org b False p s0 = Inr (q, s0)" and ch: "checked org b (po_bucket p) q s0 = Inr ((k, r), s1)"
          and w: "written org b k r s1 = Inl e"
        show "not_rule e"
          by (rule written_not_rule [OF lk(1) q ch w]) (use l in auto)
      qed
    qed
  qed
  then show ?thesis using c by (auto simp: rule_constraints_def)
qed

theorem post_entry_anticipates_constraints_witness:
  "\<exists>e. post_entry 2 (sample_posting 100 Reservation (-30) ''k3'') sample_funded = Inl e \<and>
     e \<noteq> Raised (CheckViolation ''ledger_sign_ok'')"
proof -
  have "case post_entry 2 (sample_posting 100 Reservation (-30) ''k3'') sample_funded of Inl _ \<Rightarrow> True | Inr _ \<Rightarrow> False"
    by code_simp
  then obtain e where "post_entry 2 (sample_posting 100 Reservation (-30) ''k3'') sample_funded = Inl e"
    by (auto split: sum.splits)
  with post_entry_anticipates_constraints [OF sample_funded_ok this, of "''ledger_sign_ok''"] show ?thesis by blast
qed

end
