(* ===== verification/Postings.thy ===== *)
theory Postings
  imports LedgerLaws
begin

text \<open>
  \<open>flo/modules/budget/reservations.py\<close> and \<open>postings.py\<close>: reservations, commitments and actuals,
  the release and conversion of what is held, and append-only corrections.  What is left of a
  reservation or commitment is read from the views of migrations 0022 and 0023.  The calling
  machine's date is the argument \<open>today\<close>.
\<close>

section \<open>What is left of a reservation or commitment\<close>

definition reversed_in :: "ledger_entry list \<Rightarrow> uuid \<Rightarrow> nat \<Rightarrow> bool" where
  "reversed_in es org i \<longleftrightarrow> list_ex (\<lambda>v. le_org v = org \<and> le_reverses v = Some i) es"

text \<open>The releases of an entry and the reversals of those releases.\<close>

definition release_lines :: "ledger_entry list \<Rightarrow> uuid \<Rightarrow> nat \<Rightarrow> ledger_entry list" where
  "release_lines es org i =
     filter (\<lambda>l. le_org l = org \<and> (le_releases l = Some i \<or>
       (case le_reverses l of None \<Rightarrow> False
        | Some r \<Rightarrow> list_ex (\<lambda>d. le_org d = org \<and> le_releases d = Some i \<and> le_id d = r) es))) es"

definition released_amount :: "ledger_entry list \<Rightarrow> uuid \<Rightarrow> nat \<Rightarrow> rat" where
  "released_amount es org i = sum_list (map le_amount (release_lines es org i))"

definition view_remaining :: "ledger_entry list \<Rightarrow> ledger_entry \<Rightarrow> rat" where
  "view_remaining es r =
     (if reversed_in es (le_org r) (le_id r) then 0
      else le_amount r + released_amount es (le_org r) (le_id r))"

text \<open>The rows of \<open>reservation_remaining\<close> and of \<open>commitment_remaining\<close>.\<close>

definition remaining_row :: "ledger_type \<Rightarrow> ledger_entry list \<Rightarrow> uuid \<Rightarrow> nat \<Rightarrow> rat option" where
  "remaining_row ty es org i =
     map_option (view_remaining es) (find_entry org (\<lambda>e. le_type e = ty \<and> le_id e = i) es)"

definition remaining :: "uuid \<Rightarrow> ledger_entry \<Rightarrow> (db, rat) tx" where
  "remaining org e =
     tx_bind (tx_read (\<lambda>s. remaining_row (if le_type e = Reservation then Reservation else Commitment)
                             (entries s) org (le_id e))) (\<lambda>row.
     tx_some row (Raised AssertionError))"

definition original_entry :: "uuid \<Rightarrow> nat \<Rightarrow> (db, ledger_entry) tx" where
  "original_entry org i =
     tx_bind (repo_entry org (\<lambda>e. le_id e = i)) (\<lambda>row.
     tx_bind (tx_some row not_found) (\<lambda>entry.
     tx_bind (repo_balance org (le_project entry)) (\<lambda>b.
     tx_bind (tx_require (b \<noteq> None) not_found) (\<lambda>_.
     tx_return entry))))"

section \<open>Reservations\<close>

text \<open>The arguments that reservations, commitments and actuals share.\<close>

record holding =
  ho_project :: uuid
  ho_amount :: rat
  ho_currency :: string
  ho_source_type :: string
  ho_source_id :: "uuid option"
  ho_effective :: date
  ho_actor :: uuid
  ho_department :: string
  ho_account :: string
  ho_key :: string

definition holding_posting :: "holding \<Rightarrow> ledger_type \<Rightarrow> rat \<Rightarrow> nat option \<Rightarrow> posting" where
  "holding_posting h ty amount conv =
     \<lparr>po_project = ho_project h, po_type = ty, po_bucket = None, po_amount = amount,
      po_currency = ho_currency h, po_source_type = ho_source_type h, po_source_id = ho_source_id h,
      po_effective = ho_effective h, po_group = None, po_reverses = None, po_releases = None,
      po_converts = conv, po_reason = None, po_department = ho_department h, po_account = ho_account h,
      po_actor = ho_actor h, po_key = ho_key h, po_allow_negative = None, po_skip_period = False\<rparr>"

definition reserve :: "uuid \<Rightarrow> holding \<Rightarrow> (db, ledger_entry) tx" where
  "reserve org h = post_entry org (holding_posting h Reservation (ho_amount h) None)"

text \<open>The arguments of a release, and the entry both kinds of release post.\<close>

record release_call =
  rl_entry :: nat
  rl_amount :: "rat option"
  rl_actor :: uuid
  rl_reason :: string
  rl_key :: string
  rl_effective :: "date option"

definition release_posting :: "date \<Rightarrow> ledger_entry \<Rightarrow> release_call \<Rightarrow> bucket \<Rightarrow> rat \<Rightarrow> posting" where
  "release_posting today original c k amount =
     \<lparr>po_project = le_project original, po_type = Release, po_bucket = Some k, po_amount = dec_neg amount,
      po_currency = le_currency original, po_source_type = le_source_type original,
      po_source_id = le_source_id original,
      po_effective = (case rl_effective c of None \<Rightarrow> today | Some d \<Rightarrow> d), po_group = None,
      po_reverses = None, po_releases = Some (le_id original), po_converts = None,
      po_reason = Some (rl_reason c), po_department = le_department original,
      po_account = le_account original, po_actor = rl_actor c, po_key = rl_key c,
      po_allow_negative = None, po_skip_period = True\<rparr>"

text \<open>
  The amount to release: of an existing entry of the key, the caller's or the entry's own; of a new
  release, checked against what is held.  \<open>None\<close> when nothing is held.
\<close>

definition release_amount ::
  "uuid \<Rightarrow> ledger_entry \<Rightarrow> release_call \<Rightarrow> string \<Rightarrow> string \<Rightarrow> (db, rat option) tx" where
  "release_amount org original c reversed_label exceeds_label =
     tx_bind (repo_entry org (\<lambda>e. le_key e = Some (rl_key c))) (\<lambda>existing.
     case existing of
       Some e \<Rightarrow>
         (case rl_amount c of
            None \<Rightarrow> tx_return (Some (dec_neg (le_amount e)))
          | Some a \<Rightarrow> tx_lift (map_sum id Some (quantize (PyDecimal a) (le_currency original))))
     | None \<Rightarrow>
         tx_bind (repo_entry org (\<lambda>e. le_reverses e = Some (le_id original))) (\<lambda>v.
         tx_bind (tx_require (v = None) (conflict reversed_label)) (\<lambda>_.
         tx_bind (remaining org original) (\<lambda>held.
         tx_bind (case rl_amount c of
                    None \<Rightarrow> tx_return held
                  | Some a \<Rightarrow> tx_lift (quantize (PyDecimal a) (le_currency original))) (\<lambda>released.
         tx_bind (tx_require (\<not> (released < 0 \<or> rl_amount c \<noteq> None \<and> released = 0)) invalid_entry) (\<lambda>_.
         if held = 0 then tx_return None
         else
           tx_bind (tx_require (released \<le> held) (conflict exceeds_label)) (\<lambda>_.
           tx_return (Some released))))))))"

definition release_reservation ::
  "uuid \<Rightarrow> date \<Rightarrow> release_call \<Rightarrow> (db, ledger_entry option) tx" where
  "release_reservation org today c =
     tx_bind (repo_entry org (\<lambda>e. le_id e = rl_entry c)) (\<lambda>row.
     tx_bind (tx_some row not_found) (\<lambda>original.
     tx_bind (tx_require (le_type original = Reservation) invalid_entry) (\<lambda>_.
     tx_bind (repo_balance org (le_project original)) (\<lambda>b.
     tx_bind (tx_require (b \<noteq> None) not_found) (\<lambda>_.
     tx_bind (release_amount org original c ''reservation_reversed'' ''release_exceeds_reservation'') (\<lambda>amount.
     case amount of
       None \<Rightarrow> tx_return None
     | Some a \<Rightarrow>
         tx_bind (post_entry org (release_posting today original c BReserved a)) (\<lambda>e.
         tx_return (Some e))))))))"

section \<open>Commitments and actuals\<close>

definition release_commitment ::
  "uuid \<Rightarrow> date \<Rightarrow> release_call \<Rightarrow> (db, ledger_entry option) tx" where
  "release_commitment org today c =
     tx_bind (original_entry org (rl_entry c)) (\<lambda>original.
     tx_bind (tx_require (le_type original = Commitment) invalid_entry) (\<lambda>_.
     tx_bind (release_amount org original c ''commitment_reversed'' ''release_exceeds_commitment'') (\<lambda>amount.
     case amount of
       None \<Rightarrow> tx_return None
     | Some a \<Rightarrow>
         tx_bind (post_entry org (release_posting today original c BCommitted a)) (\<lambda>e.
         tx_return (Some e)))))"

text \<open>The codes an actual must carry, checked in order.\<close>

definition check_code :: "uuid \<Rightarrow> date \<Rightarrow> string \<times> string \<Rightarrow> (db, unit) tx" where
  "check_code org on_date kc =
     tx_bind (tx_require (snd kc \<noteq> []) invalid_entry) (\<lambda>_.
     tx_bind (assert_usable org (fst kc) (snd kc) on_date) (\<lambda>_.
     tx_return ()))"

text \<open>The conversion of a held entry: what it still holds, up to the amount, is released first.\<close>

definition convert_held :: "uuid \<Rightarrow> date \<Rightarrow> ledger_type \<Rightarrow> holding \<Rightarrow> rat \<Rightarrow> nat \<Rightarrow> (db, unit) tx" where
  "convert_held org today ty h amount i =
     (let expected = (if ty = Commitment then Reservation else Commitment) in
      tx_bind (original_entry org i) (\<lambda>original.
      tx_bind (tx_require (le_project original = ho_project h) not_found) (\<lambda>_.
      tx_bind (tx_require (le_type original = expected) invalid_entry) (\<lambda>_.
      tx_bind (tx_require (le_currency original = ho_currency h) (invalid ''currency_mismatch'')) (\<lambda>_.
      tx_bind (repo_entry org (\<lambda>e. le_reverses e = Some (le_id original))) (\<lambda>v.
      tx_bind (tx_require (v = None) (conflict ''conversion_source_reversed'')) (\<lambda>_.
      tx_bind (remaining org original) (\<lambda>held.
      tx_bind (tx_require (\<not> (ty = Actual \<and> held < amount)) (conflict ''release_exceeds_commitment'')) (\<lambda>_.
      let released = min amount held;
          c = \<lparr>rl_entry = le_id original, rl_amount = Some released, rl_actor = ho_actor h,
               rl_reason = (if expected = Reservation then ''Converted to commitment'' else ''Consumed by actual''),
               rl_key = ho_key h @ '':release'', rl_effective = Some (ho_effective h)\<rparr> in
      if 0 < released
      then tx_bind (if expected = Reservation then release_reservation org today c
                    else release_commitment org today c) (\<lambda>_. tx_return ())
      else tx_return ())))))))))"

definition consume :: "uuid \<Rightarrow> date \<Rightarrow> ledger_type \<Rightarrow> nat option \<Rightarrow> holding \<Rightarrow> (db, ledger_entry) tx" where
  "consume org today ty conv h =
     tx_bind (repo_balance org (ho_project h)) (\<lambda>b.
     tx_bind (tx_require (b \<noteq> None) not_found) (\<lambda>_.
     tx_bind (repo_entry org (\<lambda>e. le_key e = Some (ho_key h))) (\<lambda>existing.
     if existing \<noteq> None then post_entry org (holding_posting h ty (ho_amount h) conv)
     else
       tx_bind (tx_lift (quantize (PyDecimal (ho_amount h)) (ho_currency h))) (\<lambda>amount.
       tx_bind (tx_require (0 < amount) invalid_entry) (\<lambda>_.
       tx_bind (if ty = Actual
                then tx_each (check_code org (ho_effective h))
                       [(''department'', ho_department h), (''ledger_account'', ho_account h)]
                else tx_return []) (\<lambda>_.
       tx_bind (case conv of None \<Rightarrow> tx_return () | Some i \<Rightarrow> convert_held org today ty h amount i) (\<lambda>_.
       post_entry org (holding_posting h ty amount conv))))))))"

definition commit :: "uuid \<Rightarrow> date \<Rightarrow> nat option \<Rightarrow> holding \<Rightarrow> (db, ledger_entry) tx" where
  "commit org today from_reservation h = consume org today Commitment from_reservation h"

definition record_actual :: "uuid \<Rightarrow> date \<Rightarrow> nat option \<Rightarrow> holding \<Rightarrow> (db, ledger_entry) tx" where
  "record_actual org today from_commitment h = consume org today Actual from_commitment h"

section \<open>Reversals\<close>

definition reversal_posting :: "ledger_entry \<Rightarrow> uuid \<Rightarrow> date \<Rightarrow> string \<Rightarrow> string \<Rightarrow> posting" where
  "reversal_posting original actor effective reason key =
     \<lparr>po_project = le_project original, po_type = Reversal, po_bucket = None,
      po_amount = dec_neg (le_amount original), po_currency = le_currency original,
      po_source_type = le_source_type original, po_source_id = le_source_id original,
      po_effective = effective, po_group = None, po_reverses = Some (le_id original), po_releases = None,
      po_converts = None, po_reason = Some reason, po_department = le_department original,
      po_account = le_account original, po_actor = actor, po_key = key,
      po_allow_negative = None, po_skip_period = False\<rparr>"

definition reverse_entry :: "uuid \<Rightarrow> nat \<Rightarrow> uuid \<Rightarrow> date \<Rightarrow> string \<Rightarrow> string \<Rightarrow> (db, ledger_entry) tx" where
  "reverse_entry org i actor effective reason key =
     tx_bind (original_entry org i) (\<lambda>original.
     tx_bind (tx_require (le_type original \<noteq> Transfer) (conflict ''cannot_reverse_transfer'')) (\<lambda>_.
     tx_bind (repo_entry org (\<lambda>e. le_key e = Some key)) (\<lambda>existing.
     tx_bind (if existing \<noteq> None then tx_return ()
              else
                tx_bind (tx_require (le_type original \<noteq> Reversal) (conflict ''cannot_reverse_reversal'')) (\<lambda>_.
                tx_bind (repo_entry org (\<lambda>e. le_reverses e = Some (le_id original))) (\<lambda>v.
                tx_bind (tx_require (v = None) (conflict ''entry_already_reversed'')) (\<lambda>_.
                if le_type original \<in> {Reservation, Commitment}
                then tx_bind (remaining org original) (\<lambda>held.
                     tx_require (\<not> held < le_amount original) (conflict ''entry_partly_released''))
                else tx_return ())))) (\<lambda>_.
     post_entry org (reversal_posting original actor effective reason key)))))"

end
