(* ===== verification/Holdings.thy ===== *)
theory Holdings
  imports Postings
begin

text \<open>
  What reservations and commitments guarantee.  The invariant \<open>holdings_ok\<close> says that releases
  point to an entry of their project and bucket, that nothing is released beyond what was held, and
  that a reversed entry had nothing released.  Every operation of \<open>Postings\<close> keeps it, and with
  the ledger's invariant it makes the reserved and committed buckets of a project exactly what its
  reservations and commitments still hold.
\<close>

section \<open>An entry and its reversal cancel\<close>

definition reversals_of :: "ledger_entry list \<Rightarrow> ledger_entry set \<Rightarrow> ledger_entry set" where
  "reversals_of es S = {v \<in> set es. \<exists>d\<in>S. le_reverses v = Some (le_id d)}"

definition is_reversed :: "ledger_entry list \<Rightarrow> ledger_entry \<Rightarrow> bool" where
  "is_reversed es d \<longleftrightarrow> (\<exists>v\<in>set es. le_reverses v = Some (le_id d))"

lemma ledger_unique:
  assumes "ledger_ok s" "e \<in> set (entries s)" "f \<in> set (entries s)"
  shows "le_id e = le_id f \<Longrightarrow> e = f" "le_reverses e = le_reverses f \<Longrightarrow> le_reverses e \<noteq> None \<Longrightarrow> e = f"
  using assms by (auto simp: ledger_ok_def unique_keys_def)

lemma reversal_cancels:
  assumes ok: "ledger_ok s" and d: "d \<in> set (entries s)" and v: "v \<in> set (entries s)" "le_reverses v = Some (le_id d)"
  shows "le_amount v = - le_amount d" "le_org v = le_org d" "le_project v = le_project d" "le_bucket v = le_bucket d"
    "le_type v = Reversal"
proof -
  obtain f where "f \<in> set (entries s)" "le_id f = le_id d" "le_org f = le_org v" "le_project f = le_project v"
    "le_bucket f = le_bucket v" "le_currency f = le_currency v" "le_amount v = - le_amount f"
    by (rule entry_reversed [OF ok v])
  moreover from this have "f = d" using ledger_unique(1) [OF ok _ d] by blast
  ultimately show "le_amount v = - le_amount d" "le_org v = le_org d" "le_project v = le_project d" "le_bucket v = le_bucket d"
    by simp_all
  show "le_type v = Reversal" using entry_type_links(1) [of v] ledger_entry_facts(1) [OF ok v(1)] v(2) by simp
qed

lemma is_reversed_org:
  assumes "ledger_ok s" "d \<in> set (entries s)"
  shows "reversed_in (entries s) (le_org d) (le_id d) = is_reversed (entries s) d"
  using reversal_cancels(2) [OF assms] by (auto simp: reversed_in_def is_reversed_def list_ex_iff)

lemma sum_with_reversals:
  assumes ok: "ledger_ok s" and S: "S \<subseteq> set (entries s)" and nr: "\<And>d. d \<in> S \<Longrightarrow> le_type d \<noteq> Reversal"
  shows "(\<Sum>e\<in>S \<union> reversals_of (entries s) S. le_amount e) = (\<Sum>d\<in>{d \<in> S. \<not> is_reversed (entries s) d}. le_amount d)"
proof -
  let ?es = "entries s"
  let ?R = "{d \<in> S. is_reversed ?es d}"
  let ?V = "reversals_of ?es S"
  define g where "g d = (THE v. v \<in> set ?es \<and> le_reverses v = Some (le_id d))" for d :: ledger_entry
  have fin: "finite S" "finite ?V" "finite ?R"
    using S finite_subset [OF S] by (auto simp: reversals_of_def)
  have g: "g d \<in> set ?es \<and> le_reverses (g d) = Some (le_id d)" if d: "is_reversed ?es d" for d
  proof -
    obtain v where v: "v \<in> set ?es" "le_reverses v = Some (le_id d)" using d by (auto simp: is_reversed_def)
    show ?thesis
      unfolding g_def
    proof (rule theI2 [of _ v])
      show "w = v" if "w \<in> set ?es \<and> le_reverses w = Some (le_id d)" for w
        using ledger_unique(2) [OF ok, of w v] that v by simp
    qed (use v in auto)
  qed
  have inj: "inj_on g ?R"
  proof (rule inj_onI)
    fix d e assume "d \<in> ?R" "e \<in> ?R" "g d = g e"
    then have "le_id d = le_id e" using g [of d] g [of e] by auto
    then show "d = e" using ledger_unique(1) [OF ok] S \<open>d \<in> ?R\<close> \<open>e \<in> ?R\<close> by blast
  qed
  have img: "g ` ?R = ?V"
  proof
    show "g ` ?R \<subseteq> ?V" using g by (auto simp: reversals_of_def)
    show "?V \<subseteq> g ` ?R"
    proof
      fix v assume "v \<in> ?V"
      then obtain d where d: "v \<in> set ?es" "d \<in> S" "le_reverses v = Some (le_id d)" by (auto simp: reversals_of_def)
      then have r: "is_reversed ?es d" by (auto simp: is_reversed_def)
      then have "v = g d" using ledger_unique(2) [OF ok d(1)] g [OF r] d(3) by auto
      then show "v \<in> g ` ?R" using d(2) r by blast
    qed
  qed
  have "S \<inter> ?V = {}" using nr reversal_cancels(5) [OF ok] S by (auto simp: reversals_of_def)
  then have "(\<Sum>e\<in>S \<union> ?V. le_amount e) = (\<Sum>d\<in>S. le_amount d) + (\<Sum>v\<in>?V. le_amount v)"
    using fin by (simp add: sum.union_disjoint)
  also have "(\<Sum>v\<in>?V. le_amount v) = (\<Sum>d\<in>?R. le_amount (g d))"
    unfolding img [symmetric] using inj by (simp add: sum.reindex)
  also have "\<dots> = (\<Sum>d\<in>?R. - le_amount d)"
  proof (rule sum.cong [OF refl])
    fix d assume "d \<in> ?R"
    then show "le_amount (g d) = - le_amount d" using reversal_cancels(1) [OF ok, of d "g d"] g [of d] S by auto
  qed
  also have "(\<Sum>d\<in>S. le_amount d) = (\<Sum>d\<in>?R. le_amount d) + (\<Sum>d\<in>{d \<in> S. \<not> is_reversed ?es d}. le_amount d)"
    using fin(1) by (subst sum.union_disjoint [symmetric]) (auto intro!: sum.cong)
  finally show ?thesis by (simp add: sum_negf)
qed

section \<open>The releases that stand\<close>

definition open_releases :: "ledger_entry list \<Rightarrow> uuid \<Rightarrow> nat \<Rightarrow> ledger_entry set" where
  "open_releases es org i = {d \<in> set es. le_org d = org \<and> le_releases d = Some i \<and> \<not> is_reversed es d}"

lemma release_type:
  assumes "ledger_ok s" "d \<in> set (entries s)" "le_releases d = Some i"
  shows "le_type d = Release" "le_amount d < 0"
proof -
  from entry_type_links [OF ledger_entry_facts(1) [OF assms(1,2)]] assms(3)
  show "le_type d = Release" by simp
  with entry_type_links(4) [OF ledger_entry_facts(1) [OF assms(1,2)]] show "le_amount d < 0" by simp
qed

lemma sum_list_set:
  "distinct xs \<Longrightarrow> sum_list (map f (filter P xs)) = (\<Sum>x\<in>{x \<in> set xs. P x}. f x)"
  by (simp add: sum_list_distinct_conv_sum_set)

lemma ledger_distinct: "ledger_ok s \<Longrightarrow> distinct (entries s)"
  by (simp add: ledger_ok_def unique_keys_def)

lemma released_amount_open:
  assumes ok: "ledger_ok s"
  shows "released_amount (entries s) org i = (\<Sum>d\<in>open_releases (entries s) org i. le_amount d)"
proof -
  let ?es = "entries s"
  let ?S = "{d \<in> set ?es. le_org d = org \<and> le_releases d = Some i}"
  have "{l \<in> set ?es. le_org l = org \<and> (le_releases l = Some i \<or>
       (case le_reverses l of None \<Rightarrow> False
        | Some r \<Rightarrow> list_ex (\<lambda>d. le_org d = org \<and> le_releases d = Some i \<and> le_id d = r) ?es))} =
      ?S \<union> reversals_of ?es ?S"
    using reversal_cancels(2) [OF ok] by (auto simp: reversals_of_def list_ex_iff split: option.splits)
  then have "released_amount ?es org i = (\<Sum>l\<in>?S \<union> reversals_of ?es ?S. le_amount l)"
    by (simp only: released_amount_def release_lines_def sum_list_set [OF ledger_distinct [OF ok]])
  also have "\<dots> = (\<Sum>d\<in>{d \<in> ?S. \<not> is_reversed ?es d}. le_amount d)"
    by (rule sum_with_reversals [OF ok]) (use release_type(1) [OF ok] in auto)
  also have "{d \<in> ?S. \<not> is_reversed ?es d} = open_releases ?es org i" by (auto simp: open_releases_def)
  finally show ?thesis .
qed

lemma released_nonpos: "ledger_ok s \<Longrightarrow> released_amount (entries s) org i \<le> 0"
  by (auto simp: released_amount_open open_releases_def intro!: sum_nonpos dest: release_type(2))

lemma released_zero:
  assumes ok: "ledger_ok s" and z: "released_amount (entries s) org i = 0"
  shows "open_releases (entries s) org i = {}"
proof (rule ccontr)
  assume "open_releases (entries s) org i \<noteq> {}"
  moreover have "finite (open_releases (entries s) org i)" by (simp add: open_releases_def)
  ultimately have "(\<Sum>d\<in>open_releases (entries s) org i. le_amount d) < (\<Sum>d\<in>open_releases (entries s) org i. 0)"
    by (intro sum_strict_mono) (auto simp: open_releases_def dest: release_type(2) [OF ok])
  with z show False by (simp add: released_amount_open [OF ok])
qed

section \<open>The invariant\<close>

fun holds :: "ledger_type \<Rightarrow> bucket option" where
  "holds Reservation = Some BReserved"
| "holds Commitment = Some BCommitted"
| "holds _ = None"

definition holdings_ok :: "ledger_entry list \<Rightarrow> bool" where
  "holdings_ok es \<longleftrightarrow>
     (\<forall>d\<in>set es. \<forall>i. le_releases d = Some i \<longrightarrow>
        (\<exists>r\<in>set es. le_id r = i \<and> le_org r = le_org d \<and> le_project r = le_project d \<and> holds (le_type r) = Some (le_bucket d))) \<and>
     (\<forall>v\<in>set es. \<forall>d\<in>set es. le_reverses v = Some (le_id d) \<longrightarrow> le_type d \<noteq> Reversal) \<and>
     (\<forall>r\<in>set es. holds (le_type r) \<noteq> None \<longrightarrow> 0 \<le> le_amount r + released_amount es (le_org r) (le_id r) \<and>
        (is_reversed es r \<longrightarrow> released_amount es (le_org r) (le_id r) = 0))"

lemma holdings_ok_Nil: "holdings_ok []"
  by (simp add: holdings_ok_def)

lemma holdings_okD:
  assumes "holdings_ok es"
  shows "\<And>d i. d \<in> set es \<Longrightarrow> le_releases d = Some i \<Longrightarrow>
      \<exists>r\<in>set es. le_id r = i \<and> le_org r = le_org d \<and> le_project r = le_project d \<and> holds (le_type r) = Some (le_bucket d)"
    "\<And>v d. v \<in> set es \<Longrightarrow> d \<in> set es \<Longrightarrow> le_reverses v = Some (le_id d) \<Longrightarrow> le_type d \<noteq> Reversal"
    "\<And>r. r \<in> set es \<Longrightarrow> holds (le_type r) \<noteq> None \<Longrightarrow> 0 \<le> le_amount r + released_amount es (le_org r) (le_id r)"
    "\<And>r. r \<in> set es \<Longrightarrow> holds (le_type r) \<noteq> None \<Longrightarrow> is_reversed es r \<Longrightarrow> released_amount es (le_org r) (le_id r) = 0"
  using assms unfolding holdings_ok_def by blast+

lemma view_bounds:
  assumes "ledger_ok s" "holdings_ok (entries s)" "r \<in> set (entries s)" "holds (le_type r) \<noteq> None"
  shows "0 \<le> view_remaining (entries s) r" "view_remaining (entries s) r \<le> le_amount r"
proof -
  have "0 < le_amount r"
    using entry_type_links(4) [OF ledger_entry_facts(1) [OF assms(1,3)]] assms(4) by (cases "le_type r") simp_all
  with assms released_nonpos [OF assms(1), of "le_org r" "le_id r"]
  show "0 \<le> view_remaining (entries s) r" "view_remaining (entries s) r \<le> le_amount r"
    by (auto simp: view_remaining_def holdings_ok_def)
qed

text \<open>One more entry on a consistent ledger.\<close>

definition extended :: "db \<Rightarrow> ledger_entry \<Rightarrow> db \<Rightarrow> bool" where
  "extended s e t \<longleftrightarrow> ledger_ok s \<and> ledger_ok t \<and> entries t = entries s @ [e]"

definition reverses_release :: "ledger_entry list \<Rightarrow> ledger_entry \<Rightarrow> uuid \<Rightarrow> nat \<Rightarrow> bool" where
  "reverses_release es e org i \<longleftrightarrow> (\<exists>d\<in>set es. le_org d = org \<and> le_releases d = Some i \<and> le_reverses e = Some (le_id d))"

lemma extended_fresh:
  assumes "extended s e t"
  shows "e \<notin> set (entries s)" "\<And>d. d \<in> set (entries s) \<Longrightarrow> le_id d \<noteq> le_id e"
    "le_reverses e \<noteq> Some (le_id e)" "le_releases e \<noteq> Some (le_id e)"
proof -
  have t: "ledger_ok t" "entries t = entries s @ [e]" using assms by (simp_all add: extended_def)
  show "e \<notin> set (entries s)" using ledger_distinct [OF t(1)] t(2) by simp
  then show "le_id d \<noteq> le_id e" if "d \<in> set (entries s)" for d
    using that ledger_unique(1) [OF t(1), of d e] t(2) by auto
  have "e \<in> set (entries t)" using t(2) by simp
  from ledger_entry_facts(3) [OF t(1) this] show "le_reverses e \<noteq> Some (le_id e)" "le_releases e \<noteq> Some (le_id e)"
    by (auto simp: links_ok_def)
qed

lemma links_earlier:
  assumes "extended s e t" "d \<in> set (entries s)"
  shows "le_reverses d \<noteq> Some (le_id e)" "le_releases d \<noteq> Some (le_id e)"
proof -
  have s: "ledger_ok s" using assms by (simp add: extended_def)
  from ledger_entry_facts(3) [OF s assms(2)] extended_fresh(2) [OF assms(1)]
  show "le_reverses d \<noteq> Some (le_id e)" "le_releases d \<noteq> Some (le_id e)"
    by (auto simp: links_ok_def)
qed

lemma released_extended:
  assumes x: "extended s e t"
  shows "released_amount (entries t) org i = released_amount (entries s) org i +
    (if le_org e = org \<and> le_releases e = Some i \<or> le_org e = org \<and> reverses_release (entries s) e org i then le_amount e else 0)"
proof -
  let ?es = "entries s"
  have t: "entries t = ?es @ [e]" using x by (simp add: extended_def)
  have "release_lines (entries t) org i = release_lines ?es org i @
    (if le_org e = org \<and> le_releases e = Some i \<or> le_org e = org \<and> reverses_release ?es e org i then [e] else [])"
    using extended_fresh(3,4) [OF x] links_earlier [OF x]
    by (auto simp: release_lines_def t reverses_release_def list_ex_iff split: option.splits intro!: filter_cong)
  then show ?thesis by (simp add: released_amount_def)
qed

lemma released_fresh:
  assumes "extended s e t"
  shows "released_amount (entries s) org (le_id e) = 0"
proof -
  have "le_releases d \<noteq> Some (le_id e)" if "d \<in> set (entries s)" for d using links_earlier(2) [OF assms that] .
  then have "release_lines (entries s) org (le_id e) = []"
    by (auto simp: release_lines_def filter_empty_conv list_ex_iff split: option.splits)
  then show ?thesis by (simp add: released_amount_def)
qed

lemma is_reversed_extended:
  "extended s e t \<Longrightarrow> is_reversed (entries t) d \<longleftrightarrow> is_reversed (entries s) d \<or> le_reverses e = Some (le_id d)"
  by (auto simp: is_reversed_def extended_def)

lemma fresh_not_reversed: "extended s e t \<Longrightarrow> \<not> is_reversed (entries t) e"
  using links_earlier(1) extended_fresh(3) by (fastforce simp: is_reversed_def extended_def)

text \<open>An entry that is neither a release nor a reversal.\<close>

lemma holdings_plain:
  assumes x: "extended s e t" and h: "holdings_ok (entries s)" and ty: "le_type e \<noteq> Release" "le_type e \<noteq> Reversal"
  shows "holdings_ok (entries t)"
proof -
  have t: "ledger_ok t" "entries t = entries s @ [e]" using x by (simp_all add: extended_def)
  have eo: "entry_ok e" using ledger_entry_facts(1) [OF t(1)] t(2) by simp
  have n: "le_releases e = None" "le_reverses e = None" using entry_type_links [OF eo] ty by auto
  have rel: "released_amount (entries t) org i = released_amount (entries s) org i" for org i
    by (simp add: released_extended [OF x] n reverses_release_def)
  have rev: "is_reversed (entries t) d = is_reversed (entries s) d" for d
    by (simp add: is_reversed_extended [OF x] n)
  have "0 \<le> le_amount e" if "holds (le_type e) \<noteq> None"
    using entry_type_links(4) [OF eo] that by (cases "le_type e") simp_all
  moreover have "\<not> is_reversed (entries s) e" using fresh_not_reversed [OF x] by (simp add: rev)
  ultimately show ?thesis
    using h links_earlier(1) [OF x] released_fresh [OF x] n
    by (auto simp: holdings_ok_def rel [unfolded t(2)] rev [unfolded t(2)] t(2))
qed

text \<open>A release of at most what its entry still holds.\<close>

lemma holdings_release:
  assumes x: "extended s e t" and h: "holdings_ok (entries s)" and ty: "le_type e = Release"
    and r: "r \<in> set (entries s)" "le_releases e = Some (le_id r)" "le_org r = le_org e" "le_project r = le_project e"
      "holds (le_type r) = Some (le_bucket e)" "\<not> is_reversed (entries s) r"
    and amount: "- le_amount e \<le> le_amount r + released_amount (entries s) (le_org r) (le_id r)"
  shows "holdings_ok (entries t)"
proof -
  have s: "ledger_ok s" and t: "ledger_ok t" "entries t = entries s @ [e]" using x by (simp_all add: extended_def)
  have eo: "entry_ok e" using ledger_entry_facts(1) [OF t(1)] t(2) by simp
  have n: "le_reverses e = None" "holds (le_type e) = None" using entry_type_links [OF eo] ty by auto
  have rel: "released_amount (entries t) org i = released_amount (entries s) org i + (if le_org e = org \<and> i = le_id r then le_amount e else 0)" for org i
    using r(2) by (simp add: released_extended [OF x] n reverses_release_def)
  have rev: "is_reversed (entries t) d = is_reversed (entries s) d" for d
    by (simp add: is_reversed_extended [OF x] n)
  have same: "q = r" if "q \<in> set (entries s)" "le_id q = le_id r" for q
    using ledger_unique(1) [OF s that(1) r(1) that(2)] .
  have holding: "0 \<le> le_amount q + released_amount (entries t) (le_org q) (le_id q) \<and>
      (is_reversed (entries t) q \<longrightarrow> released_amount (entries t) (le_org q) (le_id q) = 0)"
    if "q \<in> set (entries s)" "holds (le_type q) \<noteq> None" for q
  proof (cases "q = r")
    case True
    then show ?thesis using r(3,6) amount by (simp add: rel rev)
  next
    case False
    then have "le_id q \<noteq> le_id r" using same that(1) by blast
    then show ?thesis using holdings_okD(3,4) [OF h that] by (simp add: rel rev)
  qed
  have links: "\<exists>r\<in>set (entries t). le_id r = i \<and> le_org r = le_org d \<and> le_project r = le_project d \<and> holds (le_type r) = Some (le_bucket d)"
    if "d \<in> set (entries t)" "le_releases d = Some i" for d i
  proof (cases "d = e")
    case True
    then show ?thesis using that r by (auto simp: t(2) intro!: bexI [of _ r])
  next
    case False
    then have "d \<in> set (entries s)" using that(1) t(2) by simp
    then have "\<exists>r\<in>set (entries s). le_id r = i \<and> le_org r = le_org d \<and> le_project r = le_project d \<and> holds (le_type r) = Some (le_bucket d)"
      using that(2) by (rule holdings_okD(1) [OF h])
    then show ?thesis by (auto simp: t(2))
  qed
  have "le_type d \<noteq> Reversal" if "v \<in> set (entries t)" "d \<in> set (entries t)" "le_reverses v = Some (le_id d)" for v d
    using that h ty n links_earlier(1) [OF x] by (auto simp: holdings_ok_def t(2))
  then show ?thesis using holding links n by (auto simp: holdings_ok_def t(2))
qed

text \<open>The reversal of an entry that is not itself a reversal and has nothing released.\<close>

lemma holdings_reversal:
  assumes x: "extended s e t" and h: "holdings_ok (entries s)" and ty: "le_type e = Reversal"
    and d: "d \<in> set (entries s)" "le_reverses e = Some (le_id d)" "le_type d \<noteq> Reversal" "\<not> is_reversed (entries s) d"
    and none: "holds (le_type d) \<noteq> None \<Longrightarrow> released_amount (entries s) (le_org d) (le_id d) = 0"
  shows "holdings_ok (entries t)"
proof -
  have s: "ledger_ok s" and t: "ledger_ok t" "entries t = entries s @ [e]" using x by (simp_all add: extended_def)
  have e: "e \<in> set (entries t)" "d \<in> set (entries t)" using t(2) d(1) by simp_all
  have eo: "entry_ok e" by (rule ledger_entry_facts(1) [OF t(1) e(1)])
  have n: "le_releases e = None" "holds (le_type e) = None" using entry_type_links [OF eo] ty by auto
  note rc = reversal_cancels [OF t(1) e(2,1) d(2)]
  have rel: "released_amount (entries t) org i = released_amount (entries s) org i +
      (if le_org d = org \<and> le_releases d = Some i then - le_amount d else 0)" for org i
  proof -
    have "reverses_release (entries s) e org i \<longleftrightarrow> le_org d = org \<and> le_releases d = Some i"
    proof
      assume "reverses_release (entries s) e org i"
      then obtain c where c: "c \<in> set (entries s)" "le_org c = org" "le_releases c = Some i" "le_reverses e = Some (le_id c)"
        by (auto simp: reverses_release_def)
      then have "c = d" using d(2) ledger_unique(1) [OF s c(1) d(1)] by simp
      then show "le_org d = org \<and> le_releases d = Some i" using c by simp
    qed (use d in \<open>auto simp: reverses_release_def\<close>)
    then show ?thesis using rc(1,2) by (auto simp: released_extended [OF x] n)
  qed
  have holding: "0 \<le> le_amount q + released_amount (entries t) (le_org q) (le_id q) \<and>
      (is_reversed (entries t) q \<longrightarrow> released_amount (entries t) (le_org q) (le_id q) = 0)"
    if q: "q \<in> set (entries s)" "holds (le_type q) \<noteq> None" for q
  proof (cases "le_org d = le_org q \<and> le_releases d = Some (le_id q)")
    case True
    then have "le_amount d < 0" "le_type d = Release" using release_type [OF s d(1)] by auto
    have qh: "0 \<le> le_amount q + released_amount (entries s) (le_org q) (le_id q)"
      "is_reversed (entries s) q \<Longrightarrow> released_amount (entries s) (le_org q) (le_id q) = 0"
      using h q by (auto simp: holdings_ok_def)
    have "d \<in> open_releases (entries s) (le_org q) (le_id q)" using d True by (auto simp: open_releases_def)
    then have "\<not> is_reversed (entries s) q" using released_zero [OF s] qh(2) by blast
    moreover have "le_id q \<noteq> le_id d" using \<open>le_type d = Release\<close> ledger_unique(1) [OF s q(1) d(1)] q(2) by auto
    ultimately show ?thesis using qh(1) True \<open>le_amount d < 0\<close> d(2) by (auto simp: rel is_reversed_extended [OF x])
  next
    case False
    then have "released_amount (entries t) (le_org q) (le_id q) = released_amount (entries s) (le_org q) (le_id q)"
      unfolding rel by auto
    moreover have "q = d" if "le_reverses e = Some (le_id q)" using that d(2) ledger_unique(1) [OF s q(1) d(1)] by simp
    ultimately show ?thesis using h q none by (auto simp: holdings_ok_def is_reversed_extended [OF x])
  qed
  have links: "\<exists>r\<in>set (entries t). le_id r = i \<and> le_org r = le_org c \<and> le_project r = le_project c \<and> holds (le_type r) = Some (le_bucket c)"
    if "c \<in> set (entries t)" "le_releases c = Some i" for c i
  proof -
    have "c \<in> set (entries s)" using that n t(2) by auto
    then have "\<exists>r\<in>set (entries s). le_id r = i \<and> le_org r = le_org c \<and> le_project r = le_project c \<and> holds (le_type r) = Some (le_bucket c)"
      using that(2) by (rule holdings_okD(1) [OF h])
    then show ?thesis by (auto simp: t(2))
  qed
  have "le_type c \<noteq> Reversal" if "v \<in> set (entries t)" "c \<in> set (entries t)" "le_reverses v = Some (le_id c)" for v c
  proof (cases "v = e")
    case True
    then have "c = d" using that d e ledger_unique(1) [OF t(1)] by simp
    then show ?thesis using d(3) by simp
  next
    case False
    then have "v \<in> set (entries s)" using that t(2) by simp
    moreover have "c \<in> set (entries s)" using that(2,3) links_earlier(1) [OF x \<open>v \<in> set (entries s)\<close>] t(2) by auto
    ultimately show ?thesis using h that(3) by (auto simp: holdings_ok_def)
  qed
  then show ?thesis using holding links n by (auto simp: holdings_ok_def t(2))
qed

section \<open>Whole minor units\<close>

definition in_units :: "string \<Rightarrow> rat \<Rightarrow> bool" where
  "in_units c x \<longleftrightarrow> (\<exists>e k. currency_exponent c = Inr e \<and> x = of_int k / 10 ^ e)"

lemma quantize_in_units: "quantize (PyDecimal x) c = Inr q \<Longrightarrow> in_units c q"
  unfolding in_units_def quantize_Inr dec_quantize_Inr by blast

lemma in_units_add: "in_units c x \<Longrightarrow> in_units c y \<Longrightarrow> in_units c (x + y)"
proof -
  assume "in_units c x" "in_units c y"
  then obtain e k l where "currency_exponent c = Inr e" "x = of_int k / 10 ^ e" "y = of_int l / 10 ^ e"
    by (auto simp: in_units_def)
  then have "currency_exponent c = Inr e \<and> x + y = of_int (k + l) / 10 ^ e" by (simp add: add_divide_distrib)
  then show ?thesis unfolding in_units_def by blast
qed

lemma in_units_zero: "currency_exponent c = Inr e \<Longrightarrow> in_units c 0"
  unfolding in_units_def by (intro exI [of _ e] exI [of _ 0]) simp

lemma in_units_sum: "finite A \<Longrightarrow> (\<And>x. x \<in> A \<Longrightarrow> in_units c (f x)) \<Longrightarrow> in_units c y \<Longrightarrow> in_units c (y + sum f A)"
proof (induction A arbitrary: y rule: finite_induct)
  case (insert a A)
  have "in_units c ((y + f a) + sum f A)" using insert by (intro insert.IH) (auto intro: in_units_add)
  then show ?case using insert by (simp add: algebra_simps)
qed simp

lemma in_units_small:
  assumes "in_units c x" "\<bar>x\<bar> \<le> \<bar>y\<bar>" "numeric18_4 y"
  shows "numeric18_4 x" "dec_neg x = - x" "quantize (PyDecimal (- x)) c = Inr (- x)" "quantize (PyDecimal x) c = Inr x"
proof -
  from assms(1) obtain e k where e: "currency_exponent c = Inr e" "x = of_int k / 10 ^ e" by (auto simp: in_units_def)
  have le: "e \<le> 4" by (rule currency_exponent_le [OF e(1)])
  have p: "(10::rat) ^ 4 = 10 ^ e * 10 ^ (4 - e)" using le by (simp only: le_add_diff_inverse flip: power_add)
  have x4: "x = of_int (k * 10 ^ (4 - e)) / 10 ^ 4" unfolding p e(2) by simp
  from assms(3) obtain l where l: "y = of_int l / 10 ^ 4" "\<bar>l\<bar> < 10 ^ 18" by (auto simp: numeric18_4_def)
  have "\<bar>of_int (k * 10 ^ (4 - e)) :: rat\<bar> \<le> of_int \<bar>l\<bar>" using assms(2) unfolding x4 l(1) by (simp add: divide_right_mono)
  then have "\<bar>k * 10 ^ (4 - e)\<bar> \<le> \<bar>l\<bar>" by (simp flip: of_int_abs only: of_int_le_iff)
  then have k: "\<bar>k * 10 ^ (4 - e)\<bar> < 10 ^ 18" using l(2) by simp
  show n: "numeric18_4 x" unfolding numeric18_4_def using x4 k by blast
  then show "dec_neg x = - x" by simp
  have "\<bar>k\<bar> \<le> \<bar>k * 10 ^ (4 - e)\<bar>" unfolding abs_mult by (simp add: mult_le_cancel_left1)
  with k have k28: "\<bar>k\<bar> < 10 ^ 28" by simp
  have "x * 10 ^ e = of_int k" "- x * 10 ^ e = of_int (- k)" unfolding e(2) by simp_all
  then have r: "round_half_up (x * 10 ^ e) = k" "round_half_up (- x * 10 ^ e) = - k"
    by (simp_all only: round_half_up_of_int)
  show "quantize (PyDecimal x) c = Inr x"
    using e k28 unfolding quantize_Inr dec_quantize_Inr r by (intro exI [of _ e]) (simp add: r)
  show "quantize (PyDecimal (- x)) c = Inr (- x)"
    unfolding quantize_Inr dec_quantize_Inr using e k28 r by (intro exI [of _ e]) simp
qed

lemma same_currency:
  assumes "ledger_ok s" "d \<in> set (entries s)" "r \<in> set (entries s)" "le_project d = le_project r"
  shows "le_currency d = le_currency r" "le_org d = le_org r"
  using ledger_entry_facts(2) [OF assms(1,2)] ledger_entry_facts(2) [OF assms(1,3)] assms(4)
  by (auto simp: entry_home_def)

lemma remaining_units:
  assumes ok: "ledger_ok s" and h: "holdings_ok (entries s)" and r: "r \<in> set (entries s)"
  shows "in_units (le_currency r) (le_amount r + released_amount (entries s) (le_org r) (le_id r))"
  unfolding released_amount_open [OF ok]
proof (rule in_units_sum)
  show "finite (open_releases (entries s) (le_org r) (le_id r))" by (simp add: open_releases_def)
  have unit: "in_units (le_currency d) (le_amount d)" if "d \<in> set (entries s)" for d
    using ledger_entry_facts(1) [OF ok that] quantize_in_units by (auto simp: entry_ok_def)
  show "in_units (le_currency r) (le_amount r)" by (rule unit [OF r])
  fix d assume d: "d \<in> open_releases (entries s) (le_org r) (le_id r)"
  then have dm: "d \<in> set (entries s)" "le_releases d = Some (le_id r)" by (auto simp: open_releases_def)
  from holdings_okD(1) [OF h dm] obtain q where "q \<in> set (entries s)" "le_id q = le_id r" "le_project q = le_project d" by blast
  then have "le_project d = le_project r" using ledger_unique(1) [OF ok _ r] by metis
  then show "in_units (le_currency r) (le_amount d)" using unit [OF dm(1)] same_currency(1) [OF ok dm(1) r] by simp
qed

section \<open>The operations keep the invariant\<close>

definition budget_ok :: "db \<Rightarrow> bool" where
  "budget_ok s \<longleftrightarrow> ledger_ok s \<and> holdings_ok (entries s)"

interpretation budget: tx_preorder "keeps budget_ok"
  by unfold_locales (auto simp: keeps_def)

lemma budget_ok_empty: "budget_ok empty_db"
  by (simp add: budget_ok_def ledger_ok_empty) (simp add: empty_db_def holdings_ok_Nil)

lemma post_entry_extends:
  assumes ok: "ledger_ok s" and run: "post_entry org p s = Inr (e, t)"
  obtains "t = s"
  | s1 where "extended s1 e t" "entries s1 = entries s" "\<forall>f\<in>set (entries s). le_org f = org \<longrightarrow> le_key f \<noteq> Some (po_key p)"
  using ok run
proof (cases rule: post_entry_Inr)
  case replayed
  then show ?thesis using that by blast
next
  case (posted b k q r s0 s1)
  have "entries s1 = entries s"
    using posted(8) lock_or_open_keeps(2) [OF ok posted(2)] by (simp add: same_books_def)
  moreover have "extended s1 e t"
    using posted(7,9) post_entry_ledger_ok [OF ok run] by (simp add: extended_def posted_def)
  ultimately show ?thesis using that(2) posted(1) by (simp add: find_entry_None)
qed

lemma represents_sel:
  "represents org p e \<Longrightarrow> le_type e = po_type p \<and> le_project e = po_project p \<and> le_org e = org \<and>
     le_releases e = po_releases p \<and> le_reverses e = po_reverses p \<and> le_converts e = po_converts p \<and> le_key e = Some (po_key p)"
  by (simp add: represents_def same_core_def)

lemma post_plain_kept:
  assumes "po_type p \<noteq> Release" "po_type p \<noteq> Reversal"
  shows "tx_rel (keeps budget_ok) (post_entry org p)"
proof (rule tx_relI, unfold keeps_def, rule impI)
  fix s e t
  assume run: "post_entry org p s = Inr (e, t)" and ok: "budget_ok s"
  then have l: "ledger_ok s" and h: "holdings_ok (entries s)" by (simp_all add: budget_ok_def)
  have ty: "le_type e = po_type p" using represents_sel [OF post_entry_result(2) [OF l run]] by simp
  have "holdings_ok (entries t)"
    using l run
  proof (cases rule: post_entry_extends)
    case 1
    then show ?thesis using h by simp
  next
    case (2 s1)
    then show ?thesis using holdings_plain [OF 2(1)] h ty assms by simp
  qed
  then show "budget_ok t" using post_entry_ledger_ok [OF l run] by (simp add: budget_ok_def)
qed

lemma remaining_Inr: "remaining org r s = Inr (x, t) \<Longrightarrow>
   t = s \<and> remaining_row (if le_type r = Reservation then Reservation else Commitment) (entries s) org (le_id r) = Some x"
  by (auto simp: remaining_def tx_bind_Inr)

lemma remaining_row_Some:
  assumes "ledger_ok s" "r \<in> set (entries s)" "remaining_row ty (entries s) (le_org r) (le_id r) = Some x"
  shows "x = view_remaining (entries s) r" "le_type r = ty"
proof -
  from assms(3) obtain q where q: "find_entry (le_org r) (\<lambda>e. le_type e = ty \<and> le_id e = le_id r) (entries s) = Some q"
    "x = view_remaining (entries s) q" by (auto simp: remaining_row_def)
  from find_entry_Some [OF q(1)] have "q = r" "le_type q = ty" using ledger_unique(1) [OF assms(1) _ assms(2)] by auto
  with q(2) show "x = view_remaining (entries s) r" "le_type r = ty" by simp_all
qed

lemma original_entry_Inr:
  "original_entry org i s = Inr (r, t) \<Longrightarrow> t = s \<and> r \<in> set (entries s) \<and> le_org r = org \<and> le_id r = i"
  by (auto simp: original_entry_def repo_entry_def repo_balance_def tx_bind_Inr dest: find_entry_Some)

lemma not_reversed_find:
  assumes "ledger_ok s" "r \<in> set (entries s)" "find_entry (le_org r) (\<lambda>e. le_reverses e = Some (le_id r)) (entries s) = None"
  shows "\<not> is_reversed (entries s) r" "\<not> reversed_in (entries s) (le_org r) (le_id r)"
  using assms is_reversed_org [OF assms(1,2)] by (auto simp: find_entry_None reversed_in_def list_ex_iff)

text \<open>What a successful call of \<open>release_amount\<close> has checked.\<close>

lemma release_amount_Inr:
  assumes b: "budget_ok s" and r: "r \<in> set (entries s)" "le_org r = org" "holds (le_type r) \<noteq> None"
    and run: "release_amount org r c l1 l2 s = Inr (v, t)"
  shows "t = s"
    "v = Some a \<Longrightarrow> (\<forall>f\<in>set (entries s). le_org f = org \<longrightarrow> le_key f \<noteq> Some (rl_key c)) \<Longrightarrow>
       \<not> is_reversed (entries s) r \<and> 0 < a \<and> a \<le> le_amount r + released_amount (entries s) org (le_id r) \<and>
       in_units (le_currency r) a \<and>
       (case rl_amount c of None \<Rightarrow> a = view_remaining (entries s) r | Some x \<Rightarrow> quantize (PyDecimal x) (le_currency r) = Inr a)"
proof -
  have l: "ledger_ok s" and h: "holdings_ok (entries s)" using b by (simp_all add: budget_ok_def)
  show "t = s"
    using run by (auto simp: release_amount_def repo_entry_def tx_bind_Inr split: option.splits if_splits dest: remaining_Inr)
  assume v: "v = Some a" and fresh: "\<forall>f\<in>set (entries s). le_org f = org \<longrightarrow> le_key f \<noteq> Some (rl_key c)"
  then have "find_entry org (\<lambda>e. le_key e = Some (rl_key c)) (entries s) = None" by (simp add: find_entry_None)
  with run v obtain held where none: "find_entry org (\<lambda>e. le_reverses e = Some (le_id r)) (entries s) = None"
    and held: "remaining org r s = Inr (held, t)"
    and a: "(case rl_amount c of None \<Rightarrow> a = held | Some x \<Rightarrow> quantize (PyDecimal x) (le_currency r) = Inr a)"
    and bounds: "\<not> (a < 0 \<or> rl_amount c \<noteq> None \<and> a = 0)" "held \<noteq> 0" "a \<le> held"
    by (cases "rl_amount c") (auto simp: release_amount_def repo_entry_def tx_bind_Inr split: if_splits dest: remaining_Inr)
  note nr = not_reversed_find [OF l r(1), unfolded r(2), OF none]
  have hv: "held = view_remaining (entries s) r"
    using remaining_row_Some(1) [OF l r(1), unfolded r(2)] remaining_Inr [OF held] by blast
  then have held': "held = le_amount r + released_amount (entries s) org (le_id r)"
    using nr(2) r(2) by (simp add: view_remaining_def)
  have "0 < a" using a bounds by (cases "rl_amount c") auto
  moreover have "in_units (le_currency r) a"
    using a remaining_units [OF l h r(1)] held' r(2) quantize_in_units by (auto split: option.splits)
  moreover have "case rl_amount c of None \<Rightarrow> a = view_remaining (entries s) r | Some x \<Rightarrow> quantize (PyDecimal x) (le_currency r) = Inr a"
    using a hv by (simp split: option.splits)
  ultimately show "\<not> is_reversed (entries s) r \<and> 0 < a \<and> a \<le> le_amount r + released_amount (entries s) org (le_id r) \<and>
       in_units (le_currency r) a \<and>
       (case rl_amount c of None \<Rightarrow> a = view_remaining (entries s) r | Some x \<Rightarrow> quantize (PyDecimal x) (le_currency r) = Inr a)"
    using nr(1) bounds(3) held' by simp
qed

text \<open>The posted release is exactly the amount, and the invariant survives.\<close>

lemma post_release:
  assumes b: "budget_ok s" and r: "r \<in> set (entries s)" "le_org r = org" "holds (le_type r) = Some k"
    and amt: "release_amount org r c l1 l2 s = Inr (Some a, s)"
    and run: "post_entry org (release_posting today r c k a) s = Inr (e, t)"
  shows "budget_ok t"
    "t = s \<or> (entries t = entries s @ [e] \<and> le_amount e = - a \<and> le_releases e = Some (le_id r) \<and> le_bucket e = k \<and> 0 < a \<and>
       a \<le> view_remaining (entries s) r \<and> view_remaining (entries t) r = view_remaining (entries s) r - a)"
proof -
  have l: "ledger_ok s" and h: "holdings_ok (entries s)" using b by (simp_all add: budget_ok_def)
  note rep = post_entry_result(2) [OF l run]
  have goal: "budget_ok t \<and> (t = s \<or> (entries t = entries s @ [e] \<and> le_amount e = - a \<and> le_releases e = Some (le_id r) \<and> le_bucket e = k \<and>
      0 < a \<and> a \<le> view_remaining (entries s) r \<and> view_remaining (entries t) r = view_remaining (entries s) r - a))"
    using l run
  proof (cases rule: post_entry_extends)
    case 1
    then show ?thesis using b by simp
  next
    case (2 s1)
    note ra = release_amount_Inr(2) [OF b r(1,2) _ amt refl]
    have facts: "\<not> is_reversed (entries s) r" "0 < a" "a \<le> le_amount r + released_amount (entries s) org (le_id r)" "in_units (le_currency r) a"
      using ra 2(3) r(3) by (auto simp: release_posting_def)
    have num: "numeric18_4 (le_amount r)" using ledger_entry_facts(1) [OF l r(1)] by (simp add: entry_ok_def)
    have small: "\<bar>a\<bar> \<le> \<bar>le_amount r\<bar>"
      using facts(2,3) released_nonpos [OF l, of org "le_id r"] by simp
    note u = in_units_small [OF facts(4) small num]
    have e: "le_amount e = - a" "le_bucket e = k" "le_releases e = Some (le_id r)" "le_type e = Release" "le_org e = org"
      "le_project e = le_project r"
      using rep u(2,3) by (simp_all add: represents_def same_core_def release_posting_def)
    have ok: "holdings_ok (entries t)"
      by (rule holdings_release [OF 2(1), of r]) (use e facts r h 2(2) in simp_all)
    have t: "entries t = entries s @ [e]" "ledger_ok t" using 2 by (simp_all add: extended_def)
    have rev: "\<not> is_reversed (entries t) r" "\<not> is_reversed (entries s) r"
      using facts(1) entry_type_links(1) [of e] ledger_entry_facts(1) [OF t(2), of e] e(4) t(1)
      by (auto simp: is_reversed_def)
    have "view_remaining (entries t) r = view_remaining (entries s) r - a"
      using is_reversed_org [OF t(2), of r] is_reversed_org [OF l r(1)] rev r e released_extended [OF 2(1), of org "le_id r"] 2(2) t(1)
      by (simp add: view_remaining_def)
    moreover have "a \<le> view_remaining (entries s) r"
      using is_reversed_org [OF l r(1)] rev facts(3) r(2) by (simp add: view_remaining_def)
    ultimately show ?thesis using ok t e facts(2) by (simp add: budget_ok_def)
  qed
  then show "budget_ok t"
    "t = s \<or> (entries t = entries s @ [e] \<and> le_amount e = - a \<and> le_releases e = Some (le_id r) \<and> le_bucket e = k \<and> 0 < a \<and>
       a \<le> view_remaining (entries s) r \<and> view_remaining (entries t) r = view_remaining (entries s) r - a)"
    by blast+
qed

lemma repo_entry_Inr: "repo_entry org P s = Inr (x, t) \<longleftrightarrow> x = find_entry org P (entries s) \<and> t = s"
  by (simp add: repo_entry_def)

lemma release_reservation_Inr:
  assumes b: "budget_ok s" and run: "release_reservation org today c s = Inr (x, t)"
  obtains r where "r \<in> set (entries s)" "le_id r = rl_entry c" "le_org r = org" "le_type r = Reservation"
    "release_amount org r c ''reservation_reversed'' ''release_exceeds_reservation'' s = Inr (None, s)" "x = None" "t = s"
  | r a e where "r \<in> set (entries s)" "le_id r = rl_entry c" "le_org r = org" "le_type r = Reservation"
    "release_amount org r c ''reservation_reversed'' ''release_exceeds_reservation'' s = Inr (Some a, s)"
    "post_entry org (release_posting today r c BReserved a) s = Inr (e, t)" "x = Some e"
proof -
  from run obtain r v s1 where r: "find_entry org (\<lambda>e. le_id e = rl_entry c) (entries s) = Some r" "le_type r = Reservation"
    and v: "release_amount org r c ''reservation_reversed'' ''release_exceeds_reservation'' s = Inr (v, s1)"
    and rest: "(case v of None \<Rightarrow> tx_return None | Some a \<Rightarrow>
         tx_bind (post_entry org (release_posting today r c BReserved a)) (\<lambda>e. tx_return (Some e))) s1 = Inr (x, t)"
    by (auto simp: release_reservation_def repo_entry_def repo_balance_def tx_bind_Inr)
  note rm = find_entry_Some [OF r(1)]
  have "s1 = s" using release_amount_Inr(1) [OF b _ _ _ v] rm r(2) by simp
  then show ?thesis using that rm r(2) v rest by (cases v) (auto simp: tx_bind_Inr)
qed

lemma release_commitment_Inr:
  assumes b: "budget_ok s" and run: "release_commitment org today c s = Inr (x, t)"
  obtains r where "r \<in> set (entries s)" "le_id r = rl_entry c" "le_org r = org" "le_type r = Commitment"
    "release_amount org r c ''commitment_reversed'' ''release_exceeds_commitment'' s = Inr (None, s)" "x = None" "t = s"
  | r a e where "r \<in> set (entries s)" "le_id r = rl_entry c" "le_org r = org" "le_type r = Commitment"
    "release_amount org r c ''commitment_reversed'' ''release_exceeds_commitment'' s = Inr (Some a, s)"
    "post_entry org (release_posting today r c BCommitted a) s = Inr (e, t)" "x = Some e"
proof -
  from run obtain r v s1 where r: "original_entry org (rl_entry c) s = Inr (r, s)" "le_type r = Commitment"
    and v: "release_amount org r c ''commitment_reversed'' ''release_exceeds_commitment'' s = Inr (v, s1)"
    and rest: "(case v of None \<Rightarrow> tx_return None | Some a \<Rightarrow>
         tx_bind (post_entry org (release_posting today r c BCommitted a)) (\<lambda>e. tx_return (Some e))) s1 = Inr (x, t)"
    by (auto simp: release_commitment_def tx_bind_Inr dest: original_entry_Inr)
  note rm = original_entry_Inr [OF r(1)]
  have "s1 = s" using release_amount_Inr(1) [OF b _ _ _ v] rm r(2) by simp
  then show ?thesis using that rm r(2) v rest by (cases v) (auto simp: tx_bind_Inr)
qed

lemma release_reservation_kept: "tx_rel (keeps budget_ok) (release_reservation org today c)"
proof (rule tx_relI, unfold keeps_def, rule impI)
  fix s x t
  assume "release_reservation org today c s = Inr (x, t)" and b: "budget_ok s"
  from b this(1) show "budget_ok t"
    by (cases rule: release_reservation_Inr) (use b post_release(1) [OF b] in \<open>auto\<close>)
qed

lemma release_commitment_kept: "tx_rel (keeps budget_ok) (release_commitment org today c)"
proof (rule tx_relI, unfold keeps_def, rule impI)
  fix s x t
  assume "release_commitment org today c s = Inr (x, t)" and b: "budget_ok s"
  from b this(1) show "budget_ok t"
    by (cases rule: release_commitment_Inr) (use b post_release(1) [OF b] in \<open>auto\<close>)
qed

lemma reserve_kept: "tx_rel (keeps budget_ok) (reserve org h)"
  unfolding reserve_def by (rule post_plain_kept) (simp_all add: holding_posting_def)

lemma same_state_kept: "(\<And>s x t. m s = Inr (x, t) \<Longrightarrow> t = s) \<Longrightarrow> tx_rel (keeps P) m"
  by (auto simp: tx_rel_def keeps_def)

lemma reads_kept:
  "tx_rel (keeps P) (repo_entry org Q)" "tx_rel (keeps P) (repo_balance org pid)"
  "tx_rel (keeps P) (original_entry org i)" "tx_rel (keeps P) (remaining org r)"
  "tx_rel (keeps P) (assert_usable org kind code d)" "tx_rel (keeps P) (check_code org d kc)"
proof -
  show "tx_rel (keeps P) (repo_entry org Q)" by (rule same_state_kept) (simp add: repo_entry_def)
  show "tx_rel (keeps P) (repo_balance org pid)" by (rule same_state_kept) (simp add: repo_balance_def)
  show "tx_rel (keeps P) (original_entry org i)" by (rule same_state_kept) (auto dest: original_entry_Inr)
  show "tx_rel (keeps P) (remaining org r)" by (rule same_state_kept) (auto dest: remaining_Inr)
  have au: "assert_usable org kind code d s = Inr (x, t) \<Longrightarrow> t = s" for kind code s x t
    by (auto simp: assert_usable_def split: option.splits if_splits)
  then show "tx_rel (keeps P) (assert_usable org kind code d)" by (rule same_state_kept)
  show "tx_rel (keeps P) (check_code org d kc)" by (rule same_state_kept) (auto simp: check_code_def tx_bind_Inr dest: au)
qed

lemma convert_held_kept: "tx_rel (keeps budget_ok) (convert_held org today ty h amount i)"
  unfolding convert_held_def Let_def
  by (intro budget.bind_ok reads_kept budget.require_ok)
    (auto intro!: budget.bind_ok budget.return_ok release_reservation_kept release_commitment_kept)

lemma consume_kept:
  assumes "ty = Commitment \<or> ty = Actual"
  shows "tx_rel (keeps budget_ok) (consume org today ty conv h)"
proof -
  have post: "tx_rel (keeps budget_ok) (post_entry org (holding_posting h ty a conv))" for a
    by (rule post_plain_kept) (use assms in \<open>auto simp: holding_posting_def\<close>)
  have codes: "tx_rel (keeps budget_ok) (if ty = Actual then tx_each (check_code org (ho_effective h))
                       [(''department'', ho_department h), (''ledger_account'', ho_account h)] else tx_return [])"
    using budget.each_ok [of _ "check_code org (ho_effective h)"] reads_kept(6) by (auto simp del: tx_each.simps intro: budget.return_ok)
  have conv: "tx_rel (keeps budget_ok) (case conv of None \<Rightarrow> tx_return () | Some i \<Rightarrow> convert_held org today ty h a i)" for a
    by (cases conv) (auto intro: budget.return_ok convert_held_kept)
  show ?thesis
    unfolding consume_def
  proof (intro budget.bind_ok reads_kept budget.require_ok)
    fix b u existing
    show "tx_rel (keeps budget_ok) (if existing \<noteq> None then post_entry org (holding_posting h ty (ho_amount h) conv)
     else
       tx_bind (tx_lift (quantize (PyDecimal (ho_amount h)) (ho_currency h))) (\<lambda>amount.
       tx_bind (tx_require (0 < amount) invalid_entry) (\<lambda>_.
       tx_bind (if ty = Actual
                then tx_each (check_code org (ho_effective h))
                       [(''department'', ho_department h), (''ledger_account'', ho_account h)]
                else tx_return []) (\<lambda>_.
       tx_bind (case conv of None \<Rightarrow> tx_return () | Some i \<Rightarrow> convert_held org today ty h amount i) (\<lambda>_.
       post_entry org (holding_posting h ty amount conv))))))"
    proof (cases "existing = None")
      case True
      have "tx_rel (keeps budget_ok) (tx_bind (tx_lift (quantize (PyDecimal (ho_amount h)) (ho_currency h))) (\<lambda>amount.
       tx_bind (tx_require (0 < amount) invalid_entry) (\<lambda>_.
       tx_bind (if ty = Actual
                then tx_each (check_code org (ho_effective h))
                       [(''department'', ho_department h), (''ledger_account'', ho_account h)]
                else tx_return []) (\<lambda>_.
       tx_bind (case conv of None \<Rightarrow> tx_return () | Some i \<Rightarrow> convert_held org today ty h amount i) (\<lambda>_.
       post_entry org (holding_posting h ty amount conv))))))"
        by (intro budget.bind_ok budget.lift_ok budget.require_ok codes conv post)
      then show ?thesis using True by simp
    qed (use post in simp)
  qed
qed

lemma reverse_entry_Inr:
  assumes l: "ledger_ok s" and run: "reverse_entry org i actor d reason key s = Inr (e, t)"
  obtains r where "r \<in> set (entries s)" "le_org r = org" "le_id r = i" "le_type r \<noteq> Transfer"
    "post_entry org (reversal_posting r actor d reason key) s = Inr (e, t)"
    "find_entry org (\<lambda>f. le_key f = Some key) (entries s) = None \<longrightarrow>
       le_type r \<noteq> Reversal \<and> \<not> is_reversed (entries s) r \<and> \<not> reversed_in (entries s) org i \<and>
       (holds (le_type r) \<noteq> None \<longrightarrow> le_amount r \<le> view_remaining (entries s) r)"
proof -
  from run obtain r s1 u where r: "original_entry org i s = Inr (r, s)" "le_type r \<noteq> Transfer"
    and g: "(if find_entry org (\<lambda>f. le_key f = Some key) (entries s) \<noteq> None then tx_return ()
              else
                tx_bind (tx_require (le_type r \<noteq> Reversal) (conflict ''cannot_reverse_reversal'')) (\<lambda>_.
                tx_bind (repo_entry org (\<lambda>e. le_reverses e = Some (le_id r))) (\<lambda>v.
                tx_bind (tx_require (v = None) (conflict ''entry_already_reversed'')) (\<lambda>_.
                if le_type r \<in> {Reservation, Commitment}
                then tx_bind (remaining org r) (\<lambda>held.
                     tx_require (\<not> held < le_amount r) (conflict ''entry_partly_released''))
                else tx_return ())))) s = Inr (u, s1)"
    and post: "post_entry org (reversal_posting r actor d reason key) s1 = Inr (e, t)"
    unfolding reverse_entry_def tx_bind_Inr repo_entry_Inr tx_require_Inr
    by (blast dest: original_entry_Inr)
  note rm = original_entry_Inr [OF r(1)]
  have rest: "s1 = s \<and> (find_entry org (\<lambda>f. le_key f = Some key) (entries s) = None \<longrightarrow>
       le_type r \<noteq> Reversal \<and> find_entry org (\<lambda>e. le_reverses e = Some (le_id r)) (entries s) = None \<and>
       (le_type r \<in> {Reservation, Commitment} \<longrightarrow> (\<exists>held. remaining org r s = Inr (held, s) \<and> \<not> held < le_amount r)))"
    using g by (auto simp: tx_bind_Inr repo_entry_Inr split: if_splits dest: remaining_Inr)
  have new: "le_type r \<noteq> Reversal \<and> \<not> is_reversed (entries s) r \<and> \<not> reversed_in (entries s) org i \<and>
       (holds (le_type r) \<noteq> None \<longrightarrow> le_amount r \<le> view_remaining (entries s) r)"
    if n: "find_entry org (\<lambda>f. le_key f = Some key) (entries s) = None"
  proof -
    have nr: "\<not> is_reversed (entries s) r" "\<not> reversed_in (entries s) org i"
    proof -
      have "find_entry (le_org r) (\<lambda>e. le_reverses e = Some (le_id r)) (entries s) = None" using rest n rm by simp
      from not_reversed_find [OF l _ this] rm show "\<not> is_reversed (entries s) r" "\<not> reversed_in (entries s) org i" by simp_all
    qed
    have "le_amount r \<le> view_remaining (entries s) r" if "holds (le_type r) \<noteq> None"
    proof -
      have "le_type r \<in> {Reservation, Commitment}" using that by (cases "le_type r") simp_all
      then obtain held where "remaining org r s = Inr (held, s)" "\<not> held < le_amount r" using rest n by blast
      moreover have "held = view_remaining (entries s) r"
        by (rule remaining_row_Some(1) [OF l, of r]) (use rm remaining_Inr [OF calculation(1)] in auto)
      ultimately show ?thesis by simp
    qed
    with nr rest n show ?thesis by blast
  qed
  have "post_entry org (reversal_posting r actor d reason key) s = Inr (e, t)" using post rest by simp
  then show ?thesis
    by (intro that [of r]) (use rm r(2) new in simp_all)
qed

lemma reverse_entry_kept: "tx_rel (keeps budget_ok) (reverse_entry org i actor d reason key)"
proof (rule tx_relI, unfold keeps_def, rule impI)
  fix s e t
  assume run: "reverse_entry org i actor d reason key s = Inr (e, t)" and b: "budget_ok s"
  then have l: "ledger_ok s" and h: "holdings_ok (entries s)" by (simp_all add: budget_ok_def)
  from l run show "budget_ok t"
  proof (cases rule: reverse_entry_Inr)
    case (1 r)
    note r = 1(1-3) and post = 1(5) and new = 1(6)
  note rep = post_entry_result(2) [OF l post]
  have "holdings_ok (entries t)"
    using l post
  proof (cases rule: post_entry_extends)
    case 1
    then show ?thesis using h by simp
  next
    case (2 s1)
    have "find_entry org (\<lambda>f. le_key f = Some key) (entries s) = None"
      using 2(3) by (simp add: find_entry_None reversal_posting_def)
    with new have n: "le_type r \<noteq> Reversal" "\<not> is_reversed (entries s) r" "\<not> reversed_in (entries s) org i"
      "holds (le_type r) \<noteq> None \<longrightarrow> le_amount r \<le> view_remaining (entries s) r" by blast+
    have e: "le_type e = Reversal" "le_reverses e = Some (le_id r)"
      using represents_sel [OF rep] by (simp_all add: reversal_posting_def)
    have none: "released_amount (entries s) (le_org r) (le_id r) = 0" if "holds (le_type r) \<noteq> None"
      using n that r released_nonpos [OF l, of org i] by (simp add: view_remaining_def)
    show ?thesis by (rule holdings_reversal [OF 2(1), of r]) (use 2(2) h e r n none in simp_all)
  qed
  then show ?thesis using post_entry_ledger_ok [OF l post] by (simp add: budget_ok_def)
  qed
qed

section \<open>The buckets are what is held\<close>

definition holdings_of :: "ledger_entry list \<Rightarrow> uuid \<Rightarrow> bucket \<Rightarrow> ledger_entry set" where
  "holdings_of es pid k = {r \<in> set es. le_project r = pid \<and> holds (le_type r) = Some k}"

lemma holds_bucket:
  assumes "ledger_ok s" "e \<in> set (entries s)"
  shows "holds (le_type e) = Some k \<Longrightarrow> le_bucket e = k"
    "le_bucket e = k \<Longrightarrow> k \<in> {BReserved, BCommitted} \<Longrightarrow> holds (le_type e) = Some k \<or> le_type e \<in> {Release, Reversal}"
  using entry_type_links(3) [OF ledger_entry_facts(1) [OF assms]] by (cases "le_type e"; auto)+

lemma bucket_is_held:
  assumes ok: "ledger_ok s" and h: "holdings_ok (entries s)" and k: "k \<in> {BReserved, BCommitted}"
  shows "bucket_total (entries s) pid k = (\<Sum>r\<in>holdings_of (entries s) pid k. view_remaining (entries s) r)"
proof -
  let ?es = "entries s"
  let ?N = "{e \<in> set ?es. le_project e = pid \<and> le_bucket e = k \<and> le_type e \<noteq> Reversal}"
  let ?H = "holdings_of ?es pid k"
  let ?open = "\<lambda>r. open_releases ?es (le_org r) (le_id r)"
  have Hm: "r \<in> set ?es" "le_project r = pid" "holds (le_type r) = Some k" "le_bucket r = k" if "r \<in> ?H" for r
    using that holds_bucket(1) [OF ok] by (auto simp: holdings_of_def)
  have B: "{e \<in> set ?es. le_project e = pid \<and> le_bucket e = k} = ?N \<union> reversals_of ?es ?N" (is "?B = _")
  proof (intro equalityI subsetI)
    fix e assume e: "e \<in> ?B"
    show "e \<in> ?N \<union> reversals_of ?es ?N"
    proof (cases "le_type e = Reversal")
      case True
      then obtain i where i: "le_reverses e = Some i" using entry_type_links(1) [OF ledger_entry_facts(1) [OF ok, of e]] e by auto
      have em: "e \<in> set ?es" using e by simp
      obtain d where d: "d \<in> set ?es" "le_id d = i" "le_project d = le_project e" "le_bucket d = le_bucket e"
        by (rule entry_reversed [OF ok em i])
      then have "d \<in> ?N" using e holdings_okD(2) [OF h _ d(1), of e] i by auto
      then show ?thesis using e i d(2) by (auto simp: reversals_of_def)
    qed (use e in simp)
  next
    fix e assume "e \<in> ?N \<union> reversals_of ?es ?N"
    then show "e \<in> ?B"
    proof
      assume "e \<in> reversals_of ?es ?N"
      then obtain d where d: "e \<in> set ?es" "d \<in> ?N" "le_reverses e = Some (le_id d)" by (auto simp: reversals_of_def)
      then show ?thesis using reversal_cancels(3,4) [OF ok _ d(1,3)] by simp
    qed simp
  qed
  have "bucket_total ?es pid k = (\<Sum>e\<in>?N \<union> reversals_of ?es ?N. le_amount e)"
    by (simp only: bucket_total_def sum_list_set [OF ledger_distinct [OF ok]] B)
  also have "\<dots> = (\<Sum>d\<in>{d \<in> ?N. \<not> is_reversed ?es d}. le_amount d)"
    by (rule sum_with_reversals [OF ok]) auto
  also have "{d \<in> ?N. \<not> is_reversed ?es d} = {r \<in> ?H. \<not> is_reversed ?es r} \<union> (\<Union>r\<in>?H. ?open r)" (is "?L = ?U1 \<union> ?U2")
  proof (intro equalityI subsetI)
    fix d assume d: "d \<in> ?L"
    then consider "holds (le_type d) = Some k" | "le_type d = Release" using holds_bucket(2) [OF ok, of d k] k by auto
    then show "d \<in> ?U1 \<union> ?U2"
    proof cases
      case 2
      then obtain i where i: "le_releases d = Some i" using entry_type_links(2) [OF ledger_entry_facts(1) [OF ok, of d]] d by auto
      have dm: "d \<in> set ?es" using d by simp
      obtain r where "r \<in> set ?es" "le_id r = i" "le_org r = le_org d" "le_project r = le_project d" "holds (le_type r) = Some (le_bucket d)"
        using holdings_okD(1) [OF h dm i] by blast
      then show ?thesis using d i by (auto simp: holdings_of_def open_releases_def)
    qed (use d in \<open>auto simp: holdings_of_def\<close>)
  next
    fix d assume "d \<in> ?U1 \<union> ?U2"
    then show "d \<in> ?L"
    proof
      assume "d \<in> ?U1"
      then show ?thesis using Hm [of d] by auto
    next
      assume "d \<in> ?U2"
      then obtain r where r: "r \<in> ?H" "d \<in> ?open r" by blast
      then have dm: "d \<in> set ?es" "le_releases d = Some (le_id r)" "\<not> is_reversed ?es d" by (auto simp: open_releases_def)
      obtain q where q: "q \<in> set ?es" "le_id q = le_id r" "le_project q = le_project d" "holds (le_type q) = Some (le_bucket d)"
        using holdings_okD(1) [OF h dm(1,2)] by blast
      then have "q = r" using ledger_unique(1) [OF ok q(1)] Hm(1) [OF r(1)] by blast
      then show ?thesis using q dm Hm [OF r(1)] release_type(1) [OF ok dm(1,2)] by auto
    qed
  qed
  also have "(\<Sum>d\<in>?U1 \<union> ?U2. le_amount d) = (\<Sum>d\<in>?U1. le_amount d) + (\<Sum>d\<in>?U2. le_amount d)"
  proof (rule sum.union_disjoint)
    show "finite ?U1" "finite ?U2" by (auto simp: holdings_of_def open_releases_def)
    show "?U1 \<inter> ?U2 = {}" using Hm(3) release_type(1) [OF ok] by (fastforce simp: open_releases_def)
  qed
  also have "(\<Sum>d\<in>?U2. le_amount d) = (\<Sum>r\<in>?H. released_amount ?es (le_org r) (le_id r))"
  proof (subst sum.UNION_disjoint)
    show "\<forall>r\<in>?H. \<forall>q\<in>?H. r \<noteq> q \<longrightarrow> ?open r \<inter> ?open q = {}"
      using ledger_unique(1) [OF ok] Hm(1) by (auto simp: open_releases_def)
  qed (auto simp: holdings_of_def open_releases_def [of _ _ "le_id _"] released_amount_open [OF ok])
  also have "(\<Sum>d\<in>?U1. le_amount d) = (\<Sum>r\<in>?H. if is_reversed ?es r then 0 else le_amount r)"
    by (simp add: holdings_of_def sum.inter_filter flip: sum.inter_filter) (rule sum.mono_neutral_cong_left; auto)
  also have "(\<Sum>r\<in>?H. if is_reversed ?es r then 0 else le_amount r) + (\<Sum>r\<in>?H. released_amount ?es (le_org r) (le_id r)) =
      (\<Sum>r\<in>?H. view_remaining ?es r)"
    unfolding sum.distrib [symmetric]
  proof (rule sum.cong [OF refl])
    fix r assume r: "r \<in> ?H"
    then show "(if is_reversed ?es r then 0 else le_amount r) + released_amount ?es (le_org r) (le_id r) = view_remaining ?es r"
      using holdings_okD(4) [OF h, of r] is_reversed_org [OF ok, of r] Hm [OF r] by (auto simp: view_remaining_def)
  qed
  finally show ?thesis .
qed

end
