(* ===== verification/Transfers.thy ===== *)
theory Transfers
  imports Holdings
begin

text \<open>
  \<open>flo/modules/projects/hierarchy.py\<close> (the upward walks), \<open>flo/modules/budget/funding_policy.py\<close>,
  \<open>transfers.py\<close> and the funding commands of \<open>flo/modules/budget/service.py\<close>: balanced groups of
  legs along the project tree, direct and roll-down allocations, adjustments, evidence.
\<close>

section \<open>The project tree\<close>

definition find_project :: "uuid \<Rightarrow> uuid \<Rightarrow> db \<Rightarrow> project_row option" where
  "find_project org pid s =
     (case projects s pid of None \<Rightarrow> None | Some p \<Rightarrow> if p_org p = org then Some p else None)"

definition get_project :: "uuid \<Rightarrow> uuid \<Rightarrow> (db, project_row) tx" where
  "get_project org pid = tx_bind (tx_read (find_project org pid)) (\<lambda>p. tx_some p not_found)"

definition depth_of :: "uuid \<Rightarrow> uuid \<Rightarrow> (db, nat) tx" where
  "depth_of org pid = tx_bind (get_project org pid) (\<lambda>p. tx_return (p_depth p))"

text \<open>
  The recursive query walks at most six rows up; \<open>DISTINCT ON\<close> keeps the first visit of a node.
\<close>

fun chain_up :: "nat \<Rightarrow> db \<Rightarrow> uuid \<Rightarrow> uuid \<Rightarrow> uuid list" where
  "chain_up 0 s org pid = []"
| "chain_up (Suc n) s org pid =
     (case find_project org pid s of
        None \<Rightarrow> []
      | Some p \<Rightarrow> pid # (case p_parent p of None \<Rightarrow> [] | Some q \<Rightarrow> chain_up n s org q))"

definition first_visits :: "'a list \<Rightarrow> 'a list" where
  "first_visits xs = rev (remdups (rev xs))"

definition walk_up :: "uuid \<Rightarrow> uuid \<Rightarrow> (db, uuid list) tx" where
  "walk_up org pid =
     tx_bind (tx_read (\<lambda>s. first_visits (chain_up 6 s org pid))) (\<lambda>nodes.
     tx_bind (tx_require (nodes \<noteq> []) not_found) (\<lambda>_.
     tx_return nodes))"

definition ancestors :: "uuid \<Rightarrow> uuid \<Rightarrow> (db, uuid list) tx" where
  "ancestors org pid = tx_bind (walk_up org pid) (\<lambda>nodes. tx_return (tl nodes))"

record path_read =
  up :: "uuid list"
  lca :: "uuid option"
  down :: "uuid list"

definition common_path :: "uuid list \<Rightarrow> uuid list \<Rightarrow> path_read" where
  "common_path a_nodes b_nodes =
     (case find (\<lambda>n. n \<in> set b_nodes) a_nodes of
        None \<Rightarrow> \<lparr>up = [], lca = None, down = []\<rparr>
      | Some c \<Rightarrow> \<lparr>up = takeWhile (\<lambda>n. n \<noteq> c) a_nodes, lca = Some c,
                   down = rev (takeWhile (\<lambda>n. n \<noteq> c) b_nodes)\<rparr>)"

definition path_between :: "uuid \<Rightarrow> uuid \<Rightarrow> uuid \<Rightarrow> (db, path_read) tx" where
  "path_between org a b =
     tx_bind (walk_up org a) (\<lambda>a_nodes.
     tx_bind (walk_up org b) (\<lambda>b_nodes.
     tx_return (common_path a_nodes b_nodes)))"

section \<open>Funding policy\<close>

datatype funding_plan = Direct | FromParent uuid

definition mode_for :: "uuid \<Rightarrow> uuid \<Rightarrow> (db, json) tx" where
  "mode_for org pid = (\<lambda>s.
     case find_project org pid s of None \<Rightarrow> Inl not_found
     | Some p \<Rightarrow>
       (case find_project org (p_root p) s of None \<Rightarrow> Inl not_found
        | Some top_row \<Rightarrow>
          (case unit_chain (Suc (length (units s))) (units s) org (Some (p_bu top_row)) of
             None \<Rightarrow> Inl (Raised QueryNotReturning)
           | Some chain \<Rightarrow>
             if chain = [] then Inl not_found
             else (case nearest (setting_candidates (settings s) org ''funding_mode'' (JStr ''roll_down'') chain) of
                     None \<Rightarrow> Inl not_found
                   | Some c \<Rightarrow> Inr (snd c, s)))))"

definition plan_allocation :: "project_row \<Rightarrow> json \<Rightarrow> funding_plan" where
  "plan_allocation p mode =
     (if mode = JStr ''roll_down''
      then (case p_parent p of None \<Rightarrow> Direct | Some q \<Rightarrow> FromParent q)
      else Direct)"

section \<open>Balanced groups of legs\<close>

text \<open>The fields of \<open>AdjustmentCreate\<close> and \<open>AllocationCreate\<close>, after their validation.\<close>

record funding_body =
  fb_amount :: rat
  fb_currency :: string
  fb_effective :: date
  fb_reason :: string
  fb_evidence :: "string option"

text \<open>
  The validation of \<open>schemas.py\<close>: at most 18 digits, 4 of them decimal places, a currency of three
  capitals, texts that are not blank, and for an allocation or a transfer a positive amount.
\<close>

definition amount_field :: "rat \<Rightarrow> bool" where
  "amount_field a \<longleftrightarrow> a * 10 ^ 4 = of_int \<lfloor>a * 10 ^ 4\<rfloor> \<and> \<bar>a\<bar> < 10 ^ 14"

definition currency_field :: "string \<Rightarrow> bool" where
  "currency_field c \<longleftrightarrow> length c = 3 \<and> list_all (\<lambda>x. 65 \<le> (of_char x :: nat) \<and> (of_char x :: nat) \<le> 90) c"

definition meaningful_text :: "string option \<Rightarrow> bool" where
  "meaningful_text v \<longleftrightarrow> (case v of None \<Rightarrow> True | Some t \<Rightarrow> strip t \<noteq> [])"

definition adjustment_create :: "rat \<Rightarrow> string \<Rightarrow> date \<Rightarrow> string \<Rightarrow> string option \<Rightarrow> problem + funding_body" where
  "adjustment_create amount currency effective reason ref =
     (if amount_field amount \<and> amount \<noteq> 0 \<and> currency_field currency \<and> 10 \<le> length reason \<and>
         meaningful_text (Some reason) \<and> meaningful_text ref
      then Inr \<lparr>fb_amount = amount, fb_currency = currency, fb_effective = effective, fb_reason = reason, fb_evidence = ref\<rparr>
      else Inl (Problem ValidationFailed None))"

definition allocation_create :: "rat \<Rightarrow> string \<Rightarrow> date \<Rightarrow> string \<Rightarrow> string option \<Rightarrow> problem + funding_body" where
  "allocation_create amount currency effective reason ref =
     (if 0 < amount then adjustment_create amount currency effective reason ref
      else Inl (Problem ValidationFailed None))"

type_synonym leg = "uuid \<times> project_row \<times> rat \<times> string"

definition leg_posting ::
  "funding_body \<Rightarrow> uuid \<Rightarrow> string \<Rightarrow> bool option \<Rightarrow> string \<Rightarrow> uuid option \<Rightarrow> uuid \<Rightarrow> leg \<Rightarrow> posting" where
  "leg_posting body actor key allow_negative source_type source_id gid l =
     (case l of (pid, p, amount, suffix) \<Rightarrow>
     \<lparr>po_project = pid, po_type = Transfer, po_bucket = None, po_amount = amount,
      po_currency = fb_currency body, po_source_type = source_type,
      po_source_id = (case source_id of None \<Rightarrow> Some gid | Some i \<Rightarrow> Some i),
      po_effective = fb_effective body, po_group = Some gid, po_reverses = None, po_releases = None,
      po_converts = None, po_reason = Some (fb_reason body), po_department = p_department p,
      po_account = p_account p, po_actor = actor, po_key = key @ suffix,
      po_allow_negative = allow_negative, po_skip_period = False\<rparr>)"

text \<open>The evidence of an entry: compared on a replay, recorded on a first posting.\<close>

definition evidence_of :: "uuid \<Rightarrow> ledger_entry \<Rightarrow> (db, string option) tx" where
  "evidence_of org e = tx_read (\<lambda>s. if le_org e = org then evidence s (le_id e) else None)"

definition insert_evidence :: "nat \<Rightarrow> string \<Rightarrow> (db, unit) tx" where
  "insert_evidence i ref = (\<lambda>s.
     if strip ref = [] then Inl (Raised (CheckViolation ''ledger_evidence_ref_check''))
     else if evidence s i \<noteq> None then Inl (Raised (UniqueViolation ''ledger_evidence_pkey''))
     else Inr ((), s\<lparr>evidence := (evidence s)(i \<mapsto> ref)\<rparr>))"

definition keep_evidence :: "uuid \<Rightarrow> bool \<Rightarrow> string option \<Rightarrow> ledger_entry \<Rightarrow> (db, unit) tx" where
  "keep_evidence org replaying ref e =
     tx_bind (evidence_of org e) (\<lambda>found.
     tx_bind (tx_require (\<not> (replaying \<and> found \<noteq> ref)) idempotency_conflict) (\<lambda>_.
     case (found, ref) of
       (None, Some r) \<Rightarrow> insert_evidence (le_id e) r
     | _ \<Rightarrow> tx_return ()))"

text \<open>
  \<open>post_legs\<close>, with the \<open>poster\<close> the caller may supply.  The gid of a replay is the one of its
  first entry.
\<close>

definition post_legs ::
  "(posting \<Rightarrow> (db, ledger_entry) tx) \<Rightarrow> uuid \<Rightarrow> funding_body \<Rightarrow> uuid \<Rightarrow> string \<Rightarrow> bool option \<Rightarrow>
   string \<Rightarrow> uuid option \<Rightarrow> leg list \<Rightarrow> (db, uuid \<times> ledger_entry list) tx" where
  "post_legs poster org body actor key allow_negative source_type source_id legs =
     tx_bind (tx_some (case legs of [] \<Rightarrow> None | l # _ \<Rightarrow> Some (snd (snd (snd l)))) (Raised LookupFailed)) (\<lambda>first.
     tx_bind (repo_entry org (\<lambda>e. le_key e = Some (key @ first))) (\<lambda>prior.
     tx_bind (case (case prior of None \<Rightarrow> None | Some e \<Rightarrow> le_group e) of
                None \<Rightarrow> fresh_uuid | Some g \<Rightarrow> tx_return g) (\<lambda>gid.
     tx_bind (tx_each (\<lambda>l.
         tx_bind (poster (leg_posting body actor key allow_negative source_type source_id gid l)) (\<lambda>e.
         tx_bind (keep_evidence org (prior \<noteq> None) (fb_evidence body) e) (\<lambda>_.
         tx_return e))) legs) (\<lambda>es.
     tx_bind (tx_require (dec_sum (map le_amount es) = 0) (conflict ''transfer_invariant_violation'')) (\<lambda>_.
     tx_return (gid, es))))))"

fun hop_legs :: "nat \<Rightarrow> rat \<Rightarrow> uuid list \<Rightarrow> (uuid \<times> rat \<times> string) list" where
  "hop_legs hop amount (a # b # route) =
     (a, dec_neg amount, '':'' @ decimal hop @ '':out'') # (b, amount, '':'' @ decimal hop @ '':in'') #
     hop_legs (Suc hop) amount (b # route)"
| "hop_legs hop amount _ = []"

definition plan_legs :: "path_read \<Rightarrow> uuid \<Rightarrow> uuid \<Rightarrow> bool \<Rightarrow> json \<Rightarrow> rat \<Rightarrow> (uuid \<times> rat \<times> string) list" where
  "plan_legs path giver recipient siblings mode amount =
     (case lca path of
        Some c \<Rightarrow>
          if siblings \<or> mode = JStr ''roll_up''
          then [(giver, dec_neg amount, '':out''), (recipient, amount, '':in'')]
          else hop_legs 0 amount (up path @ [c] @ down path)
      | None \<Rightarrow> [(giver, dec_neg amount, '':out''), (recipient, amount, '':in'')])"

section \<open>Transfers\<close>

definition setting_true :: "uuid \<Rightarrow> uuid \<Rightarrow> string \<Rightarrow> (db, bool) tx" where
  "setting_true org unit key = tx_bind (effective_setting org unit key) (\<lambda>v. tx_return (v = JBool True))"

text \<open>\<open>any(...)\<close> over the settings of some units, which stops at the first that is on.\<close>

fun any_setting :: "uuid \<Rightarrow> string \<Rightarrow> uuid list \<Rightarrow> (db, bool) tx" where
  "any_setting org key [] = tx_return False"
| "any_setting org key (u # us) =
     tx_bind (setting_true org u key) (\<lambda>v. if v then tx_return True else any_setting org key us)"

definition require_evidence :: "uuid \<Rightarrow> string option \<Rightarrow> uuid list \<Rightarrow> (db, unit) tx" where
  "require_evidence org ref us =
     (if ref \<noteq> None then tx_return ()
      else tx_bind (any_setting org ''budget.evidence_required'' us) (\<lambda>v. tx_require (\<not> v) invalid_entry))"

text \<open>The running balances of the nodes, leg by leg, before anything is posted.\<close>

fun check_running :: "uuid \<Rightarrow> string \<Rightarrow> leg list \<Rightarrow> (uuid \<Rightarrow> rat) \<Rightarrow> (db, unit) tx" where
  "check_running org currency [] running = tx_return ()"
| "check_running org currency ((pid, p, amount, suffix) # legs) running =
     tx_bind (tx_lift (quantize (PyDecimal amount) currency)) (\<lambda>a.
     let projected = dec_add (running pid) a in
     tx_bind (if a < 0 \<and> projected < 0
              then tx_bind (setting_true org (p_bu p) ''allow_negative_budget'') (\<lambda>v.
                   tx_require v (InsufficientBudget (running pid) (dec_neg a)))
              else tx_return ()) (\<lambda>_.
     check_running org currency legs (running(pid := projected))))"

definition read_available :: "uuid \<Rightarrow> uuid \<Rightarrow> (db, uuid \<times> rat) tx" where
  "read_available org pid =
     tx_bind (repo_balance org pid) (\<lambda>b.
     tx_bind (tx_some b (Raised AssertionError)) (\<lambda>b.
     tx_return (pid, b_available b)))"

text \<open>Whether the transfer may be made, checked unless its key was used before.\<close>

definition check_eligible ::
  "uuid \<Rightarrow> funding_body \<Rightarrow> bool \<Rightarrow> path_read \<Rightarrow> (uuid \<times> project_row) list \<Rightarrow> project_row \<Rightarrow> project_row \<Rightarrow>
   leg list \<Rightarrow> (db, unit) tx" where
  "check_eligible org body siblings path nodes giving receiving legs =
     tx_bind (tx_require (siblings \<or> lca path \<noteq> None) (conflict ''transfer_not_eligible'')) (\<lambda>_.
     tx_bind (tx_require
       (\<not> list_ex (\<lambda>p. p_currency p \<noteq> fb_currency body)
           (if siblings then [giving, receiving] else map snd nodes)) (conflict ''transfer_not_eligible'')) (\<lambda>_.
     tx_bind (tx_require
       (\<not> list_ex (\<lambda>(_, p, amount, _). 0 < amount \<and> p_status p \<notin> {Draft, Active}) legs)
       (conflict ''transfer_not_eligible'')) (\<lambda>_.
     require_evidence org (fb_evidence body) [p_bu giving, p_bu receiving])))"

definition with_node :: "(uuid \<times> project_row) list \<Rightarrow> uuid \<times> rat \<times> string \<Rightarrow> (db, leg) tx" where
  "with_node nodes l =
     tx_bind (tx_some (map_of nodes (fst l)) (Raised LookupFailed)) (\<lambda>p. tx_return (fst l, p, snd l))"

definition transfer ::
  "uuid \<Rightarrow> uuid \<Rightarrow> uuid \<Rightarrow> funding_body \<Rightarrow> uuid \<Rightarrow> string \<Rightarrow> (db, uuid \<times> ledger_entry list) tx" where
  "transfer org from_id to_id body actor key =
     tx_bind (tx_require (from_id \<noteq> to_id) (invalid ''same_project'')) (\<lambda>_.
     tx_bind (get_project org from_id) (\<lambda>giving.
     tx_bind (get_project org to_id) (\<lambda>receiving.
     let siblings = (p_parent giving = p_parent receiving \<and> p_depth giving = p_depth receiving) in
     tx_bind (path_between org from_id to_id) (\<lambda>path.
     tx_bind (mode_for org from_id) (\<lambda>mode.
     let ids = sort (remdups ([from_id, to_id] @ up path @ down path @ (case lca path of None \<Rightarrow> [] | Some c \<Rightarrow> [c]))) in
     tx_bind (tx_read (\<lambda>s. filter (\<lambda>i. balance_at org i s \<noteq> None) ids)) (\<lambda>locked.
     tx_bind (tx_require (length locked = length ids) not_found) (\<lambda>_.
     tx_bind (tx_each (\<lambda>i. tx_bind (get_project org i) (\<lambda>p. tx_return (i, p))) ids) (\<lambda>nodes.
     tx_bind (tx_each (with_node nodes) (plan_legs path from_id to_id siblings mode (fb_amount body))) (\<lambda>legs.
     tx_bind (tx_some (case legs of [] \<Rightarrow> None | l # _ \<Rightarrow> Some (snd (snd (snd l)))) (Raised LookupFailed)) (\<lambda>first.
     tx_bind (repo_entry org (\<lambda>e. le_key e = Some (key @ first))) (\<lambda>prior.
     tx_bind (if prior \<noteq> None then tx_return ()
              else tx_bind (check_eligible org body siblings path nodes giving receiving legs) (\<lambda>_.
                   tx_bind (tx_each (read_available org) ids) (\<lambda>avs.
                   check_running org (fb_currency body) legs
                     (\<lambda>i. case map_of avs i of None \<Rightarrow> 0 | Some a \<Rightarrow> a)))) (\<lambda>_.
     tx_bind (post_legs (post_entry org) org body actor key None ''transfer'' None legs) (\<lambda>(gid, es).
     tx_bind (if prior \<noteq> None then tx_return ()
              else tx_bind (audit_write org (user_actor actor) ''budget.transfer'' ''transfer''
                     (Some gid) (Some (p_bu giving)) Success None) (\<lambda>_. tx_return ())) (\<lambda>_.
     tx_return (gid, es)))))))))))))))"

section \<open>Allocations and adjustments\<close>

definition manual_posting :: "uuid \<Rightarrow> project_row \<Rightarrow> funding_body \<Rightarrow> uuid \<Rightarrow> string \<Rightarrow> ledger_type \<Rightarrow> posting" where
  "manual_posting pid p body actor key ty =
     \<lparr>po_project = pid, po_type = ty, po_bucket = None, po_amount = fb_amount body,
      po_currency = fb_currency body, po_source_type = ''manual'', po_source_id = None,
      po_effective = fb_effective body, po_group = None, po_reverses = None, po_releases = None,
      po_converts = None, po_reason = Some (fb_reason body), po_department = p_department p,
      po_account = p_account p, po_actor = actor, po_key = key,
      po_allow_negative = None, po_skip_period = False\<rparr>"

definition manual_entry ::
  "uuid \<Rightarrow> uuid \<Rightarrow> funding_body \<Rightarrow> uuid \<Rightarrow> string \<Rightarrow> ledger_type \<Rightarrow> (db, ledger_entry list \<times> balance_row) tx" where
  "manual_entry org pid body actor key ty =
     tx_bind (get_project org pid) (\<lambda>p.
     tx_bind (repo_entry org (\<lambda>e. le_key e = Some key)) (\<lambda>prior.
     tx_bind (if prior = None
              then tx_bind (setting_true org (p_bu p) ''budget.evidence_required'') (\<lambda>v.
                   tx_require (\<not> (v \<and> fb_evidence body = None)) invalid_entry)
              else tx_return ()) (\<lambda>_.
     tx_bind (post_entry org (manual_posting pid p body actor key ty)) (\<lambda>e.
     tx_bind (keep_evidence org (prior \<noteq> None) (fb_evidence body) e) (\<lambda>_.
     tx_bind (get_balance org pid) (\<lambda>b.
     tx_return ([e], b)))))))"

definition lock_balance :: "uuid \<Rightarrow> uuid \<Rightarrow> (db, balance_row) tx" where
  "lock_balance org pid = tx_bind (repo_balance org pid) (\<lambda>b. tx_some b not_found)"

definition allocate_funds ::
  "uuid \<Rightarrow> uuid \<Rightarrow> funding_body \<Rightarrow> uuid \<Rightarrow> string \<Rightarrow> (uuid \<Rightarrow> bool) option \<Rightarrow>
   (db, ledger_entry list \<times> balance_row) tx" where
  "allocate_funds org pid body actor key permitted_at =
     tx_bind (get_project org pid) (\<lambda>p.
     tx_bind (mode_for org pid) (\<lambda>mode.
     case plan_allocation p mode of
       Direct \<Rightarrow> manual_entry org pid body actor key Allocation
     | FromParent parent_id \<Rightarrow>
         tx_bind (tx_require (case permitted_at of None \<Rightarrow> False | Some f \<Rightarrow> f parent_id)
                    (Problem Forbidden None)) (\<lambda>_.
         tx_bind (tx_each (lock_balance org) (sort [parent_id, pid])) (\<lambda>_.
         tx_bind (get_project org parent_id) (\<lambda>parent.
         tx_bind (get_project org pid) (\<lambda>p.
         tx_bind (repo_entry org (\<lambda>e. le_key e = Some (key @ '':out''))) (\<lambda>prior.
         tx_bind (if prior \<noteq> None then tx_return ()
                  else tx_bind (tx_require (p_currency parent = p_currency p) (conflict ''currency_mismatch'')) (\<lambda>_.
                       require_evidence org (fb_evidence body) [p_bu parent, p_bu p])) (\<lambda>_.
         tx_bind (post_legs (post_entry org) org body actor key (Some False) ''transfer'' None
                    [(parent_id, parent, dec_neg (fb_amount body), '':out''), (pid, p, fb_amount body, '':in'')]) (\<lambda>(_, es).
         tx_bind (get_balance org pid) (\<lambda>b.
         tx_return (es, b)))))))))))"

definition adjust ::
  "uuid \<Rightarrow> uuid \<Rightarrow> funding_body \<Rightarrow> uuid \<Rightarrow> string \<Rightarrow> (db, ledger_entry list \<times> balance_row) tx" where
  "adjust org pid body actor key = manual_entry org pid body actor key Adjustment"

section \<open>Reads by other modules\<close>

definition entry_by_idempotency_key :: "uuid \<Rightarrow> string \<Rightarrow> (db, ledger_entry option) tx" where
  "entry_by_idempotency_key org key =
     tx_read (\<lambda>s. case find_entry org (\<lambda>e. le_key e = Some key) (entries s) of
        Some e \<Rightarrow> Some e
      | None \<Rightarrow> find_entry org (\<lambda>e. le_key e = Some (key @ '':in'')) (entries s))"

text \<open>Oldest first: by posting time, then by id.\<close>

definition entries_for_source :: "uuid \<Rightarrow> string \<Rightarrow> uuid \<Rightarrow> (db, ledger_entry list) tx" where
  "entries_for_source org source_type source_id =
     tx_read (\<lambda>s. sort_key le_posted_at (sort_key le_id
       (filter (\<lambda>e. le_org e = org \<and> le_source_type e = source_type \<and> le_source_id e = Some source_id) (entries s))))"

definition reservation_remaining :: "uuid \<Rightarrow> nat \<Rightarrow> (db, uuid \<times> rat \<times> rat \<times> string) tx" where
  "reservation_remaining org i =
     tx_bind (tx_read (\<lambda>s. map_option (\<lambda>e. (le_project e, le_amount e, view_remaining (entries s) e, le_currency e))
        (find_entry org (\<lambda>e. le_type e = Reservation \<and> le_id e = i) (entries s)))) (\<lambda>row.
     tx_some row not_found)"

end
