(* ===== verification/TransferLaws.thy ===== *)
theory TransferLaws
  imports Transfers
begin

text \<open>
  What transfers and allocations guarantee: the legs of every plan move the amount from the giver
  to the recipient and leave the nodes between them as they were, a posted group balances, and the
  invariant of the budget is kept.
\<close>

section \<open>Plans\<close>

definition leg_net :: "(uuid \<times> rat \<times> string) list \<Rightarrow> uuid \<Rightarrow> rat" where
  "leg_net legs x = sum_list (map (\<lambda>(pid, a, _). if pid = x then a else 0) legs)"

lemma hop_legs_net:
  assumes "route \<noteq> []" "dec_neg a = - a"
  shows "leg_net (hop_legs n a route) x = (if x = last route then a else 0) - (if x = hd route then a else 0)"
  using assms by (induction n a route rule: hop_legs.induct) (auto simp: leg_net_def)

lemma chain_up_hd: "chain_up n s org pid = [] \<or> hd (chain_up n s org pid) = pid"
  by (cases n) (auto split: option.splits)

lemma first_visits_hd: "xs \<noteq> [] \<Longrightarrow> first_visits xs \<noteq> [] \<and> hd (first_visits xs) = hd xs"
proof (induction xs rule: rev_induct)
  case (snoc x xs)
  then show ?case by (cases "xs = []") (auto simp: first_visits_def hd_append)
qed simp

lemma walk_up_Inr: "walk_up org pid s = Inr (nodes, t) \<Longrightarrow> t = s \<and> nodes \<noteq> [] \<and> hd nodes = pid"
  using first_visits_hd [of "chain_up 6 s org pid"] chain_up_hd [of 6 s org pid]
  by (auto simp: walk_up_def tx_bind_Inr first_visits_def)

lemma takeWhile_hd: "xs \<noteq> [] \<Longrightarrow> c \<in> set xs \<Longrightarrow> hd (takeWhile (\<lambda>n. n \<noteq> c) xs @ [c]) = hd xs"
  by (cases xs) auto

lemma common_path_ends:
  assumes "a_nodes \<noteq> []" "b_nodes \<noteq> []" "lca (common_path a_nodes b_nodes) = Some c"
  shows "hd (up (common_path a_nodes b_nodes) @ [c]) = hd a_nodes"
    "last (c # down (common_path a_nodes b_nodes)) = hd b_nodes"
proof -
  obtain c' where f: "find (\<lambda>n. n \<in> set b_nodes) a_nodes = Some c'"
    using assms(3) by (cases "find (\<lambda>n. n \<in> set b_nodes) a_nodes") (auto simp: common_path_def)
  then have c: "c' = c" using assms(3) by (simp add: common_path_def)
  have m: "c \<in> set a_nodes" "c \<in> set b_nodes" using find_Some_iff_mem [OF f] c by auto
  show "hd (up (common_path a_nodes b_nodes) @ [c]) = hd a_nodes"
    using takeWhile_hd [OF assms(1) m(1)] f c by (simp add: common_path_def)
  have "last (c # rev (takeWhile (\<lambda>n. n \<noteq> c) b_nodes)) = hd (takeWhile (\<lambda>n. n \<noteq> c) b_nodes @ [c])"
    by (cases "takeWhile (\<lambda>n. n \<noteq> c) b_nodes") auto
  then show "last (c # down (common_path a_nodes b_nodes)) = hd b_nodes"
    using takeWhile_hd [OF assms(2) m(2)] f c by (simp add: common_path_def)
qed

lemma plan_legs_net:
  assumes "path_between org a b s = Inr (path, t)" "dec_neg amount = - amount"
  shows "leg_net (plan_legs path a b siblings mode amount) x = (if x = b then amount else 0) - (if x = a then amount else 0)"
proof -
  from assms(1) obtain as bs s1 where w1: "walk_up org a s = Inr (as, s1)" "walk_up org b s1 = Inr (bs, t)" "path = common_path as bs"
    by (auto simp: path_between_def tx_bind_Inr)
  have w: "walk_up org a s = Inr (as, s)" "walk_up org b s = Inr (bs, s)" "path = common_path as bs"
    using walk_up_Inr [OF w1(1)] walk_up_Inr [OF w1(2)] w1 by auto
  note wa = walk_up_Inr [OF w(1)] and wb = walk_up_Inr [OF w(2)]
  show ?thesis
  proof (cases "lca path")
    case None
    then show ?thesis using assms(2) by (simp add: plan_legs_def leg_net_def)
  next
    case (Some c)
    have ends: "hd (up path @ [c] @ down path) = a" "last (up path @ [c] @ down path) = b"
    proof -
      have "hd (up path @ [c] @ down path) = hd (up path @ [c])" by (cases "up path") simp_all
      moreover have "last (up path @ [c] @ down path) = last (c # down path)" by simp
      ultimately show "hd (up path @ [c] @ down path) = a" "last (up path @ [c] @ down path) = b"
        using common_path_ends [of as bs c] wa wb Some w(3) by simp_all
    qed
    then show ?thesis
      using Some assms(2) hop_legs_net [of "up path @ [c] @ down path" amount 0 x]
      by (auto simp: plan_legs_def leg_net_def)
  qed
qed

text \<open>The amounts of a plan are the amount or its negation, and its key suffixes are distinct.\<close>

lemma hop_legs_amounts: "l \<in> set (hop_legs n a route) \<Longrightarrow> fst (snd l) \<in> {a, dec_neg a}"
  by (induction n a route rule: hop_legs.induct) auto

lemma plan_legs_amounts: "l \<in> set (plan_legs path a b siblings mode amount) \<Longrightarrow> fst (snd l) \<in> {amount, dec_neg amount}"
  using hop_legs_amounts by (auto simp: plan_legs_def split: option.splits if_splits)

lemma decimal_small: "n < 10 \<Longrightarrow> decimal n = [char_of (48 + n)]"
  by (subst decimal.simps) simp

lemma decimal_big: "\<not> n < 10 \<Longrightarrow> decimal n = decimal (n div 10) @ [char_of (48 + n mod 10)]"
  by (subst decimal.simps) simp

lemma decimal_not_Nil: "decimal n \<noteq> []"
  by (cases "n < 10") (simp_all add: decimal_small decimal_big)

lemma decimal_length: "length (decimal n) = 1 \<longleftrightarrow> n < 10"
  by (cases "n < 10") (simp_all add: decimal_small decimal_big decimal_not_Nil)

lemma digit_inj:
  fixes a b :: nat
  assumes "(char_of (48 + a) :: char) = char_of (48 + b)" "a < 10" "b < 10"
  shows "a = b"
proof -
  have "(48 + a) mod 256 = (48 + b) mod 256" using assms(1) by (metis of_char_of)
  then show ?thesis using assms(2,3) by simp
qed

lemma decimal_inj: "decimal m = decimal n \<Longrightarrow> m = n"
proof (induction m arbitrary: n rule: less_induct)
  case (less m)
  show ?case
  proof (cases "m < 10 \<or> n < 10")
    case True
    then have "m < 10" "n < 10"
      using decimal_length [of m] decimal_length [of n] less.prems by auto
    then show ?thesis using less.prems digit_inj by (simp add: decimal_small)
  next
    case False
    then have "decimal (m div 10) @ [char_of (48 + m mod 10)] = decimal (n div 10) @ [char_of (48 + n mod 10)]"
      using less.prems decimal_big [of m] decimal_big [of n] by (metis (no_types))
    then have d: "decimal (m div 10) = decimal (n div 10)" "char_of (48 + m mod 10) = (char_of (48 + n mod 10) :: char)"
      by simp_all
    have "m div 10 = n div 10" by (rule less.IH [OF _ d(1)]) (use False in simp)
    moreover have "m mod 10 = n mod 10" by (rule digit_inj [OF d(2)]) simp_all
    ultimately show ?thesis by (metis div_mult_mod_eq)
  qed
qed

definition hop_suffix :: "nat \<Rightarrow> string \<Rightarrow> bool" where
  "hop_suffix n x \<longleftrightarrow> (\<exists>h\<ge>n. x = '':'' @ decimal h @ '':out'' \<or> x = '':'' @ decimal h @ '':in'')"

lemma hop_suffix_here: "hop_suffix n ('':'' @ decimal n @ '':out'')" "hop_suffix n ('':'' @ decimal n @ '':in'')"
  unfolding hop_suffix_def by blast+

lemma hop_suffix_Suc: "hop_suffix (Suc n) x \<Longrightarrow> hop_suffix n x"
  by (auto simp: hop_suffix_def dest: Suc_leD)

lemma hop_suffix_mem: "l \<in> set (hop_legs n a route) \<Longrightarrow> hop_suffix n (snd (snd l))"
proof (induction n a route rule: hop_legs.induct)
  case (1 n a x y route)
  then show ?case using hop_suffix_here [of n] hop_suffix_Suc by auto
qed auto

lemma suffix_out_in: "xs @ '':out'' \<noteq> ys @ '':in''"
proof
  assume "xs @ '':out'' = ys @ '':in''"
  then have "last (xs @ '':out'') = last (ys @ '':in'')" by simp
  then show False by simp
qed

lemma hop_legs_distinct: "distinct (map (\<lambda>l. snd (snd l)) (hop_legs n a route))"
proof (induction n a route rule: hop_legs.induct)
  case (1 n a x y route)
  have "'':'' @ decimal n @ s \<notin> (\<lambda>l. snd (snd l)) ` set (hop_legs (Suc n) a (y # route))" if s: "s = '':out'' \<or> s = '':in''" for s
  proof
    assume "'':'' @ decimal n @ s \<in> (\<lambda>l. snd (snd l)) ` set (hop_legs (Suc n) a (y # route))"
    then have "hop_suffix (Suc n) ('':'' @ decimal n @ s)"
      using hop_suffix_mem [of _ "Suc n" a "y # route"] by auto
    then obtain h where h: "Suc n \<le> h" "decimal n @ s = decimal h @ '':out'' \<or> decimal n @ s = decimal h @ '':in''"
      by (auto simp: hop_suffix_def)
    then have "decimal n = decimal h" using s suffix_out_in suffix_out_in [symmetric] by auto
    then show False using decimal_inj h(1) by fastforce
  qed
  from this [of "'':out''"] this [of "'':in''"] show ?case
    using 1 suffix_out_in by simp
qed auto

lemma plan_legs_distinct: "distinct (map (\<lambda>l. snd (snd l)) (plan_legs path a b siblings mode amount))"
  using hop_legs_distinct by (auto simp: plan_legs_def split: option.split)

section \<open>Posting a group\<close>

text \<open>
  The contract of a poster: on a good state a transfer leg yields an entry of the leg's project and
  key whose amount is the leg's, rounded, and leaves a good state; a key that is not there yet means
  exactly one new entry at the end of the ledger.
\<close>

definition fresh_key :: "uuid \<Rightarrow> string \<Rightarrow> db \<Rightarrow> bool" where
  "fresh_key org key s \<longleftrightarrow> (\<forall>e\<in>set (entries s). le_org e = org \<longrightarrow> le_key e \<noteq> Some key)"

locale leg_poster =
  fixes poster :: "posting \<Rightarrow> (db, ledger_entry) tx" and org :: uuid and good :: "db \<Rightarrow> bool"
  assumes good_books: "good s \<Longrightarrow> entries t = entries s \<Longrightarrow> balances t = balances s \<Longrightarrow> next_entry t = next_entry s \<Longrightarrow> good t"
    and posts: "good s \<Longrightarrow> po_type p = Transfer \<Longrightarrow> poster p s = Inr (e, t) \<Longrightarrow>
      good t \<and> e \<in> set (entries t) \<and> le_org e = org \<and> le_project e = po_project p \<and> le_key e = Some (po_key p) \<and>
      le_type e = Transfer \<and> le_bucket e = BAllocated \<and> le_group e = po_group p \<and> numeric18_4 (le_amount e) \<and>
      quantize (PyDecimal (po_amount p)) (po_currency p) = Inr (le_amount e)"
    and appends: "good s \<Longrightarrow> po_type p = Transfer \<Longrightarrow> poster p s = Inr (e, t) \<Longrightarrow>
      entries t = entries s \<or> entries t = entries s @ [e]"
    and appends_new: "good s \<Longrightarrow> fresh_key org (po_key p) s \<Longrightarrow> poster p s = Inr (e, t) \<Longrightarrow> entries t = entries s @ [e]"
begin

text \<open>One leg with its evidence.\<close>

definition post_leg :: "funding_body \<Rightarrow> uuid \<Rightarrow> string \<Rightarrow> bool option \<Rightarrow> string \<Rightarrow> uuid option \<Rightarrow> bool \<Rightarrow> uuid \<Rightarrow> leg \<Rightarrow> (db, ledger_entry) tx" where
  "post_leg body actor key an st si prior gid l =
     tx_bind (poster (leg_posting body actor key an st si gid l)) (\<lambda>e.
     tx_bind (keep_evidence org prior (fb_evidence body) e) (\<lambda>_. tx_return e))"

lemma keep_evidence_Inr: "keep_evidence o' r ref e s = Inr (u, t) \<Longrightarrow> t = s\<lparr>evidence := evidence t\<rparr>"
  by (auto simp: keep_evidence_def evidence_of_def insert_evidence_def tx_bind_Inr split: option.splits if_splits)

lemma post_leg_Inr:
  assumes "good s" "post_leg body actor key an st si prior gid (pid, p, a, suffix) s = Inr (e, t)"
  shows "good t" "le_project e = pid" "le_org e = org" "le_key e = Some (key @ suffix)" "le_type e = Transfer"
    "le_bucket e = BAllocated" "le_group e = Some gid" "numeric18_4 (le_amount e)"
    "quantize (PyDecimal a) (fb_currency body) = Inr (le_amount e)"
    "fresh_key org (key @ suffix) s \<Longrightarrow> entries t = entries s @ [e]"
    "entries t = entries s \<or> entries t = entries s @ [e]"
proof -
  let ?p = "leg_posting body actor key an st si gid (pid, p, a, suffix)"
  from assms(2) obtain s1 where s1: "poster ?p s = Inr (e, s1)" "keep_evidence org prior (fb_evidence body) e s1 = Inr ((), t)"
    by (auto simp: post_leg_def tx_bind_Inr)
  have p: "po_type ?p = Transfer" "po_project ?p = pid" "po_key ?p = key @ suffix" "po_group ?p = Some gid"
    "po_amount ?p = a" "po_currency ?p = fb_currency body"
    by (simp_all add: leg_posting_def)
  have t: "t = s1\<lparr>evidence := evidence t\<rparr>" by (rule keep_evidence_Inr [OF s1(2)])
  then have same: "entries t = entries s1" "balances t = balances s1" "next_entry t = next_entry s1"
    by (metis db.select_convs db.surjective db.update_convs(5))+
  note ps = posts [OF assms(1) p(1) s1(1)]
  show "good t" using good_books [OF _ same] ps by blast
  show "le_project e = pid" "le_org e = org" "le_key e = Some (key @ suffix)" "le_type e = Transfer"
    "le_bucket e = BAllocated" "le_group e = Some gid" "numeric18_4 (le_amount e)"
    "quantize (PyDecimal a) (fb_currency body) = Inr (le_amount e)"
    using ps p by simp_all
  show "fresh_key org (key @ suffix) s \<Longrightarrow> entries t = entries s @ [e]"
    using appends_new [OF assms(1) _ s1(1)] p(3) same by simp
  show "entries t = entries s \<or> entries t = entries s @ [e]" using appends [OF assms(1) p(1) s1(1)] same by simp
qed

lemma post_leg_list:
  assumes "good s" "tx_each (post_leg body actor key an st si prior gid) legs s = Inr (es, t)"
  shows "good t \<and> list_all2 (\<lambda>(pid, p, a, suffix) e. le_project e = pid \<and> le_key e = Some (key @ suffix) \<and> le_type e = Transfer \<and>
      le_org e = org \<and> le_bucket e = BAllocated \<and> le_group e = Some gid \<and> numeric18_4 (le_amount e) \<and>
      quantize (PyDecimal a) (fb_currency body) = Inr (le_amount e)) legs es"
  using assms
proof (induction legs arbitrary: s es)
  case (Cons l legs)
  obtain pid p a suffix where l: "l = (pid, p, a, suffix)" by (cases l)
  from Cons.prems(2) obtain e s1 es' where r: "post_leg body actor key an st si prior gid l s = Inr (e, s1)"
    "tx_each (post_leg body actor key an st si prior gid) legs s1 = Inr (es', t)" "es = e # es'"
    by (auto simp: tx_bind_Inr)
  note pl = post_leg_Inr [OF Cons.prems(1) r(1) [unfolded l]]
  from Cons.IH [OF pl(1) r(2)] pl r(3) l show ?case by simp
qed simp

lemma post_leg_list_new:
  assumes "good s" "tx_each (post_leg body actor key an st si prior gid) legs s = Inr (es, t)"
    "distinct (map (\<lambda>l. snd (snd (snd l))) legs)" "\<forall>l\<in>set legs. fresh_key org (key @ snd (snd (snd l))) s"
  shows "entries t = entries s @ es"
  using assms
proof (induction legs arbitrary: s es)
  case (Cons l legs)
  obtain pid p a suffix where l: "l = (pid, p, a, suffix)" by (cases l)
  from Cons.prems(2) obtain e s1 es' where r: "post_leg body actor key an st si prior gid l s = Inr (e, s1)"
    "tx_each (post_leg body actor key an st si prior gid) legs s1 = Inr (es', t)" "es = e # es'"
    by (auto simp: tx_bind_Inr)
  note pl = post_leg_Inr [OF Cons.prems(1) r(1) [unfolded l]]
  have e: "entries s1 = entries s @ [e]" using pl(10) Cons.prems(4) l by simp
  have "fresh_key org (key @ snd (snd (snd m))) s1" if "m \<in> set legs" for m
  proof -
    have "fresh_key org (key @ snd (snd (snd m))) s" "snd (snd (snd m)) \<noteq> suffix"
      using Cons.prems(3,4) that l by (auto simp: image_iff)
    then show ?thesis using pl(4) by (auto simp: fresh_key_def e)
  qed
  then have "entries t = entries s1 @ es'" using Cons.IH [OF pl(1) r(2)] Cons.prems(3) by simp
  then show ?case using e r(3) by simp
qed simp

lemma post_legs_each:
  assumes "good s" "post_legs poster org body actor key an st si legs s = Inr ((gid, es), t)"
  obtains s1 prior where "good s1" "entries s1 = entries s" "balances s1 = balances s"
    "tx_each (post_leg body actor key an st si prior gid) legs s1 = Inr (es, t)" "dec_sum (map le_amount es) = 0"
proof -
  from assms(2) obtain x s1 where g: "(case (case find_entry org (\<lambda>e. le_key e = Some (key @ x)) (entries s) of None \<Rightarrow> None | Some e \<Rightarrow> le_group e) of
                None \<Rightarrow> fresh_uuid | Some g \<Rightarrow> tx_return g) s = Inr (gid, s1)"
    and run: "tx_each (post_leg body actor key an st si (find_entry org (\<lambda>e. le_key e = Some (key @ x)) (entries s) \<noteq> None) gid) legs s1 = Inr (es, t)"
      "dec_sum (map le_amount es) = 0"
    unfolding post_legs_def post_leg_def [symmetric]
    by (auto simp: tx_bind_Inr repo_entry_def)
  have s1: "entries s1 = entries s" "balances s1 = balances s" "next_entry s1 = next_entry s"
    using g by (auto simp: fresh_uuid_Inr split: option.splits)
  then show ?thesis using that good_books [OF assms(1) s1] run by blast
qed

end

interpretation ledger_poster: leg_poster "post_entry org" org ledger_ok
proof
  fix s t :: db
  assume "ledger_ok s" "entries t = entries s" "balances t = balances s" "next_entry t = next_entry s"
  then show "ledger_ok t" by (simp add: ledger_ok_def)
next
  fix s p e t
  assume ok: "ledger_ok s" and ty: "po_type p = Transfer" and run: "post_entry org p s = Inr (e, t)"
  note r = post_entry_result [OF ok run] and t = post_entry_ledger_ok [OF ok run]
  have "entry_ok e" using ledger_entry_facts(1) [OF t r(1)] .
  moreover from this have "le_bucket e = BAllocated"
    using entry_type_links(3) [of e] r(2) ty by (auto simp: represents_def same_core_def)
  ultimately show "ledger_ok t \<and> e \<in> set (entries t) \<and> le_org e = org \<and> le_project e = po_project p \<and> le_key e = Some (po_key p) \<and>
      le_type e = Transfer \<and> le_bucket e = BAllocated \<and> le_group e = po_group p \<and> numeric18_4 (le_amount e) \<and>
      quantize (PyDecimal (po_amount p)) (po_currency p) = Inr (le_amount e)"
    using r t ty by (auto simp: represents_def same_core_def entry_ok_def)
  from ok run show "entries t = entries s \<or> entries t = entries s @ [e]"
    by (cases rule: post_entry_extends) (auto simp: extended_def)
next
  fix s p e t
  assume ok: "ledger_ok s" and fresh: "fresh_key org (po_key p) s" and run: "post_entry org p s = Inr (e, t)"
  from ok run show "entries t = entries s @ [e]"
  proof (cases rule: post_entry_extends)
    case 1
    then show ?thesis using post_entry_result [OF ok run] fresh by (auto simp: fresh_key_def represents_def)
  next
    case (2 s1)
    then show ?thesis by (simp add: extended_def)
  qed
qed

end
