(* ===== verification/FundingLaws.thy ===== *)
theory FundingLaws
  imports TransferLaws
begin

text \<open>
  The funding commands on the whole state: they keep the budget's invariant, and a transfer moves
  its rounded amount from the giver to the recipient, whatever the route between them.
\<close>

section \<open>The invariant is kept\<close>

text \<open>Work that writes neither the ledger nor the balance rows.\<close>

definition same_ledger :: "db \<Rightarrow> db \<Rightarrow> bool" where
  "same_ledger s t \<longleftrightarrow> entries t = entries s \<and> balances t = balances s \<and> next_entry t = next_entry s"

interpretation ledgers: tx_preorder same_ledger
  by unfold_locales (auto simp: same_ledger_def)

lemma same_ledger_budget_ok: "same_ledger s t \<Longrightarrow> budget_ok t = budget_ok s"
  using ledger_ok_cong [of t s] by (simp add: same_ledger_def budget_ok_def)

lemma same_ledger_kept: "tx_rel same_ledger m \<Longrightarrow> tx_rel (keeps budget_ok) m"
  using same_ledger_budget_ok unfolding tx_rel_def keeps_def by blast

lemma read_only_ledger: "(\<And>s x t. m s = Inr (x, t) \<Longrightarrow> t = s) \<Longrightarrow> tx_rel same_ledger m"
  by (auto simp: tx_rel_def same_ledger_def)

lemma reads_ledger:
  "tx_rel same_ledger (repo_entry org Q)" "tx_rel same_ledger (repo_balance org pid)"
  "tx_rel same_ledger (mode_for org pid)" "tx_rel same_ledger (effective_setting org u key)"
  "tx_rel same_ledger fresh_uuid" "tx_rel same_ledger (keep_evidence org prior ref e)"
  "tx_rel same_ledger (audit_write org actor action tt target bu out reason)"
proof -
  show "tx_rel same_ledger (repo_entry org Q)" by (rule read_only_ledger) (simp add: repo_entry_def)
  show "tx_rel same_ledger (repo_balance org pid)" by (rule read_only_ledger) (simp add: repo_balance_def)
  show "tx_rel same_ledger (mode_for org pid)"
    by (rule read_only_ledger) (auto simp: mode_for_def split: option.splits if_splits)
  show "tx_rel same_ledger (effective_setting org u key)"
    by (rule read_only_ledger) (auto simp: effective_setting_def split: option.splits sum.splits if_splits)
  show "tx_rel same_ledger fresh_uuid" by (auto simp: tx_rel_def fresh_uuid_Inr same_ledger_def)
  show "tx_rel same_ledger (keep_evidence org prior ref e)"
    by (auto simp: tx_rel_def same_ledger_def keep_evidence_def evidence_of_def insert_evidence_def tx_bind_Inr
        split: option.splits if_splits)
  show "tx_rel same_ledger (audit_write org actor action tt target bu out reason)"
    by (auto simp: tx_rel_def same_ledger_def audit_write_Inr)
qed

lemma get_project_ledger: "tx_rel same_ledger (get_project org pid)"
  unfolding get_project_def by (intro ledgers.tx_ok)

lemma setting_true_ledger: "tx_rel same_ledger (setting_true org u key)"
  unfolding setting_true_def by (intro ledgers.tx_ok reads_ledger)

lemma any_setting_ledger: "tx_rel same_ledger (any_setting org key us)"
  by (induction us) (auto intro!: ledgers.bind_ok ledgers.return_ok setting_true_ledger)

lemma require_evidence_ledger: "tx_rel same_ledger (require_evidence org ref us)"
  unfolding require_evidence_def by (auto intro!: ledgers.tx_ok any_setting_ledger)

lemma check_running_ledger: "tx_rel same_ledger (check_running org c legs running)"
proof (induction legs arbitrary: running)
  case (Cons l legs)
  then show ?case by (cases l) (auto simp: Let_def intro!: ledgers.tx_ok setting_true_ledger)
qed (simp add: ledgers.return_ok)

lemma path_between_ledger: "tx_rel same_ledger (path_between org a b)"
  unfolding path_between_def walk_up_def by (intro ledgers.tx_ok)

lemma check_eligible_ledger: "tx_rel same_ledger (check_eligible org body sib path nodes g r legs)"
  unfolding check_eligible_def by (intro ledgers.tx_ok require_evidence_ledger)

lemma read_available_ledger: "tx_rel same_ledger (read_available org pid)"
  unfolding read_available_def by (intro ledgers.tx_ok reads_ledger)

lemma get_balance_ledger: "tx_rel same_ledger (get_balance org pid)"
  unfolding get_balance_def by (intro ledgers.tx_ok reads_ledger)

lemmas ledger_reads = reads_ledger get_project_ledger setting_true_ledger any_setting_ledger require_evidence_ledger
  check_running_ledger path_between_ledger check_eligible_ledger read_available_ledger get_balance_ledger
lemmas budget_reads = ledger_reads [THEN same_ledger_kept]

lemma leg_kept: "tx_rel (keeps budget_ok) (post_entry org (leg_posting body actor key an st si gid l))"
  by (rule post_plain_kept) (simp_all add: leg_posting_def split: prod.splits)

lemma post_legs_kept: "tx_rel (keeps budget_ok) (post_legs (post_entry org) org body actor key an st si legs)"
  unfolding post_legs_def
  by (intro budget.tx_ok budget_reads leg_kept tx_branches)

lemma manual_entry_kept:
  assumes "ty \<noteq> Release" "ty \<noteq> Reversal"
  shows "tx_rel (keeps budget_ok) (manual_entry org pid body actor key ty)"
proof -
  have "tx_rel (keeps budget_ok) (post_entry org (manual_posting pid p body actor key ty))" for p
    by (rule post_plain_kept) (use assms in \<open>simp_all add: manual_posting_def\<close>)
  then show ?thesis
    unfolding manual_entry_def
    by (intro budget.bind_ok budget_reads) (auto intro!: budget.tx_ok budget_reads)
qed

lemma transfer_kept: "tx_rel (keeps budget_ok) (transfer org a b body actor key)"
  unfolding transfer_def Let_def with_node_def
  by (intro budget.tx_ok budget_reads post_legs_kept tx_branches)

lemma tx_rel_plan:
  "tx_rel R m \<Longrightarrow> (\<And>q. tx_rel R (f q)) \<Longrightarrow> tx_rel R (case pl of Direct \<Rightarrow> m | FromParent q \<Rightarrow> f q)"
  by (cases pl) simp_all

lemma allocate_funds_kept: "tx_rel (keeps budget_ok) (allocate_funds org pid body actor key permitted_at)"
  unfolding allocate_funds_def lock_balance_def
  by (intro budget.tx_ok budget_reads post_legs_kept tx_branches tx_rel_plan manual_entry_kept) simp_all

lemma adjust_kept: "tx_rel (keeps budget_ok) (adjust org pid body actor key)"
  unfolding adjust_def by (rule manual_entry_kept) simp_all

section \<open>What a transfer moves\<close>

lemma quantize_opposite: "quantize (PyDecimal (- x)) c = map_sum id uminus (quantize (PyDecimal x) c)"
proof (cases "currency_exponent c")
  case (Inr e)
  have "dec_quantize round_half_up (- x) e = map_sum id uminus (dec_quantize round_half_up x e)"
    using round_half_up_neg [of "x * 10 ^ e"] by (simp add: dec_quantize_def Let_def)
  then show ?thesis using Inr by (simp add: quantize_def)
qed (simp add: quantize_def)

text \<open>The amounts of a group, leg by leg: each is the plan's amount, rounded.\<close>

lemma legs_net:
  assumes "list_all2 (\<lambda>(pid, p, a, suffix) e. le_project e = pid \<and> quantize (PyDecimal a) c = Inr (le_amount e)) legs es"
    and "\<forall>l\<in>set legs. fst (snd (snd l)) \<in> {amount, - amount}" and "amount \<noteq> 0"
    and "legs \<noteq> [] \<Longrightarrow> quantize (PyDecimal amount) c = Inr q"
  shows "sum_list (map (\<lambda>e. if le_project e = x then le_amount e else 0) es) =
    q / amount * leg_net (map (\<lambda>l. (fst l, snd (snd l))) legs) x"
  using assms
proof (induction legs es rule: list_all2_induct)
  case (Cons l legs e es)
  obtain pid p a suffix where l: "l = (pid, p, a, suffix)" by (cases l)
  have q: "quantize (PyDecimal amount) c = Inr q" using Cons.prems(3) by simp
  have e: "le_project e = pid" "quantize (PyDecimal a) c = Inr (le_amount e)" "a = amount \<or> a = - amount"
    using Cons.hyps(1) Cons.prems(1) l by auto
  then have "le_amount e = q / amount * a" using quantize_opposite [of amount c] q Cons.prems(2) by auto
  then show ?case using Cons.IH Cons.prems q e(1) l by (simp add: leg_net_def distrib_left)
qed (simp add: leg_net_def)

lemma bucket_total_append:
  "bucket_total (es @ fs) pid k = bucket_total es pid k + bucket_total fs pid k"
  by (simp add: bucket_total_def)

lemma bucket_total_uniform:
  assumes "\<forall>e\<in>set es. le_bucket e = j"
  shows "bucket_total es pid k = (if k = j then sum_list (map (\<lambda>e. if le_project e = pid then le_amount e else 0) es) else 0)"
  using assms by (induction es) (auto simp: bucket_total_def)

text \<open>A transfer that succeeds posts the legs of its plan on the state it started from.\<close>

lemma with_node_each:
  "tx_each (with_node nodes) plan s = Inr (legs, t) \<Longrightarrow> map (\<lambda>l. (fst l, snd (snd l))) legs = plan"
  by (induction plan arbitrary: s legs) (auto simp: with_node_def tx_bind_Inr)

lemma transfer_Inr:
  assumes "transfer org a b body actor key s = Inr ((gid, es), t)"
  obtains path legs s0 s1 mode sib where "a \<noteq> b" "path_between org a b s = Inr (path, s)"
    "map (\<lambda>l. (fst l, snd (snd l))) legs = plan_legs path a b sib mode (fb_amount body)" "legs \<noteq> []"
    "same_ledger s s0" "post_legs (post_entry org) org body actor key None ''transfer'' None legs s0 = Inr ((gid, es), s1)"
    "same_ledger s1 t"
  using assms unfolding transfer_def Let_def
proof (elim tx_bindE, goal_cases)
  case (1 u s1 giving s2 receiving s3 path s4 mode s5 locked s6 u2 s7 nodes s8 legs s9 first s10 prior s11 u3 s12 r s13)
  have start: "s4 = s" "path_between org a b s = Inr (path, s)"
    using 1(2-5) by (auto simp: get_project_def path_between_def walk_up_def tx_bind_Inr)
  have "same_ledger s4 s5" by (rule tx_relD [OF reads_ledger(3) 1(6)])
  moreover have "same_ledger s5 s7" using 1(7,8) by (simp add: ledgers.R_refl)
  moreover have "same_ledger s7 s8"
    using 1(9) by (rule tx_relD [rotated]) (intro ledgers.tx_ok get_project_ledger)
  moreover have "same_ledger s8 s9"
    using 1(10) by (rule tx_relD [rotated]) (unfold with_node_def, intro ledgers.tx_ok)
  moreover have "same_ledger s9 s11" using 1(11) tx_relD [OF reads_ledger(1) 1(12)] by simp
  moreover have "same_ledger s11 s12"
    using 1(13) by (rule tx_relD [rotated]) (intro ledgers.tx_ok ledger_reads tx_branches)
  ultimately have "same_ledger s s12" unfolding start(1) by (blast intro: ledgers.R_trans)
  moreover obtain g fs where r: "r = (g, fs)" by (cases r)
  have fin: "(if prior \<noteq> None then tx_return ()
       else tx_bind (audit_write org (user_actor actor) ''budget.transfer'' ''transfer''
                     (Some g) (Some (p_bu giving)) Success None) (\<lambda>_. tx_return ())) s13 = Inr ((), t)" "r = (gid, es)"
    using 1(15) by (auto simp: r tx_bind_Inr split: if_splits)
  have "same_ledger s13 t"
    using fin(1) by (rule tx_relD [rotated]) (intro ledgers.tx_ok ledger_reads tx_branches)
  moreover have "legs \<noteq> []" using 1(11) by auto
  ultimately show ?case
    using 1(1) [OF _ start(2) with_node_each [OF 1(10)], of s12 s13] 1(2,14) fin(2) by simp
qed

section \<open>The effect of a posted transfer\<close>

lemma posted_legs_net:
  assumes b: "budget_ok s" and run: "post_legs (post_entry org) org body actor key an st si legs s = Inr ((gid, es), t)"
    and plan: "\<forall>l\<in>set legs. fst (snd (snd l)) \<in> {amount, - amount}" "distinct (map (\<lambda>l. snd (snd (snd l))) legs)"
      "legs \<noteq> []" "amount \<noteq> 0"
    and fresh: "\<forall>x. fresh_key org (key @ x) s"
  obtains q where "entries t = entries s @ es" "quantize (PyDecimal amount) (fb_currency body) = Inr q"
    "\<forall>e\<in>set es. le_type e = Transfer \<and> le_group e = Some gid"
    "\<And>pid k. bucket_total (entries t) pid k = bucket_total (entries s) pid k +
       (if k = BAllocated then q / amount * leg_net (map (\<lambda>l. (fst l, snd (snd l))) legs) pid else 0)"
proof -
  have l: "ledger_ok s" using b by (simp add: budget_ok_def)
  from ledger_poster.post_legs_each [OF l run] obtain s1 prior where
    each: "ledger_ok s1" "entries s1 = entries s"
      "tx_each (ledger_poster.post_leg org body actor key an st si prior gid) legs s1 = Inr (es, t)" by metis
  have new: "entries t = entries s @ es"
    using ledger_poster.post_leg_list_new [OF each(1,3) plan(2)] fresh by (simp add: each(2) fresh_key_def)
  have legs: "list_all2 (\<lambda>(pid, p, a, suffix) e. le_project e = pid \<and> le_key e = Some (key @ suffix) \<and> le_type e = Transfer \<and>
      le_org e = org \<and> le_bucket e = BAllocated \<and> le_group e = Some gid \<and> numeric18_4 (le_amount e) \<and>
      quantize (PyDecimal a) (fb_currency body) = Inr (le_amount e)) legs es"
    using ledger_poster.post_leg_list [OF each(1,3)] by blast
  have kinds: "\<forall>e\<in>set es. le_type e = Transfer \<and> le_group e = Some gid \<and> le_bucket e = BAllocated"
    using legs by (auto simp: list_all2_conv_all_nth in_set_conv_nth split: prod.splits) (metis prod_cases4)+
  have amounts: "list_all2 (\<lambda>(pid, p, a, suffix) e. le_project e = pid \<and> quantize (PyDecimal a) (fb_currency body) = Inr (le_amount e)) legs es"
    by (rule list_all2_mono [OF legs]) auto
  obtain q where q: "quantize (PyDecimal amount) (fb_currency body) = Inr q"
    using amounts plan(1,3) quantize_opposite [of amount "fb_currency body"]
    by (cases "quantize (PyDecimal amount) (fb_currency body)") (cases legs; cases es; auto split: prod.splits)+
  show ?thesis
  proof (rule that [OF new q])
    show "\<forall>e\<in>set es. le_type e = Transfer \<and> le_group e = Some gid" using kinds by blast
    show "bucket_total (entries t) pid k = bucket_total (entries s) pid k +
       (if k = BAllocated then q / amount * leg_net (map (\<lambda>l. (fst l, snd (snd l))) legs) pid else 0)" for pid k
      using legs_net [OF amounts plan(1,4) q, of pid] bucket_total_uniform [of es BAllocated pid k] kinds
      by (simp add: new bucket_total_append)
  qed
qed

lemma planned_legs:
  assumes "map (\<lambda>l. (fst l, snd (snd l))) legs = plan_legs path a b sib mode amount"
  shows "\<forall>l\<in>set legs. fst (snd (snd l)) \<in> {amount, dec_neg amount}" "distinct (map (\<lambda>l. snd (snd (snd l))) legs)"
proof -
  have "(fst l, snd (snd l)) \<in> set (plan_legs path a b sib mode amount)" if "l \<in> set legs" for l
    using that by (auto simp flip: assms)
  then show "\<forall>l\<in>set legs. fst (snd (snd l)) \<in> {amount, dec_neg amount}" using plan_legs_amounts by fastforce
  have "map (\<lambda>l. snd (snd (snd l))) legs = map (\<lambda>l. snd (snd l)) (plan_legs path a b sib mode amount)"
    by (simp flip: assms)
  then show "distinct (map (\<lambda>l. snd (snd (snd l))) legs)" using plan_legs_distinct by metis
qed

lemma created_amount:
  assumes "allocation_create amount c d r ref = Inr body"
  shows "0 < amount" "dec_neg amount = - amount"
proof -
  have a: "0 < amount" "amount_field amount" using assms by (auto simp: allocation_create_def adjustment_create_def split: if_splits)
  then have "amount = of_int \<lfloor>amount * 10 ^ 4\<rfloor> / 10 ^ 4" by (simp add: amount_field_def)
  moreover have "\<lfloor>amount * 10 ^ 4\<rfloor> < 10 ^ 18"
  proof -
    have "amount * 10 ^ 4 < of_int (10 ^ 18)" using a by (simp add: amount_field_def)
    then show ?thesis by (simp add: floor_less_iff)
  qed
  ultimately have "numeric18_4 amount"
    unfolding numeric18_4_def using a(1) by (intro exI [of _ "\<lfloor>amount * 10 ^ 4\<rfloor>"]) simp
  then show "0 < amount" "dec_neg amount = - amount" using a(1) by (simp_all add: numeric18_4_repr28)
qed

end
