(* ===== verification/Numbering.thy ===== *)
theory Numbering
  imports TransferLaws "HOL-Library.Product_Lexorder"
begin

text \<open>
  \<open>flo/modules/org/numbering.py\<close>: versioned formats of document numbers and their counters.  An
  allocation commits on its own connection, so its counter survives the failure of the document.
\<close>

section \<open>Allocation\<close>

definition default_formats :: "(string \<times> string \<times> bool \<times> int) list" where
  "default_formats =
   [(''project'', ''PRJ'', True, 4), (''requisition'', ''REQ-'', False, 5), (''rfq'', ''RFQ'', False, 5),
    (''award'', ''AWD'', False, 5), (''po'', ''PO'', False, 5), (''asset'', ''AST'', False, 5)]"

text \<open>The scope's own formats before the organization's, the newest in effect of them.\<close>

definition pick_format :: "uuid \<Rightarrow> uuid \<Rightarrow> string \<Rightarrow> date \<Rightarrow> format_row list \<Rightarrow> format_row option" where
  "pick_format org scope ty on_date fs =
     (let ok = filter (\<lambda>f. nf_org f = org \<and> nf_scope f \<in> {scope, org} \<and> nf_type f = ty \<and> nf_from f \<le> on_date) fs;
          ordered = sort_key (\<lambda>f. (nf_scope f = scope, nf_from f)) ok
      in if ordered = [] then None else Some (last ordered))"

definition zfill :: "nat \<Rightarrow> string \<Rightarrow> string" where
  "zfill w x = replicate (w - length x) CHR ''0'' @ x"

definition render_number :: "string \<Rightarrow> bool \<Rightarrow> int \<Rightarrow> int \<Rightarrow> nat \<Rightarrow> string" where
  "render_number prefix include_year y width n =
     prefix @ (if include_year then ''-'' @ decimal (nat y) @ ''-'' else []) @ zfill (nat width) (decimal n)"

text \<open>The prefix, the year flag, the width and the scope of the counter.\<close>

definition number_format :: "uuid \<Rightarrow> uuid \<Rightarrow> string \<Rightarrow> date \<Rightarrow> db \<Rightarrow> (string \<times> bool \<times> int \<times> uuid) option" where
  "number_format org scope ty on_date s =
     (case pick_format org scope ty on_date (formats s) of
        Some f \<Rightarrow> Some (nf_prefix f, nf_year f, nf_width f, nf_scope f)
      | None \<Rightarrow> map_option (\<lambda>(prefix, include_year, width). (prefix, include_year, width, scope)) (map_of default_formats ty))"

definition allocate_number :: "uuid \<Rightarrow> uuid \<Rightarrow> string \<Rightarrow> date \<Rightarrow> (db, string) tx" where
  "allocate_number org scope ty on_date =
     tx_bind (tx_read (number_format org scope ty on_date)) (\<lambda>fmt.
     tx_bind (tx_some fmt (Raised LookupFailed)) (\<lambda>(prefix, include_year, width, counter_scope).
     let key = (org, counter_scope, ty, if include_year then year on_date else 0) in
     tx_bind (tx_read (\<lambda>s. case counters s key of None \<Rightarrow> 1 | Some n \<Rightarrow> Suc n)) (\<lambda>n.
     tx_bind (tx_update (\<lambda>s. s\<lparr>counters := (counters s)(key \<mapsto> n)\<rparr>)) (\<lambda>_.
     tx_return (render_number prefix include_year (year on_date) width n)))))"

definition add_format ::
  "uuid \<Rightarrow> uuid \<Rightarrow> string \<Rightarrow> string \<Rightarrow> bool \<Rightarrow> int \<Rightarrow> date \<Rightarrow> (db, uuid) tx" where
  "add_format org scope ty prefix include_year width effective_from =
     tx_bind (tx_require (1 \<le> width \<and> width \<le> 9) (Problem ValidationFailed None)) (\<lambda>_.
     tx_bind (tx_read (\<lambda>s. find_unit (units s) org scope)) (\<lambda>u.
     tx_bind (tx_require (scope = org \<or> u \<noteq> None) not_found) (\<lambda>_.
     tx_bind fresh_uuid (\<lambda>i.
     tx_bind (tx_require (ty \<in> set (map fst default_formats)) (Raised (CheckViolation ''numbering_format_doc_type_check''))) (\<lambda>_.
     tx_bind (tx_read (\<lambda>s. list_ex (\<lambda>f. nf_org f = org \<and> nf_scope f = scope \<and> nf_type f = ty \<and> nf_from f = effective_from) (formats s))) (\<lambda>dup.
     tx_bind (tx_require (\<not> dup) (Raised (UniqueViolation ''numbering_format_org_id_scope_id_doc_type_effective_from_key''))) (\<lambda>_.
     tx_bind (tx_update (\<lambda>s. s\<lparr>formats := formats s @ [\<lparr>nf_id = i, nf_org = org, nf_scope = scope, nf_type = ty,
       nf_prefix = prefix, nf_year = include_year, nf_width = width, nf_from = effective_from\<rparr>]\<rparr>)) (\<lambda>_.
     tx_return i))))))))"

section \<open>Numbers are never reused\<close>

definition digit_value :: "string \<Rightarrow> nat" where
  "digit_value xs = foldl (\<lambda>v c. 10 * v + (of_char c - 48)) 0 xs"

lemma digit_value_snoc [simp]: "digit_value (xs @ [c]) = 10 * digit_value xs + (of_char c - 48)"
  by (simp add: digit_value_def)

lemma digit_char [simp]: "n < 10 \<Longrightarrow> (of_char (char_of (48 + n) :: char) :: nat) - 48 = n"
  by simp

lemma digit_value_decimal [simp]: "digit_value (decimal n) = n"
proof (induction n rule: less_induct)
  case (less n)
  show ?case
  proof (cases "n < 10")
    case True
    then show ?thesis using digit_value_snoc [of "[]" "char_of (48 + n)"] by (simp add: decimal_small digit_value_def)
  next
    case False
    then have "digit_value (decimal (n div 10)) = n div 10" using less by simp
    then show ?thesis using False by (simp add: decimal_big del: of_char_of)
  qed
qed

lemma digit_value_zfill [simp]: "digit_value (zfill w x) = digit_value x"
proof -
  have "digit_value (replicate k CHR ''0'' @ x) = digit_value x" for k
    by (induction k) (simp_all add: digit_value_def)
  then show ?thesis by (simp add: zfill_def)
qed

lemma render_number_inj:
  "render_number prefix include_year y width m = render_number prefix include_year y width n \<longleftrightarrow> m = n"
proof
  assume "render_number prefix include_year y width m = render_number prefix include_year y width n"
  then have "zfill (nat width) (decimal m) = zfill (nat width) (decimal n)" by (simp add: render_number_def)
  then show "m = n" using digit_value_zfill digit_value_decimal by metis
qed simp

lemma allocate_number_Inr:
  assumes "allocate_number org scope ty on_date s = Inr (x, t)"
  obtains prefix include_year width cs n key where
    "number_format org scope ty on_date s = Some (prefix, include_year, width, cs)"
    "key = (org, cs, ty, if include_year then year on_date else 0)"
    "n = (case counters s key of None \<Rightarrow> 1 | Some k \<Rightarrow> Suc k)"
    "t = s\<lparr>counters := (counters s)(key \<mapsto> n)\<rparr>" "x = render_number prefix include_year (year on_date) width n"
  using assms by (auto simp: allocate_number_def tx_bind_Inr Let_def)

text \<open>
  C16. Two numbers allocated one after the other for the same scope, document type, format and year are
  different, whatever happened in between, as long as no counter was set back.
\<close>

theorem allocated_numbers_differ:
  assumes "allocate_number org scope ty d s = Inr (x, t)" "allocate_number org scope ty d' u = Inr (y, v)"
    and "number_format org scope ty d s = Some (prefix, include_year, width, cs)"
    and "number_format org scope ty d' u = Some (prefix, include_year, width, cs)" "year d = year d'"
    and "\<forall>key n. counters t key = Some n \<longrightarrow> (\<exists>m. counters u key = Some m \<and> n \<le> m)"
  shows "x \<noteq> y \<and> (\<forall>key n. counters s key = Some n \<longrightarrow> (\<exists>m. counters t key = Some m \<and> n \<le> m))"
proof -
  let ?key = "(org, cs, ty, if include_year then year d else 0)"
  obtain n where n: "n = (case counters s ?key of None \<Rightarrow> 1 | Some k \<Rightarrow> Suc k)"
    "t = s\<lparr>counters := (counters s)(?key \<mapsto> n)\<rparr>" "x = render_number prefix include_year (year d) width n"
    using assms(1) by (rule allocate_number_Inr) (use assms(3) in auto)
  obtain m where m: "m = (case counters u ?key of None \<Rightarrow> 1 | Some k \<Rightarrow> Suc k)" "y = render_number prefix include_year (year d) width m"
    using assms(2) by (rule allocate_number_Inr) (use assms(4,5) in auto)
  have "counters t ?key = Some n" by (simp add: n(2))
  then obtain k where "counters u ?key = Some k" "n \<le> k" using assms(6) by blast
  then have "x \<noteq> y" using m n(3) by (simp add: render_number_inj)
  moreover have "\<forall>key n. counters s key = Some n \<longrightarrow> (\<exists>m. counters t key = Some m \<and> n \<le> m)"
    using n(1,2) by auto
  ultimately show ?thesis by blast
qed

theorem allocated_numbers_differ_witness:
  "allocate_number 2 10 ''project'' (Date 2026 1 5) empty_db =
     Inr (''PRJ-2026-0001'', empty_db\<lparr>counters := [(2, 10, ''project'', 2026) \<mapsto> 1]\<rparr>) \<and>
   allocate_number 2 10 ''project'' (Date 2026 2 5) (empty_db\<lparr>counters := [(2, 10, ''project'', 2026) \<mapsto> 1]\<rparr>) =
     Inr (''PRJ-2026-0002'', empty_db\<lparr>counters := [(2, 10, ''project'', 2026) \<mapsto> 2]\<rparr>) \<and> ''PRJ-2026-0001'' \<noteq> ''PRJ-2026-0002''"
proof -
  have digits: "decimal 2026 = ''2026''" "decimal 1 = ''1''" "decimal 2 = ''2''" by code_simp+
  have runs: "allocate_number 2 10 ''project'' (Date 2026 1 5) empty_db =
     Inr (''PRJ-2026-0001'', empty_db\<lparr>counters := [(2, 10, ''project'', 2026) \<mapsto> 1]\<rparr>)"
   "allocate_number 2 10 ''project'' (Date 2026 2 5) (empty_db\<lparr>counters := [(2, 10, ''project'', 2026) \<mapsto> 1]\<rparr>) =
     Inr (''PRJ-2026-0002'', empty_db\<lparr>counters := [(2, 10, ''project'', 2026) \<mapsto> 2]\<rparr>)"
    using digits
    by (simp_all add: allocate_number_def number_format_def pick_format_def default_formats_def tx_eval empty_db_def
        render_number_def zfill_def numeral_eq_Suc Let_def)
  have fmt: "number_format 2 10 ''project'' d (empty_db\<lparr>counters := c\<rparr>) = Some (''PRJ'', True, 4, 10)"
    "number_format 2 10 ''project'' d empty_db = Some (''PRJ'', True, 4, 10)" for d c
    by (simp_all add: number_format_def pick_format_def default_formats_def empty_db_def)
  show ?thesis
    using runs allocated_numbers_differ [OF runs fmt(2) fmt(1)] by simp
qed

end
