(* ===== verification/Paging.thy ===== *)
theory Paging
  imports Prelude "HOL-Library.Product_Lexorder"
begin

text \<open>
  Keyset pagination, the contract every paged read of the service shares: rows in the order of a
  unique key, each page the next rows above the cursor, the cursor of the next page the key of the
  last row, and none on the last page.
\<close>

definition keyset_page :: "('r \<Rightarrow> 'k::linorder) \<Rightarrow> 'r list \<Rightarrow> nat \<Rightarrow> 'k option \<Rightarrow> 'r list \<times> 'k option" where
  "keyset_page key rows n cursor =
     (let rest = filter (\<lambda>r. case cursor of None \<Rightarrow> True | Some c \<Rightarrow> c < key r) rows;
          page = take n rest
      in (page, if n < length rest \<and> page \<noteq> [] then Some (key (last page)) else None))"

text \<open>A client that follows the cursors, page by page, until the last page or an error.\<close>

fun follow :: "nat \<Rightarrow> ('k option \<Rightarrow> ('r list \<times> 'k option) option) \<Rightarrow> 'k option \<Rightarrow> 'r list option" where
  "follow 0 read cursor = None"
| "follow (Suc fuel) read cursor =
     (case read cursor of
        None \<Rightarrow> None
      | Some (page, None) \<Rightarrow> Some page
      | Some (page, Some c) \<Rightarrow> map_option ((@) page) (follow fuel read (Some c)))"

lemma filter_above_nth:
  assumes "sorted_wrt (\<lambda>x y. key x < key y) rows" "i < length rows"
  shows "filter (\<lambda>r. key (rows ! i) < (key r :: 'k::linorder)) rows = drop (Suc i) rows"
  using assms
proof (induction rows arbitrary: i)
  case (Cons r rows)
  show ?case
  proof (cases i)
    case 0
    with Cons.prems show ?thesis by (auto simp: filter_id_conv)
  next
    case (Suc j)
    then have "key r < key (rows ! j)" using Cons.prems by simp
    then have "\<not> key (rows ! j) < key r" by simp
    with Suc Cons.prems Cons.IH [of j] show ?thesis by simp
  qed
qed simp

locale pager =
  fixes read :: "'s \<Rightarrow> nat \<Rightarrow> 'k::linorder option \<Rightarrow> ('r list \<times> 'k option) option"
    and key :: "'r \<Rightarrow> 'k" and rows :: "'s \<Rightarrow> 'r list" and good :: "'s \<Rightarrow> bool" and size_ok :: "nat \<Rightarrow> bool"
  assumes ordered: "good s \<Longrightarrow> sorted_wrt (\<lambda>x y. key x < key y) (rows s)"
    and positive: "size_ok n \<Longrightarrow> 0 < n"
    and page: "good s \<Longrightarrow> size_ok n \<Longrightarrow> cursor = None \<or> (\<exists>r\<in>set (rows s). cursor = Some (key r)) \<Longrightarrow>
      read s n cursor = Some (keyset_page key (rows s) n cursor)"
begin

lemma rest_after:
  assumes "good s" "0 < i" "i \<le> length (rows s)"
  shows "filter (\<lambda>r. key (rows s ! (i - 1)) < key r) (rows s) = drop i (rows s)"
  using filter_above_nth [OF ordered [OF assms(1)], of "i - 1"] assms by simp

lemma follow_from:
  assumes good: "good s" and size: "size_ok n" and i: "i \<le> length (rows s)" and fuel: "length (rows s) < fuel + i"
    and c: "cursor = (if i = 0 then None else Some (key (rows s ! (i - 1))))"
  shows "follow fuel (read s n) cursor = Some (drop i (rows s))"
  using i fuel c
proof (induction fuel arbitrary: i cursor)
  case (Suc fuel)
  note n = positive [OF size]
  have rest: "filter (\<lambda>r. case cursor of None \<Rightarrow> True | Some c \<Rightarrow> c < key r) (rows s) = drop i (rows s)"
    using Suc.prems(1,3) rest_after [OF good, of i] by (cases "i = 0") simp_all
  have "i = 0 \<or> rows s ! (i - 1) \<in> set (rows s)" using Suc.prems(1) by (cases i) simp_all
  then have read: "read s n cursor = Some (keyset_page key (rows s) n cursor)"
    using Suc.prems(3) page [OF good size] by auto
  show ?case
  proof (cases "n < length (rows s) - i")
    case True
    have last: "last (take n (drop i (rows s))) = rows s ! (i + n - 1)"
      using True n by (subst last_conv_nth) auto
    have "follow fuel (read s n) (Some (key (rows s ! (i + n - 1)))) = Some (drop (i + n) (rows s))"
      using Suc.IH [of "i + n" "Some (key (rows s ! (i + n - 1)))"] Suc.prems n True by simp
    moreover have "read s n cursor = Some (take n (drop i (rows s)), Some (key (rows s ! (i + n - 1))))"
      using True n last by (simp add: read keyset_page_def rest Let_def)
    ultimately show ?thesis
      using append_take_drop_id [of n "drop i (rows s)"] by (simp add: add.commute)
  next
    case False
    then show ?thesis by (simp add: read keyset_page_def rest)
  qed
qed simp

text \<open>Following the cursors from the start yields every row exactly once, in order.\<close>

lemma follow_all:
  assumes "good s" "size_ok n"
  shows "follow (Suc (length (rows s))) (read s n) None = Some (rows s)"
  using follow_from [OF assms, of 0 "Suc (length (rows s))" None] by (simp del: follow.simps)

end

end
