(* ===== verification/BudgetReads.thy ===== *)
theory BudgetReads
  imports Transfers Paging "HOL-Library.List_Lexorder" "HOL-Library.Char_ord"
begin

text \<open>
  The reads of the budget: \<open>flo/modules/budget/queries.py\<close> (balances by period, the ledger page by
  page), \<open>aggregate.py\<close> (subtree totals) and the summary and the funding mode guard of
  \<open>service.py\<close>.  Amounts on the wire are decimal strings of four places; the model keeps the
  number the string shows.
\<close>

section \<open>Periods\<close>

definition fixed4 :: "rat \<Rightarrow> rat" where
  "fixed4 x = of_int (round_half_even (x * 10 ^ 4)) / 10 ^ 4"

definition consumption_ratio :: "rat \<Rightarrow> rat \<Rightarrow> problem + rat option" where
  "consumption_ratio allocated consumed =
     (if allocated = 0 then Inr None
      else map_sum id Some (dec_quantize round_half_up (dec_div consumed allocated) 2))"

datatype period = Life | RangePeriod | FiscalPeriod range_kind

text \<open>The last day a range may end on: twenty years on, within the month and the calendar.\<close>

definition range_limit :: "date \<Rightarrow> date" where
  "range_limit start =
     (let y = min (year start + 20) 9999
      in Date y (month start) (min (day start) (month_length y (month start))))"

definition bounds :: "uuid \<Rightarrow> period \<Rightarrow> date \<Rightarrow> date option \<Rightarrow> date option \<Rightarrow> (db, date option \<times> date option) tx" where
  "bounds org p as_of start end =
     (case p of
        Life \<Rightarrow> tx_return (None, Some as_of)
      | RangePeriod \<Rightarrow>
          (case (start, end) of
             (Some a, Some b) \<Rightarrow>
               tx_bind (tx_require (\<not> b < a) invalid_entry) (\<lambda>_.
               tx_bind (tx_require (\<not> range_limit a < b) invalid_entry) (\<lambda>_.
               tx_return (Some a, Some b)))
           | _ \<Rightarrow> tx_fail invalid_entry)
      | FiscalPeriod k \<Rightarrow> tx_bind (range_for org k as_of) (\<lambda>(a, b). tx_return (Some a, Some b)))"

definition in_bounds :: "date option \<Rightarrow> date option \<Rightarrow> date \<Rightarrow> bool" where
  "in_bounds lower upper d \<longleftrightarrow>
     (case lower of None \<Rightarrow> True | Some a \<Rightarrow> a \<le> d) \<and> (case upper of None \<Rightarrow> True | Some b \<Rightarrow> d \<le> b)"

definition all_buckets :: "bucket list" where
  "all_buckets = [BAllocated, BReserved, BCommitted, BActual]"

definition period_total :: "uuid \<Rightarrow> uuid \<Rightarrow> date option \<Rightarrow> date option \<Rightarrow> ledger_entry list \<Rightarrow> bucket \<Rightarrow> rat" where
  "period_total org pid lower upper es k =
     sum_list (map le_amount (filter (\<lambda>e. le_org e = org \<and> le_project e = pid \<and> le_bucket e = k \<and>
        in_bounds lower upper (le_effective e)) es))"

section \<open>A project's balance\<close>

record balance_read =
  bq_project :: uuid
  bq_currency :: string
  bq_as_of :: date
  bq_from :: "date option"
  bq_to :: "date option"
  bq_values :: "rat list"                     \<comment> \<open>allocated, reserved, committed, actual\<close>
  bq_available :: rat
  bq_consumption :: "rat option"
  bq_reconciles :: "bool option"

text \<open>The reconciliation adds the ledger's totals and the differences, bucket by bucket.\<close>

definition balance_query ::
  "uuid \<Rightarrow> date \<Rightarrow> uuid \<Rightarrow> period \<Rightarrow> date option \<Rightarrow> date option \<Rightarrow> date option \<Rightarrow> bool \<Rightarrow>
   (db, balance_read \<times> (rat list \<times> rat list) option) tx" where
  "balance_query org today pid p as_of start end reconcile =
     tx_bind (get_project org pid) (\<lambda>project.
     let current_life = (p = Life \<and> as_of = None) in
     tx_bind (tx_require (\<not> (reconcile \<and> \<not> current_life)) (invalid ''period_not_reconcilable'')) (\<lambda>_.
     let resolved = (case as_of of None \<Rightarrow> today | Some d \<Rightarrow> d) in
     tx_bind (bounds org p resolved start end) (\<lambda>(lower, upper).
     let upper = (if current_life then None else upper) in
     tx_bind (repo_balance org pid) (\<lambda>row.
     tx_bind (tx_read (\<lambda>s. map (period_total org pid lower upper (entries s)) all_buckets)) (\<lambda>totals.
     let rollup = (case row of None \<Rightarrow> [0, 0, 0, 0] | Some b \<Rightarrow> map (\<lambda>k. bucket_of k b) all_buckets);
         vals = (if current_life then rollup else totals);
         consumption = dec_add (dec_add (vals ! 1) (vals ! 2)) (vals ! 3);
         available = dec_sub (vals ! 0) consumption;
         differences = map2 (\<lambda>a b. fixed4 (dec_sub a b)) rollup totals in
     tx_bind (tx_lift (consumption_ratio (vals ! 0) consumption)) (\<lambda>pct.
     tx_return
       (\<lparr>bq_project = pid, bq_currency = p_currency project, bq_as_of = resolved, bq_from = lower, bq_to = upper,
         bq_values = map fixed4 vals, bq_available = fixed4 available, bq_consumption = pct,
         bq_reconciles = (if current_life then Some (list_all (\<lambda>d. d = 0) differences) else None)\<rparr>,
        if reconcile then Some (map fixed4 totals, differences) else None)))))))"

section \<open>The ledger, page by page\<close>

record ledger_filter =
  lf_bucket :: "bucket option"
  lf_type :: "ledger_type option"
  lf_start :: "date option"
  lf_end :: "date option"

definition ledger_key :: "ledger_entry \<Rightarrow> date \<times> nat" where
  "ledger_key e = (le_effective e, le_id e)"

definition ledger_rows :: "uuid \<Rightarrow> uuid \<Rightarrow> ledger_filter \<Rightarrow> db \<Rightarrow> ledger_entry list" where
  "ledger_rows org pid f s =
     sort_key ledger_key (filter (\<lambda>e. le_org e = org \<and> le_project e = pid \<and>
       (case lf_bucket f of None \<Rightarrow> True | Some k \<Rightarrow> le_bucket e = k) \<and>
       (case lf_type f of None \<Rightarrow> True | Some ty \<Rightarrow> le_type e = ty) \<and>
       in_bounds (lf_start f) (lf_end f) (le_effective e)) (entries s))"

text \<open>The cursor is the text \<open>date:id\<close>; the model has it parsed, with the check of the id's range.\<close>

definition ledger_query ::
  "uuid \<Rightarrow> uuid \<Rightarrow> ledger_filter \<Rightarrow> (date \<times> nat) option \<Rightarrow> int \<Rightarrow> (db, ledger_entry list \<times> (date \<times> nat) option) tx" where
  "ledger_query org pid f cursor page_size =
     tx_bind (tx_require (1 \<le> page_size \<and> page_size \<le> 50) invalid_entry) (\<lambda>_.
     tx_bind (tx_require (case (lf_start f, lf_end f) of (Some a, Some b) \<Rightarrow> \<not> b < a | _ \<Rightarrow> True) invalid_entry) (\<lambda>_.
     tx_bind (tx_require (case cursor of None \<Rightarrow> True | Some c \<Rightarrow> 1 \<le> snd c \<and> snd c \<le> 9223372036854775807) invalid_entry) (\<lambda>_.
     tx_bind (get_project org pid) (\<lambda>_.
     tx_bind (tx_read (\<lambda>s. take (Suc (nat page_size))
        (filter (\<lambda>e. case cursor of None \<Rightarrow> True | Some c \<Rightarrow> c < ledger_key e) (ledger_rows org pid f s)))) (\<lambda>rows.
     let page = take (nat page_size) rows in
     tx_return (page, if nat page_size < length rows \<and> page \<noteq> [] then Some (ledger_key (last page)) else None))))))"

section \<open>Totals of a subtree\<close>

text \<open>An abandoned project of a Project Request is reported apart.\<close>

definition live :: "project_row \<Rightarrow> bool" where
  "live p \<longleftrightarrow> \<not> (p_status p = Abandoned \<and> p_source_requisition p \<noteq> None \<and> p_generated_by p = None)"

definition children_of :: "uuid \<Rightarrow> db \<Rightarrow> uuid \<Rightarrow> uuid list" where
  "children_of org s q =
     filter (\<lambda>i. case find_project org i s of None \<Rightarrow> False | Some p \<Rightarrow> p_parent p = Some q \<and> live p) (project_ids s)"

text \<open>The recursive query, level by level; it returns unless the projects form a cycle.\<close>

fun subtree :: "nat \<Rightarrow> uuid \<Rightarrow> db \<Rightarrow> uuid list \<Rightarrow> uuid list option" where
  "subtree _ org s [] = Some []"
| "subtree 0 org s level = None"
| "subtree (Suc fuel) org s level =
     map_option ((@) level) (subtree fuel org s (concat (map (children_of org s) level)))"

type_synonym bucket_values = "rat list \<times> rat"

definition bucket_values :: "rat list \<Rightarrow> bucket_values" where
  "bucket_values vs = (map fixed4 vs, fixed4 (dec_sub (hd vs) (dec_sum (tl vs))))"

record currency_aggregate =
  ca_currency :: string
  ca_own :: bucket_values
  ca_descendants :: bucket_values
  ca_total :: bucket_values

definition project_value :: "uuid \<Rightarrow> bool \<Rightarrow> date option \<Rightarrow> date option \<Rightarrow> db \<Rightarrow> bucket \<Rightarrow> uuid \<Rightarrow> rat" where
  "project_value org current lower upper s k i =
     (if current then (case balance_at org i s of None \<Rightarrow> 0 | Some b \<Rightarrow> bucket_of k b)
      else period_total org i lower upper (entries s) k)"

definition currency_totals ::
  "uuid \<Rightarrow> uuid \<Rightarrow> json \<Rightarrow> bool \<Rightarrow> date option \<Rightarrow> date option \<Rightarrow> db \<Rightarrow> uuid list \<Rightarrow> string \<Rightarrow> currency_aggregate" where
  "currency_totals org pid mode current lower upper s nodes c =
     (let members = filter (\<lambda>i. case find_project org i s of None \<Rightarrow> False | Some p \<Rightarrow> p_currency p = c) nodes;
          totals = (\<lambda>P. map (\<lambda>k. sum_list (map (project_value org current lower upper s k) (filter P members))) all_buckets);
          own = totals (\<lambda>i. i = pid); descendants = totals (\<lambda>i. i \<noteq> pid);
          total = (if mode = JStr ''roll_up'' then map2 dec_add own descendants else own)
      in \<lparr>ca_currency = c, ca_own = bucket_values own, ca_descendants = bucket_values descendants,
          ca_total = bucket_values total\<rparr>)"

definition aggregate_balance ::
  "uuid \<Rightarrow> date \<Rightarrow> uuid \<Rightarrow> period \<Rightarrow> date option \<Rightarrow> date option \<Rightarrow> date option \<Rightarrow>
   (db, json \<times> currency_aggregate list \<times> nat) tx" where
  "aggregate_balance org today pid p as_of start end =
     tx_bind (get_project org pid) (\<lambda>project.
     tx_bind (mode_for org pid) (\<lambda>mode.
     tx_bind (bounds org p (case as_of of None \<Rightarrow> today | Some d \<Rightarrow> d) start end) (\<lambda>(lower, upper).
     let current = (p = Life \<and> as_of = None) in
     tx_bind (tx_read (\<lambda>s. subtree (Suc (length (project_ids s))) org s (if live project then [pid] else []))) (\<lambda>nodes.
     tx_bind (tx_some nodes (Raised QueryNotReturning)) (\<lambda>nodes.
     tx_bind (tx_read (\<lambda>s. sort (remdups (map (\<lambda>i. case find_project org i s of None \<Rightarrow> [] | Some p \<Rightarrow> p_currency p) nodes)))) (\<lambda>currencies.
     tx_bind (tx_read (\<lambda>s. map (currency_totals org pid mode current lower upper s nodes) currencies)) (\<lambda>totals.
     tx_return (mode, totals, if totals = [] then 0 else length nodes))))))))"

section \<open>The summary of an organization\<close>

text \<open>One group per currency and per whether its root is an abandoned Project Request.\<close>

definition summary_rows :: "uuid \<Rightarrow> uuid option \<Rightarrow> db \<Rightarrow> (uuid \<times> string \<times> bool) list" where
  "summary_rows org unit s =
     concat (map (\<lambda>i. case find_project org i s of None \<Rightarrow> []
       | Some p \<Rightarrow> (case find_project org (p_root p) s of None \<Rightarrow> []
         | Some top_row \<Rightarrow> if unit = None \<or> unit = Some (p_bu top_row) then [(i, p_currency p, \<not> live top_row)] else []))
       (project_ids s))"

definition summary_total :: "uuid \<Rightarrow> db \<Rightarrow> uuid list \<Rightarrow> rat list" where
  "summary_total org s ids =
     map (\<lambda>k. sum_list (map (\<lambda>i. case balance_at org i s of None \<Rightarrow> 0 | Some b \<Rightarrow> bucket_of k b) ids)) all_buckets @
     [sum_list (map (\<lambda>i. case balance_at org i s of None \<Rightarrow> 0 | Some b \<Rightarrow> b_available b) ids)]"

definition budget_summary ::
  "uuid \<Rightarrow> uuid option \<Rightarrow> (db, (string \<times> rat list) list \<times> (string \<times> rat list) list) tx" where
  "budget_summary org unit =
     tx_bind (case unit of None \<Rightarrow> tx_return ()
              | Some u \<Rightarrow> tx_bind (tx_read (\<lambda>s. find_unit (units s) org u)) (\<lambda>r. tx_require (r \<noteq> None) not_found)) (\<lambda>_.
     tx_read (\<lambda>s.
       let rows = summary_rows org unit s;
           part = (\<lambda>abandoned. let rs = filter (\<lambda>r. snd (snd r) = abandoned) rows in
             map (\<lambda>c. (c, summary_total org s (map fst (filter (\<lambda>r. fst (snd r) = c) rs))))
               (sort (remdups (map (\<lambda>r. fst (snd r)) rs))))
       in (part False, map (\<lambda>(c, vs). (c, take 4 vs)) (part True))))"

section \<open>What locks the funding mode\<close>

text \<open>
  The units under a unit, or all of them; \<open>UNION\<close> drops repetitions, so as many rounds as there are
  units reach every one.
\<close>

fun units_under :: "nat \<Rightarrow> unit_row list \<Rightarrow> uuid \<Rightarrow> uuid list \<Rightarrow> uuid list" where
  "units_under 0 us org seen = seen"
| "units_under (Suc fuel) us org seen =
     (let new = map u_id (filter (\<lambda>r. u_org r = org \<and> u_id r \<notin> set seen \<and>
                  (case u_parent r of None \<Rightarrow> False | Some q \<Rightarrow> q \<in> set seen)) us)
      in if new = [] then seen else units_under fuel us org (seen @ new))"

definition guarded_units :: "uuid \<Rightarrow> uuid option \<Rightarrow> db \<Rightarrow> uuid list" where
  "guarded_units org unit s =
     units_under (length (units s)) (units s) org
       (map u_id (filter (\<lambda>r. u_org r = org \<and> (unit = None \<or> unit = Some (u_id r))) (units s)))"

definition funded_within :: "uuid \<Rightarrow> uuid list \<Rightarrow> db \<Rightarrow> uuid \<Rightarrow> bool" where
  "funded_within org us s pid =
     (case find_project org pid s of None \<Rightarrow> False
      | Some p \<Rightarrow> (case find_project org (p_root p) s of None \<Rightarrow> False
          | Some top_row \<Rightarrow> p_bu p \<in> set us \<or> p_bu top_row \<in> set us))"

text \<open>
  The guard first asks whether the ledger's and the requests' tables exist, which they do once the
  migrations ran.
\<close>

definition funding_mode_guard :: "uuid \<Rightarrow> uuid option \<Rightarrow> (db, unit) tx" where
  "funding_mode_guard org unit =
     tx_bind (tx_read (\<lambda>s. guarded_units org unit s)) (\<lambda>us.
     tx_bind (tx_read (\<lambda>s. list_ex (\<lambda>e. le_org e = org \<and> funded_within org us s (le_project e)) (entries s))) (\<lambda>row.
     tx_bind (tx_read (\<lambda>s. \<not> row \<and> list_ex (\<lambda>r. cr_org r = org \<and> cr_kind r = AllocationChange \<and>
                cr_status r = ChangePending \<and> funded_within org us s (cr_project r)) (change_requests s))) (\<lambda>pending.
     tx_require (\<not> (row \<or> pending)) (conflict ''funding_mode_locked''))))"

end
