(* ===== verification/Access.thy ===== *)
theory Access
  imports Database "HOL-Library.List_Lexorder" "HOL-Library.Char_ord"
begin

text \<open>
  \<open>flo/modules/identity\<close>: roles of explicit permissions, their grants at an organization, a unit or a
  project, and the resolution of every check directly from the current rows (\<open>resolver.py\<close>,
  \<open>service.py\<close>, \<open>models.py\<close>; migrations 0008, 0011, 0012 and 0024).

  The containment of scopes is the table \<open>authorization_scope\<close>; the recursive query walks it from the
  target upwards, discarding rows it has seen, so it ends on any table.
\<close>

section \<open>The vocabulary\<close>

fun pieces :: "char \<Rightarrow> string \<Rightarrow> string list" where
  "pieces d [] = [[]]"
| "pieces d (c # cs) =
     (if c = d then [] # pieces d cs
      else case pieces d cs of [] \<Rightarrow> [[c]] | w # ws \<Rightarrow> (c # w) # ws)"

definition lower_letter :: "char \<Rightarrow> bool" where
  "lower_letter c \<longleftrightarrow> 97 \<le> (of_char c :: nat) \<and> (of_char c :: nat) \<le> 122"

definition word_letter :: "char \<Rightarrow> bool" where
  "word_letter c \<longleftrightarrow> lower_letter c \<or> 48 \<le> (of_char c :: nat) \<and> (of_char c :: nat) \<le> 57 \<or> c = CHR ''_''"

definition code_word :: "string \<Rightarrow> bool" where
  "code_word w \<longleftrightarrow> w \<noteq> [] \<and> lower_letter (hd w) \<and> list_all word_letter (tl w)"

definition permission_code :: "string \<Rightarrow> problem + string" where
  "permission_code v =
     (let ws = pieces (CHR ''.'') v in if 2 \<le> length ws \<and> list_all code_word ws then Inr v else Inl (Raised ValueError))"

definition role_code :: "string \<Rightarrow> problem + string" where
  "role_code v =
     (let ws = pieces (CHR ''-'') v
      in if code_word (hd ws) \<and> list_all (\<lambda>w. w \<noteq> [] \<and> list_all word_letter w) (tl ws) then Inr v else Inl (Raised ValueError))"

definition mfa_required_role_codes :: "string list" where
  "mfa_required_role_codes = [''organization-administrator'', ''auditor'']"

section \<open>Targets and the scopes that contain them\<close>

record target =
  tg_kind :: scope_kind
  tg_scope :: uuid
  tg_type :: "string option"
  tg_record :: "uuid option"
  tg_by :: "uuid option"

definition make_target :: "target \<Rightarrow> problem + target" where
  "make_target g =
     (if (tg_type g = None) \<noteq> (tg_record g = None) then Inl (Raised ValueError)
      else if (case tg_type g of None \<Rightarrow> False | Some t \<Rightarrow> strip t = []) then Inl (Raised ValueError) else Inr g)"

definition organization_target :: "uuid \<Rightarrow> target" where
  "organization_target org = \<lparr>tg_kind = ScopeOrg, tg_scope = org, tg_type = None, tg_record = None, tg_by = None\<rparr>"

text \<open>A row of the recursive query: a scope, and whether grants at a project reach the target from it.\<close>

type_synonym reach = "scope_kind \<times> uuid \<times> bool"

definition scope_at :: "uuid \<Rightarrow> scope_kind \<Rightarrow> uuid \<Rightarrow> scope_row list \<Rightarrow> scope_row option" where
  "scope_at org kind i = find (\<lambda>h. sc_org h = org \<and> sc_kind h = kind \<and> sc_id h = i)"

definition parent_scope :: "scope_row list \<Rightarrow> uuid \<Rightarrow> reach \<Rightarrow> reach option" where
  "parent_scope rows org r =
     (case r of (kind, i, b) \<Rightarrow>
        map_option (\<lambda>h. (sc_parent_kind h, sc_parent h, if sc_parent_kind h = ScopeProject then b \<and> sc_roll_down h else b))
          (scope_at org kind i rows))"

definition reach_rows :: "scope_row list \<Rightarrow> reach set" where
  "reach_rows rows = (\<Union>h\<in>set rows. {(sc_parent_kind h, sc_parent h, True), (sc_parent_kind h, sc_parent h, False)})"

lemma reach_rows_finite: "finite (reach_rows rows)"
  by (simp add: reach_rows_def)

lemma parent_scope_row: "parent_scope rows org r = Some q \<Longrightarrow> q \<in> reach_rows rows"
  by (cases r) (auto simp: parent_scope_def scope_at_def reach_rows_def dest!: find_Some_iff_mem)

function containing :: "scope_row list \<Rightarrow> uuid \<Rightarrow> reach list \<Rightarrow> reach \<Rightarrow> reach list" where
  "containing rows org seen r =
     (if r \<in> set seen then seen
      else case parent_scope rows org r of None \<Rightarrow> seen @ [r] | Some q \<Rightarrow> containing rows org (seen @ [r]) q)"
  by pat_completeness auto
termination
proof (relation "measure (\<lambda>(rows, org, seen, r). card (reach_rows rows - set seen) + (if r \<in> reach_rows rows then 0 else 1))", goal_cases)
  case (2 rows org seen r q)
  let ?U = "reach_rows rows"
  have q: "q \<in> ?U" using parent_scope_row 2(2) by blast
  show ?case
  proof (cases "r \<in> ?U")
    case True
    then have "r \<in> ?U - set seen" using 2(1) by simp
    then have "card (?U - set seen - {r}) < card (?U - set seen)"
      by (intro card_Diff1_less) (simp_all add: reach_rows_finite)
    moreover have "?U - set seen - {r} = ?U - set (seen @ [r])" by auto
    ultimately show ?thesis using q True by simp
  next
    case False
    then have "?U - set (seen @ [r]) = ?U - set seen" by auto
    then show ?thesis using q False by simp
  qed
qed simp

declare containing.simps [simp del]

section \<open>The resolver\<close>

definition covers :: "reach list \<Rightarrow> scope_kind \<Rightarrow> uuid \<Rightarrow> bool" where
  "covers rs kind i \<longleftrightarrow> list_ex (\<lambda>(k, j, b). k = kind \<and> j = i \<and> (kind \<noteq> ScopeProject \<or> b)) rs"

definition effective :: "timestamp \<Rightarrow> grant_row \<Rightarrow> bool" where
  "effective ts a \<longleftrightarrow> (case gr_from a of None \<Rightarrow> True | Some d \<Rightarrow> d \<le> ts)"

definition eligible_grants :: "uuid \<Rightarrow> uuid option \<Rightarrow> target \<Rightarrow> db \<Rightarrow> grant_row list" where
  "eligible_grants org user g s =
     (let rs = containing (scopes s) org [] (tg_kind g, tg_scope g, True) in
      filter (\<lambda>a. gr_org a = org \<and> (user = None \<or> user = Some (gr_user a)) \<and> effective (clock s) a \<and>
        (gr_kind a = ScopeOrg \<and> gr_scope a = org \<or> covers rs (gr_kind a) (gr_scope a))) (user_roles s))"

record decision =
  dc_user :: uuid
  dc_permission :: string
  dc_target :: target
  dc_matched :: bool
  dc_allowed :: bool

definition foreign :: "uuid \<Rightarrow> target \<Rightarrow> bool" where
  "foreign org g \<longleftrightarrow> tg_kind g = ScopeOrg \<and> tg_scope g \<noteq> org"

definition check_access :: "uuid \<Rightarrow> uuid \<Rightarrow> string \<Rightarrow> target \<Rightarrow> (db, decision) tx" where
  "check_access org user permission g =
     tx_bind (tx_lift (permission_code permission)) (\<lambda>p.
     tx_read (\<lambda>s.
       let gs = (if foreign org g then [] else eligible_grants org (Some user) g s)
       in \<lparr>dc_user = user, dc_permission = p, dc_target = g, dc_matched = (gs \<noteq> []),
            dc_allowed = list_ex (\<lambda>a. (org, gr_role a, p) \<in> set (role_permissions s)) gs\<rparr>))"

text \<open>The context of an allowed check: user, permission and target.\<close>

definition require_access :: "uuid \<Rightarrow> uuid \<Rightarrow> string \<Rightarrow> target \<Rightarrow> (db, uuid \<times> string \<times> target) tx" where
  "require_access org user permission g =
     tx_bind (check_access org user permission g) (\<lambda>d.
     tx_bind (tx_require (dc_allowed d) (Raised PermissionDenied)) (\<lambda>_.
     tx_return (dc_user d, dc_permission d, dc_target d)))"

definition identity_at :: "uuid \<Rightarrow> db \<Rightarrow> identity_row option" where
  "identity_at i s = find (\<lambda>r. idn_id r = i) (identities s)"

definition role_at :: "uuid \<Rightarrow> uuid \<Rightarrow> db \<Rightarrow> role_row option" where
  "role_at org i s = find (\<lambda>r. ro_org r = org \<and> ro_id r = i) (role_rows s)"

definition active_identity :: "uuid \<Rightarrow> db \<Rightarrow> bool" where
  "active_identity i s \<longleftrightarrow> (case identity_at i s of None \<Rightarrow> False | Some r \<Rightarrow> idn_active r)"

definition holders_where :: "uuid \<Rightarrow> target \<Rightarrow> string option \<Rightarrow> string option \<Rightarrow> db \<Rightarrow> uuid list" where
  "holders_where org g permission code s =
     (if foreign org g then []
      else take 1000 (sort (remdups (map gr_user (filter
        (\<lambda>a. active_identity (gr_user a) s \<and>
           (case role_at org (gr_role a) s of None \<Rightarrow> False | Some r \<Rightarrow> code = None \<or> code = Some (ro_code r)) \<and>
           (case permission of None \<Rightarrow> True | Some p \<Rightarrow> (org, gr_role a, p) \<in> set (role_permissions s)))
        (eligible_grants org None g s))))))"

definition holders :: "uuid \<Rightarrow> string \<Rightarrow> target \<Rightarrow> (db, uuid list) tx" where
  "holders org permission g =
     tx_bind (tx_lift (permission_code permission)) (\<lambda>p. tx_read (holders_where org g (Some p) None))"

definition role_holders :: "uuid \<Rightarrow> string \<Rightarrow> target \<Rightarrow> (db, uuid list) tx" where
  "role_holders org code g = tx_read (holders_where org g None (Some code))"

section \<open>Scopes\<close>

definition same_scope :: "uuid \<Rightarrow> scope_kind \<Rightarrow> uuid \<Rightarrow> scope_row \<Rightarrow> bool" where
  "same_scope org kind i h \<longleftrightarrow> sc_org h = org \<and> sc_kind h = kind \<and> sc_id h = i"

definition upsert_scope :: "scope_row \<Rightarrow> (db, bool) tx" where
  "upsert_scope r =
     tx_bind (tx_read (\<lambda>s. scope_at (sc_org r) (sc_kind r) (sc_id r) (scopes s))) (\<lambda>old.
     case old of
       None \<Rightarrow> tx_bind (tx_update (\<lambda>s. s\<lparr>scopes := scopes s @ [r]\<rparr>)) (\<lambda>_. tx_return True)
     | Some h \<Rightarrow>
         if h = r then tx_return False
         else tx_bind (tx_update (\<lambda>s. s\<lparr>scopes := map (\<lambda>x. if same_scope (sc_org r) (sc_kind r) (sc_id r) x then r else x) (scopes s)\<rparr>))
           (\<lambda>_. tx_return True))"

definition register_scope :: "uuid \<Rightarrow> scope_kind \<Rightarrow> uuid \<Rightarrow> scope_kind \<Rightarrow> uuid \<Rightarrow> bool \<Rightarrow> (db, bool) tx" where
  "register_scope org kind i parent_kind parent roll_down =
     tx_bind (tx_require (kind \<noteq> ScopeOrg) (Raised ValueError)) (\<lambda>_.
     tx_bind (tx_require (\<not> (kind = ScopeUnit \<and> (parent_kind \<noteq> ScopeOrg \<or> parent \<noteq> org))) (Raised ValueError)) (\<lambda>_.
     tx_bind (tx_require (\<not> (kind = ScopeProject \<and> parent_kind = ScopeOrg)) (Raised ValueError)) (\<lambda>_.
     tx_bind (tx_read (\<lambda>s. parent_kind = ScopeOrg \<or> scope_at org parent_kind parent (scopes s) \<noteq> None)) (\<lambda>there.
     tx_bind (tx_require there (Raised LookupMissing)) (\<lambda>_.
     tx_bind (tx_require (\<not> (parent_kind = kind \<and> parent = i)) (Raised (CheckViolation ''authorization_scope_not_self_parent''))) (\<lambda>_.
     upsert_scope \<lparr>sc_org = org, sc_kind = kind, sc_id = i, sc_parent_kind = parent_kind, sc_parent = parent,
       sc_roll_down = roll_down\<rparr>))))))"

definition register_business_unit_scope :: "uuid \<Rightarrow> uuid \<Rightarrow> (db, unit) tx" where
  "register_business_unit_scope org unit =
     tx_bind (register_scope org ScopeUnit unit ScopeOrg org True) (\<lambda>_. tx_return ())"

definition register_project_scope :: "uuid \<Rightarrow> uuid \<Rightarrow> scope_kind \<Rightarrow> uuid \<Rightarrow> (db, unit) tx" where
  "register_project_scope org pid parent_kind parent =
     tx_bind (register_scope org ScopeProject pid parent_kind parent True) (\<lambda>_. tx_return ())"

text \<open>Registering a scope writes no other table.\<close>

lemma upsert_scope_only: "upsert_scope r s = Inr (b, t) \<Longrightarrow> \<exists>rows. t = s\<lparr>scopes := rows\<rparr>"
  by (auto simp: upsert_scope_def tx_bind_Inr split: option.splits if_splits intro: exI [of _ "scopes s"])

lemma register_scope_only: "register_scope org kind i pk p rd s = Inr (b, t) \<Longrightarrow> \<exists>rows. t = s\<lparr>scopes := rows\<rparr>"
  using upsert_scope_only by (auto simp: register_scope_def tx_bind_Inr)

lemma register_project_scope_only: "register_project_scope org i pk p s = Inr (u, t) \<Longrightarrow> \<exists>rows. t = s\<lparr>scopes := rows\<rparr>"
  using register_scope_only by (auto simp: register_project_scope_def tx_bind_Inr)

section \<open>Roles and their permissions\<close>

definition role_audit :: "uuid \<Rightarrow> uuid \<Rightarrow> string \<Rightarrow> string \<Rightarrow> uuid \<Rightarrow> (db, unit) tx" where
  "role_audit org actor action target_type i =
     tx_bind (audit_write org (user_actor actor) action target_type (Some i) None Success None) (\<lambda>_. tx_return ())"

definition insert_role :: "uuid \<Rightarrow> string \<Rightarrow> string \<Rightarrow> bool \<Rightarrow> (db, role_row \<times> bool) tx" where
  "insert_role org code name system =
     tx_bind fresh_uuid (\<lambda>i.
     tx_bind (tx_read (\<lambda>s. find (\<lambda>r. ro_org r = org \<and> ro_code r = code) (role_rows s))) (\<lambda>old.
     case old of
       Some r \<Rightarrow> tx_return (r, False)
     | None \<Rightarrow>
         let r = \<lparr>ro_id = i, ro_org = org, ro_code = code, ro_name = name, ro_system = system\<rparr> in
         tx_bind (tx_update (\<lambda>s. s\<lparr>role_rows := role_rows s @ [r]\<rparr>)) (\<lambda>_. tx_return (r, True))))"

definition create_role :: "uuid \<Rightarrow> uuid \<Rightarrow> string \<Rightarrow> string \<Rightarrow> bool \<Rightarrow> (db, role_row) tx" where
  "create_role org actor code name system =
     tx_bind (tx_lift (role_code code)) (\<lambda>c.
     tx_bind (tx_require (strip name \<noteq> []) (Raised ValueError)) (\<lambda>_.
     tx_bind (insert_role org c (strip name) system) (\<lambda>(r, created).
     tx_bind (if created then role_audit org actor ''role.create'' ''role'' (ro_id r) else tx_return ()) (\<lambda>_.
     tx_return r))))"

definition attach_permission :: "uuid \<Rightarrow> uuid \<Rightarrow> string \<Rightarrow> (db, bool) tx" where
  "attach_permission org i p =
     tx_bind (tx_read (\<lambda>s. role_at org i s \<noteq> None \<and> p \<in> set (permissions s) \<and> (org, i, p) \<notin> set (role_permissions s))) (\<lambda>new.
     tx_bind (if new then tx_update (\<lambda>s. s\<lparr>role_permissions := role_permissions s @ [(org, i, p)]\<rparr>) else tx_return ()) (\<lambda>_.
     tx_return new))"

definition detach_permission :: "uuid \<Rightarrow> uuid \<Rightarrow> string \<Rightarrow> (db, bool) tx" where
  "detach_permission org i p =
     tx_bind (tx_read (\<lambda>s. (org, i, p) \<in> set (role_permissions s))) (\<lambda>found.
     tx_bind (tx_update (\<lambda>s. s\<lparr>role_permissions := filter (\<lambda>x. x \<noteq> (org, i, p)) (role_permissions s)\<rparr>)) (\<lambda>_.
     tx_return found))"

definition grant_permission :: "uuid \<Rightarrow> uuid \<Rightarrow> uuid \<Rightarrow> string \<Rightarrow> (db, bool) tx" where
  "grant_permission org actor i permission =
     tx_bind (tx_lift (permission_code permission)) (\<lambda>p.
     tx_bind (attach_permission org i p) (\<lambda>attached.
     tx_bind (if attached then role_audit org actor ''role.permission.grant'' ''role'' i else tx_return ()) (\<lambda>_.
     tx_return attached)))"

definition revoke_permission :: "uuid \<Rightarrow> uuid \<Rightarrow> uuid \<Rightarrow> string \<Rightarrow> (db, bool) tx" where
  "revoke_permission org actor i permission =
     tx_bind (tx_lift (permission_code permission)) (\<lambda>p.
     tx_bind (detach_permission org i p) (\<lambda>detached.
     tx_bind (if detached then role_audit org actor ''role.permission.revoke'' ''role'' i else tx_return ()) (\<lambda>_.
     tx_return detached)))"

section \<open>Grants\<close>

definition same_grant :: "grant_row \<Rightarrow> grant_row \<Rightarrow> bool" where
  "same_grant a x \<longleftrightarrow> gr_org x = gr_org a \<and> gr_user x = gr_user a \<and> gr_role x = gr_role a \<and> gr_kind x = gr_kind a \<and>
     gr_scope x = gr_scope a"

text \<open>The insertion of a grant: its row, whether it is new, and the code of its role.\<close>

definition insert_grant :: "uuid \<Rightarrow> uuid \<Rightarrow> uuid \<Rightarrow> target \<Rightarrow> uuid \<Rightarrow> timestamp option \<Rightarrow> (db, grant_row \<times> bool \<times> string) tx" where
  "insert_grant org user role g granted_by from_ts =
     tx_bind (tx_require (tg_record g = None) (Raised ValueError)) (\<lambda>_.
     tx_bind (tx_require (\<not> foreign org g) (Raised LookupMissing)) (\<lambda>_.
     tx_bind (tx_read (role_at org role)) (\<lambda>row.
     tx_bind (tx_some row (Raised LookupMissing)) (\<lambda>r.
     tx_bind fresh_uuid (\<lambda>i.
     tx_bind (tx_read clock) (\<lambda>ts.
     let a = \<lparr>gr_id = i, gr_org = org, gr_user = user, gr_role = role, gr_kind = tg_kind g, gr_scope = tg_scope g,
       gr_by = Some granted_by, gr_at = ts, gr_from = from_ts\<rparr> in
     tx_bind (tx_read (\<lambda>s. find (same_grant a) (user_roles s))) (\<lambda>old.
     case old of
       Some x \<Rightarrow> tx_return (x, False, ro_code r)
     | None \<Rightarrow>
         tx_bind (tx_read (\<lambda>s. tg_kind g = ScopeOrg \<or> scope_at org (tg_kind g) (tg_scope g) (scopes s) \<noteq> None)) (\<lambda>there.
         tx_bind (tx_require there (Raised LookupMissing)) (\<lambda>_.
         tx_bind (tx_read (\<lambda>s. identity_at user s \<noteq> None \<and> identity_at granted_by s \<noteq> None)) (\<lambda>known.
         tx_bind (tx_require known (Raised (ForeignKeyViolation ''user_role_user_id_fkey''))) (\<lambda>_.
         tx_bind (tx_update (\<lambda>s. s\<lparr>user_roles := user_roles s @ [a]\<rparr>)) (\<lambda>_.
         tx_return (a, True, ro_code r)))))))))))))"

definition adjust_privileged :: "uuid \<Rightarrow> int \<Rightarrow> (db, unit) tx" where
  "adjust_privileged user delta =
     tx_bind (tx_require (delta = 1 \<or> delta = - 1) (Raised ValueError)) (\<lambda>_.
     tx_bind (tx_read (identity_at user)) (\<lambda>row.
     tx_bind (tx_require (case row of None \<Rightarrow> False | Some r \<Rightarrow> 0 \<le> idn_privileged r + delta) (Raised RuntimeError)) (\<lambda>_.
     tx_update (\<lambda>s. s\<lparr>identities := map (\<lambda>r. if idn_id r = user then r\<lparr>idn_privileged := idn_privileged r + delta\<rparr> else r) (identities s)\<rparr>))))"

definition grant_role :: "uuid \<Rightarrow> uuid \<Rightarrow> uuid \<Rightarrow> uuid \<Rightarrow> target \<Rightarrow> timestamp option \<Rightarrow> (db, grant_row) tx" where
  "grant_role org actor user role g from_ts =
     tx_bind (insert_grant org user role g actor from_ts) (\<lambda>(a, created, code).
     if \<not> created then tx_return a
     else
       tx_bind (if code \<in> set mfa_required_role_codes then adjust_privileged user 1 else tx_return ()) (\<lambda>_.
       tx_bind (role_audit org actor ''user_role.grant'' ''user_role'' (gr_id a)) (\<lambda>_.
       tx_return a)))"

text \<open>A grant taken away, with the code of its role; the user is given when the caller names one.\<close>

definition delete_grant :: "uuid \<Rightarrow> uuid option \<Rightarrow> uuid \<Rightarrow> (db, (grant_row \<times> string) option) tx" where
  "delete_grant org user i =
     tx_bind (tx_read (\<lambda>s. find (\<lambda>a. gr_org a = org \<and> gr_id a = i \<and> (user = None \<or> user = Some (gr_user a)) \<and>
       role_at org (gr_role a) s \<noteq> None) (user_roles s))) (\<lambda>row.
     case row of
       None \<Rightarrow> tx_return None
     | Some a \<Rightarrow>
         tx_bind (tx_update (\<lambda>s. s\<lparr>user_roles := filter (\<lambda>x. gr_id x \<noteq> i) (user_roles s)\<rparr>)) (\<lambda>_.
         tx_read (\<lambda>s. map_option (\<lambda>r. (a, ro_code r)) (role_at org (gr_role a) s))))"

definition end_grant :: "uuid \<Rightarrow> uuid \<Rightarrow> uuid option \<Rightarrow> uuid \<Rightarrow> (db, bool) tx" where
  "end_grant org actor user i =
     tx_bind (delete_grant org user i) (\<lambda>row.
     case row of
       None \<Rightarrow> tx_return False
     | Some (a, code) \<Rightarrow>
         tx_bind (if code \<in> set mfa_required_role_codes then adjust_privileged (gr_user a) (- 1) else tx_return ()) (\<lambda>_.
         tx_bind (role_audit org actor ''user_role.revoke'' ''user_role'' (gr_id a)) (\<lambda>_.
         tx_return True)))"

definition revoke_role :: "uuid \<Rightarrow> uuid \<Rightarrow> uuid \<Rightarrow> (db, bool) tx" where
  "revoke_role org actor i = end_grant org actor None i"

definition revoke_user_role :: "uuid \<Rightarrow> uuid \<Rightarrow> uuid \<Rightarrow> uuid \<Rightarrow> (db, bool) tx" where
  "revoke_user_role org actor user i = end_grant org actor (Some user) i"

section \<open>Identities\<close>

text \<open>A member of the organization: an identity with a grant in it, whether active or not.\<close>

definition user_exists :: "uuid \<Rightarrow> uuid \<Rightarrow> (db, bool) tx" where
  "user_exists org user =
     tx_read (\<lambda>s. identity_at user s \<noteq> None \<and> list_ex (\<lambda>a. gr_org a = org \<and> gr_user a = user) (user_roles s))"

definition revoke_all_sessions :: "uuid \<Rightarrow> timestamp \<Rightarrow> (db, nat) tx" where
  "revoke_all_sessions identity ts =
     tx_bind (tx_read (\<lambda>s. filter (\<lambda>r. sn_identity r = identity \<and> sn_revoked r = None) (sessions s))) (\<lambda>rs.
     tx_bind (tx_require (list_all (\<lambda>r. sn_created r \<le> ts) rs) (Raised (CheckViolation ''auth_session_revocation_order''))) (\<lambda>_.
     tx_bind (tx_update (\<lambda>s. s\<lparr>sessions := map (\<lambda>r. if sn_identity r = identity \<and> sn_revoked r = None
       then r\<lparr>sn_revoked := Some ts\<rparr> else r) (sessions s)\<rparr>)) (\<lambda>_.
     tx_return (length rs))))"

definition deactivate_user :: "uuid \<Rightarrow> uuid \<Rightarrow> uuid \<Rightarrow> (db, bool) tx" where
  "deactivate_user org actor user =
     tx_bind (user_exists org user) (\<lambda>ok.
     tx_bind (tx_require ok (Raised LookupMissing)) (\<lambda>_.
     tx_bind (tx_read (active_identity user)) (\<lambda>active.
     if \<not> active then tx_return False
     else
       tx_bind (tx_read clock) (\<lambda>ts.
       tx_bind (tx_update (\<lambda>s. s\<lparr>identities := map (\<lambda>r. if idn_id r = user \<and> idn_active r
         then r\<lparr>idn_active := False, idn_deactivated := Some ts\<rparr> else r) (identities s)\<rparr>)) (\<lambda>_.
       tx_bind (revoke_all_sessions user ts) (\<lambda>_.
       tx_bind (role_audit org actor ''identity.deactivate'' ''identity'' user) (\<lambda>_.
       tx_return True)))))))"

definition identity_organization :: "string \<Rightarrow> db \<Rightarrow> uuid option" where
  "identity_organization email s =
     (case List.map_filter (\<lambda>m. case identity_at (mb_identity m) s of
          None \<Rightarrow> None | Some r \<Rightarrow> if idn_email r = map char_lower email then Some (mb_org m) else None) (members s) of
        [] \<Rightarrow> None | org # _ \<Rightarrow> Some org)"

definition add_identity_membership :: "uuid \<Rightarrow> uuid \<Rightarrow> (db, unit) tx" where
  "add_identity_membership identity org =
     tx_bind (tx_read (\<lambda>s. list_ex (\<lambda>m. mb_identity m = identity \<and> mb_org m = org) (members s))) (\<lambda>taken.
     tx_bind (tx_require (\<not> taken) (Raised (UniqueViolation ''identity_membership_pkey''))) (\<lambda>_.
     tx_update (\<lambda>s. s\<lparr>members := members s @ [\<lparr>mb_identity = identity, mb_org = org, mb_used = None\<rparr>]\<rparr>)))"

definition select_identity_organization :: "session_row \<Rightarrow> uuid \<Rightarrow> (db, unit) tx" where
  "select_identity_organization session org =
     tx_bind (tx_read (\<lambda>s. list_ex (\<lambda>m. mb_identity m = sn_identity session \<and> mb_org m = org) (members s))) (\<lambda>mine.
     tx_bind (tx_require mine not_found) (\<lambda>_.
     tx_bind (tx_read (\<lambda>s. find (\<lambda>r. sn_id r = sn_id session \<and> sn_identity r = sn_identity session \<and> sn_revoked r = None)
       (sessions s))) (\<lambda>row.
     tx_bind (tx_some row (Problem Unauthorized None)) (\<lambda>r.
     if sn_org r = Some org then tx_return ()
     else
       tx_update (\<lambda>s. s\<lparr>
         sessions := map (\<lambda>r. if sn_id r = sn_id session then r\<lparr>sn_org := Some org\<rparr> else r) (sessions s),
         members := map (\<lambda>m. if mb_identity m = sn_identity session \<and> mb_org m = org then m\<lparr>mb_used := Some (clock s)\<rparr> else m) (members s),
         session_events := session_events s @ [\<lparr>sv_session = Some (sn_id session), sv_identity = sn_identity session,
           sv_type = ''organization_switched'', sv_at = clock s, sv_ip = sn_ip session, sv_agent = sn_agent session\<rparr>]\<rparr>)))))"

definition identity_email :: "uuid \<Rightarrow> db \<Rightarrow> string option" where
  "identity_email i s = map_option idn_email (identity_at i s)"

definition user_id_by_email :: "uuid \<Rightarrow> string \<Rightarrow> db \<Rightarrow> uuid option" where
  "user_id_by_email org email s =
     map_option idn_id (find (\<lambda>r. map char_lower (idn_email r) = map char_lower email \<and>
       list_ex (\<lambda>a. gr_org a = org \<and> gr_user a = idn_id r) (user_roles s)) (identities s))"

definition emails_by_id :: "uuid list \<Rightarrow> db \<Rightarrow> uuid \<Rightarrow> string option" where
  "emails_by_id ids s i = (if i \<in> set ids then identity_email i s else None)"

end
