(* ===== verification/Projects.thy ===== *)
theory Projects
  imports Numbering BudgetReads Access
begin

text \<open>
  \<open>flo/modules/projects/service.py\<close>: the creation of projects, with the triggers and keys of
  migrations 0017, 0018 and 0036 to 0039, and the reads over the tree.  Properties: the tree is
  well formed and its walks are never cut short by the guard of the recursive queries.
\<close>

section \<open>Creation\<close>

record project_create =
  pc_bu :: uuid
  pc_parent :: "uuid option"
  pc_name :: string
  pc_description :: "string option"
  pc_external_ref :: "string option"
  pc_department :: string
  pc_account :: string
  pc_currency :: string
  pc_start :: "date option"
  pc_end :: "date option"
  pc_owner :: "uuid option"
  pc_sponsor :: "uuid option"

definition check_user :: "uuid \<Rightarrow> uuid option \<Rightarrow> (db, unit) tx" where
  "check_user org user =
     (case user of None \<Rightarrow> tx_return ()
      | Some u \<Rightarrow> tx_bind (user_exists org u) (\<lambda>ok. tx_require ok (invalid ''invalid_project'')))"

definition check_dates :: "date option \<Rightarrow> date option \<Rightarrow> (db, unit) tx" where
  "check_dates start end =
     tx_require (case (start, end) of (Some a, Some b) \<Rightarrow> \<not> b < a | _ \<Rightarrow> True) (invalid ''invalid_project'')"

text \<open>A code of the body, usable on the day; its stored spelling is the one kept.\<close>

definition usable_code :: "uuid \<Rightarrow> string \<Rightarrow> string \<Rightarrow> date \<Rightarrow> (db, string) tx" where
  "usable_code org kind code on_date =
     tx_catch (tx_bind (assert_usable org kind code on_date) (\<lambda>r. tx_return (mr_code r)))
       (\<lambda>e. tx_fail (case e of Raised (MasterCodeUnusable reason) \<Rightarrow> invalid reason | _ \<Rightarrow> e))"

definition project_audit :: "uuid \<Rightarrow> uuid option \<Rightarrow> string \<Rightarrow> uuid \<Rightarrow> string option \<Rightarrow> (db, unit) tx" where
  "project_audit org actor action pid reason =
     tx_bind (tx_lift (make_actor UserActor actor)) (\<lambda>a.
     tx_bind (audit_write org a action ''project'' (Some pid) None Success reason) (\<lambda>_. tx_return ()))"

text \<open>The trigger \<open>enforce_project_hierarchy\<close> on insertion: depth and root.\<close>

definition place_project :: "uuid \<Rightarrow> uuid option \<Rightarrow> uuid \<Rightarrow> (db, nat \<times> uuid) tx" where
  "place_project org parent new =
     (case parent of
        None \<Rightarrow> tx_return (1, new)
      | Some q \<Rightarrow>
          tx_bind (tx_read (find_project org q)) (\<lambda>row.
          tx_bind (tx_some row (Raised (CheckViolation ''parent not found in organization''))) (\<lambda>p.
          tx_bind (tx_require (\<not> 5 \<le> p_depth p) (invalid ''project_depth_exceeded'')) (\<lambda>_.
          tx_return (Suc (p_depth p), p_root p)))))"

definition project_rows :: "db \<Rightarrow> (uuid \<times> project_row) list" where
  "project_rows s = List.map_filter (\<lambda>i. map_option (Pair i) (projects s i)) (project_ids s)"

text \<open>The row's constraints, in the order the database checks them, then the row itself.\<close>

definition insert_row :: "uuid \<Rightarrow> project_row \<Rightarrow> (db, unit) tx" where
  "insert_row new p =
     tx_bind (tx_require (p_created_by p \<noteq> None) (Raised (NotNullViolation ''created_by''))) (\<lambda>_.
     tx_bind (tx_require (case (p_planned_start p, p_planned_end p) of (Some a, Some b) \<Rightarrow> a \<le> b | _ \<Rightarrow> True)
                (Raised (CheckViolation ''project_check''))) (\<lambda>_.
     tx_bind (tx_read (\<lambda>s. list_ex (\<lambda>(i, q). p_org q = p_org p \<and> p_bu q = p_bu p \<and> p_number q = p_number p) (project_rows s))) (\<lambda>dup.
     tx_bind (tx_require (\<not> dup) (conflict ''duplicate_number'')) (\<lambda>_.
     tx_bind (tx_read (\<lambda>s. p_external_ref p \<noteq> None \<and>
                list_ex (\<lambda>(i, q). p_org q = p_org p \<and> p_external_ref q = p_external_ref p) (project_rows s))) (\<lambda>taken.
     tx_bind (tx_require (\<not> taken) (conflict ''external_ref_locked'')) (\<lambda>_.
     tx_bind (tx_read (\<lambda>s. p_generated_by p \<noteq> None \<and>
                list_ex (\<lambda>(i, q). p_org q = p_org p \<and> p_generated_by q = p_generated_by p) (project_rows s))) (\<lambda>again.
     tx_bind (tx_require (\<not> again) (Raised (UniqueViolation ''project_generated_requisition''))) (\<lambda>_.
     tx_bind (tx_read (\<lambda>s. find_unit (units s) (p_org p) (p_bu p))) (\<lambda>u.
     tx_bind (tx_require (u \<noteq> None) (Raised (ForeignKeyViolation ''project_org_id_bu_id_fkey''))) (\<lambda>_.
     tx_update (\<lambda>s. s\<lparr>projects := (projects s)(new \<mapsto> p), project_ids := project_ids s @ [new]\<rparr>)))))))))))"

text \<open>Everything after the number: one transaction, rolled back as a whole.\<close>

definition store_project ::
  "uuid \<Rightarrow> uuid option \<Rightarrow> project_create \<Rightarrow> string \<times> string \<Rightarrow> uuid \<Rightarrow> project_status \<Rightarrow> uuid option \<Rightarrow>
   string option \<Rightarrow> uuid option \<Rightarrow> string \<Rightarrow> (db, uuid \<times> project_row) tx" where
  "store_project org actor body codes owner status generated_by audit_reason source number =
     tx_bind fresh_uuid (\<lambda>new.
     tx_bind (place_project org (pc_parent body) new) (\<lambda>(depth, top_id).
     let p = \<lparr>p_org = org, p_bu = pc_bu body, p_parent = pc_parent body, p_root = top_id, p_depth = depth,
       p_name = pc_name body, p_status = status, p_currency = pc_currency body, p_department = fst codes,
       p_account = snd codes, p_version = 1, p_number = number, p_source_requisition = source,
       p_generated_by = generated_by, p_description = pc_description body, p_external_ref = pc_external_ref body,
       p_owner = owner, p_sponsor = pc_sponsor body, p_planned_start = pc_start body, p_planned_end = pc_end body,
       p_health = UnknownHealth, p_percent = 0, p_actual_start = None, p_actual_end = None, p_created_by = actor\<rparr> in
     tx_bind (insert_row new p) (\<lambda>_.
     tx_bind (tx_read (\<lambda>s. balances s new)) (\<lambda>b.
     tx_bind (tx_require (b = None) (Raised (UniqueViolation ''project_balance_pkey''))) (\<lambda>_.
     tx_bind (tx_update (\<lambda>s. s\<lparr>balances := (balances s)(new \<mapsto> new_balance p (clock s))\<rparr>)) (\<lambda>_.
     tx_bind (case pc_parent body of
                None \<Rightarrow> register_project_scope org new ScopeUnit (pc_bu body)
              | Some q \<Rightarrow> register_project_scope org new ScopeProject q) (\<lambda>_.
     tx_bind (project_audit org actor ''project.create'' new (if source = None then None else audit_reason)) (\<lambda>_.
     tx_return (new, p)))))))))"

text \<open>
  The number is allocated and committed first: when the rest fails, the counter stays where it is.
\<close>

definition insert_project ::
  "uuid \<Rightarrow> uuid option \<Rightarrow> project_create \<Rightarrow> string \<times> string \<Rightarrow> uuid \<Rightarrow> date \<Rightarrow> project_status \<Rightarrow> uuid option \<Rightarrow>
   string option \<Rightarrow> uuid option \<Rightarrow> db \<Rightarrow> (problem + uuid \<times> project_row) \<times> db" where
  "insert_project org actor body codes owner on_date status generated_by audit_reason source s =
     (case allocate_number org (pc_bu body) ''project'' on_date s of
        Inl e \<Rightarrow> (Inl e, s)
      | Inr (number, s1) \<Rightarrow>
          (case store_project org actor body codes owner status generated_by audit_reason source number s1 of
             Inl e \<Rightarrow> (Inl e, s1)
           | Inr (r, t) \<Rightarrow> (Inr r, t)))"

definition create_checks :: "uuid \<Rightarrow> uuid option \<Rightarrow> date \<Rightarrow> project_create \<Rightarrow> (db, (string \<times> string) \<times> uuid) tx" where
  "create_checks org actor on_date body =
     tx_bind (tx_read (\<lambda>s. find_unit (units s) org (pc_bu body))) (\<lambda>u.
     tx_bind (tx_require (u \<noteq> None) not_found) (\<lambda>_.
     tx_bind (case pc_parent body of None \<Rightarrow> tx_return ()
              | Some q \<Rightarrow> tx_bind (depth_of org q) (\<lambda>d. tx_require (\<not> 5 \<le> d) (invalid ''project_depth_exceeded''))) (\<lambda>_.
     tx_bind (usable_code org ''department'' (pc_department body) on_date) (\<lambda>dep.
     tx_bind (usable_code org ''ledger_account'' (pc_account body) on_date) (\<lambda>acc.
     tx_bind (tx_require (pc_currency body \<in> set (map fst iso4217)) (invalid ''invalid_project'')) (\<lambda>_.
     tx_bind (tx_some (case pc_owner body of None \<Rightarrow> actor | Some o' \<Rightarrow> Some o') (Raised RuntimeError)) (\<lambda>owner.
     tx_bind (check_user org (Some owner)) (\<lambda>_.
     tx_bind (check_user org (pc_sponsor body)) (\<lambda>_.
     tx_bind (check_dates (pc_start body) (pc_end body)) (\<lambda>_.
     tx_return ((dep, acc), owner)))))))))))"

definition create_project :: "uuid \<Rightarrow> uuid option \<Rightarrow> date \<Rightarrow> project_create \<Rightarrow> db \<Rightarrow> (problem + uuid \<times> project_row) \<times> db" where
  "create_project org actor on_date body s =
     (case create_checks org actor on_date body s of
        Inl e \<Rightarrow> (Inl e, s)
      | Inr ((codes, owner), s1) \<Rightarrow> insert_project org actor body codes owner on_date Draft None None None s1)"

definition create_generated ::
  "uuid \<Rightarrow> uuid option \<Rightarrow> date \<Rightarrow> project_create \<Rightarrow> uuid option \<Rightarrow> uuid option \<Rightarrow> string \<Rightarrow> db \<Rightarrow>
   (problem + uuid \<times> project_row) \<times> db" where
  "create_generated org actor on_date body generated_by source reason s =
     (case pc_owner body of
        None \<Rightarrow> (Inl (Raised (NotNullViolation ''owner_id'')), s)
      | Some owner \<Rightarrow>
          insert_project org actor body (pc_department body, pc_account body) owner on_date Active generated_by (Some reason)
            (case source of None \<Rightarrow> generated_by | Some r \<Rightarrow> Some r) s)"

text \<open>The sponsors of a request, of which the project keeps the first.\<close>

definition apply_sponsors :: "uuid \<Rightarrow> uuid \<Rightarrow> uuid list \<Rightarrow> (db, unit) tx" where
  "apply_sponsors org pid users =
     (case users of [] \<Rightarrow> tx_return ()
      | u # _ \<Rightarrow> tx_update (\<lambda>s. s\<lparr>
          sponsors := foldl (\<lambda>xs x. if (org, pid, x) \<in> set xs then xs else xs @ [(org, pid, x)]) (sponsors s) users,
          projects := (case find_project org pid s of None \<Rightarrow> projects s
            | Some p \<Rightarrow> (projects s)(pid \<mapsto> p\<lparr>p_sponsor := Some u\<rparr>))\<rparr>))"

definition project_sponsors :: "uuid \<Rightarrow> uuid \<Rightarrow> (db, uuid list) tx" where
  "project_sponsors org pid =
     tx_bind (tx_read (\<lambda>s. sort (map (\<lambda>r. snd (snd r)) (filter (\<lambda>r. fst r = org \<and> fst (snd r) = pid) (sponsors s))))) (\<lambda>found.
     tx_bind (get_project org pid) (\<lambda>p.
     tx_return (if found \<noteq> [] then found else (case p_sponsor p of None \<Rightarrow> [] | Some u \<Rightarrow> [u]))))"

definition substitute_codes :: "uuid \<Rightarrow> uuid option \<Rightarrow> uuid \<Rightarrow> string option \<times> string option \<Rightarrow> (db, project_row) tx" where
  "substitute_codes org actor pid changes =
     tx_bind (get_project org pid) (\<lambda>p.
     if changes = (None, None) then tx_return p
     else
       let q = p\<lparr>p_department := (case fst changes of None \<Rightarrow> p_department p | Some c \<Rightarrow> c),
                 p_account := (case snd changes of None \<Rightarrow> p_account p | Some c \<Rightarrow> c)\<rparr> in
       tx_bind (tx_update (\<lambda>s. s\<lparr>projects := (projects s)(pid \<mapsto> q)\<rparr>)) (\<lambda>_.
       tx_bind (project_audit org actor ''project.code_substitute'' pid None) (\<lambda>_.
       get_project org pid)))"

section \<open>Changes\<close>

text \<open>A field of a patch: not set, set to null, or set to a value; and the version of \<open>If-Match\<close>.\<close>

datatype 'a patch = Keep | SetNull | Put 'a

datatype if_match = NoVersion | NotAnInteger | Version int

record project_patch =
  pp_external_ref :: "string patch"
  pp_name :: "string patch"
  pp_description :: "string patch"
  pp_owner :: "uuid patch"
  pp_sponsor :: "uuid patch"
  pp_start :: "date patch"
  pp_end :: "date patch"
  pp_health :: "project_health patch"
  pp_percent :: "int patch"
  pp_actual_start :: "date patch"
  pp_actual_end :: "date patch"

fun patched :: "'a patch \<Rightarrow> 'a option \<Rightarrow> 'a option" where
  "patched Keep old = old"
| "patched SetNull old = None"
| "patched (Put x) old = Some x"

fun patched_value :: "'a patch \<Rightarrow> 'a \<Rightarrow> 'a" where
  "patched_value (Put x) old = x"
| "patched_value _ old = old"

definition expected_version :: "string \<Rightarrow> if_match \<Rightarrow> (db, int) tx" where
  "expected_version missing v =
     (case v of
        NoVersion \<Rightarrow> tx_fail (Problem BadRequest (if missing = [] then None else Some missing))
      | NotAnInteger \<Rightarrow> tx_fail (Problem BadRequest None)
      | Version n \<Rightarrow> tx_return n)"

text \<open>An external reference is set once and never shared.\<close>

definition check_external_ref :: "uuid \<Rightarrow> project_row \<Rightarrow> string patch \<Rightarrow> (db, unit) tx" where
  "check_external_ref org p change =
     (if change = Keep then tx_return ()
      else
        let ref = patched change (p_external_ref p) in
        tx_bind (tx_require (p_external_ref p = None \<or> ref = p_external_ref p) (conflict ''external_ref_locked'')) (\<lambda>_.
        case ref of
          None \<Rightarrow> tx_return ()
        | Some r \<Rightarrow>
            if ref = p_external_ref p then tx_return ()
            else tx_bind (tx_read (\<lambda>s. list_ex (\<lambda>(i, q). p_org q = org \<and> p_external_ref q = Some r) (project_rows s))) (\<lambda>used.
                 tx_require (\<not> used) (conflict ''external_ref_locked''))))"

definition patched_project :: "project_patch \<Rightarrow> project_row \<Rightarrow> project_row" where
  "patched_project body p =
     p\<lparr>p_external_ref := patched (pp_external_ref body) (p_external_ref p),
       p_name := patched_value (pp_name body) (p_name p),
       p_description := patched (pp_description body) (p_description p),
       p_owner := patched_value (pp_owner body) (p_owner p),
       p_sponsor := patched (pp_sponsor body) (p_sponsor p),
       p_planned_start := patched (pp_start body) (p_planned_start p),
       p_planned_end := patched (pp_end body) (p_planned_end p),
       p_health := patched_value (pp_health body) (p_health p),
       p_percent := patched_value (pp_percent body) (p_percent p),
       p_actual_start := patched (pp_actual_start body) (p_actual_start p),
       p_actual_end := patched (pp_actual_end body) (p_actual_end p),
       p_version := Suc (p_version p)\<rparr>"

definition update_project :: "uuid \<Rightarrow> uuid option \<Rightarrow> uuid \<Rightarrow> project_patch \<Rightarrow> if_match \<Rightarrow> (db, project_row) tx" where
  "update_project org actor pid body version =
     tx_bind (expected_version ''if_match_required'' version) (\<lambda>expected.
     tx_bind (get_project org pid) (\<lambda>p.
     tx_bind (tx_require (int (p_version p) = expected) (conflict ''stale_version'')) (\<lambda>_.
     tx_bind (check_external_ref org p (pp_external_ref body)) (\<lambda>_.
     tx_bind (tx_require (pp_name body \<noteq> SetNull \<and> pp_owner body \<noteq> SetNull \<and> pp_health body \<noteq> SetNull \<and> pp_percent body \<noteq> SetNull)
                (invalid ''invalid_project'')) (\<lambda>_.
     tx_bind (check_user org (case pp_owner body of Put u \<Rightarrow> Some u | _ \<Rightarrow> None)) (\<lambda>_.
     tx_bind (check_user org (case pp_sponsor body of Put u \<Rightarrow> Some u | _ \<Rightarrow> None)) (\<lambda>_.
     let q = patched_project body p in
     tx_bind (check_dates (p_planned_start q) (p_planned_end q)) (\<lambda>_.
     tx_bind (check_dates (p_actual_start q) (p_actual_end q)) (\<lambda>_.
     tx_bind (tx_update (\<lambda>s. s\<lparr>projects := (projects s)(pid \<mapsto> q)\<rparr>)) (\<lambda>_.
     tx_bind (project_audit org actor ''project.update'' pid None) (\<lambda>_.
     get_project org pid)))))))))))"

section \<open>Reads over the tree\<close>

text \<open>The children page by page, by number and id.\<close>

definition child_rows :: "uuid \<Rightarrow> uuid \<Rightarrow> db \<Rightarrow> (uuid \<times> project_row) list" where
  "child_rows org pid s =
     sort_key (\<lambda>(i, p). (p_number p, i)) (filter (\<lambda>(i, p). p_org p = org \<and> p_parent p = Some pid) (project_rows s))"

definition children_page ::
  "uuid \<Rightarrow> uuid \<Rightarrow> (uuid \<times> string \<times> uuid) option \<Rightarrow> int \<Rightarrow>
   (db, (uuid \<times> project_row) list \<times> (uuid \<times> string \<times> uuid) option) tx" where
  "children_page org pid cursor page_size =
     tx_bind (tx_require (1 \<le> page_size \<and> page_size \<le> 50) (invalid ''invalid_project'')) (\<lambda>_.
     tx_bind (tx_require (case cursor of None \<Rightarrow> True | Some (q, _) \<Rightarrow> q = pid) (invalid ''invalid_project'')) (\<lambda>_.
     tx_bind (get_project org pid) (\<lambda>_.
     tx_bind (tx_read (\<lambda>s. take (Suc (nat page_size))
        (filter (\<lambda>(i, p). (case cursor of None \<Rightarrow> ([], 0) | Some (_, c) \<Rightarrow> c) < (p_number p, i)) (child_rows org pid s)))) (\<lambda>rows.
     let page = take (nat page_size) rows in
     tx_return (page, if nat page_size < length rows \<and> page \<noteq> []
                      then Some (pid, p_number (snd (last page)), fst (last page)) else None)))))"

text \<open>
  The tree below a project, at most \<open>max_depth\<close> levels and 500 nodes: each with the node it hangs
  from, and its balance when asked for.  The percentage is that of the exact quotient.
\<close>

record tree_node =
  tn_id :: uuid
  tn_row :: project_row
  tn_parent :: "uuid option"
  tn_balance :: "balance_row option"
  tn_consumed :: "rat option"

fun tree_levels :: "nat \<Rightarrow> uuid \<Rightarrow> db \<Rightarrow> uuid list \<Rightarrow> uuid list" where
  "tree_levels 0 org s level = []"
| "tree_levels (Suc n) org s level =
     level @ tree_levels n org s
       (filter (\<lambda>i. case find_project org i s of None \<Rightarrow> False
          | Some p \<Rightarrow> (case p_parent p of None \<Rightarrow> False | Some q \<Rightarrow> q \<in> set level)) (project_ids s))"

definition consumed_percent :: "balance_row \<Rightarrow> rat option" where
  "consumed_percent b =
     (if b_allocated b = 0 then None
      else Some (of_int (round_half_up ((b_allocated b - b_available b) * 100 / b_allocated b * 10)) / 10))"

definition project_tree :: "uuid \<Rightarrow> uuid \<Rightarrow> int \<Rightarrow> bool \<Rightarrow> (db, tree_node list \<times> bool) tx" where
  "project_tree org pid max_depth with_balances =
     tx_bind (tx_require (1 \<le> max_depth \<and> max_depth \<le> 5) (invalid ''invalid_project'')) (\<lambda>_.
     tx_bind (get_project org pid) (\<lambda>_.
     tx_read (\<lambda>s.
       let found = sort_key (\<lambda>(i, p). (p_depth p, i))
             (List.map_filter (\<lambda>i. map_option (Pair i) (find_project org i s)) (remdups (tree_levels (nat max_depth) org s [pid])));
           kept = take 500 found
       in (map (\<lambda>(i, p).
             let b = (if with_balances then balance_at org i s else None) in
             \<lparr>tn_id = i, tn_row = p,
              tn_parent = (case p_parent p of None \<Rightarrow> None
                 | Some q \<Rightarrow> if i \<noteq> pid \<and> q \<in> set (map fst kept) then Some q else None),
              tn_balance = b, tn_consumed = (case b of None \<Rightarrow> None | Some b \<Rightarrow> consumed_percent b)\<rparr>) kept,
           500 < length found))))"

definition generated_for :: "uuid \<Rightarrow> uuid \<Rightarrow> (db, (uuid \<times> project_row) option) tx" where
  "generated_for org req =
     tx_read (\<lambda>s. find (\<lambda>(i, p). p_org p = org \<and> p_generated_by p = Some req) (project_rows s))"

definition requested_for :: "uuid \<Rightarrow> uuid \<Rightarrow> (db, uuid option) tx" where
  "requested_for org req =
     tx_read (\<lambda>s. map_option fst (find (\<lambda>(i, p). p_org p = org \<and> p_source_requisition p = Some req \<and> p_generated_by p = None) (project_rows s)))"

definition get_by_external_ref :: "uuid \<Rightarrow> string \<Rightarrow> (db, (uuid \<times> project_row) option) tx" where
  "get_by_external_ref org ref =
     tx_read (\<lambda>s. find (\<lambda>(i, p). p_org p = org \<and> p_external_ref p = Some ref) (project_rows s))"

definition is_requisition_generated :: "uuid \<Rightarrow> uuid \<Rightarrow> (db, bool) tx" where
  "is_requisition_generated org pid = tx_bind (get_project org pid) (\<lambda>p. tx_return (p_generated_by p \<noteq> None))"

end
