(* ===== verification/ProjectLaws.thy ===== *)
theory ProjectLaws
  imports Projects FundingLaws
begin

text \<open>
  The project tree stays well formed: every project hangs from a project of its organization one
  level up, at most five levels deep, with the root of its parent; numbers and external references
  stay unique.  On such a tree the guarded walks of the queries reach the root.
\<close>

section \<open>The invariant\<close>

definition placed :: "(uuid \<rightharpoonup> project_row) \<Rightarrow> uuid \<Rightarrow> project_row \<Rightarrow> bool" where
  "placed ps i p \<longleftrightarrow> 1 \<le> p_depth p \<and> p_depth p \<le> 5 \<and>
     (case p_parent p of
        None \<Rightarrow> p_depth p = 1 \<and> p_root p = i
      | Some q \<Rightarrow> (\<exists>r. ps q = Some r \<and> p_org r = p_org p \<and> p_depth p = Suc (p_depth r) \<and> p_root p = p_root r))"

text \<open>Two projects that may not both exist: the same number of one unit, or one external reference.\<close>

definition clash :: "project_row \<Rightarrow> project_row \<Rightarrow> bool" where
  "clash p q \<longleftrightarrow> p_org p = p_org q \<and>
     (p_bu p = p_bu q \<and> p_number p = p_number q \<or> p_external_ref p = p_external_ref q \<and> p_external_ref p \<noteq> None)"

lemma clash_sym: "clash p q = clash q p"
  by (auto simp: clash_def)

definition tree_ok :: "db \<Rightarrow> bool" where
  "tree_ok s \<longleftrightarrow> distinct (project_ids s) \<and> (\<forall>i. projects s i \<noteq> None \<longleftrightarrow> i \<in> set (project_ids s)) \<and>
     (\<forall>i p. projects s i = Some p \<longrightarrow> i < next_uuid s \<and> placed (projects s) i p) \<and>
     (\<forall>i p j q. projects s i = Some p \<longrightarrow> projects s j = Some q \<longrightarrow> clash p q \<longrightarrow> i = j)"

lemma tree_okD:
  assumes "tree_ok s"
  shows "distinct (project_ids s)" "i \<in> set (project_ids s) \<longleftrightarrow> projects s i \<noteq> None"
    "projects s i = Some p \<Longrightarrow> i < next_uuid s" "projects s i = Some p \<Longrightarrow> placed (projects s) i p"
    "projects s i = Some p \<Longrightarrow> projects s j = Some q \<Longrightarrow> clash p q \<Longrightarrow> i = j"
  using assms unfolding tree_ok_def by blast+

lemma tree_ok_empty: "tree_ok empty_db"
  by (simp add: tree_ok_def empty_db_def)

lemma tree_ok_cong:
  "projects t = projects s \<Longrightarrow> project_ids t = project_ids s \<Longrightarrow> next_uuid s \<le> next_uuid t \<Longrightarrow> tree_ok s \<Longrightarrow> tree_ok t"
  unfolding tree_ok_def by (metis less_le_trans)

lemma project_rows_mem:
  assumes "tree_ok s"
  shows "(i, p) \<in> set (project_rows s) \<longleftrightarrow> projects s i = Some p"
  using tree_okD(2) [OF assms, of i]
  by (auto simp: project_rows_def List.map_filter_def image_iff split: option.splits)

text \<open>A new row in a place of its own, and a changed row that stays where it is.\<close>

lemma tree_ok_set:
  assumes ok: "tree_ok s" and place: "placed ((projects s)(i \<mapsto> p)) i p"
    and others: "\<And>j q. projects s j = Some q \<Longrightarrow> placed ((projects s)(i \<mapsto> p)) j q"
    and clashes: "\<And>j q. projects s j = Some q \<Longrightarrow> j \<noteq> i \<Longrightarrow> \<not> clash p q"
    and t: "projects t = (projects s)(i \<mapsto> p)" "next_uuid s \<le> next_uuid t" "i < next_uuid t"
      "project_ids t = (if projects s i = None then project_ids s @ [i] else project_ids s)"
  shows "tree_ok t"
proof -
  have "distinct (project_ids t)" "\<forall>j. projects t j \<noteq> None \<longleftrightarrow> j \<in> set (project_ids t)"
    using tree_okD(1,2) [OF ok] by (auto simp: t)
  moreover have "\<forall>j q. projects t j = Some q \<longrightarrow> j < next_uuid t \<and> placed (projects t) j q"
    using place others tree_okD(3) [OF ok] t by (fastforce split: if_splits)
  moreover have "\<forall>j q k r. projects t j = Some q \<longrightarrow> projects t k = Some r \<longrightarrow> clash q r \<longrightarrow> j = k"
    using clashes clash_sym tree_okD(5) [OF ok] by (auto simp: t split: if_splits)
  ultimately show ?thesis unfolding tree_ok_def by blast
qed

lemma placed_new:
  assumes "placed ps j q" "ps i = None"
  shows "placed (ps(i \<mapsto> p)) j q"
  using assms by (auto simp: placed_def split: option.splits)

lemma placed_change:
  assumes "placed ps j q" "ps i = Some p" "p_org p' = p_org p" "p_depth p' = p_depth p" "p_root p' = p_root p"
  shows "placed (ps(i \<mapsto> p')) j q"
  using assms by (auto simp: placed_def split: option.splits)

lemma tree_ok_insert:
  assumes ok: "tree_ok s" and new: "projects s i = None" "i < next_uuid t" "next_uuid s \<le> next_uuid t"
    and place: "placed (projects s) i p" and clashes: "\<And>j q. projects s j = Some q \<Longrightarrow> \<not> clash p q"
    and t: "projects t = (projects s)(i \<mapsto> p)" "project_ids t = project_ids s @ [i]"
  shows "tree_ok t"
  by (rule tree_ok_set [OF ok, of i p])
    (use new place clashes t placed_new tree_okD(4) [OF ok] in simp_all)

lemma tree_ok_change:
  assumes ok: "tree_ok s" and p: "projects s i = Some p"
    and same: "p_org q = p_org p" "p_parent q = p_parent p" "p_root q = p_root p" "p_depth q = p_depth p"
    and clashes: "\<And>j r. projects s j = Some r \<Longrightarrow> j \<noteq> i \<Longrightarrow> \<not> clash q r"
    and t: "projects t = (projects s)(i \<mapsto> q)" "project_ids t = project_ids s" "next_uuid s \<le> next_uuid t"
  shows "tree_ok t"
proof (rule tree_ok_set [OF ok, of i q])
  show others: "placed ((projects s)(i \<mapsto> q)) j r" if "projects s j = Some r" for j r
    using placed_change [OF tree_okD(4) [OF ok that] p] same by simp
  show "placed ((projects s)(i \<mapsto> q)) i q"
    using others [OF p] same by (cases "p_parent p") (simp_all add: placed_def)
  show "i < next_uuid t" using tree_okD(3) [OF ok p] t(3) by simp
qed (use clashes t p in simp_all)

section \<open>Creation keeps it\<close>

text \<open>Nothing else of the database's tree changes in a creation.\<close>

definition same_tree :: "db \<Rightarrow> db \<Rightarrow> bool" where
  "same_tree s t \<longleftrightarrow> projects t = projects s \<and> project_ids t = project_ids s \<and> next_uuid s \<le> next_uuid t"

interpretation trees: tx_preorder same_tree
  by unfold_locales (auto simp: same_tree_def)

lemma same_tree_ok: "same_tree s t \<Longrightarrow> tree_ok s \<Longrightarrow> tree_ok t"
  using tree_ok_cong by (auto simp: same_tree_def)

lemma audit_same_tree: "tx_rel same_tree (project_audit org actor action pid reason)"
  unfolding project_audit_def
  by (intro trees.tx_ok) (auto simp: tx_rel_def audit_write_Inr same_tree_def)

lemma place_project_Inr:
  assumes "tree_ok s" "place_project org parent new s = Inr ((d, r), t)" "p_org p = org" "p_parent p = parent" "p_depth p = d" "p_root p = r"
  shows "t = s" "placed (projects s) new p"
proof -
  show "t = s" using assms(2) by (auto simp: place_project_def tx_bind_Inr split: option.splits)
  show "placed (projects s) new p"
  proof (cases parent)
    case None
    then show ?thesis using assms by (simp add: place_project_def placed_def)
  next
    case (Some q)
    with assms(2) obtain row where row: "find_project org q s = Some row" "p_depth row < 5" "d = Suc (p_depth row)" "r = p_root row"
      by (auto simp: place_project_def tx_bind_Inr)
    then have "projects s q = Some row" "p_org row = org" by (auto simp: find_project_def split: option.splits if_splits)
    then show ?thesis using row assms Some by (simp add: placed_def)
  qed
qed

lemma insert_row_Inr:
  assumes "insert_row new p s = Inr (u, t)"
  shows "t = s\<lparr>projects := (projects s)(new \<mapsto> p), project_ids := project_ids s @ [new]\<rparr>"
    "\<not> list_ex (\<lambda>(i, q). p_org q = p_org p \<and> p_bu q = p_bu p \<and> p_number q = p_number p) (project_rows s)"
    "p_external_ref p \<noteq> None \<longrightarrow> \<not> list_ex (\<lambda>(i, q). p_org q = p_org p \<and> p_external_ref q = p_external_ref p) (project_rows s)"
  using assms by (auto simp: insert_row_def tx_bind_Inr)

lemma insert_row_no_clash:
  assumes "tree_ok s" "insert_row new p s = Inr (u, t)" "projects s j = Some q"
  shows "\<not> clash p q"
  using insert_row_Inr(2,3) [OF assms(2)] project_rows_mem [OF assms(1), of j q] assms(3)
  by (auto simp: clash_def list_ex_iff)

lemma store_project_Inr:
  assumes "store_project org actor body codes owner status gen reason source number s = Inr ((new, p), t)"
  obtains s1 s2 s3 d r where "fresh_uuid s = Inr (new, s1)" "place_project org (pc_parent body) new s1 = Inr ((d, r), s2)"
    "insert_row new p s2 = Inr ((), s3)" "balances s3 new = None"
    "same_tree s3 t" "balances t = (balances s3)(new \<mapsto> new_balance p (clock s3))"
    "p_org p = org" "p_bu p = pc_bu body" "p_parent p = pc_parent body" "p_root p = r" "p_depth p = d" "p_status p = status"
    "p_number p = number" "p_version p = 1"
  using assms unfolding store_project_def Let_def
proof (elim tx_bindE, goal_cases)
  case outer: (1 i s1 dr s2)
  obtain d r where dr: "dr = (d, r)" by (cases dr)
  from outer(4) show ?case
    unfolding dr prod.case
  proof (elim tx_bindE, goal_cases)
    case (1 u s3 b s4 u2 s5 u3 s6 u4 s7 u5 s8)
    obtain rows where s7: "s7 = s6\<lparr>scopes := rows\<rparr>"
      using 1(5) by (auto split: option.splits dest: register_project_scope_only)
    then have "same_tree s6 s7" by (simp add: same_tree_def)
    moreover have "same_tree s7 s8" using tx_relD [OF audit_same_tree 1(6)] .
    ultimately have "same_tree s3 t" using 1(2-4,7) by (auto simp: same_tree_def)
    moreover have "balances s7 = balances s6"
      by (simp add: s7)
    then have "balances t = (balances s3)(i \<mapsto> new_balance p (clock s3))"
      using 1(2-4,6,7) by (auto simp: project_audit_def tx_bind_Inr audit_write_Inr)
    ultimately show ?thesis
      using outer(1) [of s1 d r s2 s3] outer(2,3) 1 dr by (simp)
  qed
qed

text \<open>Storing a project keeps the tree.\<close>

lemma fresh_same_tree: "fresh_uuid s = Inr (u, t) \<Longrightarrow> same_tree s t \<and> u < next_uuid t \<and> u = next_uuid s"
  by (auto simp: fresh_uuid_Inr same_tree_def)

lemma tree_ok_fresh:
  assumes "tree_ok s"
  shows "projects s (next_uuid s) = None"
  using tree_okD(3) [OF assms, of "next_uuid s"] by (cases "projects s (next_uuid s)") auto

lemma store_project_tree:
  assumes ok: "tree_ok s" and run: "store_project org actor body codes owner status gen reason source number s = Inr ((new, p), t)"
  shows "tree_ok t" "projects s new = None" "projects t = (projects s)(new \<mapsto> p)"
proof -
  from run obtain s1 s2 s3 d r where steps: "fresh_uuid s = Inr (new, s1)" "place_project org (pc_parent body) new s1 = Inr ((d, r), s2)"
    "insert_row new p s2 = Inr ((), s3)" "same_tree s3 t"
    and p: "p_org p = org" "p_parent p = pc_parent body" "p_root p = r" "p_depth p = d"
    by (elim store_project_Inr)
  have fresh: "same_tree s s1" "new < next_uuid s1" "new = next_uuid s" using fresh_same_tree [OF steps(1)] by auto
  have ok1: "tree_ok s1" by (rule same_tree_ok [OF fresh(1) ok])
  have s2: "s2 = s1" and place: "placed (projects s1) new p"
    using place_project_Inr [OF ok1 steps(2) p(1,2) p(4) p(3)] by auto
  show gone: "projects s new = None" using tree_ok_fresh [OF ok] fresh(3) by simp
  have s3: "projects s3 = (projects s1)(new \<mapsto> p)" "project_ids s3 = project_ids s1 @ [new]" "next_uuid s3 = next_uuid s1"
    using insert_row_Inr(1) [OF steps(3)] s2 by simp_all
  have "tree_ok s3"
  proof (rule tree_ok_insert [OF ok1 _ _ _ place])
    show "projects s1 new = None" using gone fresh(1) by (simp add: same_tree_def)
    show "\<not> clash p q" if "projects s1 j = Some q" for j q
      using insert_row_no_clash [OF ok1 _ that] steps(3) s2 by blast
  qed (use s3 fresh in simp_all)
  then show "tree_ok t" by (rule same_tree_ok [OF steps(4)])
  show "projects t = (projects s)(new \<mapsto> p)"
    using steps(4) s3 fresh(1) by (simp add: same_tree_def)
qed

text \<open>The public operations.  What a failed creation leaves behind is the counter.\<close>

lemma allocate_same_tree: "allocate_number org scope ty d s = Inr (x, t) \<Longrightarrow> \<exists>c. t = s\<lparr>counters := c\<rparr>"
  by (elim allocate_number_Inr) blast

lemma counters_same_tree: "same_tree s (s\<lparr>counters := c\<rparr>)"
  by (simp add: same_tree_def)

lemma insert_project_tree:
  assumes ok: "tree_ok s" and run: "insert_project org actor body codes owner on_date status gen reason source s = (r, t)"
  shows "tree_ok t" "r = Inl e \<Longrightarrow> \<exists>c. t = s\<lparr>counters := c\<rparr>"
    "r = Inr (new, p) \<Longrightarrow> projects s new = None \<and> projects t = (projects s)(new \<mapsto> p)"
proof -
  have "tree_ok t \<and> (\<forall>e. r = Inl e \<longrightarrow> (\<exists>c. t = s\<lparr>counters := c\<rparr>)) \<and>
    (\<forall>new p. r = Inr (new, p) \<longrightarrow> projects s new = None \<and> projects t = (projects s)(new \<mapsto> p))"
  proof (cases "allocate_number org (pc_bu body) ''project'' on_date s")
    case (Inl e)
    then have t: "t = s" "r = Inl e" using run by (auto simp: insert_project_def)
    have "\<exists>c. s = s\<lparr>counters := c\<rparr>" by (rule exI [of _ "counters s"]) simp
    then show ?thesis using ok unfolding t by blast
  next
    case (Inr a)
    then obtain x s1 where a: "allocate_number org (pc_bu body) ''project'' on_date s = Inr (x, s1)" by (cases a) auto
    then obtain c where s1: "s1 = s\<lparr>counters := c\<rparr>" using allocate_same_tree by blast
    have ok1: "tree_ok s1" unfolding s1 by (rule same_tree_ok [OF counters_same_tree ok])
    show ?thesis
    proof (cases "store_project org actor body codes owner status gen reason source x s1")
      case (Inl e)
      then show ?thesis using run a ok1 s1 by (auto simp: insert_project_def)
    next
      case (Inr b)
      obtain q where b: "b = (q, t)" "r = Inr q" using run a Inr by (cases b) (auto simp: insert_project_def)
      obtain new p where q: "q = (new, p)" by (cases q)
      have run': "store_project org actor body codes owner status gen reason source x s1 = Inr ((new, p), t)"
        using Inr b q by simp
      show ?thesis using store_project_tree [OF ok1 run'] b(2) q s1 by simp
    qed
  qed
  then show "tree_ok t" "r = Inl e \<Longrightarrow> \<exists>c. t = s\<lparr>counters := c\<rparr>"
    "r = Inr (new, p) \<Longrightarrow> projects s new = None \<and> projects t = (projects s)(new \<mapsto> p)" by blast+
qed

text \<open>Work that only reads.\<close>

interpretation quiet: tx_preorder "\<lambda>s t. t = s"
  by unfold_locales auto

lemma usable_code_quiet: "tx_rel (\<lambda>s t. t = s) (usable_code org kind code d)"
  unfolding usable_code_def
  by (intro quiet.catch_ok quiet.tx_ok tx_rel_fail) (auto simp: tx_rel_def assert_usable_def split: option.splits if_splits)

lemma get_project_quiet: "tx_rel (\<lambda>s t. t = s) (get_project org i)"
  unfolding get_project_def by (intro quiet.tx_ok)

lemma check_user_quiet: "tx_rel (\<lambda>s t. t = s) (check_user org u)"
  unfolding check_user_def user_exists_def by (intro tx_branches quiet.tx_ok)

lemma check_dates_quiet: "tx_rel (\<lambda>s t. t = s) (check_dates a b)"
  unfolding check_dates_def by (intro quiet.tx_ok)

lemma create_checks_quiet: "tx_rel (\<lambda>s t. t = s) (create_checks org actor on_date body)"
  unfolding create_checks_def depth_of_def
  by (intro tx_branches quiet.tx_ok usable_code_quiet get_project_quiet check_user_quiet check_dates_quiet)

lemma create_project_tree:
  assumes ok: "tree_ok s" and run: "create_project org actor on_date body s = (r, t)"
  shows "tree_ok t" "r = Inl e \<Longrightarrow> \<exists>c. t = s\<lparr>counters := c\<rparr>"
    "r = Inr (new, p) \<Longrightarrow> projects s new = None \<and> projects t = (projects s)(new \<mapsto> p)"
proof -
  consider (refused) e' where "r = Inl e'" "t = s"
    | (insert) codes owner where "insert_project org actor body codes owner on_date Draft None None None s = (r, t)"
    using run tx_relD [OF create_checks_quiet, of org actor on_date body s]
    by (auto simp: create_project_def split: sum.splits prod.splits)
  note cases = this
  show "tree_ok t" using cases by cases (use ok insert_project_tree(1) in blast)+
  show "\<exists>c. t = s\<lparr>counters := c\<rparr>" if "r = Inl e"
    using cases
  proof cases
    case refused
    then have "t = s\<lparr>counters := counters s\<rparr>" by simp
    then show ?thesis by (rule exI [of _ "counters s"])
  next
    case insert
    then show ?thesis using insert_project_tree(2) [OF ok insert that] by blast
  qed
  show "projects s new = None \<and> projects t = (projects s)(new \<mapsto> p)" if "r = Inr (new, p)"
    using cases by cases (use that insert_project_tree(3) [OF ok] in auto)
qed

lemma create_generated_tree:
  assumes "tree_ok s" "create_generated org actor on_date body gen source reason s = (r, t)"
  shows "tree_ok t"
  using assms insert_project_tree(1) by (auto simp: create_generated_def split: option.splits)

section \<open>Changes keep it\<close>

text \<open>A changed row that keeps its place, its number and, unless the new one is free, its reference.\<close>

definition same_place :: "project_row \<Rightarrow> project_row \<Rightarrow> bool" where
  "same_place p q \<longleftrightarrow> p_org q = p_org p \<and> p_parent q = p_parent p \<and> p_root q = p_root p \<and> p_depth q = p_depth p \<and>
     p_bu q = p_bu p \<and> p_number q = p_number p"

lemma tree_ok_edit:
  assumes ok: "tree_ok s" and p: "projects s i = Some p" and same: "same_place p q"
    and ref: "p_external_ref q = p_external_ref p \<or> p_external_ref q = None \<or>
      (\<forall>j r. projects s j = Some r \<longrightarrow> p_org r = p_org p \<longrightarrow> p_external_ref r \<noteq> p_external_ref q)"
    and t: "projects t = (projects s)(i \<mapsto> q)" "project_ids t = project_ids s" "next_uuid s \<le> next_uuid t"
  shows "tree_ok t"
proof (rule tree_ok_change [OF ok p _ _ _ _ _ t])
  show "\<not> clash q r" if r: "projects s j = Some r" and "j \<noteq> i" for j r
  proof
    assume "clash q r"
    moreover have "\<not> clash p r" using tree_okD(5) [OF ok p r] that(2) by blast
    ultimately show False using ref r same unfolding clash_def same_place_def by metis
  qed
qed (use same in \<open>simp_all add: same_place_def\<close>)

lemma check_external_ref_Inr:
  assumes ok: "tree_ok s" and p: "p_org p = org" and run: "check_external_ref org p change s = Inr (u, t)"
    and new: "patched change (p_external_ref p) = new"
  shows "t = s" "new = p_external_ref p \<or> new = None \<or>
      (\<forall>j r. projects s j = Some r \<longrightarrow> p_org r = p_org p \<longrightarrow> p_external_ref r \<noteq> new)"
    "p_external_ref p = None \<or> new = p_external_ref p"
proof -
  have other: "p_external_ref r \<noteq> Some x" if "projects s j = Some r" "p_org r = p_org p"
      "\<not> list_ex (\<lambda>(i, q). p_org q = org \<and> p_external_ref q = Some x) (project_rows s)" for j r x
    using that p project_rows_mem [OF ok, of j r] by (auto simp: list_ex_iff)
  have keep: "new = p_external_ref p" if "change = Keep" using new that by auto
  have first: "p_external_ref p = None \<or> new = p_external_ref p"
    using run keep unfolding check_external_ref_def Let_def new by (cases "change = Keep") (simp_all add: tx_bind_Inr)
  then show "p_external_ref p = None \<or> new = p_external_ref p" .
  have step: "t = s \<and> (new = p_external_ref p \<or> new = None \<or>
      (\<exists>x. new = Some x \<and> \<not> list_ex (\<lambda>(i, q). p_org q = org \<and> p_external_ref q = Some x) (project_rows s)))"
    using run keep unfolding check_external_ref_def Let_def new
    by (cases "change = Keep"; cases new) (simp_all add: tx_bind_Inr split: if_splits)
  then show "t = s" ..
  from step consider "new = p_external_ref p" | "new = None"
    | x where "new = Some x" "\<not> list_ex (\<lambda>(i, q). p_org q = org \<and> p_external_ref q = Some x) (project_rows s)" by blast
  then show "new = p_external_ref p \<or> new = None \<or>
      (\<forall>j r. projects s j = Some r \<longrightarrow> p_org r = p_org p \<longrightarrow> p_external_ref r \<noteq> new)"
    by cases (use other in blast)+
qed

lemma get_project_Inr: "get_project org i s = Inr (p, t) \<longleftrightarrow> t = s \<and> projects s i = Some p \<and> p_org p = org"
  by (auto simp: get_project_def find_project_def tx_bind_Inr split: option.splits)

lemma update_project_tree:
  assumes ok: "tree_ok s" and run: "update_project org actor pid body v s = Inr (q, t)"
  obtains p where "projects s pid = Some p" "p_org p = org" "v = Version (int (p_version p))" "tree_ok t"
    "q = patched_project body p" "projects t = (projects s)(pid \<mapsto> q)"
    "p_external_ref p = None \<or> p_external_ref q = p_external_ref p"
  using run unfolding update_project_def Let_def
proof (elim tx_bindE, goal_cases)
  case (1 expected s1 p s2 u3 s3 u4 s4 u5 s5 u6 s6 u7 s7 u8 s8 u9 s9 u10 s10 u11 s11)
  have v: "v = Version expected" "s1 = s" using 1(2) by (auto simp: expected_version_def split: if_match.splits if_splits)
  have p: "projects s pid = Some p" "p_org p = org" "s2 = s" "s3 = s" "int (p_version p) = expected"
    using 1(3,4) v by (auto simp: get_project_Inr)
  have ref: "s4 = s" and free: "p_external_ref (patched_project body p) = p_external_ref p \<or> p_external_ref (patched_project body p) = None \<or>
      (\<forall>j r. projects s j = Some r \<longrightarrow> p_org r = p_org p \<longrightarrow> p_external_ref r \<noteq> p_external_ref (patched_project body p))"
    and once: "p_external_ref p = None \<or> p_external_ref (patched_project body p) = p_external_ref p"
    using check_external_ref_Inr [OF ok p(2) _ refl] 1(5) p(4) by (simp_all add: patched_project_def)
  have "s9 = s"
    using 1(6-10) ref tx_relD [OF check_user_quiet 1(7)] tx_relD [OF check_user_quiet 1(8)]
      tx_relD [OF check_dates_quiet 1(9)] tx_relD [OF check_dates_quiet 1(10)] by simp
  then have s10: "s10 = s\<lparr>projects := (projects s)(pid \<mapsto> patched_project body p)\<rparr>" using 1(11) by simp
  have "same_tree s10 s11" using tx_relD [OF audit_same_tree 1(12)] .
  then have t: "t = s11" "projects t = (projects s)(pid \<mapsto> patched_project body p)" "project_ids t = project_ids s"
    "next_uuid s \<le> next_uuid t" "q = patched_project body p"
    using 1(13) by (auto simp: get_project_Inr same_tree_def s10)
  have "same_place p (patched_project body p)" by (simp add: same_place_def patched_project_def)
  then have "tree_ok t" using tree_ok_edit [OF ok p(1) _ free t(2-4)] by blast
  then show ?case using 1(1) p v t once by simp
qed

lemma substitute_codes_tree:
  assumes ok: "tree_ok s" and run: "substitute_codes org actor pid changes s = Inr (q, t)"
  shows "tree_ok t"
  using run unfolding substitute_codes_def Let_def
proof (elim tx_bindE, goal_cases)
  case (1 p s1)
  have p: "s1 = s" "projects s pid = Some p" using 1(1) by (auto simp: get_project_Inr)
  show ?case
  proof (cases "changes = (None, None)")
    case True
    then show ?thesis using 1(2) p ok by simp
  next
    case False
    let ?q = "p\<lparr>p_department := (case fst changes of None \<Rightarrow> p_department p | Some c \<Rightarrow> c),
                 p_account := (case snd changes of None \<Rightarrow> p_account p | Some c \<Rightarrow> c)\<rparr>"
    obtain s2 u where s2: "project_audit org actor ''project.code_substitute'' pid None
        (s\<lparr>projects := (projects s)(pid \<mapsto> ?q)\<rparr>) = Inr (u, s2)" "t = s2"
      using 1(2) False p(1) by (auto simp: tx_bind_Inr get_project_Inr)
    have rel: "same_tree (s\<lparr>projects := (projects s)(pid \<mapsto> ?q)\<rparr>) s2"
      by (rule tx_relD [OF audit_same_tree s2(1)])
    have "tree_ok (s\<lparr>projects := (projects s)(pid \<mapsto> ?q)\<rparr>)"
      by (rule tree_ok_edit [OF ok p(2), of ?q]) (simp_all add: same_place_def)
    then show ?thesis using same_tree_ok [OF rel] s2(2) by simp
  qed
qed

lemma apply_sponsors_tree:
  assumes ok: "tree_ok s" and run: "apply_sponsors org pid users s = Inr (u, t)"
  shows "tree_ok t"
proof (cases users)
  case Nil
  then show ?thesis using run ok by (simp add: apply_sponsors_def)
next
  case (Cons x xs)
  show ?thesis
  proof (cases "find_project org pid s")
    case None
    then have "same_tree s t" using run Cons by (auto simp: apply_sponsors_def same_tree_def)
    then show ?thesis using ok by (rule same_tree_ok)
  next
    case (Some p)
    then have p: "projects s pid = Some p" by (auto simp: find_project_def split: option.splits if_splits)
    show ?thesis
      by (rule tree_ok_edit [OF ok p, of "p\<lparr>p_sponsor := Some x\<rparr>"])
        (use run Cons Some in \<open>auto simp: apply_sponsors_def same_place_def\<close>)
  qed
qed

section \<open>Walks on a well-formed tree\<close>

lemma tree_parent:
  assumes "tree_ok s" "projects s i = Some p" "p_parent p = Some q"
  obtains r where "projects s q = Some r" "p_org r = p_org p" "p_depth p = Suc (p_depth r)" "p_root p = p_root r"
  using tree_okD(4) [OF assms(1,2)] assms(3) by (auto simp: placed_def)

lemma chain_up_nodes:
  assumes ok: "tree_ok s" and p: "projects s i = Some p" "p_org p = org" "p_depth p \<le> n"
  shows "length (chain_up n s org i) = p_depth p \<and> hd (chain_up n s org i) = i \<and> last (chain_up n s org i) = p_root p \<and>
    (\<forall>j \<in> set (chain_up n s org i). \<exists>q. projects s j = Some q \<and> p_depth q \<le> p_depth p \<and> p_root q = p_root p) \<and>
    distinct (chain_up n s org i)"
  using p
proof (induction n arbitrary: i p)
  case 0
  then show ?case using tree_okD(4) [OF ok, of i p] by (simp add: placed_def)
next
  case (Suc n)
  have find: "find_project org i s = Some p" using Suc.prems by (simp add: find_project_def)
  show ?case
  proof (cases "p_parent p")
    case None
    then have "p_depth p = 1 \<and> p_root p = i" using tree_okD(4) [OF ok Suc.prems(1)] by (simp add: placed_def)
    then show ?thesis using None find Suc.prems by simp
  next
    case (Some q)
    obtain r where r: "projects s q = Some r" "p_org r = org" "p_depth p = Suc (p_depth r)" "p_root p = p_root r"
      using tree_parent [OF ok Suc.prems(1) Some] Suc.prems(2) by metis
    note IH = Suc.IH [OF r(1,2)]
    have small: "p_depth r \<le> n" using r(3) Suc.prems(3) by simp
    have "i \<notin> set (chain_up n s org q)"
    proof
      assume "i \<in> set (chain_up n s org q)"
      then have "p_depth p \<le> p_depth r" using IH [OF small] Suc.prems(1) by auto
      then show False using r(3) by simp
    qed
    moreover have "chain_up n s org q \<noteq> []"
      using IH [OF small] tree_okD(4) [OF ok r(1)] by (auto simp: placed_def)
    ultimately show ?thesis using IH [OF small] find Some r Suc.prems by fastforce
  qed
qed

lemma first_visits_distinct: "distinct xs \<Longrightarrow> first_visits xs = xs"
  by (simp add: first_visits_def distinct_remdups_id)

text \<open>Six steps suffice: the walk is the whole path to the root.\<close>

lemma walk_up_tree:
  assumes "tree_ok s" "projects s i = Some p" "p_org p = org"
  shows "walk_up org i s = Inr (chain_up 6 s org i, s)" "length (chain_up 6 s org i) = p_depth p"
    "hd (chain_up 6 s org i) = i" "last (chain_up 6 s org i) = p_root p" "distinct (chain_up 6 s org i)"
    "\<forall>j \<in> set (chain_up 6 s org i). \<exists>q. projects s j = Some q \<and> p_root q = p_root p"
proof -
  have depth: "p_depth p \<le> 6" "0 < p_depth p" using tree_okD(4) [OF assms(1,2)] by (simp_all add: placed_def)
  note nodes = chain_up_nodes [OF assms depth(1)]
  then show "length (chain_up 6 s org i) = p_depth p" "hd (chain_up 6 s org i) = i" "last (chain_up 6 s org i) = p_root p"
    "distinct (chain_up 6 s org i)" "\<forall>j \<in> set (chain_up 6 s org i). \<exists>q. projects s j = Some q \<and> p_root q = p_root p"
    by blast+
  then show "walk_up org i s = Inr (chain_up 6 s org i, s)"
    using depth(2) by (auto simp: walk_up_def tx_bind_def tx_read_def tx_require_def tx_return_def first_visits_distinct)
qed

text \<open>One edge of the tree, in either direction.\<close>

definition tree_edge :: "db \<Rightarrow> uuid \<Rightarrow> uuid \<Rightarrow> bool" where
  "tree_edge s i j \<longleftrightarrow>
     (\<exists>p. projects s i = Some p \<and> p_parent p = Some j) \<or> (\<exists>p. projects s j = Some p \<and> p_parent p = Some i)"

lemma tree_edge_sym: "tree_edge s i j = tree_edge s j i"
  by (auto simp: tree_edge_def)

lemma chain_up_edges: "successively (tree_edge s) (chain_up n s org i)"
proof (induction n arbitrary: i)
  case (Suc n)
  show ?case
  proof (cases "find_project org i s")
    case (Some p)
    then have p: "projects s i = Some p" by (auto simp: find_project_def split: option.splits if_splits)
    show ?thesis
    proof (cases "p_parent p")
      case (Some q)
      then have "tree_edge s i q" using p by (auto simp: tree_edge_def)
      then show ?thesis
        using Suc [of q] chain_up_hd [of n s org q] \<open>find_project org i s = Some p\<close> Some
        by (cases "chain_up n s org q") (auto simp: successively_Cons)
    qed (simp add: Some)
  qed simp
qed simp

lemma takeWhile_prefix_edges:
  assumes "successively R xs" "c \<in> set xs"
  shows "successively R (takeWhile (\<lambda>n. n \<noteq> c) xs @ [c])"
proof -
  have "xs = takeWhile (\<lambda>n. n \<noteq> c) xs @ dropWhile (\<lambda>n. n \<noteq> c) xs" by simp
  moreover have "dropWhile (\<lambda>n. n \<noteq> c) xs = c # tl (dropWhile (\<lambda>n. n \<noteq> c) xs)"
    using assms(2) hd_dropWhile [of "\<lambda>n. n \<noteq> c" xs] by (cases "dropWhile (\<lambda>n. n \<noteq> c) xs") auto
  ultimately have "xs = (takeWhile (\<lambda>n. n \<noteq> c) xs @ [c]) @ tl (dropWhile (\<lambda>n. n \<noteq> c) xs)" by simp
  with assms(1) have "successively R ((takeWhile (\<lambda>n. n \<noteq> c) xs @ [c]) @ tl (dropWhile (\<lambda>n. n \<noteq> c) xs))" by simp
  then show ?thesis unfolding successively_append_iff by blast
qed

text \<open>The route of a common path: no repetition, one edge at a time.\<close>

lemma common_path_route:
  assumes e: "successively R as" "successively R bs" "\<And>x y. R x y = R y x" and d: "distinct as" "distinct bs"
    and c: "lca (common_path as bs) = Some c"
  shows "distinct (up (common_path as bs) @ c # down (common_path as bs))"
    "successively R (up (common_path as bs) @ c # down (common_path as bs))"
proof -
  obtain c' where f: "find (\<lambda>n. n \<in> set bs) as = Some c'"
    using c by (cases "find (\<lambda>n. n \<in> set bs) as") (auto simp: common_path_def)
  then have "c' = c" using c by (simp add: common_path_def)
  note f = f [unfolded this]
  have mem: "c \<in> set as" "c \<in> set bs" using find_Some_iff_mem [OF f] by auto
  have path: "up (common_path as bs) = takeWhile (\<lambda>n. n \<noteq> c) as" "down (common_path as bs) = rev (takeWhile (\<lambda>n. n \<noteq> c) bs)"
    using f by (simp_all add: common_path_def)
  have away: "x \<notin> set bs" if "x \<in> set (takeWhile (\<lambda>n. n \<noteq> c) as)" for x
  proof -
    obtain i where i: "i < length as" "as ! i = c" "\<forall>j<i. as ! j \<notin> set bs"
      using f by (auto simp: find_Some_iff)
    have "takeWhile (\<lambda>n. n \<noteq> c) as = take i as"
      by (rule takeWhile_eq_take_P_nth) (use i d(1) nth_eq_iff_index_eq in \<open>fastforce\<close>)+
    then have "x \<in> set (take i as)" using that by simp
    then obtain j where "j < i" "x = as ! j" by (auto simp: in_set_conv_nth)
    then show ?thesis using i(3) by simp
  qed
  have "set (takeWhile (\<lambda>n. n \<noteq> c) as) \<inter> set (takeWhile (\<lambda>n. n \<noteq> c) bs) = {}"
    using away by (auto dest: set_takeWhileD)
  then show "distinct (up (common_path as bs) @ c # down (common_path as bs))"
    unfolding path using d by (auto simp: distinct_takeWhile dest: set_takeWhileD)
  have "successively R (rev (takeWhile (\<lambda>n. n \<noteq> c) bs @ [c]))"
    using takeWhile_prefix_edges [OF e(2) mem(2)] e(3) by (simp only: successively_rev)
  then show "successively R (up (common_path as bs) @ c # down (common_path as bs))"
    unfolding path using takeWhile_prefix_edges [OF e(1) mem(1)]
    by (simp add: successively_append_iff)
qed

section \<open>Every reachable state\<close>

text \<open>
  The operations on projects, and whatever else leaves the places of the tree as they are (the ledger,
  transfers, reads, and the lifecycle, which writes statuses and versions): no other code inserts a
  project or changes its place.
\<close>

definition same_places :: "db \<Rightarrow> db \<Rightarrow> bool" where
  "same_places s t \<longleftrightarrow> project_ids t = project_ids s \<and> next_uuid s \<le> next_uuid t \<and>
     (\<forall>i. projects s i = None \<longleftrightarrow> projects t i = None) \<and>
     (\<forall>i p q. projects s i = Some p \<longrightarrow> projects t i = Some q \<longrightarrow> same_place p q \<and> p_external_ref q = p_external_ref p)"

lemma same_places_ok:
  assumes same: "same_places s t" and ok: "tree_ok s"
  shows "tree_ok t"
proof -
  have old: "\<exists>p. projects s i = Some p \<and> same_place p q \<and> p_external_ref q = p_external_ref p" if "projects t i = Some q" for i q
    using same that unfolding same_places_def by (metis option.exhaust option.distinct(1))
  have new: "\<exists>q. projects t i = Some q \<and> same_place p q" if "projects s i = Some p" for i p
    using same that unfolding same_places_def by (metis option.exhaust option.distinct(1))
  have "placed (projects t) i q" if q: "projects t i = Some q" for i q
  proof -
    obtain p where p: "projects s i = Some p" "same_place p q" using old [OF q] by blast
    show ?thesis
    proof (cases "p_parent p")
      case None
      then show ?thesis using tree_okD(4) [OF ok p(1)] p(2) by (simp add: placed_def same_place_def)
    next
      case (Some x)
      then obtain r where r: "projects s x = Some r" "p_org r = p_org p" "p_depth p = Suc (p_depth r)" "p_root p = p_root r"
        using tree_okD(4) [OF ok p(1)] by (auto simp: placed_def)
      obtain r' where "projects t x = Some r'" "same_place r r'" using new [OF r(1)] by blast
      then show ?thesis using tree_okD(4) [OF ok p(1)] p(2) r Some by (simp add: placed_def same_place_def)
    qed
  qed
  moreover have "i = j" if both: "projects t i = Some q" "projects t j = Some r" "clash q r" for i j q r
  proof -
    obtain p p' where "projects s i = Some p" "same_place p q" "p_external_ref q = p_external_ref p"
      "projects s j = Some p'" "same_place p' r" "p_external_ref r = p_external_ref p'"
      using old [OF both(1)] old [OF both(2)] by blast
    moreover from this have "clash p p'" using both(3) by (simp add: clash_def same_place_def)
    ultimately show ?thesis using tree_okD(5) [OF ok] by blast
  qed
  moreover have "i < next_uuid t" if q: "projects t i = Some q" for i q
    using old [OF q] tree_okD(3) [OF ok] same by (fastforce simp: same_places_def)
  moreover have "distinct (project_ids t)" "\<forall>i. projects t i \<noteq> None \<longleftrightarrow> i \<in> set (project_ids t)"
    using tree_okD(1,2) [OF ok] same unfolding same_places_def by metis+
  ultimately show ?thesis unfolding tree_ok_def by blast
qed

inductive project_step :: "db \<Rightarrow> db \<Rightarrow> bool" where
  creates: "create_project org actor on_date body s = (r, t) \<Longrightarrow> project_step s t"
| generates: "create_generated org actor on_date body gen source reason s = (r, t) \<Longrightarrow> project_step s t"
| updates: "update_project org actor pid body v s = Inr (q, t) \<Longrightarrow> project_step s t"
| substitutes: "substitute_codes org actor pid codes s = Inr (q, t) \<Longrightarrow> project_step s t"
| sponsored: "apply_sponsors org pid users s = Inr ((), t) \<Longrightarrow> project_step s t"
| elsewhere: "same_places s t \<Longrightarrow> project_step s t"

inductive project_reachable :: "db \<Rightarrow> bool" where
  empty: "project_reachable empty_db"
| step: "project_reachable s \<Longrightarrow> project_step s t \<Longrightarrow> project_reachable t"

lemma project_reachable_tree: "project_reachable s \<Longrightarrow> tree_ok s"
proof (induction rule: project_reachable.induct)
  case empty
  show ?case by (rule tree_ok_empty)
next
  case (step s t)
  from step.hyps(2) show ?case
  proof cases
    case (creates org actor on_date body r)
    then show ?thesis using create_project_tree(1) [OF step.IH] by blast
  next
    case (generates org actor on_date body gen source reason r)
    then show ?thesis using create_generated_tree [OF step.IH] by blast
  next
    case (updates org actor pid body v q)
    show ?thesis by (rule update_project_tree [OF step.IH updates])
  next
    case (substitutes org actor pid codes q)
    show ?thesis by (rule substitute_codes_tree [OF step.IH substitutes])
  next
    case (sponsored org pid users)
    show ?thesis by (rule apply_sponsors_tree [OF step.IH sponsored])
  next
    case elsewhere
    then show ?thesis by (rule same_places_ok [OF _ step.IH])
  qed
qed

text \<open>
  C17. In every reachable state a project lies at most five levels deep, and the upward walk from it,
  which the query cuts after six rows, is the whole path: as many different projects as its depth,
  from the project to the root its row names.
\<close>

theorem walks_reach_the_root:
  assumes "project_reachable s" "projects s i = Some p"
  shows "\<exists>nodes. walk_up (p_org p) i s = Inr (nodes, s) \<and> length nodes = p_depth p \<and> p_depth p \<le> 5 \<and>
    distinct nodes \<and> hd nodes = i \<and> last nodes = p_root p"
  using walk_up_tree [OF project_reachable_tree [OF assms(1)] assms(2) refl]
    tree_okD(4) [OF project_reachable_tree [OF assms(1)] assms(2)] by (simp add: placed_def)

text \<open>
  The path between two projects of one organization: none exactly when their roots differ, and
  otherwise a route along the edges of the tree that visits no project twice, from the one to the
  other.
\<close>

theorem path_between_route:
  assumes "project_reachable s" "projects s a = Some p" "projects s b = Some q" "p_org p = org" "p_org q = org"
  shows "\<exists>path. path_between org a b s = Inr (path, s) \<and>
    (p_root p \<noteq> p_root q \<longrightarrow> lca path = None) \<and>
    (p_root p = p_root q \<longrightarrow> (\<exists>c. lca path = Some c \<and>
       (let route = up path @ c # down path in
        hd route = a \<and> last route = b \<and> distinct route \<and> successively (tree_edge s) route)))"
proof -
  note ok = project_reachable_tree [OF assms(1)]
  let ?a = "chain_up 6 s org a" and ?b = "chain_up 6 s org b"
  note wa = walk_up_tree [OF ok assms(2,4)] and wb = walk_up_tree [OF ok assms(3,5)]
  have nonempty: "?a \<noteq> []" "?b \<noteq> []"
    using wa(2) wb(2) tree_okD(4) [OF ok assms(2)] tree_okD(4) [OF ok assms(3)] by (auto simp: placed_def)
  have path: "path_between org a b s = Inr (common_path ?a ?b, s)"
    using wa(1) wb(1) by (simp add: path_between_def tx_bind_def tx_return_def)
  have no: "lca (common_path ?a ?b) = None" if "p_root p \<noteq> p_root q"
  proof -
    have "x \<notin> set ?b" if "x \<in> set ?a" for x
      using wa(6) wb(6) that \<open>p_root p \<noteq> p_root q\<close> by (metis option.inject)
    then have "find (\<lambda>n. n \<in> set ?b) ?a = None" by (auto simp: find_None_iff)
    then show ?thesis by (simp add: common_path_def)
  qed
  have yes: "\<exists>c. lca (common_path ?a ?b) = Some c" if "p_root p = p_root q"
  proof -
    have "p_root p \<in> set ?a" "p_root p \<in> set ?b"
      using wa(4) wb(4) nonempty that last_in_set by metis+
    then have "find (\<lambda>n. n \<in> set ?b) ?a \<noteq> None" by (auto simp: find_None_iff)
    then show ?thesis by (auto simp: common_path_def)
  qed
  have route: "hd (up (common_path ?a ?b) @ c # down (common_path ?a ?b)) = a \<and> last (up (common_path ?a ?b) @ c # down (common_path ?a ?b)) = b \<and>
      distinct (up (common_path ?a ?b) @ c # down (common_path ?a ?b)) \<and>
      successively (tree_edge s) (up (common_path ?a ?b) @ c # down (common_path ?a ?b))"
    if c: "lca (common_path ?a ?b) = Some c" for c
    using common_path_route [OF chain_up_edges chain_up_edges tree_edge_sym wa(5) wb(5) c]
      common_path_ends [OF nonempty c] wa(3) wb(3)
    by (cases "up (common_path ?a ?b)") simp_all
  show ?thesis using path no yes route unfolding Let_def by blast
qed

text \<open>
  A creation that fails keeps everything but the counters of numbers; one that succeeds adds exactly
  its project, under an identifier not used before.
\<close>

theorem create_project_atomic:
  assumes "project_reachable s" "create_project org actor on_date body s = (r, t)"
  shows "case r of Inl e \<Rightarrow> \<exists>c. t = s\<lparr>counters := c\<rparr>
    | Inr (new, p) \<Rightarrow> projects s new = None \<and> projects t = (projects s)(new \<mapsto> p)"
  using create_project_tree(2,3) [OF project_reachable_tree [OF assms(1)] assms(2)]
  by (simp split: sum.split prod.split)

section \<open>A concrete tree\<close>

definition sample_office :: db where
  "sample_office = empty_db\<lparr>
     units := [\<lparr>u_id = 10, u_org = 2, u_parent = None, u_code = ''BU1'', u_name = ''Works'', u_kind = BusinessUnit, u_active = True\<rparr>],
     masters := map (\<lambda>(kind, code). \<lparr>mr_org = 2, mr_kind = kind, mr_code = code, mr_active = True, mr_from = Date 2026 1 1,
       mr_to = None, mr_id = 20, mr_name = code, mr_attributes = []\<rparr>) [(''department'', ''D1''), (''ledger_account'', ''A1'')],
     identities := [\<lparr>idn_id = 7, idn_email = ''kim@works.example'', idn_active = True, idn_deactivated = None, idn_privileged = 0, idn_password = ''$argon2id$x''\<rparr>],
     user_roles := [\<lparr>gr_id = 30, gr_org = 2, gr_user = 7, gr_role = 31, gr_kind = ScopeOrg, gr_scope = 2, gr_by = None, gr_at = 0,
       gr_from = None\<rparr>],
     scopes := [\<lparr>sc_org = 2, sc_kind = ScopeUnit, sc_id = 10, sc_parent_kind = ScopeOrg, sc_parent = 2, sc_roll_down = True\<rparr>]\<rparr>"

definition sample_request :: "uuid option \<Rightarrow> project_create" where
  "sample_request parent = \<lparr>pc_bu = 10, pc_parent = parent, pc_name = ''Harbour'', pc_description = None, pc_external_ref = None,
     pc_department = ''d1'', pc_account = ''A1'', pc_currency = ''USD'', pc_start = None, pc_end = None, pc_owner = None, pc_sponsor = None\<rparr>"

definition sample_harbour :: db where
  "sample_harbour = snd (create_project 2 (Some 7) (Date 2026 1 20) (sample_request None) sample_office)"

definition sample_quay :: db where
  "sample_quay = snd (create_project 2 (Some 7) (Date 2026 1 21) (sample_request (Some 1000)) sample_harbour)"

lemma sample_office_reachable: "project_reachable sample_office"
  by (rule project_reachable.step [OF project_reachable.empty elsewhere])
    (simp add: same_places_def sample_office_def empty_db_def)

lemma sample_quay_reachable: "project_reachable sample_harbour" "project_reachable sample_quay"
proof -
  show "project_reachable sample_harbour"
    unfolding sample_harbour_def
    by (rule project_reachable.step [OF sample_office_reachable creates]) (rule surjective_pairing)
  then show "project_reachable sample_quay"
    unfolding sample_quay_def
    by (rule project_reachable.step [OF _ creates]) (rule surjective_pairing)
qed

definition row_facts :: "uuid \<Rightarrow> db \<Rightarrow> (string \<times> string \<times> nat \<times> uuid \<times> uuid) option" where
  "row_facts i s = map_option (\<lambda>p. (p_number p, p_department p, p_depth p, p_org p, p_root p)) (projects s i)"

definition both_rows :: "db \<Rightarrow> (string \<times> string \<times> nat \<times> uuid \<times> uuid) option list" where
  "both_rows s = map (\<lambda>i. row_facts i s) [1000, 1001]"

lemma sample_rows:
  "both_rows sample_quay = [Some (''PRJ-2026-0001'', ''D1'', 1, 2, 1000), Some (''PRJ-2026-0002'', ''D1'', 2, 2, 1000)]"
  by code_simp

lemma sample_row:
  obtains p q where "projects sample_quay 1000 = Some p" "projects sample_quay 1001 = Some q" "p_org p = 2" "p_org q = 2"
    "p_root p = p_root q" "p_depth q = 2"
  using sample_rows by (auto simp: both_rows_def row_facts_def)

theorem walks_reach_the_root_witness:
  "\<exists>nodes. walk_up 2 1001 sample_quay = Inr (nodes, sample_quay) \<and> length nodes = 2 \<and> distinct nodes \<and> hd nodes = 1001"
proof (rule sample_row)
  fix p q
  assume "projects sample_quay 1001 = Some q" "p_org q = 2" "p_depth q = 2"
  then show ?thesis using walks_reach_the_root [OF sample_quay_reachable(2), of 1001 q] by auto
qed

theorem path_between_route_witness:
  "\<exists>path c. path_between 2 1001 1000 sample_quay = Inr (path, sample_quay) \<and> lca path = Some c \<and>
     hd (up path @ c # down path) = 1001 \<and> last (up path @ c # down path) = 1000"
proof (rule sample_row)
  fix p q
  assume "projects sample_quay 1000 = Some p" "projects sample_quay 1001 = Some q" "p_org p = 2" "p_org q = 2"
    "p_root p = p_root q"
  then show ?thesis
    using path_between_route [OF sample_quay_reachable(2), of 1001 q 1000 p 2] unfolding Let_def by metis
qed

theorem create_project_atomic_witness:
  "\<exists>c. snd (create_project 2 (Some 7) (Date 2026 1 20) ((sample_request None)\<lparr>pc_parent := Some 5\<rparr>) sample_harbour) =
     sample_harbour\<lparr>counters := c\<rparr>"
proof -
  let ?run = "create_project 2 (Some 7) (Date 2026 1 20) ((sample_request None)\<lparr>pc_parent := Some 5\<rparr>) sample_harbour"
  have "case fst ?run of Inl e \<Rightarrow> e = not_found | Inr r \<Rightarrow> False" by code_simp
  then obtain e where "fst ?run = Inl e" by (cases "fst ?run") simp_all
  then have run: "?run = (Inl e, snd ?run)" by (metis prod.collapse)
  show ?thesis using create_project_atomic [OF sample_quay_reachable(1) run] by simp
qed

end
