(* ===== verification/Lifecycle.thy ===== *)
theory Lifecycle
  imports ProjectLaws
begin

text \<open>
  \<open>flo/modules/projects/lifecycle.py\<close> and its callers in \<open>service.py\<close>: the states of a project, what
  may move it from one to the next, and the event each move appends
  (migrations 0025 and 0051).

  Three things come from other components and are arguments here: the registered counters of open
  documents, whether an approval instance of a project is running, and whether a workflow is
  published for a unit.  A caller's permissions at the project are a predicate on their names, as in
  the code.
\<close>

section \<open>The table\<close>

definition transitions :: "((project_status \<times> project_status) \<times> (string \<times> bool)) list" where
  "transitions =
     [((Draft, ApprovalPending), (''project.submit'', False)),
      ((ApprovalPending, Active), (''project.approve'', False)),
      ((ApprovalPending, Draft), (''project.approve'', True)),
      ((Draft, Abandoned), (''project.update'', False)),
      ((Active, Deferred), (''project.update'', True)),
      ((Deferred, Active), (''project.update'', False)),
      ((Active, Completed), (''project.complete'', False)),
      ((Active, Abandoned), (''project.complete'', True)),
      ((Deferred, Abandoned), (''project.complete'', True))]"

definition project_statuses :: "project_status list" where
  "project_statuses = [Draft, ApprovalPending, Active, Deferred, Completed, Abandoned]"

definition closing :: "project_status \<Rightarrow> bool" where
  "closing to \<longleftrightarrow> to = Completed \<or> to = Abandoned"

record transition_create =
  tc_to :: project_status
  tc_reason :: "string option"
  tc_override :: bool

record transition_available =
  ta_to :: project_status
  ta_reachable :: bool
  ta_reason_required :: bool
  ta_override_available :: bool
  ta_allowed :: bool
  ta_blocked :: "problem list"

section \<open>What blocks closing\<close>

record blocked =
  bl_reserved :: rat
  bl_committed :: rat
  bl_open :: int
  bl_currency :: string

type_synonym document_counter = "uuid \<Rightarrow> uuid \<Rightarrow> db \<Rightarrow> int"

definition validation_failed :: problem where
  "validation_failed = Problem ValidationFailed None"

definition blocked_by_holdings :: "blocked \<Rightarrow> bool \<Rightarrow> (string \<Rightarrow> bool) \<Rightarrow> string \<Rightarrow> problem option" where
  "blocked_by_holdings b override permitted reason =
     (if \<not> (0 < bl_reserved b \<or> 0 < bl_committed b \<or> 0 < bl_open b) then None
      else if override \<and> permitted ''project.close.override''
        then (if length reason < 20 then Some validation_failed else None)
      else Some (conflict ''closing_blocked''))"

text \<open>The project with what it holds; for a change, its balance row is there and locked first.\<close>

definition open_documents :: "document_counter list \<Rightarrow> uuid \<Rightarrow> uuid \<Rightarrow> db \<Rightarrow> int" where
  "open_documents fs org pid s = sum_list (map (\<lambda>f. f org pid s) fs)"

definition lifecycle_snapshot ::
  "document_counter list \<Rightarrow> uuid \<Rightarrow> uuid \<Rightarrow> bool \<Rightarrow> (db, project_row \<times> blocked) tx" where
  "lifecycle_snapshot fs org pid for_update =
     tx_bind (if for_update then insert_balance org pid else tx_return ()) (\<lambda>_.
     tx_bind (repo_balance org pid) (\<lambda>b.
     tx_bind (tx_require (\<not> (b = None \<and> for_update)) not_found) (\<lambda>_.
     tx_bind (get_project org pid) (\<lambda>p.
     tx_bind (tx_read (open_documents fs org pid)) (\<lambda>n.
     tx_return (p, \<lparr>bl_reserved = (case b of None \<Rightarrow> 0 | Some r \<Rightarrow> b_reserved r),
       bl_committed = (case b of None \<Rightarrow> 0 | Some r \<Rightarrow> b_committed r), bl_open = n, bl_currency = p_currency p\<rparr>))))))"

section \<open>Evaluation\<close>

definition last_submission :: "uuid \<Rightarrow> uuid \<Rightarrow> db \<Rightarrow> status_event option" where
  "last_submission org pid s =
     find (\<lambda>e. se_org e = org \<and> se_project e = pid \<and> se_to e = ApprovalPending) (rev (status_events s))"

definition incomplete :: "project_row \<Rightarrow> bool" where
  "incomplete p \<longleftrightarrow> list_ex (\<lambda>x. strip x = []) [p_name p, p_department p, p_account p, p_currency p]"

text \<open>Every problem of a transition in the order of the code; the first one is raised.\<close>

definition evaluate ::
  "(uuid \<Rightarrow> uuid \<Rightarrow> db \<Rightarrow> bool) \<Rightarrow> uuid \<Rightarrow> uuid option \<Rightarrow> uuid \<Rightarrow> project_row \<Rightarrow> blocked \<Rightarrow> transition_create \<Rightarrow>
   (string \<Rightarrow> bool) \<Rightarrow> db \<Rightarrow> problem list" where
  "evaluate running org actor pid p b body permitted s =
     (case map_of transitions (p_status p, tc_to body) of
        None \<Rightarrow> [conflict ''invalid_transition'']
      | Some (permission, needs_reason) \<Rightarrow>
          let reason = strip (case tc_reason body of None \<Rightarrow> [] | Some r \<Rightarrow> r) in
          (if permitted permission then [] else [Problem Forbidden None]) @
          (if tc_override body \<and> \<not> permitted ''project.close.override'' then [Problem Forbidden None] else []) @
          (if needs_reason \<and> reason = [] then [validation_failed] else []) @
          (if tc_to body = ApprovalPending \<and> incomplete p then [validation_failed] else []) @
          (if p_status p = ApprovalPending \<and> tc_to body \<in> {Active, Draft} \<and> running org pid s
           then [conflict ''approval_workflow_active''] else []) @
          (if p_status p = ApprovalPending \<and> tc_to body = Active \<and>
              (case last_submission org pid s of None \<Rightarrow> False | Some e \<Rightarrow> se_actor e = actor)
           then [Problem Forbidden None] else []) @
          (if closing (tc_to body)
           then (case blocked_by_holdings b (tc_override body) permitted reason of None \<Rightarrow> [] | Some e \<Rightarrow> [e]) else []))"

definition twenty_x :: string where
  "twenty_x = replicate 20 CHR ''x''"

definition available_for ::
  "(uuid \<Rightarrow> uuid \<Rightarrow> db \<Rightarrow> bool) \<Rightarrow> uuid \<Rightarrow> uuid option \<Rightarrow> uuid \<Rightarrow> project_row \<Rightarrow> blocked \<Rightarrow> (string \<Rightarrow> bool) \<Rightarrow>
   db \<Rightarrow> project_status \<Rightarrow> transition_available" where
  "available_for running org actor pid p b permitted s to =
     (let rule = map_of transitions (p_status p, to);
          needs_reason = (case rule of None \<Rightarrow> False | Some r \<Rightarrow> snd r);
          problems = evaluate running org actor pid p b
            \<lparr>tc_to = to, tc_reason = (if needs_reason then Some twenty_x else None), tc_override = False\<rparr> permitted s;
          override_available = (problems = [conflict ''closing_blocked''])
      in \<lparr>ta_to = to, ta_reachable = (rule \<noteq> None), ta_reason_required = (needs_reason \<or> override_available),
          ta_override_available = override_available, ta_allowed = (problems = []), ta_blocked = problems\<rparr>)"

definition available_transitions ::
  "(uuid \<Rightarrow> uuid \<Rightarrow> db \<Rightarrow> bool) \<Rightarrow> document_counter list \<Rightarrow> uuid \<Rightarrow> uuid option \<Rightarrow> uuid \<Rightarrow> (string \<Rightarrow> bool) \<Rightarrow>
   (db, transition_available list) tx" where
  "available_transitions running fs org actor pid permitted =
     tx_bind (lifecycle_snapshot fs org pid False) (\<lambda>(p, b).
     tx_read (\<lambda>s. map (available_for running org actor pid p b permitted s) project_statuses))"

section \<open>The moves\<close>

text \<open>The row moves and its version counts; the event names an actor or the system.\<close>

definition lifecycle_write ::
  "uuid \<Rightarrow> uuid option \<Rightarrow> uuid \<Rightarrow> project_row \<Rightarrow> blocked \<Rightarrow> transition_create \<Rightarrow> string option \<Rightarrow> (db, unit) tx" where
  "lifecycle_write org actor pid p b body system =
     tx_bind (tx_update (\<lambda>s. s\<lparr>projects := (case find_project org pid s of None \<Rightarrow> projects s
        | Some q \<Rightarrow> (projects s)(pid \<mapsto> q\<lparr>p_status := tc_to body, p_version := Suc (p_version q)\<rparr>))\<rparr>)) (\<lambda>_.
     let by_system = (system \<noteq> None \<and> system \<noteq> Some []); event_actor = (if by_system then None else actor) in
     tx_bind (tx_require (event_actor \<noteq> None \<or> system \<noteq> None) (Raised (CheckViolation ''project_status_event_actor''))) (\<lambda>_.
     tx_update (\<lambda>s. s\<lparr>status_events := status_events s @ [\<lparr>se_org = org, se_project = pid, se_from = p_status p,
       se_to = tc_to body, se_actor = event_actor, se_system_actor = system, se_reason = tc_reason body,
       se_override = tc_override body, se_blocked = (bl_reserved b, bl_committed b, bl_open b, bl_currency b)\<rparr>]\<rparr>)))"

definition transition ::
  "(uuid \<Rightarrow> uuid \<Rightarrow> db \<Rightarrow> bool) \<Rightarrow> (uuid \<Rightarrow> uuid \<Rightarrow> db \<Rightarrow> bool) \<Rightarrow> document_counter list \<Rightarrow> uuid \<Rightarrow> uuid option \<Rightarrow> uuid \<Rightarrow>
   transition_create \<Rightarrow> if_match \<Rightarrow> (string \<Rightarrow> bool) \<Rightarrow> (db, project_row) tx" where
  "transition running published fs org actor pid body version permitted =
     tx_bind (expected_version [] version) (\<lambda>expected.
     tx_bind (lifecycle_snapshot fs org pid True) (\<lambda>(p, b).
     tx_bind (tx_require (\<not> (tc_to body = ApprovalPending \<and> p_status p \<noteq> Draft)) (conflict ''invalid_transition'')) (\<lambda>_.
     tx_bind (tx_require (int (p_version p) = expected) (conflict ''stale_version'')) (\<lambda>_.
     tx_bind (tx_read (evaluate running org actor pid p b body permitted)) (\<lambda>problems.
     tx_bind (tx_require (problems = []) (hd problems)) (\<lambda>_.
     tx_bind (tx_read (\<lambda>s. tc_to body = ApprovalPending \<longrightarrow> published org (p_bu p) s)) (\<lambda>workflow.
     tx_bind (tx_require workflow (conflict ''workflow_not_set_up'')) (\<lambda>_.
     tx_bind (lifecycle_write org actor pid p b body None) (\<lambda>_.
     tx_bind (get_project org pid) (\<lambda>after.
     tx_bind (project_audit org actor ''project.transition'' pid None) (\<lambda>_.
     tx_return after)))))))))))"

text \<open>The outcome of an approval workflow, called with \<open>Active\<close> or \<open>Draft\<close>.\<close>

definition approval_outcome ::
  "document_counter list \<Rightarrow> uuid \<Rightarrow> uuid option \<Rightarrow> uuid \<Rightarrow> project_status \<Rightarrow> string option \<Rightarrow> (db, project_row) tx" where
  "approval_outcome fs org actor pid status reason =
     tx_bind (lifecycle_snapshot fs org pid True) (\<lambda>(p, b).
     tx_bind (tx_require (p_status p = ApprovalPending) (conflict ''invalid_transition'')) (\<lambda>_.
     tx_bind (lifecycle_write org actor pid p b \<lparr>tc_to = status, tc_reason = reason, tc_override = False\<rparr> None) (\<lambda>_.
     tx_bind (get_project org pid) (\<lambda>after.
     tx_bind (project_audit org actor (if status = Active then ''project.activated'' else ''project.transition'') pid None) (\<lambda>_.
     tx_return after)))))"

definition abandon ::
  "document_counter list \<Rightarrow> uuid \<Rightarrow> uuid \<Rightarrow> string \<Rightarrow> uuid option \<Rightarrow> string option \<Rightarrow> int \<Rightarrow> string \<Rightarrow> (db, bool) tx" where
  "abandon fs org pid reason actor system own action =
     tx_bind (lifecycle_snapshot fs org pid True) (\<lambda>(p, b).
     if p_status p \<noteq> Active \<and> p_status p \<noteq> Deferred then tx_return False
     else
       let b = b\<lparr>bl_open := bl_open b - own\<rparr> in
       tx_bind (case blocked_by_holdings b False (\<lambda>_. False) [] of None \<Rightarrow> tx_return () | Some e \<Rightarrow> tx_fail e) (\<lambda>_.
       tx_bind (lifecycle_write org actor pid p b \<lparr>tc_to = Abandoned, tc_reason = Some reason, tc_override = False\<rparr> system) (\<lambda>_.
       tx_bind (get_project org pid) (\<lambda>after.
       tx_bind (tx_lift (make_actor (if system \<noteq> None \<and> system \<noteq> Some [] then JobActor else UserActor) actor)) (\<lambda>a.
       tx_bind (audit_write org a action ''project'' (Some pid) None Success None) (\<lambda>_.
       tx_return True))))))"

text \<open>The project of a stopped Project Request, which is still open itself, or of a stopped requisition.\<close>

definition abandon_requested ::
  "document_counter list \<Rightarrow> uuid \<Rightarrow> uuid \<Rightarrow> string \<Rightarrow> uuid option \<Rightarrow> string option \<Rightarrow> (db, bool) tx" where
  "abandon_requested fs org pid reason actor system = abandon fs org pid reason actor system 1 ''project.abandon''"

definition abandon_generated ::
  "document_counter list \<Rightarrow> uuid \<Rightarrow> uuid \<Rightarrow> string \<Rightarrow> uuid option \<Rightarrow> string option \<Rightarrow> (db, bool) tx" where
  "abandon_generated fs org pid reason actor system = abandon fs org pid reason actor system 0 ''project.transition''"

end
