(* ===== verification/LifecycleLaws.thy ===== *)
theory LifecycleLaws
  imports Lifecycle Samples
begin

text \<open>
  What the lifecycle guarantees: moves only along the table, under their guards, each with its event;
  closing only of projects that hold nothing; a history of events that explains every status.
\<close>

section \<open>How a move succeeds\<close>

text \<open>The database after a move of one project: its row, one event, nothing of the ledger.\<close>

definition moved :: "uuid \<Rightarrow> uuid \<Rightarrow> project_row \<Rightarrow> project_status \<Rightarrow> db \<Rightarrow> db \<Rightarrow> bool" where
  "moved org pid p to s t \<longleftrightarrow>
     projects s pid = Some p \<and> p_org p = org \<and>
     projects t = (projects s)(pid \<mapsto> p\<lparr>p_status := to, p_version := Suc (p_version p)\<rparr>) \<and>
     (\<exists>e. status_events t = status_events s @ [e] \<and> se_org e = org \<and> se_project e = pid \<and>
        se_from e = p_status p \<and> se_to e = to) \<and>
     entries t = entries s \<and> project_ids t = project_ids s \<and> next_uuid t = next_uuid s"

text \<open>The snapshot for a change may open the balance row, and nothing else.\<close>

lemma insert_balance_Inr:
  "insert_balance org pid s = Inr (u, t) \<Longrightarrow> \<exists>b. t = s\<lparr>balances := b\<rparr> \<and> (balances s pid \<noteq> None \<longrightarrow> b = balances s) \<and>
     (\<forall>r. b pid = Some r \<longrightarrow> balances s pid = Some r \<or> balances s pid = None \<and> b_reserved r = 0 \<and> b_committed r = 0)"
  by (rule exI [of _ "balances t"]) (auto simp: insert_balance_def new_balance_def split: option.splits if_splits)

lemma lifecycle_snapshot_Inr:
  assumes "lifecycle_snapshot fs org pid True s = Inr ((p, b), t)"
  obtains r where "\<exists>bs. t = s\<lparr>balances := bs\<rparr> \<and> (balances s pid \<noteq> None \<longrightarrow> t = s)" "insert_balance org pid s = Inr ((), t)"
    "projects s pid = Some p" "p_org p = org"
    "balance_at org pid t = Some r" "bl_reserved b = b_reserved r" "bl_committed b = b_committed r"
    "bl_open b = open_documents fs org pid t" "bl_currency b = p_currency p"
  using assms unfolding lifecycle_snapshot_def
proof (elim tx_bindE, goal_cases)
  case (1 u s1 row s2 u2 s3 q s4 n s5)
  have ins: "insert_balance org pid s = Inr ((), s1)" using 1(2) by simp
  then obtain bs where bs: "s1 = s\<lparr>balances := bs\<rparr>" "balances s pid \<noteq> None \<longrightarrow> bs = balances s"
    using insert_balance_Inr by blast
  have row: "row = balance_at org pid s1" "s2 = s1" "s3 = s1" "row \<noteq> None"
    using 1(3,4) by (auto simp: repo_balance_def)
  have q: "projects s pid = Some q" "p_org q = org" "s4 = s1" using 1(5) row bs by (auto simp: get_project_Inr)
  obtain r where r: "row = Some r" using row(4) by auto
  have t: "t = s1" "p = q" "n = open_documents fs org pid s1" "b = \<lparr>bl_reserved = b_reserved r, bl_committed = b_committed r,
       bl_open = n, bl_currency = p_currency p\<rparr>" using 1(6,7) q r by auto
  show ?case
    by (rule 1(1) [of r]) (use ins bs row q r t in auto)
qed

lemma lifecycle_write_Inr:
  assumes "lifecycle_write org actor pid p b body system s = Inr (u, t)" "projects s pid = Some p" "p_org p = org"
  shows "moved org pid p (tc_to body) s t" "balances t = balances s"
    "\<exists>e. status_events t = status_events s @ [e] \<and> se_actor e = (if system \<noteq> None \<and> system \<noteq> Some [] then None else actor) \<and>
       se_system_actor e = system \<and> se_reason e = tc_reason body \<and> se_override e = tc_override body"
  using assms by (auto simp: lifecycle_write_def Let_def tx_bind_Inr moved_def find_project_def)

text \<open>What the audit trail leaves alone.\<close>

definition only_audits :: "db \<Rightarrow> db \<Rightarrow> bool" where
  "only_audits s t \<longleftrightarrow> (\<exists>a. t = s\<lparr>audits := a\<rparr>)"

lemma project_audit_only: "project_audit org actor action pid reason s = Inr (u, t) \<Longrightarrow> only_audits s t"
  by (auto simp: project_audit_def tx_bind_Inr audit_write_Inr only_audits_def)

lemma moved_only_audits: "moved org pid p to s t \<Longrightarrow> only_audits t u \<Longrightarrow> moved org pid p to s u"
  by (auto simp: moved_def only_audits_def)

lemma moved_balances: "moved org pid p to (s\<lparr>balances := b\<rparr>) t \<Longrightarrow> moved org pid p to s t"
  by (simp add: moved_def)

lemma transition_Inr:
  assumes "transition running published fs org actor pid body version permitted s = Inr (q, t)"
  obtains p b s1 r e where "insert_balance org pid s = Inr ((), s1)" "projects s pid = Some p" "p_org p = org"
    "version = Version (int (p_version p))" "evaluate running org actor pid p b body permitted s1 = []"
    "balance_at org pid s1 = Some r" "bl_reserved b = b_reserved r" "bl_committed b = b_committed r"
    "bl_open b = open_documents fs org pid s1"
    "tc_to body = ApprovalPending \<longrightarrow> published org (p_bu p) s1"
    "moved org pid p (tc_to body) s t" "projects t pid = Some q" "balances t = balances s1"
    "status_events t = status_events s @ [e]" "se_actor e = actor" "se_reason e = tc_reason body" "se_override e = tc_override body"
  using assms unfolding transition_def
proof (elim tx_bindE, goal_cases)
  case (1 expected s1 pb s2)
  obtain p b where pb: "pb = (p, b)" by (cases pb)
  have v: "version = Version expected" "s1 = s" using 1(2) by (auto simp: expected_version_def split: if_match.splits)
  obtain r where snap: "\<exists>bs. s2 = s\<lparr>balances := bs\<rparr> \<and> (balances s pid \<noteq> None \<longrightarrow> s2 = s)" "insert_balance org pid s = Inr ((), s2)"
    "projects s pid = Some p" "p_org p = org"
    "balance_at org pid s2 = Some r" "bl_reserved b = b_reserved r" "bl_committed b = b_committed r"
    "bl_open b = open_documents fs org pid s2"
    using 1(3) unfolding pb v by (rule lifecycle_snapshot_Inr) blast
  note that = 1(1)
  from 1(4) show ?case
    unfolding pb prod.case
  proof (elim tx_bindE, goal_cases)
    case (1 u3 s3 u4 s4 problems s5 u6 s6 wf s7 u8 s8 u9 s9 after s10 u11 s11)
    have quiet: "s3 = s2" "s4 = s2" "s5 = s2" "s6 = s2" "s7 = s2" "s8 = s2" "evaluate running org actor pid p b body permitted s2 = []"
      "int (p_version p) = expected" "tc_to body = ApprovalPending \<longrightarrow> published org (p_bu p) s2"
      using 1(1-6) by auto
    have p2: "projects s2 pid = Some p" using snap(1,3) by auto
    note w = lifecycle_write_Inr [OF 1(7) [unfolded quiet(6)] p2 snap(4)]
    have after: "s10 = s9" "projects s9 pid = Some after" using 1(8) by (auto simp: get_project_Inr)
    have audit: "only_audits s9 s11" using project_audit_only [OF 1(9)] after by simp
    have t: "t = s11" "q = after" using 1(10) by auto
    have "moved org pid p (tc_to body) s2 t" using moved_only_audits [OF w(1) audit] t by simp
    then have m: "moved org pid p (tc_to body) s t" using snap(1) by (auto dest: moved_balances)
    obtain e where e: "status_events s9 = status_events s2 @ [e]" "se_actor e = actor" "se_reason e = tc_reason body"
      "se_override e = tc_override body" using w(3) by auto
    show ?case
      by (rule that [of s2 p b r e])
        (use snap v quiet m e after audit t w(2) in \<open>auto simp: only_audits_def\<close>)
  qed
qed

text \<open>The balance row of a closing project is in the books.\<close>

lemma opened_balance:
  assumes "insert_balance org pid s = Inr ((), t)" "balance_at org pid t = Some r"
  shows "lock_or_open org pid s = Inr (r, t)"
  using assms
  by (auto simp: lock_or_open_def repo_balance_def insert_balance_def balance_at_def tx_eval new_balance_def
      split: option.splits if_splits)

lemma unblocked:
  "blocked_by_holdings b override permitted reason = None \<Longrightarrow>
     bl_reserved b \<le> 0 \<and> bl_committed b \<le> 0 \<and> bl_open b \<le> 0 \<or>
     override \<and> permitted ''project.close.override'' \<and> 20 \<le> length reason"
  by (auto simp: blocked_by_holdings_def split: if_splits)

lemma nothing_held:
  assumes ok: "budget_ok s" and ins: "insert_balance org pid s = Inr ((), t)" "balance_at org pid t = Some r"
    and none: "b_reserved r \<le> 0" "b_committed r \<le> 0"
    and h: "h \<in> set (entries s)" "le_project h = pid" "holds (le_type h) = Some k"
  shows "view_remaining (entries s) h = 0"
proof -
  note open_row = opened_balance [OF ins]
  have books: "ledger_ok s" "holdings_ok (entries s)" using ok by (simp_all add: budget_ok_def)
  note kept = lock_or_open_keeps [OF books(1) open_row]
  have row: "balances t pid = Some r" using ins(2) by (auto simp: balance_at_def split: option.splits if_splits)
  have k: "k \<in> {BReserved, BCommitted}" using h(3) by (cases "le_type h") auto
  have "bucket_of k r = bucket_total (entries s) pid k"
    using kept(1,2) row by (auto simp: ledger_ok_def)
  moreover have "bucket_of k r \<le> 0" using k none by auto
  ultimately have sum: "(\<Sum>r\<in>holdings_of (entries s) pid k. view_remaining (entries s) r) \<le> 0"
    using bucket_is_held [OF books k, of pid] by simp
  have pos: "0 \<le> view_remaining (entries s) x" if "x \<in> holdings_of (entries s) pid k" for x
    using view_bounds(1) [OF books, of x] that by (auto simp: holdings_of_def)
  have "finite (holdings_of (entries s) pid k)" by (simp add: holdings_of_def)
  moreover have "h \<in> holdings_of (entries s) pid k" using h by (simp add: holdings_of_def)
  ultimately show ?thesis
    using sum pos by (metis (no_types, lifting) antisym sum_nonneg sum_nonneg_eq_0_iff)
qed

text \<open>A list of problems is empty when none of its guards fired.\<close>

lemma no_problem:
  "(if c then [] else [x]) = [] \<longleftrightarrow> c" "(if c then [x] else []) = [] \<longleftrightarrow> \<not> c"
  "(if c then (case y of None \<Rightarrow> [] | Some e \<Rightarrow> [e]) else []) = [] \<longleftrightarrow> (c \<longrightarrow> y = None)"
  by (auto split: option.splits)

lemma evaluate_clear:
  assumes "evaluate running org actor pid p b body permitted s = []"
  obtains permission needs_reason where
    "((p_status p, tc_to body), (permission, needs_reason)) \<in> set transitions" "permitted permission"
    "needs_reason \<longrightarrow> strip (case tc_reason body of None \<Rightarrow> [] | Some r \<Rightarrow> r) \<noteq> []"
    "tc_override body \<longrightarrow> permitted ''project.close.override''"
    "tc_to body = ApprovalPending \<longrightarrow> \<not> incomplete p"
    "p_status p = ApprovalPending \<longrightarrow> tc_to body \<in> {Active, Draft} \<longrightarrow> \<not> running org pid s"
    "p_status p = ApprovalPending \<longrightarrow> tc_to body = Active \<longrightarrow> (\<forall>e. last_submission org pid s = Some e \<longrightarrow> se_actor e \<noteq> actor)"
    "closing (tc_to body) \<longrightarrow> blocked_by_holdings b (tc_override body) permitted
       (strip (case tc_reason body of None \<Rightarrow> [] | Some r \<Rightarrow> r)) = None"
proof (cases "map_of transitions (p_status p, tc_to body)")
  case None
  then show ?thesis using assms by (simp add: evaluate_def)
next
  case (Some rule)
  obtain permission needs_reason where rule: "rule = (permission, needs_reason)" by (cases rule)
  note clear = assms [unfolded evaluate_def Some rule option.case prod.case Let_def append_is_Nil_conv no_problem]
  show ?thesis
    by (rule that [OF map_of_SomeD [OF Some [unfolded rule]]]) (use clear in \<open>simp_all split: option.splits, blast+\<close>)
qed

lemma approval_outcome_Inr:
  assumes "approval_outcome fs org actor pid status reason s = Inr (q, t)"
  obtains p where "projects s pid = Some p" "p_org p = org" "p_status p = ApprovalPending" "moved org pid p status s t"
    "projects t pid = Some q"
  using assms unfolding approval_outcome_def
proof (elim tx_bindE, goal_cases)
  case (1 pb s1)
  obtain p b where pb: "pb = (p, b)" by (cases pb)
  note that = 1(1)
  obtain r where snap: "\<exists>bs. s1 = s\<lparr>balances := bs\<rparr>" "projects s pid = Some p" "p_org p = org"
    using 1(2) unfolding pb by (rule lifecycle_snapshot_Inr) blast
  from 1(3) show ?case
    unfolding pb prod.case
  proof (elim tx_bindE, goal_cases)
    case (1 u2 s2 u3 s3 after s4 u5 s5)
    have p: "p_status p = ApprovalPending" "s2 = s1" "projects s1 pid = Some p" using 1(1) snap by auto
    have m: "moved org pid p status s1 s3"
      using lifecycle_write_Inr(1) [OF 1(2) [unfolded p(2)] p(3) snap(3)] by simp
    have t: "s4 = s3" "projects s3 pid = Some after" "t = s5" "q = after" using 1(3,5) by (auto simp: get_project_Inr)
    then have "moved org pid p status s1 t" using moved_only_audits [OF m] project_audit_only [OF 1(4)] by simp
    moreover have "projects t pid = Some q" using project_audit_only [OF 1(4)] t by (auto simp: only_audits_def)
    ultimately show ?case using that p(1) snap by (auto dest: moved_balances)
  qed
qed

lemma abandon_Inr:
  assumes "abandon fs org pid reason actor system own action s = Inr (done, t)"
  obtains (kept) p bs where "\<not> done" "projects s pid = Some p" "p_status p \<noteq> Active" "p_status p \<noteq> Deferred" "t = s\<lparr>balances := bs\<rparr>"
  | (abandoned) p b s1 r where "done" "projects s pid = Some p" "p_status p = Active \<or> p_status p = Deferred"
      "moved org pid p Abandoned s t" "insert_balance org pid s = Inr ((), s1)" "balance_at org pid s1 = Some r"
      "b_reserved r \<le> 0" "b_committed r \<le> 0" "open_documents fs org pid s1 \<le> own"
  using assms unfolding abandon_def
proof (elim tx_bindE, goal_cases)
  case (1 pb s1)
  note kept = 1(1) and abandoned = 1(2)
  obtain p b where pb: "pb = (p, b)" by (cases pb)
  obtain r where snap: "\<exists>bs. s1 = s\<lparr>balances := bs\<rparr>" "insert_balance org pid s = Inr ((), s1)" "projects s pid = Some p" "p_org p = org"
    "balance_at org pid s1 = Some r" "bl_reserved b = b_reserved r" "bl_committed b = b_committed r"
    "bl_open b = open_documents fs org pid s1"
    using 1(3) unfolding pb by (rule lifecycle_snapshot_Inr) blast
  show ?case
  proof (cases "p_status p \<noteq> Active \<and> p_status p \<noteq> Deferred")
    case True
    then show ?thesis using 1(4) snap(1,3) kept unfolding pb by auto
  next
    case False
    let ?b = "b\<lparr>bl_open := bl_open b - own\<rparr>"
    from 1(4) False have "tx_bind (case blocked_by_holdings ?b False (\<lambda>_. False) [] of None \<Rightarrow> tx_return () | Some e \<Rightarrow> tx_fail e) (\<lambda>_.
       tx_bind (lifecycle_write org actor pid p ?b \<lparr>tc_to = Abandoned, tc_reason = Some reason, tc_override = False\<rparr> system) (\<lambda>_.
       tx_bind (get_project org pid) (\<lambda>after.
       tx_bind (tx_lift (make_actor (if system \<noteq> None \<and> system \<noteq> Some [] then JobActor else UserActor) actor)) (\<lambda>a.
       tx_bind (audit_write org a action ''project'' (Some pid) None Success None) (\<lambda>_.
       tx_return True))))) s1 = Inr (done, t)"
      by (simp add: pb Let_def)
    then show ?thesis
    proof (elim tx_bindE, goal_cases)
      case (1 u2 s2 u3 s3 after s4 a s5 row s6)
      have free: "blocked_by_holdings ?b False (\<lambda>_. False) [] = None" and s2: "s2 = s1" using 1(1) by (auto split: option.splits)
      have held: "b_reserved r \<le> 0" "b_committed r \<le> 0" "open_documents fs org pid s1 \<le> own"
        using unblocked [OF free] snap(6-8) by simp_all
      have p1: "projects s1 pid = Some p" using snap(1,3) by auto
      have m: "moved org pid p Abandoned s1 s3"
        using lifecycle_write_Inr(1) [OF 1(2) [unfolded s2] p1 snap(4)] by simp
      have "only_audits s3 t" "done" using 1(3-6) by (auto simp: get_project_Inr audit_write_Inr only_audits_def)
      then show ?thesis
        using abandoned [of p s1 r] held snap False moved_only_audits [OF m] by (auto dest: moved_balances)
    qed
  qed
qed

text \<open>
  C18. A transition that succeeds is in the table, permitted, explained where the table asks for a
  reason, and made on the version the caller read.  It moves exactly its project, counts the version
  and appends the one event that records it.
\<close>

theorem transition_in_table:
  assumes "transition running published fs org actor pid body version permitted s = Inr (q, t)"
  shows "\<exists>p permission needs_reason e.
    projects s pid = Some p \<and> version = Version (int (p_version p)) \<and>
    ((p_status p, tc_to body), (permission, needs_reason)) \<in> set transitions \<and> permitted permission \<and>
    (needs_reason \<longrightarrow> (\<exists>r. tc_reason body = Some r \<and> strip r \<noteq> [])) \<and>
    q = p\<lparr>p_status := tc_to body, p_version := Suc (p_version p)\<rparr> \<and> projects t = (projects s)(pid \<mapsto> q) \<and>
    entries t = entries s \<and> status_events t = status_events s @ [e] \<and>
    se_from e = p_status p \<and> se_to e = tc_to body \<and> se_actor e = actor"
proof (rule transition_Inr [OF assms], goal_cases)
  case (1 p b s1 r e)
  obtain permission needs_reason where rule: "((p_status p, tc_to body), (permission, needs_reason)) \<in> set transitions"
    "permitted permission" "needs_reason \<longrightarrow> strip (case tc_reason body of None \<Rightarrow> [] | Some r \<Rightarrow> r) \<noteq> []"
    by (rule evaluate_clear [OF 1(5)]) blast
  have "needs_reason \<longrightarrow> (\<exists>r. tc_reason body = Some r \<and> strip r \<noteq> [])"
    using rule(3) by (cases "tc_reason body") (simp_all add: strip_def)
  moreover have "q = p\<lparr>p_status := tc_to body, p_version := Suc (p_version p)\<rparr>" "projects t = (projects s)(pid \<mapsto> q)"
    "entries t = entries s" using 1(11,12) by (auto simp: moved_def)
  moreover have "se_from e = p_status p" "se_to e = tc_to body" using 1(11,14) by (auto simp: moved_def)
  ultimately show ?case using 1(2,4,14,15) rule(1,2) by blast
qed

text \<open>
  The ways a project is closed without an override: by hand, or because the Project Request or the
  requisition behind it was stopped.  The stopped request is itself the one document still open.
\<close>

inductive closed_plainly :: "document_counter list \<Rightarrow> uuid \<Rightarrow> uuid \<Rightarrow> int \<Rightarrow> db \<Rightarrow> db \<Rightarrow> bool" where
  by_hand: "transition running published fs org actor pid body version permitted s = Inr (q, t) \<Longrightarrow>
    closing (tc_to body) \<Longrightarrow> \<not> tc_override body \<Longrightarrow> closed_plainly fs org pid 0 s t"
| with_request: "abandon_requested fs org pid reason actor system s = Inr (True, t) \<Longrightarrow> closed_plainly fs org pid 1 s t"
| with_requisition: "abandon_generated fs org pid reason actor system s = Inr (True, t) \<Longrightarrow> closed_plainly fs org pid 0 s t"

lemma closed_row:
  assumes "moved org pid p to s t" "closing to"
  obtains q where "projects t pid = Some q" "p_org q = org" "closing (p_status q)" "entries t = entries s"
  by (rule that [of "p\<lparr>p_status := to, p_version := Suc (p_version p)\<rparr>"]) (use assms in \<open>auto simp: moved_def\<close>)

lemma abandon_True:
  assumes "abandon fs org pid reason actor system own action s = Inr (True, t)"
  shows "\<exists>p s1 r. projects s pid = Some p \<and> moved org pid p Abandoned s t \<and> insert_balance org pid s = Inr ((), s1) \<and>
    balance_at org pid s1 = Some r \<and> b_reserved r \<le> 0 \<and> b_committed r \<le> 0 \<and> open_documents fs org pid s1 \<le> own"
  by (rule abandon_Inr [OF assms]) blast+

lemma closed_plainly_row:
  assumes "closed_plainly fs org pid own s t"
  obtains p q s1 r where "projects s pid = Some p" "p_org q = org" "projects t pid = Some q" "closing (p_status q)"
    "entries t = entries s" "insert_balance org pid s = Inr ((), s1)" "balance_at org pid s1 = Some r"
    "b_reserved r \<le> 0" "b_committed r \<le> 0" "open_documents fs org pid s1 \<le> own"
  using assms
proof cases
  case (by_hand running published actor body version permitted q)
  show ?thesis
  proof (rule transition_Inr [OF by_hand(2)], goal_cases)
    case (1 p b s1 r e)
    have "blocked_by_holdings b (tc_override body) permitted (strip (case tc_reason body of None \<Rightarrow> [] | Some r \<Rightarrow> r)) = None"
      by (rule evaluate_clear [OF 1(5)]) (use by_hand(3) in simp)
    from unblocked [OF this] have "b_reserved r \<le> 0" "b_committed r \<le> 0" "open_documents fs org pid s1 \<le> 0"
      using by_hand(4) 1(7-9) by simp_all
    moreover have "closing (p_status q)" "entries t = entries s" "p_org q = org"
      using 1(11,12) by_hand(3) by (auto simp: moved_def)
    ultimately show ?case using that [of p q s1 r] 1(1,2,6,12) by_hand(1) by simp
  qed
next
  case (with_request reason actor system)
  obtain p s1 r where a: "projects s pid = Some p" "moved org pid p Abandoned s t" "insert_balance org pid s = Inr ((), s1)"
    "balance_at org pid s1 = Some r" "b_reserved r \<le> 0" "b_committed r \<le> 0" "open_documents fs org pid s1 \<le> own"
    using abandon_True [OF with_request(2) [unfolded abandon_requested_def]] with_request(1) by blast
  show ?thesis by (rule closed_row [OF a(2)]) (use that [OF a(1) _ _ _ _ a(3-7)] in \<open>auto simp: closing_def\<close>)
next
  case (with_requisition reason actor system)
  obtain p s1 r where a: "projects s pid = Some p" "moved org pid p Abandoned s t" "insert_balance org pid s = Inr ((), s1)"
    "balance_at org pid s1 = Some r" "b_reserved r \<le> 0" "b_committed r \<le> 0" "open_documents fs org pid s1 \<le> own"
    using abandon_True [OF with_requisition(2) [unfolded abandon_generated_def]] with_requisition(1) by blast
  show ?thesis by (rule closed_row [OF a(2)]) (use that [OF a(1) _ _ _ _ a(3-7)] in \<open>auto simp: closing_def\<close>)
qed

text \<open>
  C19. A project that is closed without an override holds nothing: every reservation and commitment of its
  ledger is fully released or converted, and once its balance row is locked no document counts as open on
  it, but for the Project Request when it is that request's end that closes its project.
\<close>

theorem closed_projects_hold_nothing:
  assumes "budget_ok s" "closed_plainly fs org pid own s t"
  shows "(\<exists>q. projects t pid = Some q \<and> p_org q = org \<and> closing (p_status q)) \<and>
    (\<forall>h\<in>set (entries t). le_project h = pid \<and> holds (le_type h) \<noteq> None \<longrightarrow> view_remaining (entries t) h = 0) \<and>
    (\<exists>s1. insert_balance org pid s = Inr ((), s1) \<and> open_documents fs org pid s1 \<le> own) \<and>
    (balances s pid \<noteq> None \<longrightarrow> open_documents fs org pid s \<le> own)"
proof (rule closed_plainly_row [OF assms(2)], goal_cases)
  case (1 p q s1 r)
  have "view_remaining (entries t) h = 0" if h: "h \<in> set (entries t)" "le_project h = pid" "holds (le_type h) \<noteq> None" for h
    using nothing_held [OF assms(1) 1(6-9)] h 1(5) by auto
  moreover have "balances s pid \<noteq> None \<Longrightarrow> s1 = s" using insert_balance_Inr [OF 1(6)] by auto
  ultimately show ?case using 1(2-4,6,10) by auto
qed

section \<open>The history of a project\<close>

text \<open>What the events of a project say its status is, starting from the one it was created with.\<close>

fun replay_status :: "project_status \<Rightarrow> status_event list \<Rightarrow> project_status option" where
  "replay_status st [] = Some st"
| "replay_status st (e # es) =
     (if se_from e = st \<and> map_of transitions (st, se_to e) \<noteq> None then replay_status (se_to e) es else None)"

lemma replay_snoc:
  "replay_status st (es @ [e]) =
     (case replay_status st es of None \<Rightarrow> None
      | Some x \<Rightarrow> if se_from e = x \<and> map_of transitions (x, se_to e) \<noteq> None then Some (se_to e) else None)"
  by (induction es arbitrary: st) auto

definition events_of :: "uuid \<Rightarrow> db \<Rightarrow> status_event list" where
  "events_of pid s = filter (\<lambda>e. se_project e = pid) (status_events s)"

definition history_ok :: "db \<Rightarrow> bool" where
  "history_ok s \<longleftrightarrow>
     (\<forall>i p. projects s i = Some p \<longrightarrow> (\<exists>start\<in>{Draft, Active}. replay_status start (events_of i s) = Some (p_status p))) \<and>
     (\<forall>e\<in>set (status_events s). \<exists>p. projects s (se_project e) = Some p \<and> p_org p = se_org e)"

definition history_kept :: "db \<Rightarrow> db \<Rightarrow> bool" where
  "history_kept s t \<longleftrightarrow> status_events t = status_events s \<and>
     (\<forall>i p. projects s i = Some p \<longrightarrow> (\<exists>q. projects t i = Some q \<and> p_status q = p_status p \<and> p_org q = p_org p)) \<and>
     (\<forall>i q. projects t i = Some q \<longrightarrow> projects s i = None \<longrightarrow> p_status q \<in> {Draft, Active})"

lemma history_kept_ok:
  assumes "history_kept s t" "history_ok s"
  shows "history_ok t"
proof -
  have "\<exists>start\<in>{Draft, Active}. replay_status start (events_of i t) = Some (p_status q)" if "projects t i = Some q" for i q
  proof (cases "projects s i")
    case None
    then have "events_of i s = []" using assms(2) by (auto simp: history_ok_def events_of_def filter_empty_conv)
    moreover have "p_status q \<in> {Draft, Active}" using assms(1) that None by (auto simp: history_kept_def)
    ultimately show ?thesis using assms(1) by (auto simp: history_kept_def events_of_def)
  next
    case (Some p)
    then show ?thesis using assms that by (fastforce simp: history_ok_def history_kept_def events_of_def)
  qed
  moreover have "\<forall>e\<in>set (status_events t). \<exists>p. projects t (se_project e) = Some p \<and> p_org p = se_org e"
    using assms unfolding history_ok_def history_kept_def by metis
  ultimately show ?thesis unfolding history_ok_def by blast
qed

lemma moved_history:
  assumes ok: "history_ok s" and m: "moved org pid p to s t" and rule: "map_of transitions (p_status p, to) \<noteq> None"
  shows "history_ok t"
proof -
  obtain e where p: "projects s pid = Some p" and e: "status_events t = status_events s @ [e]" "se_project e = pid" "se_from e = p_status p" "se_to e = to"
    and t: "projects t = (projects s)(pid \<mapsto> p\<lparr>p_status := to, p_version := Suc (p_version p)\<rparr>)"
    using m by (auto simp: moved_def)
  have "\<exists>start\<in>{Draft, Active}. replay_status start (events_of i t) = Some (p_status q)" if q: "projects t i = Some q" for i q
  proof (cases "i = pid")
    case True
    have "events_of pid t = events_of pid s @ [e]" using e by (simp add: events_of_def)
    then show ?thesis using ok p q True e t rule unfolding history_ok_def by (fastforce simp: replay_snoc)
  next
    case False
    then have "events_of i t = events_of i s" "projects s i = Some q" using e q t by (simp_all add: events_of_def)
    then show ?thesis using ok by (simp add: history_ok_def)
  qed
  moreover have "\<forall>x\<in>set (status_events t). \<exists>q. projects t (se_project x) = Some q \<and> p_org q = se_org x"
    using ok e t p m by (fastforce simp: history_ok_def moved_def)
  ultimately show ?thesis unfolding history_ok_def by blast
qed

text \<open>The operations on projects keep statuses and append no event.\<close>

interpretation events: tx_preorder "\<lambda>s t. status_events t = status_events s"
  by unfold_locales auto

lemma fresh_events: "tx_rel (\<lambda>s t. status_events t = status_events s) fresh_uuid"
  by (auto simp: tx_rel_def fresh_uuid_Inr)

lemma audit_events: "tx_rel (\<lambda>s t. status_events t = status_events s) (project_audit org actor action pid reason)"
  using project_audit_only by (fastforce simp: tx_rel_def only_audits_def)

lemma scope_events: "tx_rel (\<lambda>s t. status_events t = status_events s) (register_project_scope org pid kind parent)"
  by (auto simp: tx_rel_def dest: register_project_scope_only)

lemma store_project_events:
  "tx_rel (\<lambda>s t. status_events t = status_events s) (store_project org actor body codes owner status gen reason source number)"
  unfolding store_project_def place_project_def insert_row_def Let_def
  by (intro tx_branches events.tx_ok events.update_ok fresh_events audit_events scope_events) simp_all

lemma insert_project_history:
  assumes ok: "tree_ok s" and run: "insert_project org actor body codes owner d status gen reason source s = (r, t)"
    and st: "status \<in> {Draft, Active}"
  shows "history_kept s t"
proof (cases "allocate_number org (pc_bu body) ''project'' d s")
  case (Inl e)
  then show ?thesis using run by (simp add: insert_project_def history_kept_def)
next
  case (Inr a)
  then obtain x s1 where a: "allocate_number org (pc_bu body) ''project'' d s = Inr (x, s1)" by (cases a) auto
  then obtain c where s1: "s1 = s\<lparr>counters := c\<rparr>" using allocate_same_tree by blast
  have ok1: "tree_ok s1" unfolding s1 by (rule same_tree_ok [OF counters_same_tree ok])
  show ?thesis
  proof (cases "store_project org actor body codes owner status gen reason source x s1")
    case (Inl e)
    then have "t = s1" using run a by (simp add: insert_project_def)
    then show ?thesis unfolding s1 by (simp add: history_kept_def)
  next
    case (Inr b)
    then obtain new p where b: "store_project org actor body codes owner status gen reason source x s1 = Inr ((new, p), t)"
      using run a by (cases b) (auto simp: insert_project_def)
    have "p_status p = status" using b by (rule store_project_Inr) blast
    moreover have "status_events t = status_events s" using tx_relD [OF store_project_events b] s1 by simp
    ultimately show ?thesis
      using store_project_tree(2,3) [OF ok1 b] s1 st by (auto simp: history_kept_def)
  qed
qed

lemma create_project_history:
  assumes "tree_ok s" "create_project org actor d body s = (r, t)"
  shows "history_kept s t"
  using assms insert_project_history [OF assms(1)] tx_relD [OF create_checks_quiet, of org actor d body s]
  by (auto simp: create_project_def history_kept_def split: sum.splits prod.splits)

lemma create_generated_history:
  assumes "tree_ok s" "create_generated org actor d body gen source reason s = (r, t)"
  shows "history_kept s t"
  using assms insert_project_history [OF assms(1)] by (auto simp: create_generated_def history_kept_def split: option.splits)

lemma update_project_history:
  assumes "tree_ok s" "update_project org actor pid body v s = Inr (q, t)"
  shows "history_kept s t"
proof -
  have "tx_rel (\<lambda>s t. status_events t = status_events s) (update_project org actor pid body v)"
    unfolding update_project_def expected_version_def check_external_ref_def check_user_def check_dates_def user_exists_def get_project_def Let_def
    by (intro tx_branches events.tx_ok events.update_ok audit_events tx_rel_fail) (auto split: if_match.split intro: events.tx_ok)
  from tx_relD [OF this assms(2)] have "status_events t = status_events s" .
  moreover obtain p where "projects s pid = Some p" "projects t = (projects s)(pid \<mapsto> q)" "q = patched_project body p"
    by (rule update_project_tree [OF assms])
  ultimately show ?thesis by (auto simp: history_kept_def patched_project_def)
qed

lemma substitute_codes_history: "substitute_codes org actor pid codes s = Inr (q, t) \<Longrightarrow> history_kept s t"
  by (auto simp: substitute_codes_def Let_def tx_bind_Inr get_project_Inr project_audit_def audit_write_Inr history_kept_def split: if_splits)

lemma apply_sponsors_history: "apply_sponsors org pid users s = Inr (u, t) \<Longrightarrow> history_kept s t"
  by (auto simp: apply_sponsors_def history_kept_def find_project_def split: list.splits option.splits if_splits)

section \<open>Every reachable state\<close>

inductive life_step :: "db \<Rightarrow> db \<Rightarrow> bool" where
  created: "create_project org actor d body s = (r, t) \<Longrightarrow> life_step s t"
| generated: "create_generated org actor d body gen source reason s = (r, t) \<Longrightarrow> life_step s t"
| updated: "update_project org actor pid body v s = Inr (q, t) \<Longrightarrow> life_step s t"
| substituted: "substitute_codes org actor pid codes s = Inr (q, t) \<Longrightarrow> life_step s t"
| sponsors_set: "apply_sponsors org pid users s = Inr ((), t) \<Longrightarrow> life_step s t"
| transits: "transition running published fs org actor pid body version permitted s = Inr (q, t) \<Longrightarrow> life_step s t"
| outcome: "approval_outcome fs org actor pid status reason s = Inr (q, t) \<Longrightarrow> status \<in> {Active, Draft} \<Longrightarrow> life_step s t"
| request_abandoned: "abandon_requested fs org pid reason' actor system s = Inr (b, t) \<Longrightarrow> life_step s t"
| generated_abandoned: "abandon_generated fs org pid reason' actor system s = Inr (b, t) \<Longrightarrow> life_step s t"
| other: "same_tree s t \<Longrightarrow> status_events t = status_events s \<Longrightarrow> life_step s t"

inductive life_reachable :: "db \<Rightarrow> bool" where
  at_start: "life_reachable empty_db"
| next_step: "life_reachable s \<Longrightarrow> life_step s t \<Longrightarrow> life_reachable t"

text \<open>A step either keeps every status or moves one project along the table.\<close>

lemma same_tree_history: "same_tree s t \<Longrightarrow> status_events t = status_events s \<Longrightarrow> history_kept s t"
  by (auto simp: same_tree_def history_kept_def)

lemma history_kept_balances: "history_kept s (s\<lparr>balances := b\<rparr>)"
  by (simp add: history_kept_def)

lemma abandon_step:
  assumes "abandon fs org pid reason actor system own action s = Inr (b, t)"
  shows "history_kept s t \<or> (\<exists>p. moved org pid p Abandoned s t \<and> map_of transitions (p_status p, Abandoned) \<noteq> None)"
  by (rule abandon_Inr [OF assms]) (auto simp: transitions_def history_kept_balances)

lemma step_kind:
  assumes ok: "tree_ok s" and step: "life_step s t"
  obtains "history_kept s t" | org pid p to where "moved org pid p to s t" "map_of transitions (p_status p, to) \<noteq> None"
  using step
proof cases
  case (transits running published fs org actor pid body version permitted q)
  show ?thesis
  proof (rule transition_Inr [OF transits])
    fix p b s1
    assume m: "moved org pid p (tc_to body) s t" and e: "evaluate running org actor pid p b body permitted s1 = []"
    have "map_of transitions (p_status p, tc_to body) \<noteq> None" using e by (auto simp: evaluate_def split: option.splits)
    with m show ?thesis by (rule that(2))
  qed
next
  case (outcome fs org actor pid status reason q)
  show ?thesis
    by (rule approval_outcome_Inr [OF outcome(1)], rule that(2), assumption) (use outcome(2) in \<open>auto simp: transitions_def\<close>)
next
  case (request_abandoned fs org pid reason actor system b)
  from abandon_step [OF request_abandoned [unfolded abandon_requested_def]] show ?thesis using that by blast
next
  case (generated_abandoned fs org pid reason actor system b)
  from abandon_step [OF generated_abandoned [unfolded abandon_generated_def]] show ?thesis using that by blast
next
  case (created org actor d body r)
  show ?thesis by (rule that(1) [OF create_project_history [OF ok created]])
next
  case (generated org actor d body gen source reason r)
  show ?thesis by (rule that(1) [OF create_generated_history [OF ok generated]])
next
  case (updated org actor pid body v q)
  show ?thesis by (rule that(1) [OF update_project_history [OF ok updated]])
next
  case (substituted org actor pid codes q)
  show ?thesis by (rule that(1) [OF substitute_codes_history [OF substituted]])
next
  case (sponsors_set org pid users)
  show ?thesis by (rule that(1) [OF apply_sponsors_history [OF sponsors_set]])
next
  case other
  show ?thesis by (rule that(1) [OF same_tree_history [OF other]])
qed

lemma moved_places: "moved org pid p to s t \<Longrightarrow> same_places s t"
  by (auto simp: moved_def same_places_def same_place_def)

lemma balances_places: "same_places s (s\<lparr>balances := b\<rparr>)"
  by (simp add: same_places_def same_place_def)

lemma step_tree:
  assumes ok: "tree_ok s" and step: "life_step s t"
  shows "tree_ok t"
  using step
proof cases
  case (updated org actor pid body v q)
  show ?thesis by (rule update_project_tree [OF ok updated])
next
  case (transits running published fs org actor pid body version permitted q)
  show ?thesis by (rule transition_Inr [OF transits]) (rule same_places_ok [OF moved_places ok])
next
  case (outcome fs org actor pid status reason q)
  show ?thesis by (rule approval_outcome_Inr [OF outcome(1)]) (rule same_places_ok [OF moved_places ok])
next
  case (request_abandoned fs org pid reason actor system b)
  then show ?thesis unfolding abandon_requested_def
    by (rule abandon_Inr) (use same_places_ok [OF moved_places ok] same_places_ok [OF balances_places ok] in blast)+
next
  case (generated_abandoned fs org pid reason actor system b)
  then show ?thesis unfolding abandon_generated_def
    by (rule abandon_Inr) (use same_places_ok [OF moved_places ok] same_places_ok [OF balances_places ok] in blast)+
next
  case (created org actor d body r)
  show ?thesis by (rule create_project_tree(1) [OF ok created])
next
  case (generated org actor d body gen source reason r)
  show ?thesis by (rule create_generated_tree [OF ok generated])
next
  case (substituted org actor pid codes q)
  show ?thesis by (rule substitute_codes_tree [OF ok substituted])
next
  case (sponsors_set org pid users)
  show ?thesis by (rule apply_sponsors_tree [OF ok sponsors_set])
next
  case other
  show ?thesis by (rule same_tree_ok [OF other(1) ok])
qed

lemma life_invariants: "life_reachable s \<Longrightarrow> tree_ok s \<and> history_ok s"
proof (induction rule: life_reachable.induct)
  case at_start
  show ?case using tree_ok_empty by (simp add: history_ok_def empty_db_def)
next
  case (next_step s t)
  then have ok: "tree_ok s" "history_ok s" by blast+
  have "history_ok t"
    by (rule step_kind [OF ok(1) next_step.hyps(2)]) (use ok(2) history_kept_ok moved_history in blast)+
  then show ?case using step_tree [OF ok(1) next_step.hyps(2)] by blast
qed

lemma status_replayed:
  "life_reachable s \<Longrightarrow> projects s i = Some p \<Longrightarrow> \<exists>start\<in>{Draft, Active}. replay_status start (events_of i s) = Some (p_status p)"
  using life_invariants by (simp add: history_ok_def)

text \<open>
  C20. In every reachable state the status of a project is the one its events tell, a path of the table
  from the status it was created with, draft or, for a generated project, active.
\<close>

theorem status_has_history:
  assumes "life_reachable s" "projects s i = Some p"
  shows "\<exists>start\<in>{Draft, Active}. replay_status start (events_of i s) = Some (p_status p)"
  using assms by (rule status_replayed)

text \<open>
  A completed or abandoned project stays so: no operation moves it or appends an event to its
  history.
\<close>

theorem closed_is_final:
  assumes "life_reachable s" "life_step s t" "projects s i = Some p" "closing (p_status p)"
  shows "\<exists>q. projects t i = Some q \<and> p_status q = p_status p \<and> events_of i t = events_of i s"
proof (rule step_kind [OF _ assms(2)])
  show "tree_ok s" using life_invariants [OF assms(1)] by blast
  show ?thesis if "history_kept s t"
    using that assms(3) unfolding history_kept_def events_of_def by metis
  show ?thesis if m: "moved org pid r to s t" and rule: "map_of transitions (p_status r, to) \<noteq> None" for org pid r to
  proof -
    have "\<not> closing (p_status r)" using map_of_SomeD rule by (fastforce simp: transitions_def closing_def split: if_splits)
    then have "pid \<noteq> i" using m assms(3,4) by (auto simp: moved_def)
    then show ?thesis using m assms(3) by (auto simp: moved_def events_of_def)
  qed
qed

lemma replay_last:
  "replay_status st es = Some x \<Longrightarrow> x \<noteq> st \<Longrightarrow> \<exists>e\<in>set es. se_to e = x"
  by (induction es arbitrary: st) (auto split: if_splits)

text \<open>
  Four eyes, for approvals by hand: a project waiting for approval was submitted by someone, and
  whoever then makes the transition to active themselves is not the one who submitted it last.  (The
  outcome of an approval workflow is not such a transition: the workflow has its own separation of duty.)
\<close>

theorem approver_is_not_submitter:
  assumes "life_reachable s" "projects s pid = Some p" "p_status p = ApprovalPending" "tc_to body = Active"
    and "transition running published fs org actor pid body version permitted s = Inr (q, t)"
  shows "\<exists>e. last_submission org pid s = Some e \<and> se_actor e \<noteq> actor"
proof (rule transition_Inr [OF assms(5)], goal_cases)
  case (1 p' b s1 r e)
  have p: "p' = p" using 1(2) assms(2) by simp
  obtain start where start: "start \<in> {Draft, Active}" "replay_status start (events_of pid s) = Some ApprovalPending"
    using status_replayed [OF assms(1,2)] assms(3) by auto
  then obtain x where "x \<in> set (events_of pid s)" "se_to x = ApprovalPending"
    using replay_last [OF start(2)] by auto
  then have x: "x \<in> set (status_events s)" "se_project x = pid" "se_to x = ApprovalPending" by (auto simp: events_of_def)
  moreover have "se_org x = org"
    using life_invariants [OF assms(1)] x 1(2,3) by (auto simp: history_ok_def)
  ultimately have "last_submission org pid s \<noteq> None" by (auto simp: last_submission_def find_None_iff)
  moreover have "last_submission org pid s1 = last_submission org pid s"
    using insert_balance_Inr [OF 1(1)] by (auto simp: last_submission_def)
  moreover have "\<forall>e. last_submission org pid s1 = Some e \<longrightarrow> se_actor e \<noteq> actor"
    by (rule evaluate_clear [OF 1(5)]) (use assms(3,4) p in simp)
  ultimately show ?case by auto
qed

text \<open>A transition with a reason of twenty characters and no override, on the version just read.\<close>

definition offer :: "project_status \<Rightarrow> transition_create" where
  "offer to = \<lparr>tc_to = to, tc_reason = Some twenty_x, tc_override = False\<rparr>"

lemma evaluate_reason:
  "ta_allowed (available_for running org actor pid p b permitted s to) \<longleftrightarrow>
     evaluate running org actor pid p b (offer to) permitted s = []"
proof -
  have x: "strip twenty_x \<noteq> []" by code_simp
  have b: "blocked_by_holdings b False permitted r = blocked_by_holdings b False permitted []" for r
    by (simp add: blocked_by_holdings_def)
  show ?thesis
  proof (cases "map_of transitions (p_status p, to)")
    case None
    then show ?thesis by (simp add: available_for_def evaluate_def offer_def Let_def)
  next
    case (Some rule)
    then show ?thesis
      using x b [of "strip twenty_x"] b [of "strip []"]
      by (cases rule) (simp add: available_for_def evaluate_def offer_def Let_def)
  qed
qed

lemma snapshot_stable:
  assumes "balance_at org pid s \<noteq> None"
  shows "lifecycle_snapshot fs org pid True s = lifecycle_snapshot fs org pid False s"
proof -
  have "insert_balance org pid s = Inr ((), s)"
    using assms by (auto simp: insert_balance_def balance_at_def tx_update_def split: option.splits)
  then show ?thesis using assms by (auto simp: lifecycle_snapshot_def tx_bind_def tx_eval repo_balance_def)
qed

lemma transition_succeeds:
  assumes "lifecycle_snapshot fs org pid True s = Inr ((p, b), s)" "projects s pid = Some p" "p_org p = org"
    and "evaluate running org (Some u) pid p b body permitted s = []" "correlation s \<noteq> []"
    and "tc_to body = ApprovalPending \<Longrightarrow> p_status p = Draft \<and> published org (p_bu p) s"
  shows "\<exists>q t. transition running published fs org (Some u) pid body (Version (int (p_version p))) permitted s = Inr (q, t)"
proof -
  obtain s1 where w: "lifecycle_write org (Some u) pid p b body None s = Inr ((), s1)"
    by (simp add: lifecycle_write_def tx_bind_def tx_update_def tx_require_def tx_return_def Let_def)
  have p: "projects s1 pid = Some (p\<lparr>p_status := tc_to body, p_version := Suc (p_version p)\<rparr>)"
    using lifecycle_write_Inr(1) [OF w assms(2,3)] by (simp add: moved_def)
  then obtain q where g: "get_project org pid s1 = Inr (q, s1)"
    using assms(3) by (simp add: get_project_Inr)
  have "correlation s1 = correlation s"
    using w by (auto simp: lifecycle_write_def Let_def tx_bind_Inr)
  then obtain s2 where a: "project_audit org (Some u) ''project.transition'' pid None s1 = Inr ((), s2)"
    using assms(5) by (simp add: project_audit_def make_actor_def tx_bind_def tx_lift_def tx_return_def audit_write_def Let_def)
  have wf: "(tc_to body = ApprovalPending \<longrightarrow> published org (p_bu p) s) = True"
    "(\<not> (tc_to body = ApprovalPending \<and> p_status p \<noteq> Draft)) = True" using assms(6) by blast+
  have "transition running published fs org (Some u) pid body (Version (int (p_version p))) permitted s = Inr (q, s2)"
    unfolding transition_def tx_bind_def expected_version_def
    by (simp add: tx_return_def tx_read_def tx_require_def assms(1,4) w g a wf [simplified])
  then show ?thesis by blast
qed

lemma available_Inr:
  assumes "available_transitions running fs org actor pid permitted s = Inr (ts, s')" "a \<in> set ts" "projects s pid = Some p"
  obtains pb where "lifecycle_snapshot fs org pid False s = Inr (pb, s)"
    "a = available_for running org actor pid (fst pb) (snd pb) permitted s (ta_to a)" "fst pb = p" "p_org p = org"
proof -
  obtain pb s1 where snap: "lifecycle_snapshot fs org pid False s = Inr (pb, s1)"
    and ts: "ts = map (available_for running org actor pid (fst pb) (snd pb) permitted s1) project_statuses"
    using assms(1) by (auto simp: available_transitions_def tx_bind_Inr)
  have s1: "s1 = s" "projects s pid = Some (fst pb)" "p_org (fst pb) = org"
    using snap by (auto simp: lifecycle_snapshot_def tx_bind_Inr repo_balance_def get_project_Inr)
  have to: "ta_to (available_for running org actor pid (fst pb) (snd pb) permitted s to) = to" for to
    by (simp add: available_for_def Let_def)
  obtain to where "a = available_for running org actor pid (fst pb) (snd pb) permitted s to"
    using assms(2) ts s1(1) by auto
  then have a: "a = available_for running org actor pid (fst pb) (snd pb) permitted s (ta_to a)" using to by simp
  show ?thesis by (rule that [OF snap [unfolded s1(1)] a]) (use s1 assms(3) in simp_all)
qed

text \<open>With a clear evaluation, all that can still stop a move is a missing workflow for a submission.\<close>

lemma transition_without_workflow:
  assumes "lifecycle_snapshot fs org pid True s = Inr ((p, b), s)" "evaluate running org (Some u) pid p b body permitted s = []"
    and "tc_to body = ApprovalPending" "p_status p = Draft" "\<not> published org (p_bu p) s"
  shows "transition running published fs org (Some u) pid body (Version (int (p_version p))) permitted s =
    Inl (conflict ''workflow_not_set_up'')"
proof -
  have wf: "(tc_to body = ApprovalPending \<longrightarrow> published org (p_bu p) s) = False"
    "(\<not> (tc_to body = ApprovalPending \<and> p_status p \<noteq> Draft)) = True" using assms(3-5) by simp_all
  show ?thesis
    unfolding transition_def tx_bind_def expected_version_def
    by (simp add: tx_return_def tx_read_def tx_require_def tx_fail_def assms(1,2) wf [simplified])
qed

lemma blocked_not_workflow: "blocked_by_holdings b override permitted reason \<noteq> Some (conflict ''workflow_not_set_up'')"
  by (simp add: blocked_by_holdings_def conflict_def validation_failed_def)

lemma workflow_problem:
  "conflict ''workflow_not_set_up'' = Problem Forbidden None \<longleftrightarrow> False"
  "conflict ''workflow_not_set_up'' = validation_failed \<longleftrightarrow> False"
  "conflict ''workflow_not_set_up'' = conflict ''approval_workflow_active'' \<longleftrightarrow> False"
  by (simp_all add: conflict_def validation_failed_def)

lemma guarded_member:
  "x \<in> set (if c then [] else [y]) \<longleftrightarrow> \<not> c \<and> x = y" "x \<in> set (if c then [y] else []) \<longleftrightarrow> c \<and> x = y"
  by (cases c; simp)+

lemma optional_member: "x \<in> set (if c then (case z of None \<Rightarrow> [] | Some e \<Rightarrow> [e]) else []) \<longleftrightarrow> c \<and> z = Some x"
  by (cases c; cases z) (simp_all add: eq_commute [of x])

lemma evaluate_not_workflow: "conflict ''workflow_not_set_up'' \<notin> set (evaluate running org actor pid p b body permitted s)"
proof (cases "map_of transitions (p_status p, tc_to body)")
  case None
  then show ?thesis by (simp add: evaluate_def conflict_def)
next
  case (Some rule)
  obtain permission needs_reason where rule: "rule = (permission, needs_reason)" by (cases rule)
  show ?thesis
    unfolding evaluate_def Some rule option.case prod.case Let_def set_append Un_iff guarded_member optional_member
    by (intro notI, elim disjE conjE) (simp_all only: workflow_problem blocked_not_workflow)
qed

lemma workflow_missing_clear:
  assumes "transition running published fs org actor pid body (Version (int (p_version p))) permitted s = Inl (conflict ''workflow_not_set_up'')"
    and "lifecycle_snapshot fs org pid True s = Inr ((p, b), s)"
  shows "evaluate running org actor pid p b body permitted s = []"
proof (rule ccontr)
  assume some: "evaluate running org actor pid p b body permitted s \<noteq> []"
  then have "hd (evaluate running org actor pid p b body permitted s) \<noteq> conflict ''workflow_not_set_up''"
    using evaluate_not_workflow list.set_sel(1) by metis
  then show False
    using assms(1) some unfolding transition_def tx_bind_def expected_version_def
    by (simp add: tx_return_def tx_read_def tx_require_def tx_fail_def assms(2) conflict_def split: if_splits)
qed

text \<open>
  C21. What the list of available transitions offers, on a project whose balance row is there: a target is
  shown as allowed exactly when a transition to it made at once, with a reason and without an override,
  succeeds, or is a submission refused because no workflow is published for the project's unit, which
  the list does not look at.
\<close>

theorem available_is_true:
  assumes "available_transitions running fs org (Some u) pid permitted s = Inr (ts, s')" "a \<in> set ts"
    and "projects s pid = Some p" "balance_at org pid s \<noteq> None" "correlation s \<noteq> []"
  shows "ta_allowed a \<longleftrightarrow>
    (\<exists>q t. transition running published fs org (Some u) pid (offer (ta_to a)) (Version (int (p_version p))) permitted s = Inr (q, t)) \<or>
    ta_to a = ApprovalPending \<and> \<not> published org (p_bu p) s \<and>
      transition running published fs org (Some u) pid (offer (ta_to a)) (Version (int (p_version p))) permitted s =
        Inl (conflict ''workflow_not_set_up'')"
  (is "_ \<longleftrightarrow> ?succeeds \<or> ?refused")
proof -
  obtain pb where snap: "lifecycle_snapshot fs org pid True s = Inr (pb, s)" and a: "a = available_for running org (Some u) pid (fst pb) (snd pb) permitted s (ta_to a)"
    and p: "fst pb = p" "p_org p = org"
    using assms(1-3) unfolding snapshot_stable [OF assms(4)] by (rule available_Inr)
  have snap': "lifecycle_snapshot fs org pid True s = Inr ((p, snd pb), s)" using snap p(1) by (cases pb) simp
  have allowed: "ta_allowed a \<longleftrightarrow> evaluate running org (Some u) pid p (snd pb) (offer (ta_to a)) permitted s = []"
    by (subst a) (simp add: evaluate_reason p(1))
  have to: "tc_to (offer (ta_to a)) = ta_to a" by (simp add: offer_def)
  show ?thesis
  proof
    assume ok: "ta_allowed a"
    then have clear: "evaluate running org (Some u) pid p (snd pb) (offer (ta_to a)) permitted s = []" using allowed by simp
    have draft: "p_status p = Draft" if "ta_to a = ApprovalPending"
      by (rule evaluate_clear [OF clear]) (use that to in \<open>auto simp: transitions_def\<close>)
    show "?succeeds \<or> ?refused"
    proof (cases "ta_to a = ApprovalPending \<and> \<not> published org (p_bu p) s")
      case True
      then show ?thesis using transition_without_workflow [OF snap' clear] draft to by simp
    next
      case False
      have ?succeeds
        by (rule transition_succeeds [OF snap' assms(3) p(2) clear assms(5)]) (use draft False to in simp)
      then show ?thesis ..
    qed
  next
    assume "?succeeds \<or> ?refused"
    then show "ta_allowed a"
    proof
      assume ?succeeds
      then show ?thesis
        using snap allowed p by (cases pb) (auto simp: transition_def expected_version_def tx_bind_Inr)
    next
      assume ?refused
      then show ?thesis using workflow_missing_clear [OF _ snap'] allowed by blast
    qed
  qed
qed

section \<open>Concrete lives\<close>

text \<open>No workflow is running, one is published, no document is open, and the caller may do everything.\<close>

definition sample_move :: "uuid \<Rightarrow> uuid \<Rightarrow> project_status \<Rightarrow> string option \<Rightarrow> int \<Rightarrow> (db, project_row) tx" where
  "sample_move user pid to reason v =
     transition (\<lambda>_ _ _. False) (\<lambda>_ _ _. True) [] 2 (Some user) pid
       \<lparr>tc_to = to, tc_reason = reason, tc_override = False\<rparr> (Version v) (\<lambda>_. True)"

lemma sample_deferral:
  "run_ok (sample_move 7 100 Deferred (Some ''Funds withdrawn'') 1 sample_funded)
     (\<lambda>q t. p_status q = Deferred \<and> p_version q = 2 \<and> map se_to (status_events t) = [Deferred])"
  by code_simp

theorem transition_in_table_witness:
  "\<exists>q t. sample_move 7 100 Deferred (Some ''Funds withdrawn'') 1 sample_funded = Inr (q, t) \<and>
     projects t = (projects sample_funded)(100 \<mapsto> q) \<and> p_status q = Deferred"
proof (rule run_okE [OF sample_deferral])
  fix q t
  assume run: "sample_move 7 100 Deferred (Some ''Funds withdrawn'') 1 sample_funded = Inr (q, t)"
    and q: "p_status q = Deferred \<and> p_version q = 2 \<and> map se_to (status_events t) = [Deferred]"
  from transition_in_table [OF run [unfolded sample_move_def]] q run show ?thesis by blast
qed

text \<open>The sample organization after a reservation of 30 was released.\<close>

definition sample_released :: db where
  "sample_released = sample_funded\<lparr>
     entries := [sample_entry 1 (sample_posting 100 Allocation 100 ''k1'') BAllocated,
                 sample_entry 2 (sample_posting 100 Reservation 30 ''k2'') BReserved,
                 sample_entry 3 ((sample_posting 100 Release (-30) ''k3'')\<lparr>po_releases := Some 2\<rparr>) BReserved],
     next_entry := 4\<rparr>"

lemma sample_released_ok: "budget_ok sample_released"
  unfolding budget_ok_def
  by (rule conjI) (simp_all add: sample_released_def sample_defs ledger_ok_defs bucket_cases holdings_ok_def released_amount_def
      release_lines_def is_reversed_def reversals_of_def)

lemma sample_closing:
  "run_ok (sample_move 7 100 Completed None 1 sample_released)
     (\<lambda>q t. p_status q = Completed \<and> map le_type (entries t) = [Allocation, Reservation, Release])"
  by code_simp

theorem closed_projects_hold_nothing_witness:
  "\<exists>q t h. sample_move 7 100 Completed None 1 sample_released = Inr (q, t) \<and>
     h \<in> set (entries t) \<and> le_type h = Reservation \<and> view_remaining (entries t) h = 0"
proof (rule run_okE [OF sample_closing])
  fix q t
  assume run: "sample_move 7 100 Completed None 1 sample_released = Inr (q, t)"
    and q: "p_status q = Completed \<and> map le_type (entries t) = [Allocation, Reservation, Release]"
  let ?h = "sample_entry 2 (sample_posting 100 Reservation 30 ''k2'') BReserved"
  have "entries t = entries sample_released"
    by (rule transition_Inr [OF run [unfolded sample_move_def]]) (simp add: moved_def)
  then have h: "?h \<in> set (entries t)" by (simp add: sample_released_def)
  have "view_remaining (entries t) ?h = 0"
    using closed_projects_hold_nothing [OF sample_released_ok by_hand [OF run [unfolded sample_move_def]]] h
    by (simp add: closing_def sample_defs)
  then show ?thesis using run h by (fastforce simp: sample_defs)
qed

text \<open>The harbour project, submitted by its owner and approved by a colleague, or abandoned.\<close>

lemma sample_harbour_life: "life_reachable sample_harbour"
proof -
  have "life_reachable sample_office"
    by (rule life_reachable.next_step [OF life_reachable.at_start life_step.other])
      (simp_all add: same_tree_def sample_office_def empty_db_def)
  then show ?thesis
    unfolding sample_harbour_def
    by (rule life_reachable.next_step [OF _ life_step.created]) (rule surjective_pairing)
qed

lemma sample_approval:
  "run_ok (sample_move 7 1000 ApprovalPending None 1 sample_harbour)
     (\<lambda>q s. p_status q = ApprovalPending \<and> run_ok (sample_move 8 1000 Active None 2 s) (\<lambda>r t. p_status r = Active))"
  by code_simp

lemma sample_move_life:
  assumes "life_reachable s" "sample_move user pid to reason v s = Inr (q, t)"
  shows "life_reachable t" "projects t pid = Some q"
proof -
  show "life_reachable t"
    by (rule life_reachable.next_step [OF assms(1) life_step.transits [OF assms(2) [unfolded sample_move_def]]])
  show "projects t pid = Some q"
    by (rule transition_Inr [OF assms(2) [unfolded sample_move_def]])
qed

theorem status_has_history_witness:
  "\<exists>q t. sample_move 7 1000 ApprovalPending None 1 sample_harbour = Inr (q, t) \<and>
     (\<exists>start\<in>{Draft, Active}. replay_status start (events_of 1000 t) = Some ApprovalPending)"
proof (rule run_okE [OF sample_approval])
  fix q s
  assume run: "sample_move 7 1000 ApprovalPending None 1 sample_harbour = Inr (q, s)"
    and q: "p_status q = ApprovalPending \<and> run_ok (sample_move 8 1000 Active None 2 s) (\<lambda>r t. p_status r = Active)"
  show ?thesis
    using status_has_history [OF sample_move_life [OF sample_harbour_life run]] run q by metis
qed

theorem approver_is_not_submitter_witness:
  "\<exists>q s r t e. sample_move 7 1000 ApprovalPending None 1 sample_harbour = Inr (q, s) \<and>
     sample_move 8 1000 Active None 2 s = Inr (r, t) \<and> last_submission 2 1000 s = Some e \<and> se_actor e \<noteq> Some 8"
proof (rule run_okE [OF sample_approval])
  fix q s
  assume run: "sample_move 7 1000 ApprovalPending None 1 sample_harbour = Inr (q, s)"
    and q: "p_status q = ApprovalPending \<and> run_ok (sample_move 8 1000 Active None 2 s) (\<lambda>r t. p_status r = Active)"
  obtain r t where approve: "sample_move 8 1000 Active None 2 s = Inr (r, t)"
    using q by (auto simp: run_ok_def split: sum.splits)
  note life = sample_move_life [OF sample_harbour_life run]
  have "\<exists>e. last_submission 2 1000 s = Some e \<and> se_actor e \<noteq> Some 8"
    by (rule approver_is_not_submitter [OF life _ _ approve [unfolded sample_move_def]]) (use q in simp_all)
  then show ?thesis using run approve by blast
qed

lemma sample_abandonment:
  "run_ok (sample_move 7 1000 Abandoned None 1 sample_harbour) (\<lambda>q t. p_status q = Abandoned)"
  by code_simp

theorem closed_is_final_witness:
  "\<exists>q t. sample_move 7 1000 Abandoned None 1 sample_harbour = Inr (q, t) \<and>
     (\<forall>u. life_step t u \<longrightarrow> (\<exists>r. projects u 1000 = Some r \<and> p_status r = Abandoned))"
proof (rule run_okE [OF sample_abandonment])
  fix q t
  assume run: "sample_move 7 1000 Abandoned None 1 sample_harbour = Inr (q, t)" and q: "p_status q = Abandoned"
  note life = sample_move_life [OF sample_harbour_life run]
  have "\<exists>r. projects u 1000 = Some r \<and> p_status r = Abandoned" if "life_step t u" for u
    using closed_is_final [OF life(1) that life(2)] q by (auto simp: closing_def)
  then show ?thesis using run by blast
qed

lemma sample_offers:
  "run_ok (available_transitions (\<lambda>_ _ _. False) [] 2 (Some 7) 100 (\<lambda>_. True) sample_funded)
     (\<lambda>ts t. map (\<lambda>a. (ta_to a, ta_allowed a)) ts =
        [(Draft, False), (ApprovalPending, False), (Active, False), (Deferred, True), (Completed, True), (Abandoned, True)])"
  by code_simp

theorem available_is_true_witness:
  "\<exists>q t. transition (\<lambda>_ _ _. False) (\<lambda>_ _ _. True) [] 2 (Some 7) 100 (offer Completed) (Version 1) (\<lambda>_. True) sample_funded = Inr (q, t)"
proof (rule run_okE [OF sample_offers])
  fix ts t
  assume run: "available_transitions (\<lambda>_ _ _. False) [] 2 (Some 7) 100 (\<lambda>_. True) sample_funded = Inr (ts, t)"
    and ts: "map (\<lambda>a. (ta_to a, ta_allowed a)) ts =
        [(Draft, False), (ApprovalPending, False), (Active, False), (Deferred, True), (Completed, True), (Abandoned, True)]"
  have "(Completed, True) \<in> set (map (\<lambda>a. (ta_to a, ta_allowed a)) ts)" unfolding ts by simp
  then obtain a where a: "a \<in> set ts" "ta_to a = Completed" "ta_allowed a" by auto
  have row: "projects sample_funded 100 = Some (sample_project None)" "balance_at 2 100 sample_funded \<noteq> None"
    "correlation sample_funded \<noteq> []" by (simp_all add: sample_defs balance_at_def)
  show ?thesis
    using available_is_true [OF run a(1) row, where published = "\<lambda>_ _ _. True"] a(2,3) by (simp add: sample_project_def)
qed

end
