(* ===== verification/BudgetTheorems.thy ===== *)
theory BudgetTheorems
  imports FundingLaws Samples ProjectLaws LifecycleLaws
begin

text \<open>
  The properties of the budget's operations: reservations, commitments, actuals, releases,
  reversals, allocations, adjustments and transfers.
\<close>

section \<open>Opening balance rows\<close>

text \<open>
  Projects open the balance rows of the ledger: with their creation, or at the latest when their
  lifecycle or a posting locks them.  Such a row starts at zero, and only where there was none.
\<close>

definition opens_only :: "db \<Rightarrow> db \<Rightarrow> bool" where
  "opens_only s t \<longleftrightarrow> entries t = entries s \<and> next_entry t = next_entry s \<and>
     (\<forall>i. balances t i = balances s i \<or> balances s i = None \<and> (\<exists>p ts. balances t i = Some (new_balance p ts)))"

interpretation openings: tx_preorder opens_only
proof
  show "opens_only s u" if "opens_only s t" "opens_only t u" for s t u
  proof -
    have "balances u i = balances s i \<or> balances s i = None \<and> (\<exists>p ts. balances u i = Some (new_balance p ts))" for i
      using that unfolding opens_only_def by (metis (no_types))
    then show ?thesis using that by (simp add: opens_only_def)
  qed
qed (simp add: opens_only_def)

lemma same_ledger_opens: "same_ledger s t \<Longrightarrow> opens_only s t"
  by (simp add: same_ledger_def opens_only_def)

lemma opened_budget_ok:
  assumes "opens_only s t" "budget_ok s"
  shows "budget_ok t"
proof -
  have ok: "ledger_ok s" and es: "entries t = entries s" "next_entry t = next_entry s"
    using assms by (simp_all add: budget_ok_def opens_only_def)
  have row: "balances t i = balances s i \<or> balances s i = None \<and> (\<exists>p ts. balances t i = Some (new_balance p ts))" for i
    using assms(1) by (simp add: opens_only_def)
  have home: "entry_home (balances t) e" if "e \<in> set (entries s)" for e
    using ledger_entry_facts(2) [OF ok that] row [of "le_project e"] by (auto simp: entry_home_def)
  have empty: "bucket_total (entries s) i k = 0" if "balances s i = None" for i k
  proof -
    have "filter (\<lambda>e. le_project e = i \<and> le_bucket e = k) (entries s) = []"
      using ledger_entry_facts(2) [OF ok] that by (fastforce simp: filter_empty_conv entry_home_def)
    then show ?thesis by (simp add: bucket_total_def)
  qed
  have "balance_columns b \<and> (\<forall>k. bucket_of k b = bucket_total (entries s) i k)" if b: "balances t i = Some b" for i b
  proof (cases "balances s i")
    case None
    then obtain p ts where new: "b = new_balance p ts" using row [of i] b by auto
    have zero: "bucket_of k b = 0" for k by (cases k) (simp_all add: new new_balance_def)
    show ?thesis using zero empty [OF None]
      by (simp add: balance_columns_def b_available_def new new_balance_def numeric18_4_def four_places_def)
  qed (use row [of i] b ok in \<open>auto simp: ledger_ok_def\<close>)
  then have "ledger_ok t" using ok es home by (simp add: ledger_ok_def)
  then show ?thesis using assms(2) es by (simp add: budget_ok_def)
qed

lemma insert_balance_opens: "tx_rel opens_only (insert_balance org pid)"
  by (rule tx_relI) (auto simp: insert_balance_def opens_only_def split: option.splits if_splits)

lemma project_audit_ledger: "tx_rel same_ledger (project_audit org actor action pid reason)"
  using project_audit_only by (fastforce simp: tx_rel_def only_audits_def same_ledger_def)

lemma same_ledger_opening: "tx_rel same_ledger m \<Longrightarrow> tx_rel opens_only m"
  using same_ledger_opens unfolding tx_rel_def by blast

lemma snapshot_opens: "tx_rel opens_only (lifecycle_snapshot fs org pid for_update)"
  unfolding lifecycle_snapshot_def
  by (intro openings.tx_ok tx_branches insert_balance_opens same_ledger_opening [OF reads_ledger(2)]
      same_ledger_opening [OF get_project_ledger])

lemma lifecycle_write_opens: "tx_rel opens_only (lifecycle_write org actor pid p b body system)"
  by (rule tx_relI) (auto simp: lifecycle_write_def Let_def tx_bind_Inr opens_only_def)

lemmas opening_steps = openings.tx_ok tx_branches snapshot_opens lifecycle_write_opens tx_rel_fail
  same_ledger_opening [OF get_project_ledger] same_ledger_opening [OF project_audit_ledger]
  same_ledger_opening [OF reads_ledger(7)]

lemma expected_version_opens: "tx_rel opens_only (expected_version extra version)"
  by (rule tx_relI) (auto simp: expected_version_def openings.R_refl split: if_match.splits)

lemma transition_opens: "tx_rel opens_only (transition running published fs org actor pid body version permitted)"
  unfolding transition_def by (intro opening_steps expected_version_opens)

lemma approval_outcome_opens: "tx_rel opens_only (approval_outcome fs org actor pid status reason)"
  unfolding approval_outcome_def by (intro opening_steps)

lemma abandon_opens: "tx_rel opens_only (abandon fs org pid why actor system own action)"
  unfolding abandon_def Let_def by (intro opening_steps)

lemma store_project_opens:
  assumes "store_project org actor body codes owner status gen reason source number s = Inr (r, t)"
  shows "opens_only s t"
  using assms unfolding store_project_def Let_def
proof (elim tx_bindE, goal_cases)
  case outer: (1 i s1 dr s2)
  obtain d root where dr: "dr = (d, root)" by (cases dr)
  have "same_ledger s s1" by (rule tx_relD [OF reads_ledger(5) outer(1)])
  moreover have "s2 = s1" using outer(2) by (auto simp: place_project_def depth_of_def tx_bind_Inr split: option.splits)
  moreover have "opens_only s2 t"
    using outer(3) unfolding dr prod.case
  proof (elim tx_bindE, goal_cases)
    case (1 u s3 b s4 u2 s5 u3 s6 u4 s7 u5 s8)
    have "same_ledger s2 s3" using insert_row_Inr(1) [OF 1(1)] by (simp add: same_ledger_def)
    moreover have "balances s3 i = None" "s5 = s3" using 1(2,3) by auto
    then have "opens_only s5 s6" using 1(4) by (auto simp: opens_only_def)
    moreover have "same_ledger s6 s7"
      using 1(5) by (auto simp: same_ledger_def split: option.splits dest: register_project_scope_only)
    moreover have "same_ledger s7 s8" by (rule tx_relD [OF project_audit_ledger 1(6)])
    ultimately have "opens_only s2 s8" using \<open>s5 = s3\<close> same_ledger_opens openings.R_trans by metis
    then show ?case using 1(7) by simp
  qed
  ultimately show ?case using same_ledger_opens openings.R_trans by blast
qed

lemma insert_project_opens:
  assumes "insert_project org actor body codes owner on_date status gen reason source s = (r, t)"
  shows "opens_only s t"
proof (cases "allocate_number org (pc_bu body) ''project'' on_date s")
  case (Inl e)
  then show ?thesis using assms by (simp add: insert_project_def openings.R_refl)
next
  case (Inr nt)
  then obtain n s1 where n: "allocate_number org (pc_bu body) ''project'' on_date s = Inr (n, s1)" by (cases nt) auto
  have "opens_only s s1" using n by (auto simp: allocate_number_def tx_bind_Inr Let_def opens_only_def)
  moreover have "opens_only s1 t"
    using assms by (auto simp: insert_project_def n openings.R_refl split: sum.splits dest: store_project_opens)
  ultimately show ?thesis by (rule openings.R_trans)
qed

section \<open>Every reachable budget\<close>

text \<open>
  One step is one successful operation of the budget module on behalf of an organization; one of the
  modules that hold a project's funds or open its balance row: creating a project, for its
  requisition or not, a move of its lifecycle, and the transfer legs a requisition posts between two
  projects (requisitions otherwise reserve and release like anyone); or any other work of the
  service, which writes neither table.
\<close>

inductive budget_step :: "db \<Rightarrow> db \<Rightarrow> bool" where
  reserved: "reserve org h s = Inr (e, t) \<Longrightarrow> budget_step s t"
| released: "release_reservation org today c s = Inr (v, t) \<Longrightarrow> budget_step s t"
| commitment_released: "release_commitment org today c s = Inr (v, t) \<Longrightarrow> budget_step s t"
| committed: "commit org today conv h s = Inr (e, t) \<Longrightarrow> budget_step s t"
| consumed: "record_actual org today conv h s = Inr (e, t) \<Longrightarrow> budget_step s t"
| reversed: "reverse_entry org i actor d reason key s = Inr (e, t) \<Longrightarrow> budget_step s t"
| allocated: "allocate_funds org pid body actor key permitted_at s = Inr (r, t) \<Longrightarrow> budget_step s t"
| adjusted: "adjust org pid body actor key s = Inr (r, t) \<Longrightarrow> budget_step s t"
| transferred: "transfer org a b body actor key s = Inr (g, t) \<Longrightarrow> budget_step s t"
| funds_moved: "post_legs (post_entry org) org fb actor key an st si legs s = Inr (g, t) \<Longrightarrow> budget_step s t"
| project_created: "create_project org creator on_date pc s = (made, t) \<Longrightarrow> budget_step s t"
| project_generated: "create_generated org creator on_date pc gen src why s = (made, t) \<Longrightarrow> budget_step s t"
| project_moved: "transition running published fs org u pid tcr version permitted s = Inr (p, t) \<Longrightarrow> budget_step s t"
| project_decided: "approval_outcome fs org u pid status why s = Inr (p, t) \<Longrightarrow> budget_step s t"
| project_abandoned: "abandon fs org pid reason_given u system own action s = Inr (ended, t) \<Longrightarrow> budget_step s t"
| elsewhere: "same_ledger s t \<Longrightarrow> budget_step s t"

inductive budget_reachable :: "db \<Rightarrow> bool" where
  migrated: "entries s = [] \<Longrightarrow> balances s = (\<lambda>_. None) \<Longrightarrow> next_entry s = 1 \<Longrightarrow> budget_reachable s"
| stepped: "budget_reachable s \<Longrightarrow> budget_step s t \<Longrightarrow> budget_reachable t"

lemma create_project_opens: "create_project org creator on_date pc s = (made, t) \<Longrightarrow> opens_only s t"
  using tx_relD [OF create_checks_quiet, of org creator on_date pc s] insert_project_opens
  by (auto simp: create_project_def openings.R_refl split: sum.splits prod.splits)

lemma create_generated_opens: "create_generated org creator on_date pc gen src why s = (made, t) \<Longrightarrow> opens_only s t"
  using insert_project_opens by (auto simp: create_generated_def openings.R_refl split: option.splits)

lemma kept_budget_ok: "tx_rel (keeps budget_ok) m \<Longrightarrow> m s = Inr (x, t) \<Longrightarrow> budget_ok s \<Longrightarrow> budget_ok t"
  by (auto simp: tx_rel_def keeps_def)

lemma consumed_kept:
  "tx_rel (keeps budget_ok) (commit org today conv h)" "tx_rel (keeps budget_ok) (record_actual org today conv h)"
  using tx_relD [OF consume_kept [of Commitment]] tx_relD [OF consume_kept [of Actual]]
  by (auto simp: tx_rel_def commit_def record_actual_def)

lemmas budget_step_facts =
  kept_budget_ok [OF reserve_kept] kept_budget_ok [OF release_reservation_kept] kept_budget_ok [OF release_commitment_kept]
  kept_budget_ok [OF consumed_kept(1)] kept_budget_ok [OF consumed_kept(2)]
  kept_budget_ok [OF reverse_entry_kept] kept_budget_ok [OF allocate_funds_kept] kept_budget_ok [OF adjust_kept]
  kept_budget_ok [OF transfer_kept] kept_budget_ok [OF post_legs_kept]
  opened_budget_ok [OF create_project_opens] opened_budget_ok [OF create_generated_opens]
  opened_budget_ok [OF tx_relD [OF transition_opens]] opened_budget_ok [OF tx_relD [OF approval_outcome_opens]]
  opened_budget_ok [OF tx_relD [OF abandon_opens]]

lemma budget_step_kept: "budget_step s t \<Longrightarrow> budget_ok s \<Longrightarrow> budget_ok t"
  by (induction rule: budget_step.induct) (erule (1) budget_step_facts | simp only: same_ledger_budget_ok)+

lemma budget_reachable_ok: "budget_reachable s \<Longrightarrow> budget_ok s"
proof (induction rule: budget_reachable.induct)
  case (migrated s)
  then have "same_ledger empty_db s" by (simp add: same_ledger_def empty_db_def)
  then show ?case using same_ledger_budget_ok budget_ok_empty by blast
qed (use budget_step_kept in blast)

text \<open>
  C6. In every reachable state each balance row is the sum of its project's entries, bucket by
  bucket; what is reserved and what is committed is exactly what the project's reservations and
  commitments still hold; and each of them holds between nothing and its own amount.
\<close>

theorem budget_buckets_are_holdings:
  assumes "budget_reachable s" "balances s pid = Some b"
  shows "(\<forall>k. bucket_of k b = bucket_total (entries s) pid k) \<and>
    b_reserved b = (\<Sum>r\<in>holdings_of (entries s) pid BReserved. view_remaining (entries s) r) \<and>
    b_committed b = (\<Sum>r\<in>holdings_of (entries s) pid BCommitted. view_remaining (entries s) r) \<and>
    0 \<le> b_reserved b \<and> 0 \<le> b_committed b \<and>
    (\<forall>r\<in>set (entries s). holds (le_type r) \<noteq> None \<longrightarrow>
       0 \<le> view_remaining (entries s) r \<and> view_remaining (entries s) r \<le> le_amount r)"
proof -
  have ok: "ledger_ok s" "holdings_ok (entries s)" using budget_reachable_ok [OF assms(1)] by (simp_all add: budget_ok_def)
  have sums: "bucket_of k b = bucket_total (entries s) pid k" for k using ok(1) assms(2) by (simp add: ledger_ok_def)
  note held = bucket_is_held [OF ok, of BReserved pid] bucket_is_held [OF ok, of BCommitted pid]
  have "0 \<le> (\<Sum>r\<in>holdings_of (entries s) pid k. view_remaining (entries s) r)" for k
    by (rule sum_nonneg) (use view_bounds(1) [OF ok] in \<open>auto simp: holdings_of_def\<close>)
  moreover have "b_reserved b = bucket_total (entries s) pid BReserved" "b_committed b = bucket_total (entries s) pid BCommitted"
    using sums [of BReserved] sums [of BCommitted] by (simp_all only: bucket_of.simps)
  ultimately show ?thesis using sums held view_bounds [OF ok] by simp
qed

section \<open>Transfers\<close>

text \<open>
  C7. A new transfer moves its rounded amount from the giver to the recipient: it appends one group
  of transfer entries, the allocated funds of the giver fall and those of the recipient rise by
  exactly that amount, and no other bucket of any project changes, whatever the tree between them.
\<close>

theorem transfer_moves:
  assumes "budget_ok s" "transfer org a b body actor key s = Inr ((gid, es), t)"
    and "allocation_create (fb_amount body) (fb_currency body) (fb_effective body) (fb_reason body) (fb_evidence body) = Inr body"
    and "\<forall>x. fresh_key org (key @ x) s"
  shows "\<exists>q. quantize (PyDecimal (fb_amount body)) (fb_currency body) = Inr q \<and> entries t = entries s @ es \<and>
    (\<forall>e\<in>set es. le_type e = Transfer \<and> le_group e = Some gid) \<and>
    (\<forall>pid k. bucket_total (entries t) pid k = bucket_total (entries s) pid k +
       (if k = BAllocated then (if pid = b then q else 0) - (if pid = a then q else 0) else 0)) \<and> budget_ok t"
proof -
  let ?amount = "fb_amount body"
  have amount: "?amount \<noteq> 0" "dec_neg ?amount = - ?amount" using created_amount [OF assms(3)] by simp_all
  from assms(2) obtain path legs s0 s1 mode sib where r: "a \<noteq> b" "path_between org a b s = Inr (path, s)"
    "map (\<lambda>l. (fst l, snd (snd l))) legs = plan_legs path a b sib mode ?amount" "legs \<noteq> []"
    "same_ledger s s0" "post_legs (post_entry org) org body actor key None ''transfer'' None legs s0 = Inr ((gid, es), s1)"
    "same_ledger s1 t"
    by (rule transfer_Inr)
  have same: "entries s0 = entries s" "entries t = entries s1" "budget_ok s0"
    using r(5,7) assms(1) same_ledger_budget_ok [OF r(5)] by (simp_all add: same_ledger_def)
  have plan: "\<forall>l\<in>set legs. fst (snd (snd l)) \<in> {?amount, - ?amount}" "distinct (map (\<lambda>l. snd (snd (snd l))) legs)"
    using planned_legs [OF r(3)] amount(2) by auto
  have fresh: "\<forall>x. fresh_key org (key @ x) s0" using assms(4) same(1) by (simp add: fresh_key_def)
  obtain q where q: "entries s1 = entries s0 @ es" "quantize (PyDecimal ?amount) (fb_currency body) = Inr q"
    "\<forall>e\<in>set es. le_type e = Transfer \<and> le_group e = Some gid"
    "\<And>pid k. bucket_total (entries s1) pid k = bucket_total (entries s0) pid k +
       (if k = BAllocated then q / ?amount * leg_net (map (\<lambda>l. (fst l, snd (snd l))) legs) pid else 0)"
    by (rule posted_legs_net [OF same(3) r(6) plan r(4) amount(1) fresh]) (rule that; assumption)
  moreover have "q / ?amount * leg_net (map (\<lambda>l. (fst l, snd (snd l))) legs) pid =
      (if pid = b then q else 0) - (if pid = a then q else 0)" for pid
    unfolding r(3) plan_legs_net [OF r(2) amount(2)] using amount(1) by simp
  moreover have "budget_ok t" using tx_relD [OF transfer_kept assms(2)] assms(1) by (simp add: keeps_def)
  ultimately show ?thesis by (simp add: same)
qed

text \<open>The sample organization with a balance row for both projects, and a transfer down its tree.\<close>

definition sample_tree :: db where
  "sample_tree = sample_funded\<lparr>balances := [100 \<mapsto> sample_balance 100 0 0 0, 101 \<mapsto> sample_balance 0 0 0 0]\<rparr>"

definition sample_body :: funding_body where
  "sample_body = \<lparr>fb_amount = 40, fb_currency = ''USD'', fb_effective = Date 2026 1 20, fb_reason = ''Move the funds'', fb_evidence = None\<rparr>"

lemma sample_tree_ok: "budget_ok sample_tree"
  unfolding budget_ok_def
  by (rule conjI) (simp_all add: sample_tree_def sample_defs ledger_ok_defs bucket_cases holdings_ok_def released_amount_def
      release_lines_def is_reversed_def reversals_of_def)

lemma sample_transfer:
  "run_ok (transfer 2 100 101 sample_body 7 ''t1'' sample_tree)
     (\<lambda>r t. map le_amount (snd r) = [-40, 40] \<and> map_option b_available (balances t 101) = Some 40)"
  by code_simp

theorem transfer_moves_witness:
  "\<exists>gid es t. transfer 2 100 101 sample_body 7 ''t1'' sample_tree = Inr ((gid, es), t) \<and>
     bucket_total (entries t) 101 BAllocated = bucket_total (entries sample_tree) 101 BAllocated + 40"
proof (rule run_okE [OF sample_transfer])
  fix r t
  assume run: "transfer 2 100 101 sample_body 7 ''t1'' sample_tree = Inr (r, t)"
  obtain gid es where r: "r = (gid, es)" by (cases r)
  have valid: "allocation_create (fb_amount sample_body) (fb_currency sample_body) (fb_effective sample_body)
      (fb_reason sample_body) (fb_evidence sample_body) = Inr sample_body"
    by code_simp
  have fresh: "\<forall>x. fresh_key 2 (''t1'' @ x) sample_tree"
    by (simp add: fresh_key_def sample_tree_def sample_defs)
  have q: "quantize (PyDecimal (fb_amount sample_body)) (fb_currency sample_body) = Inr 40" by (simp add: sample_body_def)
  show ?thesis
    using transfer_moves [OF sample_tree_ok run [unfolded r] valid fresh] q run r by auto
qed

text \<open>
  Every plan of a transfer, direct or hop by hop along the tree's path, takes the amount from
  the giver, gives it to the recipient and leaves every node between them as it was.
\<close>

theorem plan_legs_balanced:
  assumes "path_between org a b s = Inr (path, t)"
    and "allocation_create amount c d r ref = Inr body"
  shows "leg_net (plan_legs path a b siblings mode amount) x = (if x = b then amount else 0) - (if x = a then amount else 0) \<and>
    distinct (map (\<lambda>l. snd (snd l)) (plan_legs path a b siblings mode amount))"
  using plan_legs_net [OF assms(1)] created_amount [OF assms(2)] plan_legs_distinct by simp

theorem plan_legs_balanced_witness:
  "leg_net (plan_legs \<lparr>up = [], lca = Some 100, down = [101]\<rparr> 100 101 False (JStr ''roll_down'') 40) 101 = (40 :: rat)"
proof -
  have p: "path_between 2 100 101 sample_tree = Inr (\<lparr>up = [], lca = Some 100, down = [101]\<rparr>, sample_tree)"
    by (simp add: path_between_def walk_up_def tx_eval sample_tree_def sample_defs find_project_def first_visits_def
        common_path_def numeral_eq_Suc)
  have a: "allocation_create 40 ''USD'' (Date 2026 1 20) ''Move the funds'' None = Inr sample_body" by code_simp
  show ?thesis
    using plan_legs_balanced [OF p a, where x = 101 and siblings = False and mode = "JStr ''roll_down''"] by simp
qed

section \<open>Releases\<close>

lemma release_amount_None:
  "release_amount org r c l1 l2 s = Inr (None, t) \<Longrightarrow> find_entry org (\<lambda>e. le_key e = Some (rl_key c)) (entries s) = None \<Longrightarrow>
     remaining org r s = Inr (0, s)"
  by (auto simp: release_amount_def repo_entry_Inr tx_bind_Inr split: option.splits if_splits dest: remaining_Inr)

lemma fresh_key_find: "fresh_key org key s \<longleftrightarrow> find_entry org (\<lambda>e. le_key e = Some key) (entries s) = None"
  by (auto simp: fresh_key_def find_entry_None)

text \<open>
  A new release takes from its reservation exactly what it posts: more than nothing and no more
  than the reservation still holds, all of it when no amount is given; and it posts nothing at all
  only when the reservation holds nothing.
\<close>

theorem release_reservation_exact:
  assumes b: "budget_ok s" and run: "release_reservation org today c s = Inr (v, t)" and fresh: "fresh_key org (rl_key c) s"
  shows "\<exists>r\<in>set (entries s). le_id r = rl_entry c \<and> le_org r = org \<and> le_type r = Reservation \<and>
    (case v of
       None \<Rightarrow> t = s \<and> view_remaining (entries s) r = 0
     | Some e \<Rightarrow> entries t = entries s @ [e] \<and> 0 < - le_amount e \<and> - le_amount e \<le> view_remaining (entries s) r \<and>
         view_remaining (entries t) r = view_remaining (entries s) r + le_amount e \<and>
         (rl_amount c = None \<longrightarrow> view_remaining (entries t) r = 0))"
  using b run
proof (cases rule: release_reservation_Inr)
  case (1 r)
  have "remaining org r s = Inr (0, s)" using release_amount_None [OF 1(5)] fresh by (simp add: fresh_key_find)
  then have "remaining_row Reservation (entries s) (le_org r) (le_id r) = Some 0"
    using remaining_Inr 1(3,4) by fastforce
  then show ?thesis using 1 remaining_row_Some(1) [OF _ 1(1)] b by (auto simp: budget_ok_def)
next
  case (2 r a e)
  have l: "ledger_ok s" using b by (simp add: budget_ok_def)
  have "t \<noteq> s"
    using post_entry_result [OF l 2(6)] fresh represents_sel by (auto simp: fresh_key_def release_posting_def)
  moreover have "rl_amount c = None \<longrightarrow> a = view_remaining (entries s) r"
    using release_amount_Inr(2) [OF b 2(1,3) _ 2(5) refl] fresh 2(4) by (auto simp: fresh_key_def)
  ultimately show ?thesis
    using post_release(2) [OF b 2(1,3) _ 2(5,6)] 2 by (intro bexI [of _ r]) auto
qed

text \<open>The sample organization with 30 of its funds reserved, and calls on that reservation.\<close>

definition sample_reserved :: db where
  "sample_reserved = sample_funded\<lparr>
     balances := [100 \<mapsto> sample_balance 100 30 0 0],
     entries := [sample_entry 1 (sample_posting 100 Allocation 100 ''k1'') BAllocated,
                 sample_entry 2 (sample_posting 100 Reservation 30 ''k2'') BReserved],
     next_entry := 3\<rparr>"

definition sample_release :: "rat option \<Rightarrow> release_call" where
  "sample_release amount = \<lparr>rl_entry = 2, rl_amount = amount, rl_actor = 7, rl_reason = ''Not needed'',
     rl_key = ''r1'', rl_effective = None\<rparr>"

lemmas holdings_ok_defs = holdings_ok_def released_amount_def release_lines_def is_reversed_def reversals_of_def

lemma sample_reserved_ok: "budget_ok sample_reserved"
  unfolding budget_ok_def
  by (rule conjI) (simp_all add: sample_reserved_def sample_defs ledger_ok_defs bucket_cases holdings_ok_defs)

lemma sample_reserved_fresh: "key \<notin> {''k1'', ''k2''} \<Longrightarrow> fresh_key 2 key sample_reserved"
  by (auto simp: fresh_key_def sample_reserved_def sample_defs)

lemma sample_release_run:
  "run_ok (release_reservation 2 (Date 2026 1 25) (sample_release (Some 12)) sample_reserved)
     (\<lambda>v t. map_option le_amount v = Some (-12) \<and> map_option b_available (balances t 100) = Some 82)"
  by code_simp

theorem release_reservation_exact_witness:
  "\<exists>e t. release_reservation 2 (Date 2026 1 25) (sample_release (Some 12)) sample_reserved = Inr (Some e, t) \<and>
     entries t = entries sample_reserved @ [e] \<and> le_amount e = -12"
proof (rule run_okE [OF sample_release_run])
  fix v t
  assume run: "release_reservation 2 (Date 2026 1 25) (sample_release (Some 12)) sample_reserved = Inr (v, t)"
    and v: "map_option le_amount v = Some (-12) \<and> map_option b_available (balances t 100) = Some 82"
  have "fresh_key 2 (rl_key (sample_release (Some 12))) sample_reserved"
    by (rule sample_reserved_fresh) (simp add: sample_release_def)
  from release_reservation_exact [OF sample_reserved_ok run this] v run show ?thesis by (cases v) auto
qed

section \<open>Reversals\<close>

text \<open>
  C8. A new reversal cancels an entry of the organization that is neither a transfer leg nor a
  reversal, and, of a reservation or a commitment, one that still holds all of its amount, which
  then holds nothing.  No second reversal of the entry can be posted under another key.
\<close>

theorem reverse_entry_cancels:
  assumes b: "budget_ok s" and run: "reverse_entry org i actor d reason key s = Inr (e, t)" and fresh: "fresh_key org key s"
  shows "\<exists>r\<in>set (entries s). le_id r = i \<and> le_org r = org \<and> le_type r \<notin> {Transfer, Reversal} \<and>
    entries t = entries s @ [e] \<and> le_amount e = - le_amount r \<and> le_bucket e = le_bucket r \<and> le_project e = le_project r \<and>
    (holds (le_type r) \<noteq> None \<longrightarrow> view_remaining (entries s) r = le_amount r \<and> view_remaining (entries t) r = 0) \<and>
    (\<forall>key2 actor2 d2 reason2. fresh_key org key2 t \<longrightarrow>
       reverse_entry org i actor2 d2 reason2 key2 t = Inl (conflict ''entry_already_reversed''))"
proof -
  have l: "ledger_ok s" and h: "holdings_ok (entries s)" using b by (simp_all add: budget_ok_def)
  obtain r where r: "r \<in> set (entries s)" "le_org r = org" "le_id r = i" "le_type r \<noteq> Transfer"
    "post_entry org (reversal_posting r actor d reason key) s = Inr (e, t)"
    "le_type r \<noteq> Reversal" "\<not> is_reversed (entries s) r" "holds (le_type r) \<noteq> None \<longrightarrow> le_amount r \<le> view_remaining (entries s) r"
    using fresh by (auto simp: fresh_key_find intro: reverse_entry_Inr [OF l run])
  note post = r(5)
  have t: "ledger_ok t" by (rule post_entry_ledger_ok [OF l post])
  have e: "e \<in> set (entries t)" "le_reverses e = Some (le_id r)" "le_key e = Some key" "le_org e = org"
    using post_entry_result [OF l post] represents_sel by (auto simp: reversal_posting_def)
  have new: "entries t = entries s @ [e]"
    using l post by (cases rule: post_entry_extends) (use fresh e in \<open>auto simp: fresh_key_def extended_def\<close>)
  then have rt: "r \<in> set (entries t)" using r(1) by simp
  note cancel = reversal_cancels [OF t rt e(1,2)]
  have gone: "view_remaining (entries t) r = 0"
    using e rt r(2) by (auto simp: view_remaining_def reversed_in_def list_ex_iff)
  have again: "reverse_entry org i actor2 d2 reason2 key2 t = Inl (conflict ''entry_already_reversed'')"
    if k: "fresh_key org key2 t" for key2 actor2 d2 reason2
  proof -
    have "find_entry org (\<lambda>f. le_id f = i) (entries t) = Some r" using find_by_id [OF t rt] r(2,3) by simp
    moreover have "balance_at org (le_project r) t \<noteq> None"
      using ledger_entry_facts(2) [OF t rt] r(2) by (auto simp: entry_home_def balance_at_def)
    moreover have "find_entry org (\<lambda>f. le_reverses f = Some (le_id r)) (entries t) \<noteq> None"
      using e by (auto simp: find_entry_None)
    ultimately show ?thesis
      using k r(4,6) by (auto simp: reverse_entry_def original_entry_def repo_entry_def repo_balance_def fresh_key_find tx_eval)
  qed
  show ?thesis
    using r new cancel gone again view_bounds(2) [OF l h r(1)] by (intro bexI [of _ r]) auto
qed

lemma sample_reversal_run:
  "run_ok (reverse_entry 2 2 7 (Date 2026 1 26) ''Entered twice'' ''v1'' sample_reserved)
     (\<lambda>e t. le_amount e = -30 \<and> map_option b_available (balances t 100) = Some 100 \<and> fresh_key 2 ''v2'' t)"
  unfolding fresh_key_find by code_simp

theorem reverse_entry_cancels_witness:
  "\<exists>e t. reverse_entry 2 2 7 (Date 2026 1 26) ''Entered twice'' ''v1'' sample_reserved = Inr (e, t) \<and>
     reverse_entry 2 2 7 (Date 2026 1 27) ''And again'' ''v2'' t = Inl (conflict ''entry_already_reversed'')"
proof (rule run_okE [OF sample_reversal_run])
  fix e t
  assume run: "reverse_entry 2 2 7 (Date 2026 1 26) ''Entered twice'' ''v1'' sample_reserved = Inr (e, t)"
    and t: "le_amount e = -30 \<and> map_option b_available (balances t 100) = Some 100 \<and> fresh_key 2 ''v2'' t"
  have "fresh_key 2 ''v1'' sample_reserved" by (rule sample_reserved_fresh) simp
  from reverse_entry_cancels [OF sample_reserved_ok run this] t run show ?thesis by blast
qed

text \<open>From the empty ledger: an allocation to the root project, then a reservation of a part of it.\<close>

definition sample_holding :: holding where
  "sample_holding = \<lparr>ho_project = 100, ho_amount = 15, ho_currency = ''USD'', ho_source_type = ''requisition'', ho_source_id = Some 900,
     ho_effective = Date 2026 1 15, ho_actor = 7, ho_department = ''D1'', ho_account = ''A1'', ho_key = ''h1''\<rparr>"

lemma sample_budget_run:
  "run_ok (tx_bind (allocate_funds 2 100 sample_body 7 ''a1'' None) (\<lambda>_. reserve 2 sample_holding) sample_db)
     (\<lambda>e t. map_option b_reserved (balances t 100) = Some 15)"
  by code_simp

theorem budget_buckets_are_holdings_witness:
  "\<exists>(s::db) b. balances s 100 = Some b \<and> b_reserved b = 15 \<and>
     (\<Sum>r\<in>holdings_of (entries s) 100 BReserved. view_remaining (entries s) r) = 15"
proof (rule run_okE [OF sample_budget_run])
  fix e t
  assume run: "tx_bind (allocate_funds 2 100 sample_body 7 ''a1'' None) (\<lambda>_. reserve 2 sample_holding) sample_db = Inr (e, t)"
    and t: "map_option b_reserved (balances t 100) = Some 15"
  from run obtain r s where steps: "allocate_funds 2 100 sample_body 7 ''a1'' None sample_db = Inr (r, s)" "reserve 2 sample_holding s = Inr (e, t)"
    by (auto simp: tx_bind_Inr)
  have "budget_reachable sample_db" by (rule migrated) (simp_all add: sample_db_def empty_db_def)
  then have "budget_reachable t" using steps by (blast intro: stepped budget_step.allocated budget_step.reserved)
  moreover from t obtain b where b: "balances t 100 = Some b" "b_reserved b = 15" by auto
  ultimately have "(\<Sum>r\<in>holdings_of (entries t) 100 BReserved. view_remaining (entries t) r) = 15"
    using budget_buckets_are_holdings [of t 100 b] by simp
  with b show ?thesis by (intro exI [of _ t] exI [of _ b]) simp
qed

end
