(* ===== verification/BudgetReadTheorems.thy ===== *)
theory BudgetReadTheorems
  imports BudgetReads BudgetTheorems
begin

text \<open>
  What the budget's reads promise: the rollup agrees with the ledger, whichever way a balance is
  asked for; the pages of the ledger together are the ledger; and the guard of the funding mode
  looks at the whole subtree of a unit.
\<close>

section \<open>Balances\<close>

lemma balance_home:
  assumes "ledger_ok s" "e \<in> set (entries s)"
  shows "\<exists>b. balance_at (le_org e) (le_project e) s = Some b"
  using ledger_entry_facts(2) [OF assms] by (auto simp: entry_home_def balance_at_def)

lemma period_total_all:
  assumes ok: "ledger_ok s" and dates: "\<forall>e\<in>set (entries s). le_project e = pid \<longrightarrow> in_bounds lower upper (le_effective e)"
  shows "period_total org pid lower upper (entries s) k =
    (case balance_at org pid s of None \<Rightarrow> 0 | Some b \<Rightarrow> bucket_of k b)"
proof (cases "balance_at org pid s")
  case None
  then have "filter (\<lambda>e. le_org e = org \<and> le_project e = pid \<and> le_bucket e = k \<and> in_bounds lower upper (le_effective e)) (entries s) = []"
    using balance_home [OF ok] by (fastforce simp: filter_empty_conv)
  then show ?thesis using None by (simp add: period_total_def)
next
  case (Some b)
  then have b: "balances s pid = Some b" "b_org b = org" by (auto simp: balance_at_def split: option.splits if_splits)
  have "le_org e = org" if "e \<in> set (entries s)" "le_project e = pid" for e
    using ledger_entry_facts(2) [OF ok that(1)] that(2) b by (auto simp: entry_home_def)
  then have "filter (\<lambda>e. le_org e = org \<and> le_project e = pid \<and> le_bucket e = k \<and> in_bounds lower upper (le_effective e)) (entries s) =
      filter (\<lambda>e. le_project e = pid \<and> le_bucket e = k) (entries s)"
    using dates by (intro filter_cong) auto
  moreover have "bucket_of k b = bucket_total (entries s) pid k" using ok b(1) by (simp add: ledger_ok_def)
  ultimately show ?thesis using Some by (simp add: period_total_def bucket_total_def)
qed

text \<open>The amounts a query reads, of the rollup or of the ledger.\<close>

lemma balance_query_Inr:
  assumes "balance_query org today pid p as_of start end reconcile s = Inr ((b, extra), t)"
  obtains lower upper vals totals rollup where
    "bounds org p (case as_of of None \<Rightarrow> today | Some d \<Rightarrow> d) start end s = Inr ((lower, upper), t)" "t = s"
    "totals = map (period_total org pid lower (if p = Life \<and> as_of = None then None else upper) (entries s)) all_buckets"
    "rollup = (case balance_at org pid s of None \<Rightarrow> [0, 0, 0, 0] | Some b \<Rightarrow> map (\<lambda>k. bucket_of k b) all_buckets)"
    "vals = (if p = Life \<and> as_of = None then rollup else totals)"
    "bq_values b = map fixed4 vals"
    "bq_available b = fixed4 (dec_sub (vals ! 0) (dec_add (dec_add (vals ! 1) (vals ! 2)) (vals ! 3)))"
    "consumption_ratio (vals ! 0) (dec_add (dec_add (vals ! 1) (vals ! 2)) (vals ! 3)) = Inr (bq_consumption b)"
    "bq_reconciles b = (if p = Life \<and> as_of = None
       then Some (list_all (\<lambda>d. d = 0) (map2 (\<lambda>a b. fixed4 (dec_sub a b)) rollup totals)) else None)"
    "extra = (if reconcile then Some (map fixed4 totals, map2 (\<lambda>a b. fixed4 (dec_sub a b)) rollup totals) else None)"
proof -
  have reads: "bounds org p d start end s = Inr (x, t) \<Longrightarrow> t = s" for d x t
    by (auto simp: bounds_def range_for_def start_month_def tx_bind_Inr Let_def split: period.splits option.splits prod.splits)
  from assms show ?thesis
    unfolding balance_query_def Let_def
  proof (elim tx_bindE, goal_cases)
    case (1 project s1 u s2 lu s3)
    obtain lower upper where lu: "lu = (lower, upper)" by (cases lu)
    have s: "s1 = s" "s2 = s" "s3 = s"
      using 1 reads by (auto simp: get_project_def tx_bind_Inr)
    show ?case
      by (rule that [of lower upper]) (use 1 lu s in \<open>auto simp: repo_balance_def tx_bind_Inr\<close>)
  qed
qed

lemma rollup_is_totals:
  assumes "ledger_ok s"
  shows "(case balance_at org pid s of None \<Rightarrow> [0, 0, 0, 0] | Some b \<Rightarrow> map (\<lambda>k. bucket_of k b) all_buckets) =
    map (period_total org pid None None (entries s)) all_buckets"
  using period_total_all [OF assms, of pid None None org]
  by (cases "balance_at org pid s") (simp_all add: all_buckets_def in_bounds_def)

lemma fixed4_diff: "fixed4 (dec_sub x x) = 0"
  using context_round_units [of 0 0] round_half_even_of_int [of 0] by (simp add: fixed4_def dec_sub_def)

lemma fixed4_exact: "four_places x \<Longrightarrow> fixed4 x = x"
  by (auto simp: fixed4_def four_places_def)

text \<open>However large, a difference of two amounts is zero to four places only if they are the same.\<close>

lemma fixed4_diff_zero:
  assumes "four_places a" "four_places b"
  shows "fixed4 (dec_sub a b) = 0 \<longleftrightarrow> a = b"
proof
  assume zero: "fixed4 (dec_sub a b) = 0"
  let ?c = "context_round (a - b)"
  obtain k where k: "a - b = of_int k / 10 ^ 4" using four_places_diff [OF assms] by (auto simp: four_places_def)
  have "round_half_even (?c * 10 ^ 4) = 0" using zero by (simp add: fixed4_def dec_sub_def)
  then have "\<bar>?c * 10 ^ 4\<bar> \<le> 1 / 2" using round_half_even_error [of "?c * 10 ^ 4"] by simp
  then have small: "\<bar>?c\<bar> * 10 ^ 4 \<le> 1 / 2" by (simp add: abs_mult)
  have "\<bar>a - b\<bar> \<le> \<bar>?c\<bar> + \<bar>?c - (a - b)\<bar>" by linarith
  also have "\<dots> \<le> \<bar>?c\<bar> + \<bar>a - b\<bar> * (5 / 10 ^ 28)" using context_round_error [of "a - b"] by linarith
  also have "\<dots> \<le> \<bar>?c\<bar> + \<bar>a - b\<bar> * (1 / 4)" by (intro add_left_mono mult_left_mono) simp_all
  finally have "\<bar>a - b\<bar> * 10 ^ 4 < 1" using small by simp
  then have "\<bar>of_int k\<bar> < (1 :: rat)" by (simp add: k)
  then have "k = 0" by linarith
  then show "a = b" using k by simp
qed (simp add: fixed4_diff)

text \<open>What the ledger says a bucket of the project holds, and what its balance row shows.\<close>

definition booked :: "db \<Rightarrow> uuid \<Rightarrow> uuid \<Rightarrow> bucket \<Rightarrow> rat" where
  "booked s org pid k =
     sum_list (map le_amount (filter (\<lambda>e. le_org e = org \<and> le_project e = pid \<and> le_bucket e = k) (entries s)))"

definition shown :: "db \<Rightarrow> uuid \<Rightarrow> uuid \<Rightarrow> bucket \<Rightarrow> rat" where
  "shown s org pid k = (case balance_at org pid s of None \<Rightarrow> 0 | Some r \<Rightarrow> bucket_of k r)"

lemma period_total_booked: "period_total org pid None None (entries s) k = booked s org pid k"
  by (simp add: period_total_def booked_def in_bounds_def)

lemma shown_rollup:
  "(case balance_at org pid s of None \<Rightarrow> [0, 0, 0, 0] | Some b \<Rightarrow> map (\<lambda>k. bucket_of k b) all_buckets) =
    map (shown s org pid) all_buckets"
  by (simp add: shown_def all_buckets_def split: option.splits)

lemma shown_is_booked: "ledger_ok s \<Longrightarrow> shown s org pid k = booked s org pid k"
  using period_total_all [of s pid None None org k] period_total_booked [of org pid s k]
  by (simp add: shown_def in_bounds_def split: option.splits)

lemma sum_four_places: "\<forall>x\<in>set xs. four_places x \<Longrightarrow> four_places (sum_list xs)"
  by (induction xs) (auto simp: numeric_four_places)

definition four_place_amounts :: "db \<Rightarrow> bool" where
  "four_place_amounts s \<longleftrightarrow> (\<forall>e\<in>set (entries s). four_places (le_amount e)) \<and>
     (\<forall>i r k. balances s i = Some r \<longrightarrow> four_places (bucket_of k r))"

lemma amounts_four_places:
  assumes "four_place_amounts s" shows "four_places (shown s org pid k)" "four_places (booked s org pid k)"
  using assms numeric_four_places [OF numeric18_4_zero]
  by (auto simp: four_place_amounts_def shown_def booked_def balance_at_def intro!: sum_four_places split: option.splits if_splits)

lemma ledger_ok_four_places: "ledger_ok s \<Longrightarrow> four_place_amounts s"
  unfolding four_place_amounts_def ledger_ok_def entry_ok_def balance_columns_def by (metis numeric_four_places)

text \<open>
  C12. The current balance of a project tells the truth about itself: it is said to reconcile if and only
  if every bucket of the rollup it shows is the sum of the organization's ledger entries for the project
  in that bucket.  On a ledger in order it always does: the four values are those sums, and each
  difference of the reconciliation is zero.
\<close>

theorem balance_query_reconciles:
  assumes "four_place_amounts s" "balance_query org today pid Life None start end reconcile s = Inr ((b, extra), t)"
  shows "t = s \<and> bq_values b = map (shown s org pid) all_buckets \<and>
    bq_reconciles b = Some (\<forall>k. shown s org pid k = booked s org pid k) \<and>
    (\<forall>totals differences. extra = Some (totals, differences) \<longrightarrow> totals = map (booked s org pid) all_buckets) \<and>
    (ledger_ok s \<longrightarrow> bq_values b = map (booked s org pid) all_buckets \<and> bq_reconciles b = Some True \<and>
      (\<forall>totals differences. extra = Some (totals, differences) \<longrightarrow> differences = [0, 0, 0, 0]))"
  using assms(2)
proof (rule balance_query_Inr)
  fix lower upper vals totals rollup
  assume a: "bounds org Life (case None of None \<Rightarrow> today | Some d \<Rightarrow> d) start end s = Inr ((lower, upper), t)" "t = s"
    "totals = map (period_total org pid lower (if Life = Life \<and> (None :: date option) = None then None else upper) (entries s)) all_buckets"
    "rollup = (case balance_at org pid s of None \<Rightarrow> [0, 0, 0, 0] | Some b \<Rightarrow> map (\<lambda>k. bucket_of k b) all_buckets)"
    "vals = (if Life = Life \<and> (None :: date option) = None then rollup else totals)"
    "bq_values b = map fixed4 vals"
    "bq_reconciles b = (if Life = Life \<and> (None :: date option) = None
       then Some (list_all (\<lambda>d. d = 0) (map2 (\<lambda>a b. fixed4 (dec_sub a b)) rollup totals)) else None)"
    "extra = (if reconcile then Some (map fixed4 totals, map2 (\<lambda>a b. fixed4 (dec_sub a b)) rollup totals) else None)"
  have "lower = None" using a(1) by (simp add: bounds_def)
  then have rows: "rollup = map (shown s org pid) all_buckets" "totals = map (booked s org pid) all_buckets"
    using a(3,4) by (simp_all add: shown_rollup period_total_booked)
  note places = amounts_four_places [OF assms(1), of org pid]
  have flag: "bq_reconciles b = Some (\<forall>k. shown s org pid k = booked s org pid k)"
    using a(7) by (simp add: rows all_buckets_def fixed4_diff_zero [OF places] bucket_cases)
  have vals: "bq_values b = map (shown s org pid) all_buckets"
    using a(5,6) rows(1) places by (simp add: fixed4_exact)
  have totals: "map fixed4 totals = map (booked s org pid) all_buckets"
    using rows(2) places by (simp add: fixed4_exact)
  have "map2 (\<lambda>a b. fixed4 (dec_sub a b)) rollup totals = [0, 0, 0, 0]" if "ledger_ok s"
    using shown_is_booked [OF that] by (simp add: rows all_buckets_def fixed4_diff)
  then show ?thesis using a(2,8) flag vals totals shown_is_booked by (auto split: if_splits)
qed

lemma sample_balance_run:
  "run_ok (balance_query 2 (Date 2026 1 25) 100 Life None None None True sample_reserved)
     (\<lambda>r t. bq_values (fst r) = [100, 30, 0, 0] \<and> bq_available (fst r) = 70 \<and> bq_consumption (fst r) = Some (3/10))"
  by code_simp

lemma sample_balance_as_of_run:
  "run_ok (balance_query 2 (Date 2026 3 1) 100 Life (Some (Date 2026 2 1)) None None False sample_reserved)
     (\<lambda>r t. bq_reconciles (fst r) = None)"
  by code_simp

theorem balance_query_reconciles_witness:
  "\<exists>b extra. balance_query 2 (Date 2026 1 25) 100 Life None None None True sample_reserved = Inr ((b, extra), sample_reserved) \<and>
     bq_values b = [100, 30, 0, 0] \<and> bq_reconciles b = Some True"
proof (rule run_okE [OF sample_balance_run])
  fix r t
  assume run: "balance_query 2 (Date 2026 1 25) 100 Life None None None True sample_reserved = Inr (r, t)"
    and "bq_values (fst r) = [100, 30, 0, 0] \<and> bq_available (fst r) = 70 \<and> bq_consumption (fst r) = Some (3/10)"
  moreover have ok: "ledger_ok sample_reserved" using sample_reserved_ok by (simp add: budget_ok_def)
  moreover obtain b extra where r: "r = (b, extra)" by (cases r)
  moreover have "t = sample_reserved \<and> bq_reconciles b = Some True"
    using balance_query_reconciles [OF ledger_ok_four_places [OF ok] run [unfolded r]] ok shown_is_booked [OF ok] by simp
  ultimately show ?thesis by simp
qed

text \<open>
  The current balance, read from the rollup, and the balance as of a day on or after every
  entry of the project, summed from the ledger, show the same amounts, funds and consumption.
\<close>

theorem balance_query_as_of:
  assumes "ledger_ok s" "\<forall>e\<in>set (entries s). le_project e = pid \<longrightarrow> le_effective e \<le> d"
    and "balance_query org today pid Life None st en rec s = Inr ((b, extra), t)"
    and "balance_query org today' pid Life (Some d) st' en' rec' s = Inr ((b', extra'), t')"
  shows "bq_values b = bq_values b' \<and> bq_available b = bq_available b' \<and> bq_consumption b = bq_consumption b'"
proof -
  have "bq_values b = map fixed4 v \<and> bq_available b = fixed4 (dec_sub (v ! 0) (dec_add (dec_add (v ! 1) (v ! 2)) (v ! 3))) \<and>
      consumption_ratio (v ! 0) (dec_add (dec_add (v ! 1) (v ! 2)) (v ! 3)) = Inr (bq_consumption b)"
    if "balance_query org today pid Life as_of st en rec s = Inr ((b, extra), t)" "as_of = None \<or> as_of = Some d"
      and v: "v = (case balance_at org pid s of None \<Rightarrow> [0, 0, 0, 0] | Some b \<Rightarrow> map (\<lambda>k. bucket_of k b) all_buckets)"
    for as_of b extra t today st en rec v
    using that(1)
  proof (rule balance_query_Inr)
    fix lower upper vals totals rollup
    assume a: "bounds org Life (case as_of of None \<Rightarrow> today | Some d \<Rightarrow> d) st en s = Inr ((lower, upper), t)"
      "totals = map (period_total org pid lower (if Life = Life \<and> as_of = None then None else upper) (entries s)) all_buckets"
      "rollup = (case balance_at org pid s of None \<Rightarrow> [0, 0, 0, 0] | Some b \<Rightarrow> map (\<lambda>k. bucket_of k b) all_buckets)"
      "vals = (if Life = Life \<and> as_of = None then rollup else totals)"
      "bq_values b = map fixed4 vals"
      "bq_available b = fixed4 (dec_sub (vals ! 0) (dec_add (dec_add (vals ! 1) (vals ! 2)) (vals ! 3)))"
      "consumption_ratio (vals ! 0) (dec_add (dec_add (vals ! 1) (vals ! 2)) (vals ! 3)) = Inr (bq_consumption b)"
    have "totals = v" if "as_of = Some d"
    proof -
      have "lower = None" "upper = Some d" using a(1) that by (simp_all add: bounds_def)
      then have "totals = map (\<lambda>k. case balance_at org pid s of None \<Rightarrow> 0 | Some b \<Rightarrow> bucket_of k b) all_buckets"
        using that period_total_all [OF assms(1), of pid None "Some d" org] assms(2) by (simp add: a(2) in_bounds_def)
      then show ?thesis by (simp add: v all_buckets_def split: option.split)
    qed
    then have "vals = v" using a(3,4) that(2) v by auto
    then show ?thesis using a by simp
  qed
  from this [OF assms(3) _ refl] this [OF assms(4) _ refl] show ?thesis by auto
qed

theorem balance_query_as_of_witness:
  "\<exists>b x t b' x' t'. balance_query 2 (Date 2026 1 25) 100 Life None None None True sample_reserved = Inr ((b, x), t) \<and>
     balance_query 2 (Date 2026 3 1) 100 Life (Some (Date 2026 2 1)) None None False sample_reserved = Inr ((b', x'), t') \<and>
     bq_values b' = bq_values b"
proof (rule run_okE [OF sample_balance_run], rule run_okE [OF sample_balance_as_of_run])
  fix r t r' t'
  assume runs: "balance_query 2 (Date 2026 1 25) 100 Life None None None True sample_reserved = Inr (r, t)"
    "balance_query 2 (Date 2026 3 1) 100 Life (Some (Date 2026 2 1)) None None False sample_reserved = Inr (r', t')"
  obtain b x b' x' where r: "r = (b, x)" "r' = (b', x')" by (cases r; cases r')
  have "\<forall>e\<in>set (entries sample_reserved). le_project e = 100 \<longrightarrow> le_effective e \<le> Date 2026 2 1"
    by (simp add: sample_reserved_def sample_defs less_eq_date_def)
  with balance_query_as_of [OF _ _ runs [unfolded r]] sample_reserved_ok runs r show ?thesis by (auto simp: budget_ok_def)
qed

section \<open>The ledger, page by page\<close>

definition ledger_page ::
  "uuid \<Rightarrow> uuid \<Rightarrow> ledger_filter \<Rightarrow> db \<Rightarrow> nat \<Rightarrow> (date \<times> nat) option \<Rightarrow> (ledger_entry list \<times> (date \<times> nat) option) option" where
  "ledger_page org pid f s n cursor =
     (case ledger_query org pid f cursor (int n) s of Inr (r, _) \<Rightarrow> Some r | Inl _ \<Rightarrow> None)"

text \<open>The identifiers of entries are values of a \<open>bigserial\<close> column.\<close>

definition ledger_readable :: "uuid \<Rightarrow> uuid \<Rightarrow> ledger_filter \<Rightarrow> db \<Rightarrow> bool" where
  "ledger_readable org pid f s \<longleftrightarrow> ledger_ok s \<and> find_project org pid s \<noteq> None \<and>
     (\<forall>e\<in>set (entries s). 1 \<le> le_id e \<and> le_id e \<le> 9223372036854775807) \<and>
     (case (lf_start f, lf_end f) of (Some a, Some b) \<Rightarrow> a \<le> b | _ \<Rightarrow> True)"

lemma keyset_page_Suc:
  "keyset_page key rows n cursor =
    (let xs = take (Suc n) (filter (\<lambda>r. case cursor of None \<Rightarrow> True | Some c \<Rightarrow> c < key r) rows); page = take n xs
     in (page, if n < length xs \<and> page \<noteq> [] then Some (key (last page)) else None))"
  by (simp add: keyset_page_def Let_def min_def)

lemma ledger_page_reads:
  assumes "ledger_readable org pid f s" "1 \<le> n" "n \<le> 50"
    and "cursor = None \<or> (\<exists>r\<in>set (ledger_rows org pid f s). cursor = Some (ledger_key r))"
  shows "ledger_page org pid f s n cursor = Some (keyset_page ledger_key (ledger_rows org pid f s) n cursor)"
proof -
  have rows: "set (ledger_rows org pid f s) \<subseteq> set (entries s)" by (auto simp: ledger_rows_def)
  have "case cursor of None \<Rightarrow> True | Some c \<Rightarrow> 1 \<le> snd c \<and> snd c \<le> 9223372036854775807"
    using assms(1,4) rows by (auto simp: ledger_readable_def ledger_key_def)
  moreover have "case (lf_start f, lf_end f) of (Some a, Some b) \<Rightarrow> \<not> b < a | _ \<Rightarrow> True"
    using assms(1) by (auto simp: ledger_readable_def split: option.splits)
  ultimately show ?thesis
    using assms(1-3) by (auto simp: ledger_page_def ledger_query_def get_project_def tx_eval Let_def keyset_page_Suc ledger_readable_def)
qed

lemma ledger_rows_ordered:
  assumes "ledger_ok s"
  shows "sorted_wrt (\<lambda>x y. ledger_key x < ledger_key y) (ledger_rows org pid f s)"
proof -
  let ?rows = "ledger_rows org pid f s"
  have "distinct ?rows" "set ?rows \<subseteq> set (entries s)"
    using ledger_distinct [OF assms] by (auto simp: ledger_rows_def)
  then have "distinct (map ledger_key ?rows)"
    using ledger_unique(1) [OF assms] by (auto simp: distinct_map inj_on_def ledger_key_def)
  moreover have "sorted (map ledger_key ?rows)" by (simp add: ledger_rows_def)
  ultimately have "sorted_wrt (<) (map ledger_key ?rows)" using strict_sorted_iff by blast
  then show ?thesis by (simp add: sorted_wrt_map)
qed

interpretation ledger_pages: pager "ledger_page org pid f" ledger_key "ledger_rows org pid f"
  "ledger_readable org pid f" "\<lambda>n. 1 \<le> n \<and> n \<le> 50" for org pid f
proof
  show "ledger_readable org pid f s \<Longrightarrow> sorted_wrt (\<lambda>x y. ledger_key x < ledger_key y) (ledger_rows org pid f s)" for s
    by (rule ledger_rows_ordered) (simp add: ledger_readable_def)
qed (auto intro: ledger_page_reads)

text \<open>
  C13. Following the cursors of the ledger page by page, with any page size the read accepts, returns
  every entry of the project that matches the filter exactly once, oldest first, and then stops.
\<close>

theorem ledger_pages_complete:
  assumes "ledger_readable org pid f s" "1 \<le> n" "n \<le> 50"
  shows "follow (Suc (length (entries s))) (ledger_page org pid f s n) None = Some (ledger_rows org pid f s) \<and>
    distinct (ledger_rows org pid f s)"
proof -
  have len: "length (ledger_rows org pid f s) \<le> length (entries s)" by (simp add: ledger_rows_def)
  have "follow (Suc (length (entries s))) (ledger_page org pid f s n) None = Some (drop 0 (ledger_rows org pid f s))"
    by (rule ledger_pages.follow_from) (use assms len in simp_all)
  moreover have "distinct (ledger_rows org pid f s)"
    using ledger_distinct assms(1) by (simp add: ledger_rows_def ledger_readable_def)
  ultimately show ?thesis by simp
qed

definition all_entries :: ledger_filter where
  "all_entries = \<lparr>lf_bucket = None, lf_type = None, lf_start = None, lf_end = None\<rparr>"

theorem ledger_pages_complete_witness:
  "follow 3 (ledger_page 2 100 all_entries sample_reserved 1) None = Some (ledger_rows 2 100 all_entries sample_reserved) \<and>
     length (ledger_rows 2 100 all_entries sample_reserved) = 2"
proof -
  have len: "length (entries sample_reserved) = 2" "length (ledger_rows 2 100 all_entries sample_reserved) = 2" by code_simp+
  have "ledger_readable 2 100 all_entries sample_reserved"
    using sample_reserved_ok
    by (simp add: ledger_readable_def budget_ok_def all_entries_def find_project_def sample_reserved_def sample_defs)
  from ledger_pages_complete [OF this, of 1] len show ?thesis by simp
qed

section \<open>The funding mode guard\<close>

text \<open>The units below a unit in the organization's tree.\<close>

inductive below :: "unit_row list \<Rightarrow> uuid \<Rightarrow> uuid \<Rightarrow> uuid \<Rightarrow> bool" for us org u where
  below_here: "below us org u u"
| below_child: "below us org u q \<Longrightarrow> r \<in> set us \<Longrightarrow> u_org r = org \<Longrightarrow> u_parent r = Some q \<Longrightarrow> below us org u (u_id r)"

lemma units_under_mono: "set seen \<subseteq> set (units_under fuel us org seen)"
proof (induction fuel arbitrary: seen)
  case (Suc fuel)
  then show ?case by (fastforce simp: Let_def)
qed simp

lemma units_under_closed:
  assumes "card (u_id ` set us - set seen) \<le> fuel" "r \<in> set us" "u_org r = org" "u_parent r = Some q"
    "q \<in> set (units_under fuel us org seen)"
  shows "u_id r \<in> set (units_under fuel us org seen)"
  using assms(1,5)
proof (induction fuel arbitrary: seen)
  case 0
  then have "u_id ` set us - set seen = {}" by simp
  then show ?case using assms(2) by auto
next
  case (Suc fuel)
  define new where "new = map u_id (filter (\<lambda>r. u_org r = org \<and> u_id r \<notin> set seen \<and>
                  (case u_parent r of None \<Rightarrow> False | Some q \<Rightarrow> q \<in> set seen)) us)"
  show ?case
  proof (cases "new = []")
    case True
    then have same: "units_under (Suc fuel) us org seen = seen" by (simp add: new_def Let_def)
    then have "q \<in> set seen" using Suc.prems(2) by simp
    then have "u_id r \<in> set seen"
      using True assms(2-4) by (force simp: new_def filter_empty_conv)
    then show ?thesis using same by simp
  next
    case False
    then have step: "units_under (Suc fuel) us org seen = units_under fuel us org (seen @ new)" by (simp add: new_def Let_def)
    have n: "set new \<subseteq> u_id ` set us" "set new \<inter> set seen = {}" by (auto simp: new_def)
    have "card (u_id ` set us - set (seen @ new)) < card (u_id ` set us - set seen)"
      by (rule psubset_card_mono) (use n False in \<open>auto simp: neq_Nil_conv\<close>)
    then show ?thesis using Suc.IH [of "seen @ new"] Suc.prems step by simp
  qed
qed

lemma below_guarded:
  assumes "below (units s) org u x" "\<exists>r\<in>set (units s). u_id r = u \<and> u_org r = org" "unit = None \<or> unit = Some u"
  shows "x \<in> set (guarded_units org unit s)"
  using assms(1)
proof (induction rule: below.induct)
  case (below_here)
  then show ?case using assms(2,3) units_under_mono by (fastforce simp: guarded_units_def)
next
  case (below_child q r)
  have "card (u_id ` set (units s) - A) \<le> length (units s)" for A
    using card_mono [of "u_id ` set (units s)" "u_id ` set (units s) - A"] card_image_le [of "set (units s)" u_id] card_length [of "units s"]
    by fastforce
  then show ?case using units_under_closed below_child unfolding guarded_units_def by blast
qed

text \<open>The units a change of the setting reaches: those at and below its unit, or all of the organization.\<close>

definition unit_governed :: "db \<Rightarrow> uuid \<Rightarrow> uuid option \<Rightarrow> uuid \<Rightarrow> bool" where
  "unit_governed s org unit x \<longleftrightarrow>
     (\<exists>u. (\<exists>r\<in>set (units s). u_id r = u \<and> u_org r = org) \<and> (unit = None \<or> unit = Some u) \<and> below (units s) org u x)"

lemma governed_guarded: "unit_governed s org unit x \<Longrightarrow> x \<in> set (guarded_units org unit s)"
  unfolding unit_governed_def using below_guarded by blast

text \<open>
  C14. When the funding mode may change, of a unit or of the whole organization, no ledger entry and no
  pending allocation request of the organization is on a project whose own unit, or whose root's unit,
  the change reaches: the unit itself or anywhere below it, or any unit of the organization.
\<close>

theorem funding_mode_guard_safe:
  assumes "funding_mode_guard org unit s = Inr (x, t)"
    and "find_project org pid s = Some p" "find_project org (p_root p) s = Some top_row"
    and "unit_governed s org unit (p_bu p) \<or> unit_governed s org unit (p_bu top_row)"
  shows "t = s \<and> (\<forall>e\<in>set (entries s). le_org e = org \<longrightarrow> le_project e \<noteq> pid) \<and>
    (\<forall>r\<in>set (change_requests s). cr_org r = org \<and> cr_kind r = AllocationChange \<and> cr_project r = pid \<longrightarrow> cr_status r \<noteq> ChangePending)"
proof -
  let ?us = "guarded_units org unit s"
  have reached: "funded_within org ?us s pid"
    using governed_guarded assms(2-4) by (auto simp: funded_within_def)
  have "\<not> list_ex (\<lambda>e. le_org e = org \<and> funded_within org ?us s (le_project e)) (entries s)"
    "\<not> list_ex (\<lambda>r. cr_org r = org \<and> cr_kind r = AllocationChange \<and> cr_status r = ChangePending \<and>
       funded_within org ?us s (cr_project r)) (change_requests s)" "t = s"
    using assms(1) by (auto simp: funding_mode_guard_def tx_bind_Inr)
  then show ?thesis using reached by (auto simp: list_ex_iff)
qed

definition sample_change :: change_row where
  "sample_change = \<lparr>cr_id = 800, cr_org = 2, cr_kind = AllocationChange, cr_project = 100, cr_amount = 50,
     cr_currency = ''USD'', cr_requester = 7, cr_key = ''c1'', cr_status = ChangeWithdrawn\<rparr>"

theorem funding_mode_guard_safe_witness:
  "\<exists>x t. funding_mode_guard 2 None (sample_db\<lparr>change_requests := [sample_change]\<rparr>) = Inr (x, t) \<and>
     cr_status sample_change \<noteq> ChangePending"
proof -
  let ?s = "sample_db\<lparr>change_requests := [sample_change]\<rparr>"
  have run: "funding_mode_guard 2 None ?s = Inr ((), ?s)"
    by (simp add: funding_mode_guard_def tx_eval sample_db_def empty_db_def sample_change_def)
  have p: "find_project 2 100 ?s = Some (sample_project None)" "find_project 2 (p_root (sample_project None)) ?s = Some (sample_project None)"
    by (simp_all add: find_project_def sample_db_def sample_project_def)
  have "unit_governed ?s 2 None (p_bu (sample_project None))"
    unfolding unit_governed_def by (rule exI [of _ 10]) (auto simp: sample_db_def sample_project_def below_here)
  then show ?thesis
    using funding_mode_guard_safe [OF run p] run by (auto simp: sample_change_def)
qed

end
