(* ===== verification/Reconcile.thy ===== *)
theory Reconcile
  imports BudgetReadTheorems
begin

text \<open>
  \<open>flo/modules/budget/reconcile.py\<close> with the tables of migration 0026: runs that compare the
  balance rows of an organization with its ledger in one snapshot and report the drift, and the
  reads over the reports.
\<close>

section \<open>Runs and reports\<close>

datatype run_status = RunOk | RunDrift | RunFailed

record run_row =
  rr_id :: uuid
  rr_org :: uuid
  rr_started :: timestamp
  rr_finished :: timestamp
  rr_checked :: nat
  rr_rows :: nat
  rr_status :: run_status
  rr_error :: "problem option"                \<comment> \<open>its class name, in the table\<close>

record drift_row =
  dr_id :: uuid
  dr_org :: uuid
  dr_run :: uuid
  dr_project :: uuid
  dr_bucket :: bucket
  dr_currency :: string
  dr_ledger :: rat
  dr_balance :: rat
  dr_difference :: rat
  dr_detected :: timestamp

record alert =
  al_org :: uuid
  al_projects :: nat
  al_difference :: rat

record reconcile_db =
  rc_db :: db
  rc_runs :: "run_row list"
  rc_drift :: "drift_row list"
  rc_alerts :: "alert list"                   \<comment> \<open>the error log\<close>

definition difference :: "rat \<Rightarrow> rat \<Rightarrow> rat" where
  "difference balance_total ledger_total = dec_sub balance_total ledger_total"

type_synonym mismatch = "uuid \<times> bucket \<times> string \<times> rat \<times> rat"

text \<open>The balance rows of the organization, and each bucket whose rollup is not the ledger's sum.\<close>

definition org_balances :: "uuid \<Rightarrow> db \<Rightarrow> (uuid \<times> balance_row) list" where
  "org_balances org s = List.map_filter (\<lambda>i. map_option (Pair i) (balance_at org i s)) (project_ids s)"

definition snapshot :: "uuid \<Rightarrow> db \<Rightarrow> nat \<times> mismatch list" where
  "snapshot org s =
     (length (org_balances org s),
      concat (map (\<lambda>(i, b). map (\<lambda>k. (i, k, b_currency b, period_total org i None None (entries s) k, bucket_of k b))
        (filter (\<lambda>k. period_total org i None None (entries s) k \<noteq> bucket_of k b) all_buckets)) (org_balances org s)))"

definition run_uuid :: "(reconcile_db, uuid) tx" where
  "run_uuid = (\<lambda>s. case fresh_uuid (rc_db s) of Inl e \<Rightarrow> Inl e | Inr (i, d) \<Rightarrow> Inr (i, s\<lparr>rc_db := d\<rparr>))"

definition record_run ::
  "uuid \<Rightarrow> uuid \<Rightarrow> timestamp \<Rightarrow> nat \<Rightarrow> nat \<Rightarrow> run_status \<Rightarrow> problem option \<Rightarrow> (reconcile_db, unit) tx" where
  "record_run org run started n rows status err =
     tx_update (\<lambda>s. s\<lparr>rc_runs := rc_runs s @ [\<lparr>rr_id = run, rr_org = org, rr_started = started,
       rr_finished = clock (rc_db s), rr_checked = n, rr_rows = rows, rr_status = status, rr_error = err\<rparr>]\<rparr>)"

definition insert_drift :: "uuid \<Rightarrow> uuid \<Rightarrow> mismatch \<Rightarrow> (reconcile_db, unit) tx" where
  "insert_drift org run m =
     (case m of (i, k, currency, ledger, balance) \<Rightarrow>
      tx_bind run_uuid (\<lambda>new.
      tx_bind (tx_lift (to_numeric ledger)) (\<lambda>l.
      tx_bind (tx_lift (to_numeric balance)) (\<lambda>b.
      tx_bind (tx_lift (to_numeric (difference balance ledger))) (\<lambda>d.
      tx_bind (tx_read (\<lambda>s. list_ex (\<lambda>r. dr_run r = run \<and> dr_project r = i \<and> dr_bucket r = k) (rc_drift s))) (\<lambda>dup.
      tx_bind (tx_require (\<not> dup) (Raised (UniqueViolation ''balance_drift_report_run_id_project_id_bucket_key''))) (\<lambda>_.
      tx_update (\<lambda>s. s\<lparr>rc_drift := rc_drift s @ [\<lparr>dr_id = new, dr_org = org, dr_run = run, dr_project = i,
        dr_bucket = k, dr_currency = currency, dr_ledger = l, dr_balance = b, dr_difference = d,
        dr_detected = clock (rc_db s)\<rparr>]\<rparr>))))))))"

text \<open>\<open>max(..., key=abs)\<close>: the first of the largest.\<close>

fun largest :: "rat list \<Rightarrow> rat" where
  "largest [] = 0"
| "largest [x] = x"
| "largest (x # y # xs) = largest ((if \<bar>x\<bar> < \<bar>y\<bar> then y else x) # xs)"

text \<open>The work inside the repeatable-read transaction.\<close>

definition reconcile_work :: "uuid \<Rightarrow> uuid \<Rightarrow> timestamp \<Rightarrow> (reconcile_db, mismatch list) tx" where
  "reconcile_work org run started =
     tx_bind (tx_read (\<lambda>s. snapshot org (rc_db s))) (\<lambda>(n, drift).
     tx_bind (record_run org run started n (length drift) (if drift \<noteq> [] then RunDrift else RunOk) None) (\<lambda>_.
     tx_bind (tx_each (insert_drift org run) drift) (\<lambda>_.
     tx_return drift)))"

text \<open>A run always ends with its id: an exception rolls the work back and is recorded as a failed run.\<close>

definition reconcile_org :: "uuid \<Rightarrow> reconcile_db \<Rightarrow> uuid \<times> reconcile_db" where
  "reconcile_org org s =
     (let run = next_uuid (rc_db s); s0 = s\<lparr>rc_db := (rc_db s)\<lparr>next_uuid := Suc run\<rparr>\<rparr>; started = clock (rc_db s) in
      case reconcile_work org run started s0 of
        Inl e \<Rightarrow> (run, case record_run org run started 0 0 RunFailed (Some e) s0 of Inl _ \<Rightarrow> s0 | Inr (_, t) \<Rightarrow> t)
      | Inr (drift, t) \<Rightarrow>
          (run, if drift = [] then t
                else t\<lparr>rc_alerts := rc_alerts t @ [\<lparr>al_org = org, al_projects = length (remdups (map fst drift)),
                  al_difference = largest (map (\<lambda>(_, _, _, l, b). difference b l) drift)\<rparr>]\<rparr>))"

text \<open>Every organization with a member, in the order of its id.\<close>

definition reconcile_all :: "uuid list \<Rightarrow> reconcile_db \<Rightarrow> nat \<times> reconcile_db" where
  "reconcile_all member_orgs s =
     (let orgs = sort (remdups member_orgs)
      in (length orgs, foldl (\<lambda>t org. snd (reconcile_org org t)) s orgs))"

section \<open>Reads\<close>

text \<open>\<open>ORDER BY started_at DESC, id DESC LIMIT 1\<close>.\<close>

definition latest_run :: "uuid \<Rightarrow> run_row list \<Rightarrow> run_row option" where
  "latest_run org rs =
     (let own = sort_key (\<lambda>r. (rr_started r, rr_id r)) (filter (\<lambda>r. rr_org r = org) rs)
      in if own = [] then None else Some (last own))"

definition reconciliation_status :: "uuid \<Rightarrow> (reconcile_db, timestamp option \<times> run_status option \<times> nat) tx" where
  "reconciliation_status org = tx_read (\<lambda>s. case latest_run org (rc_runs s) of
     None \<Rightarrow> (None, None, 0) | Some r \<Rightarrow> (Some (rr_finished r), Some (rr_status r), rr_rows r))"

definition drift_rows :: "uuid \<Rightarrow> uuid \<Rightarrow> reconcile_db \<Rightarrow> drift_row list" where
  "drift_rows org run s = sort_key dr_id (filter (\<lambda>r. dr_org r = org \<and> dr_run r = run) (rc_drift s))"

definition reconciliation_drift ::
  "uuid \<Rightarrow> uuid \<Rightarrow> uuid option \<Rightarrow> nat \<Rightarrow> (reconcile_db, drift_row list \<times> uuid option) tx" where
  "reconciliation_drift org run cursor page_size =
     tx_bind (tx_read (\<lambda>s. list_ex (\<lambda>r. rr_org r = org \<and> rr_id r = run) (rc_runs s))) (\<lambda>found.
     tx_bind (tx_require found not_found) (\<lambda>_.
     tx_bind (tx_read (\<lambda>s. take (Suc page_size)
        (filter (\<lambda>r. case cursor of None \<Rightarrow> True | Some c \<Rightarrow> c < dr_id r) (drift_rows org run s)))) (\<lambda>rows.
     let page = take page_size rows in
     tx_return (page, if page_size < length rows \<and> page \<noteq> [] then Some (dr_id (last page)) else None))))"

section \<open>What a run reports\<close>

lemma run_uuid_Inr [simp]:
  "run_uuid s = Inr (i, t) \<longleftrightarrow> i = next_uuid (rc_db s) \<and> t = s\<lparr>rc_db := (rc_db s)\<lparr>next_uuid := Suc i\<rparr>\<rparr>"
  by (auto simp: run_uuid_def fresh_uuid_def)

text \<open>What reconciliation never touches: everything but fresh identifiers and its own reports.\<close>

definition reports_only :: "reconcile_db \<Rightarrow> reconcile_db \<Rightarrow> bool" where
  "reports_only s t \<longleftrightarrow> rc_db t = (rc_db s)\<lparr>next_uuid := next_uuid (rc_db t)\<rparr> \<and>
     next_uuid (rc_db s) \<le> next_uuid (rc_db t) \<and>
     (\<exists>rs. rc_runs t = rc_runs s @ rs) \<and> (\<exists>ds. rc_drift t = rc_drift s @ ds)"

interpretation reports: tx_preorder reports_only
proof
  show "reports_only s s" for s by (simp add: reports_only_def)
next
  fix s t u
  assume st: "reports_only s t" and tu: "reports_only t u"
  then have "rc_db u = (rc_db s)\<lparr>next_uuid := next_uuid (rc_db u)\<rparr>"
    unfolding reports_only_def by (metis db.update_convs(11) db.surjective)
  with st tu show "reports_only s u" by (auto simp: reports_only_def)
qed

lemma insert_drift_Inr:
  assumes "insert_drift org run m s = Inr (u, t)"
  shows "reports_only s t" "rc_runs t = rc_runs s" "rc_alerts t = rc_alerts s"
    "\<exists>d. rc_drift t = rc_drift s @ [d] \<and> dr_org d = org \<and> dr_run d = run \<and> (dr_project d, dr_bucket d) = (fst m, fst (snd m))"
  using assms by (auto simp: insert_drift_def reports_only_def tx_bind_Inr split: prod.splits)

lemma insert_drifts_Inr:
  assumes "tx_each (insert_drift org run) ms s = Inr (us, t)"
  shows "reports_only s t \<and> rc_runs t = rc_runs s \<and> rc_alerts t = rc_alerts s \<and>
    (\<exists>ds. rc_drift t = rc_drift s @ ds \<and> length ds = length ms \<and>
       map (\<lambda>d. (dr_project d, dr_bucket d)) ds = map (\<lambda>m. (fst m, fst (snd m))) ms \<and>
       (\<forall>d\<in>set ds. dr_org d = org \<and> dr_run d = run))"
  using assms
proof (induction ms arbitrary: s us)
  case Nil
  then show ?case by (simp add: reports.R_refl)
next
  case (Cons m ms)
  from Cons.prems obtain u s1 vs where r: "insert_drift org run m s = Inr (u, s1)" "tx_each (insert_drift org run) ms s1 = Inr (vs, t)"
    by (auto simp: tx_bind_Inr)
  note first = insert_drift_Inr [OF r(1)] and rest = Cons.IH [OF r(2)]
  obtain d ds where ds: "rc_drift t = rc_drift s @ (d # ds)" "length ds = length ms" "dr_org d = org" "dr_run d = run"
    "(dr_project d, dr_bucket d) = (fst m, fst (snd m))"
    "map (\<lambda>d. (dr_project d, dr_bucket d)) ds = map (\<lambda>m. (fst m, fst (snd m))) ms" "\<forall>d\<in>set ds. dr_org d = org \<and> dr_run d = run"
    using first(4) rest by auto
  have "reports_only s t" using reports.R_trans [OF first(1)] rest by blast
  then show ?case using first(2,3) rest ds by (intro conjI exI [of _ "d # ds"]) simp_all
qed

lemma reconcile_work_Inr:
  assumes "reconcile_work org run started s = Inr (drift, t)"
  obtains r ds where "drift = snd (snapshot org (rc_db s))" "reports_only s t" "rc_runs t = rc_runs s @ [r]"
    "rr_id r = run" "rr_org r = org" "rr_rows r = length ds" "rr_error r = None"
    "rr_status r = (if drift = [] then RunOk else RunDrift)" "rc_alerts t = rc_alerts s"
    "rc_drift t = rc_drift s @ ds" "map (\<lambda>d. (dr_project d, dr_bucket d)) ds = map (\<lambda>m. (fst m, fst (snd m))) drift"
    "\<forall>d\<in>set ds. dr_org d = org \<and> dr_run d = run"
proof -
  obtain n ms where sn: "snapshot org (rc_db s) = (n, ms)" by (cases "snapshot org (rc_db s)")
  from assms obtain s1 us where r: "drift = ms"
    "record_run org run started n (length ms) (if ms \<noteq> [] then RunDrift else RunOk) None s = Inr ((), s1)"
    "tx_each (insert_drift org run) ms s1 = Inr (us, t)"
    by (auto simp: reconcile_work_def tx_bind_Inr sn)
  note each = insert_drifts_Inr [OF r(3)]
  have s1: "reports_only s s1" "rc_drift s1 = rc_drift s" "rc_alerts s1 = rc_alerts s"
    "rc_runs s1 = rc_runs s @ [\<lparr>rr_id = run, rr_org = org, rr_started = started, rr_finished = clock (rc_db s), rr_checked = n,
       rr_rows = length ms, rr_status = (if ms \<noteq> [] then RunDrift else RunOk), rr_error = None\<rparr>]"
    using r(2) by (auto simp: record_run_def reports_only_def)
  from each obtain ds where "rc_drift t = rc_drift s1 @ ds" "length ds = length ms"
    "map (\<lambda>d. (dr_project d, dr_bucket d)) ds = map (\<lambda>m. (fst m, fst (snd m))) ms" "\<forall>d\<in>set ds. dr_org d = org \<and> dr_run d = run"
    by blast
  moreover have "rc_runs t = rc_runs s @ [last (rc_runs s1)]" using each s1(4) by simp
  ultimately show ?thesis
    using reports.R_trans [OF s1(1)] each s1(1-3) r(1) sn by (intro that [of "last (rc_runs s1)" ds]) (simp_all add: s1(4))
qed

lemma snapshot_mem:
  "(i, k) \<in> (\<lambda>m. (fst m, fst (snd m))) ` set (snd (snapshot org s)) \<longleftrightarrow>
     i \<in> set (project_ids s) \<and> (\<exists>b. balance_at org i s = Some b \<and> bucket_of k b \<noteq> period_total org i None None (entries s) k)"
proof -
  have org: "(i, b) \<in> set (org_balances org s) \<longleftrightarrow> i \<in> set (project_ids s) \<and> balance_at org i s = Some b" for i b
    by (auto simp: org_balances_def List.map_filter_def image_iff split: option.splits)
  have k: "k \<in> set all_buckets" by (cases k) (simp_all add: all_buckets_def)
  have "set (snd (snapshot org s)) = {(i, k, b_currency b, period_total org i None None (entries s) k, bucket_of k b) |i k b.
      (i, b) \<in> set (org_balances org s) \<and> k \<in> set all_buckets \<and> period_total org i None None (entries s) k \<noteq> bucket_of k b}"
    by (auto simp: snapshot_def)
  then show ?thesis using k by (auto simp: org image_iff)
qed

text \<open>
  C15. A reconciliation never changes a balance, an entry or anything else of the business data.  It
  always records exactly one run; unless that run failed, it reports exactly the buckets of the
  organization whose rollup differs from the sum of the ledger, and its status is \<open>ok\<close> just when
  there are none.  A failed run reports nothing.
\<close>

theorem reconcile_reports_exactly:
  shows "case reconcile_org org s of (run, t) \<Rightarrow>
    rc_db t = (rc_db s)\<lparr>next_uuid := next_uuid (rc_db t)\<rparr> \<and>
    (\<exists>r ds. rc_runs t = rc_runs s @ [r] \<and> rr_id r = run \<and> rr_org r = org \<and> rc_drift t = rc_drift s @ ds \<and> rr_rows r = length ds \<and>
      (if rr_status r = RunFailed then ds = [] \<and> rr_error r \<noteq> None
       else (rr_status r = RunOk \<longleftrightarrow> ds = []) \<and> (\<forall>d\<in>set ds. dr_org d = org \<and> dr_run d = run) \<and>
         (\<forall>i k. (\<exists>d\<in>set ds. dr_project d = i \<and> dr_bucket d = k) \<longleftrightarrow>
            i \<in> set (project_ids (rc_db s)) \<and>
            (\<exists>b. balance_at org i (rc_db s) = Some b \<and> bucket_of k b \<noteq> period_total org i None None (entries (rc_db s)) k))))"
proof -
  let ?run = "next_uuid (rc_db s)"
  let ?s0 = "s\<lparr>rc_db := (rc_db s)\<lparr>next_uuid := Suc ?run\<rparr>\<rparr>"
  have s0: "reports_only s ?s0" by (simp add: reports_only_def)
  show ?thesis
  proof (cases "reconcile_work org ?run (clock (rc_db s)) ?s0")
    case (Inl e)
    then show ?thesis by (auto simp: reconcile_org_def Let_def record_run_def tx_update_def)
  next
    case (Inr rt)
    obtain drift t where rt: "rt = (drift, t)" by (cases rt)
    obtain r ds where w: "drift = snd (snapshot org (rc_db ?s0))" "reports_only ?s0 t" "rc_runs t = rc_runs ?s0 @ [r]"
      "rr_id r = ?run" "rr_org r = org" "rr_rows r = length ds" "rr_error r = None"
      "rr_status r = (if drift = [] then RunOk else RunDrift)" "rc_alerts t = rc_alerts ?s0"
      "rc_drift t = rc_drift ?s0 @ ds" "map (\<lambda>d. (dr_project d, dr_bucket d)) ds = map (\<lambda>m. (fst m, fst (snd m))) drift"
      "\<forall>d\<in>set ds. dr_org d = org \<and> dr_run d = ?run"
      by (rule reconcile_work_Inr [OF Inr [unfolded rt]])
    have same: "snapshot org (rc_db ?s0) = snapshot org (rc_db s)"
      by (simp add: snapshot_def org_balances_def balance_at_def)
    have at: "balance_at o' i ((rc_db s)\<lparr>next_uuid := n\<rparr>) = balance_at o' i (rc_db s)" for o' i n
      by (simp add: balance_at_def)
    have "(\<exists>d\<in>set ds. dr_project d = i \<and> dr_bucket d = k) \<longleftrightarrow> (i, k) \<in> (\<lambda>m. (fst m, fst (snd m))) ` set drift" for i k
      using arg_cong [OF w(11), of set] by force
    moreover have "reports_only s t" using reports.R_trans [OF s0 w(2)] .
    moreover have "ds = [] \<longleftrightarrow> drift = []" using arg_cong [OF w(11), of length] by (simp flip: length_0_conv)
    moreover have "rr_status r \<noteq> RunFailed" "rr_status r = RunOk \<longleftrightarrow> drift = []" using w(8) by simp_all
    ultimately show ?thesis
      using w(1,3-6,10,12) by (auto simp: reconcile_org_def Let_def Inr rt same snapshot_mem reports_only_def at)
  qed
qed

text \<open>
  On a ledger whose invariant holds a reconciliation ends with status \<open>ok\<close>, reports no drift
  and raises no alert.
\<close>

theorem reconcile_clean:
  assumes "ledger_ok (rc_db s)"
  shows "case reconcile_org org s of (run, t) \<Rightarrow>
    rc_drift t = rc_drift s \<and> rc_alerts t = rc_alerts s \<and>
    (\<exists>r. rc_runs t = rc_runs s @ [r] \<and> rr_id r = run \<and> rr_status r = RunOk \<and> rr_rows r = 0 \<and> rr_error r = None)"
proof -
  let ?run = "next_uuid (rc_db s)"
  let ?s0 = "s\<lparr>rc_db := (rc_db s)\<lparr>next_uuid := Suc ?run\<rparr>\<rparr>"
  have ok: "ledger_ok (rc_db ?s0)" using assms ledger_ok_cong [of "rc_db ?s0" "rc_db s"] by simp
  have none: "snd (snapshot org (rc_db ?s0)) = []"
  proof -
    have "bucket_of k b = period_total org i None None (entries (rc_db ?s0)) k" if "balance_at org i (rc_db ?s0) = Some b" for i k b
      using period_total_all [OF ok, of i None None org k] that by (simp add: in_bounds_def)
    then have "(i, k) \<notin> (\<lambda>m. (fst m, fst (snd m))) ` set (snd (snapshot org (rc_db ?s0)))" for i k
      by (simp add: snapshot_mem)
    then show ?thesis by (cases "snd (snapshot org (rc_db ?s0))") (auto simp: image_iff)
  qed
  obtain n where "snapshot org (rc_db ?s0) = (n, [])" using none by (cases "snapshot org (rc_db ?s0)") simp
  then show ?thesis
    by (simp add: reconcile_org_def Let_def reconcile_work_def tx_eval record_run_def)
qed

text \<open>The sample organization, and the same with a balance row that drifted by one.\<close>

definition sample_reconcile :: "rat \<Rightarrow> reconcile_db" where
  "sample_reconcile drift = \<lparr>rc_db = sample_funded\<lparr>balances := [100 \<mapsto> sample_balance (100 + drift) 0 0 0]\<rparr>,
     rc_runs = [], rc_drift = [], rc_alerts = []\<rparr>"

theorem reconcile_clean_witness:
  "\<exists>run t. reconcile_org 2 (sample_reconcile 0) = (run, t) \<and> rc_drift t = [] \<and> rc_alerts t = []"
proof -
  have "ledger_ok (rc_db (sample_reconcile 0))"
    using sample_funded_ok ledger_ok_cong [of "rc_db (sample_reconcile 0)" sample_funded]
    by (simp add: sample_reconcile_def sample_funded_def)
  from reconcile_clean [OF this, of 2] show ?thesis
    by (cases "reconcile_org 2 (sample_reconcile 0)") (auto simp: sample_reconcile_def)
qed

lemma sample_drift:
  "case reconcile_org 2 (sample_reconcile 1) of (run, t) \<Rightarrow>
     map (\<lambda>d. (dr_project d, dr_bucket d, dr_difference d)) (rc_drift t) = [(100, BAllocated, 1)] \<and>
     map al_difference (rc_alerts t) = [1]"
  by code_simp

theorem reconcile_reports_exactly_witness:
  "\<exists>run t. reconcile_org 2 (sample_reconcile 1) = (run, t) \<and>
     (\<exists>d\<in>set (rc_drift t). dr_project d = 100 \<and> dr_bucket d = BAllocated \<and> dr_org d = 2 \<and> dr_run d = run)"
proof -
  obtain run t where run: "reconcile_org 2 (sample_reconcile 1) = (run, t)" by fastforce
  have "map (\<lambda>d. (dr_project d, dr_bucket d, dr_difference d)) (rc_drift t) = [(100, BAllocated, 1)]"
    using sample_drift run by simp
  then obtain d where d: "rc_drift t = [d]" "dr_project d = 100" "dr_bucket d = BAllocated" by auto
  from reconcile_reports_exactly [where org = 2 and s = "sample_reconcile 1"]
  have "\<exists>ds. rc_drift t = rc_drift (sample_reconcile 1) @ ds \<and> (\<forall>d\<in>set ds. dr_org d = 2 \<and> dr_run d = run)"
    unfolding run prod.case
    by (elim conjE exE, goal_cases) (intro exI conjI, assumption, simp split: if_splits)
  then obtain ds where ds: "rc_drift t = rc_drift (sample_reconcile 1) @ ds" "\<forall>d\<in>set ds. dr_org d = 2 \<and> dr_run d = run"
    by blast
  have "ds = [d]" using ds(1) d(1) by (simp add: sample_reconcile_def)
  then show ?thesis using ds(2) d run by auto
qed

section \<open>Paging through a report\<close>

definition drift_page :: "uuid \<Rightarrow> uuid \<Rightarrow> reconcile_db \<Rightarrow> nat \<Rightarrow> uuid option \<Rightarrow> (drift_row list \<times> uuid option) option" where
  "drift_page org run s n cursor =
     (case reconciliation_drift org run cursor n s of Inr (r, _) \<Rightarrow> Some r | Inl _ \<Rightarrow> None)"

definition report_readable :: "uuid \<Rightarrow> uuid \<Rightarrow> reconcile_db \<Rightarrow> bool" where
  "report_readable org run s \<longleftrightarrow> distinct (map dr_id (rc_drift s)) \<and> (\<exists>r\<in>set (rc_runs s). rr_org r = org \<and> rr_id r = run)"

interpretation drift_pages: pager "drift_page org run" dr_id "drift_rows org run" "report_readable org run" "\<lambda>n. 0 < n" for org run
proof
  fix s
  assume "report_readable org run s"
  then have "distinct (map dr_id (drift_rows org run s))" "sorted (map dr_id (drift_rows org run s))"
    by (auto simp: report_readable_def drift_rows_def distinct_map inj_on_def)
  then have "sorted_wrt (<) (map dr_id (drift_rows org run s))" using strict_sorted_iff by blast
  then show "sorted_wrt (\<lambda>x y. dr_id x < dr_id y) (drift_rows org run s)" by (simp add: sorted_wrt_map)
next
  fix s n cursor
  assume "report_readable org run s"
  then have "list_ex (\<lambda>r. rr_org r = org \<and> rr_id r = run) (rc_runs s)" by (auto simp: report_readable_def list_ex_iff)
  then show "drift_page org run s n cursor = Some (keyset_page dr_id (drift_rows org run s) n cursor)"
    by (simp add: drift_page_def reconciliation_drift_def tx_eval Let_def keyset_page_Suc)
qed simp

lemma drift_pages_complete:
  "report_readable org run s \<Longrightarrow> 0 < n \<Longrightarrow>
     follow (Suc (length (drift_rows org run s))) (drift_page org run s n) None = Some (drift_rows org run s)"
  by (rule drift_pages.follow_all)

end
