(* ===== verification/AccessLaws.thy ===== *)
theory AccessLaws
  imports Access
begin

text \<open>
  What access control guarantees: the recursive resolution allows exactly what a grant at a containing
  scope allows, holders are the users whose check succeeds, organizations do not affect each other, and
  the global count behind the second-factor gate is the number of privileged grants.
\<close>

section \<open>Containment, declaratively\<close>

text \<open>
  A scope is inside its ancestors; a grant at a project reaches the scopes below it as long as every
  project edge in between rolls down.
\<close>

inductive inside :: "scope_row list \<Rightarrow> uuid \<Rightarrow> scope_kind \<Rightarrow> uuid \<Rightarrow> scope_kind \<Rightarrow> uuid \<Rightarrow> bool" for rows org k i where
  inside_here: "inside rows org k i k i"
| inside_up: "inside rows org k i m j \<Longrightarrow> scope_at org m j rows = Some h \<Longrightarrow> inside rows org k i (sc_parent_kind h) (sc_parent h)"

inductive rolls :: "scope_row list \<Rightarrow> uuid \<Rightarrow> scope_kind \<Rightarrow> uuid \<Rightarrow> scope_kind \<Rightarrow> uuid \<Rightarrow> bool" for rows org k i where
  rolls_here: "rolls rows org k i k i"
| rolls_up: "rolls rows org k i m j \<Longrightarrow> scope_at org m j rows = Some h \<Longrightarrow> (sc_parent_kind h = ScopeProject \<longrightarrow> sc_roll_down h) \<Longrightarrow>
    rolls rows org k i (sc_parent_kind h) (sc_parent h)"

definition granted :: "uuid \<Rightarrow> uuid \<Rightarrow> target \<Rightarrow> grant_row \<Rightarrow> db \<Rightarrow> bool" where
  "granted org user g a s \<longleftrightarrow> a \<in> set (user_roles s) \<and> gr_org a = org \<and> gr_user a = user \<and> effective (clock s) a \<and> \<not> foreign org g \<and>
     (gr_kind a = ScopeOrg \<and> gr_scope a = org \<or>
      inside (scopes s) org (tg_kind g) (tg_scope g) (gr_kind a) (gr_scope a) \<and>
        (gr_kind a = ScopeProject \<longrightarrow> rolls (scopes s) org (tg_kind g) (tg_scope g) ScopeProject (gr_scope a)))"

definition may :: "uuid \<Rightarrow> uuid \<Rightarrow> string \<Rightarrow> target \<Rightarrow> db \<Rightarrow> bool" where
  "may org user p g s \<longleftrightarrow> (\<exists>a. granted org user g a s \<and> (org, gr_role a, p) \<in> set (role_permissions s))"

section \<open>The recursive query\<close>

inductive climbs :: "scope_row list \<Rightarrow> uuid \<Rightarrow> reach \<Rightarrow> reach \<Rightarrow> bool" for rows org r where
  climbs_here: "climbs rows org r r"
| climbs_up: "climbs rows org r q \<Longrightarrow> parent_scope rows org q = Some x \<Longrightarrow> climbs rows org r x"

lemma climbs_start: "parent_scope rows org r = Some x \<Longrightarrow> climbs rows org x q \<Longrightarrow> climbs rows org r q"
  by (rotate_tac, induction rule: climbs.induct) (auto intro: climbs.intros)

lemma climbs_cases: "climbs rows org r q \<Longrightarrow> q = r \<or> (\<exists>x. parent_scope rows org r = Some x \<and> climbs rows org x q)"
  by (induction rule: climbs.induct) (auto intro: climbs.intros)

text \<open>A seen row has its parent seen, unless it is the row the walk came from.\<close>

definition closed :: "scope_row list \<Rightarrow> uuid \<Rightarrow> reach list \<Rightarrow> reach \<Rightarrow> bool" where
  "closed rows org seen r \<longleftrightarrow> (\<forall>q\<in>set seen. \<forall>x. parent_scope rows org q = Some x \<longrightarrow> x \<in> set seen \<or> x = r)"

lemma closed_climbs:
  assumes "\<forall>q\<in>set seen. \<forall>x. parent_scope rows org q = Some x \<longrightarrow> x \<in> set seen" "r \<in> set seen" "climbs rows org r q"
  shows "q \<in> set seen"
  using assms(3) by (induction rule: climbs.induct) (use assms(1,2) in blast)+

lemma containing_seen: "r \<in> set seen \<Longrightarrow> containing rows org seen r = seen"
  by (subst containing.simps) simp

lemma containing_top: "r \<notin> set seen \<Longrightarrow> parent_scope rows org r = None \<Longrightarrow> containing rows org seen r = seen @ [r]"
  by (subst containing.simps) simp

lemma containing_next:
  "r \<notin> set seen \<Longrightarrow> parent_scope rows org r = Some x \<Longrightarrow> containing rows org seen r = containing rows org (seen @ [r]) x"
  by (subst containing.simps) simp

lemma containing_climbs:
  "closed rows org seen r \<Longrightarrow> set (containing rows org seen r) = set seen \<union> {q. climbs rows org r q}"
proof (induction rows org seen r rule: containing.induct)
  case (1 rows org seen r)
  show ?case
  proof (cases "r \<in> set seen")
    case True
    then have "\<forall>q\<in>set seen. \<forall>x. parent_scope rows org q = Some x \<longrightarrow> x \<in> set seen" using 1(2) by (auto simp: closed_def)
    then have "{q. climbs rows org r q} \<subseteq> set seen" using closed_climbs [OF _ True] by blast
    then show ?thesis using True by (simp add: containing_seen Un_absorb2)
  next
    case False
    show ?thesis
    proof (cases "parent_scope rows org r")
      case None
      then have "{q. climbs rows org r q} = {r}" using climbs_cases [of rows org r] by (auto intro: climbs_here)
      then show ?thesis using False None by (simp add: containing_top)
    next
      case (Some x)
      have "closed rows org (seen @ [r]) x" using 1(2) Some by (auto simp: closed_def)
      from 1(1) [OF False Some this]
      have "set (containing rows org seen r) = set seen \<union> insert r {q. climbs rows org x q}"
        using False Some by (auto simp: containing_next)
      moreover have "insert r {q. climbs rows org x q} = {q. climbs rows org r q}"
        using climbs_cases [of rows org r] climbs_start [OF Some] Some by (auto intro: climbs_here)
      ultimately show ?thesis by simp
    qed
  qed
qed

lemma containing_set: "set (containing rows org [] r) = {q. climbs rows org r q}"
  using containing_climbs [of rows org "[]" r] by (simp add: closed_def)

lemma climbs_inside: "climbs rows org (k, i, True) (m, j, b) \<Longrightarrow> inside rows org k i m j \<and> (b \<longrightarrow> rolls rows org k i m j)"
proof (induction "(m, j, b)" arbitrary: m j b rule: climbs.induct)
  case climbs_here
  then show ?case by (auto intro: inside_here rolls_here)
next
  case (climbs_up q)
  obtain n l c where q: "q = (n, l, c)" by (cases q)
  with climbs_up(3) obtain h where h: "scope_at org n l rows = Some h" "m = sc_parent_kind h" "j = sc_parent h"
    "b = (if sc_parent_kind h = ScopeProject then c \<and> sc_roll_down h else c)"
    by (auto simp: parent_scope_def)
  from climbs_up(2) [OF q] have "inside rows org k i n l" "c \<longrightarrow> rolls rows org k i n l" by simp_all
  then show ?case
    unfolding h(2-4) using inside_up [OF _ h(1), of k i] rolls_up [OF _ h(1), of k i] by (auto split: if_splits)
qed

lemma inside_climbs: "inside rows org k i m j \<Longrightarrow> \<exists>b. climbs rows org (k, i, True) (m, j, b)"
proof (induction rule: inside.induct)
  case (inside_up m j h)
  then obtain b where "climbs rows org (k, i, True) (m, j, b)" by blast
  from climbs.climbs_up [OF this] inside_up(2) show ?case by (auto simp: parent_scope_def)
qed (auto intro: climbs_here)

lemma rolls_climbs: "rolls rows org k i m j \<Longrightarrow> climbs rows org (k, i, True) (m, j, True)"
proof (induction rule: rolls.induct)
  case (rolls_up m j h)
  then have "parent_scope rows org (m, j, True) = Some (sc_parent_kind h, sc_parent h, True)" by (auto simp: parent_scope_def)
  with climbs.climbs_up rolls_up.IH show ?case by blast
qed (rule climbs_here)

lemma covers_containing:
  "covers (containing rows org [] (k, i, True)) m j \<longleftrightarrow>
     inside rows org k i m j \<and> (m = ScopeProject \<longrightarrow> rolls rows org k i m j)"
proof
  assume "covers (containing rows org [] (k, i, True)) m j"
  then obtain b where "climbs rows org (k, i, True) (m, j, b)" "m = ScopeProject \<longrightarrow> b"
    by (auto simp: covers_def list_ex_iff containing_set)
  then show "inside rows org k i m j \<and> (m = ScopeProject \<longrightarrow> rolls rows org k i m j)" using climbs_inside by blast
next
  assume r: "inside rows org k i m j \<and> (m = ScopeProject \<longrightarrow> rolls rows org k i m j)"
  then have "\<exists>b. climbs rows org (k, i, True) (m, j, b) \<and> (m = ScopeProject \<longrightarrow> b)"
    using inside_climbs [of rows org k i m j] rolls_climbs [of rows org k i m j] by blast
  then show "covers (containing rows org [] (k, i, True)) m j"
    by (auto simp: covers_def list_ex_iff containing_set)
qed

lemma eligible_granted:
  "\<not> foreign org g \<Longrightarrow> a \<in> set (eligible_grants org user g s) \<longleftrightarrow>
     granted org (gr_user a) g a s \<and> (user = None \<or> user = Some (gr_user a))"
  by (auto simp: eligible_grants_def Let_def granted_def covers_containing)

lemma granted_user: "granted org user g a s \<Longrightarrow> gr_user a = user"
  by (simp add: granted_def)

lemma check_access_rule:
  assumes "permission_code p = Inr p"
  shows "\<exists>d. check_access org user p g s = Inr (d, s) \<and> dc_user d = user \<and> dc_permission d = p \<and>
    (dc_allowed d \<longleftrightarrow> may org user p g s) \<and> (dc_matched d \<longleftrightarrow> (\<exists>a. granted org user g a s))"
proof (cases "foreign org g")
  case True
  then show ?thesis using assms by (auto simp: check_access_def tx_eval Let_def may_def granted_def)
next
  case False
  let ?E = "eligible_grants org (Some user) g s"
  have "a \<in> set ?E \<longleftrightarrow> granted org user g a s" for a
    using eligible_granted [OF False, of a "Some user" s] granted_user [of org user g a s] by auto
  then have "?E \<noteq> [] \<longleftrightarrow> (\<exists>a. granted org user g a s)"
    "list_ex (\<lambda>a. (org, gr_role a, p) \<in> set (role_permissions s)) ?E \<longleftrightarrow> may org user p g s"
    by (auto simp: may_def list_ex_iff) (metis list.set_intros(1) neq_Nil_conv)
  then show ?thesis using assms False by (simp add: check_access_def tx_eval Let_def)
qed

text \<open>
  C27. A check answers exactly what the grants say: the user is allowed when one of the user's effective
  grants, at the organization, at a scope the target is inside of, or at a project from which every edge
  down to the target rolls down, is of a role with the permission; and the scope matches when there is
  such a grant of any role.  It changes nothing.
\<close>

theorem check_access_exact:
  assumes "permission_code p = Inr p"
  shows "\<exists>d. check_access org user p g s = Inr (d, s) \<and> dc_user d = user \<and> dc_permission d = p \<and>
    (dc_allowed d \<longleftrightarrow> may org user p g s) \<and> (dc_matched d \<longleftrightarrow> (\<exists>a. granted org user g a s))"
  using assms by (rule check_access_rule)

section \<open>The tables in order\<close>

definition privileged :: "uuid \<Rightarrow> grant_row \<Rightarrow> db \<Rightarrow> bool" where
  "privileged user a s \<longleftrightarrow> gr_user a = user \<and>
     (case role_at (gr_org a) (gr_role a) s of None \<Rightarrow> False | Some r \<Rightarrow> ro_code r \<in> set mfa_required_role_codes)"

definition privileged_grants :: "uuid \<Rightarrow> db \<Rightarrow> nat" where
  "privileged_grants user s = length (filter (\<lambda>a. privileged user a s) (user_roles s))"

definition access_ok :: "db \<Rightarrow> bool" where
  "access_ok s \<longleftrightarrow> distinct (map gr_id (user_roles s)) \<and>
     (\<forall>a\<in>set (user_roles s). gr_id a < next_uuid s \<and> identity_at (gr_user a) s \<noteq> None \<and> role_at (gr_org a) (gr_role a) s \<noteq> None) \<and>
     (\<forall>user r. identity_at user s = Some r \<longrightarrow> idn_privileged r = int (privileged_grants user s))"

text \<open>What the other components do leaves these tables alone, and identities are new without grants.\<close>

definition same_access :: "db \<Rightarrow> db \<Rightarrow> bool" where
  "same_access s t \<longleftrightarrow> user_roles t = user_roles s \<and> role_rows t = role_rows s \<and> identities t = identities s \<and>
     next_uuid s \<le> next_uuid t"

inductive access_step :: "db \<Rightarrow> db \<Rightarrow> bool" where
  step_create_role: "create_role org actor code name system s = Inr (r, t) \<Longrightarrow> access_step s t"
| step_grant_permission: "grant_permission org actor i p s = Inr (b, t) \<Longrightarrow> access_step s t"
| step_revoke_permission: "revoke_permission org actor i p s = Inr (b, t) \<Longrightarrow> access_step s t"
| step_register_scope: "register_scope org k i pk p rd s = Inr (b, t) \<Longrightarrow> access_step s t"
| step_grant_role: "grant_role org actor user role g from_ts s = Inr (a, t) \<Longrightarrow> access_step s t"
| step_end_grant: "end_grant org actor user i s = Inr (b, t) \<Longrightarrow> access_step s t"
| step_deactivate: "deactivate_user org actor user s = Inr (b, t) \<Longrightarrow> access_step s t"
| step_new_identity: "identity_at (idn_id r) s = None \<Longrightarrow> idn_privileged r = 0 \<Longrightarrow> access_step s (s\<lparr>identities := identities s @ [r]\<rparr>)"
| step_elsewhere: "same_access s t \<Longrightarrow> access_step s t"

inductive access_reachable :: "db \<Rightarrow> bool" where
  access_start: "user_roles s = [] \<Longrightarrow> \<forall>r\<in>set (identities s). idn_privileged r = 0 \<Longrightarrow> access_reachable s"
| access_next: "access_reachable s \<Longrightarrow> access_step s t \<Longrightarrow> access_reachable t"

lemma same_access_ok: "same_access s t \<Longrightarrow> access_ok s \<Longrightarrow> access_ok t"
  by (auto simp: same_access_def access_ok_def identity_at_def role_at_def privileged_grants_def privileged_def
      intro: less_le_trans)

lemma role_audit_only: "role_audit org actor action tt i s = Inr (u, t) \<Longrightarrow> \<exists>rows. t = s\<lparr>audits := rows\<rparr>"
  by (auto simp: role_audit_def tx_bind_Inr audit_write_Inr)

lemma same_accessI [intro]:
  "\<exists>rows. t = s\<lparr>audits := rows\<rparr> \<Longrightarrow> same_access s t" "\<exists>rows. t = s\<lparr>scopes := rows\<rparr> \<Longrightarrow> same_access s t"
  "\<exists>rows. t = s\<lparr>role_permissions := rows\<rparr> \<Longrightarrow> same_access s t"
  by (auto simp: same_access_def)

lemma same_access_trans [trans]: "same_access s t \<Longrightarrow> same_access t u \<Longrightarrow> same_access s u"
  by (simp add: same_access_def)

lemma same_access_refl [simp]: "same_access s s"
  by (simp add: same_access_def)

text \<open>New roles: those the grants refer to are found as before.\<close>

lemma insert_role_ok:
  assumes "access_ok s" "insert_role org code name system s = Inr (r, t)"
  shows "access_ok t"
proof -
  let ?s = "s\<lparr>next_uuid := Suc (next_uuid s)\<rparr>"
  have ok: "access_ok ?s" using same_access_ok [OF _ assms(1), of ?s] by (simp add: same_access_def)
  show ?thesis
  proof (cases "find (\<lambda>r. ro_org r = org \<and> ro_code r = code) (role_rows s)")
    case (Some x)
    then have "t = ?s" using assms(2) by (auto simp: insert_role_def tx_bind_Inr fresh_uuid_Inr)
    then show ?thesis using ok by simp
  next
    case None
    then obtain x where t: "t = ?s\<lparr>role_rows := role_rows s @ [x]\<rparr>"
      using assms(2) by (auto simp: insert_role_def tx_bind_Inr fresh_uuid_Inr Let_def)
    have "role_at (gr_org a) (gr_role a) t = role_at (gr_org a) (gr_role a) s" if "a \<in> set (user_roles s)" for a
      using that assms(1) by (auto simp: t role_at_def find_snoc access_ok_def split: option.splits)
    moreover from this have "privileged user a t = privileged user a s" if "a \<in> set (user_roles s)" for user a
      using that by (simp add: privileged_def)
    then have "privileged_grants user t = privileged_grants user s" for user
      by (simp add: privileged_grants_def t cong: filter_cong)
    ultimately show ?thesis using assms(1) by (auto simp: access_ok_def t identity_at_def less_Suc_eq)
  qed
qed

lemma find_map_same: "(\<And>x. P (f x) = P x) \<Longrightarrow> find P (map f xs) = map_option f (find P xs)"
  by (induction xs) auto

text \<open>The count goes with the grants.\<close>

definition counted :: "string \<Rightarrow> int" where
  "counted code = (if code \<in> set mfa_required_role_codes then 1 else 0)"

lemma privileged_count:
  assumes "role_at (gr_org a) (gr_role a) s = Some r" "gr_user a = user"
  shows "privileged user a s \<longleftrightarrow> ro_code r \<in> set mfa_required_role_codes" "privileged v a s \<Longrightarrow> v = user"
  using assms by (auto simp: privileged_def)

definition adjusted :: "uuid \<Rightarrow> int \<Rightarrow> identity_row \<Rightarrow> identity_row" where
  "adjusted user n r = (if idn_id r = user then r\<lparr>idn_privileged := idn_privileged r + n\<rparr> else r)"

lemma adjusted_id [simp]: "idn_id (adjusted user n r) = idn_id r"
  by (simp add: adjusted_def)

lemma adjusted_none [simp]: "map (adjusted user 0) rs = rs"
  by (rule map_idI) (simp add: adjusted_def)

lemma identity_at_adjusted:
  "identity_at v (s\<lparr>identities := map (adjusted user n) (identities s)\<rparr>) = map_option (adjusted user n) (identity_at v s)"
  by (simp add: identity_at_def find_map_same)

lemma identity_at_id: "identity_at v s = Some r \<Longrightarrow> idn_id r = v"
  by (auto simp: identity_at_def find_Some_iff)

lemma adjust_privileged_Inr:
  assumes "(if code \<in> set mfa_required_role_codes then adjust_privileged user n else tx_return ()) s = Inr (u, t)"
  shows "t = s\<lparr>identities := map (adjusted user (n * counted code)) (identities s)\<rparr>"
  using assms by (auto simp: counted_def adjust_privileged_def tx_bind_Inr adjusted_def [abs_def] split: if_splits cong: if_cong)

lemma insert_grant_Inr:
  assumes "insert_grant org user role g by_id from_ts s = Inr ((a, created, code), t)"
  obtains "\<not> created" "t = s\<lparr>next_uuid := Suc (next_uuid s)\<rparr>"
  | r where "created" "role_at org role s = Some r" "code = ro_code r" "gr_org a = org" "gr_role a = role" "gr_user a = user"
    "gr_id a = next_uuid s" "identity_at user s \<noteq> None"
    "t = s\<lparr>next_uuid := Suc (next_uuid s), user_roles := user_roles s @ [a]\<rparr>"
proof -
  let ?a = "\<lparr>gr_id = next_uuid s, gr_org = org, gr_user = user, gr_role = role, gr_kind = tg_kind g, gr_scope = tg_scope g,
    gr_by = Some by_id, gr_at = clock s, gr_from = from_ts\<rparr>"
  let ?u = "s\<lparr>next_uuid := Suc (next_uuid s)\<rparr>"
  have [simp]: "identity_at v ?u = identity_at v s" for v by (simp add: identity_at_def)
  show thesis
  proof (cases "role_at org role s")
    case None
    then show thesis using assms by (simp add: insert_grant_def tx_bind_Inr)
  next
    case (Some r)
    show thesis
    proof (cases "find (same_grant ?a) (user_roles s)")
      case None
      then have "created" "a = ?a" "code = ro_code r" "identity_at user s \<noteq> None" "t = ?u\<lparr>user_roles := user_roles s @ [?a]\<rparr>"
        using assms Some by (auto simp: insert_grant_def tx_bind_Inr Let_def fresh_uuid_Inr)
      then show thesis using that(2) [OF _ Some] by simp
    next
      case (Some x)
      then show thesis using assms that(1) by (auto simp: insert_grant_def tx_bind_Inr Let_def fresh_uuid_Inr)
    qed
  qed
qed

lemma grant_role_ok:
  assumes ok: "access_ok s" and run: "grant_role org actor user role g from_ts s = Inr (x, t)"
  shows "access_ok t"
proof -
  from run obtain a created code s1 where ins: "insert_grant org user role g actor from_ts s = Inr ((a, created, code), s1)"
    by (auto simp: grant_role_def tx_bind_Inr)
  show ?thesis
  proof (rule insert_grant_Inr [OF ins])
    assume "\<not> created" "s1 = s\<lparr>next_uuid := Suc (next_uuid s)\<rparr>"
    then show ?thesis using run ins same_access_ok [OF _ ok, of s1] by (auto simp: grant_role_def tx_bind_Inr same_access_def)
  next
    fix r
    assume c: "created" "role_at org role s = Some r" "code = ro_code r" "gr_org a = org" "gr_role a = role" "gr_user a = user"
      "gr_id a = next_uuid s" "identity_at user s \<noteq> None"
      "s1 = s\<lparr>next_uuid := Suc (next_uuid s), user_roles := user_roles s @ [a]\<rparr>"
    from run ins c(1) obtain s2 u v where s2: "(if code \<in> set mfa_required_role_codes then adjust_privileged user 1 else tx_return ()) s1 = Inr (u, s2)"
      and "role_audit org actor ''user_role.grant'' ''user_role'' (gr_id a) s2 = Inr (v, t)"
      by (auto simp: grant_role_def tx_bind_Inr)
    then have "same_access s2 t" using role_audit_only by blast
    moreover have "access_ok s2"
    proof -
      have eq: "s2 = s1\<lparr>identities := map (adjusted user (counted code)) (identities s1)\<rparr>"
        using adjust_privileged_Inr [OF s2] by simp
      have roles [simp]: "role_at q k s2 = role_at q k s" for q k by (simp add: eq role_at_def c(9))
      have priv: "privileged v b s2 = privileged v b s" for v b by (simp add: privileged_def)
      have ids: "identity_at v s2 = map_option (adjusted user (counted code)) (identity_at v s)" for v
        using identity_at_adjusted [where v = v and s = s1 and user = user and n = "counted code"] by (simp add: eq c(9) identity_at_def)
      have grants: "user_roles s2 = user_roles s @ [a]" "next_uuid s2 = Suc (next_uuid s)" by (simp_all add: eq c(9))
      have count: "int (privileged_grants v s2) = int (privileged_grants v s) + (if v = user then counted code else 0)" for v
        using c(2-6) by (auto simp: privileged_grants_def priv grants counted_def privileged_def)
      have "idn_privileged r = int (privileged_grants v s2)" if "identity_at v s2 = Some r" for v r
        using that ok identity_at_id [of v s] by (auto simp: ids count access_ok_def adjusted_def)
      moreover have "distinct (map gr_id (user_roles s2))" using ok by (auto simp: c(7) grants access_ok_def)
      moreover have "\<forall>b\<in>set (user_roles s2). gr_id b < next_uuid s2 \<and> identity_at (gr_user b) s2 \<noteq> None \<and> role_at (gr_org b) (gr_role b) s2 \<noteq> None"
        using ok c(2,4-8) unfolding ids roles grants by (auto simp: access_ok_def less_Suc_eq)
      ultimately show ?thesis by (simp add: access_ok_def)
    qed
    ultimately show ?thesis by (rule same_access_ok)
  qed
qed

text \<open>A grant taken away leaves the others, and its user's count is at least one when it was privileged.\<close>

lemma delete_grant_Inr:
  assumes "delete_grant org user i s = Inr (row, t)"
  shows "(row = None \<and> t = s) \<or> (\<exists>a r. row = Some (a, ro_code r) \<and> a \<in> set (user_roles s) \<and> gr_id a = i \<and> gr_org a = org \<and>
    role_at (gr_org a) (gr_role a) s = Some r \<and> t = s\<lparr>user_roles := filter (\<lambda>x. gr_id x \<noteq> i) (user_roles s)\<rparr>)"
proof -
  let ?f = "find (\<lambda>a. gr_org a = org \<and> gr_id a = i \<and> (user = None \<or> user = Some (gr_user a)) \<and> role_at org (gr_role a) s \<noteq> None) (user_roles s)"
  have [simp]: "role_at q k (s\<lparr>user_roles := us\<rparr>) = role_at q k s" for q k us by (simp add: role_at_def)
  show ?thesis
  proof (cases ?f)
    case None
    then show ?thesis using assms by (simp add: delete_grant_def tx_bind_Inr)
  next
    case (Some a)
    from find_Some_iff_mem [OF this] obtain r where "a \<in> set (user_roles s)" "gr_org a = org" "gr_id a = i" "role_at org (gr_role a) s = Some r"
      by auto
    then show ?thesis using Some assms by (auto simp: delete_grant_def tx_bind_Inr)
  qed
qed

lemma delete_grant_total: "\<exists>row t. delete_grant org user i s = Inr (row, t)"
proof (cases "find (\<lambda>a. gr_org a = org \<and> gr_id a = i \<and> (user = None \<or> user = Some (gr_user a)) \<and>
    role_at org (gr_role a) s \<noteq> None) (user_roles s)")
qed (auto simp: delete_grant_def tx_eval)

lemma count_without:
  assumes "distinct (map gr_id xs)" "a \<in> set xs"
  shows "int (length (filter P (filter (\<lambda>x. gr_id x \<noteq> gr_id a) xs))) = int (length (filter P xs)) - (if P a then 1 else 0)"
  using assms
proof (induction xs)
  case (Cons x xs)
  show ?case
  proof (cases "x = a")
    case True
    then have "filter (\<lambda>y. gr_id y \<noteq> gr_id a) xs = xs" using Cons.prems(1) by (auto simp: filter_id_conv image_iff)
    then show ?thesis using True by simp
  next
    case False
    then have "gr_id x \<noteq> gr_id a" using Cons.prems by force
    then show ?thesis using Cons False by (auto split: if_splits)
  qed
qed simp

lemma deleted_grant:
  assumes ok: "access_ok s" and a: "a \<in> set (user_roles s)" "role_at (gr_org a) (gr_role a) s = Some r"
    and s1: "s1 = s\<lparr>user_roles := filter (\<lambda>x. gr_id x \<noteq> gr_id a) (user_roles s)\<rparr>"
  shows "int (privileged_grants v s1) = int (privileged_grants v s) - (if v = gr_user a then counted (ro_code r) else 0)"
    and "identity_at (gr_user a) s1 = identity_at (gr_user a) s"
    and "access_ok (s1\<lparr>identities := map (adjusted (gr_user a) (- counted (ro_code r))) (identities s)\<rparr>)"
proof -
  have roles [simp]: "role_at q k (s1\<lparr>identities := is\<rparr>) = role_at q k s" for q k "is" by (simp add: role_at_def s1)
  have priv: "privileged v b s1 = privileged v b s" "privileged v b (s1\<lparr>identities := is\<rparr>) = privileged v b s" for v b "is"
    by (simp_all add: privileged_def s1 role_at_def)
  show count: "int (privileged_grants v s1) = int (privileged_grants v s) - (if v = gr_user a then counted (ro_code r) else 0)" for v
  proof -
    have "int (privileged_grants v s1) = int (length (filter (\<lambda>b. privileged v b s) (filter (\<lambda>x. gr_id x \<noteq> gr_id a) (user_roles s))))"
      by (simp only: privileged_grants_def priv) (simp add: s1)
    also have "\<dots> = int (privileged_grants v s) - (if privileged v a s then 1 else 0)"
      using count_without [OF _ a(1)] ok by (simp only: access_ok_def privileged_grants_def)
    finally show ?thesis using a(2) by (auto simp: privileged_def counted_def)
  qed
  show "identity_at (gr_user a) s1 = identity_at (gr_user a) s" by (simp add: identity_at_def s1)
  let ?t = "s1\<lparr>identities := map (adjusted (gr_user a) (- counted (ro_code r))) (identities s)\<rparr>"
  have ids: "identity_at v ?t = map_option (adjusted (gr_user a) (- counted (ro_code r))) (identity_at v s)" for v
    using identity_at_adjusted [where v = v and s = s1 and user = "gr_user a" and n = "- counted (ro_code r)"] by (simp add: s1 identity_at_def)
  have "privileged_grants v ?t = privileged_grants v s1" for v by (simp add: privileged_grants_def priv)
  with count have count': "int (privileged_grants v ?t) = int (privileged_grants v s) - (if v = gr_user a then counted (ro_code r) else 0)" for v
    by simp
  have "idn_privileged q = int (privileged_grants v ?t)" if "identity_at v ?t = Some q" for v q
    using that ok identity_at_id [of v s] unfolding ids count' by (auto simp: access_ok_def adjusted_def)
  moreover have "distinct (map gr_id (user_roles ?t))" using ok by (auto simp: s1 access_ok_def distinct_map_filter)
  moreover have "\<forall>b\<in>set (user_roles ?t). gr_id b < next_uuid ?t \<and> identity_at (gr_user b) ?t \<noteq> None \<and> role_at (gr_org b) (gr_role b) ?t \<noteq> None"
    using ok unfolding ids roles by (auto simp: s1 access_ok_def)
  ultimately show "access_ok ?t" unfolding access_ok_def by blast
qed

lemma end_grant_ok:
  assumes ok: "access_ok s" and run: "end_grant org actor user i s = Inr (b, t)"
  shows "access_ok t"
proof -
  from run obtain row s1 where del: "delete_grant org user i s = Inr (row, s1)" by (auto simp: end_grant_def tx_bind_Inr)
  from delete_grant_Inr [OF del] show ?thesis
  proof (elim disjE exE conjE)
    assume "row = None" "s1 = s"
    then show ?thesis using run del ok by (auto simp: end_grant_def tx_bind_Inr)
  next
    fix a r
    assume a: "row = Some (a, ro_code r)" "a \<in> set (user_roles s)" "gr_id a = i" "gr_org a = org" "role_at (gr_org a) (gr_role a) s = Some r"
      "s1 = s\<lparr>user_roles := filter (\<lambda>x. gr_id x \<noteq> i) (user_roles s)\<rparr>"
    from run del a(1) obtain u v s2 where
      s2: "(if ro_code r \<in> set mfa_required_role_codes then adjust_privileged (gr_user a) (- 1) else tx_return ()) s1 = Inr (u, s2)"
      and "role_audit org actor ''user_role.revoke'' ''user_role'' (gr_id a) s2 = Inr (v, t)"
      by (auto simp: end_grant_def tx_bind_Inr)
    then have "same_access s2 t" using role_audit_only by blast
    moreover have "access_ok s2"
      using deleted_grant(3) [OF ok a(2,5), of s1] a(6) adjust_privileged_Inr [OF s2] by (simp add: a(3))
    ultimately show ?thesis by (rule same_access_ok)
  qed
qed

lemma deactivate_ok:
  assumes "access_ok s" "deactivate_user org actor user s = Inr (b, t)"
  shows "access_ok t"
proof -
  have find: "identity_at v (x\<lparr>identities := map (\<lambda>r. if P r then r\<lparr>idn_active := False, idn_deactivated := d\<rparr> else r) (identities x)\<rparr>) =
      map_option (\<lambda>r. if P r then r\<lparr>idn_active := False, idn_deactivated := d\<rparr> else r) (identity_at v x)" for v x P d
    by (auto simp: identity_at_def intro!: find_map_same)
  from assms(2) consider "t = s"
    | rs as where "t = s\<lparr>identities := map (\<lambda>r. if idn_id r = user \<and> idn_active r then r\<lparr>idn_active := False, idn_deactivated := Some (clock s)\<rparr> else r)
        (identities s), sessions := rs, audits := as\<rparr>"
    by (auto simp: deactivate_user_def tx_bind_Inr user_exists_def revoke_all_sessions_def role_audit_def audit_write_Inr split: if_splits)
  then show ?thesis
  proof cases
    case 2
    let ?u = "s\<lparr>identities := map (\<lambda>r. if idn_id r = user \<and> idn_active r then r\<lparr>idn_active := False, idn_deactivated := Some (clock s)\<rparr> else r) (identities s)\<rparr>"
    have "privileged_grants v ?u = privileged_grants v s" for v
      by (simp add: privileged_grants_def privileged_def role_at_def)
    then have "access_ok ?u" using assms(1) by (auto simp: access_ok_def find role_at_def split: if_splits)
    moreover have "same_access ?u t" by (simp add: 2 same_access_def)
    ultimately show ?thesis using same_access_ok by blast
  qed (use assms(1) in simp)
qed

lemma access_step_ok: "access_step s t \<Longrightarrow> access_ok s \<Longrightarrow> access_ok t"
proof (induction rule: access_step.induct)
  case (step_create_role org actor code name system s r t)
  then obtain r1 c s1 where "insert_role org code (strip name) system s = Inr ((r1, c), s1)"
    "(if c then role_audit org actor ''role.create'' ''role'' (ro_id r1) else tx_return ()) s1 = Inr ((), t)"
    by (auto simp: create_role_def tx_bind_Inr role_code_def Let_def split: if_splits)
  moreover from this(2) have "same_access s1 t" by (auto split: if_splits dest: role_audit_only)
  ultimately show ?case using insert_role_ok same_access_ok step_create_role(2) by blast
next
  case (step_grant_permission org actor i p s b t)
  then obtain c s1 where s1: "attach_permission org i p s = Inr (c, s1)"
    "(if c then role_audit org actor ''role.permission.grant'' ''role'' i else tx_return ()) s1 = Inr ((), t)"
    by (auto simp: grant_permission_def tx_bind_Inr permission_code_def Let_def split: if_splits)
  have "same_access s s1" using s1(1) by (auto simp: attach_permission_def tx_bind_Inr same_access_def split: if_splits)
  also have "same_access s1 t" using s1(2) by (auto split: if_splits dest: role_audit_only)
  finally show ?case using step_grant_permission(2) by (rule same_access_ok)
next
  case (step_revoke_permission org actor i p s b t)
  then obtain c s1 where s1: "detach_permission org i p s = Inr (c, s1)"
    "(if c then role_audit org actor ''role.permission.revoke'' ''role'' i else tx_return ()) s1 = Inr ((), t)"
    by (auto simp: revoke_permission_def tx_bind_Inr permission_code_def Let_def split: if_splits)
  have "same_access s s1" using s1(1) by (auto simp: detach_permission_def tx_bind_Inr same_access_def split: if_splits)
  also have "same_access s1 t" using s1(2) by (auto split: if_splits dest: role_audit_only)
  finally show ?case using step_revoke_permission(2) by (rule same_access_ok)
next
  case (step_register_scope org k i pk p rd s b t)
  from same_accessI(2) [OF register_scope_only [OF step_register_scope(1)]] show ?case
    using step_register_scope(2) by (rule same_access_ok)
next
  case (step_new_identity r s)
  let ?t = "s\<lparr>identities := identities s @ [r]\<rparr>"
  have none: "privileged_grants (idn_id r) s = 0"
    using step_new_identity(1,3) by (auto simp: privileged_grants_def access_ok_def privileged_def filter_empty_conv)
  have grants: "privileged_grants v ?t = privileged_grants v s" for v by (simp add: privileged_grants_def privileged_def role_at_def)
  have at: "identity_at v ?t = (case identity_at v s of None \<Rightarrow> if idn_id r = v then Some r else None | Some x \<Rightarrow> Some x)" for v
    by (simp add: identity_at_def find_snoc)
  have "idn_privileged x = int (privileged_grants v ?t)" if "identity_at v ?t = Some x" for v x
  proof (cases "identity_at v s")
    case None
    then show ?thesis using that step_new_identity(2) none by (simp add: at grants split: if_splits)
  next
    case (Some y)
    then show ?thesis using that step_new_identity(3) by (simp add: at grants access_ok_def)
  qed
  moreover have "\<forall>b\<in>set (user_roles ?t). gr_id b < next_uuid ?t \<and> identity_at (gr_user b) ?t \<noteq> None \<and> role_at (gr_org b) (gr_role b) ?t \<noteq> None"
    using step_new_identity(3) unfolding at by (simp add: access_ok_def role_at_def option.case_eq_if)
  ultimately show ?case using step_new_identity(3) by (simp add: access_ok_def)
qed (auto intro: grant_role_ok end_grant_ok deactivate_ok same_access_ok)

lemma access_reachable_ok: "access_reachable s \<Longrightarrow> access_ok s"
proof (induction rule: access_reachable.induct)
  case (access_start s)
  then show ?case by (auto simp: access_ok_def privileged_grants_def identity_at_def find_Some_iff)
qed (rule access_step_ok)

section \<open>The properties\<close>

text \<open>
  C29. The count that decides whether signing in needs a second factor is the number of privileged grants
  of the identity, over all organizations.
\<close>

theorem privileged_count_exact:
  assumes "access_reachable s" "identity_at user s = Some r"
  shows "idn_privileged r = int (privileged_grants user s)"
  using access_reachable_ok [OF assms(1)] assms(2) by (simp add: access_ok_def)

lemma filter_id_remove1:
  "distinct (map gr_id xs) \<Longrightarrow> a \<in> set xs \<Longrightarrow> filter (\<lambda>x. gr_id x \<noteq> gr_id a) xs = remove1 a xs"
proof (induction xs)
  case (Cons x xs)
  show ?case
  proof (cases "x = a")
    case True
    then have "filter (\<lambda>y. gr_id y \<noteq> gr_id a) xs = xs" using Cons.prems(1) by (intro filter_True) (auto simp: image_iff)
    then show ?thesis using True by simp
  next
    case False
    then show ?thesis using Cons by auto
  qed
qed simp

definition grant_row_of :: "uuid \<Rightarrow> uuid option \<Rightarrow> uuid \<Rightarrow> db \<Rightarrow> grant_row option" where
  "grant_row_of org user i s = find (\<lambda>a. gr_org a = org \<and> gr_id a = i \<and> (user = None \<or> user = Some (gr_user a)) \<and>
     role_at org (gr_role a) s \<noteq> None) (user_roles s)"

lemma delete_grant_row: "delete_grant org user i s = Inr (row, t) \<Longrightarrow> map_option fst row = grant_row_of org user i s"
proof -
  assume run: "delete_grant org user i s = Inr (row, t)"
  have [simp]: "role_at q k (s\<lparr>user_roles := us\<rparr>) = role_at q k s" for q k us by (simp add: role_at_def)
  show ?thesis
  proof (cases "grant_row_of org user i s")
    case None
    then show ?thesis using run unfolding grant_row_of_def by (auto simp: delete_grant_def tx_bind_Inr)
  next
    case (Some b)
    then have "role_at org (gr_role b) s \<noteq> None" unfolding grant_row_of_def by (auto dest: find_Some_iff_mem)
    then show ?thesis using run Some unfolding grant_row_of_def by (auto simp: delete_grant_def tx_bind_Inr)
  qed
qed

lemma delete_grant_none:
  assumes "access_ok s" "delete_grant org user i s = Inr (None, t)" "a \<in> set (user_roles s)" "gr_id a = i" "gr_org a = org"
  shows "\<not> (user = None \<or> user = Some (gr_user a))"
proof -
  have "grant_row_of org user i s = None" using delete_grant_row [OF assms(2)] by simp
  moreover have "role_at org (gr_role a) s \<noteq> None" using assms(1,3,5) by (auto simp: access_ok_def)
  ultimately show ?thesis using assms(3-5) by (auto simp: grant_row_of_def find_None_iff)
qed

lemma delete_grant_user:
  assumes "delete_grant org user i s = Inr (Some (a, c), t)"
  shows "user = None \<or> user = Some (gr_user a)"
proof -
  have "grant_row_of org user i s = Some a" using delete_grant_row [OF assms] by simp
  then show ?thesis unfolding grant_row_of_def by (auto dest: find_Some_iff_mem)
qed

text \<open>
  C30. Taking a grant away never trips over that count.  It answers whether the organization has the grant,
  for that user where one is named.  If so exactly that grant is gone, one audit row of the organization says
  who revoked it, and every count of privileged grants is still exact; otherwise nothing changed.
\<close>

theorem end_grant_clean:
  assumes "access_reachable s" "correlation s \<noteq> []"
  shows "\<exists>b t. end_grant org actor user i s = Inr (b, t) \<and>
    (b \<longleftrightarrow> (\<exists>a\<in>set (user_roles s). gr_id a = i \<and> gr_org a = org \<and> (user = None \<or> user = Some (gr_user a)))) \<and>
    (b \<longrightarrow> (\<exists>a e. a \<in> set (user_roles s) \<and> gr_id a = i \<and> gr_org a = org \<and> (user = None \<or> user = Some (gr_user a)) \<and>
      user_roles t = remove1 a (user_roles s) \<and> a \<notin> set (user_roles t) \<and>
      audits t = audits s @ [e] \<and> au_org e = org \<and> au_action e = ''user_role.revoke'' \<and> au_target e = Some i \<and> au_actor e = Some actor \<and>
      (\<forall>u r. identity_at u t = Some r \<longrightarrow> idn_privileged r = int (privileged_grants u t)))) \<and>
    (\<not> b \<longrightarrow> t = s)"
proof -
  have ok: "access_ok s" by (rule access_reachable_ok [OF assms(1)])
  obtain row s1 where del: "delete_grant org user i s = Inr (row, s1)" using delete_grant_total by blast
  from delete_grant_Inr [OF del] show ?thesis
  proof (elim disjE exE conjE)
    assume none: "row = None" "s1 = s"
    then have "\<not> (\<exists>a\<in>set (user_roles s). gr_id a = i \<and> gr_org a = org \<and> (user = None \<or> user = Some (gr_user a)))"
      using delete_grant_none [OF ok] del by blast
    then show ?thesis using del none by (intro exI [of _ False]) (simp add: end_grant_def tx_bind_def tx_return_def)
  next
    fix a r
    assume b: "row = Some (a, ro_code r)" "a \<in> set (user_roles s)" "gr_id a = i" "gr_org a = org"
      "role_at (gr_org a) (gr_role a) s = Some r" "s1 = s\<lparr>user_roles := filter (\<lambda>x. gr_id x \<noteq> i) (user_roles s)\<rparr>"
    note a = b(1-4) delete_grant_user [OF del [unfolded b(1)]] b(5,6)
    have s1: "s1 = s\<lparr>user_roles := filter (\<lambda>x. gr_id x \<noteq> gr_id a) (user_roles s)\<rparr>" by (simp add: a(3,7))
    note facts = deleted_grant [OF ok a(2,6) s1]
    obtain q where q: "identity_at (gr_user a) s = Some q" using ok a(2) by (auto simp: access_ok_def)
    have "idn_privileged q - counted (ro_code r) = int (privileged_grants (gr_user a) s1)"
      using facts(1) [of "gr_user a"] ok q by (simp add: access_ok_def)
    then have "0 \<le> idn_privileged q + - counted (ro_code r)" by simp
    then have "\<exists>is. (if ro_code r \<in> set mfa_required_role_codes then adjust_privileged (gr_user a) (- 1) else tx_return ()) s1 =
        Inr ((), s1\<lparr>identities := is\<rparr>)"
      using q facts(2) by (cases "ro_code r \<in> set mfa_required_role_codes")
        (auto simp: adjust_privileged_def tx_eval counted_def intro: exI [of _ "identities s1"])
    then obtain "is" where s2: "(if ro_code r \<in> set mfa_required_role_codes then adjust_privileged (gr_user a) (- 1) else tx_return ()) s1 =
        Inr ((), s1\<lparr>identities := is\<rparr>)" by blast
    then obtain t e where t: "end_grant org actor user i s = Inr (True, t)" "user_roles t = user_roles s1" "audits t = audits s1 @ [e]"
      "au_org e = org" "au_action e = ''user_role.revoke''" "au_target e = Some i" "au_actor e = Some actor"
      using del a(1,3,7) assms(2)
      by (auto simp: end_grant_def tx_bind_def tx_return_def role_audit_def audit_write_def Let_def user_actor_def)
    have distinct: "distinct (map gr_id (user_roles s))" using ok by (simp add: access_ok_def)
    have "user_roles t = remove1 a (user_roles s)"
      using filter_id_remove1 [OF distinct a(2)] t(2) s1 by simp
    moreover have "a \<notin> set (user_roles t)" by (simp add: t(2) s1)
    moreover have "access_ok t" by (rule end_grant_ok [OF ok t(1)])
    then have "\<forall>u r. identity_at u t = Some r \<longrightarrow> idn_privileged r = int (privileged_grants u t)" by (simp add: access_ok_def)
    moreover have "audits t = audits s @ [e]" using t(3) s1 by simp
    ultimately show ?thesis
      using t(1,4-7) a(2-5) by (intro exI [of _ True] exI [of _ t]) blast
  qed
qed

text \<open>
  Everyone among the holders of a permission at a target is an active user whose check allows it, in
  order and without repetition; and they are all such users, as long as there are fewer than the
  thousand rows the query may return.
\<close>

theorem holders_exact:
  assumes "access_reachable s" "permission_code p = Inr p"
  shows "\<exists>us. holders org p g s = Inr (us, s) \<and> sorted us \<and> distinct us \<and> length us \<le> 1000 \<and>
    (\<forall>u\<in>set us. active_identity u s \<and> may org u p g s) \<and>
    (length us < 1000 \<longrightarrow> (\<forall>u. active_identity u s \<and> may org u p g s \<longrightarrow> u \<in> set us))"
proof -
  have ok: "access_ok s" by (rule access_reachable_ok [OF assms(1)])
  show ?thesis
  proof (cases "foreign org g")
    case True
    then show ?thesis using assms(2) by (auto simp: holders_def holders_where_def tx_eval may_def granted_def)
  next
    case False
    define P :: "grant_row \<Rightarrow> bool" where "P a \<longleftrightarrow> active_identity (gr_user a) s \<and>
      (case role_at org (gr_role a) s of None \<Rightarrow> False | Some r \<Rightarrow> True) \<and> (org, gr_role a, p) \<in> set (role_permissions s)" for a
    define us where "us = sort (remdups (map gr_user (filter P (eligible_grants org None g s))))"
    have run: "holders org p g s = Inr (take 1000 us, s)"
      using assms(2) False by (simp add: holders_def holders_where_def tx_eval us_def P_def [abs_def] cong: option.case_cong)
    have role: "role_at org (gr_role a) s \<noteq> None" if "granted org u g a s" for u a
      using that ok by (auto simp: granted_def access_ok_def)
    have in_us: "u \<in> set us \<longleftrightarrow> active_identity u s \<and> may org u p g s" for u
    proof -
      have "u \<in> set us \<longleftrightarrow> (\<exists>a. P a \<and> a \<in> set (eligible_grants org None g s) \<and> gr_user a = u)" by (auto simp: us_def)
      also have "\<dots> \<longleftrightarrow> (\<exists>a. P a \<and> granted org u g a s)"
        using eligible_granted [OF False, of _ None s] by (metis granted_user)
      also have "\<dots> \<longleftrightarrow> active_identity u s \<and> may org u p g s"
      proof -
        have "P a \<and> granted org u g a s \<longleftrightarrow> active_identity u s \<and> granted org u g a s \<and> (org, gr_role a, p) \<in> set (role_permissions s)" for a
          using role [of u a] granted_user [of org u g a s] by (auto simp: P_def option.case_eq_if)
        then show ?thesis by (auto simp: may_def)
      qed
      finally show ?thesis .
    qed
    have "sorted us" "distinct us" by (simp_all add: us_def)
    show ?thesis
    proof (intro exI conjI)
      show "sorted (take 1000 us)" using \<open>sorted us\<close> by (rule sorted_wrt_take)
      show "distinct (take 1000 us)" using \<open>distinct us\<close> by (rule distinct_take)
      show "\<forall>u\<in>set (take 1000 us). active_identity u s \<and> may org u p g s" using in_us set_take_subset [of 1000 us] by blast
      show "length (take 1000 us) < 1000 \<longrightarrow> (\<forall>u. active_identity u s \<and> may org u p g s \<longrightarrow> u \<in> set (take 1000 us))"
        using in_us by (simp add: take_all)
    qed (use run in simp_all)
  qed
qed

text \<open>What a check of one organization reads is of that organization.\<close>

definition apart :: "uuid \<Rightarrow> db \<Rightarrow> db \<Rightarrow> bool" where
  "apart org s t \<longleftrightarrow> filter (\<lambda>a. gr_org a = org) (user_roles t) = filter (\<lambda>a. gr_org a = org) (user_roles s) \<and>
     filter (\<lambda>h. sc_org h = org) (scopes t) = filter (\<lambda>h. sc_org h = org) (scopes s) \<and>
     filter (\<lambda>(q, r, p). q = org) (role_permissions t) = filter (\<lambda>(q, r, p). q = org) (role_permissions s) \<and> clock t = clock s"

interpretation apart: tx_preorder "apart org"
  by unfold_locales (simp_all add: apart_def)

lemma scope_at_apart:
  assumes "filter (\<lambda>h. sc_org h = org) rows' = filter (\<lambda>h. sc_org h = org) rows"
  shows "scope_at org k i rows' = scope_at org k i rows"
proof -
  have "find (\<lambda>h. sc_org h = org \<and> Q h) xs = find Q (filter (\<lambda>h. sc_org h = org) xs)" for Q and xs :: "scope_row list"
    by (induction xs) auto
  then show ?thesis using assms by (simp add: scope_at_def)
qed

lemma inside_agrees:
  assumes "inside a org k i m j" "\<And>k i. scope_at org k i b = scope_at org k i a"
  shows "inside b org k i m j"
  using assms(1)
proof (induction rule: inside.induct)
  case (inside_up m j h)
  then show ?case using inside.inside_up [of b org k i m j h] assms(2) by simp
qed (rule inside_here)

lemma rolls_agrees:
  assumes "rolls a org k i m j" "\<And>k i. scope_at org k i b = scope_at org k i a"
  shows "rolls b org k i m j"
  using assms(1)
proof (induction rule: rolls.induct)
  case (rolls_up m j h)
  then show ?case using rolls.rolls_up [of b org k i m j h] assms(2) by simp
qed (rule rolls_here)

lemma inside_apart:
  assumes "\<And>k i. scope_at org k i b = scope_at org k i a"
  shows "inside b org k i m j \<longleftrightarrow> inside a org k i m j" "rolls b org k i m j \<longleftrightarrow> rolls a org k i m j"
proof -
  show "inside b org k i m j \<longleftrightarrow> inside a org k i m j"
    using inside_agrees [of a org k i m j b] inside_agrees [of b org k i m j a] assms by auto
  show "rolls b org k i m j \<longleftrightarrow> rolls a org k i m j"
    using rolls_agrees [of a org k i m j b] rolls_agrees [of b org k i m j a] assms by auto
qed

lemma granted_apart:
  assumes "apart org s t"
  shows "granted org user g a t \<longleftrightarrow> granted org user g a s"
    and "may org user p g t \<longleftrightarrow> may org user p g s"
proof -
  have at: "scope_at org k i (scopes t) = scope_at org k i (scopes s)" for k i
    by (rule scope_at_apart) (use assms in \<open>simp add: apart_def\<close>)
  have "a \<in> set (filter (\<lambda>a. gr_org a = org) (user_roles t)) \<longleftrightarrow> a \<in> set (filter (\<lambda>a. gr_org a = org) (user_roles s))" for a
    using assms by (simp add: apart_def)
  then have grants: "a \<in> set (user_roles t) \<and> gr_org a = org \<longleftrightarrow> a \<in> set (user_roles s) \<and> gr_org a = org" for a by auto
  have "x \<in> set (filter (\<lambda>(q, r, p). q = org) (role_permissions t)) \<longleftrightarrow> x \<in> set (filter (\<lambda>(q, r, p). q = org) (role_permissions s))" for x
    using assms by (simp add: apart_def)
  then have perms: "(org, r, p) \<in> set (role_permissions t) \<longleftrightarrow> (org, r, p) \<in> set (role_permissions s)" for r p
    by (fastforce simp: set_filter)
  have granted: "granted org user g a t \<longleftrightarrow> granted org user g a s" for a
    using grants [of a] assms by (auto simp: granted_def inside_apart [of org, OF at] apart_def)
  show "granted org user g a t \<longleftrightarrow> granted org user g a s" by (rule granted)
  show "may org user p g t \<longleftrightarrow> may org user p g s" by (simp add: may_def granted perms)
qed

lemma audit_apart: "tx_rel (apart other) (role_audit org actor action tt i)"
  by (auto simp: tx_rel_def apart_def dest: role_audit_only)

lemma fresh_apart: "tx_rel (apart other) fresh_uuid"
  by (auto simp: tx_rel_def fresh_uuid_Inr apart_def)

lemma filter_map_other: "(\<And>x. Q (f x) = Q x) \<Longrightarrow> (\<And>x. Q x \<Longrightarrow> f x = x) \<Longrightarrow> filter Q (map f xs) = filter Q xs"
  by (induction xs) auto

lemma insert_role_apart: "other \<noteq> org \<Longrightarrow> tx_rel (apart other) (insert_role org code name system)"
  unfolding insert_role_def Let_def
  by (intro apart.tx_ok apart.update_ok tx_branches fresh_apart) (auto simp: apart_def)

lemma create_role_apart: "other \<noteq> org \<Longrightarrow> tx_rel (apart other) (create_role org actor code name system)"
  unfolding create_role_def by (intro apart.tx_ok tx_branches insert_role_apart audit_apart)

lemma grant_permission_apart: "other \<noteq> org \<Longrightarrow> tx_rel (apart other) (grant_permission org actor i p)"
  unfolding grant_permission_def attach_permission_def
  by (intro apart.tx_ok apart.update_ok tx_branches audit_apart) (auto simp: apart_def)

lemma revoke_permission_apart: "other \<noteq> org \<Longrightarrow> tx_rel (apart other) (revoke_permission org actor i p)"
  unfolding revoke_permission_def detach_permission_def
  by (intro apart.tx_ok apart.update_ok tx_branches audit_apart) (auto simp: apart_def intro!: filter_cong)

lemma register_scope_apart: "other \<noteq> org \<Longrightarrow> tx_rel (apart other) (register_scope org k i pk p rd)"
  unfolding register_scope_def upsert_scope_def
  by (intro apart.tx_ok apart.update_ok tx_branches)
    (auto simp: apart_def same_scope_def intro!: filter_map_other)

lemma adjust_apart: "tx_rel (apart other) (adjust_privileged user n)"
  unfolding adjust_privileged_def by (intro apart.tx_ok apart.update_ok) (auto simp: apart_def)

lemma insert_grant_apart: "other \<noteq> org \<Longrightarrow> tx_rel (apart other) (insert_grant org user role g b d)"
  unfolding insert_grant_def Let_def
  by (intro apart.tx_ok apart.update_ok tx_branches fresh_apart) (auto simp: apart_def)

lemma grant_role_apart: "other \<noteq> org \<Longrightarrow> tx_rel (apart other) (grant_role org actor user role g d)"
  unfolding grant_role_def by (intro apart.tx_ok tx_branches insert_grant_apart adjust_apart audit_apart)

lemma end_grant_apart:
  assumes "other \<noteq> org" "access_ok s" "end_grant org actor user i s = Inr (b, t)"
  shows "apart other s t"
proof -
  from assms(3) obtain row s1 where del: "delete_grant org user i s = Inr (row, s1)"
    and rest: "(case row of None \<Rightarrow> tx_return False | Some (a, code) \<Rightarrow>
      tx_bind (if code \<in> set mfa_required_role_codes then adjust_privileged (gr_user a) (- 1) else tx_return ()) (\<lambda>_.
      tx_bind (role_audit org actor ''user_role.revoke'' ''user_role'' (gr_id a)) (\<lambda>_. tx_return True))) s1 = Inr (b, t)"
    unfolding end_grant_def tx_bind_Inr by auto
  from delete_grant_Inr [OF del] have "apart other s s1"
  proof (elim disjE exE conjE)
    fix a r
    assume a: "a \<in> set (user_roles s)" "gr_id a = i" "gr_org a = org"
      "s1 = s\<lparr>user_roles := filter (\<lambda>x. gr_id x \<noteq> i) (user_roles s)\<rparr>"
    have "gr_id y \<noteq> i" if "y \<in> set (user_roles s)" "gr_org y = other" for y
      using that a assms(1,2) by (auto simp: access_ok_def distinct_map inj_on_def)
    then show ?thesis by (auto simp: a(4) apart_def intro!: filter_cong)
  qed (simp add: apart_def)
  moreover have "tx_rel (apart other) (case row of None \<Rightarrow> tx_return False | Some (a, code) \<Rightarrow>
      tx_bind (if code \<in> set mfa_required_role_codes then adjust_privileged (gr_user a) (- 1) else tx_return ()) (\<lambda>_.
      tx_bind (role_audit org actor ''user_role.revoke'' ''user_role'' (gr_id a)) (\<lambda>_. tx_return True)))"
    by (intro tx_branches apart.tx_ok adjust_apart audit_apart)
  from tx_relD [OF this rest] have "apart other s1 t" .
  ultimately show ?thesis by (rule apart.R_trans)
qed

text \<open>
  C28. What one organization does to its roles, permissions, grants and scopes changes no answer to a
  check of another.
\<close>

theorem organizations_apart:
  assumes "access_reachable s" "other \<noteq> org"
    and "(\<exists>r. create_role org actor code name system s = Inr (r, t)) \<or>
      (\<exists>b. grant_permission org actor i p s = Inr (b, t)) \<or> (\<exists>b. revoke_permission org actor i p s = Inr (b, t)) \<or>
      (\<exists>b. register_scope org k i pk j rd s = Inr (b, t)) \<or>
      (\<exists>a. grant_role org actor user role g d s = Inr (a, t)) \<or> (\<exists>b. end_grant org actor whom i s = Inr (b, t))"
  shows "may other u q x t \<longleftrightarrow> may other u q x s"
proof (rule granted_apart(2))
  show "apart other s t"
    using assms(3)
    by (elim disjE exE)
      (auto intro: tx_relD [OF create_role_apart [OF assms(2)]] tx_relD [OF grant_permission_apart [OF assms(2)]]
        tx_relD [OF revoke_permission_apart [OF assms(2)]] tx_relD [OF register_scope_apart [OF assms(2)]]
        tx_relD [OF grant_role_apart [OF assms(2)]] end_grant_apart [OF assms(2) access_reachable_ok [OF assms(1)]])
qed

section \<open>A concrete organization\<close>

text \<open>
  Organization 2 with unit 10, project 100 in it, its child 101, and a child 102 that does not roll down;
  user 7 administers, user 8 audits project 100, user 9 has no grant.
\<close>

definition after :: "(db, 'a) tx \<Rightarrow> db \<Rightarrow> db" where
  "after m s = (case m s of Inl e \<Rightarrow> s | Inr (x, t) \<Rightarrow> t)"

lemma after_reachable: "access_reachable s \<Longrightarrow> (\<And>x t. m s = Inr (x, t) \<Longrightarrow> access_step s t) \<Longrightarrow> access_reachable (after m s)"
  by (auto simp: after_def split: sum.split intro: access_next)

definition sample_people :: db where
  "sample_people = empty_db\<lparr>permissions := [''project.read'', ''project.submit''],
     identities := map (\<lambda>i. \<lparr>idn_id = i, idn_email = ''user'', idn_active = True, idn_deactivated = None, idn_privileged = 0, idn_password = ''$argon2id$x''\<rparr>) [7, 8, 9]\<rparr>"

definition sample_scope :: "scope_kind \<Rightarrow> uuid \<Rightarrow> target" where
  "sample_scope kind i = \<lparr>tg_kind = kind, tg_scope = i, tg_type = None, tg_record = None, tg_by = None\<rparr>"

definition sample_scopes :: db where
  "sample_scopes =
     after (register_scope 2 ScopeProject 102 ScopeProject 100 False) (after (register_scope 2 ScopeProject 101 ScopeProject 100 True)
       (after (register_scope 2 ScopeProject 100 ScopeUnit 10 True) (after (register_scope 2 ScopeUnit 10 ScopeOrg 2 True) sample_people)))"

definition sample_access :: db where
  "sample_access =
     after (grant_role 2 7 8 1000 (sample_scope ScopeProject 100) None)
       (after (grant_permission 2 7 1000 ''project.read'') (after (create_role 2 7 ''auditor'' ''Auditor'' True) sample_scopes))"

lemma sample_access_reachable: "access_reachable sample_access"
  unfolding sample_access_def sample_scopes_def
  by (intro after_reachable access_start)
    (auto simp: sample_people_def empty_db_def intro: access_step.intros)

lemma sample_access_facts:
  "map (\<lambda>a. (gr_id a, gr_user a)) (user_roles sample_access) = [(1001, 8)]"
  "map_option idn_privileged (identity_at 8 sample_access) = Some 1"
  "correlation sample_access = ''request-1''"
  "(case check_access 2 8 ''project.read'' (sample_scope ScopeProject 101) sample_access of Inr (d, _) \<Rightarrow> dc_allowed d | _ \<Rightarrow> False)"
  "(case check_access 2 8 ''project.read'' (sample_scope ScopeProject 102) sample_access of Inr (d, _) \<Rightarrow> \<not> dc_allowed d \<and> \<not> dc_matched d | _ \<Rightarrow> False)"
  "(case holders 2 ''project.read'' (sample_scope ScopeProject 101) sample_access of Inr (us, _) \<Rightarrow> us = [8] | _ \<Rightarrow> False)"
  by code_simp+

lemma project_read_code: "permission_code ''project.read'' = Inr ''project.read''"
  by code_simp

theorem check_access_exact_witness:
  "may 2 8 ''project.read'' (sample_scope ScopeProject 101) sample_access \<and>
   \<not> may 2 8 ''project.read'' (sample_scope ScopeProject 102) sample_access"
  using sample_access_facts(4,5)
    check_access_exact [OF project_read_code, of 2 8 "sample_scope ScopeProject 101" sample_access]
    check_access_exact [OF project_read_code, of 2 8 "sample_scope ScopeProject 102" sample_access]
  by auto

theorem privileged_count_exact_witness: "privileged_grants 8 sample_access = 1"
proof -
  obtain r where r: "identity_at 8 sample_access = Some r" "idn_privileged r = 1" using sample_access_facts(2) by auto
  show ?thesis using privileged_count_exact [OF sample_access_reachable r(1)] r(2) by simp
qed

theorem end_grant_clean_witness:
  "\<exists>t. end_grant 2 7 None 1001 sample_access = Inr (True, t) \<and> user_roles t = []"
proof -
  have run: "case end_grant 2 7 None 1001 sample_access of Inr (b, t) \<Rightarrow> b | _ \<Rightarrow> False" by code_simp
  have "correlation sample_access \<noteq> []" using sample_access_facts(3) by simp
  from end_grant_clean [OF sample_access_reachable this, of 2 7 None 1001]
  obtain b t where bt: "end_grant 2 7 None 1001 sample_access = Inr (b, t)"
    and removed: "b \<longrightarrow> (\<exists>a\<in>set (user_roles sample_access). user_roles t = remove1 a (user_roles sample_access))" by blast
  have b using run bt by simp
  obtain g where "user_roles sample_access = [g]"
    using sample_access_facts(1) by (auto simp: map_eq_Cons_conv)
  then have "user_roles t = []" using removed \<open>b\<close> by auto
  then show ?thesis using bt \<open>b\<close> by simp
qed

theorem holders_exact_witness:
  "holders 2 ''project.read'' (sample_scope ScopeProject 101) sample_access = Inr ([8], sample_access) \<and>
   \<not> may 2 9 ''project.read'' (sample_scope ScopeProject 101) sample_access"
proof -
  obtain us where us: "holders 2 ''project.read'' (sample_scope ScopeProject 101) sample_access = Inr (us, sample_access)"
    "length us < 1000 \<longrightarrow> (\<forall>u. active_identity u sample_access \<and> may 2 u ''project.read'' (sample_scope ScopeProject 101) sample_access \<longrightarrow> u \<in> set us)"
    using holders_exact [OF sample_access_reachable project_read_code, of 2 "sample_scope ScopeProject 101"] by blast
  moreover have "us = [8]" using us(1) sample_access_facts(6) by simp
  moreover have "active_identity 9 sample_access" by code_simp
  ultimately show ?thesis by auto
qed

theorem organizations_apart_witness:
  "may 2 8 ''project.read'' (sample_scope ScopeProject 101) (after (register_scope 3 ScopeUnit 10 ScopeOrg 3 True) sample_access)"
proof -
  have "case register_scope 3 ScopeUnit 10 ScopeOrg 3 True sample_access of Inr r \<Rightarrow> True | _ \<Rightarrow> False" by code_simp
  then obtain b t where run: "register_scope 3 ScopeUnit 10 ScopeOrg 3 True sample_access = Inr (b, t)"
    by (cases "register_scope 3 ScopeUnit 10 ScopeOrg 3 True sample_access") auto
  have "may 2 8 ''project.read'' (sample_scope ScopeProject 101) t \<longleftrightarrow> may 2 8 ''project.read'' (sample_scope ScopeProject 101) sample_access"
    by (rule organizations_apart [OF sample_access_reachable, of 2 3]) (use run in auto)
  moreover have "may 2 8 ''project.read'' (sample_scope ScopeProject 101) sample_access"
    using sample_access_facts(4) check_access_rule [OF project_read_code, of 2 8 "sample_scope ScopeProject 101" sample_access] by auto
  ultimately show ?thesis by (simp add: after_def run)
qed

end
