(* ===== verification/Work.thy ===== *)
theory Work
  imports Database "HOL-Library.Product_Lexorder" "HOL-Library.Option_ord"
begin

text \<open>
  Background work: \<open>flo/kernel/jobs\<close> (the queue, the backoff, the runner) and
  \<open>flo/kernel/outbox\<close> (the store, the dispatcher), over the tables of migrations 0007 and 0010.

  The handlers are arguments: a job's handler changes the database or fails, an outbox handler asks a
  provider and answers its message id or fails.  Rows locked by other workers' transactions, which
  \<open>SKIP LOCKED\<close> passes over, are a predicate on row ids.  Floating-point delays are exact
  rationals here, stored to the microsecond.
\<close>

section \<open>Backoff and failures\<close>

definition base_delays :: "rat list" where
  "base_delays = [1, 4, 16, 64, 256]"

definition backoff_seconds :: "nat \<Rightarrow> rat \<Rightarrow> problem + rat" where
  "backoff_seconds attempt fraction =
     (if attempt < 1 \<or> length base_delays < attempt then Inl (Raised ValueError)
      else if fraction < 0 \<or> 1 \<le> fraction then Inl (Raised ValueError)
      else let base = base_delays ! (attempt - 1) in Inr (base + base * (1 / 4) * fraction))"

text \<open>What a handler can raise: a classified failure with its message, or anything else by its class.\<close>

datatype failure = Transient string | Permanent string | Unexpected string

definition safe_error :: "string \<Rightarrow> string \<Rightarrow> failure \<Rightarrow> string" where
  "safe_error transient permanent f =
     (case f of
        Transient m \<Rightarrow> if m = [] then transient else take 500 m
      | Permanent m \<Rightarrow> if m = [] then permanent else take 500 m
      | Unexpected c \<Rightarrow> c)"

fun exn_class :: "exn \<Rightarrow> string" where
  "exn_class ValueError = ''ValueError''"
| "exn_class TypeError = ''TypeError''"
| "exn_class RuntimeError = ''RuntimeError''"
| "exn_class AssertionError = ''AssertionError''"
| "exn_class LookupFailed = ''KeyError''"
| "exn_class InvalidOperation = ''InvalidOperation''"
| "exn_class (CurrencyMismatch _ _) = ''CurrencyMismatch''"
| "exn_class (CheckViolation _) = ''CheckViolation''"
| "exn_class (UniqueViolation _) = ''UniqueViolation''"
| "exn_class (ForeignKeyViolation _) = ''ForeignKeyViolation''"
| "exn_class (ExclusionViolation _) = ''ExclusionViolation''"
| "exn_class (NotNullViolation _) = ''NotNullViolation''"
| "exn_class QueryNotReturning = ''QueryCanceled''"
| "exn_class (MasterCodeUnusable _) = ''MasterCodeUnusable''"
| "exn_class (NumericValueOutOfRange) = ''NumericValueOutOfRange''"
| "exn_class SessionIssueDenied = ''SessionIssueDenied''"
| "exn_class CorrelationMissing = ''CorrelationMissing''"
| "exn_class LookupMissing = ''LookupError''"
| "exn_class PermissionDenied = ''PermissionError''"
| "exn_class PasswordPolicyFailed = ''PasswordPolicyError''"
| "exn_class IdentityNotFound = ''IdentityNotFoundError''"
| "exn_class IdentityExists = ''IdentityAlreadyExistsError''"

definition error_class :: "problem \<Rightarrow> string" where
  "error_class e = (case e of Raised x \<Rightarrow> exn_class x | _ \<Rightarrow> ''ProblemError'')"

section \<open>The tables\<close>

datatype job_state = Queued | Running | JobDone | JobFailed | JobDead

record job_row =
  jb_id :: uuid
  jb_org :: uuid
  jb_kind :: string
  jb_payload :: json
  jb_state :: job_state
  jb_attempts :: nat
  jb_max :: nat
  jb_run_after :: timestamp
  jb_locked :: "timestamp option"
  jb_error :: "string option"
  jb_correlation :: string
  jb_progress :: "(int \<times> int \<times> string) option"
  jb_finished :: "timestamp option"

datatype outbox_state = Pending | Sent | Failed | Dead

record outbox_row =
  ob_id :: uuid
  ob_org :: "uuid option"
  ob_identity :: "uuid option"
  ob_topic :: string
  ob_payload :: "(string \<times> json) list"
  ob_state :: outbox_state
  ob_attempts :: nat
  ob_max :: nat
  ob_run_after :: timestamp
  ob_locked :: "timestamp option"
  ob_error :: "string option"
  ob_message :: "string option"
  ob_key :: string
  ob_correlation :: string
  ob_expires :: "timestamp option"
  ob_sent :: "timestamp option"

record work_db =
  w_db :: db
  w_jobs :: "job_row list"
  w_outbox :: "outbox_row list"

definition on_db :: "(db, 'a) tx \<Rightarrow> (work_db, 'a) tx" where
  "on_db m = (\<lambda>s. case m (w_db s) of Inl e \<Rightarrow> Inl e | Inr (x, d) \<Rightarrow> Inr (x, s\<lparr>w_db := d\<rparr>))"

definition now :: "work_db \<Rightarrow> timestamp" where
  "now s = clock (w_db s)"

definition at_time :: "timestamp \<Rightarrow> work_db \<Rightarrow> work_db" where
  "at_time ts s = s\<lparr>w_db := (w_db s)\<lparr>clock := ts\<rparr>\<rparr>"

text \<open>\<open>correlation_context\<close>.\<close>

definition with_correlation :: "string \<Rightarrow> (work_db, 'a) tx \<Rightarrow> (work_db, 'a) tx" where
  "with_correlation c m = (\<lambda>s.
     case m (s\<lparr>w_db := (w_db s)\<lparr>correlation := c\<rparr>\<rparr>) of
       Inl e \<Rightarrow> Inl e
     | Inr (x, t) \<Rightarrow> Inr (x, t\<lparr>w_db := (w_db t)\<lparr>correlation := correlation (w_db s)\<rparr>\<rparr>))"

definition microseconds :: "rat \<Rightarrow> timestamp" where
  "microseconds seconds = \<lfloor>seconds * 10 ^ 6 + 1 / 2\<rfloor>"

definition runtime_error :: problem where
  "runtime_error = Raised RuntimeError"

section \<open>The job queue\<close>

definition make_progress :: "int \<Rightarrow> int \<Rightarrow> string \<Rightarrow> problem + int \<times> int \<times> string" where
  "make_progress current whole message =
     (if current < 0 \<or> whole < current then Inl (Raised ValueError)
      else if message = [] then Inl (Raised ValueError) else Inr (current, whole, message))"

definition enqueue :: "uuid \<Rightarrow> string \<Rightarrow> json \<Rightarrow> int \<Rightarrow> timestamp option \<Rightarrow> (work_db, job_row) tx" where
  "enqueue org kind payload max_attempts run_after =
     tx_bind (tx_read (\<lambda>s. correlation (w_db s))) (\<lambda>c.
     tx_bind (tx_require (c \<noteq> []) (Raised CorrelationMissing)) (\<lambda>_.
     tx_bind (tx_require (kind \<noteq> []) (Raised ValueError)) (\<lambda>_.
     tx_bind (tx_require (1 \<le> max_attempts \<and> max_attempts \<le> 5) (Raised ValueError)) (\<lambda>_.
     tx_bind (on_db fresh_uuid) (\<lambda>i.
     tx_bind (tx_read now) (\<lambda>ts.
     let j = \<lparr>jb_id = i, jb_org = org, jb_kind = kind, jb_payload = payload, jb_state = Queued, jb_attempts = 0,
       jb_max = nat max_attempts, jb_run_after = (case run_after of None \<Rightarrow> ts | Some r \<Rightarrow> r), jb_locked = None,
       jb_error = None, jb_correlation = c, jb_progress = None, jb_finished = None\<rparr> in
     tx_bind (tx_update (\<lambda>s. s\<lparr>w_jobs := w_jobs s @ [j]\<rparr>)) (\<lambda>_.
     tx_return j)))))))"

text \<open>One updated row, or none: an \<open>UPDATE\<close> whose row count the code checks.\<close>

definition update_one :: "(job_row \<Rightarrow> bool) \<Rightarrow> (timestamp \<Rightarrow> job_row \<Rightarrow> job_row) \<Rightarrow> (work_db, unit) tx" where
  "update_one P f =
     tx_bind (tx_read (\<lambda>s. length (filter P (w_jobs s)))) (\<lambda>n.
     tx_bind (tx_require (n = 1) runtime_error) (\<lambda>_.
     tx_update (\<lambda>s. s\<lparr>w_jobs := map (\<lambda>j. if P j then f (now s) j else j) (w_jobs s)\<rparr>)))"

definition running_row :: "uuid \<Rightarrow> uuid \<Rightarrow> job_row \<Rightarrow> bool" where
  "running_row org i j \<longleftrightarrow> jb_id j = i \<and> jb_org j = org \<and> jb_state j = Running"

definition update_progress :: "uuid \<Rightarrow> uuid \<Rightarrow> int \<times> int \<times> string \<Rightarrow> (work_db, unit) tx" where
  "update_progress org i progress = update_one (running_row org i) (\<lambda>_ j. j\<lparr>jb_progress := Some progress\<rparr>)"

definition list_dead :: "uuid \<Rightarrow> int \<Rightarrow> (work_db, job_row list) tx" where
  "list_dead org limit =
     tx_bind (tx_require (1 \<le> limit \<and> limit \<le> 1000) (Raised ValueError)) (\<lambda>_.
     tx_read (\<lambda>s. take (nat limit)
       (sort_key (\<lambda>j. (case jb_finished j of None \<Rightarrow> None | Some ts \<Rightarrow> Some (- ts), jb_id j))
         (filter (\<lambda>j. jb_org j = org \<and> jb_state j = JobDead) (w_jobs s)))))"

definition ready :: "timestamp \<Rightarrow> job_row \<Rightarrow> bool" where
  "ready ts j \<longleftrightarrow> jb_state j = Queued \<and> jb_run_after j \<le> ts"

definition claim_order :: "job_row \<Rightarrow> timestamp \<times> uuid" where
  "claim_order j = (jb_run_after j, jb_id j)"

definition claimed :: "timestamp \<Rightarrow> job_row \<Rightarrow> job_row" where
  "claimed ts j = j\<lparr>jb_state := Running, jb_locked := Some ts, jb_attempts := Suc (jb_attempts j), jb_error := None\<rparr>"

definition claim_job :: "(uuid \<Rightarrow> bool) \<Rightarrow> (work_db, job_row option) tx" where
  "claim_job locked = (\<lambda>s.
     case sort_key claim_order (filter (\<lambda>j. ready (now s) j \<and> \<not> locked (jb_id j)) (w_jobs s)) of
       [] \<Rightarrow> Inr (None, s)
     | j # _ \<Rightarrow> Inr (Some (claimed (now s) j),
         s\<lparr>w_jobs := map (\<lambda>r. if jb_id r = jb_id j then claimed (now s) r else r) (w_jobs s)\<rparr>))"

definition job_transition :: "job_row \<Rightarrow> (timestamp \<Rightarrow> job_row \<Rightarrow> job_row) \<Rightarrow> (work_db, unit) tx" where
  "job_transition j f = update_one (running_row (jb_org j) (jb_id j)) f"

definition complete_job :: "job_row \<Rightarrow> (work_db, unit) tx" where
  "complete_job j = job_transition j (\<lambda>ts r. r\<lparr>jb_state := JobDone, jb_locked := None, jb_finished := Some ts\<rparr>)"

definition retry_job :: "job_row \<Rightarrow> rat \<Rightarrow> string \<Rightarrow> (work_db, unit) tx" where
  "retry_job j delay err = job_transition j (\<lambda>ts r. r\<lparr>jb_state := Queued, jb_locked := None,
     jb_run_after := ts + microseconds delay, jb_error := Some err\<rparr>)"

definition dead_job :: "job_row \<Rightarrow> string \<Rightarrow> (work_db, unit) tx" where
  "dead_job j err = job_transition j (\<lambda>ts r. r\<lparr>jb_state := JobDead, jb_locked := None, jb_finished := Some ts,
     jb_error := Some err\<rparr>)"

section \<open>Draining work within a budget\<close>

text \<open>
  The loop both workers share.  Each turn reads the monotonic clock once, claims and settles at the
  times the database shows then.  The list holds the readings; a list that ends before the loop does
  leaves the run unfinished.
\<close>

datatype verdict = Finished | Retried | GaveUp

record summary =
  sm_claimed :: nat
  sm_finished :: nat
  sm_retried :: nat
  sm_dead :: nat

record turn =
  tk_monotonic :: rat
  tk_claim_at :: timestamp
  tk_settle_at :: timestamp
  tk_fraction :: rat                          \<comment> \<open>of the random jitter\<close>
  tk_locked :: "uuid \<Rightarrow> bool"

definition counted :: "verdict \<Rightarrow> summary \<Rightarrow> summary" where
  "counted v m =
     (let m = m\<lparr>sm_claimed := Suc (sm_claimed m)\<rparr> in
      case v of Finished \<Rightarrow> m\<lparr>sm_finished := Suc (sm_finished m)\<rparr>
      | Retried \<Rightarrow> m\<lparr>sm_retried := Suc (sm_retried m)\<rparr>
      | GaveUp \<Rightarrow> m\<lparr>sm_dead := Suc (sm_dead m)\<rparr>)"

definition no_work :: summary where
  "no_work = \<lparr>sm_claimed = 0, sm_finished = 0, sm_retried = 0, sm_dead = 0\<rparr>"

fun drain ::
  "(turn \<Rightarrow> (work_db, 'j option) tx) \<Rightarrow> (turn \<Rightarrow> 'j \<Rightarrow> (work_db, verdict) tx) \<Rightarrow> rat \<Rightarrow> turn list \<Rightarrow> summary \<Rightarrow>
   work_db \<Rightarrow> (problem + summary \<times> work_db) option" where
  "drain claim settle deadline [] m s = None"
| "drain claim settle deadline (k # ks) m s =
     (if \<not> tk_monotonic k < deadline then Some (Inr (m, s))
      else case claim k (at_time (tk_claim_at k) s) of
             Inl e \<Rightarrow> Some (Inl e)
           | Inr (None, t) \<Rightarrow> Some (Inr (m, t))
           | Inr (Some j, t) \<Rightarrow>
               (case settle k j (at_time (tk_settle_at k) t) of
                  Inl e \<Rightarrow> Some (Inl e)
                | Inr (v, u) \<Rightarrow> drain claim settle deadline ks (counted v m) u))"

definition run_within ::
  "(turn \<Rightarrow> (work_db, 'j option) tx) \<Rightarrow> (turn \<Rightarrow> 'j \<Rightarrow> (work_db, verdict) tx) \<Rightarrow> rat \<Rightarrow> rat \<Rightarrow> turn list \<Rightarrow> work_db \<Rightarrow>
   (problem + summary \<times> work_db) option" where
  "run_within claim settle started budget ks s =
     (if budget \<le> 0 \<or> 50 < budget then Some (Inl (Raised ValueError))
      else drain claim settle (started + budget) ks no_work s)"

section \<open>The job runner\<close>

text \<open>
  A handler works in the runner's transaction and may also work on connections of its own, as imports,
  reconciliation and reminders do: what it commits there stays whatever becomes of the job.  It gives the
  state with only that, and its failure or the state with the transaction's work as well.
\<close>

type_synonym job_handler = "job_row \<Rightarrow> work_db \<Rightarrow> work_db \<times> (failure + work_db)"

definition under_correlation :: "string \<Rightarrow> work_db \<Rightarrow> work_db" where
  "under_correlation c s = s\<lparr>w_db := (w_db s)\<lparr>correlation := c\<rparr>\<rparr>"

definition worker_audit :: "string \<Rightarrow> uuid \<Rightarrow> uuid \<Rightarrow> string \<Rightarrow> outcome \<Rightarrow> string option \<Rightarrow> (work_db, unit) tx" where
  "worker_audit target org i action oc reason =
     tx_bind (on_db (audit_write org \<lparr>aa_kind = JobActor, aa_id = None\<rparr> action target (Some i) None oc reason)) (\<lambda>_.
     tx_return ())"

definition job_error :: "failure \<Rightarrow> string" where
  "job_error = safe_error ''TransientJobError'' ''PermanentJobError''"

text \<open>
  The handler's work, the completion and its audit: one transaction.  With a failure comes the state the
  rollback leaves, which is what the handler committed on its own connections.
\<close>

definition attempt_job :: "(string \<Rightarrow> job_handler option) \<Rightarrow> job_row \<Rightarrow> work_db \<Rightarrow> failure \<times> work_db + work_db" where
  "attempt_job handlers j s =
     (case handlers (jb_kind j) of
        None \<Rightarrow> Inl (Permanent ''job kind has no registered handler'', s)
      | Some h \<Rightarrow>
          (case h j (under_correlation (jb_correlation j) s) of
             (c, Inl f) \<Rightarrow> Inl (f, under_correlation (correlation (w_db s)) c)
           | (c, Inr t) \<Rightarrow>
               (case tx_bind (complete_job j) (\<lambda>_. worker_audit ''job'' (jb_org j) (jb_id j) ''job.done'' Success None) t of
                  Inl e \<Rightarrow> Inl (Unexpected (error_class e), under_correlation (correlation (w_db s)) c)
                | Inr (_, u) \<Rightarrow> Inr (under_correlation (correlation (w_db s)) u))))"

definition record_dead_job :: "job_row \<Rightarrow> string \<Rightarrow> (work_db, unit) tx" where
  "record_dead_job j err =
     with_correlation (jb_correlation j)
       (tx_bind (dead_job j err) (\<lambda>_. worker_audit ''job'' (jb_org j) (jb_id j) ''job.dead'' ErrorOutcome (Some err)))"

definition execute_job :: "(string \<Rightarrow> job_handler option) \<Rightarrow> rat \<Rightarrow> job_row \<Rightarrow> (work_db, verdict) tx" where
  "execute_job handlers fraction j = (\<lambda>s.
     case attempt_job handlers j s of
       Inr t \<Rightarrow> Inr (Finished, t)
     | Inl (f, c) \<Rightarrow>
         if (case f of Transient m \<Rightarrow> True | _ \<Rightarrow> False) \<and> jb_attempts j < jb_max j
         then tx_bind (tx_lift (backoff_seconds (jb_attempts j) fraction)) (\<lambda>delay.
              tx_bind (with_correlation (jb_correlation j)
                (tx_bind (retry_job j delay (job_error f)) (\<lambda>_.
                 worker_audit ''job'' (jb_org j) (jb_id j) ''job.retry'' ErrorOutcome (Some (job_error f))))) (\<lambda>_.
              tx_return Retried)) c
         else tx_bind (record_dead_job j (job_error f)) (\<lambda>_. tx_return GaveUp) c)"

definition run_jobs ::
  "(string \<Rightarrow> job_handler option) \<Rightarrow> rat \<Rightarrow> rat \<Rightarrow> turn list \<Rightarrow> work_db \<Rightarrow> (problem + summary \<times> work_db) option" where
  "run_jobs handlers =
     run_within (\<lambda>k. claim_job (tk_locked k)) (\<lambda>k. execute_job handlers (tk_fraction k))"

end
