(* ===== verification/Outbox.thy ===== *)
theory Outbox
  imports Work
begin

text \<open>
  \<open>flo/kernel/outbox\<close>: external effects appended to the business transaction, claimed under a lease of
  five minutes and handed to a provider with the row's idempotency key.  Rows belong to an
  organization or, before sign-in, to one identity.
\<close>

section \<open>Appending\<close>

definition undelivered :: "outbox_row \<Rightarrow> bool" where
  "undelivered r \<longleftrightarrow> ob_state r = Pending \<or> ob_state r = Failed"

definition new_outbox :: "uuid \<Rightarrow> uuid option \<Rightarrow> uuid option \<Rightarrow> string \<Rightarrow> (string \<times> json) list \<Rightarrow> nat \<Rightarrow> string \<Rightarrow> string \<Rightarrow>
   timestamp option \<Rightarrow> timestamp \<Rightarrow> outbox_row" where
  "new_outbox i org identity topic payload max_attempts key c expires ts =
     \<lparr>ob_id = i, ob_org = org, ob_identity = identity, ob_topic = topic, ob_payload = payload, ob_state = Pending,
      ob_attempts = 0, ob_max = max_attempts, ob_run_after = ts, ob_locked = None, ob_error = None, ob_message = None,
      ob_key = key, ob_correlation = c, ob_expires = expires, ob_sent = None\<rparr>"

text \<open>The unique keys: one per organization, and one per identity.\<close>

definition key_taken :: "outbox_row \<Rightarrow> work_db \<Rightarrow> bool" where
  "key_taken r s \<longleftrightarrow> list_ex (\<lambda>x. ob_key x = ob_key r \<and>
     (ob_org r \<noteq> None \<and> ob_org x = ob_org r \<or> ob_identity r \<noteq> None \<and> ob_identity x = ob_identity r)) (w_outbox s)"

definition insert_outbox :: "outbox_row \<Rightarrow> (work_db, outbox_row) tx" where
  "insert_outbox r =
     tx_bind (tx_read (key_taken r)) (\<lambda>taken.
     tx_bind (tx_require (\<not> taken) (Raised (UniqueViolation ''outbox_idempotency_unique''))) (\<lambda>_.
     tx_bind (tx_update (\<lambda>s. s\<lparr>w_outbox := w_outbox s @ [r]\<rparr>)) (\<lambda>_.
     tx_return r)))"

definition add_outbox :: "uuid \<Rightarrow> string \<Rightarrow> (string \<times> json) list \<Rightarrow> string \<Rightarrow> int \<Rightarrow> (work_db, outbox_row) tx" where
  "add_outbox org topic payload key max_attempts =
     tx_bind (tx_read (\<lambda>s. correlation (w_db s))) (\<lambda>c.
     tx_bind (tx_require (c \<noteq> []) (Raised CorrelationMissing)) (\<lambda>_.
     tx_bind (tx_require (topic \<noteq> []) (Raised ValueError)) (\<lambda>_.
     tx_bind (tx_require (key \<noteq> []) (Raised ValueError)) (\<lambda>_.
     tx_bind (tx_require (1 \<le> max_attempts \<and> max_attempts \<le> 5) (Raised ValueError)) (\<lambda>_.
     tx_bind (on_db fresh_uuid) (\<lambda>i.
     tx_bind (tx_read now) (\<lambda>ts.
     insert_outbox (new_outbox i (Some org) None topic payload (nat max_attempts) key c None ts))))))))"

definition email_payload :: "string \<Rightarrow> string \<Rightarrow> (string \<times> json) list \<Rightarrow> (string \<times> json) list" where
  "email_payload to template context = [(''to'', JStr to), (''template'', JStr template), (''context'', JObj context)]"

definition add_email :: "uuid \<Rightarrow> string \<Rightarrow> string \<Rightarrow> (string \<times> json) list \<Rightarrow> string \<Rightarrow> (work_db, outbox_row) tx" where
  "add_email org to template context key = add_outbox org ''email'' (email_payload to template context) key 5"

text \<open>Deleting undelivered mail; the number of rows is returned.\<close>

definition delete_outbox :: "(outbox_row \<Rightarrow> bool) \<Rightarrow> (work_db, nat) tx" where
  "delete_outbox P = (\<lambda>s. Inr (length (filter P (w_outbox s)), s\<lparr>w_outbox := filter (\<lambda>r. \<not> P r) (w_outbox s)\<rparr>))"

definition discard_email :: "uuid \<Rightarrow> string \<Rightarrow> (work_db, nat) tx" where
  "discard_email org key =
     delete_outbox (\<lambda>r. ob_org r = Some org \<and> ob_topic r = ''email'' \<and> ob_key r = key \<and>
       (undelivered r \<or> ob_state r = Dead))"

definition list_dead_outbox :: "uuid \<Rightarrow> int \<Rightarrow> (work_db, outbox_row list) tx" where
  "list_dead_outbox org limit =
     tx_bind (tx_require (1 \<le> limit \<and> limit \<le> 1000) (Raised ValueError)) (\<lambda>_.
     tx_read (\<lambda>s. take (nat limit) (sort_key (\<lambda>r. (- ob_run_after r, ob_id r))
       (filter (\<lambda>r. ob_org r = Some org \<and> ob_state r = Dead) (w_outbox s)))))"

definition add_identity_email ::
  "uuid \<Rightarrow> string \<Rightarrow> string \<Rightarrow> (string \<times> json) list \<Rightarrow> string \<Rightarrow> timestamp \<Rightarrow> timestamp \<Rightarrow>
   (work_db, outbox_row) tx" where
  "add_identity_email identity to template context key created_at expires_at =
     tx_bind (tx_read (\<lambda>s. correlation (w_db s))) (\<lambda>c.
     tx_bind (tx_require (c \<noteq> []) (Raised CorrelationMissing)) (\<lambda>_.
     tx_bind (tx_require (key \<noteq> []) (Raised ValueError)) (\<lambda>_.
     tx_bind (on_db fresh_uuid) (\<lambda>i.
     tx_bind (tx_read now) (\<lambda>ts.
     tx_catch
       (tx_bind (tx_require (created_at < expires_at) (Raised (CheckViolation ''outbox_expiry_order''))) (\<lambda>_.
        insert_outbox (new_outbox i None (Some identity) ''email'' (email_payload to template context) 5 key c (Some expires_at) ts)))
       (\<lambda>_. tx_fail runtime_error))))))"

definition discard_pending_email :: "uuid \<Rightarrow> string \<Rightarrow> (work_db, nat) tx" where
  "discard_pending_email identity template =
     delete_outbox (\<lambda>r. ob_identity r = Some identity \<and> ob_topic r = ''email'' \<and> undelivered r \<and>
       map_of (ob_payload r) ''template'' = Some (JStr template))"

section \<open>Claiming and settling\<close>

definition lease :: timestamp where
  "lease = 5 * 60 * 10 ^ 6"

definition expired :: "timestamp \<Rightarrow> outbox_row \<Rightarrow> bool" where
  "expired ts r \<longleftrightarrow> ob_identity r \<noteq> None \<and> (case ob_expires r of None \<Rightarrow> False | Some e \<Rightarrow> e \<le> ts)"

definition deliverable :: "timestamp \<Rightarrow> outbox_row \<Rightarrow> bool" where
  "deliverable ts r \<longleftrightarrow> undelivered r \<and> ob_run_after r \<le> ts \<and>
     (case ob_locked r of None \<Rightarrow> True | Some l \<Rightarrow> l < ts - lease)"

definition leased :: "timestamp \<Rightarrow> outbox_row \<Rightarrow> outbox_row" where
  "leased ts r = r\<lparr>ob_locked := Some ts, ob_attempts := Suc (ob_attempts r), ob_error := None\<rparr>"

definition claim_outbox :: "(uuid \<Rightarrow> bool) \<Rightarrow> (work_db, outbox_row option) tx" where
  "claim_outbox locked =
     tx_bind (tx_update (\<lambda>s. s\<lparr>w_outbox := filter (\<lambda>r. \<not> expired (now s) r) (w_outbox s)\<rparr>)) (\<lambda>_ s.
     case sort_key (\<lambda>r. (ob_run_after r, ob_id r)) (filter (\<lambda>r. deliverable (now s) r \<and> \<not> locked (ob_id r)) (w_outbox s)) of
       [] \<Rightarrow> Inr (None, s)
     | r # _ \<Rightarrow> Inr (Some (leased (now s) r),
         s\<lparr>w_outbox := map (\<lambda>x. if ob_id x = ob_id r then leased (now s) x else x) (w_outbox s)\<rparr>))"

definition leased_row :: "outbox_row \<Rightarrow> outbox_row \<Rightarrow> bool" where
  "leased_row r x \<longleftrightarrow> ob_id x = ob_id r \<and> ob_org x = ob_org r \<and> ob_identity x = ob_identity r \<and> undelivered x \<and> ob_locked x \<noteq> None"

definition outbox_transition :: "outbox_row \<Rightarrow> (timestamp \<Rightarrow> outbox_row \<Rightarrow> outbox_row) \<Rightarrow> (work_db, unit) tx" where
  "outbox_transition r f =
     tx_bind (tx_read (\<lambda>s. length (filter (leased_row r) (w_outbox s)))) (\<lambda>n.
     tx_bind (tx_require (n = 1) runtime_error) (\<lambda>_.
     tx_update (\<lambda>s. s\<lparr>w_outbox := map (\<lambda>x. if leased_row r x then f (now s) x else x) (w_outbox s)\<rparr>)))"

definition sent_outbox :: "outbox_row \<Rightarrow> string \<Rightarrow> (work_db, unit) tx" where
  "sent_outbox r message_id =
     tx_bind (tx_require (message_id \<noteq> []) (Raised ValueError)) (\<lambda>_.
     outbox_transition r (\<lambda>ts x. x\<lparr>ob_state := Sent, ob_locked := None, ob_payload := [], ob_message := Some message_id,
       ob_sent := Some ts\<rparr>))"

definition retry_outbox :: "outbox_row \<Rightarrow> rat \<Rightarrow> string \<Rightarrow> (work_db, unit) tx" where
  "retry_outbox r delay err =
     outbox_transition r (\<lambda>ts x. x\<lparr>ob_state := Failed, ob_locked := None, ob_run_after := ts + microseconds delay, ob_error := Some err\<rparr>)"

definition dead_outbox :: "outbox_row \<Rightarrow> string \<Rightarrow> (work_db, unit) tx" where
  "dead_outbox r err = outbox_transition r (\<lambda>ts x. x\<lparr>ob_state := Dead, ob_locked := None, ob_error := Some err\<rparr>)"

section \<open>The dispatcher\<close>

text \<open>A handler hands the row to its provider; the answers are the environment's.\<close>

type_synonym outbox_handler = "outbox_row \<Rightarrow> failure + string"

datatype send_answer = Accepted string | TransientEmail string | PermanentEmail string

definition email_handler :: "(string \<Rightarrow> string \<Rightarrow> (string \<times> json) list \<Rightarrow> string \<Rightarrow> send_answer) \<Rightarrow> outbox_handler" where
  "email_handler send r =
     (case (map_of (ob_payload r) ''to'', map_of (ob_payload r) ''template'', map_of (ob_payload r) ''context'') of
        (Some to, Some template, Some context) \<Rightarrow>
          (case (to, template, context) of
             (JStr to, JStr template, JObj context) \<Rightarrow>
               (case send to template context (ob_key r) of
                  Accepted m \<Rightarrow> Inr m
                | TransientEmail m \<Rightarrow> Inl (Transient m)
                | PermanentEmail m \<Rightarrow> Inl (Permanent m))
           | _ \<Rightarrow> Inl (Permanent ''outbox email payload has invalid field types''))
      | _ \<Rightarrow> Inl (Permanent ''MISSING outbox email payload fields''))"

definition outbox_error :: "failure \<Rightarrow> string" where
  "outbox_error = safe_error ''TransientOutboxError'' ''PermanentOutboxError''"

definition outbox_audit :: "outbox_row \<Rightarrow> string \<Rightarrow> outcome \<Rightarrow> string option \<Rightarrow> (work_db, unit) tx" where
  "outbox_audit r action oc reason =
     (case ob_org r of None \<Rightarrow> tx_return () | Some org \<Rightarrow> worker_audit ''outbox'' org (ob_id r) action oc reason)"

definition attempt_delivery :: "(string \<Rightarrow> outbox_handler option) \<Rightarrow> outbox_row \<Rightarrow> work_db \<Rightarrow> failure + work_db" where
  "attempt_delivery handlers r s =
     (case handlers (ob_topic r) of
        None \<Rightarrow> Inl (Permanent ''outbox topic has no registered handler'')
      | Some h \<Rightarrow>
          (case h r of
             Inl f \<Rightarrow> Inl f
           | Inr message_id \<Rightarrow>
               (case with_correlation (ob_correlation r)
                       (tx_bind (sent_outbox r message_id) (\<lambda>_. outbox_audit r ''outbox.sent'' Success None)) s of
                  Inl e \<Rightarrow> Inl (Unexpected (error_class e))
                | Inr (_, t) \<Rightarrow> Inr t)))"

definition record_dead_outbox :: "outbox_row \<Rightarrow> string \<Rightarrow> (work_db, unit) tx" where
  "record_dead_outbox r err =
     with_correlation (ob_correlation r)
       (tx_bind (dead_outbox r err) (\<lambda>_. outbox_audit r ''outbox.dead'' ErrorOutcome (Some err)))"

definition deliver :: "(string \<Rightarrow> outbox_handler option) \<Rightarrow> rat \<Rightarrow> outbox_row \<Rightarrow> (work_db, verdict) tx" where
  "deliver handlers fraction r = (\<lambda>s.
     case attempt_delivery handlers r s of
       Inr t \<Rightarrow> Inr (Finished, t)
     | Inl f \<Rightarrow>
         if (case f of Transient m \<Rightarrow> True | _ \<Rightarrow> False) \<and> ob_attempts r < ob_max r
         then tx_bind (tx_lift (backoff_seconds (ob_attempts r) fraction)) (\<lambda>delay.
              tx_bind (with_correlation (ob_correlation r)
                (tx_bind (retry_outbox r delay (outbox_error f)) (\<lambda>_.
                 outbox_audit r ''outbox.retry'' ErrorOutcome (Some (outbox_error f))))) (\<lambda>_.
              tx_return Retried)) s
         else tx_bind (record_dead_outbox r (outbox_error f)) (\<lambda>_. tx_return GaveUp) s)"

definition dispatcher :: "(string \<Rightarrow> outbox_handler option) \<Rightarrow> problem + (string \<Rightarrow> outbox_handler option)" where
  "dispatcher handlers = (if handlers ''email'' = None then Inl runtime_error else Inr handlers)"

definition run_outbox ::
  "(string \<Rightarrow> outbox_handler option) \<Rightarrow> rat \<Rightarrow> rat \<Rightarrow> turn list \<Rightarrow> work_db \<Rightarrow> (problem + summary \<times> work_db) option" where
  "run_outbox handlers =
     run_within (\<lambda>k. claim_outbox (tk_locked k)) (\<lambda>k. deliver handlers (tk_fraction k))"

end
