(* ===== verification/WorkLaws.thy ===== *)
theory WorkLaws
  imports Outbox
begin

text \<open>
  What a run of background work guarantees: it ends with its time budget, settles everything it claims,
  keeps the attempts within their maximum and undoes the work of a failed handler.  The loop is the same
  for jobs and for the outbox, so its facts are proved once, over the interface of a worker.
\<close>

section \<open>Backoff\<close>

text \<open>
  The delay before the next attempt is the attempt's power of four in seconds plus less than a
  quarter of it, so it grows with every attempt whatever the jitter.
\<close>

theorem backoff_bounds:
  assumes "1 \<le> a" "a \<le> 5" "0 \<le> f" "f < 1"
  shows "\<exists>d. backoff_seconds a f = Inr d \<and> 4 ^ (a - 1) \<le> d \<and> d < 4 ^ (a - 1) * (5 / 4) \<and>
    (a < 5 \<longrightarrow> (\<forall>g e. backoff_seconds (Suc a) g = Inr e \<longrightarrow> d < e))"
proof -
  have base: "base_delays ! (n - 1) = 4 ^ (n - 1)" if "1 \<le> n" "n \<le> 5" for n
  proof -
    have "n \<in> {1, 2, 3, 4, 5}" using that by auto
    then show ?thesis by (auto simp: base_delays_def)
  qed
  let ?d = "4 ^ (a - 1) + 4 ^ (a - 1) * (1 / 4) * f :: rat"
  have len: "length base_delays = 5" by (simp add: base_delays_def)
  have d: "backoff_seconds a f = Inr ?d"
    using assms base [of a] len by (simp add: backoff_seconds_def Let_def)
  have pos: "(0 :: rat) < 4 ^ (a - 1)" by simp
  have low: "4 ^ (a - 1) \<le> ?d" using assms(3) by simp
  have "4 ^ (a - 1) * (1 / 4) * f < 4 ^ (a - 1) * (1 / 4) * (1 :: rat)" using assms(4) pos by (intro mult_strict_left_mono) simp_all
  then have high: "?d < 4 ^ (a - 1) * (5 / 4)" by (simp add: field_simps)
  have "?d < e" if "a < 5" "backoff_seconds (Suc a) g = Inr e" for g e
  proof -
    have g: "0 \<le> g" "e = 4 ^ a + 4 ^ a * (1 / 4) * g"
      using that base [of "Suc a"] len by (auto simp: backoff_seconds_def Let_def split: if_splits)
    have "?d < 4 ^ (a - 1) * 4" using high pos by simp
    also have "\<dots> = 4 ^ a" using assms(1) by (cases a) simp_all
    also have "\<dots> \<le> e" using g by simp
    finally show ?thesis .
  qed
  then show ?thesis using d low high by blast
qed

theorem backoff_bounds_witness: "\<exists>d. backoff_seconds 3 (1 / 2) = Inr d \<and> 16 \<le> d \<and> d < 20"
  using backoff_bounds [of 3 "1 / 2"] by auto

section \<open>The interface of a worker\<close>

text \<open>
  Claiming may take an item, after which the state owes its settlement; settling pays that debt.  The
  states between turns satisfy \<open>P\<close>; with an item \<open>j\<close> taken they satisfy \<open>Q j\<close>.
\<close>

locale worker =
  fixes claim :: "turn \<Rightarrow> (work_db, 'j option) tx"
    and settle :: "turn \<Rightarrow> 'j \<Rightarrow> (work_db, verdict) tx"
    and P :: "work_db \<Rightarrow> bool"
    and Q :: "'j \<Rightarrow> work_db \<Rightarrow> bool"
    and good :: "turn \<Rightarrow> bool"
  assumes P_time: "P s \<Longrightarrow> P (at_time ts s)"
    and Q_time: "Q j s \<Longrightarrow> Q j (at_time ts s)"
    and claims: "P s \<Longrightarrow> \<exists>r t. claim k s = Inr (r, t) \<and> (case r of None \<Rightarrow> P t | Some j \<Rightarrow> Q j t)"
    and settles: "Q j s \<Longrightarrow> good k \<Longrightarrow> \<exists>v t. settle k j s = Inr (v, t) \<and> P t"
begin

lemma drain_settles:
  assumes "P s" "\<forall>k\<in>set ks. good k"
  shows "case drain claim settle deadline ks m s of
      None \<Rightarrow> \<forall>k\<in>set ks. tk_monotonic k < deadline
    | Some (Inl e) \<Rightarrow> False
    | Some (Inr (m', t)) \<Rightarrow> P t \<and> sm_claimed m \<le> sm_claimed m' \<and> sm_claimed m' \<le> sm_claimed m + length ks \<and>
        (sm_claimed m = sm_finished m + sm_retried m + sm_dead m \<longrightarrow>
         sm_claimed m' = sm_finished m' + sm_retried m' + sm_dead m')"
  using assms
proof (induction ks arbitrary: s m)
  case (Cons k ks)
  show ?case
  proof (cases "tk_monotonic k < deadline")
    case late: True
    obtain r t where claim: "claim k (at_time (tk_claim_at k) s) = Inr (r, t)" "case r of None \<Rightarrow> P t | Some j \<Rightarrow> Q j t"
      using claims [OF P_time [OF Cons.prems(1)]] by blast
    show ?thesis
    proof (cases r)
      case None
      then show ?thesis using claim late by simp
    next
      case (Some j)
      then obtain v u where settle: "settle k j (at_time (tk_settle_at k) t) = Inr (v, u)" "P u"
        using claim(2) settles [OF Q_time] Cons.prems(2) by fastforce
      have drain: "drain claim settle deadline (k # ks) m s = drain claim settle deadline ks (counted v m) u"
        using late claim(1) settle(1) Some by simp
      have m: "sm_claimed (counted v m) = Suc (sm_claimed m)"
        "sm_claimed m = sm_finished m + sm_retried m + sm_dead m \<longrightarrow>
         sm_claimed (counted v m) = sm_finished (counted v m) + sm_retried (counted v m) + sm_dead (counted v m)"
        by (cases v; simp add: counted_def)+
      show ?thesis
        using Cons.IH [OF settle(2), of "counted v m"] Cons.prems(2) late m
        unfolding drain by (auto split: option.splits sum.splits)
    qed
  qed (use Cons.prems in simp)
qed simp

lemma run_settles:
  assumes "P s" "\<forall>k\<in>set ks. good k" "0 < budget" "budget \<le> 50" "\<exists>k\<in>set ks. started + budget \<le> tk_monotonic k"
  obtains m t where "run_within claim settle started budget ks s = Some (Inr (m, t))" "P t"
    "sm_claimed m = sm_finished m + sm_retried m + sm_dead m" "sm_claimed m \<le> length ks"
  using drain_settles [OF assms(1,2), of "started + budget" no_work] assms(3-5)
  by (fastforce simp: run_within_def no_work_def split: option.splits sum.splits)

end

section \<open>Jobs\<close>

definition job_ok :: "job_row \<Rightarrow> bool" where
  "job_ok j \<longleftrightarrow> (jb_state j = Running \<longleftrightarrow> jb_locked j \<noteq> None) \<and> jb_attempts j \<le> jb_max j \<and> jb_max j \<le> 5 \<and>
     (jb_state j = Queued \<longrightarrow> jb_attempts j < jb_max j) \<and> (jb_state j = Running \<longrightarrow> 1 \<le> jb_attempts j) \<and>
     (jb_state j \<in> {JobDone, JobDead} \<longrightarrow> jb_finished j \<noteq> None) \<and> jb_correlation j \<noteq> []"

definition jobs_ok :: "work_db \<Rightarrow> bool" where
  "jobs_ok s \<longleftrightarrow> distinct (map jb_id (w_jobs s)) \<and> (\<forall>j\<in>set (w_jobs s). jb_id j < next_uuid (w_db s) \<and> job_ok j)"

definition running :: "work_db \<Rightarrow> uuid set" where
  "running s = {jb_id j | j. j \<in> set (w_jobs s) \<and> jb_state j = Running}"

lemma jobs_ok_time [simp]: "jobs_ok (at_time ts s) = jobs_ok s" "running (at_time ts s) = running s" "w_jobs (at_time ts s) = w_jobs s"
  by (simp_all add: jobs_ok_def at_time_def running_def)

lemma jobs_ok_cong:
  "w_jobs t = w_jobs s \<Longrightarrow> next_uuid (w_db t) = next_uuid (w_db s) \<Longrightarrow> jobs_ok t = jobs_ok s"
  by (simp add: jobs_ok_def)

lemma running_cong: "w_jobs t = w_jobs s \<Longrightarrow> running t = running s"
  by (simp add: running_def)

lemma enqueue_ok:
  assumes "jobs_ok s" "enqueue org kind payload n ra s = Inr (j, t)"
  shows "jobs_ok t" "running t = running s"
  using assms
  by (auto simp: enqueue_def Let_def tx_bind_Inr on_db_def fresh_uuid_Inr jobs_ok_def job_ok_def running_def now_def
      split: sum.splits prod.splits)

text \<open>One row updated, its identifier kept.\<close>

lemma one_row:
  assumes "jobs_ok s" "j \<in> set (w_jobs s)" "P j" "\<And>r. P r \<Longrightarrow> jb_id r = jb_id j"
  shows "filter P (w_jobs s) = [j]"
proof -
  have d: "distinct (w_jobs s)" "inj_on jb_id (set (w_jobs s))"
    using assms(1) by (auto simp: jobs_ok_def distinct_map)
  have "set (filter P (w_jobs s)) = {j}" using assms d(2) by (auto simp: inj_on_def)
  moreover have "distinct (filter P (w_jobs s))" using d(1) by simp
  ultimately have "length (filter P (w_jobs s)) = 1" "set (filter P (w_jobs s)) = {j}"
    by (simp_all flip: distinct_card)
  then show ?thesis by (cases "filter P (w_jobs s)") simp_all
qed

lemma update_rows_ok:
  assumes "jobs_ok s" "\<And>r. r \<in> set (w_jobs s) \<Longrightarrow> P r \<Longrightarrow> jb_id (f r) = jb_id r \<and> job_ok (f r)"
    and "w_jobs t = map (\<lambda>r. if P r then f r else r) (w_jobs s)" "next_uuid (w_db t) = next_uuid (w_db s)"
  shows "jobs_ok t"
proof -
  have "map jb_id (w_jobs t) = map jb_id (w_jobs s)" using assms(2,3) by simp
  moreover have "\<forall>r\<in>set (w_jobs t). jb_id r < next_uuid (w_db t) \<and> job_ok r"
    using assms by (auto simp: jobs_ok_def split: if_splits)
  ultimately show ?thesis using assms(1) by (simp add: jobs_ok_def)
qed

text \<open>The job just claimed, running in the state; the running jobs are among \<open>R\<close> and it.\<close>

definition idle_jobs :: "uuid set \<Rightarrow> work_db \<Rightarrow> bool" where
  "idle_jobs R s \<longleftrightarrow> jobs_ok s \<and> running s \<subseteq> R"

definition taken_job :: "uuid set \<Rightarrow> job_row \<Rightarrow> work_db \<Rightarrow> bool" where
  "taken_job R j s \<longleftrightarrow> jobs_ok s \<and> running s \<subseteq> insert (jb_id j) R \<and> j \<in> set (w_jobs s) \<and> jb_state j = Running"

lemma claim_job_Inr:
  assumes "claim_job locked s = Inr (r, t)"
  shows "case r of
      None \<Rightarrow> t = s \<and> (\<forall>j\<in>set (w_jobs s). ready (now s) j \<longrightarrow> locked (jb_id j))
    | Some j \<Rightarrow> \<exists>q\<in>set (w_jobs s). ready (now s) q \<and> \<not> locked (jb_id q) \<and> j = claimed (now s) q \<and>
        t = s\<lparr>w_jobs := map (\<lambda>x. if jb_id x = jb_id q then claimed (now s) x else x) (w_jobs s)\<rparr> \<and>
        (\<forall>x\<in>set (w_jobs s). ready (now s) x \<longrightarrow> \<not> locked (jb_id x) \<longrightarrow> claim_order q \<le> claim_order x)"
proof -
  let ?c = "filter (\<lambda>j. ready (now s) j \<and> \<not> locked (jb_id j)) (w_jobs s)"
  show ?thesis
  proof (cases "sort_key claim_order ?c")
    case Nil
    then have "?c = []" by (metis length_sort length_0_conv)
    then show ?thesis using assms Nil by (auto simp: claim_job_def filter_empty_conv)
  next
    case (Cons q qs)
    have "set (q # qs) = set ?c" unfolding Cons [symmetric] by simp
    moreover have "sorted (map claim_order (q # qs))" unfolding Cons [symmetric] by simp
    ultimately show ?thesis using assms Cons by (fastforce simp: claim_job_def)
  qed
qed

lemma claim_job_taken:
  assumes ok: "jobs_ok s" and free: "running s \<subseteq> R" and run: "claim_job locked s = Inr (Some j, t)"
  shows "jobs_ok t" "running t \<subseteq> insert (jb_id j) R" "j \<in> set (w_jobs t)" "jb_state j = Running"
proof -
  from claim_job_Inr [OF run] obtain q where q: "q \<in> set (w_jobs s)" "ready (now s) q" "j = claimed (now s) q"
    "t = s\<lparr>w_jobs := map (\<lambda>x. if jb_id x = jb_id q then claimed (now s) x else x) (w_jobs s)\<rparr>" by auto
  have one: "x = q" if "x \<in> set (w_jobs s)" "jb_id x = jb_id q" for x
    using ok q(1) that by (auto simp: jobs_ok_def distinct_map inj_on_def)
  have jq: "job_ok q" using ok q(1) by (simp add: jobs_ok_def)
  have "job_ok (claimed (now s) q)" "jb_id (claimed (now s) q) = jb_id q"
    using jq q(2) by (auto simp: claimed_def job_ok_def ready_def)
  then have "jb_id (claimed (now s) r) = jb_id r \<and> job_ok (claimed (now s) r)" if "r \<in> set (w_jobs s)" "jb_id r = jb_id q" for r
    using one [OF that] by simp
  then show "jobs_ok t" by (rule update_rows_ok [OF ok, of "\<lambda>x. jb_id x = jb_id q" "claimed (now s)"]) (simp_all add: q(4))
  show "running t \<subseteq> insert (jb_id j) R" using q free by (auto simp: running_def claimed_def)
  show "j \<in> set (w_jobs t)" "jb_state j = Running" using q by (auto simp: claimed_def)
qed

text \<open>A transition of the taken job and its audit always succeed, and touch nothing else.\<close>

definition job_updated :: "work_db \<Rightarrow> job_row \<Rightarrow> job_row \<Rightarrow> work_db \<Rightarrow> bool" where
  "job_updated s j r t \<longleftrightarrow> w_jobs t = map (\<lambda>x. if jb_id x = jb_id j then r else x) (w_jobs s) \<and>
     w_outbox t = w_outbox s \<and> (\<exists>a. w_db t = (w_db s)\<lparr>audits := a\<rparr>)"

lemma taken_row:
  assumes "taken_job R j s" "x \<in> set (w_jobs s)"
  shows "running_row (jb_org j) (jb_id j) x \<longleftrightarrow> x = j" "jb_id x = jb_id j \<longleftrightarrow> x = j"
proof -
  have "x = j" if "jb_id x = jb_id j"
    using assms that by (auto simp: taken_job_def jobs_ok_def distinct_map inj_on_def)
  then show "running_row (jb_org j) (jb_id j) x \<longleftrightarrow> x = j" "jb_id x = jb_id j \<longleftrightarrow> x = j"
    using assms(1) by (auto simp: taken_job_def running_row_def)
qed

lemma job_transition_run:
  assumes "taken_job R j s"
  shows "job_transition j f s = Inr ((), s\<lparr>w_jobs := map (\<lambda>x. if jb_id x = jb_id j then f (now s) j else x) (w_jobs s)\<rparr>)"
proof -
  have "filter (running_row (jb_org j) (jb_id j)) (w_jobs s) = [j]"
    using assms by (intro one_row) (auto simp: taken_job_def running_row_def)
  moreover have "map (\<lambda>x. if running_row (jb_org j) (jb_id j) x then f (now s) x else x) (w_jobs s) =
      map (\<lambda>x. if jb_id x = jb_id j then f (now s) j else x) (w_jobs s)"
    using taken_row [OF assms] by auto
  ultimately show ?thesis by (simp add: job_transition_def update_one_def tx_bind_def tx_read_def tx_require_def tx_return_def tx_update_def)
qed

lemma worker_audit_run:
  "correlation (w_db s) \<noteq> [] \<Longrightarrow> action \<noteq> [] \<Longrightarrow> target \<noteq> [] \<Longrightarrow>
     \<exists>a. worker_audit target org i action oc reason s = Inr ((), s\<lparr>w_db := (w_db s)\<lparr>audits := a\<rparr>\<rparr>)"
  by (auto simp: worker_audit_def on_db_def tx_bind_def audit_write_def Let_def tx_return_def)

lemma taken_correlation: "taken_job R j s \<Longrightarrow> jb_correlation j \<noteq> []"
  by (auto simp: taken_job_def jobs_ok_def job_ok_def)

lemma settle_job_run:
  assumes taken: "taken_job R j s" and action: "action \<noteq> []"
  shows "\<exists>t. with_correlation (jb_correlation j) (tx_bind (job_transition j f)
      (\<lambda>_. worker_audit ''job'' (jb_org j) (jb_id j) action oc reason)) s = Inr ((), t) \<and> job_updated s j (f (now s) j) t"
proof -
  let ?s = "s\<lparr>w_db := (w_db s)\<lparr>correlation := jb_correlation j\<rparr>\<rparr>"
  let ?rows = "map (\<lambda>x. if jb_id x = jb_id j then f (now s) j else x) (w_jobs s)"
  have "taken_job R j ?s" using taken by (auto simp: taken_job_def jobs_ok_def running_def)
  then have "job_transition j f ?s = Inr ((), ?s\<lparr>w_jobs := ?rows\<rparr>)"
    using job_transition_run [of R j ?s f] by (simp add: now_def)
  moreover obtain a where "worker_audit ''job'' (jb_org j) (jb_id j) action oc reason (?s\<lparr>w_jobs := ?rows\<rparr>) =
      Inr ((), ?s\<lparr>w_jobs := ?rows, w_db := (w_db ?s)\<lparr>audits := a\<rparr>\<rparr>)"
    using worker_audit_run [of "?s\<lparr>w_jobs := ?rows\<rparr>" action "''job''"] taken_correlation [OF taken] action by fastforce
  ultimately show ?thesis
    by (simp add: with_correlation_def tx_bind_def job_updated_def) (blast intro: exI [of _ a])
qed

lemma job_updated_idle:
  assumes taken: "taken_job R j s" and r: "jb_id r = jb_id j" "job_ok r" "jb_state r \<noteq> Running" and t: "job_updated s j r t"
  shows "idle_jobs R t"
proof -
  have t': "w_jobs t = map (\<lambda>x. if jb_id x = jb_id j then r else x) (w_jobs s)" "next_uuid (w_db t) = next_uuid (w_db s)"
    using t by (auto simp: job_updated_def)
  have ok: "jobs_ok s" "running s \<subseteq> insert (jb_id j) R" using taken by (simp_all add: taken_job_def)
  have "jobs_ok t"
    by (rule update_rows_ok [OF ok(1), of "\<lambda>x. jb_id x = jb_id j" "\<lambda>_. r"]) (use r t' in simp_all)
  moreover have "running t \<subseteq> R" using ok(2) r by (auto simp: t'(1) running_def)
  ultimately show ?thesis by (simp add: idle_jobs_def)
qed

text \<open>
  What the code relies on of a handler: it leaves the queue in order and starts no job itself, and on its
  own connections it also leaves its job's row alone.
\<close>

definition safe_handler :: "job_handler \<Rightarrow> bool" where
  "safe_handler h \<longleftrightarrow> (\<forall>j s c r. h j s = (c, r) \<longrightarrow> jobs_ok s \<longrightarrow> j \<in> set (w_jobs s) \<longrightarrow>
     jobs_ok c \<and> running c \<subseteq> running s \<and> j \<in> set (w_jobs c) \<and>
     (\<forall>t. r = Inr t \<longrightarrow> jobs_ok t \<and> running t \<subseteq> running s))"

text \<open>A registry of handlers that are all safe; a kind without a handler needs nothing.\<close>

definition safe_registry :: "(string \<Rightarrow> job_handler option) \<Rightarrow> bool" where
  "safe_registry handlers \<longleftrightarrow> (\<forall>k h. handlers k = Some h \<longrightarrow> safe_handler h)"

lemma complete_job_ok:
  assumes ok: "jobs_ok s" and run: "complete_job j s = Inr (u, t)"
  shows "jobs_ok t" "running t \<subseteq> running s - {jb_id j}" "w_db t = w_db s" "w_outbox t = w_outbox s"
proof -
  let ?P = "running_row (jb_org j) (jb_id j)" and ?f = "\<lambda>r. r\<lparr>jb_state := JobDone, jb_locked := None, jb_finished := Some (now s)\<rparr>"
  have n: "length (filter ?P (w_jobs s)) = 1" and t: "t = s\<lparr>w_jobs := map (\<lambda>r. if ?P r then ?f r else r) (w_jobs s)\<rparr>"
    using run by (auto simp: complete_job_def job_transition_def update_one_def tx_bind_Inr)
  show "jobs_ok t"
    by (rule update_rows_ok [OF ok, of ?P ?f]) (use ok in \<open>auto simp: t jobs_ok_def job_ok_def\<close>)
  obtain q where "filter ?P (w_jobs s) = [q]" using n by (auto simp: length_Suc_conv)
  then have "q \<in> set (filter ?P (w_jobs s))" by simp
  then have q: "q \<in> set (w_jobs s)" "?P q" by simp_all
  have other: "jb_id x \<noteq> jb_id j" if "x \<in> set (w_jobs s)" "jb_state x = Running" "\<not> ?P x" for x
  proof
    assume "jb_id x = jb_id j"
    then have "x = q" using ok q that(1) by (auto simp: running_row_def jobs_ok_def distinct_map inj_on_def)
    then show False using q(2) that(3) by simp
  qed
  show "running t \<subseteq> running s - {jb_id j}"
  proof
    fix i
    assume "i \<in> running t"
    then obtain x where x: "x \<in> set (w_jobs t)" "jb_state x = Running" "i = jb_id x" by (auto simp: running_def)
    then have "x \<in> set (w_jobs s)" "\<not> ?P x" by (auto simp: t split: if_splits)
    then show "i \<in> running s - {jb_id j}" using other x by (auto simp: running_def)
  qed
  show "w_db t = w_db s" "w_outbox t = w_outbox s" by (simp_all add: t)
qed

lemma under_correlation_ok:
  "jobs_ok (under_correlation c s) = jobs_ok s" "running (under_correlation c s) = running s" "w_jobs (under_correlation c s) = w_jobs s"
  by (simp_all add: under_correlation_def jobs_ok_def running_def)

lemma under_correlation_taken: "taken_job R j (under_correlation c s) = taken_job R j s"
  by (simp add: taken_job_def under_correlation_ok)

lemma safe_handlerD:
  assumes "safe_registry handlers" "handlers k = Some h" "taken_job R j s" "h j (under_correlation x s) = (c, r)"
  shows "taken_job R j c" "r = Inr t \<Longrightarrow> jobs_ok t \<and> running t \<subseteq> insert (jb_id j) R"
proof -
  have "safe_handler h" using assms(1,2) by (simp add: safe_registry_def)
  moreover have "jobs_ok (under_correlation x s)" "j \<in> set (w_jobs (under_correlation x s))"
    using assms(3) by (simp_all add: taken_job_def under_correlation_ok)
  ultimately have safe: "jobs_ok c \<and> running c \<subseteq> running (under_correlation x s) \<and> j \<in> set (w_jobs c) \<and>
      (\<forall>t. r = Inr t \<longrightarrow> jobs_ok t \<and> running t \<subseteq> running (under_correlation x s))"
    using assms(4) unfolding safe_handler_def by blast
  have "running (under_correlation x s) \<subseteq> insert (jb_id j) R" using assms(3) by (simp add: taken_job_def under_correlation_ok)
  then show "taken_job R j c" "r = Inr t \<Longrightarrow> jobs_ok t \<and> running t \<subseteq> insert (jb_id j) R"
    using safe assms(3) unfolding taken_job_def by blast+
qed

lemma attempt_job_ok:
  assumes taken: "taken_job R j s" and safe: "safe_registry handlers"
  shows "case attempt_job handlers j s of Inl (f, c) \<Rightarrow> taken_job R j c | Inr t \<Rightarrow> idle_jobs R t"
proof (cases "handlers (jb_kind j)")
  case None
  then show ?thesis using taken by (simp add: attempt_job_def)
next
  case (Some h)
  obtain c r where run: "h j (under_correlation (jb_correlation j) s) = (c, r)" by fastforce
  note kept = safe_handlerD [OF safe Some taken run]
  show ?thesis
  proof (cases "attempt_job handlers j s")
    case (Inl fc)
    then have "snd fc = under_correlation (correlation (w_db s)) c"
      by (auto simp: attempt_job_def Some run split: sum.splits)
    then show ?thesis using kept(1) Inl under_correlation_taken by (cases fc) simp
  next
    case (Inr t)
    then obtain u v x where h: "r = Inr u" "complete_job j u = Inr ((), v)"
      "worker_audit ''job'' (jb_org j) (jb_id j) ''job.done'' Success None v = Inr ((), x)"
      "t = under_correlation (correlation (w_db s)) x"
      by (auto simp: attempt_job_def Some run tx_bind_Inr split: sum.splits)
    have u: "jobs_ok u" "running u \<subseteq> insert (jb_id j) R" using kept(2) h(1) by blast+
    note v = complete_job_ok [OF u(1) h(2)]
    obtain a where x: "x = v\<lparr>w_db := (w_db v)\<lparr>audits := a\<rparr>\<rparr>"
      using h(3) by (auto simp: worker_audit_def on_db_def tx_bind_Inr audit_write_Inr split: sum.splits prod.splits)
    have "jobs_ok t = jobs_ok v" "running t = running v"
      by (rule jobs_ok_cong running_cong; simp add: h(4) x under_correlation_def)+
    then have "idle_jobs R t" using v(1,2) u(2) unfolding idle_jobs_def by blast
    then show ?thesis using Inr by simp
  qed
qed

lemma execute_job_run:
  assumes taken: "taken_job R j s" and safe: "safe_registry handlers" and f: "0 \<le> fraction" "fraction < 1"
  obtains (finished) t where "execute_job handlers fraction j s = Inr (Finished, t)" "attempt_job handlers j s = Inr t" "idle_jobs R t"
  | (again) t m d c where "execute_job handlers fraction j s = Inr (Retried, t)" "attempt_job handlers j s = Inl (Transient m, c)"
      "jb_attempts j < jb_max j" "backoff_seconds (jb_attempts j) fraction = Inr d" "idle_jobs R t"
      "job_updated c j (j\<lparr>jb_state := Queued, jb_locked := None, jb_run_after := now c + microseconds d,
         jb_error := Some (job_error (Transient m))\<rparr>) t"
  | (dead) t e c where "execute_job handlers fraction j s = Inr (GaveUp, t)" "attempt_job handlers j s = Inl (e, c)" "idle_jobs R t"
      "job_updated c j (j\<lparr>jb_state := JobDead, jb_locked := None, jb_finished := Some (now c), jb_error := Some (job_error e)\<rparr>) t"
proof (cases "attempt_job handlers j s")
  case (Inr t)
  then have "idle_jobs R t" using attempt_job_ok [OF taken safe] by simp
  then show ?thesis using finished [of t] Inr by (simp add: execute_job_def)
next
  case (Inl ec)
  obtain e c where ec: "ec = (e, c)" by (cases ec)
  have taken_c: "taken_job R j c" using attempt_job_ok [OF taken safe] Inl ec by simp
  have j: "job_ok j" "jb_state j = Running" using taken by (auto simp: taken_job_def jobs_ok_def)
  show ?thesis
  proof (cases "(case e of Transient m \<Rightarrow> True | _ \<Rightarrow> False) \<and> jb_attempts j < jb_max j")
    case True
    then obtain m where m: "e = Transient m" by (cases e) simp_all
    obtain d where d: "backoff_seconds (jb_attempts j) fraction = Inr d"
      using f j True by (auto simp: backoff_seconds_def job_ok_def base_delays_def Let_def)
    let ?f = "\<lambda>ts r. r\<lparr>jb_state := Queued, jb_locked := None, jb_run_after := ts + microseconds d, jb_error := Some (job_error e)\<rparr>"
    obtain t where t: "with_correlation (jb_correlation j) (tx_bind (job_transition j ?f)
        (\<lambda>_. worker_audit ''job'' (jb_org j) (jb_id j) ''job.retry'' ErrorOutcome (Some (job_error e)))) c = Inr ((), t)"
      "job_updated c j (?f (now c) j) t"
      using settle_job_run [OF taken_c, of "''job.retry''" ?f ErrorOutcome "Some (job_error e)"] by auto
    have "idle_jobs R t"
      by (rule job_updated_idle [OF taken_c _ _ _ t(2)]) (use j True in \<open>auto simp: job_ok_def\<close>)
    then show ?thesis
      using again [of t m c d] t d m True Inl ec by (simp add: execute_job_def retry_job_def tx_bind_def tx_lift_def tx_return_def)
  next
    case False
    let ?f = "\<lambda>ts r. r\<lparr>jb_state := JobDead, jb_locked := None, jb_finished := Some ts, jb_error := Some (job_error e)\<rparr>"
    obtain t where t: "with_correlation (jb_correlation j) (tx_bind (job_transition j ?f)
        (\<lambda>_. worker_audit ''job'' (jb_org j) (jb_id j) ''job.dead'' ErrorOutcome (Some (job_error e)))) c = Inr ((), t)"
      "job_updated c j (?f (now c) j) t"
      using settle_job_run [OF taken_c, of "''job.dead''" ?f ErrorOutcome "Some (job_error e)"] by auto
    have "idle_jobs R t"
      by (rule job_updated_idle [OF taken_c _ _ _ t(2)]) (use j in \<open>auto simp: job_ok_def\<close>)
    then show ?thesis
      using dead [of t e c] t False Inl ec
      by (simp add: execute_job_def record_dead_job_def dead_job_def tx_bind_def tx_return_def del: imp_conjL)
  qed
qed

definition fair_turn :: "turn \<Rightarrow> bool" where
  "fair_turn k \<longleftrightarrow> 0 \<le> tk_fraction k \<and> tk_fraction k < 1"

definition guarded :: "(string \<Rightarrow> job_handler option) \<Rightarrow> (string \<Rightarrow> job_handler option)" where
  "guarded handlers = (if safe_registry handlers then handlers else (\<lambda>_. None))"

lemma guarded_safe: "safe_registry (guarded handlers)"
  by (auto simp: guarded_def safe_registry_def)

interpretation jobs: worker "\<lambda>k. claim_job (tk_locked k)" "\<lambda>k. execute_job (guarded handlers) (tk_fraction k)"
  "idle_jobs R" "taken_job R" fair_turn for handlers R
proof (unfold_locales, goal_cases)
  case (1 s ts)
  then show ?case by (simp add: idle_jobs_def)
next
  case (2 j s ts)
  then show ?case by (simp add: taken_job_def)
next
  case (3 s k)
  then have ok: "jobs_ok s" "running s \<subseteq> R" by (simp_all add: idle_jobs_def)
  obtain r t where run: "claim_job (tk_locked k) s = Inr (r, t)"
    by (cases "sort_key claim_order (filter (\<lambda>j. ready (now s) j \<and> \<not> tk_locked k (jb_id j)) (w_jobs s))") (auto simp: claim_job_def)
  show ?case
  proof (cases r)
    case None
    then show ?thesis using run claim_job_Inr [OF run] ok by (auto simp: idle_jobs_def)
  next
    case (Some j)
    then show ?thesis using run claim_job_taken [OF ok] by (auto simp: taken_job_def)
  qed
next
  case (4 j s k)
  then have fair: "0 \<le> tk_fraction k" "tk_fraction k < 1" by (simp_all add: fair_turn_def)
  show ?case by (rule execute_job_run [OF 4(1) guarded_safe fair]) blast+
qed

text \<open>
  C22. A run of the job worker ends with its budget, whatever its jobs do: it raises nothing, settles every
  job it claimed, so no job is left running that was not running before, and counts each claim once as
  done, retried or dead.  The queue stays in order; attempts never pass their maximum of at most five.
\<close>

theorem run_jobs_settles:
  assumes "jobs_ok s" "safe_registry handlers" "\<forall>k\<in>set ks. fair_turn k"
    and "0 < budget" "budget \<le> 50" "\<exists>k\<in>set ks. started + budget \<le> tk_monotonic k"
  shows "\<exists>m t. run_jobs handlers started budget ks s = Some (Inr (m, t)) \<and> jobs_ok t \<and> running t \<subseteq> running s \<and>
    sm_claimed m = sm_finished m + sm_retried m + sm_dead m \<and> sm_claimed m \<le> length ks"
proof -
  have "guarded handlers = handlers" using assms(2) by (simp add: guarded_def)
  moreover have "idle_jobs (running s) s" using assms(1) by (simp add: idle_jobs_def)
  then show ?thesis
    using jobs.run_settles [OF _ assms(3-6), of "running s" s handlers] calculation
    unfolding run_jobs_def idle_jobs_def by metis
qed

section \<open>A queue with two jobs\<close>

text \<open>A report that completes by asking for a second job, and an import whose provider is busy.\<close>

definition sample_handlers :: "string \<Rightarrow> job_handler option" where
  "sample_handlers kind =
     (if kind = ''report'' then Some (\<lambda>j s. (s, case enqueue (jb_org j) ''import'' JNull 5 None s of Inl e \<Rightarrow> Inl (Unexpected (error_class e)) | Inr (_, t) \<Rightarrow> Inr t))
      else if kind = ''import'' then Some (\<lambda>j s. (s, Inl (Transient ''busy''))) else None)"

definition sample_queue :: work_db where
  "sample_queue = \<lparr>w_db = empty_db, w_jobs = [\<lparr>jb_id = 1, jb_org = 2, jb_kind = ''report'', jb_payload = JNull,
     jb_state = Queued, jb_attempts = 0, jb_max = 5, jb_run_after = 0, jb_locked = None, jb_error = None,
     jb_correlation = ''r1'', jb_progress = None, jb_finished = None\<rparr>], w_outbox = []\<rparr>"

definition sample_turn :: "rat \<Rightarrow> turn" where
  "sample_turn m = \<lparr>tk_monotonic = m, tk_claim_at = 100, tk_settle_at = 200, tk_fraction = 1 / 2, tk_locked = (\<lambda>_. False)\<rparr>"

lemma sample_handlers_safe: "safe_registry sample_handlers"
  using enqueue_ok
  by (fastforce simp: safe_registry_def sample_handlers_def safe_handler_def split: if_splits sum.splits prod.splits)

lemma sample_queue_ok: "jobs_ok sample_queue"
  by (simp add: sample_queue_def jobs_ok_def job_ok_def empty_db_def)

lemma sample_run:
  "case run_jobs sample_handlers 0 50 (map sample_turn [1, 2, 60]) sample_queue of
     Some (Inr (m, t)) \<Rightarrow> sm_finished m = 1 \<and> sm_claimed m = 1 \<and> map jb_state (w_jobs t) = [JobDone, Queued]
   | _ \<Rightarrow> False"
  by code_simp

lemma sample_fair: "fair_turn (sample_turn m)"
  by (simp add: fair_turn_def sample_turn_def)

theorem run_jobs_settles_witness:
  "\<exists>m t. run_jobs sample_handlers 0 50 (map sample_turn [1, 2, 60]) sample_queue = Some (Inr (m, t)) \<and>
     running t = {} \<and> map jb_state (w_jobs t) = [JobDone, Queued]"
proof -
  have "running sample_queue = {}" by (simp add: running_def sample_queue_def)
  then show ?thesis
    using run_jobs_settles [OF sample_queue_ok sample_handlers_safe, of "map sample_turn [1, 2, 60]" 50 0] sample_run sample_fair
    by (auto simp: sample_turn_def split: option.splits sum.splits)
qed

end
