(* ===== verification/OutboxLaws.thy ===== *)
theory OutboxLaws
  imports WorkLaws
begin

text \<open>
  What the outbox guarantees: a claimed effect is leased to one worker for five minutes, one that was
  sent is never handed out again, and a run of the dispatcher settles all it claims.
\<close>

section \<open>The rows in order\<close>

definition outbox_row_ok :: "outbox_row \<Rightarrow> bool" where
  "outbox_row_ok r \<longleftrightarrow> ob_max r \<le> 5 \<and> (ob_locked r \<noteq> None \<longrightarrow> undelivered r \<and> 1 \<le> ob_attempts r) \<and>
     (ob_state r = Sent \<longleftrightarrow> ob_message r \<noteq> None) \<and> (ob_state r = Sent \<longleftrightarrow> ob_sent r \<noteq> None) \<and> ob_correlation r \<noteq> []"

definition outbox_ok :: "work_db \<Rightarrow> bool" where
  "outbox_ok s \<longleftrightarrow> distinct (map ob_id (w_outbox s)) \<and> (\<forall>r\<in>set (w_outbox s). ob_id r < next_uuid (w_db s) \<and> outbox_row_ok r)"

definition leases :: "work_db \<Rightarrow> uuid set" where
  "leases s = {ob_id r | r. r \<in> set (w_outbox s) \<and> ob_locked r \<noteq> None}"

lemma outbox_time [simp]: "outbox_ok (at_time ts s) = outbox_ok s" "leases (at_time ts s) = leases s" "w_outbox (at_time ts s) = w_outbox s"
  by (simp_all add: outbox_ok_def at_time_def leases_def)

lemma now_simps [simp]: "now (s\<lparr>w_outbox := rs\<rparr>) = now s" "now (at_time ts s) = ts"
  by (simp_all add: now_def at_time_def)

lemma leased_id [simp]: "ob_id (leased ts r) = ob_id r"
  by (simp add: leased_def)

lemma outbox_one:
  assumes "outbox_ok s" "r \<in> set (w_outbox s)" "x \<in> set (w_outbox s)" "ob_id x = ob_id r"
  shows "x = r"
  using assms by (auto simp: outbox_ok_def distinct_map inj_on_def)

text \<open>Every append keeps the rows in order; so do the deletions.\<close>

lemma insert_outbox_ok:
  assumes "outbox_ok s" "insert_outbox r s = Inr (x, t)" "ob_id r < next_uuid (w_db s)" "ob_id r \<notin> ob_id ` set (w_outbox s)" "outbox_row_ok r"
  shows "outbox_ok t"
  using assms by (auto simp: insert_outbox_def tx_bind_Inr outbox_ok_def)

lemma add_outbox_ok:
  assumes "outbox_ok s" "add_outbox org topic payload key n s = Inr (x, t)"
  shows "outbox_ok t"
proof -
  from assms(2) obtain r u where u: "insert_outbox r u = Inr (x, t)" "w_outbox u = w_outbox s" "ob_id r = next_uuid (w_db s)"
    "next_uuid (w_db u) = Suc (next_uuid (w_db s))" "outbox_row_ok r"
    by (auto simp: add_outbox_def tx_bind_Inr on_db_def fresh_uuid_Inr new_outbox_def outbox_row_ok_def undelivered_def
        split: sum.splits prod.splits)
  show ?thesis
    by (rule insert_outbox_ok [OF _ u(1)]) (use assms(1) u in \<open>auto simp: outbox_ok_def image_iff\<close>)
qed

lemma filtered_outbox_ok:
  "outbox_ok s \<Longrightarrow> w_outbox t = filter P (w_outbox s) \<Longrightarrow> next_uuid (w_db t) = next_uuid (w_db s) \<Longrightarrow> outbox_ok t \<and> leases t \<subseteq> leases s"
  by (auto simp: outbox_ok_def leases_def distinct_map_filter)

lemma delete_outbox_ok: "outbox_ok s \<Longrightarrow> delete_outbox P s = Inr (n, t) \<Longrightarrow> outbox_ok t"
  using filtered_outbox_ok [of s t "\<lambda>r. \<not> P r"] by (auto simp: delete_outbox_def)

section \<open>Claims\<close>

definition alive :: "work_db \<Rightarrow> outbox_row list" where
  "alive s = filter (\<lambda>r. \<not> expired (now s) r) (w_outbox s)"

lemma claim_outbox_defined: "\<exists>r t. claim_outbox locked s = Inr (r, t)"
  by (auto simp: claim_outbox_def tx_bind_def tx_update_def split: list.split)

lemma claim_outbox_Inr:
  assumes "claim_outbox locked s = Inr (r, t)"
  shows "case r of
      None \<Rightarrow> t = s\<lparr>w_outbox := alive s\<rparr>
    | Some j \<Rightarrow> \<exists>q\<in>set (alive s). deliverable (now s) q \<and> \<not> locked (ob_id q) \<and> j = leased (now s) q \<and>
        t = s\<lparr>w_outbox := map (\<lambda>x. if ob_id x = ob_id q then leased (now s) x else x) (alive s)\<rparr>"
proof -
  let ?s = "s\<lparr>w_outbox := alive s\<rparr>"
  let ?c = "filter (\<lambda>r. deliverable (now s) r \<and> \<not> locked (ob_id r)) (alive s)"
  show ?thesis
  proof (cases "sort_key (\<lambda>r. (ob_run_after r, ob_id r)) ?c")
    case Nil
    then show ?thesis using assms by (auto simp: claim_outbox_def tx_bind_def tx_update_def alive_def cong: if_cong)
  next
    case (Cons q qs)
    have "set (q # qs) = set ?c" unfolding Cons [symmetric] by simp
    then have "q \<in> set (alive s)" "deliverable (now s) q" "\<not> locked (ob_id q)" by auto
    then show ?thesis using assms Cons by (auto simp: claim_outbox_def tx_bind_def tx_update_def alive_def cong: if_cong)
  qed
qed

definition idle_outbox :: "uuid set \<Rightarrow> work_db \<Rightarrow> bool" where
  "idle_outbox R s \<longleftrightarrow> outbox_ok s \<and> leases s \<subseteq> R"

definition taken_outbox :: "uuid set \<Rightarrow> outbox_row \<Rightarrow> work_db \<Rightarrow> bool" where
  "taken_outbox R r s \<longleftrightarrow> outbox_ok s \<and> leases s \<subseteq> insert (ob_id r) R \<and> r \<in> set (w_outbox s) \<and> ob_locked r \<noteq> None"

lemma alive_ok: "outbox_ok s \<Longrightarrow> outbox_ok (s\<lparr>w_outbox := alive s\<rparr>) \<and> leases (s\<lparr>w_outbox := alive s\<rparr>) \<subseteq> leases s"
  by (rule filtered_outbox_ok [of _ _ "\<lambda>r. \<not> expired (now s) r"]) (simp_all add: alive_def)

lemma claim_outbox_taken:
  assumes ok: "outbox_ok s" and free: "leases s \<subseteq> R" and run: "claim_outbox locked s = Inr (Some r, t)"
  shows "taken_outbox R r t"
proof -
  let ?s = "s\<lparr>w_outbox := alive s\<rparr>"
  from claim_outbox_Inr [OF run] obtain q where q: "q \<in> set (alive s)" "deliverable (now s) q" "r = leased (now s) q"
    "t = s\<lparr>w_outbox := map (\<lambda>x. if ob_id x = ob_id q then leased (now s) x else x) (alive s)\<rparr>" by auto
  have ok': "outbox_ok ?s" "leases ?s \<subseteq> R" using alive_ok [OF ok] free by auto
  have one: "x = q" if "x \<in> set (alive s)" "ob_id x = ob_id q" for x
    using outbox_one [OF ok'(1), of q x] q(1) that by simp
  have "outbox_row_ok q" using ok'(1) q(1) by (simp add: outbox_ok_def)
  then have r: "outbox_row_ok r" "ob_id r = ob_id q" using q(2,3) by (auto simp: outbox_row_ok_def leased_def deliverable_def undelivered_def)
  have ids: "map ob_id (w_outbox t) = map ob_id (alive s)" by (simp add: q(4) comp_def cong: if_cong)
  have "distinct (map ob_id (w_outbox t))" unfolding ids using ok'(1) by (simp add: outbox_ok_def)
  moreover have "outbox_row_ok x \<and> ob_id x < next_uuid (w_db s)" if "x \<in> set (w_outbox t)" for x
    using that ok'(1) one r q(1,3) by (auto simp: q(4) outbox_ok_def split: if_splits)
  ultimately have "outbox_ok t" unfolding outbox_ok_def by (simp add: q(4))
  moreover have "leases t \<subseteq> insert (ob_id r) R" using ok'(2) r(2) by (auto simp: q(4) leases_def leased_def)
  moreover have "r \<in> set (w_outbox t)" "ob_locked r \<noteq> None" using q by (auto simp: leased_def)
  ultimately show ?thesis by (simp add: taken_outbox_def)
qed

section \<open>Settling a lease\<close>

text \<open>A transition of the leased row, and its audit when the row belongs to an organization, always succeed.\<close>

definition outbox_updated :: "work_db \<Rightarrow> outbox_row \<Rightarrow> outbox_row \<Rightarrow> work_db \<Rightarrow> bool" where
  "outbox_updated s r x t \<longleftrightarrow> w_outbox t = map (\<lambda>y. if ob_id y = ob_id r then x else y) (w_outbox s) \<and>
     w_jobs t = w_jobs s \<and> (\<exists>a. w_db t = (w_db s)\<lparr>audits := a\<rparr>)"

lemma leased_one:
  assumes "taken_outbox R r s" "x \<in> set (w_outbox s)"
  shows "leased_row r x \<longleftrightarrow> x = r" "ob_id x = ob_id r \<longleftrightarrow> x = r"
proof -
  have row: "outbox_row_ok r" using assms(1) by (simp add: taken_outbox_def outbox_ok_def)
  have "x = r" if "ob_id x = ob_id r" using assms that outbox_one [of s r x] by (simp add: taken_outbox_def)
  then show "leased_row r x \<longleftrightarrow> x = r" "ob_id x = ob_id r \<longleftrightarrow> x = r"
    using assms(1) row by (auto simp: leased_row_def taken_outbox_def outbox_row_ok_def)
qed

lemma outbox_transition_run:
  assumes "taken_outbox R r s"
  shows "outbox_transition r f s = Inr ((), s\<lparr>w_outbox := map (\<lambda>y. if ob_id y = ob_id r then f (now s) r else y) (w_outbox s)\<rparr>)"
proof -
  have d: "distinct (w_outbox s)" "r \<in> set (w_outbox s)"
    using assms by (auto simp: taken_outbox_def outbox_ok_def distinct_map)
  then have "card (set (filter (leased_row r) (w_outbox s))) = card {r}"
    using leased_one(1) [OF assms] by (intro arg_cong [where f = card]) auto
  then have "length (filter (leased_row r) (w_outbox s)) = 1" using d(1) by (simp flip: distinct_card)
  moreover have "map (\<lambda>x. if leased_row r x then f (now s) x else x) (w_outbox s) =
      map (\<lambda>y. if ob_id y = ob_id r then f (now s) r else y) (w_outbox s)"
    using leased_one [OF assms] by auto
  ultimately show ?thesis by (simp add: outbox_transition_def tx_bind_def tx_read_def tx_require_def tx_return_def tx_update_def)
qed

lemma outbox_audit_run:
  "correlation (w_db s) \<noteq> [] \<Longrightarrow> action \<noteq> [] \<Longrightarrow>
     \<exists>a. outbox_audit r action oc reason s = Inr ((), s\<lparr>w_db := (w_db s)\<lparr>audits := a\<rparr>\<rparr>)"
  using worker_audit_run [of s action "''outbox''"]
  by (cases "ob_org r") (auto simp: outbox_audit_def tx_return_def intro: exI [of _ "audits (w_db s)"])

lemma settle_outbox_run:
  assumes taken: "taken_outbox R r s" and action: "action \<noteq> []"
  shows "\<exists>t. with_correlation (ob_correlation r) (tx_bind (outbox_transition r f)
      (\<lambda>_. outbox_audit r action oc reason)) s = Inr ((), t) \<and> outbox_updated s r (f (now s) r) t"
proof -
  let ?s = "s\<lparr>w_db := (w_db s)\<lparr>correlation := ob_correlation r\<rparr>\<rparr>"
  let ?rows = "map (\<lambda>y. if ob_id y = ob_id r then f (now s) r else y) (w_outbox s)"
  have c: "ob_correlation r \<noteq> []" using taken by (auto simp: taken_outbox_def outbox_ok_def outbox_row_ok_def)
  have "taken_outbox R r ?s" using taken by (auto simp: taken_outbox_def outbox_ok_def leases_def)
  then have "outbox_transition r f ?s = Inr ((), ?s\<lparr>w_outbox := ?rows\<rparr>)"
    using outbox_transition_run [of R r ?s f] by (simp add: now_def)
  moreover obtain a where "outbox_audit r action oc reason (?s\<lparr>w_outbox := ?rows\<rparr>) =
      Inr ((), ?s\<lparr>w_outbox := ?rows, w_db := (w_db ?s)\<lparr>audits := a\<rparr>\<rparr>)"
    using outbox_audit_run [of "?s\<lparr>w_outbox := ?rows\<rparr>" action] c action by fastforce
  ultimately show ?thesis
    by (simp add: with_correlation_def tx_bind_def outbox_updated_def) (blast intro: exI [of _ a])
qed

lemma outbox_updated_idle:
  assumes taken: "taken_outbox R r s" and x: "ob_id x = ob_id r" "outbox_row_ok x" "ob_locked x = None" and t: "outbox_updated s r x t"
  shows "idle_outbox R t"
proof -
  have t': "w_outbox t = map (\<lambda>y. if ob_id y = ob_id r then x else y) (w_outbox s)" "next_uuid (w_db t) = next_uuid (w_db s)"
    using t by (auto simp: outbox_updated_def)
  have ok: "outbox_ok s" "leases s \<subseteq> insert (ob_id r) R" "r \<in> set (w_outbox s)" using taken by (simp_all add: taken_outbox_def)
  have ids: "map ob_id (w_outbox t) = map ob_id (w_outbox s)" using x(1) by (simp add: t' comp_def cong: if_cong)
  have "distinct (map ob_id (w_outbox t))" unfolding ids using ok(1) by (simp add: outbox_ok_def)
  moreover have "ob_id y < next_uuid (w_db t) \<and> outbox_row_ok y" if "y \<in> set (w_outbox t)" for y
    using that ok(1,3) x(1,2) by (auto simp: t' outbox_ok_def split: if_splits)
  ultimately have "outbox_ok t" by (simp add: outbox_ok_def)
  moreover have "leases t \<subseteq> R" using ok(2) x by (auto simp: t'(1) leases_def)
  ultimately show ?thesis by (simp add: idle_outbox_def)
qed

text \<open>What one delivery makes of the leased row.\<close>

definition delivered_row :: "timestamp \<Rightarrow> outbox_row \<Rightarrow> verdict \<Rightarrow> outbox_row \<Rightarrow> bool" where
  "delivered_row ts r v x \<longleftrightarrow>
     (case v of
        Finished \<Rightarrow> (\<exists>m. m \<noteq> [] \<and> x = r\<lparr>ob_state := Sent, ob_locked := None, ob_payload := [], ob_message := Some m, ob_sent := Some ts\<rparr>)
      | Retried \<Rightarrow> (\<exists>d e. 1 \<le> d \<and> x = r\<lparr>ob_state := Failed, ob_locked := None, ob_run_after := ts + microseconds d, ob_error := Some e\<rparr>)
      | GaveUp \<Rightarrow> (\<exists>e. x = r\<lparr>ob_state := Dead, ob_locked := None, ob_error := Some e\<rparr>))"

lemma attempt_delivery_run:
  assumes taken: "taken_outbox R r s"
  shows "case handlers (ob_topic r) of
      None \<Rightarrow> attempt_delivery handlers r s = Inl (Permanent ''outbox topic has no registered handler'')
    | Some h \<Rightarrow> (case h r of
        Inl f \<Rightarrow> attempt_delivery handlers r s = Inl f
      | Inr m \<Rightarrow> if m = [] then attempt_delivery handlers r s = Inl (Unexpected ''ValueError'')
          else \<exists>t x. attempt_delivery handlers r s = Inr t \<and> delivered_row (now s) r Finished x \<and> outbox_updated s r x t)"
proof -
  have "attempt_delivery handlers r s = Inl (Unexpected ''ValueError'')"
    if "handlers (ob_topic r) = Some h" "h r = Inr []" for h
    using that by (simp add: attempt_delivery_def sent_outbox_def with_correlation_def tx_bind_def tx_require_def tx_fail_def error_class_def)
  moreover have "\<exists>t x. attempt_delivery handlers r s = Inr t \<and> delivered_row (now s) r Finished x \<and> outbox_updated s r x t"
    if h: "handlers (ob_topic r) = Some h" "h r = Inr m" "m \<noteq> []" for h m
  proof -
    let ?f = "\<lambda>ts x. x\<lparr>ob_state := Sent, ob_locked := None, ob_payload := [], ob_message := Some m, ob_sent := Some ts\<rparr>"
    have sent: "sent_outbox r m = outbox_transition r ?f"
      using h(3) by (simp add: sent_outbox_def tx_bind_def tx_require_def tx_return_def fun_eq_iff)
    obtain t where t: "with_correlation (ob_correlation r) (tx_bind (outbox_transition r ?f)
        (\<lambda>_. outbox_audit r ''outbox.sent'' Success None)) s = Inr ((), t)" "outbox_updated s r (?f (now s) r) t"
      using settle_outbox_run [OF taken, of "''outbox.sent''" ?f Success None] by auto
    have "attempt_delivery handlers r s = Inr t" using h t(1) by (simp add: attempt_delivery_def sent)
    then show ?thesis using t(2) h(3) by (auto simp: delivered_row_def)
  qed
  ultimately show ?thesis by (auto simp: attempt_delivery_def split: option.split sum.split)
qed

lemma delivered_row_idle:
  assumes taken: "taken_outbox R r s" and x: "delivered_row ts r v x" and t: "outbox_updated s r x t"
  shows "idle_outbox R t"
proof -
  have "outbox_row_ok r" "ob_locked r \<noteq> None" using taken by (simp_all add: taken_outbox_def outbox_ok_def)
  then have "outbox_row_ok x" "ob_id x = ob_id r" "ob_locked x = None"
    using x by (auto simp: delivered_row_def outbox_row_ok_def undelivered_def split: verdict.splits)
  then show ?thesis using outbox_updated_idle [OF taken _ _ _ t] by simp
qed

lemma deliver_run:
  assumes taken: "taken_outbox R r s" and f: "0 \<le> fraction" "fraction < 1"
  obtains v t x where "deliver handlers fraction r s = Inr (v, t)" "delivered_row (now s) r v x" "outbox_updated s r x t"
    "v = Finished \<longleftrightarrow> (\<exists>h m. handlers (ob_topic r) = Some h \<and> h r = Inr m \<and> m \<noteq> [])"
    "v = Retried \<longleftrightarrow> (\<exists>h m. handlers (ob_topic r) = Some h \<and> h r = Inl (Transient m) \<and> ob_attempts r < ob_max r)"
proof (cases "attempt_delivery handlers r s")
  case (Inr t)
  have "\<exists>h m. handlers (ob_topic r) = Some h \<and> h r = Inr m \<and> m \<noteq> []" "\<exists>x. delivered_row (now s) r Finished x \<and> outbox_updated s r x t"
    using attempt_delivery_run [OF taken, of handlers] Inr by (auto split: option.splits sum.splits if_splits)
  then show ?thesis using that [of Finished t] Inr by (auto simp: deliver_def)
next
  case (Inl e)
  have no: "\<not> (\<exists>h m. handlers (ob_topic r) = Some h \<and> h r = Inr m \<and> m \<noteq> [])"
    and tr: "(\<exists>m. e = Transient m) \<longleftrightarrow> (\<exists>h m. handlers (ob_topic r) = Some h \<and> h r = Inl (Transient m))"
    using attempt_delivery_run [OF taken, of handlers] Inl by (auto split: option.splits sum.splits if_splits)
  have row: "outbox_row_ok r" "1 \<le> ob_attempts r" using taken by (auto simp: taken_outbox_def outbox_ok_def outbox_row_ok_def)
  show ?thesis
  proof (cases "(case e of Transient m \<Rightarrow> True | _ \<Rightarrow> False) \<and> ob_attempts r < ob_max r")
    case True
    then obtain m where m: "e = Transient m" by (cases e) simp_all
    obtain d where d: "backoff_seconds (ob_attempts r) fraction = Inr d" "1 \<le> d"
      using backoff_bounds [of "ob_attempts r" fraction] f True row
      by (fastforce simp: outbox_row_ok_def intro: order_trans [of 1 "4 ^ (ob_attempts r - 1)"])
    let ?f = "\<lambda>ts x. x\<lparr>ob_state := Failed, ob_locked := None, ob_run_after := ts + microseconds d, ob_error := Some (outbox_error e)\<rparr>"
    obtain t where t: "with_correlation (ob_correlation r) (tx_bind (outbox_transition r ?f)
        (\<lambda>_. outbox_audit r ''outbox.retry'' ErrorOutcome (Some (outbox_error e)))) s = Inr ((), t)" "outbox_updated s r (?f (now s) r) t"
      using settle_outbox_run [OF taken, of "''outbox.retry''" ?f ErrorOutcome "Some (outbox_error e)"] by auto
    have "deliver handlers fraction r s = Inr (Retried, t)"
      using t d m True Inl by (simp add: deliver_def retry_outbox_def tx_bind_def tx_lift_def tx_return_def)
    moreover have "delivered_row (now s) r Retried (?f (now s) r)" using d(2) by (auto simp: delivered_row_def)
    ultimately show ?thesis using that [of Retried t] t(2) no tr m True by auto
  next
    case False
    let ?f = "\<lambda>ts x. x\<lparr>ob_state := Dead, ob_locked := None, ob_error := Some (outbox_error e)\<rparr>"
    obtain t where t: "with_correlation (ob_correlation r) (tx_bind (outbox_transition r ?f)
        (\<lambda>_. outbox_audit r ''outbox.dead'' ErrorOutcome (Some (outbox_error e)))) s = Inr ((), t)" "outbox_updated s r (?f (now s) r) t"
      using settle_outbox_run [OF taken, of "''outbox.dead''" ?f ErrorOutcome "Some (outbox_error e)"] by auto
    have "deliver handlers fraction r s = tx_bind (record_dead_outbox r (outbox_error e)) (\<lambda>_. tx_return GaveUp) s"
      by (simp only: deliver_def Inl sum.case if_not_P [OF False])
    then have "deliver handlers fraction r s = Inr (GaveUp, t)"
      using t by (simp add: record_dead_outbox_def dead_outbox_def tx_bind_def tx_return_def)
    moreover have "delivered_row (now s) r GaveUp (?f (now s) r)" by (auto simp: delivered_row_def)
    moreover have "\<not> (\<exists>h m. handlers (ob_topic r) = Some h \<and> h r = Inl (Transient m) \<and> ob_attempts r < ob_max r)"
      using False tr by (cases e) auto
    ultimately show ?thesis using that [of GaveUp t] t(2) no by auto
  qed
qed

interpretation outbox: worker "\<lambda>k. claim_outbox (tk_locked k)" "\<lambda>k. deliver handlers (tk_fraction k)"
  "idle_outbox R" "taken_outbox R" fair_turn for handlers R
proof (unfold_locales, goal_cases)
  case (1 s ts)
  then show ?case by (simp add: idle_outbox_def)
next
  case (2 r s ts)
  then show ?case by (simp add: taken_outbox_def)
next
  case (3 s k)
  then have ok: "outbox_ok s" "leases s \<subseteq> R" by (simp_all add: idle_outbox_def)
  obtain r t where run: "claim_outbox (tk_locked k) s = Inr (r, t)"
    using claim_outbox_defined by blast
  show ?case
  proof (cases r)
    case None
    then show ?thesis using run claim_outbox_Inr [OF run] alive_ok [OF ok(1)] ok(2) by (auto simp: idle_outbox_def)
  next
    case (Some j)
    then show ?thesis using run claim_outbox_taken [OF ok] by auto
  qed
next
  case (4 r s k)
  then have fair: "0 \<le> tk_fraction k" "tk_fraction k < 1" by (simp_all add: fair_turn_def)
  show ?case
  proof (rule deliver_run [OF 4(1) fair, where handlers = handlers], goal_cases)
    case (1 v t x)
    have "idle_outbox R t" by (rule delivered_row_idle [OF 4(1) 1(2,3)])
    then show ?case using 1(1) by blast
  qed
qed

text \<open>
  A run of the dispatcher ends with its budget, whatever the providers answer: it raises nothing, releases
  every lease it took, and counts each claim once as sent, retried or dead.  The rows stay in order: a row is
  sent exactly when it has a provider's message and a time, and only an undelivered row is leased.
\<close>

theorem run_outbox_settles:
  assumes "outbox_ok s" "\<forall>k\<in>set ks. fair_turn k" "0 < budget" "budget \<le> 50"
    and "\<exists>k\<in>set ks. started + budget \<le> tk_monotonic k"
  shows "\<exists>m t. run_outbox handlers started budget ks s = Some (Inr (m, t)) \<and> outbox_ok t \<and> leases t \<subseteq> leases s \<and>
    sm_claimed m = sm_finished m + sm_retried m + sm_dead m \<and> sm_claimed m \<le> length ks"
proof -
  have "idle_outbox (leases s) s" using assms(1) by (simp add: idle_outbox_def)
  then show ?thesis
    using outbox.run_settles [OF _ assms(2-5), of "leases s" s handlers]
    unfolding run_outbox_def idle_outbox_def by metis
qed

section \<open>Whose turn it is\<close>

text \<open>
  What can happen to the outbox: time passes, a worker claims, a delivery of a row is settled (the step is
  labelled with the row), rows are appended, mail is discarded, and the rest of the service works.
\<close>

inductive outbox_step :: "uuid option \<Rightarrow> work_db \<Rightarrow> work_db \<Rightarrow> bool" where
  time_passes: "now s \<le> ts \<Longrightarrow> outbox_step None s (at_time ts s)"
| row_claimed: "claim_outbox locked s = Inr (found, t) \<Longrightarrow> outbox_step None s t"
| row_settled: "deliver handlers fraction r s = Inr (v, t) \<Longrightarrow> outbox_step (Some (ob_id r)) s t"
| row_added: "add_outbox org topic payload key n s = Inr (r, t) \<Longrightarrow> outbox_step None s t"
| identity_row_added: "add_identity_email i addr template args key made until s = Inr (r, t) \<Longrightarrow> outbox_step None s t"
| rows_discarded: "delete_outbox P s = Inr (n, t) \<Longrightarrow> outbox_step None s t"
| other_work: "w_outbox t = w_outbox s \<Longrightarrow> next_uuid (w_db s) \<le> next_uuid (w_db t) \<Longrightarrow> now s \<le> now t \<Longrightarrow> outbox_step None s t"

inductive outbox_steps :: "uuid set \<Rightarrow> work_db \<Rightarrow> work_db \<Rightarrow> bool" where
  no_step: "outbox_steps A s s"
| one_more: "outbox_steps A s t \<Longrightarrow> outbox_step l t u \<Longrightarrow> set_option l \<subseteq> A \<Longrightarrow> outbox_steps A s u"

text \<open>Every row with an identifier is of a kind; the identifier is not handed out again.\<close>

definition all_such :: "uuid \<Rightarrow> (outbox_row \<Rightarrow> bool) \<Rightarrow> work_db \<Rightarrow> bool" where
  "all_such i P s \<longleftrightarrow> outbox_ok s \<and> i < next_uuid (w_db s) \<and> (\<forall>x\<in>set (w_outbox s). ob_id x = i \<longrightarrow> P x)"

text \<open>A settlement rewrites nothing but the leased rows it is about.\<close>

definition rewritten :: "outbox_row \<Rightarrow> work_db \<Rightarrow> work_db \<Rightarrow> bool" where
  "rewritten r s t \<longleftrightarrow> next_uuid (w_db t) = next_uuid (w_db s) \<and> now t = now s \<and>
     (\<exists>g. w_outbox t = map (\<lambda>x. if leased_row r x then g x else x) (w_outbox s) \<and>
       (\<forall>x. leased_row r x \<longrightarrow> outbox_row_ok x \<longrightarrow> ob_id (g x) = ob_id x \<and> outbox_row_ok (g x)))"

lemma outbox_audit_frame:
  "outbox_audit r action oc reason s = Inr (u, t) \<Longrightarrow> w_outbox t = w_outbox s \<and> next_uuid (w_db t) = next_uuid (w_db s) \<and> now t = now s"
  by (auto simp: outbox_audit_def worker_audit_def on_db_def tx_bind_Inr audit_write_Inr now_def
      split: option.splits sum.splits prod.splits)

lemma settlement_rewrites:
  assumes run: "with_correlation c (tx_bind (outbox_transition r f) (\<lambda>_. outbox_audit r action oc reason)) s = Inr (u, t)"
    and f: "\<And>ts x. leased_row r x \<Longrightarrow> outbox_row_ok x \<Longrightarrow> ob_id (f ts x) = ob_id x \<and> outbox_row_ok (f ts x)"
  shows "rewritten r s t"
proof -
  let ?s = "s\<lparr>w_db := (w_db s)\<lparr>correlation := c\<rparr>\<rparr>"
  obtain v w where v: "outbox_transition r f ?s = Inr ((), v)" and w: "outbox_audit r action oc reason v = Inr (u, w)"
    and t: "t = w\<lparr>w_db := (w_db w)\<lparr>correlation := correlation (w_db s)\<rparr>\<rparr>"
    using run by (auto simp: with_correlation_def tx_bind_Inr split: sum.splits)
  have "w_outbox t = map (\<lambda>x. if leased_row r x then f (now s) x else x) (w_outbox s)"
    "next_uuid (w_db t) = next_uuid (w_db s)" "now t = now s"
    using v outbox_audit_frame [OF w] by (auto simp: t outbox_transition_def tx_bind_Inr now_def)
  then show ?thesis using f unfolding rewritten_def by blast
qed

lemma settled_rows_ok:
  assumes "leased_row r x" "outbox_row_ok x"
  shows "outbox_row_ok (x\<lparr>ob_state := Sent, ob_locked := None, ob_payload := p, ob_message := Some m, ob_sent := Some ts\<rparr>)"
    "outbox_row_ok (x\<lparr>ob_state := Failed, ob_locked := None, ob_run_after := later, ob_error := err\<rparr>)"
    "outbox_row_ok (x\<lparr>ob_state := Dead, ob_locked := None, ob_error := err\<rparr>)"
  using assms by (auto simp: leased_row_def outbox_row_ok_def undelivered_def)

lemma attempt_delivery_rewrites: "attempt_delivery handlers r s = Inr t \<Longrightarrow> rewritten r s t"
proof -
  assume "attempt_delivery handlers r s = Inr t"
  then obtain m where run: "with_correlation (ob_correlation r)
      (tx_bind (sent_outbox r m) (\<lambda>_. outbox_audit r ''outbox.sent'' Success None)) s = Inr ((), t)"
    by (auto simp: attempt_delivery_def split: option.splits sum.splits)
  have m: "m \<noteq> []"
    using run by (auto simp: sent_outbox_def with_correlation_def tx_bind_def tx_require_def tx_fail_def split: if_splits)
  let ?f = "\<lambda>ts x. x\<lparr>ob_state := Sent, ob_locked := None, ob_payload := [], ob_message := Some m, ob_sent := Some ts\<rparr>"
  have "sent_outbox r m = outbox_transition r ?f"
    using m by (simp add: sent_outbox_def tx_bind_def tx_require_def tx_return_def fun_eq_iff)
  then have "with_correlation (ob_correlation r) (tx_bind (outbox_transition r ?f)
      (\<lambda>_. outbox_audit r ''outbox.sent'' Success None)) s = Inr ((), t)" using run by simp
  then show ?thesis by (rule settlement_rewrites) (simp_all add: settled_rows_ok)
qed

lemma deliver_rewrites:
  assumes "deliver handlers fraction r s = Inr (v, t)"
  shows "rewritten r s t"
proof (cases "attempt_delivery handlers r s")
  case (Inr u)
  then show ?thesis using assms attempt_delivery_rewrites by (simp add: deliver_def)
next
  case (Inl e)
  show ?thesis
  proof (cases "(case e of Transient m \<Rightarrow> True | _ \<Rightarrow> False) \<and> ob_attempts r < ob_max r")
    case True
    then obtain d where "with_correlation (ob_correlation r) (tx_bind (retry_outbox r d (outbox_error e))
        (\<lambda>_. outbox_audit r ''outbox.retry'' ErrorOutcome (Some (outbox_error e)))) s = Inr ((), t)"
      using assms by (auto simp: deliver_def Inl tx_bind_Inr)
    then show ?thesis
      unfolding retry_outbox_def by (rule settlement_rewrites) (simp_all add: settled_rows_ok)
  next
    case False
    have "deliver handlers fraction r s = tx_bind (record_dead_outbox r (outbox_error e)) (\<lambda>_. tx_return GaveUp) s"
      by (simp only: deliver_def Inl sum.case if_not_P [OF False])
    then have "record_dead_outbox r (outbox_error e) s = Inr ((), t)"
      using assms by (auto simp: tx_bind_def tx_return_def split: sum.splits prod.splits)
    then show ?thesis
      unfolding record_dead_outbox_def dead_outbox_def
      by (rule settlement_rewrites) (simp_all add: settled_rows_ok)
  qed
qed

lemma rewritten_such:
  assumes "rewritten r s t" "all_such i P s" "ob_id r = i \<Longrightarrow> \<forall>x. P x \<longrightarrow> \<not> undelivered x"
  shows "all_such i P t"
proof -
  obtain g where g: "w_outbox t = map (\<lambda>x. if leased_row r x then g x else x) (w_outbox s)" "next_uuid (w_db t) = next_uuid (w_db s)"
    "\<And>x. leased_row r x \<Longrightarrow> outbox_row_ok x \<Longrightarrow> ob_id (g x) = ob_id x \<and> outbox_row_ok (g x)"
    using assms(1) unfolding rewritten_def by blast
  have ok: "outbox_ok s" using assms(2) by (simp add: all_such_def)
  let ?h = "\<lambda>x. if leased_row r x then g x else x"
  have h: "ob_id (?h x) = ob_id x" "outbox_row_ok (?h x)" if "x \<in> set (w_outbox s)" for x
    using that ok g(3) [of x] by (auto simp: outbox_ok_def)
  have "map ob_id (w_outbox t) = map ob_id (w_outbox s)" using h(1) by (simp add: g(1))
  then have "distinct (map ob_id (w_outbox t))" using ok by (simp add: outbox_ok_def)
  moreover have "ob_id x < next_uuid (w_db t) \<and> outbox_row_ok x" if x: "x \<in> set (w_outbox t)" for x
  proof -
    have "x \<in> ?h ` set (w_outbox s)" using x unfolding g(1) set_map .
    then obtain y where y: "y \<in> set (w_outbox s)" "x = ?h y" by blast
    then show ?thesis using h [OF y(1)] ok unfolding y(2) g(2) outbox_ok_def by metis
  qed
  moreover have "P x" if "x \<in> set (w_outbox t)" "ob_id x = i" for x
  proof -
    have "x \<in> ?h ` set (w_outbox s)" using that(1) unfolding g(1) set_map .
    then obtain y where y: "y \<in> set (w_outbox s)" "x = ?h y" by blast
    then have "ob_id y = i" using h(1) that(2) by simp
    then have "P y" using assms(2) y(1) by (simp add: all_such_def)
    then have "\<not> leased_row r y" using assms(3) \<open>ob_id y = i\<close> by (auto simp: leased_row_def)
    then show ?thesis using y(2) \<open>P y\<close> by simp
  qed
  ultimately show ?thesis using assms(2) g(2) by (simp add: all_such_def outbox_ok_def)
qed

lemma claim_such:
  assumes run: "claim_outbox locked s = Inr (found, t)" and such: "all_such i P s" and P: "\<forall>x. P x \<longrightarrow> \<not> deliverable (now s) x"
  shows "all_such i P t" "found = Some r \<Longrightarrow> ob_id r \<noteq> i"
proof -
  have ok: "outbox_ok s" using such by (simp add: all_such_def)
  have next_id: "next_uuid (w_db t) = next_uuid (w_db s)"
    using claim_outbox_Inr [OF run] by (auto split: option.splits)
  have other: "ob_id q \<noteq> i" if "q \<in> set (alive s)" "deliverable (now s) q" for q
    using that such P by (auto simp: alive_def all_such_def)
  show "ob_id r \<noteq> i" if "found = Some r"
  proof -
    obtain q where "q \<in> set (alive s)" "deliverable (now s) q" "r = leased (now s) q"
      using claim_outbox_Inr [OF run] \<open>found = Some r\<close> by auto
    then show ?thesis using other by simp
  qed
  have "outbox_ok t"
  proof (cases found)
    case None
    then show ?thesis using claim_outbox_Inr [OF run] alive_ok [OF ok] by simp
  next
    case (Some r)
    then show ?thesis using claim_outbox_taken [OF ok order_refl] run by (auto simp: taken_outbox_def)
  qed
  moreover have "P x" if x: "x \<in> set (w_outbox t)" "ob_id x = i" for x
  proof -
    have old: "P y" if "y \<in> set (alive s)" "ob_id y = i" for y using that such by (simp add: alive_def all_such_def)
    show ?thesis
    proof (cases found)
      case None
      then show ?thesis using claim_outbox_Inr [OF run] x old by simp
    next
      case (Some r)
      then obtain q where q: "q \<in> set (alive s)" "deliverable (now s) q"
        "w_outbox t = map (\<lambda>x. if ob_id x = ob_id q then leased (now s) x else x) (alive s)"
        using claim_outbox_Inr [OF run] by auto
      then have "x \<in> (\<lambda>x. if ob_id x = ob_id q then leased (now s) x else x) ` set (alive s)"
        using x(1) by (simp only: q(3) set_map)
      then obtain y where y: "y \<in> set (alive s)" "x = (if ob_id y = ob_id q then leased (now s) y else y)" by blast
      then have "ob_id y = i" using x(2) by (simp split: if_splits)
      then show ?thesis using y old other [OF q(1,2)] by simp
    qed
  qed
  ultimately show "all_such i P t" using such next_id by (simp add: all_such_def)
qed

lemma inserted_such:
  assumes "insert_outbox r u = Inr (x, t)" "outbox_ok t" "all_such i P s"
    and "w_outbox u = w_outbox s" "ob_id r = next_uuid (w_db s)" "next_uuid (w_db u) = Suc (next_uuid (w_db s))"
  shows "all_such i P t"
  using assms by (auto simp: insert_outbox_def tx_bind_Inr all_such_def)

lemma step_such:
  assumes "outbox_step l s t" "all_such i P s" "\<forall>x. P x \<longrightarrow> \<not> deliverable (now s) x"
    and "l = Some i \<Longrightarrow> \<forall>x. P x \<longrightarrow> \<not> undelivered x"
  shows "all_such i P t"
  using assms
proof cases
  case (time_passes ts)
  then show ?thesis using assms(2) by (simp add: all_such_def at_time_def outbox_ok_def)
next
  case (row_claimed locked found)
  then show ?thesis using claim_such(1) assms(2,3) by blast
next
  case (row_settled handlers fraction r v)
  then show ?thesis using rewritten_such [OF deliver_rewrites] assms(2,4) by blast
next
  case (row_added org topic payload key n r)
  then obtain r' u where u: "insert_outbox r' u = Inr (r, t)" "w_outbox u = w_outbox s" "ob_id r' = next_uuid (w_db s)"
    "next_uuid (w_db u) = Suc (next_uuid (w_db s))"
    by (auto simp: add_outbox_def tx_bind_Inr on_db_def fresh_uuid_Inr new_outbox_def split: sum.splits prod.splits)
  show ?thesis
    by (rule inserted_such [OF u(1) _ assms(2) u(2-4)]) (use add_outbox_ok row_added(2) assms(2) in \<open>auto simp: all_such_def\<close>)
next
  case (identity_row_added j addr template args key made until r)
  then obtain r' u where u: "insert_outbox r' u = Inr (r, t)" "w_outbox u = w_outbox s" "ob_id r' = next_uuid (w_db s)"
    "next_uuid (w_db u) = Suc (next_uuid (w_db s))" "outbox_row_ok r'"
    by (auto simp: add_identity_email_def tx_bind_Inr tx_catch_def on_db_def fresh_uuid_Inr new_outbox_def outbox_row_ok_def undelivered_def
        split: sum.splits prod.splits)
  have "outbox_ok t"
    by (rule insert_outbox_ok [OF _ u(1)]) (use assms(2) u in \<open>auto simp: outbox_ok_def all_such_def image_iff\<close>)
  then show ?thesis by (rule inserted_such [OF u(1) _ assms(2) u(2-4)])
next
  case (rows_discarded Q n)
  then have t: "w_outbox t = filter (\<lambda>r. \<not> Q r) (w_outbox s)" "w_db t = w_db s" by (auto simp: delete_outbox_def)
  then have "outbox_ok t" using filtered_outbox_ok [of s t] assms(2) by (simp add: all_such_def)
  then show ?thesis using t assms(2) by (simp add: all_such_def)
next
  case other_work
  then show ?thesis using assms(2) by (auto simp: all_such_def outbox_ok_def intro: less_le_trans)
qed

lemma step_time: "outbox_step l s t \<Longrightarrow> now s \<le> now t"
proof (induction rule: outbox_step.induct)
  case (row_claimed locked s found t)
  then show ?case using claim_outbox_Inr [OF row_claimed] by (auto simp: now_def split: option.splits)
next
  case (row_settled handlers fraction r s v t)
  then show ?case using deliver_rewrites by (simp add: rewritten_def)
qed (auto simp: now_def at_time_def add_outbox_def add_identity_email_def insert_outbox_def delete_outbox_def tx_bind_Inr
    tx_catch_def on_db_def fresh_uuid_Inr split: sum.splits prod.splits)

lemma steps_such:
  assumes "outbox_steps A s t" "all_such i P s" "\<forall>x. P x \<longrightarrow> (\<forall>ts\<le>now t. \<not> deliverable ts x)"
    and "i \<in> A \<Longrightarrow> \<forall>x. P x \<longrightarrow> \<not> undelivered x"
  shows "all_such i P t"
  using assms
proof (induction rule: outbox_steps.induct)
  case (one_more A s t l u)
  have "now t \<le> now u" using step_time [OF one_more.hyps(2)] .
  then have "all_such i P t" using one_more.IH one_more.prems by (meson order_trans)
  then show ?case
    by (rule step_such [OF one_more.hyps(2)]) (use one_more.prems one_more.hyps(3) \<open>now t \<le> now u\<close> in auto)
qed

text \<open>
  C23. A lease excludes: after a worker claimed a row, whatever claims, deliveries of other rows, new and
  discarded mail come in between, no claim by anyone hands out the row again within the five minutes of
  the lease; and a row that was sent or given up is never handed out again.
\<close>

theorem outbox_lease_exclusive:
  assumes "outbox_ok s"
  shows "(claim_outbox locked s = Inr (Some r, t) \<and> outbox_steps A t u \<and> ob_id r \<notin> A \<and> now u \<le> now s + lease \<and>
      claim_outbox locked' u = Inr (Some r', v) \<longrightarrow> ob_id r' \<noteq> ob_id r) \<and>
    (r \<in> set (w_outbox s) \<and> \<not> undelivered r \<and> outbox_steps A s u \<and>
      claim_outbox locked' u = Inr (Some r', v) \<longrightarrow> ob_id r' \<noteq> ob_id r)"
proof (intro conjI impI; elim conjE)
  assume claim: "claim_outbox locked s = Inr (Some r, t)" and steps: "outbox_steps A t u" "ob_id r \<notin> A" "now u \<le> now s + lease"
    and again: "claim_outbox locked' u = Inr (Some r', v)"
  let ?P = "\<lambda>x. ob_locked x = Some (now s)"
  have taken: "taken_outbox (leases s) r t" using claim_outbox_taken [OF assms _ claim] by simp
  moreover have "?P r" using claim_outbox_Inr [OF claim] by (auto simp: leased_def)
  ultimately have such: "all_such (ob_id r) ?P t"
    using outbox_one [of t r] by (auto simp: taken_outbox_def all_such_def outbox_ok_def)
  have leased: "\<forall>x. ?P x \<longrightarrow> (\<forall>ts\<le>now u. \<not> deliverable ts x)" using steps(3) by (auto simp: deliverable_def)
  have "all_such (ob_id r) ?P u" by (rule steps_such [OF steps(1) such leased]) (use steps(2) in simp)
  then show "ob_id r' \<noteq> ob_id r" by (rule claim_such(2) [OF again]) (use leased in auto)
next
  assume r: "r \<in> set (w_outbox s)" "\<not> undelivered r" and steps: "outbox_steps A s u"
    and again: "claim_outbox locked' u = Inr (Some r', v)"
  let ?P = "\<lambda>x. \<not> undelivered x"
  have such: "all_such (ob_id r) ?P s" using assms r outbox_one [OF assms r(1)] by (auto simp: all_such_def outbox_ok_def)
  have final: "\<forall>x. ?P x \<longrightarrow> (\<forall>ts\<le>now u. \<not> deliverable ts x)" by (simp add: deliverable_def)
  have "all_such (ob_id r) ?P u" by (rule steps_such [OF steps such final]) simp
  then show "ob_id r' \<noteq> ob_id r" by (rule claim_such(2) [OF again]) (use final in auto)
qed

section \<open>An outbox with two rows\<close>

text \<open>An invitation whose provider accepts it, and a row whose topic nobody handles.\<close>

definition sample_effect :: "uuid \<Rightarrow> string \<Rightarrow> outbox_row" where
  "sample_effect i topic = new_outbox i (Some 2) None topic (email_payload ''ann'' ''invitation'' []) 5 topic ''r1'' None 0"

definition sample_outbox :: work_db where
  "sample_outbox = \<lparr>w_db = empty_db\<lparr>clock := 50\<rparr>, w_jobs = [], w_outbox = [sample_effect 0 ''email'', sample_effect 1 ''fax'']\<rparr>"

definition sample_topics :: "string \<Rightarrow> outbox_handler option" where
  "sample_topics topic = (if topic = ''email'' then Some (email_handler (\<lambda>_ _ _ key. Accepted key)) else None)"

lemma sample_outbox_ok: "outbox_ok sample_outbox" "leases sample_outbox = {}"
  by (auto simp: sample_outbox_def sample_effect_def new_outbox_def outbox_ok_def outbox_row_ok_def empty_db_def leases_def)

lemma sample_outbox_run:
  "case run_outbox sample_topics 0 50 (map sample_turn [1, 2, 60]) sample_outbox of
     Some (Inr (m, t)) \<Rightarrow> sm_claimed m = 2 \<and> sm_finished m = 1 \<and> sm_dead m = 1 \<and> map ob_state (w_outbox t) = [Sent, Dead]
   | _ \<Rightarrow> False"
  by code_simp

theorem run_outbox_settles_witness:
  "\<exists>m t. run_outbox sample_topics 0 50 (map sample_turn [1, 2, 60]) sample_outbox = Some (Inr (m, t)) \<and>
     leases t = {} \<and> sm_claimed m = 2 \<and> map ob_state (w_outbox t) = [Sent, Dead]"
proof -
  have "\<forall>k\<in>set (map sample_turn [1, 2, 60]). fair_turn k" using sample_fair by simp
  moreover have "\<exists>k\<in>set (map sample_turn [1, 2, 60]). 0 + 50 \<le> tk_monotonic k" by (simp add: sample_turn_def)
  ultimately show ?thesis
    using run_outbox_settles [OF sample_outbox_ok(1), of "map sample_turn [1, 2, 60]" 50 0 sample_topics]
      sample_outbox_run sample_outbox_ok(2)
    by (auto split: option.splits sum.splits)
qed

lemma sample_claims:
  "case claim_outbox (\<lambda>_. False) sample_outbox of
     Inr (Some r, t) \<Rightarrow> ob_id r = 0 \<and>
       (case claim_outbox (\<lambda>_. False) (at_time (50 + lease) t) of Inr (Some q, _) \<Rightarrow> ob_id q = 1 | _ \<Rightarrow> False)
   | _ \<Rightarrow> False"
  by code_simp

theorem outbox_lease_exclusive_witness:
  "\<exists>r t q u. claim_outbox (\<lambda>_. False) sample_outbox = Inr (Some r, t) \<and>
     claim_outbox (\<lambda>_. False) (at_time (50 + lease) t) = Inr (Some q, u) \<and> ob_id q \<noteq> ob_id r"
proof -
  obtain x t where claim: "claim_outbox (\<lambda>_. False) sample_outbox = Inr (x, t)"
    using claim_outbox_defined by blast
  then obtain r where x: "x = Some r" using sample_claims by (cases x) simp_all
  obtain y u where again: "claim_outbox (\<lambda>_. False) (at_time (50 + lease) t) = Inr (y, u)"
    using claim_outbox_defined by blast
  then obtain q where y: "y = Some q" using sample_claims by (cases y) (simp_all add: claim x)
  note one = claim [unfolded x] and two = again [unfolded y]
  have "now t = 50" using claim_outbox_Inr [OF one] by (auto simp: now_def sample_outbox_def)
  then have steps: "outbox_steps {} t (at_time (50 + lease) t)"
    using one_more [OF no_step time_passes [of t "50 + lease"], of "{}"] by (simp add: lease_def)
  have "50 + lease = now sample_outbox + lease" by (simp add: now_def sample_outbox_def)
  then show ?thesis
    using one two steps outbox_lease_exclusive [OF sample_outbox_ok(1), of "\<lambda>_. False" r t "{}" "at_time (50 + lease) t" "\<lambda>_. False" q u]
    by simp
qed

end
