(* ===== verification/Conditions.thy ===== *)
theory Conditions
  imports Database "HOL-Library.List_Lexorder" "HOL-Library.Char_ord"
begin

text \<open>
  The routing conditions of approval workflows: their grammar (\<open>parse_condition\<close> in
  \<open>modules/approvals/schemas.py\<close>), the check of a leaf against the document's attribute catalogue
  (\<open>valid_leaf\<close> in \<open>modules/approvals/validation.py\<close>) and their evaluation
  (\<open>modules/approvals/conditions.py\<close>).  Texts are ASCII; the words of a trace are left as the
  values they render.
\<close>

section \<open>Texts that denote amounts and dates\<close>

definition is_digit :: "char \<Rightarrow> bool" where
  "is_digit c \<longleftrightarrow> 48 \<le> (of_char c :: nat) \<and> (of_char c :: nat) \<le> 57"

definition digits_number :: "string \<Rightarrow> nat" where
  "digits_number xs = foldl (\<lambda>v c. 10 * v + (of_char c - 48)) 0 xs"

text \<open>\<open>-?[0-9]{1,14}(\.[0-9]{1,4})?\<close> and the number it denotes.\<close>

definition fixed_amount :: "string \<Rightarrow> rat option" where
  "fixed_amount s =
     (let negative = (s \<noteq> [] \<and> hd s = CHR ''-''); t = (if negative then tl s else s);
          whole = takeWhile is_digit t; rest = dropWhile is_digit t;
          places = tl rest;
          n = of_nat (digits_number whole) + of_nat (digits_number places) / 10 ^ length places
      in if 1 \<le> length whole \<and> length whole \<le> 14 \<and>
            (rest = [] \<or> hd rest = CHR ''.'' \<and> 1 \<le> length places \<and> length places \<le> 4 \<and> list_all is_digit places)
         then Some (if negative then - n else n) else None)"

text \<open>\<open>[0-9]{4}-[0-9]{2}-[0-9]{2}\<close>, and the date such a text denotes, if it is one.\<close>

definition iso_shape :: "string \<Rightarrow> bool" where
  "iso_shape s \<longleftrightarrow> length s = 10 \<and> s ! 4 = CHR ''-'' \<and> s ! 7 = CHR ''-'' \<and>
     list_all is_digit (take 4 s @ take 2 (drop 5 s) @ drop 8 s)"

definition iso_date :: "string \<Rightarrow> date option" where
  "iso_date s =
     (let d = Date (int (digits_number (take 4 s))) (int (digits_number (take 2 (drop 5 s)))) (int (digits_number (drop 8 s)))
      in if iso_shape s \<and> 1 \<le> year d \<and> valid_date d then Some d else None)"

section \<open>The grammar\<close>

datatype operator =
  OpEq | OpNe | OpLt | OpLe | OpGt | OpGe | OpIn | OpNotIn | OpContains | OpIsNull | OpNotNull

definition operator_of :: "string \<Rightarrow> operator option" where
  "operator_of s = map_of
     [(''eq'', OpEq), (''ne'', OpNe), (''lt'', OpLt), (''le'', OpLe), (''gt'', OpGt), (''ge'', OpGe), (''in'', OpIn),
      (''not_in'', OpNotIn), (''contains'', OpContains), (''is_null'', OpIsNull), (''not_null'', OpNotNull)] s"

definition ordering :: "operator set" where
  "ordering = {OpLt, OpLe, OpGt, OpGe}"

text \<open>A \<open>MoneyValue\<close> is a pair of texts, its amount as written and its currency.\<close>

datatype leaf_value = VNone | VStr string | VBool bool | VMoney string string | VList "string list"

record leaf =
  lc_field :: string
  lc_op :: operator
  lc_value :: leaf_value

datatype condition =
  LeafCond leaf | AllCond "condition list" | AnyCond "condition list" | NotCond condition

fun texts :: "json list \<Rightarrow> string list option" where
  "texts [] = Some []"
| "texts (JStr s # js) = map_option (Cons s) (texts js)"
| "texts (_ # js) = None"

definition money_value :: "(string \<times> json) list \<Rightarrow> leaf_value option" where
  "money_value kvs =
     (if set (map fst kvs) \<noteq> {''amount'', ''currency''} then None
      else case (map_of kvs ''amount'', map_of kvs ''currency'') of
        (Some (JStr a), Some (JStr c)) \<Rightarrow>
          (case (fixed_amount a, currency_exponent c) of (Some _, Inr _) \<Rightarrow> Some (VMoney a c) | _ \<Rightarrow> None)
      | _ \<Rightarrow> None)"

definition leaf_value_of :: "json option \<Rightarrow> leaf_value option" where
  "leaf_value_of v =
     (case v of
        None \<Rightarrow> Some VNone
      | Some JNull \<Rightarrow> Some VNone
      | Some (JStr s) \<Rightarrow> Some (VStr s)
      | Some (JBool b) \<Rightarrow> Some (VBool b)
      | Some (JObj kvs) \<Rightarrow> money_value kvs
      | Some (JList js) \<Rightarrow> map_option VList (texts js)
      | Some (JNum _) \<Rightarrow> None)"

definition value_shape :: "bool \<Rightarrow> operator \<Rightarrow> leaf_value \<Rightarrow> bool" where
  "value_shape given op v \<longleftrightarrow>
     (if op \<in> {OpIsNull, OpNotNull} then \<not> given
      else if v = VNone then False
      else if op \<in> {OpIn, OpNotIn} then (case v of VList xs \<Rightarrow> 1 \<le> length xs \<and> length xs \<le> 100 | _ \<Rightarrow> False)
      else case v of VList _ \<Rightarrow> False | VStr _ \<Rightarrow> True | _ \<Rightarrow> op \<noteq> OpContains) \<and>
     (op \<in> ordering \<longrightarrow> (case v of VStr s \<Rightarrow> fixed_amount s \<noteq> None \<or> iso_shape s \<and> iso_date s \<noteq> None | _ \<Rightarrow> True))"

definition parse_leaf :: "(string \<times> json) list \<Rightarrow> leaf option" where
  "parse_leaf kvs =
     (if \<not> set (map fst kvs) \<subseteq> {''field'', ''op'', ''value''} then None
      else case (map_of kvs ''field'', map_of kvs ''op'') of
        (Some (JStr f), Some (JStr o_text)) \<Rightarrow>
          (case (operator_of o_text, leaf_value_of (map_of kvs ''value'')) of
             (Some op, Some v) \<Rightarrow>
               if f \<noteq> [] \<and> value_shape (map_of kvs ''value'' \<noteq> None) op v
               then Some \<lparr>lc_field = f, lc_op = op, lc_value = v\<rparr> else None
           | _ \<Rightarrow> None)
      | _ \<Rightarrow> None)"

text \<open>No model allows other keys, so a compound condition is an object of one key.\<close>

fun parse_node :: "json \<Rightarrow> condition option" and parse_nodes :: "json list \<Rightarrow> condition list option" where
  "parse_node (JObj kvs) =
     (case kvs of
        [(k, v)] \<Rightarrow>
          if k = ''not'' then map_option NotCond (parse_node v)
          else (case v of
                  JList js \<Rightarrow>
                    if length js < 1 \<or> 20 < length js then None
                    else if k = ''all'' then map_option AllCond (parse_nodes js)
                    else if k = ''any'' then map_option AnyCond (parse_nodes js)
                    else None
                | _ \<Rightarrow> None)
      | _ \<Rightarrow> map_option LeafCond (parse_leaf kvs))"
| "parse_node _ = None"
| "parse_nodes [] = Some []"
| "parse_nodes (j # js) =
     (case parse_node j of None \<Rightarrow> None | Some c \<Rightarrow> map_option (Cons c) (parse_nodes js))"

text \<open>The limits of depth and leaves, which hold of any JSON value.\<close>

lemma map_of_smaller [termination_simp]: "map_of kvs k = Some v \<Longrightarrow> size v < Suc (size_list (size_prod (\<lambda>_. 0) size) kvs)"
  by (induction kvs) (auto split: if_splits)

definition member :: "json \<Rightarrow> string \<Rightarrow> json option" where
  "member j k = (case j of JObj kvs \<Rightarrow> map_of kvs k | _ \<Rightarrow> None)"

definition listed :: "json option \<Rightarrow> json list" where
  "listed v = (case v of Some (JList js) \<Rightarrow> js | _ \<Rightarrow> [])"

definition child_nodes :: "json \<Rightarrow> json list" where
  "child_nodes j = listed (member j ''all'') @ listed (member j ''any'') @
     (case member j ''not'' of None \<Rightarrow> [] | Some v \<Rightarrow> [v])"

lemma listed_smaller: "v = Some j \<Longrightarrow> c \<in> set (listed v) \<Longrightarrow> size c < size j"
  by (cases j) (auto simp: listed_def less_Suc_eq_le intro: size_list_estimation')

lemma child_smaller [termination_simp]: "c \<in> set (child_nodes j) \<Longrightarrow> size c < size j"
proof (cases j)
  case (JObj kvs)
  assume c: "c \<in> set (child_nodes j)"
  have smaller: "size c < size j" if "map_of kvs k = Some v" "c = v \<or> c \<in> set (listed (Some v))" for k v
    using map_of_smaller [OF that(1)] that(2) listed_smaller [of "Some v" v c] by (auto simp: JObj)
  show ?thesis
    using c smaller
    by (auto simp: child_nodes_def member_def JObj listed_def split: option.splits json.splits; blast dest: sym)
qed (auto simp: child_nodes_def member_def listed_def)

fun node_depth :: "json \<Rightarrow> nat" where
  "node_depth j = Suc (fold max (map node_depth (child_nodes j)) 0)"

declare node_depth.simps [simp del]

fun node_leaves :: "json \<Rightarrow> nat" where
  "node_leaves j = (if member j ''field'' = None then 0 else 1) + sum_list (map node_leaves (child_nodes j))"

declare node_leaves.simps [simp del]

definition invalid_condition :: problem where
  "invalid_condition = Problem ValidationFailed None"

definition parse_condition :: "json \<Rightarrow> problem + condition" where
  "parse_condition j =
     (if 6 < node_depth j \<or> 50 < node_leaves j then Inl invalid_condition
      else case parse_node j of None \<Rightarrow> Inl invalid_condition | Some c \<Rightarrow> Inr c)"

section \<open>The catalogue\<close>

datatype field_type = TText | TCode | TDecimal | TDate | TBoolean | TMoney | TCodeList

definition field_catalog ::
  "(string \<times> field_type) list option \<Rightarrow> (string \<times> (string \<times> field_type) list) list \<Rightarrow> string \<Rightarrow> field_type option" where
  "field_catalog adapter providers =
     foldl (\<lambda>m (prefix, fs). m ++ map_of (filter (\<lambda>(n, k). take 7 n = ''custom.'' \<and> take (length prefix) n = prefix) fs))
       (map_of (filter (\<lambda>(n, k). take 7 n \<noteq> ''custom.'') (case adapter of None \<Rightarrow> [] | Some fs \<Rightarrow> fs))) providers"

fun allowed_operators :: "field_type \<Rightarrow> operator set" where
  "allowed_operators TText = {OpEq, OpNe, OpIn, OpNotIn}"
| "allowed_operators TCode = {OpEq, OpNe, OpIn, OpNotIn}"
| "allowed_operators TBoolean = {OpEq, OpNe, OpIn, OpNotIn}"
| "allowed_operators TDecimal = {OpEq, OpNe, OpLt, OpLe, OpGt, OpGe, OpIsNull, OpNotNull}"
| "allowed_operators TDate = {OpEq, OpNe, OpLt, OpLe, OpGt, OpGe, OpIsNull, OpNotNull}"
| "allowed_operators TMoney = {OpEq, OpNe, OpLt, OpLe, OpGt, OpGe, OpIsNull, OpNotNull}"
| "allowed_operators TCodeList = {OpContains, OpIsNull, OpNotNull}"

definition value_fits :: "field_type \<Rightarrow> leaf_value \<Rightarrow> bool" where
  "value_fits kind v \<longleftrightarrow>
     (case v of
        VStr s \<Rightarrow>
          kind \<in> {TText, TCode, TCodeList} \<or> kind = TDecimal \<and> fixed_amount s \<noteq> None \<or> kind = TDate \<and> iso_date s \<noteq> None
      | VBool _ \<Rightarrow> kind = TBoolean
      | VMoney _ _ \<Rightarrow> kind = TMoney
      | _ \<Rightarrow> False)"

definition valid_leaf :: "leaf \<Rightarrow> field_type option \<Rightarrow> bool" where
  "valid_leaf l kind =
     (case kind of
        None \<Rightarrow> False
      | Some k \<Rightarrow>
          if lc_op l \<notin> allowed_operators k then False
          else if lc_op l \<in> {OpIsNull, OpNotNull} then True
          else list_all (value_fits k) (case lc_value l of VList xs \<Rightarrow> map VStr xs | v \<Rightarrow> [v]))"

fun leaves_of :: "condition \<Rightarrow> leaf list" where
  "leaves_of (LeafCond l) = [l]"
| "leaves_of (AllCond cs) = concat (map leaves_of cs)"
| "leaves_of (AnyCond cs) = concat (map leaves_of cs)"
| "leaves_of (NotCond c) = leaves_of c"

section \<open>Evaluation\<close>

text \<open>An attribute as the document's adapter gives it.\<close>

datatype attribute =
  ANone | AStr string | ABool bool | AInt int | AFloat | ADec rat | ADate date | AList "string list" | AMoney money

text \<open>\<open>ConditionError\<close>, with its field and the two currencies, and the built-in exceptions.\<close>

datatype condition_error = CurrencyDiffers string string string | BadValue | BadType

definition casefold :: "string \<Rightarrow> string" where
  "casefold s = map (\<lambda>c. let n = of_char c :: nat in if 65 \<le> n \<and> n \<le> 90 then char_of (n + 32) else c) s"

definition occurs_in :: "string \<Rightarrow> string \<Rightarrow> bool" where
  "occurs_in x s \<longleftrightarrow> list_ex (\<lambda>n. take (length x) (drop n s) = x) [0..<Suc (length s)]"

definition ordered :: "operator \<Rightarrow> 'a::linorder \<Rightarrow> 'a \<Rightarrow> bool" where
  "ordered op x y = (if op = OpEq then x = y else if op = OpNe then x \<noteq> y else if op = OpLt then x < y
     else if op = OpLe then x \<le> y else if op = OpGt then y < x else y \<le> x)"

definition compare_leaf :: "leaf \<Rightarrow> attribute \<Rightarrow> condition_error + bool" where
  "compare_leaf l actual =
     (let op = lc_op l; expected = lc_value l in
      if actual = ANone then Inr (op \<in> {OpIsNull, OpNe})
      else if op \<in> {OpIsNull, OpNotNull} then Inr (op = OpNotNull)
      else if op \<in> {OpIn, OpNotIn} then
        (let found = (case (actual, expected) of (AStr a, VList xs) \<Rightarrow> a \<in> set xs | _ \<Rightarrow> False)
         in Inr (if op = OpIn then found else \<not> found))
      else if op = OpContains then
        Inr (case (actual, expected) of
               (AStr a, VStr e) \<Rightarrow> occurs_in (casefold e) (casefold a)
             | (AList xs, VStr e) \<Rightarrow> e \<in> set xs
             | _ \<Rightarrow> False)
      else case (actual, expected) of
        (AMoney m, VMoney a c) \<Rightarrow>
          if m_currency m \<noteq> c then Inl (CurrencyDiffers (lc_field l) c (m_currency m))
          else (case fixed_amount a of None \<Rightarrow> Inl BadValue | Some x \<Rightarrow> Inr (ordered op (m_amount m) x))
      | (ADec x, VStr e) \<Rightarrow> (case fixed_amount e of None \<Rightarrow> Inl BadValue | Some y \<Rightarrow> Inr (ordered op x y))
      | (ADate d, VStr e) \<Rightarrow> (case iso_date e of None \<Rightarrow> Inl BadValue | Some y \<Rightarrow> Inr (ordered op d y))
      | (AStr a, VStr e) \<Rightarrow> Inr (ordered op a e)
      | (ABool a, VBool e) \<Rightarrow> Inr (ordered op a e)
      | (AStr _, VBool _) \<Rightarrow> if op = OpEq then Inr False else if op = OpNe then Inr True else Inl BadType
      | (ABool _, VStr _) \<Rightarrow> if op = OpEq then Inr False else if op = OpNe then Inr True else Inl BadType
      | _ \<Rightarrow> Inl BadType)"

record leaf_trace =
  lt_leaf :: leaf
  lt_actual :: attribute
  lt_result :: bool

text \<open>\<open>visit\<close>: the branches of \<open>all\<close> and \<open>any\<close> stop at the first that decides; the trace grows with each leaf compared.\<close>

fun visit :: "(string \<Rightarrow> attribute) \<Rightarrow> condition \<Rightarrow> condition_error + bool \<times> leaf_trace list"
  and visit_until :: "bool \<Rightarrow> (string \<Rightarrow> attribute) \<Rightarrow> condition list \<Rightarrow> condition_error + bool \<times> leaf_trace list" where
  "visit attrs (LeafCond l) =
     (case compare_leaf l (attrs (lc_field l)) of
        Inl e \<Rightarrow> Inl e
      | Inr b \<Rightarrow> Inr (b, [\<lparr>lt_leaf = l, lt_actual = attrs (lc_field l), lt_result = b\<rparr>]))"
| "visit attrs (AllCond cs) = visit_until False attrs cs"
| "visit attrs (AnyCond cs) = visit_until True attrs cs"
| "visit attrs (NotCond c) = (case visit attrs c of Inl e \<Rightarrow> Inl e | Inr (b, t) \<Rightarrow> Inr (\<not> b, t))"
| "visit_until stop attrs [] = Inr (\<not> stop, [])"
| "visit_until stop attrs (c # cs) =
     (case visit attrs c of
        Inl e \<Rightarrow> Inl e
      | Inr (b, t) \<Rightarrow>
          if b = stop then Inr (stop, t)
          else (case visit_until stop attrs cs of Inl e \<Rightarrow> Inl e | Inr (r, u) \<Rightarrow> Inr (r, t @ u)))"

definition normalized :: "(string \<times> attribute) list \<Rightarrow> string \<Rightarrow> attribute" where
  "normalized attrs f =
     (case map_of attrs f of None \<Rightarrow> ANone | Some (AInt n) \<Rightarrow> ADec (of_int n) | Some a \<Rightarrow> a)"

definition evaluate_condition :: "condition \<Rightarrow> (string \<times> attribute) list \<Rightarrow> condition_error + bool \<times> leaf_trace list" where
  "evaluate_condition c attrs =
     (if list_ex (\<lambda>(k, a). a = AFloat) attrs then Inl BadType else visit (normalized attrs) c)"

end
