(* ===== verification/Workflows.thy ===== *)
theory Workflows
  imports Conditions
begin

text \<open>
  Workflow graphs (\<open>modules/approvals/schemas.py\<close>), their validation before publication
  (\<open>check_graph\<close> in \<open>modules/approvals/validation.py\<close>) and the walk that routes a document
  (\<open>walk\<close> in \<open>modules/approvals/preview.py\<close>).  The loop of the walk and the recursions of the
  validation may fail to return on some graph, so they return an option.
\<close>

section \<open>Graphs\<close>

datatype approvers = RoleApprovers string | UserApprovers "uuid list" | PermissionApprovers

datatype mode = AnyMode | AllMode | Quorum int

datatype node_kind = StartNode | ConditionNode | ApprovalNode | EndNode

record node =
  nd_id :: string
  nd_kind :: node_kind
  nd_name :: "string option"
  nd_approvers :: "approvers option"
  nd_mode :: "mode option"
  nd_due :: "int option"
  nd_escalate_after :: "int option"
  nd_escalate_to :: "approvers option"
  nd_repeat :: bool

record edge =
  ed_from :: string
  ed_to :: string
  ed_when :: "json option"
  ed_default :: bool

record graph =
  g_nodes :: "node list"
  g_edges :: "edge list"

text \<open>The field constraints of a node and the validators of a graph; its size in bytes is left out.\<close>

definition approvers_ok :: "approvers \<Rightarrow> bool" where
  "approvers_ok a \<longleftrightarrow> (case a of RoleApprovers r \<Rightarrow> r \<noteq> [] | UserApprovers us \<Rightarrow> 1 \<le> length us \<and> length us \<le> 50 | PermissionApprovers \<Rightarrow> True)"

definition node_ok :: "node \<Rightarrow> bool" where
  "node_ok n \<longleftrightarrow> 1 \<le> length (nd_id n) \<and> length (nd_id n) \<le> 40 \<and>
     list_all (\<lambda>c. c \<in> set ''abcdefghijklmnopqrstuvwxyz0123456789_-'') (nd_id n) \<and>
     (nd_kind n = ApprovalNode \<longrightarrow> nd_approvers n \<noteq> None \<and> nd_mode n \<noteq> None) \<and>
     (case nd_approvers n of None \<Rightarrow> True | Some a \<Rightarrow> approvers_ok a) \<and>
     (case nd_escalate_to n of None \<Rightarrow> True | Some a \<Rightarrow> approvers_ok a) \<and>
     (case nd_mode n of Some (Quorum q) \<Rightarrow> 1 \<le> q | _ \<Rightarrow> True) \<and>
     (case nd_due n of None \<Rightarrow> True | Some d \<Rightarrow> 1 \<le> d \<and> d \<le> 365) \<and>
     (case nd_escalate_after n of None \<Rightarrow> True | Some d \<Rightarrow> 1 \<le> d)"

definition node_ids :: "graph \<Rightarrow> string list" where
  "node_ids g = map nd_id (g_nodes g)"

definition graph_ok :: "graph \<Rightarrow> bool" where
  "graph_ok g \<longleftrightarrow> length (g_nodes g) \<le> 200 \<and> length (g_edges g) \<le> 400 \<and> list_all node_ok (g_nodes g) \<and>
     length (filter (\<lambda>n. nd_kind n = StartNode) (g_nodes g)) = 1 \<and>
     list_ex (\<lambda>n. nd_kind n = EndNode) (g_nodes g) \<and>
     distinct (node_ids g) \<and>
     list_all (\<lambda>e. ed_from e \<in> set (node_ids g) \<and> ed_to e \<in> set (node_ids g)) (g_edges g)"

definition parse_graph :: "graph \<Rightarrow> problem + graph" where
  "parse_graph g = (if graph_ok g then Inr g else Inl invalid_condition)"

definition node_at :: "graph \<Rightarrow> string \<Rightarrow> node option" where
  "node_at g i = find (\<lambda>n. nd_id n = i) (g_nodes g)"

definition start_id :: "graph \<Rightarrow> string option" where
  "start_id g = map_option nd_id (find (\<lambda>n. nd_kind n = StartNode) (g_nodes g))"

definition outgoing :: "graph \<Rightarrow> string \<Rightarrow> string list" where
  "outgoing g i = map ed_to (filter (\<lambda>e. ed_from e = i) (g_edges g))"

definition incoming :: "graph \<Rightarrow> string \<Rightarrow> string list" where
  "incoming g i = map ed_from (filter (\<lambda>e. ed_to e = i) (g_edges g))"

section \<open>The walk\<close>

datatype step_state = Upcoming | OpenStep | CompletedStep | Carried

text \<open>
  The entries of a route: an evaluated branch, with the branch taken once it is known (its
  condition, whether it is the default, and the condition it is described by), and a step.
\<close>

datatype route_entry =
    Evaluated string string bool "leaf_trace list" "(json option \<times> bool \<times> condition option) option"
  | Step string step_state "uuid list option" "uuid option"

definition entry_node :: "route_entry \<Rightarrow> string option" where
  "entry_node e = (case e of Step i _ _ _ \<Rightarrow> Some i | _ \<Rightarrow> None)"

record walk_result =
  wr_node :: node
  wr_path :: "string list"
  wr_edges :: "nat list"
  wr_via :: "condition option option"
  wr_route :: "route_entry list"

definition via_of :: "route_entry list \<Rightarrow> condition option option" where
  "via_of route =
     (case List.map_filter (\<lambda>e. case e of Evaluated _ _ _ _ (Some (_, _, v)) \<Rightarrow> Some v | _ \<Rightarrow> None) (rev route) of
        [] \<Rightarrow> None | v # _ \<Rightarrow> Some v)"

definition route_blocked :: problem where
  "route_blocked = conflict ''route_blocked''"

definition unhandled :: "condition_error \<Rightarrow> problem" where
  "unhandled e = (case e of CurrencyDiffers _ _ _ \<Rightarrow> route_blocked | BadValue \<Rightarrow> Raised ValueError | BadType \<Rightarrow> Raised TypeError)"

text \<open>The conditional edges of a node, in order, up to the first whose condition holds.\<close>

fun try_edges :: "(string \<times> attribute) list \<Rightarrow> string \<Rightarrow> edge list \<Rightarrow> problem + edge option \<times> route_entry list" where
  "try_edges attrs i [] = Inr (None, [])"
| "try_edges attrs i (e # es) =
     (case ed_when e of
        None \<Rightarrow> try_edges attrs i es
      | Some w \<Rightarrow>
          (case parse_condition w of
             Inl p \<Rightarrow> Inl p
           | Inr c \<Rightarrow>
               (case evaluate_condition c attrs of
                  Inl x \<Rightarrow> Inl (unhandled x)
                | Inr (b, t) \<Rightarrow>
                    if b then Inr (Some e, [Evaluated i (ed_to e) b t None])
                    else (case try_edges attrs i es of
                            Inl p \<Rightarrow> Inl p
                          | Inr (r, seen) \<Rightarrow> Inr (r, Evaluated i (ed_to e) b t None # seen)))))"

definition describe_taken :: "edge \<Rightarrow> problem + condition option" where
  "describe_taken e =
     (case ed_when e of
        None \<Rightarrow> Inr None
      | Some w \<Rightarrow> (case parse_condition w of Inl p \<Rightarrow> Inl p | Inr c \<Rightarrow> Inr (if ed_default e then None else Some c)))"

text \<open>The edge taken from a node that is not an end, with the route extended by what was evaluated.\<close>

definition choose_edge ::
  "graph \<Rightarrow> (string \<times> attribute) list \<Rightarrow> node \<Rightarrow> condition option option \<Rightarrow> problem + edge \<times> route_entry list \<times> condition option option" where
  "choose_edge g attrs n via =
     (let edges = filter (\<lambda>e. ed_from e = nd_id n) (g_edges g) in
      if nd_kind n \<noteq> ConditionNode then
        (case edges of [] \<Rightarrow> Inl route_blocked | e # _ \<Rightarrow> Inr (e, [], via))
      else
        (case try_edges attrs (nd_id n) edges of
           Inl p \<Rightarrow> Inl p
         | Inr (found, seen) \<Rightarrow>
             (case (case found of Some e \<Rightarrow> Some e | None \<Rightarrow> find ed_default edges) of
                None \<Rightarrow> Inl route_blocked
              | Some e \<Rightarrow>
                  (case describe_taken e of
                     Inl p \<Rightarrow> Inl p
                   | Inr v \<Rightarrow>
                       (let seen = (if seen = [] then [Evaluated (nd_id n) (ed_to e) False [] None] else seen);
                            taken = (case last seen of Evaluated i j b t _ \<Rightarrow> Evaluated i j b t (Some (ed_when e, ed_default e, v)) | x \<Rightarrow> x)
                        in Inr (e, butlast seen @ [taken], Some v))))))"

fun index_of :: "'a \<Rightarrow> 'a list \<Rightarrow> nat" where
  "index_of x [] = 0"
| "index_of x (y # ys) = (if x = y then 0 else Suc (index_of x ys))"

text \<open>The loop; \<open>None\<close> if it never returns.\<close>

partial_function (option) walk_loop ::
  "graph \<Rightarrow> (string \<times> attribute) list \<Rightarrow> node \<Rightarrow> string list \<Rightarrow> nat list \<Rightarrow> condition option option \<Rightarrow> route_entry list \<Rightarrow>
   (problem + walk_result) option" where
  "walk_loop g attrs n path edges via route =
     (if nd_kind n = EndNode then Some (Inr \<lparr>wr_node = n, wr_path = path, wr_edges = edges, wr_via = via, wr_route = route\<rparr>)
      else case choose_edge g attrs n via of
        Inl p \<Rightarrow> Some (Inl p)
      | Inr (e, seen, v) \<Rightarrow>
          (case node_at g (ed_to e) of
             None \<Rightarrow> Some (Inl (Raised LookupFailed))
           | Some m \<Rightarrow>
               if nd_kind m = ApprovalNode
               then Some (Inr \<lparr>wr_node = m, wr_path = path @ [ed_to e], wr_edges = edges @ [index_of e (g_edges g)],
                      wr_via = v, wr_route = route @ seen\<rparr>)
               else walk_loop g attrs m (path @ [ed_to e]) (edges @ [index_of e (g_edges g)]) v (route @ seen)))"

declare walk_loop.simps [code]

definition walk ::
  "graph \<Rightarrow> (string \<times> attribute) list \<Rightarrow> string option \<Rightarrow> route_entry list \<Rightarrow> (problem + walk_result) option" where
  "walk g attrs from_node route =
     (case (case from_node of None \<Rightarrow> start_id g | Some i \<Rightarrow> if i = [] then start_id g else Some i) of
        None \<Rightarrow> Some (Inl (Raised LookupFailed))
      | Some i \<Rightarrow>
          (case node_at g i of
             None \<Rightarrow> Some (Inl (Raised LookupFailed))
           | Some n \<Rightarrow> walk_loop g attrs n [i] [] (via_of route) route))"

section \<open>Validation\<close>

datatype issue_code =
    Cycle | Unreachable | DeadEnd | BadOutDegree | MissingDefault | MissingApprovers | QuorumUnreachable
  | InvalidCondition | InvalidField | TooDeep | DuplicateApproval

datatype issue = NodeIssue issue_code string | EdgeIssue issue_code nat

record report =
  rp_errors :: "issue list"
  rp_warnings :: "issue list"

text \<open>
  The depth-first search for strongly connected components: the index and low link of each node
  visited, the stack, and a diagnostic per component that is a cycle.  The set \<open>active\<close> is the
  stack's.  The first argument bounds the depth of the recursion.
\<close>

record tarjan =
  tj_index :: "string \<Rightarrow> nat option"
  tj_count :: nat
  tj_low :: "string \<Rightarrow> nat"
  tj_stack :: "string list"
  tj_cycles :: "string list"

definition tj_enter :: "string \<Rightarrow> tarjan \<Rightarrow> tarjan" where
  "tj_enter i t = t\<lparr>tj_index := (tj_index t)(i \<mapsto> tj_count t), tj_low := (tj_low t)(i := tj_count t),
     tj_count := Suc (tj_count t), tj_stack := i # tj_stack t\<rparr>"

definition tj_lower :: "string \<Rightarrow> nat \<Rightarrow> tarjan \<Rightarrow> tarjan" where
  "tj_lower i n t = t\<lparr>tj_low := (tj_low t)(i := min (tj_low t i) n)\<rparr>"

definition tj_leave :: "graph \<Rightarrow> string \<Rightarrow> tarjan \<Rightarrow> tarjan" where
  "tj_leave g i t =
     (if tj_index t i = Some (tj_low t i)
      then let members = takeWhile (\<lambda>m. m \<noteq> i) (tj_stack t) @ [i];
               t = t\<lparr>tj_stack := tl (dropWhile (\<lambda>m. m \<noteq> i) (tj_stack t))\<rparr>
           in if 1 < length members \<or> i \<in> set (outgoing g i) then t\<lparr>tj_cycles := tj_cycles t @ [i]\<rparr> else t
      else t)"

fun component :: "nat \<Rightarrow> graph \<Rightarrow> string \<Rightarrow> tarjan \<Rightarrow> tarjan option"
  and components :: "nat \<Rightarrow> graph \<Rightarrow> string \<Rightarrow> string list \<Rightarrow> tarjan \<Rightarrow> tarjan option" where
  "component 0 g i t = None"
| "component (Suc fuel) g i t = map_option (tj_leave g i) (components fuel g i (outgoing g i) (tj_enter i t))"
| "components fuel g i [] t = Some t"
| "components fuel g i (c # cs) t =
     (case tj_index t c of
        None \<Rightarrow>
          (case component fuel g c t of
             None \<Rightarrow> None
           | Some u \<Rightarrow> components fuel g i cs (tj_lower i (tj_low u c) u))
      | Some n \<Rightarrow> components fuel g i cs (if c \<in> set (tj_stack t) then tj_lower i n t else t))"

fun search :: "graph \<Rightarrow> string list \<Rightarrow> tarjan \<Rightarrow> tarjan option" where
  "search g [] t = Some t"
| "search g (i # is) t =
     (if tj_index t i \<noteq> None then search g is t
      else case component (length (g_nodes g)) g i t of None \<Rightarrow> None | Some u \<Rightarrow> search g is u)"

definition no_visit :: tarjan where
  "no_visit = \<lparr>tj_index = (\<lambda>_. None), tj_count = 0, tj_low = (\<lambda>_. 0), tj_stack = [], tj_cycles = []\<rparr>"

definition cycles :: "graph \<Rightarrow> string list option" where
  "cycles g = map_option tj_cycles (search g (node_ids g) no_visit)"

text \<open>
  The work list of \<open>reachable\<close>, its end first.  Every round takes a node from it, and the first time
  the node's links are used up.
\<close>

definition linked :: "(string \<times> string) list \<Rightarrow> string \<Rightarrow> string list" where
  "linked links i = map snd (filter (\<lambda>l. fst l = i) links)"

definition links_left :: "(string \<times> string) list \<Rightarrow> string list \<Rightarrow> nat" where
  "links_left links seen = length (filter (\<lambda>l. fst l \<notin> set seen) links)"

lemma links_left_visit:
  "i \<notin> set seen \<Longrightarrow> links_left links seen = length (linked links i) + links_left links (i # seen)"
  by (induction links) (auto simp: links_left_def linked_def)

function reachable :: "(string \<times> string) list \<Rightarrow> string list \<Rightarrow> string list \<Rightarrow> string list" where
  "reachable links [] seen = seen"
| "reachable links (i # pending) seen =
     (if i \<in> set seen then reachable links pending seen
      else reachable links (rev (linked links i) @ pending) (i # seen))"
  by pat_completeness auto
termination
  by (relation "measure (\<lambda>(links, pending, seen). length pending + links_left links seen)")
    (auto simp: links_left_visit)

definition forward :: "graph \<Rightarrow> (string \<times> string) list" where
  "forward g = map (\<lambda>e. (ed_from e, ed_to e)) (g_edges g)"

definition backward :: "graph \<Rightarrow> (string \<times> string) list" where
  "backward g = map (\<lambda>e. (ed_to e, ed_from e)) (g_edges g)"

definition reached_from :: "graph \<Rightarrow> string \<Rightarrow> string list" where
  "reached_from g start = reachable (forward g) [start] []"

definition finishing :: "graph \<Rightarrow> string list" where
  "finishing g = reachable (backward g) (rev (map nd_id (filter (\<lambda>n. nd_kind n = EndNode) (g_nodes g)))) []"

definition rule_issues :: "string list \<Rightarrow> uuid list \<Rightarrow> node \<Rightarrow> approvers option \<Rightarrow> bool \<Rightarrow> issue list" where
  "rule_issues roles users n rule main =
     (case rule of
        Some (RoleApprovers r) \<Rightarrow> if r \<in> set roles then [] else [NodeIssue MissingApprovers (nd_id n)]
      | Some (UserApprovers us) \<Rightarrow>
          (if us = [] \<or> \<not> set us \<subseteq> set users then [NodeIssue MissingApprovers (nd_id n)] else []) @
          (case nd_mode n of
             Some (Quorum q) \<Rightarrow> if main \<and> int (length (remdups us)) < q then [NodeIssue QuorumUnreachable (nd_id n)] else []
           | _ \<Rightarrow> [])
      | _ \<Rightarrow> [])"

definition node_issues :: "graph \<Rightarrow> string list \<Rightarrow> string list \<Rightarrow> string list \<Rightarrow> uuid list \<Rightarrow> node \<Rightarrow> issue list" where
  "node_issues g reached finishes roles users n =
     (if nd_id n \<in> set reached then [] else [NodeIssue Unreachable (nd_id n)]) @
     (if nd_kind n \<noteq> EndNode \<and> outgoing g (nd_id n) = [] \<or> nd_id n \<notin> set finishes then [NodeIssue DeadEnd (nd_id n)] else []) @
     (if nd_kind n \<in> {StartNode, ApprovalNode} \<and> length (outgoing g (nd_id n)) \<noteq> 1 then [NodeIssue BadOutDegree (nd_id n)] else []) @
     (if nd_kind n = ConditionNode \<and> length (filter (\<lambda>e. ed_from e = nd_id n \<and> ed_default e) (g_edges g)) \<noteq> 1
      then [NodeIssue MissingDefault (nd_id n)] else []) @
     rule_issues roles users n (nd_approvers n) True @ rule_issues roles users n (nd_escalate_to n) False"

definition edge_issues :: "graph \<Rightarrow> (string \<Rightarrow> field_type option) \<Rightarrow> nat \<Rightarrow> edge \<Rightarrow> issue list" where
  "edge_issues g catalog k e =
     (if map_option nd_kind (node_at g (ed_from e)) \<noteq> Some ConditionNode \<and> (ed_when e \<noteq> None \<or> ed_default e)
      then [EdgeIssue MissingDefault k] else []) @
     (case ed_when e of
        None \<Rightarrow> []
      | Some w \<Rightarrow>
          (case parse_condition w of
             Inl _ \<Rightarrow> [EdgeIssue InvalidCondition k]
           | Inr c \<Rightarrow> List.map_filter (\<lambda>l. if valid_leaf l (catalog (lc_field l)) then None else Some (EdgeIssue InvalidField k))
               (leaves_of c)))"

fun ancestors :: "nat \<Rightarrow> graph \<Rightarrow> string list \<Rightarrow> string \<Rightarrow> string list option" where
  "ancestors 0 g reached i = None"
| "ancestors (Suc fuel) g reached i =
     (let parents = filter (\<lambda>p. p \<in> set reached) (incoming g i) in
      map_option (\<lambda>xss. remdups (parents @ concat xss)) (those (map (ancestors fuel g reached) parents)))"

definition approval_count :: "graph \<Rightarrow> string \<Rightarrow> nat" where
  "approval_count g i = (if map_option nd_kind (node_at g i) = Some ApprovalNode then 1 else 0)"

fun depth_from :: "nat \<Rightarrow> graph \<Rightarrow> string list \<Rightarrow> string \<Rightarrow> nat option" where
  "depth_from 0 g finishes i = None"
| "depth_from (Suc fuel) g finishes i =
     map_option (\<lambda>ds. approval_count g i + fold max ds 0)
       (those (map (depth_from fuel g finishes) (filter (\<lambda>c. c \<in> set finishes) (outgoing g i))))"

definition rules_repeat :: "approvers option \<Rightarrow> approvers option \<Rightarrow> bool" where
  "rules_repeat rule other \<longleftrightarrow>
     (case (rule, other) of
        (Some (RoleApprovers r), Some (RoleApprovers q)) \<Rightarrow> r = q
      | (Some (UserApprovers us), Some (UserApprovers vs)) \<Rightarrow> set us \<inter> set vs \<noteq> {}
      | (Some PermissionApprovers, Some PermissionApprovers) \<Rightarrow> True
      | _ \<Rightarrow> False)"

definition repeats :: "graph \<Rightarrow> node \<Rightarrow> string list \<Rightarrow> issue list" where
  "repeats g n earlier =
     List.map_filter (\<lambda>i. case node_at g i of
         None \<Rightarrow> None
       | Some m \<Rightarrow> if nd_kind m = ApprovalNode \<and> rules_repeat (nd_approvers n) (nd_approvers m)
           then Some (NodeIssue DuplicateApproval (nd_id n)) else None) (sort earlier)"

definition repeated_approvals :: "graph \<Rightarrow> string list \<Rightarrow> string list \<Rightarrow> (node \<times> issue list) list option" where
  "repeated_approvals g reached finishes =
     those (map (\<lambda>n. map_option (\<lambda>earlier. (n, repeats g n earlier)) (ancestors (length (g_nodes g)) g reached (nd_id n)))
       (filter (\<lambda>n. nd_kind n = ApprovalNode \<and> nd_id n \<in> set reached \<and> nd_id n \<in> set finishes) (g_nodes g)))"

definition check_graph ::
  "graph \<Rightarrow> (string \<Rightarrow> field_type option) \<Rightarrow> string list \<Rightarrow> uuid list \<Rightarrow> nat \<Rightarrow> report option" where
  "check_graph g catalog roles users max_depth =
     (case cycles g of
        None \<Rightarrow> None
      | Some cs \<Rightarrow>
          (case start_id g of
             None \<Rightarrow> None
           | Some start \<Rightarrow>
               (let reached = reached_from g start; finishes = finishing g;
                    found = map (NodeIssue Cycle) cs @
                      concat (map (node_issues g reached finishes roles users) (g_nodes g)) @
                      concat (map (\<lambda>(k, e). edge_issues g catalog k e) (enumerate 0 (g_edges g)))
                in if cs \<noteq> [] then Some \<lparr>rp_errors = found, rp_warnings = []\<rparr>
                   else case (depth_from (length (g_nodes g)) g finishes start, repeated_approvals g reached finishes) of
                     (Some d, Some rs) \<Rightarrow>
                       Some \<lparr>rp_errors = found @ (if max_depth < d then [NodeIssue TooDeep start] else []) @
                               concat (map (\<lambda>(n, is). if nd_repeat n then [] else is) rs),
                             rp_warnings = concat (map (\<lambda>(n, is). if nd_repeat n then is else []) rs)\<rparr>
                   | _ \<Rightarrow> None)))"

end
