(* ===== verification/CycleSearch.thy ===== *)
theory CycleSearch
  imports Workflows
begin

text \<open>
  The depth-first search of \<open>check_graph\<close>: its recursion is no deeper than the graph has nodes, and when
  it reports no cycle every edge leads to a node of smaller rank.  The ranks bound every later walk.
\<close>

section \<open>The state of the search\<close>

definition ix :: "tarjan \<Rightarrow> string \<Rightarrow> nat" where
  "ix t x = the (tj_index t x)"

definition settled :: "tarjan \<Rightarrow> string set" where
  "settled t = dom (tj_index t) - set (tj_stack t)"

definition ranked :: "graph \<Rightarrow> string set \<Rightarrow> bool" where
  "ranked g X \<longleftrightarrow> (\<exists>rank :: string \<Rightarrow> nat. \<forall>x\<in>X. \<forall>y\<in>set (outgoing g x). y \<in> X \<and> rank y < rank x)"

definition tj_ok :: "graph \<Rightarrow> tarjan \<Rightarrow> bool" where
  "tj_ok g t \<longleftrightarrow> distinct (tj_stack t) \<and> set (tj_stack t) \<subseteq> dom (tj_index t) \<and>
     (\<forall>x\<in>dom (tj_index t). ix t x < tj_count t) \<and>
     sorted_wrt (\<lambda>a b. ix t b < ix t a) (tj_stack t) \<and> ranked g (settled t)"

lemma ranked_insert:
  assumes "ranked g X" "set (outgoing g i) \<subseteq> X" "i \<notin> X"
  shows "ranked g (insert i X)"
proof -
  obtain rank :: "string \<Rightarrow> nat" where rank: "\<forall>x\<in>X. \<forall>y\<in>set (outgoing g x). y \<in> X \<and> rank y < rank x"
    using assms(1) by (auto simp: ranked_def)
  let ?rank = "rank(i := Suc (sum_list (map rank (outgoing g i))))"
  have "rank y < ?rank i" if "y \<in> set (outgoing g i)" for y
    using member_le_sum_list [of "rank y" "map rank (outgoing g i)"] that by simp
  moreover have "y \<noteq> i" if "x \<in> insert i X" "y \<in> set (outgoing g x)" for x y
    using rank assms(2,3) that by blast
  ultimately have "\<forall>x\<in>insert i X. \<forall>y\<in>set (outgoing g x). y \<in> insert i X \<and> ?rank y < ?rank x"
    using rank assms(2) by auto
  then show ?thesis unfolding ranked_def by blast
qed

lemma tj_lower_simps [simp]:
  "tj_index (tj_lower i n t) = tj_index t" "tj_count (tj_lower i n t) = tj_count t" "tj_stack (tj_lower i n t) = tj_stack t"
  "tj_cycles (tj_lower i n t) = tj_cycles t" "tj_low (tj_lower i n t) x = (if x = i then min (tj_low t i) n else tj_low t x)"
  "ix (tj_lower i n t) = ix t" "settled (tj_lower i n t) = settled t"
  by (simp_all add: tj_lower_def ix_def settled_def fun_eq_iff)

lemma tj_lower_ok [simp]: "tj_ok g (tj_lower i n t) = tj_ok g t"
  by (simp add: tj_ok_def)

lemma tj_enter_simps [simp]:
  "tj_index (tj_enter i t) = (tj_index t)(i \<mapsto> tj_count t)" "tj_count (tj_enter i t) = Suc (tj_count t)"
  "tj_stack (tj_enter i t) = i # tj_stack t" "tj_cycles (tj_enter i t) = tj_cycles t"
  "tj_low (tj_enter i t) = (tj_low t)(i := tj_count t)" "ix (tj_enter i t) = (ix t)(i := tj_count t)"
  by (simp_all add: tj_enter_def ix_def fun_eq_iff)

lemma tj_enter_ok:
  assumes "tj_ok g t" "tj_index t i = None"
  shows "tj_ok g (tj_enter i t)" "settled (tj_enter i t) = settled t"
proof -
  have i: "i \<notin> set (tj_stack t)" "i \<notin> dom (tj_index t)" using assms by (auto simp: tj_ok_def)
  then show "settled (tj_enter i t) = settled t" by (auto simp: settled_def)
  have "sorted_wrt (\<lambda>a b. ((ix t)(i := tj_count t)) b < ((ix t)(i := tj_count t)) a) (tj_stack t)"
    using assms(1) i(1) by (auto simp: tj_ok_def intro: sorted_wrt_mono_rel [rotated])
  then show "tj_ok g (tj_enter i t)"
    using assms(1) i \<open>settled (tj_enter i t) = settled t\<close>
    by (auto simp: tj_ok_def less_Suc_eq)
qed

lemma tj_leave_simps [simp]:
  "tj_index (tj_leave g i t) = tj_index t" "tj_count (tj_leave g i t) = tj_count t" "tj_low (tj_leave g i t) = tj_low t"
  "length (tj_cycles t) \<le> length (tj_cycles (tj_leave g i t))" "ix (tj_leave g i t) = ix t"
  by (simp_all add: tj_leave_def Let_def ix_def fun_eq_iff)

text \<open>Reports accumulate and indexes stay.\<close>

lemma search_grows:
  "component fuel g i t = Some u \<Longrightarrow>
     length (tj_cycles t) \<le> length (tj_cycles u) \<and> dom (tj_index t) \<subseteq> dom (tj_index u) \<and> i \<in> dom (tj_index u)"
  "components fuel g i cs t = Some u \<Longrightarrow>
     length (tj_cycles t) \<le> length (tj_cycles u) \<and> dom (tj_index t) \<subseteq> dom (tj_index u)"
proof (induction fuel g i t and fuel g i cs t arbitrary: u and u rule: component_components.induct)
  case (2 fuel g i t)
  then obtain v where v: "components fuel g i (outgoing g i) (tj_enter i t) = Some v" "u = tj_leave g i v" by auto
  have "insert i (dom (tj_index t)) \<subseteq> dom (tj_index v)" "length (tj_cycles t) \<le> length (tj_cycles v)"
    using 2(1) [OF v(1)] by (simp_all del: fun_upd_apply)
  moreover have "length (tj_cycles v) \<le> length (tj_cycles u)" "tj_index u = tj_index v" by (simp_all add: v(2))
  ultimately show ?case by auto
next
  case (4 fuel g i c cs t)
  show ?case
  proof (cases "tj_index t c")
    case None
    then obtain v where v: "component fuel g c t = Some v" "components fuel g i cs (tj_lower i (tj_low v c) v) = Some u"
      using 4(4) by (auto split: option.splits)
    have "length (tj_cycles t) \<le> length (tj_cycles v)" "dom (tj_index t) \<subseteq> dom (tj_index v)"
      using 4(1) [OF None v(1)] by simp_all
    moreover have "length (tj_cycles v) \<le> length (tj_cycles u)" "dom (tj_index v) \<subseteq> dom (tj_index u)"
      using 4(2) [OF None v] by simp_all
    ultimately show ?thesis by (meson order_trans)
  next
    case (Some n)
    then show ?thesis using 4(3) [OF Some] 4(4) by (auto split: if_splits)
  qed
qed simp_all

section \<open>A search that reports nothing\<close>

text \<open>What a quiet call keeps: the nodes it leaves on the stack lie above it, and then link below it.\<close>

definition kept_below :: "graph \<Rightarrow> tarjan \<Rightarrow> tarjan \<Rightarrow> string list \<Rightarrow> bool" where
  "kept_below g t u ext \<longleftrightarrow> tj_ok g u \<and> tj_index t \<subseteq>\<^sub>m tj_index u \<and> tj_count t \<le> tj_count u \<and>
     tj_stack u = ext @ tj_stack t \<and> settled t \<subseteq> settled u \<and>
     (\<forall>x\<in>dom (tj_index u) - dom (tj_index t). tj_count t \<le> ix u x)"

definition entered :: "graph \<Rightarrow> string \<Rightarrow> tarjan \<Rightarrow> tarjan \<Rightarrow> string list \<Rightarrow> bool" where
  "entered g i t u ext \<longleftrightarrow> kept_below g t u ext \<and> (\<forall>x\<in>dom (tj_index t). tj_low u x = tj_low t x) \<and>
     (if ext = [] then i \<in> settled u \<and> tj_low u i = ix u i else \<exists>w\<in>set (tj_stack t). tj_low u i = ix u w)"

text \<open>While the children of \<open>i\<close> are scanned, \<open>i\<close> lies above \<open>S\<close> with \<open>ext\<close> on top of it.\<close>

definition scanning :: "string \<Rightarrow> string list \<Rightarrow> string list \<Rightarrow> tarjan \<Rightarrow> bool" where
  "scanning i S ext t \<longleftrightarrow> tj_stack t = ext @ i # S \<and> tj_low t i \<in> ix t ` set (i # S) \<and> tj_low t i \<le> ix t i"

definition scanned :: "graph \<Rightarrow> string \<Rightarrow> string list \<Rightarrow> string list \<Rightarrow> tarjan \<Rightarrow> tarjan \<Rightarrow> bool" where
  "scanned g i S cs t u \<longleftrightarrow> (\<exists>ext pile. kept_below g t u pile \<and> scanning i S ext u \<and>
     (\<forall>x\<in>dom (tj_index t) - {i}. tj_low u x = tj_low t x) \<and> tj_low u i \<le> tj_low t i \<and>
     (ext = [] \<and> tj_low u i = ix u i \<longrightarrow> (\<forall>c\<in>set cs. c \<in> settled u \<or> c = i)))"

lemma kept_below_trans:
  assumes "kept_below g t u a" "kept_below g u v b"
  shows "kept_below g t v (b @ a)"
proof -
  have "tj_count t \<le> ix v x" if "x \<in> dom (tj_index v) - dom (tj_index t)" for x
  proof (cases "x \<in> dom (tj_index u)")
    case True
    then have "ix v x = ix u x" using assms(2) by (auto simp: kept_below_def map_le_def ix_def)
    then show ?thesis using assms(1) that True by (auto simp: kept_below_def)
  next
    case False
    then have "tj_count u \<le> ix v x" using assms(2) that by (auto simp: kept_below_def)
    then show ?thesis using assms(1) by (auto simp: kept_below_def)
  qed
  then show ?thesis
    using assms by (auto simp: kept_below_def intro: map_le_trans)
qed

lemma map_le_leD: "m \<subseteq>\<^sub>m n \<Longrightarrow> m x = Some y \<Longrightarrow> n x = Some y"
  by (metis domI map_le_def)

lemma kept_index: "kept_below g t u e \<Longrightarrow> x \<in> dom (tj_index t) \<Longrightarrow> ix u x = ix t x \<and> x \<in> dom (tj_index u)"
  by (auto simp: kept_below_def ix_def dest!: map_le_leD)

lemma scanning_order:
  assumes "tj_ok g t" "scanning i S ext t" "w \<in> set (tj_stack t)"
  shows "w \<in> set ext \<and> ix t i < ix t w \<or> w = i \<or> w \<in> set S \<and> ix t w < ix t i"
  using assms by (auto simp: tj_ok_def scanning_def sorted_wrt_append)

lemma scanning_lower:
  assumes ok: "tj_ok g t" and scan: "scanning i S ext t" and n: "n \<in> ix t ` set (tj_stack t) \<or> ix t i < n"
  shows "scanning i S ext (tj_lower i n t)"
proof -
  have "min (tj_low t i) n \<in> ix t ` set (i # S)"
  proof (cases "tj_low t i \<le> n")
    case True
    then show ?thesis using scan by (simp add: scanning_def min_absorb1)
  next
    case False
    then have less: "n < tj_low t i" "tj_low t i \<le> ix t i" using scan by (simp_all add: scanning_def)
    then obtain w where w: "w \<in> set (tj_stack t)" "n = ix t w" using n by auto
    then show ?thesis using scanning_order [OF ok scan w(1)] less by (auto simp: min_def)
  qed
  then show ?thesis using scan by (auto simp: scanning_def)
qed

lemma kept_below_refl [simp]: "tj_ok g t \<Longrightarrow> kept_below g t t []"
  by (simp add: kept_below_def)

lemma kept_below_lower [simp]: "kept_below g t (tj_lower i n u) e = kept_below g t u e"
  by (simp add: kept_below_def)

lemma scanned_cons:
  assumes step: "kept_below g t v pile" "\<forall>x\<in>dom (tj_index t) - {i}. tj_low v x = tj_low t x" "tj_low v i \<le> tj_low t i"
    and rest: "scanned g i S cs v u"
    and child: "c \<in> settled v \<or> c = i \<or> (\<exists>x\<in>set (tj_stack v). ix v i < ix v x) \<or> tj_low v i < ix v i"
    and i: "i \<in> dom (tj_index t)"
  shows "scanned g i S (c # cs) t u"
proof -
  obtain ext pile' where u: "kept_below g v u pile'" "scanning i S ext u" "\<forall>x\<in>dom (tj_index v) - {i}. tj_low u x = tj_low v x"
    "tj_low u i \<le> tj_low v i" "ext = [] \<and> tj_low u i = ix u i \<longrightarrow> (\<forall>c\<in>set cs. c \<in> settled u \<or> c = i)"
    using rest by (auto simp: scanned_def)
  have ok: "tj_ok g u" "tj_ok g v" using u(1) step(1) by (simp_all add: kept_below_def)
  have same: "x \<in> dom (tj_index v) \<Longrightarrow> ix u x = ix v x" for x using kept_index [OF u(1)] by blast
  have iv: "i \<in> dom (tj_index v)" using kept_index [OF step(1) i] by simp
  have "c \<in> settled u \<or> c = i" if last: "ext = []" "tj_low u i = ix u i"
    using child
  proof (elim disjE bexE)
    fix x
    assume x: "x \<in> set (tj_stack v)" "ix v i < ix v x"
    then have "x \<in> set (tj_stack u)" "x \<in> dom (tj_index v)" using u(1) ok(2) by (auto simp: kept_below_def tj_ok_def)
    then have "x \<in> set ext"
      using scanning_order [OF ok(1) u(2), of x] same [of x] same [OF iv] x(2) by auto
    then show ?thesis using last by simp
  qed (use u last same iv in \<open>auto simp: kept_below_def\<close>)
  moreover have "kept_below g t u (pile' @ pile)" by (rule kept_below_trans [OF step(1) u(1)])
  moreover have "\<forall>x\<in>dom (tj_index t) - {i}. tj_low u x = tj_low t x"
    using step(2) u(3) kept_index [OF step(1)] by simp
  ultimately show ?thesis
    using u(2,4,5) step(3) unfolding scanned_def by (metis order_trans set_ConsD)
qed

lemma leaves_alone:
  assumes ok: "tj_ok g t" and new: "tj_index t i = None" and scan: "scanned g i (tj_stack t) (outgoing g i) (tj_enter i t) v"
    and quiet: "length (tj_cycles (tj_leave g i v)) = length (tj_cycles v)"
  shows "\<exists>ext. entered g i t (tj_leave g i v) ext"
proof -
  let ?S = "tj_stack t"
  obtain ext pile where v: "kept_below g (tj_enter i t) v pile" "scanning i ?S ext v"
    "\<forall>x\<in>dom (tj_index (tj_enter i t)) - {i}. tj_low v x = tj_low (tj_enter i t) x"
    "ext = [] \<and> tj_low v i = ix v i \<longrightarrow> (\<forall>c\<in>set (outgoing g i). c \<in> settled v \<or> c = i)"
    using scan by (auto simp: scanned_def)
  have okv: "tj_ok g v" using v(1) by (simp add: kept_below_def)
  have st: "tj_stack v = ext @ i # ?S" using v(2) by (simp add: scanning_def)
  have index: "tj_index t \<subseteq>\<^sub>m tj_index v" "tj_index v i = Some (tj_count t)"
  proof -
    have "(tj_index t)(i \<mapsto> tj_count t) \<subseteq>\<^sub>m tj_index v" using v(1) by (simp add: kept_below_def)
    then show "tj_index v i = Some (tj_count t)" by (rule map_le_leD) simp
    have "tj_index t \<subseteq>\<^sub>m (tj_index t)(i \<mapsto> tj_count t)" using new by (auto simp: map_le_def)
    then show "tj_index t \<subseteq>\<^sub>m tj_index v"
      using \<open>(tj_index t)(i \<mapsto> tj_count t) \<subseteq>\<^sub>m tj_index v\<close> by (rule map_le_trans)
  qed
  have ixi: "ix v i = tj_count t" using index(2) by (simp add: ix_def)
  have low: "\<forall>x\<in>dom (tj_index t). tj_low v x = tj_low t x" using v(3) new by auto
  have settled: "settled t \<subseteq> settled v" using v(1) tj_enter_ok(2) [OF ok new] by (simp add: kept_below_def)
  have later: "tj_count t \<le> ix v x" if "x \<in> dom (tj_index v) - dom (tj_index t)" for x
  proof (cases "x = i")
    case False
    then have "x \<in> dom (tj_index v) - dom (tj_index (tj_enter i t))" using that by simp
    then have "Suc (tj_count t) \<le> ix v x" using v(1) by (simp add: kept_below_def)
    then show ?thesis by simp
  qed (simp add: ixi)
  have out: "i \<notin> set ext" "i \<notin> set ?S" using okv by (auto simp: tj_ok_def st)
  show ?thesis
  proof (cases "tj_low v i = ix v i")
    case True
    have tw: "takeWhile (\<lambda>m. m \<noteq> i) (tj_stack v) = ext" "dropWhile (\<lambda>m. m \<noteq> i) (tj_stack v) = i # ?S"
      using out(1) by (simp_all add: st takeWhile_append dropWhile_append)
    have "ext = []" "i \<notin> set (outgoing g i)"
      using quiet True index(2) ixi by (auto simp: tj_leave_def Let_def tw split: if_splits)
    then have children: "set (outgoing g i) \<subseteq> settled v" using v(4) True by blast
    let ?u = "v\<lparr>tj_stack := ?S\<rparr>"
    have u: "tj_leave g i v = ?u"
      using True index(2) ixi \<open>ext = []\<close> \<open>i \<notin> set (outgoing g i)\<close> by (simp add: tj_leave_def Let_def tw)
    have i: "settled ?u = insert i (settled v)" "i \<notin> settled v" using index(2) out \<open>ext = []\<close> by (auto simp: settled_def st)
    have "ranked g (settled ?u)"
      unfolding i(1) using okv i(2) children by (intro ranked_insert) (simp_all add: tj_ok_def)
    then have "tj_ok g ?u" using okv \<open>ext = []\<close> by (simp add: tj_ok_def st ix_def)
    moreover have "tj_count t \<le> tj_count v" using v(1) by (simp add: kept_below_def)
    ultimately have "entered g i t ?u []"
      using index low settled later i(1) True by (auto simp: entered_def kept_below_def ix_def)
    then show ?thesis unfolding u by blast
  next
    case False
    then have u: "tj_leave g i v = v" using index(2) ixi by (simp add: tj_leave_def)
    have "\<exists>w\<in>set ?S. tj_low v i = ix v w" using v(2) False by (auto simp: scanning_def)
    moreover have "tj_count t \<le> tj_count v" using v(1) by (simp add: kept_below_def)
    ultimately have "entered g i t v (ext @ [i])"
      using okv index low settled later by (auto simp: entered_def kept_below_def st)
    then show ?thesis unfolding u by blast
  qed
qed

lemma quiet_search:
  "component fuel g i t = Some u \<Longrightarrow> tj_ok g t \<Longrightarrow> tj_index t i = None \<Longrightarrow> length (tj_cycles u) = length (tj_cycles t) \<Longrightarrow>
     \<exists>ext. entered g i t u ext"
  "components fuel g i cs t = Some u \<Longrightarrow> tj_ok g t \<Longrightarrow> scanning i S ext t \<Longrightarrow> length (tj_cycles u) = length (tj_cycles t) \<Longrightarrow>
     scanned g i S cs t u"
proof (induction fuel g i t and fuel g i cs t arbitrary: u and u ext S rule: component_components.induct)
  case (2 fuel g i t)
  then obtain v where v: "components fuel g i (outgoing g i) (tj_enter i t) = Some v" "u = tj_leave g i v" by auto
  have grows: "length (tj_cycles t) \<le> length (tj_cycles v)" "length (tj_cycles v) \<le> length (tj_cycles u)"
    using search_grows(2) [OF v(1)] by (simp_all add: v(2))
  have quiet: "length (tj_cycles v) = length (tj_cycles t)" using grows 2(5) by linarith
  have scan: "scanning i (tj_stack t) [] (tj_enter i t)" by (simp add: scanning_def)
  have "scanned g i (tj_stack t) (outgoing g i) (tj_enter i t) v"
    by (rule 2(1) [OF v(1) tj_enter_ok(1) [OF 2(3,4)] scan]) (simp add: quiet)
  then show ?case
    unfolding v(2) by (rule leaves_alone [OF 2(3,4)]) (use quiet 2(5) v(2) in simp)
next
  case (3 fuel g i t)
  then have "u = t" by simp
  moreover have "kept_below g t t []" using 3 by simp
  ultimately show ?case using 3(3) unfolding scanned_def by (metis empty_iff empty_set order_refl)
next
  case (4 fuel g i c cs t)
  have i: "i \<in> dom (tj_index t)" and order: "\<And>w. w \<in> set (tj_stack t) \<Longrightarrow> w \<in> set ext \<and> ix t i < ix t w \<or> w = i \<or> w \<in> set S \<and> ix t w < ix t i"
    using 4(5,6) scanning_order [OF 4(5,6)] by (auto simp: tj_ok_def scanning_def)
  show ?case
  proof (cases "tj_index t c")
    case None
    then obtain v where v: "component fuel g c t = Some v" "components fuel g i cs (tj_lower i (tj_low v c) v) = Some u"
      using 4(4) by (auto split: option.splits)
    have grows: "length (tj_cycles t) \<le> length (tj_cycles v)" "length (tj_cycles v) \<le> length (tj_cycles u)"
      using search_grows(1) [OF v(1)] search_grows(2) [OF v(2)] by simp_all
    obtain e where e: "entered g c t v e" using 4(1) [OF None v(1) 4(5) None] grows 4(7) by auto
    then have kept: "kept_below g t v e" and low: "tj_low v i = tj_low t i" using i by (auto simp: entered_def)
    have okv: "tj_ok g v" and st: "tj_stack v = e @ tj_stack t" using kept by (simp_all add: kept_below_def)
    have same: "x \<in> dom (tj_index t) \<Longrightarrow> ix v x = ix t x" for x using kept_index [OF kept] by blast
    have onstack: "set (tj_stack t) \<subseteq> dom (tj_index t)" using 4(5) by (simp add: tj_ok_def)
    have ici: "ix t i < tj_count t" using 4(5) i by (simp add: tj_ok_def)
    have "c \<in> dom (tj_index v) - dom (tj_index t)" using search_grows(1) [OF v(1)] None by auto
    then have newc: "tj_count t \<le> ix v c" using kept by (simp add: kept_below_def)
    have image: "ix v ` set (i # S) = ix t ` set (i # S)"
    proof (intro image_cong refl same)
      show "x \<in> dom (tj_index t)" if "x \<in> set (i # S)" for x
        using that onstack 4(6) by (fastforce simp: scanning_def)
    qed
    have scanv: "scanning i S (e @ ext) v"
      using 4(6) low same [OF i] unfolding scanning_def image by (simp add: st)
    have n: "tj_low v c \<in> ix v ` set (tj_stack v) \<or> ix v i < tj_low v c"
      using e newc ici same [OF i] by (auto simp: entered_def st split: if_splits)
    have "scanned g i S cs (tj_lower i (tj_low v c) v) u"
      by (rule 4(2) [OF None v(1) v(2)]) (use okv scanning_lower [OF okv scanv n] grows 4(7) in simp_all)
    moreover have "\<forall>x\<in>dom (tj_index t) - {i}. tj_low (tj_lower i (tj_low v c) v) x = tj_low t x"
      using e by (auto simp: entered_def)
    moreover have "c \<in> settled v \<or> (\<exists>x\<in>set (tj_stack v). ix v i < ix v x)"
    proof (cases e)
      case Nil
      then show ?thesis using e by (simp add: entered_def)
    next
      case (Cons x xs)
      then have "x \<in> set (tj_stack v)" "x \<in> set (e @ ext)" by (simp_all add: st)
      moreover have "ix v i < ix v x"
      proof -
        have "sorted_wrt (\<lambda>a b. ix v b < ix v a) ((x # xs) @ ext @ i # S)"
          using okv scanv Cons by (simp add: tj_ok_def scanning_def)
        then show ?thesis by (simp add: sorted_wrt_append)
      qed
      ultimately show ?thesis by blast
    qed
    ultimately show ?thesis
      using low by (intro scanned_cons [of g t "tj_lower i (tj_low v c) v" e]) (use kept i in auto)
  next
    case (Some n)
    let ?t = "if c \<in> set (tj_stack t) then tj_lower i n t else t"
    have rest: "components fuel g i cs ?t = Some u" using 4(4) Some by (simp split: if_splits)
    have n: "n = ix t c" using Some by (simp add: ix_def)
    have "scanning i S ext ?t" using scanning_lower [OF 4(5,6), of n] 4(6) n by auto
    then have "scanned g i S cs ?t u" by (intro 4(3) [OF Some rest]) (use 4(5,7) in \<open>auto split: if_splits\<close>)
    moreover have "c \<in> settled t \<or> c = i \<or> (\<exists>x\<in>set (tj_stack t). ix t i < ix t x) \<or> tj_low ?t i < ix t i"
    proof (cases "c \<in> set (tj_stack t)")
      case True
      then show ?thesis using order [OF True] n by auto
    next
      case False
      then show ?thesis using Some by (auto simp: settled_def)
    qed
    ultimately show ?thesis
      by (intro scanned_cons [of g t ?t "[]"]) (use 4(5) i in \<open>auto split: if_splits\<close>)
  qed
qed simp_all

section \<open>The whole search\<close>

definition unvisited :: "graph \<Rightarrow> tarjan \<Rightarrow> nat" where
  "unvisited g t = card (set (node_ids g) - dom (tj_index t))"

lemma unvisited_mono: "dom (tj_index t) \<subseteq> dom (tj_index u) \<Longrightarrow> unvisited g u \<le> unvisited g t"
  unfolding unvisited_def by (intro card_mono) auto

lemma unvisited_enter:
  assumes "i \<in> set (node_ids g)" "tj_index t i = None"
  shows "unvisited g (tj_enter i t) < unvisited g t"
  unfolding unvisited_def using assms by (intro psubset_card_mono) auto

lemma outgoing_nodes: "graph_ok g \<Longrightarrow> set (outgoing g i) \<subseteq> set (node_ids g)"
  by (auto simp: graph_ok_def outgoing_def list_all_iff)

lemma component_returns:
  assumes "graph_ok g"
  shows "tj_index t i = None \<Longrightarrow> i \<in> set (node_ids g) \<Longrightarrow> unvisited g t \<le> fuel \<Longrightarrow> \<exists>u. component fuel g i t = Some u"
    and "set cs \<subseteq> set (node_ids g) \<Longrightarrow> unvisited g t \<le> fuel \<Longrightarrow> \<exists>u. components fuel g i cs t = Some u"
  using assms
proof (induction fuel g i t and fuel g i cs t rule: component_components.induct)
  case (1 g i t)
  then show ?case using unvisited_enter [of i g t] by simp
next
  case (2 fuel g i t)
  then show ?case using unvisited_enter [of i g t] outgoing_nodes [of g i] by fastforce
next
  case (4 fuel g i c cs t)
  show ?case
  proof (cases "tj_index t c")
    case None
    then obtain v where v: "component fuel g c t = Some v" using 4(1) [OF None] 4(4-6) by auto
    have "unvisited g (tj_lower i (tj_low v c) v) \<le> unvisited g t"
      using search_grows(1) [OF v] by (intro unvisited_mono) simp
    then show ?thesis using 4(2) [OF None v] 4(4-6) v None by auto
  next
    case (Some n)
    have "unvisited g (if c \<in> set (tj_stack t) then tj_lower i n t else t) = unvisited g t" by (simp add: unvisited_def)
    then show ?thesis using 4(3) [OF Some] 4(4-6) Some by auto
  qed
qed simp_all

lemma search_returns: "graph_ok g \<Longrightarrow> set is \<subseteq> set (node_ids g) \<Longrightarrow> \<exists>u. search g is t = Some u"
proof (induction "is" arbitrary: t)
  case (Cons i "is")
  have "unvisited g t \<le> length (g_nodes g)"
    using card_mono [of "set (node_ids g)" "set (node_ids g) - dom (tj_index t)"] card_length [of "node_ids g"]
    by (simp add: unvisited_def node_ids_def)
  then obtain u where "tj_index t i = None \<longrightarrow> component (length (g_nodes g)) g i t = Some u"
    using component_returns(1) [OF Cons.prems(1), of t i] Cons.prems(2) by auto
  then show ?case using Cons by (cases "tj_index t i") auto
qed simp

lemma search_ranks:
  assumes "search g is t = Some u" "tj_ok g t" "tj_stack t = []" "length (tj_cycles u) = length (tj_cycles t)"
  shows "tj_ok g u \<and> tj_stack u = [] \<and> set is \<subseteq> dom (tj_index u)"
  using assms
proof (induction "is" arbitrary: t)
  case (Cons i "is")
  have grows: "length (tj_cycles v) \<le> length (tj_cycles u) \<and> dom (tj_index v) \<subseteq> dom (tj_index u)"
    if "search g is v = Some u" for v
    using that
  proof (induction "is" arbitrary: v)
    case (Cons j js)
    then show ?case
      by (auto split: if_splits option.splits) (use search_grows(1) in \<open>fastforce\<close>)+
  qed simp
  show ?case
  proof (cases "tj_index t i")
    case None
    then obtain v where v: "component (length (g_nodes g)) g i t = Some v" "search g is v = Some u"
      using Cons.prems(1) by (auto split: option.splits)
    have cyc: "length (tj_cycles v) = length (tj_cycles t)"
      using grows [OF v(2)] search_grows(1) [OF v(1)] Cons.prems(4) by linarith
    obtain ext where "entered g i t v ext" using quiet_search(1) [OF v(1) Cons.prems(2) None cyc] by blast
    then have "tj_ok g v" "tj_stack v = []"
      using Cons.prems(3) by (auto simp: entered_def kept_below_def split: if_splits)
    then show ?thesis using Cons.IH [OF v(2)] cyc Cons.prems(4) grows [OF v(2)] search_grows(1) [OF v(1)] by auto
  next
    case (Some n)
    then show ?thesis using Cons grows [of t] by auto
  qed
qed simp

lemma cycles_return: "graph_ok g \<Longrightarrow> \<exists>cs. cycles g = Some cs"
  using search_returns [of g "node_ids g" no_visit] by (auto simp: cycles_def)

text \<open>No cycle reported: the edges descend along a rank.\<close>

lemma no_cycles_ranked:
  assumes "graph_ok g" "cycles g = Some []"
  obtains rank :: "string \<Rightarrow> nat" where "\<And>i j. j \<in> set (outgoing g i) \<Longrightarrow> rank j < rank i"
proof -
  obtain u where u: "search g (node_ids g) no_visit = Some u" "tj_cycles u = []" using assms(2) by (auto simp: cycles_def)
  have "tj_ok g no_visit" by (simp add: tj_ok_def no_visit_def settled_def ranked_def)
  then have "tj_ok g u" "tj_stack u = []" "set (node_ids g) \<subseteq> dom (tj_index u)"
    using search_ranks [OF u(1)] u(2) by (auto simp: no_visit_def)
  then obtain rank :: "string \<Rightarrow> nat" where rank: "\<forall>x\<in>set (node_ids g). \<forall>y\<in>set (outgoing g x). rank y < rank x"
    unfolding tj_ok_def ranked_def settled_def by (metis Diff_empty list.set(1) subsetD)
  have "i \<in> set (node_ids g)" if "j \<in> set (outgoing g i)" for i j
    using assms(1) that by (auto simp: graph_ok_def outgoing_def list_all_iff)
  then show ?thesis using rank that by blast
qed

end
