(* ===== verification/ConditionLaws.thy ===== *)
theory ConditionLaws
  imports Conditions "HOL-Library.Sublist"
begin

text \<open>
  What parsing and the check against the catalogue buy: a condition that passed both never meets a
  value of the wrong type, and its short-circuit evaluation gives the truth of its connectives.
\<close>

section \<open>Well-formed conditions\<close>

definition leaf_ok :: "leaf \<Rightarrow> bool" where
  "leaf_ok l \<longleftrightarrow> (\<exists>given. value_shape given (lc_op l) (lc_value l)) \<and>
     (case lc_value l of VMoney a c \<Rightarrow> fixed_amount a \<noteq> None | _ \<Rightarrow> True)"

lemma leaf_value_amount: "leaf_value_of v = Some (VMoney a c) \<Longrightarrow> fixed_amount a \<noteq> None"
  by (auto simp: leaf_value_of_def money_value_def split: option.splits json.splits if_splits sum.splits)

lemma parse_leaf_ok: "parse_leaf kvs = Some l \<Longrightarrow> leaf_ok l"
  using leaf_value_amount [of "map_of kvs ''value''"]
  by (auto simp: parse_leaf_def leaf_ok_def split: if_splits option.splits json.splits leaf_value.splits)

lemma parse_node_leaves:
  "parse_node j = Some c \<Longrightarrow> \<forall>l\<in>set (leaves_of c). leaf_ok l"
  "parse_nodes js = Some cs \<Longrightarrow> \<forall>c\<in>set cs. \<forall>l\<in>set (leaves_of c). leaf_ok l"
proof (induction j and js arbitrary: c and cs rule: parse_node_parse_nodes.induct)
  case (1 kvs)
  then show ?case
    by (auto dest: parse_leaf_ok split: list.splits if_splits json.splits; metis parse_leaf_ok)
next
  case (4 j js)
  then show ?case by (fastforce split: option.splits)
qed simp_all

section \<open>The truth of a condition\<close>

definition attribute_fits :: "field_type \<Rightarrow> attribute \<Rightarrow> bool" where
  "attribute_fits kind a \<longleftrightarrow>
     (case a of
        ANone \<Rightarrow> True
      | AStr _ \<Rightarrow> kind \<in> {TText, TCode}
      | ABool _ \<Rightarrow> kind = TBoolean
      | AInt _ \<Rightarrow> kind = TDecimal
      | ADec _ \<Rightarrow> kind = TDecimal
      | ADate _ \<Rightarrow> kind = TDate
      | AList _ \<Rightarrow> kind = TCodeList
      | AMoney _ \<Rightarrow> kind = TMoney
      | AFloat \<Rightarrow> False)"

definition attributes_conform :: "(string \<Rightarrow> field_type option) \<Rightarrow> (string \<times> attribute) list \<Rightarrow> bool" where
  "attributes_conform catalog attrs \<longleftrightarrow>
     (\<forall>(f, a)\<in>set attrs. a \<noteq> AFloat \<and> (\<forall>k. catalog f = Some k \<longrightarrow> attribute_fits k a))"

fun holds :: "(leaf \<Rightarrow> bool) \<Rightarrow> condition \<Rightarrow> bool" where
  "holds T (LeafCond l) = T l"
| "holds T (AllCond cs) = list_all (holds T) cs"
| "holds T (AnyCond cs) = list_ex (holds T) cs"
| "holds T (NotCond c) = (\<not> holds T c)"

definition leaf_true :: "(string \<Rightarrow> attribute) \<Rightarrow> leaf \<Rightarrow> bool" where
  "leaf_true attrs l \<longleftrightarrow> compare_leaf l (attrs (lc_field l)) = Inr True"

text \<open>The only way a checked leaf fails: money in another currency.\<close>

definition currencies_differ :: "(string \<Rightarrow> attribute) \<Rightarrow> leaf \<Rightarrow> condition_error \<Rightarrow> bool" where
  "currencies_differ attrs l e \<longleftrightarrow> (\<exists>m a c. attrs (lc_field l) = AMoney m \<and> lc_value l = VMoney a c \<and>
     c \<noteq> m_currency m \<and> e = CurrencyDiffers (lc_field l) c (m_currency m))"

lemma checked_value:
  assumes "leaf_ok l" "valid_leaf l (Some k)"
  shows "lc_op l \<in> {OpIsNull, OpNotNull, OpIn, OpNotIn, OpContains} \<or> value_fits k (lc_value l)"
proof (cases "\<exists>xs. lc_value l = VList xs")
  case True
  then show ?thesis using assms(1) by (auto simp: leaf_ok_def value_shape_def split: if_splits)
next
  case False
  then show ?thesis using assms(2) by (auto simp: valid_leaf_def split: if_splits leaf_value.splits)
qed

lemma checked_leaf_compares:
  assumes "leaf_ok l" "valid_leaf l (Some k)" "attribute_fits k a" "\<And>n. a \<noteq> AInt n"
  shows "case compare_leaf l a of
      Inl e \<Rightarrow> \<exists>m x c. a = AMoney m \<and> lc_value l = VMoney x c \<and> c \<noteq> m_currency m \<and> e = CurrencyDiffers (lc_field l) c (m_currency m)
    | Inr b \<Rightarrow> True"
proof (cases "a = ANone \<or> lc_op l \<in> {OpIsNull, OpNotNull, OpIn, OpNotIn, OpContains}")
  case True
  then show ?thesis by (auto simp: compare_leaf_def Let_def)
next
  case False
  then have fits: "value_fits k (lc_value l)" and op: "lc_op l \<in> ordering \<union> {OpEq, OpNe}" and k: "k \<noteq> TCodeList"
    using checked_value [OF assms(1,2)] assms(2)
    by (cases "lc_op l"; cases k; simp add: ordering_def valid_leaf_def)+
  have amount: "fixed_amount x \<noteq> None" if "lc_value l = VMoney x c" for x c
    using assms(1) that by (simp add: leaf_ok_def)
  have plain: "compare_leaf l a = (case (a, lc_value l) of
        (AMoney m, VMoney a c) \<Rightarrow>
          if m_currency m \<noteq> c then Inl (CurrencyDiffers (lc_field l) c (m_currency m))
          else (case fixed_amount a of None \<Rightarrow> Inl BadValue | Some x \<Rightarrow> Inr (ordered (lc_op l) (m_amount m) x))
      | (ADec x, VStr e) \<Rightarrow> (case fixed_amount e of None \<Rightarrow> Inl BadValue | Some y \<Rightarrow> Inr (ordered (lc_op l) x y))
      | (ADate d, VStr e) \<Rightarrow> (case iso_date e of None \<Rightarrow> Inl BadValue | Some y \<Rightarrow> Inr (ordered (lc_op l) d y))
      | (AStr a, VStr e) \<Rightarrow> Inr (ordered (lc_op l) a e)
      | (ABool a, VBool e) \<Rightarrow> Inr (ordered (lc_op l) a e)
      | (AStr _, VBool _) \<Rightarrow> if lc_op l = OpEq then Inr False else if lc_op l = OpNe then Inr True else Inl BadType
      | (ABool _, VStr _) \<Rightarrow> if lc_op l = OpEq then Inr False else if lc_op l = OpNe then Inr True else Inl BadType
      | _ \<Rightarrow> Inl BadType)"
    using False by (simp add: compare_leaf_def Let_def)
  show ?thesis
  proof (cases "lc_value l")
    case (VStr e)
    then show ?thesis using fits assms(3,4) False k unfolding plain value_fits_def attribute_fits_def by (cases a) auto
  next
    case (VMoney x c)
    then show ?thesis using fits assms(3,4) False k amount [OF VMoney] unfolding plain value_fits_def attribute_fits_def by (cases a) auto
  next
    case (VBool b)
    then show ?thesis using fits assms(3,4) False k unfolding plain value_fits_def attribute_fits_def by (cases a) auto
  qed (use fits in \<open>simp_all add: value_fits_def\<close>)
qed

text \<open>Evaluation stops early, but what it returns is the truth of the whole.\<close>

definition traced :: "(string \<Rightarrow> attribute) \<Rightarrow> leaf_trace list \<Rightarrow> leaf list \<Rightarrow> bool" where
  "traced attrs t ls \<longleftrightarrow> subseq (map lt_leaf t) ls \<and>
     (\<forall>x\<in>set t. lt_actual x = attrs (lc_field (lt_leaf x)) \<and> lt_result x = leaf_true attrs (lt_leaf x))"

lemma visit_true:
  "\<forall>l\<in>set (leaves_of c). case compare_leaf l (attrs (lc_field l)) of Inl e \<Rightarrow> currencies_differ attrs l e | Inr b \<Rightarrow> True \<Longrightarrow>
   case visit attrs c of
     Inl e \<Rightarrow> \<exists>l\<in>set (leaves_of c). currencies_differ attrs l e
   | Inr (b, t) \<Rightarrow> b = holds (leaf_true attrs) c \<and> traced attrs t (leaves_of c)"
  "\<forall>c\<in>set cs. \<forall>l\<in>set (leaves_of c). case compare_leaf l (attrs (lc_field l)) of Inl e \<Rightarrow> currencies_differ attrs l e | Inr b \<Rightarrow> True \<Longrightarrow>
   case visit_until stop attrs cs of
     Inl e \<Rightarrow> \<exists>c\<in>set cs. \<exists>l\<in>set (leaves_of c). currencies_differ attrs l e
   | Inr (b, t) \<Rightarrow> b = (if list_ex (\<lambda>c. holds (leaf_true attrs) c = stop) cs then stop else \<not> stop) \<and>
       traced attrs t (concat (map leaves_of cs))"
proof (induction attrs c and stop attrs cs rule: visit_visit_until.induct)
  case (1 attrs l)
  then show ?case by (auto simp: traced_def leaf_true_def split: sum.splits)
next
  case (2 attrs cs)
  then show ?case by (auto simp: list_all_iff list_ex_iff split: sum.splits prod.splits)
next
  case (3 attrs cs)
  then show ?case by (auto simp: list_ex_iff split: sum.splits prod.splits)
next
  case (4 attrs c)
  then show ?case by (auto split: sum.splits prod.splits)
next
  case (5 stop attrs)
  then show ?case by (simp add: traced_def)
next
  case (6 stop attrs c cs)
  have c: "case visit attrs c of
      Inl e \<Rightarrow> \<exists>l\<in>set (leaves_of c). currencies_differ attrs l e
    | Inr (b, t) \<Rightarrow> b = holds (leaf_true attrs) c \<and> traced attrs t (leaves_of c)"
    using 6 by simp
  show ?case
  proof (cases "visit attrs c")
    case (Inl e)
    then show ?thesis using c by simp
  next
    case (Inr r)
    obtain b t where r: "r = (b, t)" by (cases r)
    have b: "b = holds (leaf_true attrs) c" "traced attrs t (leaves_of c)" using c Inr r by simp_all
    show ?thesis
    proof (cases "b = stop")
      case True
      then show ?thesis using Inr r b by (auto simp: traced_def intro: list_emb_append2)
    next
      case False
      then show ?thesis
        using Inr r b 6(2) [OF Inr r [symmetric] False] 6(3)
        by (auto simp: traced_def intro: list_emb_append_mono split: sum.splits prod.splits)
    qed
  qed
qed

lemma checked_condition_evaluates_rule:
  assumes "parse_condition j = Inr c" "\<forall>l\<in>set (leaves_of c). valid_leaf l (catalog (lc_field l))" "attributes_conform catalog attrs"
  shows "case evaluate_condition c attrs of
      Inl e \<Rightarrow> \<exists>l\<in>set (leaves_of c). currencies_differ (normalized attrs) l e
    | Inr (b, t) \<Rightarrow> b = holds (leaf_true (normalized attrs)) c \<and> traced (normalized attrs) t (leaves_of c)"
proof -
  have parsed: "parse_node j = Some c" using assms(1) by (auto simp: parse_condition_def split: if_splits option.splits)
  have "\<not> list_ex (\<lambda>(k, a). a = AFloat) attrs"
    using assms(3) by (auto simp: attributes_conform_def list_ex_iff)
  moreover have "case compare_leaf l (normalized attrs (lc_field l)) of
      Inl e \<Rightarrow> currencies_differ (normalized attrs) l e | Inr b \<Rightarrow> True" if l: "l \<in> set (leaves_of c)" for l
  proof -
    obtain k where k: "catalog (lc_field l) = Some k" "valid_leaf l (Some k)"
      using assms(2) l by (cases "catalog (lc_field l)") (auto simp: valid_leaf_def)
    have "attribute_fits k (normalized attrs (lc_field l))"
    proof (cases "map_of attrs (lc_field l)")
      case (Some a)
      then have "attribute_fits k a" using assms(3) k(1) map_of_SomeD [OF Some] by (auto simp: attributes_conform_def)
      then show ?thesis using Some by (cases a) (simp_all add: normalized_def attribute_fits_def)
    qed (simp add: normalized_def attribute_fits_def)
    moreover have "normalized attrs (lc_field l) \<noteq> AInt n" for n
      by (auto simp: normalized_def split: option.splits attribute.splits)
    ultimately show ?thesis
      using checked_leaf_compares [OF _ k(2)] parse_node_leaves(1) [OF parsed] l
      unfolding currencies_differ_def by blast
  qed
  ultimately show ?thesis
    using visit_true(1) [of c "normalized attrs"] by (simp add: evaluate_condition_def)
qed

text \<open>
  C24. A condition that parses, whose leaves all fit the catalogue, evaluates on every document that conforms to
  the catalogue without a type or value error: the result is the truth of its connectives over its leaves, traced
  in their order, or routing stops at a leaf that compares money of two currencies.
\<close>

theorem checked_condition_evaluates:
  assumes "parse_condition j = Inr c" "\<forall>l\<in>set (leaves_of c). valid_leaf l (catalog (lc_field l))" "attributes_conform catalog attrs"
  shows "case evaluate_condition c attrs of
      Inl e \<Rightarrow> \<exists>l\<in>set (leaves_of c). currencies_differ (normalized attrs) l e
    | Inr (b, t) \<Rightarrow> b = holds (leaf_true (normalized attrs)) c \<and> traced (normalized attrs) t (leaves_of c)"
  by (rule checked_condition_evaluates_rule [OF assms])

definition sample_when :: json where
  "sample_when = JObj [(''all'', JList
     [JObj [(''field'', JStr ''amount''), (''op'', JStr ''ge''), (''value'', JObj [(''amount'', JStr ''1000.50''), (''currency'', JStr ''USD'')])],
      JObj [(''not'', JObj [(''field'', JStr ''code''), (''op'', JStr ''in''), (''value'', JList [JStr ''A1''])])]])]"

definition sample_condition :: condition where
  "sample_condition = AllCond
     [LeafCond \<lparr>lc_field = ''amount'', lc_op = OpGe, lc_value = VMoney ''1000.50'' ''USD''\<rparr>,
      NotCond (LeafCond \<lparr>lc_field = ''code'', lc_op = OpIn, lc_value = VList [''A1'']\<rparr>)]"

definition sample_catalog :: "string \<Rightarrow> field_type option" where
  "sample_catalog = map_of [(''amount'', TMoney), (''code'', TCode)]"

definition sample_document :: "(string \<times> attribute) list" where
  "sample_document = [(''amount'', AMoney \<lparr>m_amount = 2000, m_currency = ''USD''\<rparr>), (''code'', AStr ''B2'')]"

lemma sample_amount: "fixed_amount ''1000.50'' = Some (2001 / 2)"
  by code_simp

lemma sample_parse: "parse_condition sample_when = Inr sample_condition"
  by (simp add: parse_condition_def sample_when_def sample_condition_def node_depth.simps node_leaves.simps child_nodes_def member_def
      listed_def parse_leaf_def operator_of_def leaf_value_of_def money_value_def sample_amount usd_exponent value_shape_def ordering_def
      insert_commute)

lemma sample_condition_ok:
  "\<forall>l\<in>set (leaves_of sample_condition). valid_leaf l (sample_catalog (lc_field l))" "attributes_conform sample_catalog sample_document"
  by (simp_all add: sample_condition_def sample_catalog_def sample_document_def valid_leaf_def value_fits_def
      attributes_conform_def attribute_fits_def)

lemma sample_evaluates:
  "case evaluate_condition sample_condition sample_document of Inl e \<Rightarrow> False | Inr (b, t) \<Rightarrow> b \<and> length t = 2"
  by code_simp

theorem checked_condition_evaluates_witness:
  "parse_condition sample_when = Inr sample_condition \<and> holds (leaf_true (normalized sample_document)) sample_condition"
  using checked_condition_evaluates [OF sample_parse sample_condition_ok] sample_parse sample_evaluates
  by (auto split: sum.splits)

end
