(* ===== verification/WorkflowLaws.thy ===== *)
theory WorkflowLaws
  imports CycleSearch ConditionLaws
begin

text \<open>
  What publication guarantees: validation always returns a report, and a graph it accepts routes every
  conforming document, in finitely many steps, to an approval or an end.
\<close>

section \<open>Validation returns\<close>

lemma those_map:
  "(\<exists>ys. those (map f xs) = Some ys) \<longleftrightarrow> (\<forall>x\<in>set xs. \<exists>y. f x = Some y)"
  by (induction xs) (auto split: option.splits)

lemma those_map_Some: "those (map f xs) = Some ys \<Longrightarrow> map f xs = map Some ys"
  by (induction xs arbitrary: ys) (auto split: option.splits)

definition links_of :: "graph \<Rightarrow> (string \<times> string) set" where
  "links_of g = set (forward g)"

lemma links_of_outgoing: "(i, j) \<in> links_of g \<longleftrightarrow> j \<in> set (outgoing g i)"
  by (auto simp: links_of_def forward_def outgoing_def)

lemma links_of_incoming: "(i, j) \<in> links_of g \<longleftrightarrow> i \<in> set (incoming g j)"
  by (auto simp: links_of_def forward_def incoming_def)

lemma links_of_nodes: "graph_ok g \<Longrightarrow> links_of g \<subseteq> set (node_ids g) \<times> set (node_ids g)"
  by (auto simp: graph_ok_def links_of_def forward_def list_all_iff)

text \<open>A recursion along the links of an acyclic graph needs no more fuel than there are nodes ahead.\<close>

lemma ahead_smaller:
  assumes fin: "finite R" and rank: "\<And>i j. (i, j) \<in> R \<Longrightarrow> (rank j :: nat) < rank i" and step: "(i, j) \<in> R"
  shows "card (R\<^sup>+ `` {j}) < card (R\<^sup>+ `` {i})"
proof (rule psubset_card_mono)
  have down: "(a, b) \<in> R\<^sup>+ \<Longrightarrow> rank b < rank a" for a b
    by (induction rule: trancl_induct) (use rank in \<open>force intro: order_trans\<close>)+
  have "R\<^sup>+ `` {i} \<subseteq> snd ` R" using tranclD2 by (force simp: image_iff)
  then show "finite (R\<^sup>+ `` {i})" using fin by (auto intro: finite_subset)
  have "j \<notin> R\<^sup>+ `` {j}" using down by blast
  moreover have "R\<^sup>+ `` {j} \<subseteq> R\<^sup>+ `` {i}" using step by (auto intro: trancl_into_trancl2)
  ultimately show "R\<^sup>+ `` {j} \<subset> R\<^sup>+ `` {i}" using step by blast
qed

lemma ahead_bounded:
  assumes nodes: "R \<subseteq> A \<times> A" "finite A" and rank: "\<And>i j. (i, j) \<in> R \<Longrightarrow> (rank j :: nat) < rank i" and i: "i \<in> A"
  shows "card (R\<^sup>+ `` {i}) < card A"
proof (rule psubset_card_mono [OF nodes(2)])
  have down: "(a, b) \<in> R\<^sup>+ \<Longrightarrow> rank b < rank a" for a b
    by (induction rule: trancl_induct) (use rank in \<open>force intro: order_trans\<close>)+
  have "R\<^sup>+ \<subseteq> A \<times> A" using nodes(1) by (rule trancl_subset_Sigma)
  then show "R\<^sup>+ `` {i} \<subset> A" using i down by blast
qed

lemma depth_returns:
  assumes fin: "finite (links_of g)" and rank: "\<And>i j. (i, j) \<in> links_of g \<Longrightarrow> (rank j :: nat) < rank i"
  shows "card ((links_of g)\<^sup>+ `` {i}) < fuel \<Longrightarrow> \<exists>d. depth_from fuel g finishes i = Some d"
proof (induction fuel arbitrary: i)
  case (Suc fuel)
  have "\<exists>d. depth_from fuel g finishes c = Some d" if "c \<in> set (outgoing g i)" for c
    using Suc.IH [of c] ahead_smaller [where rank = rank, OF fin rank, of i c] Suc.prems that by (simp add: links_of_outgoing)
  then have "\<exists>ds. those (map (depth_from fuel g finishes) (filter (\<lambda>c. c \<in> set finishes) (outgoing g i))) = Some ds"
    by (auto simp: those_map)
  then show ?case by auto
qed simp

lemma ancestors_return:
  assumes fin: "finite (links_of g)" and rank: "\<And>i j. (i, j) \<in> (links_of g)\<inverse> \<Longrightarrow> (rank j :: nat) < rank i"
  shows "card (((links_of g)\<inverse>)\<^sup>+ `` {i}) < fuel \<Longrightarrow> \<exists>as. ancestors fuel g reached i = Some as"
proof (induction fuel arbitrary: i)
  case (Suc fuel)
  have "\<exists>as. ancestors fuel g reached p = Some as" if "p \<in> set (incoming g i)" for p
    using Suc.IH ahead_smaller [of "(links_of g)\<inverse>" rank i p] fin rank Suc.prems that by (simp add: links_of_incoming)
  then have "\<exists>xss. those (map (ancestors fuel g reached) (filter (\<lambda>p. p \<in> set reached) (incoming g i))) = Some xss"
    by (auto simp: those_map)
  then show ?case by (auto simp: Let_def)
qed simp

lemma ranked_nodes:
  assumes "graph_ok g" "cycles g = Some []"
  obtains rank :: "string \<Rightarrow> nat" where "\<And>i j. (i, j) \<in> links_of g \<Longrightarrow> rank j < rank i" "\<And>i. i \<in> set (node_ids g) \<Longrightarrow> rank i \<le> length (g_nodes g)"
proof -
  obtain r :: "string \<Rightarrow> nat" where r: "\<And>i j. (i, j) \<in> links_of g \<Longrightarrow> r j < r i"
    using no_cycles_ranked [OF assms] by (auto simp: links_of_outgoing)
  let ?R = "links_of g"
  have fin: "finite ?R" by (simp add: links_of_def)
  show ?thesis
  proof (rule that [of "\<lambda>i. card (?R\<^sup>+ `` {i})"])
    show "card (?R\<^sup>+ `` {j}) < card (?R\<^sup>+ `` {i})" if "(i, j) \<in> ?R" for i j
      by (rule ahead_smaller [where rank = r, OF fin r that])
    show "card (?R\<^sup>+ `` {i}) \<le> length (g_nodes g)" if "i \<in> set (node_ids g)" for i
      using ahead_bounded [where rank = r, OF links_of_nodes [OF assms(1)] _ r that] card_length [of "node_ids g"]
      by (simp add: node_ids_def)
  qed
qed

lemma check_graph_recursions:
  assumes ok: "graph_ok g" and none: "cycles g = Some []" and i: "i \<in> set (node_ids g)"
  shows "\<exists>d. depth_from (length (g_nodes g)) g finishes i = Some d"
    and "\<exists>as. ancestors (length (g_nodes g)) g reached i = Some as"
proof -
  obtain rank :: "string \<Rightarrow> nat" where rank: "\<And>i j. (i, j) \<in> links_of g \<Longrightarrow> rank j < rank i"
    and bound: "\<And>i. i \<in> set (node_ids g) \<Longrightarrow> rank i \<le> length (g_nodes g)"
    using ranked_nodes [OF ok none] by metis
  have nodes: "links_of g \<subseteq> set (node_ids g) \<times> set (node_ids g)" using links_of_nodes [OF ok] .
  have fin: "finite (links_of g)" by (simp add: links_of_def)
  have size: "card (set (node_ids g)) \<le> length (g_nodes g)" using card_length [of "node_ids g"] by (simp add: node_ids_def)
  show "\<exists>d. depth_from (length (g_nodes g)) g finishes i = Some d"
    by (rule depth_returns [where rank = rank, OF fin rank]) (use ahead_bounded [where rank = rank, OF nodes _ rank i] size in auto)
  let ?up = "\<lambda>i. length (g_nodes g) - rank i"
  have up: "?up j < ?up i" if "(i, j) \<in> (links_of g)\<inverse>" for i j
    using rank [of j i] bound [of i] bound [of j] nodes that by auto
  have "(links_of g)\<inverse> \<subseteq> set (node_ids g) \<times> set (node_ids g)" using nodes by auto
  from ahead_bounded [where rank = ?up, OF this _ up i] size
  show "\<exists>as. ancestors (length (g_nodes g)) g reached i = Some as"
    by (intro ancestors_return [where rank = ?up, OF fin up]) auto
qed

lemma start_exists:
  assumes "graph_ok g"
  shows "\<exists>i. start_id g = Some i \<and> i \<in> set (node_ids g)"
proof -
  have "filter (\<lambda>n. nd_kind n = StartNode) (g_nodes g) \<noteq> []" using assms by (auto simp: graph_ok_def)
  then obtain n where "find (\<lambda>n. nd_kind n = StartNode) (g_nodes g) = Some n"
    by (cases "find (\<lambda>n. nd_kind n = StartNode) (g_nodes g)") (auto simp: find_None_iff filter_empty_conv)
  moreover from this have "n \<in> set (g_nodes g)" by (auto simp: find_Some_iff)
  ultimately show ?thesis by (simp add: start_id_def node_ids_def)
qed

lemma check_graph_returns:
  assumes "graph_ok g"
  shows "\<exists>r. check_graph g catalog roles users max_depth = Some r"
proof -
  obtain cs where cs: "cycles g = Some cs" using cycles_return [OF assms] by blast
  obtain start where start: "start_id g = Some start" "start \<in> set (node_ids g)" using start_exists [OF assms] by blast
  show ?thesis
  proof (cases "cs = []")
    case True
    note rec = check_graph_recursions [OF assms cs [unfolded True]]
    obtain d where d: "depth_from (length (g_nodes g)) g (finishing g) start = Some d" using rec(1) [OF start(2)] by blast
    have "\<exists>ys. map_option (\<lambda>earlier. (n, repeats g n earlier)) (ancestors (length (g_nodes g)) g (reached_from g start) (nd_id n)) = Some ys"
      if "n \<in> set (g_nodes g)" for n
      using rec(2) [of "nd_id n" "reached_from g start"] that by (auto simp: node_ids_def)
    then have "\<exists>rs. repeated_approvals g (reached_from g start) (finishing g) = Some rs"
      unfolding repeated_approvals_def those_map by simp
    then obtain rs where "repeated_approvals g (reached_from g start) (finishing g) = Some rs" by blast
    then show ?thesis using cs start True d by (simp add: check_graph_def Let_def)
  qed (use cs start in \<open>simp add: check_graph_def Let_def\<close>)
qed

section \<open>Accepted graphs\<close>

definition accepted :: "graph \<Rightarrow> (string \<Rightarrow> field_type option) \<Rightarrow> string list \<Rightarrow> uuid list \<Rightarrow> nat \<Rightarrow> bool" where
  "accepted g catalog roles users max_depth \<longleftrightarrow>
     graph_ok g \<and> map_option rp_errors (check_graph g catalog roles users max_depth) = Some []"

lemma accepted_facts:
  assumes "accepted g catalog roles users max_depth"
  obtains start d where "graph_ok g" "cycles g = Some []" "start_id g = Some start"
    "depth_from (length (g_nodes g)) g (finishing g) start = Some d" "d \<le> max_depth"
    "\<And>n. n \<in> set (g_nodes g) \<Longrightarrow> node_issues g (reached_from g start) (finishing g) roles users n = []"
    "\<And>e. e \<in> set (g_edges g) \<Longrightarrow> \<exists>k. edge_issues g catalog k e = []"
proof -
  have ok: "graph_ok g" using assms by (simp add: accepted_def)
  obtain cs start where cs: "cycles g = Some cs" "start_id g = Some start"
    using cycles_return [OF ok] start_exists [OF ok] by blast
  obtain r where r: "check_graph g catalog roles users max_depth = Some r" "rp_errors r = []"
    using assms by (auto simp: accepted_def)
  have none: "cs = []" using r cs by (auto simp: check_graph_def Let_def split: if_splits)
  obtain d rs where d: "depth_from (length (g_nodes g)) g (finishing g) start = Some d"
    "repeated_approvals g (reached_from g start) (finishing g) = Some rs"
    using r cs none by (auto simp: check_graph_def Let_def split: option.splits)
  have found: "concat (map (node_issues g (reached_from g start) (finishing g) roles users) (g_nodes g)) = []"
    "concat (map (\<lambda>(k, e). edge_issues g catalog k e) (enumerate 0 (g_edges g))) = []" "d \<le> max_depth"
    using r cs none d by (auto simp: check_graph_def Let_def split: if_splits)
  have "\<exists>k. edge_issues g catalog k e = []" if e: "e \<in> set (g_edges g)" for e
  proof -
    obtain k where k: "k < length (g_edges g)" "g_edges g ! k = e" using e by (auto simp: in_set_conv_nth)
    then have "(k, e) \<in> set (enumerate 0 (g_edges g))" by (auto simp: in_set_enumerate_eq)
    then show ?thesis using found(2) by (auto simp: concat_eq_Nil_conv)
  qed
  moreover have "node_issues g (reached_from g start) (finishing g) roles users n = []" if "n \<in> set (g_nodes g)" for n
    using found(1) that by (auto simp: concat_eq_Nil_conv)
  ultimately show ?thesis using that ok cs none d found(3) by blast
qed

text \<open>Every node of an accepted graph can be left, and every condition on its edges is checked.\<close>

lemma node_at_Some: "graph_ok g \<Longrightarrow> n \<in> set (g_nodes g) \<Longrightarrow> node_at g (nd_id n) = Some n"
  unfolding node_at_def
  by (rule find_Some_iff [THEN iffD2])
    (auto simp: graph_ok_def node_ids_def in_set_conv_nth distinct_conv_nth)

lemma node_at_exists: "i \<in> set (node_ids g) \<Longrightarrow> \<exists>n. node_at g i = Some n"
  by (cases "node_at g i") (auto simp: node_at_def node_ids_def find_None_iff)

lemma node_at_mem: "node_at g i = Some n \<Longrightarrow> n \<in> set (g_nodes g) \<and> nd_id n = i"
  by (auto simp: node_at_def find_Some_iff)

definition edge_checked :: "(string \<Rightarrow> field_type option) \<Rightarrow> edge \<Rightarrow> bool" where
  "edge_checked catalog e \<longleftrightarrow> (\<forall>w. ed_when e = Some w \<longrightarrow> (\<exists>c. parse_condition w = Inr c \<and>
     (\<forall>l\<in>set (leaves_of c). valid_leaf l (catalog (lc_field l)))))"

lemma accepted_edge:
  assumes "edge_issues g catalog k e = []"
  shows "edge_checked catalog e"
  using assms
  by (auto simp: edge_issues_def edge_checked_def List.map_filter_def filter_empty_conv split: option.splits sum.splits if_splits)

lemma accepted_node:
  assumes ok: "graph_ok g" and clear: "node_issues g reached finishes roles users n = []" and n: "nd_kind n \<noteq> EndNode"
  shows "if nd_kind n = ConditionNode then find ed_default (filter (\<lambda>e. ed_from e = nd_id n) (g_edges g)) \<noteq> None
    else filter (\<lambda>e. ed_from e = nd_id n) (g_edges g) \<noteq> []" "nd_id n \<in> set finishes"
proof -
  have "filter (\<lambda>e. ed_from e = nd_id n \<and> ed_default e) (g_edges g) \<noteq> []" if "nd_kind n = ConditionNode"
    using clear that by (auto simp: node_issues_def split: if_splits)
  moreover have "outgoing g (nd_id n) \<noteq> []" if "nd_kind n \<noteq> ConditionNode"
    using clear that n by (cases "nd_kind n") (auto simp: node_issues_def split: if_splits)
  ultimately show "if nd_kind n = ConditionNode then find ed_default (filter (\<lambda>e. ed_from e = nd_id n) (g_edges g)) \<noteq> None
    else filter (\<lambda>e. ed_from e = nd_id n) (g_edges g) \<noteq> []"
    by (auto simp: find_None_iff filter_empty_conv outgoing_def)
  show "nd_id n \<in> set finishes" using clear by (auto simp: node_issues_def split: if_splits)
qed

section \<open>Routing\<close>

text \<open>The one thing that can stop a checked route: an edge compares money of two currencies.\<close>

definition currency_blocked :: "graph \<Rightarrow> (string \<times> attribute) list \<Rightarrow> bool" where
  "currency_blocked g attrs \<longleftrightarrow> (\<exists>e\<in>set (g_edges g). \<exists>w c l x. ed_when e = Some w \<and> parse_condition w = Inr c \<and>
     l \<in> set (leaves_of c) \<and> currencies_differ (normalized attrs) l x)"

lemma try_edges_checked:
  assumes "\<forall>e\<in>set es. edge_checked catalog e" "attributes_conform catalog attrs" "set es \<subseteq> set (g_edges g)"
  shows "case try_edges attrs i es of
      Inl p \<Rightarrow> p = route_blocked \<and> currency_blocked g attrs
    | Inr (found, seen) \<Rightarrow> (\<forall>e. found = Some e \<longrightarrow> e \<in> set es)"
  using assms
proof (induction es)
  case (Cons e es)
  show ?case
  proof (cases "ed_when e")
    case None
    then show ?thesis using Cons by (auto split: sum.splits)
  next
    case (Some w)
    obtain c where c: "parse_condition w = Inr c" "\<forall>l\<in>set (leaves_of c). valid_leaf l (catalog (lc_field l))"
      using Cons.prems(1) Some by (auto simp: edge_checked_def)
    note eval = checked_condition_evaluates_rule [OF c Cons.prems(2)]
    show ?thesis
    proof (cases "evaluate_condition c attrs")
      case (Inl x)
      then obtain l where "l \<in> set (leaves_of c)" "currencies_differ (normalized attrs) l x" using eval by auto
      moreover from this have "unhandled x = route_blocked" by (auto simp: currencies_differ_def unhandled_def)
      moreover have "e \<in> set (g_edges g)" using Cons.prems(3) by simp
      ultimately have "currency_blocked g attrs" "unhandled x = route_blocked"
        using Some c(1) unfolding currency_blocked_def by blast+
      then show ?thesis using Some c Inl by simp
    next
      case (Inr r)
      then show ?thesis using Cons Some c by (auto split: sum.splits prod.splits)
    qed
  qed
qed simp

lemma choose_edge_checked:
  assumes "graph_ok g" "attributes_conform catalog attrs" "\<And>e. e \<in> set (g_edges g) \<Longrightarrow> edge_checked catalog e"
    and left: "if nd_kind n = ConditionNode then find ed_default (filter (\<lambda>e. ed_from e = nd_id n) (g_edges g)) \<noteq> None
      else filter (\<lambda>e. ed_from e = nd_id n) (g_edges g) \<noteq> []"
  shows "case choose_edge g attrs n via of
      Inl p \<Rightarrow> p = route_blocked \<and> currency_blocked g attrs
    | Inr (e, seen, v) \<Rightarrow> e \<in> set (g_edges g) \<and> ed_from e = nd_id n"
proof (cases "nd_kind n = ConditionNode")
  case False
  then obtain e es where "filter (\<lambda>e. ed_from e = nd_id n) (g_edges g) = e # es"
    using left by (cases "filter (\<lambda>e. ed_from e = nd_id n) (g_edges g)") auto
  moreover from this have "e \<in> set (g_edges g)" "ed_from e = nd_id n" by (auto simp: filter_eq_Cons_iff)
  ultimately show ?thesis using False by (simp add: choose_edge_def)
next
  case True
  let ?es = "filter (\<lambda>e. ed_from e = nd_id n) (g_edges g)"
  have tried: "case try_edges attrs (nd_id n) ?es of
      Inl p \<Rightarrow> p = route_blocked \<and> currency_blocked g attrs
    | Inr (found, seen) \<Rightarrow> (\<forall>e. found = Some e \<longrightarrow> e \<in> set ?es)"
    by (rule try_edges_checked) (use assms(2,3) in auto)
  show ?thesis
  proof (cases "try_edges attrs (nd_id n) ?es")
    case (Inl p)
    then show ?thesis using tried True by (simp add: choose_edge_def Let_def)
  next
    case (Inr r)
    obtain found seen where r: "r = (found, seen)" by (cases r)
    have "\<exists>e. (case found of Some e \<Rightarrow> Some e | None \<Rightarrow> find ed_default ?es) = Some e \<and> e \<in> set ?es"
    proof (cases found)
      case None
      obtain e where e: "find ed_default ?es = Some e" using left True by auto
      then have "e \<in> set ?es" by (metis find_Some_iff nth_mem)
      then show ?thesis using None e by simp
    next
      case (Some e)
      then show ?thesis using tried Inr r by simp
    qed
    then obtain e where e: "(case found of Some e \<Rightarrow> Some e | None \<Rightarrow> find ed_default ?es) = Some e" "e \<in> set ?es" by blast
    then have "edge_checked catalog e" using assms(3) by simp
    then have "\<exists>v. describe_taken e = Inr v" by (auto simp: edge_checked_def describe_taken_def split: option.split)
    then show ?thesis using Inr r e True by (auto simp: choose_edge_def Let_def)
  qed
qed

text \<open>Where a walk may stop, and how it got there.\<close>

definition routed :: "graph \<Rightarrow> string \<Rightarrow> string list \<Rightarrow> node \<Rightarrow> bool" where
  "routed g i steps n \<longleftrightarrow> n \<in> set (g_nodes g) \<and> nd_kind n \<in> {ApprovalNode, EndNode} \<and>
     successively (\<lambda>a b. (a, b) \<in> links_of g) (i # steps) \<and> last (i # steps) = nd_id n \<and>
     (\<forall>j\<in>set (butlast steps). approval_count g j = 0)"

lemma walk_loop_ends:
  assumes acc: "accepted g catalog roles users max_depth" and conform: "attributes_conform catalog attrs"
  shows "n \<in> set (g_nodes g) \<Longrightarrow> \<exists>r. walk_loop g attrs n path edges via route = Some r \<and>
    (case r of
       Inl p \<Rightarrow> p = route_blocked \<and> currency_blocked g attrs
     | Inr w \<Rightarrow> \<exists>steps. wr_path w = path @ steps \<and> routed g (nd_id n) steps (wr_node w) \<and>
         (nd_kind n \<noteq> EndNode \<longrightarrow> steps \<noteq> []))"
proof -
  obtain start d where facts: "graph_ok g" "cycles g = Some []"
    "\<And>n. n \<in> set (g_nodes g) \<Longrightarrow> node_issues g (reached_from g start) (finishing g) roles users n = []"
    "\<And>e. e \<in> set (g_edges g) \<Longrightarrow> edge_checked catalog e"
    by (rule accepted_facts [OF acc]) (use accepted_edge in metis)
  obtain rank :: "string \<Rightarrow> nat" where rank: "\<And>i j. (i, j) \<in> links_of g \<Longrightarrow> rank j < rank i"
    using ranked_nodes [OF facts(1,2)] by metis
  show "n \<in> set (g_nodes g) \<Longrightarrow> ?thesis"
  proof (induction "rank (nd_id n)" arbitrary: n path edges via route rule: less_induct)
    case less
    show ?case
    proof (cases "nd_kind n = EndNode")
      case True
      then show ?thesis using less.prems by (subst walk_loop.simps) (simp add: routed_def)
    next
      case False
      note chosen = choose_edge_checked [OF facts(1) conform facts(4) accepted_node(1) [OF facts(1) facts(3) [OF less.prems] False], of via]
      show ?thesis
      proof (cases "choose_edge g attrs n via")
        case (Inl p)
        then show ?thesis using chosen less.prems False by (subst walk_loop.simps) simp
      next
        case (Inr c)
        obtain e seen v where c: "c = (e, seen, v)" by (cases c)
        have e: "e \<in> set (g_edges g)" "ed_from e = nd_id n" using chosen less.prems Inr c by simp_all
        then have link: "(nd_id n, ed_to e) \<in> links_of g" by (force simp: links_of_def forward_def)
        then obtain m where m: "node_at g (ed_to e) = Some m" using node_at_exists links_of_nodes [OF facts(1)] by blast
        then have m': "m \<in> set (g_nodes g)" "nd_id m = ed_to e" using node_at_mem by blast+
        show ?thesis
        proof (cases "nd_kind m = ApprovalNode")
          case True
          then show ?thesis
            using Inr c m m' link False by (subst walk_loop.simps) (auto simp: routed_def)
        next
          case later: False
          let ?path = "path @ [ed_to e]" and ?edges = "edges @ [index_of e (g_edges g)]" and ?route = "route @ seen"
          have "rank (nd_id m) < rank (nd_id n)" using rank [OF link] m'(2) by simp
          from less.hyps [OF this m'(1)] obtain r where r: "walk_loop g attrs m ?path ?edges v ?route = Some r"
            "case r of Inl p \<Rightarrow> p = route_blocked \<and> currency_blocked g attrs
             | Inr w \<Rightarrow> \<exists>steps. wr_path w = ?path @ steps \<and> routed g (nd_id m) steps (wr_node w) \<and>
                 (nd_kind m \<noteq> EndNode \<longrightarrow> steps \<noteq> [])" by blast
          have loop: "walk_loop g attrs n path edges via route = Some r"
            using Inr c m later False r(1) by (subst walk_loop.simps) simp
          have "\<exists>steps. wr_path w = path @ steps \<and> routed g (nd_id n) steps (wr_node w) \<and> steps \<noteq> []" if w: "r = Inr w" for w
          proof -
            obtain steps where steps: "wr_path w = ?path @ steps" "routed g (nd_id m) steps (wr_node w)"
              using r(2) w by auto
            have "approval_count g (ed_to e) = 0" using m later by (simp add: approval_count_def)
            then have "routed g (nd_id n) (ed_to e # steps) (wr_node w)"
              using steps(2) link m'(2) by (auto simp: routed_def)
            then show ?thesis using steps(1) by auto
          qed
          then show ?thesis using loop r(2) by (cases r) auto
        qed
      qed
    qed
  qed
qed

lemma accepted_walk_ends:
  assumes "accepted g catalog roles users max_depth" "attributes_conform catalog attrs" "i \<in> set (node_ids g)"
  shows "\<exists>r. walk g attrs (Some i) route = Some r \<and>
    (case r of
       Inl p \<Rightarrow> p = route_blocked \<and> currency_blocked g attrs
     | Inr w \<Rightarrow> \<exists>steps. wr_path w = i # steps \<and> routed g i steps (wr_node w))"
proof -
  obtain n where n: "node_at g i = Some n" using node_at_exists [OF assms(3)] by blast
  have ok: "graph_ok g" using assms(1) by (simp add: accepted_def)
  have n': "n \<in> set (g_nodes g)" "nd_id n = i" using node_at_mem [OF n] by simp_all
  then have "node_ok n" using ok by (simp add: graph_ok_def list_all_iff)
  then have "i \<noteq> []" using n'(2) unfolding node_ok_def by auto
  then have "walk g attrs (Some i) route = walk_loop g attrs n [i] [] (via_of route) route" using n by (simp add: walk_def)
  moreover note n'
  moreover obtain r where "walk_loop g attrs n [i] [] (via_of route) route = Some r" "case r of
       Inl p \<Rightarrow> p = route_blocked \<and> currency_blocked g attrs
     | Inr w \<Rightarrow> \<exists>steps. wr_path w = [i] @ steps \<and> routed g (nd_id n) steps (wr_node w) \<and> (nd_kind n \<noteq> EndNode \<longrightarrow> steps \<noteq> [])"
    using walk_loop_ends [OF assms(1,2) n'(1)] by blast
  ultimately show ?thesis by (cases r) auto
qed

text \<open>
  C25. Validation returns a report on every well-formed graph.  If it reports no error, no document is ever trapped:
  from any node, the walk of a document that conforms to the catalogue returns.  It arrives at the next approval
  or at an end, along the graph's edges and through no other approval, or it is blocked because an edge compares
  money of two currencies.
\<close>

theorem validated_walks_end:
  assumes "graph_ok g"
  shows "\<exists>r. check_graph g catalog roles users max_depth = Some r \<and>
    (rp_errors r = [] \<and> attributes_conform catalog attrs \<longrightarrow>
     (\<forall>i\<in>set (node_ids g). \<exists>result. walk g attrs (Some i) route = Some result \<and>
       (case result of
          Inl p \<Rightarrow> p = route_blocked \<and> currency_blocked g attrs
        | Inr w \<Rightarrow> \<exists>steps. wr_path w = i # steps \<and> routed g i steps (wr_node w))))"
proof -
  obtain r where r: "check_graph g catalog roles users max_depth = Some r" using check_graph_returns [OF assms] by blast
  have "accepted g catalog roles users max_depth" if "rp_errors r = []" using assms r that by (simp add: accepted_def)
  then show ?thesis using accepted_walk_ends [of g catalog roles users max_depth attrs _ route] r by blast
qed

lemma fold_max: "x \<in> set xs \<Longrightarrow> (x :: nat) \<le> fold max xs m" "m \<le> fold max xs m"
proof -
  show le: "m \<le> fold max xs m" for m
  proof (induction xs arbitrary: m)
    case (Cons x xs)
    show ?case using Cons [of "max x m"] by simp
  qed simp
  show "x \<in> set xs \<Longrightarrow> x \<le> fold max xs m"
  proof (induction xs arbitrary: m)
    case (Cons y ys)
    show ?case
    proof (cases "x = y")
      case True
      have "max y m \<le> fold max ys (max y m)" for ys
      proof (induction ys arbitrary: m)
        case (Cons z zs)
        show ?case using Cons [of "max z m"] by (simp add: max.left_commute)
      qed simp
      then show ?thesis using True by simp
    next
      case False
      then show ?thesis using Cons by simp
    qed
  qed simp
qed

lemma depth_counts:
  "depth_from fuel g finishes i = Some d \<Longrightarrow> successively (\<lambda>a b. (a, b) \<in> links_of g) (i # path) \<Longrightarrow> set path \<subseteq> set finishes \<Longrightarrow>
   sum_list (map (approval_count g) (i # path)) \<le> d"
proof (induction fuel arbitrary: i d path)
  case (Suc fuel)
  let ?cs = "filter (\<lambda>c. c \<in> set finishes) (outgoing g i)"
  obtain ds where ds: "those (map (depth_from fuel g finishes) ?cs) = Some ds" "d = approval_count g i + fold max ds 0"
    using Suc.prems(1) by auto
  show ?case
  proof (cases path)
    case (Cons j js)
    then have "j \<in> set ?cs" using Suc.prems(2,3) by (auto simp: links_of_outgoing)
    then have "depth_from fuel g finishes j \<in> set (map (depth_from fuel g finishes) ?cs)" by simp
    then obtain dj where dj: "depth_from fuel g finishes j = Some dj" "dj \<in> set ds"
      unfolding those_map_Some [OF ds(1)] by auto
    then have "sum_list (map (approval_count g) (j # js)) \<le> dj"
      using Suc.IH [OF dj(1), of js] Suc.prems(2,3) Cons by simp
    then show ?thesis using fold_max(1) [OF dj(2), of 0] ds(2) Cons by simp
  qed (use ds(2) in simp)
qed simp

text \<open>
  C26. In an accepted graph no path from the start passes more approvals than the configured limit.
\<close>

theorem accepted_depth_bounded:
  assumes "accepted g catalog roles users max_depth" "start_id g = Some start"
    and "successively (\<lambda>a b. (a, b) \<in> links_of g) (start # path)"
  shows "sum_list (map (approval_count g) (start # path)) \<le> max_depth"
proof -
  obtain d where d: "graph_ok g" "depth_from (length (g_nodes g)) g (finishing g) start = Some d" "d \<le> max_depth"
    "\<And>n. n \<in> set (g_nodes g) \<Longrightarrow> node_issues g (reached_from g start) (finishing g) roles users n = []"
    by (rule accepted_facts [OF assms(1)]) (use assms(2) in simp)
  have "set path \<subseteq> set (node_ids g)"
    using assms(3)
  proof (induction path arbitrary: start)
    case (Cons j js)
    then show ?case using links_of_nodes [OF d(1)] by auto
  qed simp
  moreover have "set (node_ids g) \<subseteq> set (finishing g)"
    using d(4) by (force simp: node_ids_def node_issues_def split: if_splits)
  ultimately have "set path \<subseteq> set (finishing g)" by blast
  from depth_counts [OF d(2) assms(3) this] show ?thesis using d(3) by simp
qed

section \<open>A workflow with one branch\<close>

text \<open>Amounts from a thousand on need the director's approval after the manager's.\<close>

definition plain_node :: "string \<Rightarrow> node_kind \<Rightarrow> node" where
  "plain_node i k = \<lparr>nd_id = i, nd_kind = k, nd_name = None, nd_approvers = None, nd_mode = None, nd_due = None,
     nd_escalate_after = None, nd_escalate_to = None, nd_repeat = False\<rparr>"

definition plain_edge :: "string \<Rightarrow> string \<Rightarrow> edge" where
  "plain_edge i j = \<lparr>ed_from = i, ed_to = j, ed_when = None, ed_default = False\<rparr>"

definition sample_graph :: graph where
  "sample_graph = \<lparr>g_nodes = [plain_node ''s'' StartNode,
       (plain_node ''m'' ApprovalNode)\<lparr>nd_approvers := Some (RoleApprovers ''manager''), nd_mode := Some AnyMode\<rparr>,
       plain_node ''c'' ConditionNode,
       (plain_node ''d'' ApprovalNode)\<lparr>nd_approvers := Some (RoleApprovers ''director''), nd_mode := Some AllMode\<rparr>,
       plain_node ''e'' EndNode],
     g_edges = [plain_edge ''s'' ''m'', plain_edge ''m'' ''c'',
       (plain_edge ''c'' ''d'')\<lparr>ed_when := Some sample_when\<rparr>, (plain_edge ''c'' ''e'')\<lparr>ed_default := True\<rparr>,
       plain_edge ''d'' ''e'']\<rparr>"

lemma sample_graph_search:
  "cycles sample_graph = Some []" "start_id sample_graph = Some ''s''"
  "depth_from (length (g_nodes sample_graph)) sample_graph (finishing sample_graph) ''s'' = Some 2"
  "map_option (\<lambda>rs. concat (map snd rs)) (repeated_approvals sample_graph (reached_from sample_graph ''s'') (finishing sample_graph)) = Some []"
  "concat (map (node_issues sample_graph (reached_from sample_graph ''s'') (finishing sample_graph) [''manager'', ''director''] [])
     (g_nodes sample_graph)) = []"
  by code_simp+

lemma sample_edge_issues:
  "concat (map (\<lambda>(k, e). edge_issues sample_graph sample_catalog k e) (enumerate 0 (g_edges sample_graph))) = []"
  using sample_condition_ok(1)
  by (simp add: sample_graph_def edge_issues_def plain_edge_def plain_node_def node_at_def sample_parse List.map_filter_def
      filter_empty_conv)

lemma sample_graph_accepted: "accepted sample_graph sample_catalog [''manager'', ''director''] [] 2"
proof -
  have ok: "graph_ok sample_graph" by code_simp
  obtain rs where rs: "repeated_approvals sample_graph (reached_from sample_graph ''s'') (finishing sample_graph) = Some rs"
    "concat (map snd rs) = []"
    using sample_graph_search(4) by auto
  have "concat (map (\<lambda>(n, is). if nd_repeat n then [] else is) rs) = []" using rs(2) by (auto simp: concat_eq_Nil_conv)
  then show ?thesis
    using ok rs(1) sample_graph_search(1-3,5) sample_edge_issues by (simp add: accepted_def check_graph_def)
qed

text \<open>From the manager's approval a document of two thousand goes on to the director.\<close>

lemma sample_walk:
  "case walk sample_graph sample_document (Some ''m'') [] of
     Some (Inr w) \<Rightarrow> nd_id (wr_node w) = ''d'' \<and> wr_edges w = [1, 2] | _ \<Rightarrow> False"
proof -
  obtain t where "evaluate_condition sample_condition sample_document = Inr (True, t)"
    using sample_evaluates by (auto split: sum.splits)
  then show ?thesis
    by (simp add: walk_def walk_loop.simps choose_edge_def describe_taken_def node_at_def sample_graph_def plain_node_def plain_edge_def sample_parse)
qed

theorem validated_walks_end_witness:
  "\<exists>w steps. walk sample_graph sample_document (Some ''m'') [] = Some (Inr w) \<and> nd_id (wr_node w) = ''d'' \<and>
     routed sample_graph ''m'' steps (wr_node w)"
proof -
  have "''m'' \<in> set (node_ids sample_graph)" by code_simp
  moreover have "graph_ok sample_graph" "\<exists>r. check_graph sample_graph sample_catalog [''manager'', ''director''] [] 2 = Some r \<and> rp_errors r = []"
    using sample_graph_accepted by (auto simp: accepted_def)
  ultimately obtain r where r: "walk sample_graph sample_document (Some ''m'') [] = Some r" "case r of
       Inl p \<Rightarrow> p = route_blocked \<and> currency_blocked sample_graph sample_document
     | Inr w \<Rightarrow> \<exists>steps. wr_path w = ''m'' # steps \<and> routed sample_graph ''m'' steps (wr_node w)"
    using validated_walks_end [of sample_graph sample_catalog "[''manager'', ''director'']" "[]" 2 sample_document "[]"]
      sample_condition_ok(2) by fastforce
  then obtain w where "r = Inr w" "nd_id (wr_node w) = ''d''" using sample_walk by (cases r) auto
  then show ?thesis using r by auto
qed

theorem accepted_depth_bounded_witness:
  "sum_list (map (approval_count sample_graph) [''s'', ''m'', ''c'', ''d'', ''e'']) = 2 \<and>
   sum_list (map (approval_count sample_graph) [''s'', ''m'', ''c'', ''d'', ''e'']) \<le> 2"
proof -
  have "successively (\<lambda>a b. (a, b) \<in> links_of sample_graph) (''s'' # [''m'', ''c'', ''d'', ''e''])"
    by (simp add: links_of_def forward_def sample_graph_def plain_edge_def)
  then have "sum_list (map (approval_count sample_graph) [''s'', ''m'', ''c'', ''d'', ''e'']) \<le> 2"
    by (rule accepted_depth_bounded [OF sample_graph_accepted sample_graph_search(2)])
  moreover have "sum_list (map (approval_count sample_graph) [''s'', ''m'', ''c'', ''d'', ''e'']) = 2"
    by code_simp
  ultimately show ?thesis by simp
qed

end
