(* ===== verification/Approvals.thy ===== *)
theory Approvals
  imports Outbox Workflows Access Numbering
begin

text \<open>
  The approval engine: \<open>modules/approvals/engine.py\<close> with the resolution of approvers in
  \<open>eligibility.py\<close>, over the tables of migrations 0037 and 0043 to 0046.  An instance pins the workflow
  version it started with; who may act on a task is resolved live from the grants.

  What a document module registers (its adapter) is a record of its answers and callbacks, and the
  registry is an argument.  The digest of a snapshot is the canonical list of its material, which SHA-256
  stands for in the code.  The Python clock and the database's are one.
\<close>

section \<open>Tables\<close>

record definition_row =
  wd_id :: uuid
  wd_org :: uuid
  wd_type :: string
  wd_unit :: bool                             \<comment> \<open>bound to a unit, or else to the organization\<close>
  wd_scope :: uuid
  wd_retired :: "timestamp option"

datatype version_status = VersionDraft | VersionPublished | VersionSuperseded

record version_row =
  wv_id :: uuid
  wv_org :: uuid
  wv_definition :: uuid
  wv_number :: nat
  wv_status :: version_status
  wv_graph :: graph

type_synonym digest = "(string \<times> string) list"

datatype instance_status = InRunning | InApproved | InRejected | InReturned | InWithdrawn | InSuperseded

record instance_row =
  in_id :: uuid
  in_org :: uuid
  in_type :: string
  in_document :: uuid
  in_workflow :: uuid
  in_version :: int
  in_digest :: digest
  in_approved_digest :: "digest option"
  in_approved_version :: "int option"
  in_requester :: uuid
  in_status :: instance_status
  in_node :: "string option"
  in_route :: "route_entry list"
  in_started :: timestamp
  in_finished :: "timestamp option"

datatype task_status = TaskOpen | TaskCompleted | TaskCancelled

datatype task_outcome = TaskApproved | TaskRejected | TaskReturned

record task_row =
  tk_id :: uuid
  tk_org :: uuid
  tk_instance :: uuid
  tk_node :: string
  tk_name :: string
  tk_rule :: approvers
  tk_mode :: mode
  tk_repeat :: bool
  tk_status :: task_status
  tk_outcome :: "task_outcome option"
  tk_created :: timestamp
  tk_due :: "timestamp option"
  tk_completed :: "timestamp option"
  tk_escalated :: "timestamp option"
  tk_escalation :: "(int \<times> approvers) option"

datatype authority = AsMember | AsDelegate | AsAdmin | AsRequester

datatype verdict_kind = Approve | Reject | ReturnIt | Comment | Withdraw

datatype reject_mode = ReturnToDraft | Permanent_rejection

record decision_row =
  dn_id :: uuid
  dn_org :: uuid
  dn_instance :: uuid
  dn_task :: "uuid option"
  dn_actor :: uuid
  dn_behalf :: "uuid option"
  dn_authority :: authority
  dn_outcome :: verdict_kind
  dn_reject :: "reject_mode option"
  dn_comment :: "string option"
  dn_version :: int
  dn_members :: "string list"
  dn_at :: timestamp

record delegation_row =
  dg_id :: uuid
  dg_org :: uuid
  dg_delegator :: uuid
  dg_delegate :: uuid
  dg_starts :: timestamp
  dg_ends :: timestamp
  dg_types :: "string list option"
  dg_reason :: string
  dg_created :: timestamp
  dg_revoked :: "timestamp option"
  dg_revoked_by :: "uuid option"

record approval_db =
  ap_work :: work_db
  ap_definitions :: "definition_row list"
  ap_versions :: "version_row list"
  ap_instances :: "instance_row list"
  ap_tasks :: "task_row list"
  ap_decisions :: "decision_row list"
  ap_delegations :: "delegation_row list"

definition on_work :: "(work_db, 'a) tx \<Rightarrow> (approval_db, 'a) tx" where
  "on_work m = (\<lambda>s. case m (ap_work s) of Inl e \<Rightarrow> Inl e | Inr (x, w) \<Rightarrow> Inr (x, s\<lparr>ap_work := w\<rparr>))"

definition on_tables :: "(db, 'a) tx \<Rightarrow> (approval_db, 'a) tx" where
  "on_tables m = on_work (on_db m)"

definition tables :: "approval_db \<Rightarrow> db" where
  "tables s = w_db (ap_work s)"

section \<open>Documents\<close>

record snapshot =
  ss_version :: int
  ss_requester :: uuid
  ss_target :: target
  ss_attributes :: "(string \<times> attribute) list"
  ss_material :: "(string \<times> string) list"

datatype document_outcome = OutApproved | OutRejected | OutReturned | OutWithdrawn

record outcome_context =
  oc_actor :: uuid
  oc_decision :: "uuid option"
  oc_project :: "uuid option"
  oc_reject :: "reject_mode option"

text \<open>An adapter: what the engine asks of a document and tells it.\<close>

record adapter =
  da_permission :: string
  da_accepts_project :: bool
  da_snapshot :: "uuid \<Rightarrow> uuid \<Rightarrow> approval_db \<Rightarrow> problem + snapshot"
  da_summary :: "uuid \<Rightarrow> uuid \<Rightarrow> approval_db \<Rightarrow> problem + string \<times> string"
  da_outcome :: "uuid \<Rightarrow> uuid \<Rightarrow> document_outcome \<Rightarrow> outcome_context \<Rightarrow> (approval_db, unit) tx"
  da_prepare :: "(uuid \<Rightarrow> uuid \<Rightarrow> uuid \<Rightarrow> (string \<times> string) list \<Rightarrow> (approval_db, unit) tx) option"

type_synonym registry = "(string \<times> adapter) list"

definition adapter_for :: "registry \<Rightarrow> string \<Rightarrow> problem + adapter" where
  "adapter_for reg dtype = (case map_of reg dtype of None \<Rightarrow> Inl (Problem ValidationFailed None) | Some a \<Rightarrow> Inr a)"

definition approve_permission :: "registry \<Rightarrow> string \<Rightarrow> problem + string" where
  "approve_permission reg dtype = map_sum id da_permission (adapter_for reg dtype)"

definition read_snapshot :: "adapter \<Rightarrow> uuid \<Rightarrow> uuid \<Rightarrow> (approval_db, snapshot) tx" where
  "read_snapshot a org doc = (\<lambda>s. tx_lift (da_snapshot a org doc s) s)"

definition material_digest :: "snapshot \<Rightarrow> digest" where
  "material_digest sn = sort_key fst (ss_material sn)"

section \<open>Eligible approvers\<close>

datatype exclusion = NotEligibleInScope | SeparationOfDuty | AlreadyDecided

record eligible =
  el_members :: "uuid list"
  el_excluded :: "(uuid \<times> exclusion) list"

fun truthy :: "json \<Rightarrow> bool" where
  "truthy JNull = False"
| "truthy (JBool b) = b"
| "truthy (JNum x) = (x \<noteq> 0)"
| "truthy (JStr v) = (v \<noteq> [])"
| "truthy (JList js) = (js \<noteq> [])"
| "truthy (JObj kvs) = (kvs \<noteq> [])"

text \<open>
  The nearest unit above a scope of the containment table, itself included.  Every row is visited at most
  once without a cycle; on a cycle the query does not return.
\<close>

fun unit_above :: "nat \<Rightarrow> scope_row list \<Rightarrow> uuid \<Rightarrow> scope_kind \<Rightarrow> uuid \<Rightarrow> uuid option option" where
  "unit_above 0 rows org kind i = None"
| "unit_above (Suc n) rows org kind i =
     (case scope_at org kind i rows of
        None \<Rightarrow> Some None
      | Some h \<Rightarrow> if kind = ScopeUnit then Some (Some i) else unit_above n rows org (sc_parent_kind h) (sc_parent h))"

definition business_unit :: "uuid \<Rightarrow> uuid \<Rightarrow> (db, uuid option) tx" where
  "business_unit org i =
     tx_bind (tx_read (\<lambda>s. unit_above (Suc (length (scopes s))) (scopes s) org ScopeProject i)) (\<lambda>r.
     tx_some r (Raised QueryNotReturning))"

definition separation_applies :: "uuid \<Rightarrow> target \<Rightarrow> (db, bool) tx" where
  "separation_applies org g =
     (if tg_kind g = ScopeOrg
      then tx_read (\<lambda>s. case setting_at (settings s) org None ''approval.separation_of_duty'' of None \<Rightarrow> True | Some v \<Rightarrow> truthy v)
      else
        tx_bind (if tg_kind g = ScopeProject
                 then tx_bind (business_unit org (tg_scope g)) (\<lambda>u. tx_some u not_found)
                 else tx_return (tg_scope g)) (\<lambda>unit.
        tx_bind (effective_setting org unit ''approval.separation_of_duty'') (\<lambda>v. tx_return (truthy v))))"

definition active_member :: "uuid \<Rightarrow> uuid \<Rightarrow> db \<Rightarrow> bool" where
  "active_member org i s \<longleftrightarrow> active_identity i s \<and> list_ex (\<lambda>a. gr_org a = org \<and> gr_user a = i) (user_roles s)"

definition eligible_approvers ::
  "registry \<Rightarrow> uuid \<Rightarrow> string \<Rightarrow> approvers \<Rightarrow> target \<Rightarrow> uuid option \<Rightarrow> (approval_db, eligible) tx" where
  "eligible_approvers reg org dtype rule g requester =
     tx_bind (tx_lift (approve_permission reg dtype)) (\<lambda>permission.
     tx_bind (on_tables (holders org permission g)) (\<lambda>hs.
     tx_bind (case rule of
                UserApprovers us \<Rightarrow>
                  tx_read (\<lambda>s. (filter (\<lambda>h. h \<in> set us) hs,
                    map (\<lambda>u. (u, NotEligibleInScope))
                      (filter (\<lambda>u. active_member org u (tables s)) (sort (remdups (filter (\<lambda>u. u \<notin> set hs) us))))))
              | RoleApprovers code \<Rightarrow>
                  tx_bind (on_tables (role_holders org code g)) (\<lambda>rs. tx_return (filter (\<lambda>h. h \<in> set rs) hs, []))
              | PermissionApprovers \<Rightarrow> tx_return (hs, [])) (\<lambda>(selected, excluded).
     tx_bind (on_tables (separation_applies org g)) (\<lambda>separation.
     tx_return
       (case requester of
          Some r \<Rightarrow>
            if separation \<and> r \<in> set selected
            then \<lparr>el_members = filter (\<lambda>u. u \<noteq> r) selected, el_excluded = sort_key fst (excluded @ [(r, SeparationOfDuty)])\<rparr>
            else \<lparr>el_members = selected, el_excluded = sort_key fst excluded\<rparr>
        | None \<Rightarrow> \<lparr>el_members = selected, el_excluded = sort_key fst excluded\<rparr>)))))"

text \<open>Who decided an earlier step of the route, and may not decide again.\<close>

definition decided_by :: "route_entry \<Rightarrow> uuid list" where
  "decided_by e = (case e of Step _ _ (Some us) _ \<Rightarrow> us | _ \<Rightarrow> [])"

definition earlier_deciders :: "route_entry list \<Rightarrow> string \<Rightarrow> uuid list" where
  "earlier_deciders route node = concat (map decided_by (filter (\<lambda>e. entry_node e \<noteq> Some node) route))"

definition current_members ::
  "registry \<Rightarrow> uuid \<Rightarrow> string \<Rightarrow> uuid option \<Rightarrow> route_entry list \<Rightarrow> node \<Rightarrow> snapshot \<Rightarrow> (approval_db, eligible) tx" where
  "current_members reg org dtype requester route n sn =
     tx_bind (tx_some (nd_approvers n) (Raised AssertionError)) (\<lambda>rule.
     tx_bind (eligible_approvers reg org dtype rule (ss_target sn) requester) (\<lambda>el.
     tx_return
       (if nd_repeat n then el
        else let earlier = earlier_deciders route (nd_id n) in
          el\<lparr>el_excluded := el_excluded el @ map (\<lambda>u. (u, AlreadyDecided)) (filter (\<lambda>u. u \<in> set earlier) (el_members el)),
             el_members := filter (\<lambda>u. u \<notin> set earlier) (el_members el)\<rparr>)))"

section \<open>Completion of a step\<close>

datatype step_result = Undecided | Complete | EndRejected | EndReturned

definition principal :: "decision_row \<Rightarrow> uuid" where
  "principal d = (case dn_behalf d of None \<Rightarrow> dn_actor d | Some b \<Rightarrow> b)"

definition step_complete :: "task_row \<Rightarrow> decision_row list \<Rightarrow> uuid list \<Rightarrow> step_result" where
  "step_complete t ds mems =
     (let evidence = filter (\<lambda>d. principal d \<in> set mems \<and> dn_task d = Some (tk_id t)) ds;
          terminal = sort_key (\<lambda>d. (dn_at d, dn_id d)) (filter (\<lambda>d. dn_outcome d = Reject \<or> dn_outcome d = ReturnIt) evidence)
      in case terminal of
           d # _ \<Rightarrow> if dn_outcome d = Reject then EndRejected else EndReturned
         | [] \<Rightarrow>
             let approved = remdups (map principal (filter (\<lambda>d. dn_outcome d = Approve) evidence)) in
             if (case tk_mode t of
                   AnyMode \<Rightarrow> approved \<noteq> []
                 | AllMode \<Rightarrow> mems \<noteq> [] \<and> set mems \<subseteq> set approved
                 | Quorum q \<Rightarrow> q \<le> int (length approved))
             then Complete else Undecided)"

section \<open>Reading the tables\<close>

definition instance_at :: "uuid \<Rightarrow> uuid \<Rightarrow> approval_db \<Rightarrow> instance_row option" where
  "instance_at org i s = find (\<lambda>r. in_org r = org \<and> in_id r = i) (ap_instances s)"

definition get_instance_row :: "uuid \<Rightarrow> uuid \<Rightarrow> (approval_db, instance_row) tx" where
  "get_instance_row org i = tx_bind (tx_read (instance_at org i)) (\<lambda>r. tx_some r not_found)"

definition version_at :: "uuid \<Rightarrow> uuid \<Rightarrow> approval_db \<Rightarrow> version_row option" where
  "version_at org i s = find (\<lambda>r. wv_org r = org \<and> wv_id r = i) (ap_versions s)"

definition get_version :: "uuid \<Rightarrow> uuid \<Rightarrow> (approval_db, version_row) tx" where
  "get_version org i = tx_bind (tx_read (version_at org i)) (\<lambda>r. tx_some r not_found)"

definition tasks_of :: "uuid \<Rightarrow> uuid \<Rightarrow> approval_db \<Rightarrow> task_row list" where
  "tasks_of org i s = sort_key (\<lambda>t. (tk_created t, tk_id t)) (filter (\<lambda>t. tk_org t = org \<and> tk_instance t = i) (ap_tasks s))"

text \<open>The published version of the nearest live definition: bound to the unit, or to the organization.\<close>

definition live_version :: "uuid \<Rightarrow> string \<Rightarrow> bool \<Rightarrow> uuid \<Rightarrow> approval_db \<Rightarrow> version_row option" where
  "live_version org dtype unit scope s =
     find (\<lambda>v. wv_org v = org \<and> wv_status v = VersionPublished \<and>
       list_ex (\<lambda>d. wd_org d = org \<and> wd_id d = wv_definition v \<and> wd_type d = dtype \<and> wd_retired d = None \<and>
         wd_unit d = unit \<and> wd_scope d = scope) (ap_definitions s)) (ap_versions s)"

definition resolve_version :: "uuid \<Rightarrow> string \<Rightarrow> uuid option \<Rightarrow> (approval_db, version_row option) tx" where
  "resolve_version org dtype unit =
     tx_read (\<lambda>s. case (case unit of None \<Rightarrow> None | Some u \<Rightarrow> live_version org dtype True u s) of
       Some v \<Rightarrow> Some v | None \<Rightarrow> live_version org dtype False org s)"

definition document_unit :: "uuid \<Rightarrow> target \<Rightarrow> (approval_db, uuid option) tx" where
  "document_unit org g =
     (case tg_kind g of
        ScopeUnit \<Rightarrow> tx_return (Some (tg_scope g))
      | ScopeProject \<Rightarrow> on_tables (business_unit org (tg_scope g))
      | ScopeOrg \<Rightarrow> tx_return None)"

definition document_bu :: "registry \<Rightarrow> uuid \<Rightarrow> string \<Rightarrow> uuid \<Rightarrow> (approval_db, uuid option) tx" where
  "document_bu reg org dtype doc =
     tx_bind (tx_lift (adapter_for reg dtype)) (\<lambda>a.
     tx_bind (read_snapshot a org doc) (\<lambda>sn. document_unit org (ss_target sn)))"

text \<open>The addresses of members of the organization.\<close>

definition member_email :: "uuid \<Rightarrow> approval_db \<Rightarrow> uuid \<Rightarrow> string option" where
  "member_email org s i =
     (if list_ex (\<lambda>m. mb_identity m = i \<and> mb_org m = org) (members (tables s)) then identity_email i (tables s) else None)"

section \<open>Steps of a route\<close>

record route_step =
  rs_node :: string
  rs_label :: string
  rs_mode :: mode
  rs_emails :: "string list"
  rs_excluded :: "(string \<times> exclusion) list"
  rs_state :: step_state
  rs_due :: "timestamp option"
  rs_via :: "condition option option"

definition node_label :: "node \<Rightarrow> string" where
  "node_label n = (case nd_name n of None \<Rightarrow> nd_id n | Some v \<Rightarrow> if v = [] then nd_id n else v)"

definition make_step ::
  "registry \<Rightarrow> uuid \<Rightarrow> string \<Rightarrow> uuid option \<Rightarrow> route_entry list \<Rightarrow> node \<Rightarrow> snapshot \<Rightarrow> step_state \<Rightarrow> timestamp option \<Rightarrow>
   (approval_db, route_step) tx" where
  "make_step reg org dtype requester route n sn st due =
     tx_bind (tx_some (nd_mode n) (Raised AssertionError)) (\<lambda>mode.
     tx_bind (current_members reg org dtype requester route n sn) (\<lambda>el.
     tx_bind (tx_read (\<lambda>s. member_email org s)) (\<lambda>email.
     tx_bind (tx_each (\<lambda>u. tx_some (email u) (Raised LookupFailed)) (el_members el)) (\<lambda>emails.
     tx_return \<lparr>rs_node = nd_id n, rs_label = node_label n, rs_mode = mode, rs_emails = sort emails,
       rs_excluded = sort_key fst (List.map_filter (\<lambda>(u, why). map_option (\<lambda>e. (e, why)) (email u)) (el_excluded el)),
       rs_state = st, rs_due = due,
       rs_via = via_of (takeWhile (\<lambda>e. entry_node e \<noteq> Some (nd_id n)) route)\<rparr>))))"

text \<open>The walk from a node; it mutates the route in the code and returns it here.\<close>

definition walk_from :: "graph \<Rightarrow> string \<Rightarrow> snapshot \<Rightarrow> route_entry list \<Rightarrow> (approval_db, node \<times> route_entry list) tx" where
  "walk_from g i sn route =
     (case walk g (ss_attributes sn) (Some i) route of
        None \<Rightarrow> tx_fail (Raised QueryNotReturning)
      | Some (Inl e) \<Rightarrow> tx_fail e
      | Some (Inr r) \<Rightarrow> tx_return (wr_node r, wr_route r))"

definition days :: "int \<Rightarrow> timestamp" where
  "days n = n * 86400 * 10 ^ 6"

definition open_task :: "registry \<Rightarrow> instance_row \<Rightarrow> node \<Rightarrow> snapshot \<Rightarrow> (approval_db, instance_row) tx" where
  "open_task reg r n sn =
     tx_bind (tx_read (\<lambda>s. clock (tables s))) (\<lambda>ts.
     let due = (case nd_due n of None \<Rightarrow> None | Some d \<Rightarrow> if d = 0 then None else Some (ts + days d)) in
     tx_bind (make_step reg (in_org r) (in_type r) (Some (in_requester r)) (in_route r) n sn OpenStep due) (\<lambda>step.
     tx_bind (tx_require (rs_emails step \<noteq> []) (conflict ''no_eligible_approver'')) (\<lambda>_.
     tx_bind (tx_some (nd_approvers n) (Raised AssertionError)) (\<lambda>rule.
     tx_bind (on_tables fresh_uuid) (\<lambda>i.
     tx_bind (tx_read (\<lambda>s. list_ex (\<lambda>t. tk_instance t = in_id r \<and> tk_node t = nd_id n) (ap_tasks s))) (\<lambda>again.
     tx_bind (tx_require (\<not> again) (Raised (UniqueViolation ''approval_task_instance_id_node_id_key''))) (\<lambda>_.
     tx_bind (tx_update (\<lambda>s. s\<lparr>ap_tasks := ap_tasks s @ [\<lparr>tk_id = i, tk_org = in_org r, tk_instance = in_id r, tk_node = nd_id n,
       tk_name = rs_label step, tk_rule = rule, tk_mode = rs_mode step, tk_repeat = nd_repeat n, tk_status = TaskOpen,
       tk_outcome = None, tk_created = ts, tk_due = due, tk_completed = None, tk_escalated = None,
       tk_escalation = (case (nd_escalate_after n, nd_escalate_to n) of
         (Some d, Some a) \<Rightarrow> if d = 0 then None else Some (d, a) | _ \<Rightarrow> None)\<rparr>]\<rparr>)) (\<lambda>_.
     tx_return (r\<lparr>in_route := in_route r @ [Step (nd_id n) OpenStep None None], in_node := Some (nd_id n)\<rparr>)))))))))"

definition save_instance :: "instance_row \<Rightarrow> (approval_db, unit) tx" where
  "save_instance r =
     tx_update (\<lambda>s. s\<lparr>ap_instances := map (\<lambda>x. if in_org x = in_org r \<and> in_id x = in_id r
       then x\<lparr>in_route := in_route r, in_node := in_node r, in_status := in_status r, in_finished := in_finished r,
         in_approved_digest := in_approved_digest r, in_approved_version := in_approved_version r\<rparr> else x) (ap_instances s)\<rparr>)"

definition approve_instance :: "registry \<Rightarrow> instance_row \<Rightarrow> outcome_context \<Rightarrow> (approval_db, unit) tx" where
  "approve_instance reg r context =
     tx_bind (tx_lift (adapter_for reg (in_type r))) (\<lambda>a.
     tx_bind (tx_require (\<not> (oc_project context \<noteq> None \<and> \<not> da_accepts_project a)) (Problem ValidationFailed None)) (\<lambda>_.
     tx_bind (read_snapshot a (in_org r) (in_document r)) (\<lambda>sn.
     tx_bind (tx_read (\<lambda>s. clock (tables s))) (\<lambda>ts.
     tx_bind (save_instance (r\<lparr>in_status := InApproved, in_node := None, in_finished := Some ts,
       in_approved_version := Some (ss_version sn), in_approved_digest := Some (material_digest sn)\<rparr>)) (\<lambda>_.
     da_outcome a (in_org r) (in_document r) OutApproved context)))))"

section \<open>Reading an instance\<close>

record task_read =
  tr_id :: uuid
  tr_node :: string
  tr_label :: string
  tr_mode :: mode
  tr_status :: task_status
  tr_outcome :: "task_outcome option"
  tr_emails :: "string list"
  tr_due :: "timestamp option"
  tr_completed :: "timestamp option"

record instance_read =
  ir_id :: uuid
  ir_type :: string
  ir_document :: uuid
  ir_version :: nat
  ir_workflow :: uuid
  ir_document_version :: int
  ir_status :: instance_status
  ir_requester :: string
  ir_node :: "string option"
  ir_route :: "route_step list"
  ir_tasks :: "task_read list"
  ir_started :: timestamp
  ir_finished :: "timestamp option"

text \<open>Several tasks of one node do not exist; the last would win.\<close>

definition task_of_node :: "task_row list \<Rightarrow> string \<Rightarrow> task_row option" where
  "task_of_node ts i = find (\<lambda>t. tk_node t = i) (rev ts)"

definition read_task :: "route_step \<Rightarrow> task_row \<Rightarrow> task_read" where
  "read_task step t = \<lparr>tr_id = tk_id t, tr_node = rs_node step, tr_label = rs_label step, tr_mode = rs_mode step,
     tr_status = tk_status t, tr_outcome = tk_outcome t, tr_emails = rs_emails step, tr_due = tk_due t,
     tr_completed = tk_completed t\<rparr>"

definition read_entry ::
  "registry \<Rightarrow> instance_row \<Rightarrow> graph \<Rightarrow> task_row list \<Rightarrow> snapshot \<Rightarrow> string \<times> step_state \<Rightarrow> (approval_db, route_step) tx" where
  "read_entry reg r g ts sn e =
     tx_bind (tx_some (node_at g (fst e)) (Raised LookupFailed)) (\<lambda>n.
     let t = task_of_node ts (nd_id n);
         n = (case t of None \<Rightarrow> n | Some t \<Rightarrow> n\<lparr>nd_approvers := Some (tk_rule t)\<rparr>) in
     make_step reg (in_org r) (in_type r) (Some (in_requester r)) (in_route r) n sn (snd e) (case t of None \<Rightarrow> None | Some t \<Rightarrow> tk_due t))"

definition entry_step :: "route_entry \<Rightarrow> (string \<times> step_state) option" where
  "entry_step e = (case e of Step i st _ _ \<Rightarrow> Some (i, st) | _ \<Rightarrow> None)"

definition get_instance :: "registry \<Rightarrow> uuid \<Rightarrow> uuid \<Rightarrow> (approval_db, instance_read) tx" where
  "get_instance reg org i =
     tx_bind (get_instance_row org i) (\<lambda>r.
     tx_bind (tx_lift (adapter_for reg (in_type r))) (\<lambda>a.
     tx_bind (read_snapshot a org (in_document r)) (\<lambda>sn.
     tx_bind (get_version org (in_workflow r)) (\<lambda>v.
     tx_bind (tx_read (tasks_of org i)) (\<lambda>ts.
     tx_bind (tx_each (read_entry reg r (wv_graph v) ts sn) (List.map_filter entry_step (in_route r))) (\<lambda>steps.
     tx_bind (tx_read (\<lambda>s. member_email org s (in_requester r))) (\<lambda>email.
     tx_bind (tx_some email (Raised LookupFailed)) (\<lambda>address.
     tx_return \<lparr>ir_id = in_id r, ir_type = in_type r, ir_document = in_document r, ir_version = wv_number v,
       ir_workflow = in_workflow r, ir_document_version = in_version r, ir_status = in_status r, ir_requester = address,
       ir_node = in_node r, ir_route = steps,
       ir_tasks = List.map_filter (\<lambda>step. map_option (read_task step) (task_of_node ts (rs_node step))) steps,
       ir_started = in_started r, ir_finished = in_finished r\<rparr>))))))))"

definition instances_for :: "registry \<Rightarrow> uuid \<Rightarrow> string \<Rightarrow> uuid \<Rightarrow> (approval_db, instance_read list) tx" where
  "instances_for reg org dtype doc =
     tx_bind (tx_read (\<lambda>s. map in_id (sort_key (\<lambda>r. (in_started r, in_id r))
       (filter (\<lambda>r. in_org r = org \<and> in_type r = dtype \<and> in_document r = doc) (ap_instances s))))) (\<lambda>is.
     tx_each (get_instance reg org) is)"

definition active_instance :: "registry \<Rightarrow> uuid \<Rightarrow> string \<Rightarrow> uuid \<Rightarrow> (approval_db, instance_read option) tx" where
  "active_instance reg org dtype doc =
     tx_bind (instances_for reg org dtype doc) (\<lambda>is. tx_return (find (\<lambda>i. ir_status i = InRunning) is))"

section \<open>Starting\<close>

text \<open>The instances of a document, latest first.\<close>

definition document_instances :: "uuid \<Rightarrow> string \<Rightarrow> uuid \<Rightarrow> approval_db \<Rightarrow> instance_row list" where
  "document_instances org dtype doc s =
     rev (sort_key (\<lambda>r. (in_started r, in_id r))
       (filter (\<lambda>r. in_org r = org \<and> in_type r = dtype \<and> in_document r = doc) (ap_instances s)))"

definition approval_in_progress :: problem where
  "approval_in_progress = conflict ''approval_in_progress''"

definition cannot_resume :: problem where
  "cannot_resume = conflict ''cannot_resume''"

text \<open>A resumed approval carries the steps before the one it was returned from.\<close>

fun carried :: "uuid \<Rightarrow> string \<Rightarrow> route_entry list \<Rightarrow> route_entry list" where
  "carried source i [] = []"
| "carried source i (e # es) =
     (if entry_node e = Some i then []
      else (case e of Step j _ us _ \<Rightarrow> Step j Carried us (Some source) | x \<Rightarrow> x) # carried source i es)"

definition resume_at ::
  "uuid \<Rightarrow> uuid \<Rightarrow> instance_row option \<Rightarrow> snapshot \<Rightarrow> (approval_db, version_row \<times> node \<times> route_entry list) tx" where
  "resume_at org source prior sn =
     (case prior of
        None \<Rightarrow> tx_fail cannot_resume
      | Some r \<Rightarrow>
          tx_bind (tx_require (in_id r = source \<and> in_status r = InReturned) cannot_resume) (\<lambda>_.
          tx_bind (tx_require (in_digest r = material_digest sn) cannot_resume) (\<lambda>_.
          tx_bind (get_version org (in_workflow r)) (\<lambda>v.
          tx_bind (tx_read (\<lambda>s. filter (\<lambda>t. tk_outcome t = Some TaskReturned) (tasks_of org source s))) (\<lambda>ts.
          tx_bind (tx_require (ts \<noteq> []) cannot_resume) (\<lambda>_.
          tx_bind (tx_some (node_at (wv_graph v) (tk_node (last ts))) (Raised LookupFailed)) (\<lambda>n.
          tx_return (v, n, carried source (nd_id n) (in_route r)))))))))"

definition begin_at ::
  "uuid \<Rightarrow> string \<Rightarrow> snapshot \<Rightarrow> (approval_db, version_row \<times> node \<times> route_entry list) tx" where
  "begin_at org dtype sn =
     tx_bind (document_unit org (ss_target sn)) (\<lambda>unit.
     tx_bind (resolve_version org dtype unit) (\<lambda>found.
     tx_bind (tx_some found (conflict ''no_workflow'')) (\<lambda>v.
     tx_bind (tx_some (start_id (wv_graph v)) (Raised LookupFailed)) (\<lambda>i.
     tx_bind (walk_from (wv_graph v) i sn []) (\<lambda>(n, route).
     tx_return (v, n, route))))))"

text \<open>The new row; the partial unique index allows one running instance for a document.\<close>

definition insert_instance :: "instance_row \<Rightarrow> (approval_db, unit) tx" where
  "insert_instance r =
     tx_bind (tx_read (\<lambda>s. list_ex (\<lambda>x. in_org x = in_org r \<and> in_type x = in_type r \<and> in_document x = in_document r \<and>
       in_status x = InRunning) (ap_instances s))) (\<lambda>running.
     tx_bind (tx_require (\<not> running) approval_in_progress) (\<lambda>_.
     tx_update (\<lambda>s. s\<lparr>ap_instances := ap_instances s @ [r]\<rparr>)))"

definition start_approval ::
  "registry \<Rightarrow> uuid \<Rightarrow> string \<Rightarrow> uuid \<Rightarrow> uuid option \<Rightarrow> (approval_db, instance_read) tx" where
  "start_approval reg org dtype doc resume_from =
     tx_bind (tx_read (\<lambda>s. case document_instances org dtype doc s of [] \<Rightarrow> None | r # _ \<Rightarrow> Some r)) (\<lambda>prior.
     tx_bind (tx_require (map_option in_status prior \<noteq> Some InRunning) approval_in_progress) (\<lambda>_.
     tx_bind (tx_lift (adapter_for reg dtype)) (\<lambda>a.
     tx_bind (read_snapshot a org doc) (\<lambda>sn.
     tx_bind (case resume_from of Some source \<Rightarrow> resume_at org source prior sn | None \<Rightarrow> begin_at org dtype sn) (\<lambda>(v, n, route).
     tx_bind (on_tables fresh_uuid) (\<lambda>i.
     tx_bind (tx_read (\<lambda>s. clock (tables s))) (\<lambda>ts.
     let r = \<lparr>in_id = i, in_org = org, in_type = dtype, in_document = doc, in_workflow = wv_id v, in_version = ss_version sn,
       in_digest = material_digest sn, in_approved_digest = None, in_approved_version = None, in_requester = ss_requester sn,
       in_status = InRunning, in_node = None, in_route = [], in_started = ts, in_finished = None\<rparr> in
     tx_bind (insert_instance r) (\<lambda>_.
     tx_bind (if nd_kind n = EndNode
              then approve_instance reg (r\<lparr>in_route := route\<rparr>)
                \<lparr>oc_actor = ss_requester sn, oc_decision = None, oc_project = None, oc_reject = None\<rparr>
              else tx_bind (open_task reg (r\<lparr>in_route := route\<rparr>) n sn) save_instance) (\<lambda>_.
     get_instance reg org i)))))))))"

section \<open>Advancing\<close>

definition task_closed :: problem where
  "task_closed = conflict ''task_closed''"

definition deciding :: "verdict_kind \<Rightarrow> bool" where
  "deciding k \<longleftrightarrow> k = Approve \<or> k = Reject \<or> k = ReturnIt"

definition complete_entry :: "string \<Rightarrow> uuid list \<Rightarrow> route_entry \<Rightarrow> route_entry" where
  "complete_entry i us e = (case e of Step j st old src \<Rightarrow> if j = i then Step j CompletedStep (Some us) src else e | _ \<Rightarrow> e)"

definition deciders :: "uuid \<Rightarrow> uuid \<Rightarrow> decision_row list \<Rightarrow> uuid list" where
  "deciders actor task ds =
     sort (remdups (actor # concat (map (\<lambda>d. [principal d, dn_actor d])
       (filter (\<lambda>d. dn_task d = Some task \<and> deciding (dn_outcome d)) ds))))"

definition close_task :: "uuid \<Rightarrow> uuid \<Rightarrow> task_outcome \<Rightarrow> (approval_db, unit) tx" where
  "close_task org i out =
     tx_update (\<lambda>s. s\<lparr>ap_tasks := map (\<lambda>t. if tk_org t = org \<and> tk_id t = i
       then t\<lparr>tk_status := TaskCompleted, tk_outcome := Some out, tk_completed := Some (clock (tables s))\<rparr> else t) (ap_tasks s)\<rparr>)"

definition advance ::
  "registry \<Rightarrow> uuid \<Rightarrow> uuid \<Rightarrow> uuid \<Rightarrow> outcome_context \<Rightarrow> decision_row list \<Rightarrow> (approval_db, instance_read) tx" where
  "advance reg org i task context ds =
     tx_bind (get_instance_row org i) (\<lambda>r.
     tx_bind (tx_read (\<lambda>s. find (\<lambda>t. tk_id t = task) (tasks_of org i s))) (\<lambda>found.
     tx_bind (tx_some found not_found) (\<lambda>t.
     tx_bind (tx_require (in_status r = InRunning \<and> tk_status t = TaskOpen) task_closed) (\<lambda>_.
     tx_bind (close_task org task TaskApproved) (\<lambda>_.
     let r = r\<lparr>in_route := map (complete_entry (tk_node t) (deciders (oc_actor context) task ds)) (in_route r)\<rparr> in
     tx_bind (tx_lift (adapter_for reg (in_type r))) (\<lambda>a.
     tx_bind (read_snapshot a org (in_document r)) (\<lambda>sn.
     tx_bind (get_version org (in_workflow r)) (\<lambda>v.
     tx_bind (walk_from (wv_graph v) (tk_node t) sn (in_route r)) (\<lambda>(n, route).
     tx_bind (if nd_kind n = EndNode then approve_instance reg (r\<lparr>in_route := route\<rparr>) context
              else tx_bind (open_task reg (r\<lparr>in_route := route\<rparr>) n sn) save_instance) (\<lambda>_.
     get_instance reg org i))))))))))"

end
