(* ===== verification/Decisions.thy ===== *)
theory Decisions
  imports Approvals
begin

text \<open>
  Who acts on an open task and what acting does: \<open>modules/approvals/decisions.py\<close>, the delegations and
  reassignments of \<open>delegation.py\<close>, and the approval in force of \<open>material.py\<close>.
\<close>

section \<open>The deciders of a task\<close>

definition task_node :: "task_row \<Rightarrow> node \<Rightarrow> node" where
  "task_node t n = n\<lparr>nd_approvers := Some (tk_rule t), nd_repeat := tk_repeat t\<rparr>"

definition covers_type :: "string \<Rightarrow> delegation_row \<Rightarrow> bool" where
  "covers_type dtype d \<longleftrightarrow> (case dg_types d of None \<Rightarrow> True | Some ts \<Rightarrow> dtype \<in> set ts)"

definition live_at :: "timestamp \<Rightarrow> delegation_row \<Rightarrow> bool" where
  "live_at ts d \<longleftrightarrow> dg_revoked d = None \<and> dg_starts d \<le> ts \<and> ts < dg_ends d"

text \<open>The first delegator of each delegate, in the order of the rows.\<close>

fun first_covers :: "(uuid \<times> uuid) list \<Rightarrow> (uuid \<times> uuid) list" where
  "first_covers [] = []"
| "first_covers ((u, v) # xs) = (u, v) # filter (\<lambda>p. fst p \<noteq> u) (first_covers xs)"

text \<open>Pairs of an acting delegate and the member acted for.\<close>

definition active_delegates ::
  "registry \<Rightarrow> instance_row \<Rightarrow> task_row \<Rightarrow> snapshot \<Rightarrow> uuid list \<Rightarrow> timestamp \<Rightarrow> (approval_db, (uuid \<times> uuid) list) tx" where
  "active_delegates reg r t sn base ts =
     (if base = [] then tx_return []
      else
        tx_bind (tx_read (\<lambda>s. sort_key (\<lambda>d. (dg_created d, dg_id d)) (filter (\<lambda>d. dg_org d = in_org r \<and> live_at ts d \<and>
          dg_delegator d \<in> set base \<and> dg_delegate d \<notin> set base \<and> covers_type (in_type r) d) (ap_delegations s)))) (\<lambda>rows.
        if rows = [] then tx_return []
        else
          tx_bind (eligible_approvers reg (in_org r) (in_type r) PermissionApprovers (ss_target sn) (Some (in_requester r))) (\<lambda>able.
          let earlier = (if tk_repeat t then [] else earlier_deciders (in_route r) (tk_node t)) in
          tx_return (first_covers (map (\<lambda>d. (dg_delegate d, dg_delegator d))
            (filter (\<lambda>d. dg_delegate d \<in> set (el_members able) \<and> dg_delegate d \<notin> set earlier) rows))))))"

definition effective_members ::
  "registry \<Rightarrow> instance_row \<Rightarrow> task_row \<Rightarrow> node \<Rightarrow> snapshot \<Rightarrow> timestamp \<Rightarrow> (approval_db, uuid list \<times> (uuid \<times> uuid) list) tx" where
  "effective_members reg r t n sn ts =
     (let n = task_node t n in
      tx_bind (current_members reg (in_org r) (in_type r) (Some (in_requester r)) (in_route r) n sn) (\<lambda>el.
      tx_bind (case (tk_escalation t, tk_escalated t) of
                 (Some (_, rule), Some _) \<Rightarrow>
                   tx_bind (current_members reg (in_org r) (in_type r) (Some (in_requester r)) (in_route r) (n\<lparr>nd_approvers := Some rule\<rparr>) sn)
                     (\<lambda>extra. tx_return (el_members el @ filter (\<lambda>u. u \<notin> set (el_members el)) (el_members extra)))
               | _ \<Rightarrow> tx_return (el_members el)) (\<lambda>base.
      tx_bind (active_delegates reg r t sn base ts) (\<lambda>delegates. tx_return (base, delegates)))))"

section \<open>Decisions\<close>

record decision_write =
  dw_outcome :: verdict_kind
  dw_reject :: "reject_mode option"
  dw_comment :: "string option"
  dw_version :: int
  dw_project :: "uuid option"
  dw_substitutions :: "(string \<times> string) list option"

definition decision_invalid :: problem where
  "decision_invalid = Problem ValidationFailed None"

text \<open>The body as validated: its comment stripped; a withdrawal is no decision one can send.\<close>

definition parse_decision :: "decision_write \<Rightarrow> problem + decision_write" where
  "parse_decision w =
     (if dw_outcome w = Withdraw then Inl decision_invalid
      else case dw_comment w of
        Some c \<Rightarrow>
          if c = [] \<or> 4000 < length c \<or> strip c = [] then Inl decision_invalid
          else if (dw_outcome w = Reject) \<noteq> (dw_reject w \<noteq> None) then Inl decision_invalid
          else if dw_project w \<noteq> None \<and> dw_outcome w \<noteq> Approve then Inl decision_invalid
          else Inr (w\<lparr>dw_comment := Some (strip c)\<rparr>)
      | None \<Rightarrow>
          if (dw_outcome w = Reject) \<noteq> (dw_reject w \<noteq> None) then Inl decision_invalid
          else if dw_outcome w \<noteq> Approve then Inl decision_invalid
          else Inr w)"

text \<open>The row of a decision; one deciding row for a task and an actor.\<close>

definition insert_decision :: "decision_row \<Rightarrow> (approval_db, uuid) tx" where
  "insert_decision d =
     tx_bind (on_tables fresh_uuid) (\<lambda>i.
     tx_bind (tx_read (\<lambda>s. deciding (dn_outcome d) \<and> dn_task d \<noteq> None \<and>
       list_ex (\<lambda>x. dn_org x = dn_org d \<and> dn_task x = dn_task d \<and> dn_actor x = dn_actor d \<and> deciding (dn_outcome x)) (ap_decisions s))) (\<lambda>again.
     tx_bind (tx_require (\<not> again) (Raised (UniqueViolation ''approval_decision_actor_task''))) (\<lambda>_.
     tx_bind (tx_update (\<lambda>s. s\<lparr>ap_decisions := ap_decisions s @ [d\<lparr>dn_id := i, dn_at := clock (tables s)\<rparr>]\<rparr>)) (\<lambda>_.
     tx_return i))))"

definition new_decision ::
  "instance_row \<Rightarrow> uuid option \<Rightarrow> uuid \<Rightarrow> uuid option \<Rightarrow> authority \<Rightarrow> verdict_kind \<Rightarrow> reject_mode option \<Rightarrow> string option \<Rightarrow>
   int \<Rightarrow> string list \<Rightarrow> decision_row" where
  "new_decision r task actor behalf auth out rej comment version who =
     \<lparr>dn_id = 0, dn_org = in_org r, dn_instance = in_id r, dn_task = task, dn_actor = actor, dn_behalf = behalf,
      dn_authority = auth, dn_outcome = out, dn_reject = rej, dn_comment = comment, dn_version = version, dn_members = who,
      dn_at = 0\<rparr>"

definition removed_user :: string where
  "removed_user = ''(removed user)''"

definition email_or_removed :: "approval_db \<Rightarrow> uuid \<Rightarrow> string" where
  "email_or_removed s i = (case identity_email i (tables s) of None \<Rightarrow> removed_user | Some e \<Rightarrow> e)"

text \<open>The audit row of a decision, and the requester's e-mail when the instance has ended.\<close>

fun status_word :: "instance_status \<Rightarrow> string" where
  "status_word InRunning = ''running''"
| "status_word InApproved = ''approved''"
| "status_word InRejected = ''rejected''"
| "status_word InReturned = ''returned''"
| "status_word InWithdrawn = ''withdrawn''"
| "status_word InSuperseded = ''superseded''"

definition decision_audit :: "registry \<Rightarrow> instance_row \<Rightarrow> uuid \<Rightarrow> (approval_db, unit) tx" where
  "decision_audit reg r actor =
     tx_bind (on_tables (audit_write (in_org r) (user_actor actor) ''approval.decision'' ''approval_instance'' (Some (in_id r)) None Success None)) (\<lambda>_.
     if in_status r \<in> {InApproved, InRejected, InReturned}
     then
       tx_bind (tx_lift (adapter_for reg (in_type r))) (\<lambda>a.
       tx_bind (\<lambda>s. tx_lift (da_summary a (in_org r) (in_document r) s) s) (\<lambda>(number, href).
       tx_bind (tx_read (\<lambda>s. identity_email (in_requester r) (tables s))) (\<lambda>recipient.
       case recipient of
         None \<Rightarrow> tx_return ()
       | Some address \<Rightarrow>
           tx_bind (on_work (add_email (in_org r) address ''approval-outcome-v1''
             [(''document_type'', JStr (in_type r)), (''number'', JStr number), (''outcome'', JStr (status_word (in_status r))), (''link'', JStr href)]
             (''approval:'' @ decimal (in_id r) @ '':'' @ status_word (in_status r)))) (\<lambda>_. tx_return ()))))
     else tx_return ())"

text \<open>The end of an instance other than by approval.\<close>

definition ended_status :: "document_outcome \<Rightarrow> instance_status" where
  "ended_status out = (case out of OutApproved \<Rightarrow> InApproved | OutRejected \<Rightarrow> InRejected | OutReturned \<Rightarrow> InReturned | OutWithdrawn \<Rightarrow> InWithdrawn)"

definition end_entry :: "string option \<Rightarrow> document_outcome \<Rightarrow> uuid \<Rightarrow> route_entry \<Rightarrow> route_entry" where
  "end_entry node out actor e =
     (case e of
        Step i st us src \<Rightarrow>
          if Some i = node
          then Step i CompletedStep (if out = OutRejected \<or> out = OutReturned
            then Some (sort (remdups (actor # (case us of None \<Rightarrow> [] | Some vs \<Rightarrow> vs)))) else us) src
          else e
      | _ \<Rightarrow> e)"

definition cancel_tasks :: "uuid \<Rightarrow> uuid \<Rightarrow> (approval_db, unit) tx" where
  "cancel_tasks org i =
     tx_update (\<lambda>s. s\<lparr>ap_tasks := map (\<lambda>t. if tk_org t = org \<and> tk_instance t = i \<and> tk_status t = TaskOpen
       then t\<lparr>tk_status := TaskCancelled, tk_completed := Some (clock (tables s))\<rparr> else t) (ap_tasks s)\<rparr>)"

definition end_instance :: "registry \<Rightarrow> instance_row \<Rightarrow> document_outcome \<Rightarrow> outcome_context \<Rightarrow> (approval_db, instance_row) tx" where
  "end_instance reg r out context =
     tx_bind (cancel_tasks (in_org r) (in_id r)) (\<lambda>_.
     tx_bind (tx_read (\<lambda>s. clock (tables s))) (\<lambda>ts.
     let r = r\<lparr>in_route := map (end_entry (in_node r) out (oc_actor context)) (in_route r), in_status := ended_status out,
       in_node := None, in_finished := Some ts\<rparr> in
     tx_bind (save_instance r) (\<lambda>_.
     tx_bind (tx_lift (adapter_for reg (in_type r))) (\<lambda>a.
     tx_bind (da_outcome a (in_org r) (in_document r) out context) (\<lambda>_. tx_return r)))))"

definition task_instance :: "uuid \<Rightarrow> uuid \<Rightarrow> (approval_db, uuid) tx" where
  "task_instance org task =
     tx_bind (tx_read (\<lambda>s. find (\<lambda>t. tk_org t = org \<and> tk_id t = task) (ap_tasks s))) (\<lambda>t.
     tx_bind (tx_some t not_found) (\<lambda>t. tx_return (tk_instance t)))"

definition decided_already :: "uuid \<Rightarrow> uuid \<Rightarrow> uuid \<Rightarrow> uuid \<Rightarrow> approval_db \<Rightarrow> bool" where
  "decided_already org task actor who s \<longleftrightarrow> list_ex (\<lambda>d. dn_org d = org \<and> dn_task d = Some task \<and>
     (dn_actor d \<in> {actor, who} \<or> dn_behalf d = Some who) \<and> deciding (dn_outcome d)) (ap_decisions s)"

definition decisions_of :: "uuid \<Rightarrow> uuid \<Rightarrow> approval_db \<Rightarrow> decision_row list" where
  "decisions_of org i s = filter (\<lambda>d. dn_org d = org \<and> dn_instance d = i) (ap_decisions s)"

text \<open>The checks of a decision, up to the one who acts: the instance, its task, the snapshot, the deciders, the principal.\<close>

definition decision_checks ::
  "registry \<Rightarrow> uuid \<Rightarrow> uuid \<Rightarrow> uuid \<Rightarrow> decision_write \<Rightarrow>
   (approval_db, instance_row \<times> task_row \<times> adapter \<times> snapshot \<times> uuid list \<times> (uuid \<times> uuid) list \<times> uuid option) tx" where
  "decision_checks reg org task actor body =
     tx_bind (task_instance org task) (\<lambda>i.
     tx_bind (get_instance_row org i) (\<lambda>r.
     tx_bind (tx_read (\<lambda>s. find (\<lambda>t. tk_id t = task) (tasks_of org i s))) (\<lambda>found.
     tx_bind (tx_some found (Raised LookupFailed)) (\<lambda>t.
     tx_bind (tx_require (in_status r = InRunning \<and> tk_status t = TaskOpen) task_closed) (\<lambda>_.
     tx_bind (tx_lift (adapter_for reg (in_type r))) (\<lambda>a.
     tx_bind (read_snapshot a org (in_document r)) (\<lambda>sn.
     tx_bind (tx_require (dw_version body = ss_version sn) (conflict ''stale_version'')) (\<lambda>_.
     tx_bind (get_version org (in_workflow r)) (\<lambda>v.
     tx_bind (tx_some (node_at (wv_graph v) (tk_node t)) (Raised LookupFailed)) (\<lambda>n.
     tx_bind (tx_read (\<lambda>s. clock (tables s))) (\<lambda>ts.
     tx_bind (effective_members reg r t n sn ts) (\<lambda>(base, delegates).
     let acting_for = (if actor \<in> set base then None else map_of delegates actor) in
     tx_bind (tx_require (actor \<in> set base \<or> acting_for \<noteq> None) (Problem Forbidden None)) (\<lambda>_.
     tx_bind (case dw_project body of
                None \<Rightarrow> tx_return ()
              | Some _ \<Rightarrow>
                  tx_bind (walk_from (wv_graph v) (nd_id n) sn []) (\<lambda>(m, _).
                  tx_require (da_accepts_project a \<and> nd_kind m = EndNode) decision_invalid)) (\<lambda>_.
     tx_bind (tx_read (decided_already org task actor (case acting_for of None \<Rightarrow> actor | Some u \<Rightarrow> u))) (\<lambda>again.
     tx_bind (tx_require (dw_outcome body = Comment \<or> \<not> again) (conflict ''already_decided'')) (\<lambda>_.
     tx_return (r, t, a, sn, base, delegates, acting_for)))))))))))))))))"

text \<open>An approval may be prepared by the document, which may refuse it; other outcomes take no substitutions.\<close>

definition prepare_document :: "adapter \<Rightarrow> instance_row \<Rightarrow> uuid \<Rightarrow> decision_write \<Rightarrow> (approval_db, unit) tx" where
  "prepare_document a r actor body =
     (case (if dw_outcome body = Approve then da_prepare a else None) of
        Some prepare \<Rightarrow> prepare (in_org r) (in_document r) actor (case dw_substitutions body of None \<Rightarrow> [] | Some kvs \<Rightarrow> kvs)
      | None \<Rightarrow> tx_require (dw_substitutions body = None) decision_invalid)"

definition apply_decision ::
  "registry \<Rightarrow> instance_row \<Rightarrow> task_row \<Rightarrow> uuid list \<Rightarrow> outcome_context \<Rightarrow> verdict_kind \<Rightarrow> (approval_db, instance_row) tx" where
  "apply_decision reg r t base context out =
     (if out = Approve
      then
        tx_bind (tx_read (decisions_of (in_org r) (in_id r))) (\<lambda>ds.
        if step_complete t ds base = Complete
        then tx_bind (advance reg (in_org r) (in_id r) (tk_id t) context ds) (\<lambda>_. get_instance_row (in_org r) (in_id r))
        else tx_return r)
      else if out = Reject \<or> out = ReturnIt
      then
        tx_bind (close_task (in_org r) (tk_id t) (if out = Reject then TaskRejected else TaskReturned)) (\<lambda>_.
        end_instance reg r (if out = Reject then OutRejected else OutReturned) context)
      else tx_return r)"

record decision_read =
  dr_row :: decision_row
  dr_actor :: string
  dr_behalf :: "string option"
  dr_node :: "string option"
  dr_label :: "string option"

definition read_decision :: "approval_db \<Rightarrow> decision_row \<Rightarrow> decision_read" where
  "read_decision s d =
     (let t = (case dn_task d of None \<Rightarrow> None | Some i \<Rightarrow> find (\<lambda>t. tk_org t = dn_org d \<and> tk_id t = i) (ap_tasks s)) in
      \<lparr>dr_row = d, dr_actor = email_or_removed s (dn_actor d), dr_behalf = map_option (email_or_removed s) (dn_behalf d),
       dr_node = map_option tk_node t, dr_label = map_option tk_name t\<rparr>)"

definition decisions_for :: "uuid \<Rightarrow> uuid \<Rightarrow> (approval_db, decision_read list) tx" where
  "decisions_for org i =
     tx_bind (get_instance_row org i) (\<lambda>_.
     tx_read (\<lambda>s. map (read_decision s) (sort_key (\<lambda>d. (dn_at d, dn_id d)) (decisions_of org i s))))"

definition decided_on_behalf :: "uuid \<Rightarrow> uuid \<Rightarrow> (approval_db, decision_read list) tx" where
  "decided_on_behalf org owner =
     tx_read (\<lambda>s. map (read_decision s) (take 50 (rev (sort_key (\<lambda>d. (dn_at d, dn_id d))
       (filter (\<lambda>d. dn_org d = org \<and> dn_behalf d = Some owner) (ap_decisions s))))))"

definition decide :: "registry \<Rightarrow> uuid \<Rightarrow> uuid \<Rightarrow> uuid \<Rightarrow> decision_write \<Rightarrow> (approval_db, decision_read \<times> instance_read) tx" where
  "decide reg org task actor body =
     tx_bind (decision_checks reg org task actor body) (\<lambda>(r, t, a, sn, base, delegates, acting_for).
     tx_bind (tx_read (\<lambda>s. sort (map (email_or_removed s) (base @ map fst delegates)))) (\<lambda>listed.
     tx_bind (insert_decision (new_decision r (Some task) actor acting_for (if acting_for = None then AsMember else AsDelegate)
       (dw_outcome body) (dw_reject body) (dw_comment body) (ss_version sn) listed)) (\<lambda>i.
     tx_bind (prepare_document a r actor body) (\<lambda>_.
     tx_bind (apply_decision reg r t base
       \<lparr>oc_actor = actor, oc_decision = Some i, oc_project = dw_project body, oc_reject = dw_reject body\<rparr> (dw_outcome body)) (\<lambda>r.
     tx_bind (decision_audit reg r actor) (\<lambda>_.
     tx_bind (decisions_for org (in_id r)) (\<lambda>ds.
     tx_bind (tx_some (find (\<lambda>d. dn_id (dr_row d) = i) ds) (Raised LookupFailed)) (\<lambda>d.
     tx_bind (get_instance reg org (in_id r)) (\<lambda>x. tx_return (d, x))))))))))"

section \<open>Withdrawal\<close>

definition withdraw :: "registry \<Rightarrow> uuid \<Rightarrow> string \<Rightarrow> uuid \<Rightarrow> uuid \<Rightarrow> string \<Rightarrow> (approval_db, instance_read) tx" where
  "withdraw reg org dtype doc actor reason =
     tx_bind (tx_read (\<lambda>s. find (\<lambda>r. in_org r = org \<and> in_type r = dtype \<and> in_document r = doc \<and> in_status r = InRunning) (ap_instances s))) (\<lambda>found.
     tx_bind (tx_some found task_closed) (\<lambda>r.
     tx_bind (tx_lift (adapter_for reg dtype)) (\<lambda>a.
     tx_bind (read_snapshot a org doc) (\<lambda>sn.
     tx_bind (insert_decision (new_decision r None actor None (if actor = in_requester r then AsRequester else AsAdmin) Withdraw None
       (if strip reason = [] then None else Some (strip reason)) (ss_version sn) [])) (\<lambda>i.
     tx_bind (end_instance reg r OutWithdrawn \<lparr>oc_actor = actor, oc_decision = Some i, oc_project = None, oc_reject = None\<rparr>) (\<lambda>r.
     tx_bind (decision_audit reg r actor) (\<lambda>_.
     get_instance reg org (in_id r))))))))"

definition withdraw_instance :: "registry \<Rightarrow> uuid \<Rightarrow> uuid \<Rightarrow> uuid \<Rightarrow> string option \<Rightarrow> (approval_db, instance_read) tx" where
  "withdraw_instance reg org i actor comment =
     tx_bind (get_instance_row org i) (\<lambda>r.
     tx_bind (tx_require (in_requester r = actor) (Problem Forbidden None)) (\<lambda>_.
     tx_bind (tx_require (in_status r = InRunning) task_closed) (\<lambda>_.
     withdraw reg org (in_type r) (in_document r) actor (case comment of None \<Rightarrow> [] | Some c \<Rightarrow> c))))"

section \<open>Delegations\<close>

record delegation_create =
  dc_delegate :: uuid
  dc_starts :: timestamp
  dc_ends :: timestamp
  dc_types :: "string list option"
  dc_reason :: string

text \<open>The model's validators; \<open>days\<close> of a Python interval is its whole days.\<close>

definition parse_delegation :: "delegation_create \<Rightarrow> problem + delegation_create" where
  "parse_delegation b =
     (if (case dc_types b of None \<Rightarrow> False | Some ts \<Rightarrow> ts = [] \<or> 8 < length ts) then Inl decision_invalid
      else if dc_reason b = [] \<or> 500 < length (dc_reason b) \<or> strip (dc_reason b) = [] then Inl decision_invalid
      else if dc_ends b \<le> dc_starts b then Inl decision_invalid
      else if 366 < (dc_ends b - dc_starts b) div days 1 then Inl decision_invalid
      else Inr (b\<lparr>dc_reason := strip (dc_reason b)\<rparr>))"

definition covered_types :: "registry \<Rightarrow> string list option \<Rightarrow> problem + string list" where
  "covered_types reg ts =
     (let known = sort (remdups (map fst reg)); wanted = (case ts of Some xs \<Rightarrow> xs | None \<Rightarrow> known)
      in if \<not> set wanted \<subseteq> set known \<or> wanted = [] then Inl decision_invalid else Inr wanted)"

definition delegate_holds_everything :: "registry \<Rightarrow> uuid \<Rightarrow> uuid \<Rightarrow> string list \<Rightarrow> (approval_db, bool) tx" where
  "delegate_holds_everything reg org delegate types =
     tx_bind (tx_each (\<lambda>t. tx_bind (tx_lift (approve_permission reg t)) (\<lambda>p.
       tx_bind (on_tables (holders org p (organization_target org))) (\<lambda>hs. tx_return (delegate \<in> set hs)))) types) (\<lambda>bs.
     tx_return (list_all id bs))"

definition periods_overlap :: "timestamp \<Rightarrow> timestamp \<Rightarrow> delegation_row \<Rightarrow> bool" where
  "periods_overlap start end d \<longleftrightarrow> start < dg_ends d \<and> dg_starts d < end"

text \<open>The constraints of migration 0046 and its trigger, then the row.\<close>

definition insert_delegation :: "delegation_row \<Rightarrow> (approval_db, unit) tx" where
  "insert_delegation d =
     tx_bind (tx_read (\<lambda>s. list_ex (\<lambda>x. dg_org x = dg_org d \<and> dg_delegator x = dg_delegator d \<and> dg_revoked x = None \<and>
       periods_overlap (dg_starts d) (dg_ends d) x) (ap_delegations s))) (\<lambda>overlaps.
     tx_bind (tx_require (\<not> overlaps) (conflict ''delegation_overlaps'')) (\<lambda>_.
     tx_bind (tx_require (dg_starts d < dg_ends d \<and> dg_delegator d \<noteq> dg_delegate d \<and> dg_ends d \<le> dg_starts d + days 366 \<and> dg_types d \<noteq> Some [])
       (Raised (CheckViolation ''approval_delegation_check''))) (\<lambda>_.
     tx_update (\<lambda>s. s\<lparr>ap_delegations := ap_delegations s @ [d]\<rparr>))))"

definition delegation_audit :: "uuid \<Rightarrow> uuid \<Rightarrow> string \<Rightarrow> string \<Rightarrow> uuid \<Rightarrow> (approval_db, unit) tx" where
  "delegation_audit org actor action target_type i =
     tx_bind (on_tables (audit_write org (user_actor actor) action target_type (Some i) None Success None)) (\<lambda>_. tx_return ())"

definition create_delegation :: "registry \<Rightarrow> uuid \<Rightarrow> uuid \<Rightarrow> delegation_create \<Rightarrow> (approval_db, delegation_row) tx" where
  "create_delegation reg org actor body =
     tx_bind (tx_require (dc_delegate body \<noteq> actor) decision_invalid) (\<lambda>_.
     tx_bind (tx_lift (covered_types reg (dc_types body))) (\<lambda>types.
     tx_bind (tx_read (\<lambda>s. active_identity (dc_delegate body) (tables s) \<and>
       list_ex (\<lambda>m. mb_org m = org \<and> mb_identity m = dc_delegate body) (members (tables s)))) (\<lambda>member.
     tx_bind (tx_require member not_found) (\<lambda>_.
     tx_bind (delegate_holds_everything reg org (dc_delegate body) types) (\<lambda>able.
     tx_bind (tx_require able decision_invalid) (\<lambda>_.
     tx_bind (tx_read (\<lambda>s. list_ex (\<lambda>x. dg_org x = org \<and> dg_delegate x = actor \<and> dg_revoked x = None \<and>
       periods_overlap (dc_starts body) (dc_ends body) x) (ap_delegations s))) (\<lambda>covering.
     tx_bind (tx_require (\<not> covering) (conflict ''no_redelegation'')) (\<lambda>_.
     tx_bind (on_tables fresh_uuid) (\<lambda>i.
     tx_bind (tx_read (\<lambda>s. clock (tables s))) (\<lambda>ts.
     let d = \<lparr>dg_id = i, dg_org = org, dg_delegator = actor, dg_delegate = dc_delegate body, dg_starts = dc_starts body,
       dg_ends = dc_ends body, dg_types = dc_types body, dg_reason = dc_reason body, dg_created = ts, dg_revoked = None,
       dg_revoked_by = None\<rparr> in
     tx_bind (insert_delegation d) (\<lambda>_.
     tx_bind (delegation_audit org actor ''approval.delegation.create'' ''approval_delegation'' i) (\<lambda>_.
     tx_return d))))))))))))"

definition revoke_delegation :: "uuid \<Rightarrow> uuid \<Rightarrow> uuid \<Rightarrow> bool \<Rightarrow> (approval_db, delegation_row) tx" where
  "revoke_delegation org actor i admin =
     tx_bind (tx_read (\<lambda>s. find (\<lambda>d. dg_org d = org \<and> dg_id d = i) (ap_delegations s))) (\<lambda>row.
     tx_bind (tx_some row not_found) (\<lambda>d.
     tx_bind (tx_require (dg_delegator d = actor \<or> admin) (Problem Forbidden None)) (\<lambda>_.
     if dg_revoked d \<noteq> None then tx_return d
     else
       tx_bind (tx_read (\<lambda>s. clock (tables s))) (\<lambda>ts.
       tx_bind (tx_update (\<lambda>s. s\<lparr>ap_delegations := map (\<lambda>x. if dg_org x = org \<and> dg_id x = i
         then x\<lparr>dg_revoked := Some ts, dg_revoked_by := Some actor\<rparr> else x) (ap_delegations s)\<rparr>)) (\<lambda>_.
       tx_bind (delegation_audit org actor ''approval.delegation.revoke'' ''approval_delegation'' i) (\<lambda>_.
       tx_return (d\<lparr>dg_revoked := Some ts, dg_revoked_by := Some actor\<rparr>)))))))"

section \<open>Reassignment\<close>

definition reassign_task :: "registry \<Rightarrow> uuid \<Rightarrow> uuid \<Rightarrow> uuid \<Rightarrow> uuid list \<Rightarrow> (approval_db, uuid) tx" where
  "reassign_task reg org actor task users =
     tx_bind (task_instance org task) (\<lambda>i.
     tx_bind (get_instance_row org i) (\<lambda>r.
     tx_bind (tx_read (\<lambda>s. find (\<lambda>t. tk_id t = task) (tasks_of org i s))) (\<lambda>found.
     tx_bind (tx_some found (Raised LookupFailed)) (\<lambda>t.
     tx_bind (tx_require (in_status r = InRunning \<and> tk_status t = TaskOpen) task_closed) (\<lambda>_.
     tx_bind (tx_lift (adapter_for reg (in_type r))) (\<lambda>a.
     tx_bind (read_snapshot a org (in_document r)) (\<lambda>sn.
     tx_bind (eligible_approvers reg org (in_type r) (UserApprovers users) (ss_target sn) (Some (in_requester r))) (\<lambda>el.
     tx_bind (tx_require (set users \<subseteq> set (el_members el)) decision_invalid) (\<lambda>_.
     tx_bind (tx_update (\<lambda>s. s\<lparr>ap_tasks := map (\<lambda>x. if tk_org x = org \<and> tk_id x = task
       then x\<lparr>tk_rule := UserApprovers users\<rparr> else x) (ap_tasks s)\<rparr>)) (\<lambda>_.
     tx_bind (delegation_audit org actor ''approval.task.reassign'' ''approval_task'' task) (\<lambda>_.
     tx_return i)))))))))))"

section \<open>The approval in force\<close>

definition in_force :: "uuid \<Rightarrow> string \<Rightarrow> uuid \<Rightarrow> approval_db \<Rightarrow> instance_row option" where
  "in_force org dtype doc s =
     (let is = document_instances org dtype doc s in
      case find (\<lambda>r. in_status r \<in> {InRunning, InApproved, InSuperseded}) is of
        Some r \<Rightarrow> Some r
      | None \<Rightarrow> (case is of [] \<Rightarrow> None | r # _ \<Rightarrow> Some r))"

record approval_state =
  as_status :: "instance_status option"
  as_instance :: "uuid option"
  as_version :: "int option"
  as_digest :: "digest option"
  as_running :: "uuid option"

definition approval_state_of :: "uuid \<Rightarrow> string \<Rightarrow> uuid \<Rightarrow> approval_db \<Rightarrow> approval_state" where
  "approval_state_of org dtype doc s =
     (case in_force org dtype doc s of
        None \<Rightarrow> \<lparr>as_status = None, as_instance = None, as_version = None, as_digest = None, as_running = None\<rparr>
      | Some r \<Rightarrow> \<lparr>as_status = Some (in_status r), as_instance = Some (in_id r),
          as_version = (if in_status r = InApproved then in_approved_version r else None), as_digest = in_approved_digest r,
          as_running = (if in_status r = InRunning then Some (in_id r) else None)\<rparr>)"

definition document_snapshot :: "registry \<Rightarrow> uuid \<Rightarrow> string \<Rightarrow> uuid \<Rightarrow> (approval_db, snapshot) tx" where
  "document_snapshot reg org dtype doc = tx_bind (tx_lift (adapter_for reg dtype)) (\<lambda>a. read_snapshot a org doc)"

definition requires_resubmission :: "registry \<Rightarrow> uuid \<Rightarrow> string \<Rightarrow> uuid \<Rightarrow> (approval_db, bool) tx" where
  "requires_resubmission reg org dtype doc =
     tx_bind (tx_read (approval_state_of org dtype doc)) (\<lambda>a.
     if as_status a \<noteq> Some InApproved then tx_return False
     else tx_bind (document_snapshot reg org dtype doc) (\<lambda>sn. tx_return (as_digest a \<noteq> Some (material_digest sn))))"

definition assert_current_approval :: "registry \<Rightarrow> uuid \<Rightarrow> string \<Rightarrow> uuid \<Rightarrow> int \<Rightarrow> (approval_db, unit) tx" where
  "assert_current_approval reg org dtype doc version =
     tx_bind (tx_read (approval_state_of org dtype doc)) (\<lambda>a.
     tx_bind (document_snapshot reg org dtype doc) (\<lambda>sn.
     tx_require (as_status a = Some InApproved \<and> version = ss_version sn \<and> as_digest a = Some (material_digest sn))
       (conflict ''stale_version'')))"

definition supersede :: "uuid \<Rightarrow> string \<Rightarrow> uuid \<Rightarrow> uuid \<Rightarrow> (approval_db, unit) tx" where
  "supersede org dtype doc actor =
     tx_bind (tx_read (in_force org dtype doc)) (\<lambda>found.
     tx_bind (tx_require (map_option in_status found = Some InApproved) (conflict ''stale_version'')) (\<lambda>_.
     tx_bind (tx_some found (conflict ''stale_version'')) (\<lambda>r.
     tx_bind (save_instance (r\<lparr>in_status := InSuperseded\<rparr>)) (\<lambda>_.
     delegation_audit org actor ''approval.supersede'' ''approval_instance'' (in_id r)))))"

definition rebase_digest :: "registry \<Rightarrow> uuid \<Rightarrow> string \<Rightarrow> uuid \<Rightarrow> (approval_db, unit) tx \<Rightarrow> (approval_db, unit) tx" where
  "rebase_digest reg org dtype doc mutate =
     tx_bind (tx_read (in_force org dtype doc)) (\<lambda>found.
     tx_bind mutate (\<lambda>_.
     case found of
       None \<Rightarrow> tx_return ()
     | Some r \<Rightarrow>
         if in_status r \<noteq> InApproved then tx_return ()
         else tx_bind (document_snapshot reg org dtype doc) (\<lambda>sn.
           save_instance (r\<lparr>in_approved_digest := Some (material_digest sn)\<rparr>))))"

section \<open>Escalation\<close>

text \<open>The first part of the daily reminders: open tasks past their escalation are marked, once.\<close>

definition escalates :: "timestamp \<Rightarrow> task_row \<Rightarrow> bool" where
  "escalates ts t \<longleftrightarrow> tk_escalated t = None \<and> (case tk_escalation t of None \<Rightarrow> False | Some (n, _) \<Rightarrow> tk_created t + days n < ts)"

definition escalate :: "uuid \<Rightarrow> timestamp \<Rightarrow> task_row \<Rightarrow> (approval_db, nat) tx" where
  "escalate org ts t =
     (if escalates ts t
      then
        tx_bind (tx_update (\<lambda>s. s\<lparr>ap_tasks := map (\<lambda>x. if tk_org x = org \<and> tk_id x = tk_id t \<and> tk_escalated x = None
          then x\<lparr>tk_escalated := Some ts\<rparr> else x) (ap_tasks s)\<rparr>)) (\<lambda>_.
        tx_bind (tx_lift (make_actor JobActor None)) (\<lambda>a.
        tx_bind (on_tables (audit_write org a ''approval.escalated'' ''approval_task'' (Some (tk_id t)) None Success None)) (\<lambda>_.
        tx_return 1)))
      else tx_return 0)"

definition escalate_tasks :: "uuid \<Rightarrow> (approval_db, nat) tx" where
  "escalate_tasks org =
     tx_bind (tx_read (\<lambda>s. clock (tables s))) (\<lambda>ts.
     tx_bind (tx_read (\<lambda>s. sort_key (\<lambda>t. (tk_created t, tk_id t)) (filter (\<lambda>t. tk_org t = org \<and> tk_status t = TaskOpen \<and>
       list_ex (\<lambda>r. in_org r = org \<and> in_id r = tk_instance t \<and> in_status r = InRunning) (ap_instances s)) (ap_tasks s)))) (\<lambda>open_ones.
     tx_bind (tx_each (escalate org ts) open_ones) (\<lambda>ns. tx_return (sum_list ns))))"

end
