(* ===== verification/ApprovalLaws.thy ===== *)
theory ApprovalLaws
  imports Decisions AccessLaws
begin

text \<open>
  What the approval engine guarantees, whatever the documents: a running instance has exactly one open
  task, at its current node; a document has at most one running instance; nobody decides a task twice, as
  themselves or for another; deciders hold the document's permission at its target and, under
  separation of duty, are not its requester; the live delegations of one person never overlap.

  The callbacks of a document are assumed to leave the engine's own tables alone (\<open>framed\<close>); the project
  documents of \<open>ProjectApprovals\<close> do.
\<close>

section \<open>Work that only reads\<close>

interpretation reading: tx_preorder "(=)"
  by unfold_locales auto

lemma on_tables_reads: "tx_rel (=) m \<Longrightarrow> tx_rel (=) (on_tables m)"
  by (auto simp: tx_rel_def on_tables_def on_work_def on_db_def split: sum.splits prod.splits)

lemma holders_reads: "tx_rel (=) (holders org p g)" "tx_rel (=) (role_holders org c g)"
  unfolding holders_def role_holders_def by (intro reading.tx_ok)+

lemma business_unit_reads: "tx_rel (=) (business_unit org i)"
  unfolding business_unit_def by (intro reading.tx_ok)

lemma effective_setting_reads: "tx_rel (=) (effective_setting org u key)"
  by (auto simp: tx_rel_def effective_setting_def split: sum.splits option.splits if_splits)

lemma separation_reads: "tx_rel (=) (separation_applies org g)"
  unfolding separation_applies_def
  by (intro tx_branches reading.tx_ok business_unit_reads effective_setting_reads)

lemma tx_rel_approvers:
  "(\<And>c. tx_rel R (f c)) \<Longrightarrow> (\<And>us. tx_rel R (g us)) \<Longrightarrow> tx_rel R h \<Longrightarrow>
   tx_rel R (case a of RoleApprovers c \<Rightarrow> f c | UserApprovers us \<Rightarrow> g us | PermissionApprovers \<Rightarrow> h)"
  by (cases a) auto

lemma eligible_reads: "tx_rel (=) (eligible_approvers reg org dtype rule g requester)"
  unfolding eligible_approvers_def
  by (intro tx_branches tx_rel_approvers reading.tx_ok on_tables_reads holders_reads separation_reads)

lemma current_members_reads: "tx_rel (=) (current_members reg org dtype requester route n sn)"
  unfolding current_members_def by (intro reading.tx_ok eligible_reads)

lemma make_step_reads: "tx_rel (=) (make_step reg org dtype requester route n sn st due)"
  unfolding make_step_def by (intro reading.tx_ok current_members_reads)

lemma read_snapshot_reads: "tx_rel (=) (read_snapshot a org doc)"
  by (auto simp: tx_rel_def read_snapshot_def)

lemma walk_from_reads: "tx_rel (=) (walk_from g i sn route)"
  by (auto simp: tx_rel_def walk_from_def split: option.splits sum.splits)

lemma get_row_reads: "tx_rel (=) (get_instance_row org i)" "tx_rel (=) (get_version org j)"
  unfolding get_instance_row_def get_version_def by (intro reading.tx_ok)+

lemma get_instance_reads: "tx_rel (=) (get_instance reg org i)"
  unfolding get_instance_def read_entry_def Let_def
  by (intro reading.tx_ok read_snapshot_reads get_row_reads make_step_reads)

lemma document_unit_reads: "tx_rel (=) (document_unit org g)"
  by (cases "tg_kind g") (auto simp: document_unit_def intro!: reading.tx_ok on_tables_reads business_unit_reads)

lemma begin_reads: "tx_rel (=) (begin_at org dtype sn)"
  unfolding begin_at_def resolve_version_def
  by (intro tx_branches reading.tx_ok document_unit_reads walk_from_reads)

lemma resume_reads: "tx_rel (=) (resume_at org source prior sn)"
  unfolding resume_at_def by (intro tx_branches reading.tx_ok tx_rel_fail get_row_reads)

lemma delegates_reads: "tx_rel (=) (active_delegates reg r t sn base ts)"
  unfolding active_delegates_def Let_def by (intro tx_branches reading.tx_ok eligible_reads)

lemma effective_reads: "tx_rel (=) (effective_members reg r t n sn ts)"
  unfolding effective_members_def Let_def
  by (intro tx_branches reading.tx_ok current_members_reads delegates_reads)

lemma task_instance_reads: "tx_rel (=) (task_instance org task)"
  unfolding task_instance_def by (intro reading.tx_ok)

lemma checks_reads: "tx_rel (=) (decision_checks reg org task actor body)"
  unfolding decision_checks_def Let_def
  by (intro tx_branches reading.tx_ok task_instance_reads get_row_reads read_snapshot_reads effective_reads walk_from_reads)

lemma decisions_for_reads: "tx_rel (=) (decisions_for org i)"
  unfolding decisions_for_def by (intro reading.tx_ok get_row_reads)

text \<open>Where such work stands in an operation, it can be skipped.\<close>

lemma bind_reads: "tx_rel (=) m \<Longrightarrow> tx_bind m k s = Inr r \<Longrightarrow> \<exists>x. m s = Inr (x, s) \<and> k x s = Inr r"
  by (fastforce simp: tx_bind_Inr tx_rel_def)

section \<open>Work that leaves the approvals alone\<close>

definition calm :: "approval_db \<Rightarrow> approval_db \<Rightarrow> bool" where
  "calm s t \<longleftrightarrow> ap_instances t = ap_instances s \<and> ap_tasks t = ap_tasks s \<and> ap_decisions t = ap_decisions s \<and>
     ap_delegations t = ap_delegations s \<and> next_uuid (tables s) \<le> next_uuid (tables t)"

interpretation calm: tx_preorder calm
  by unfold_locales (auto simp: calm_def)

lemma reads_calm: "tx_rel (=) m \<Longrightarrow> tx_rel calm m"
  by (auto simp: tx_rel_def calm_def)

definition framed :: "registry \<Rightarrow> bool" where
  "framed reg \<longleftrightarrow> (\<forall>(dtype, a)\<in>set reg. (\<forall>org doc out ctx. tx_rel calm (da_outcome a org doc out ctx)) \<and>
     (\<forall>prepare. da_prepare a = Some prepare \<longrightarrow> (\<forall>org doc actor kvs. tx_rel calm (prepare org doc actor kvs))))"

lemma adapter_calm:
  assumes "framed reg" "adapter_for reg dtype = Inr a"
  shows "tx_rel calm (da_outcome a org doc out ctx)" "da_prepare a = Some prepare \<Longrightarrow> tx_rel calm (prepare org doc actor kvs)"
proof -
  have "(dtype, a) \<in> set reg" using assms(2) by (auto simp: adapter_for_def split: option.splits dest: map_of_SomeD)
  then show "tx_rel calm (da_outcome a org doc out ctx)" "da_prepare a = Some prepare \<Longrightarrow> tx_rel calm (prepare org doc actor kvs)"
    using assms(1) by (auto simp: framed_def)
qed

lemma on_tables_calm: "tx_rel (\<lambda>s t. next_uuid s \<le> next_uuid t) m \<Longrightarrow> tx_rel calm (on_tables m)"
  by (auto simp: tx_rel_def calm_def on_tables_def on_work_def on_db_def tables_def split: sum.splits prod.splits)

lemma audit_calm: "tx_rel calm (on_tables (audit_write org a action tt tg bu out reason))"
  by (rule on_tables_calm) (auto simp: tx_rel_def audit_write_Inr)

lemma on_work_calm: "tx_rel (\<lambda>s t. next_uuid (w_db s) \<le> next_uuid (w_db t)) m \<Longrightarrow> tx_rel calm (on_work m)"
  by (auto simp: tx_rel_def calm_def on_work_def tables_def split: sum.splits prod.splits)

lemma add_email_next: "tx_rel (\<lambda>s t. next_uuid (w_db s) \<le> next_uuid (w_db t)) (add_email org to template ctx key)"
  by (auto simp: tx_rel_def add_email_def add_outbox_def insert_outbox_def tx_bind_Inr on_db_def fresh_uuid_Inr Let_def
      split: sum.splits prod.splits)

lemma decision_audit_calm: "tx_rel calm (decision_audit reg r actor)"
proof -
  have "tx_rel calm (\<lambda>s. tx_lift (da_summary a org doc s) s)" for a org doc
    by (auto simp: tx_rel_def calm_def)
  then show ?thesis
    unfolding decision_audit_def
    by (intro tx_branches calm.tx_ok audit_calm on_work_calm add_email_next)
qed

section \<open>The tables in order\<close>

definition open_tasks :: "instance_row \<Rightarrow> task_row list \<Rightarrow> task_row list" where
  "open_tasks r ts = filter (\<lambda>t. tk_instance t = in_id r \<and> tk_status t = TaskOpen) ts"

definition settled :: "task_row list \<Rightarrow> instance_row \<Rightarrow> bool" where
  "settled ts r \<longleftrightarrow>
     (if in_status r = InRunning then \<exists>t. open_tasks r ts = [t] \<and> in_node r = Some (tk_node t)
      else open_tasks r ts = [] \<and> in_node r = None)"

definition one_running :: "instance_row list \<Rightarrow> bool" where
  "one_running rs \<longleftrightarrow> (\<forall>r\<in>set rs. \<forall>x\<in>set rs. in_status r = InRunning \<and> in_status x = InRunning \<and> in_org r = in_org x \<and>
     in_type r = in_type x \<and> in_document r = in_document x \<longrightarrow> r = x)"

definition keys_ok :: "approval_db \<Rightarrow> bool" where
  "keys_ok s \<longleftrightarrow> distinct (map in_id (ap_instances s)) \<and> distinct (map tk_id (ap_tasks s)) \<and>
     (\<forall>r\<in>set (ap_instances s). in_id r < next_uuid (tables s)) \<and>
     (\<forall>t\<in>set (ap_tasks s). tk_id t < next_uuid (tables s) \<and> tk_instance t \<in> in_id ` set (ap_instances s)) \<and>
     (\<forall>t\<in>set (ap_tasks s). \<forall>r\<in>set (ap_instances s). in_id r = tk_instance t \<longrightarrow> in_org r = tk_org t)"

text \<open>Two deciding rows of one task are of different actors, deciding for different people.\<close>

definition apart_decisions :: "decision_row \<Rightarrow> decision_row \<Rightarrow> bool" where
  "apart_decisions d e \<longleftrightarrow> (deciding (dn_outcome d) \<and> deciding (dn_outcome e) \<and> dn_org d = dn_org e \<and> dn_task d = dn_task e \<and> dn_task d \<noteq> None \<longrightarrow>
     dn_actor d \<noteq> dn_actor e \<and> principal d \<noteq> principal e)"

definition decisions_ok :: "decision_row list \<Rightarrow> bool" where
  "decisions_ok ds \<longleftrightarrow> sorted_wrt apart_decisions ds"

definition delegations_ok :: "delegation_row list \<Rightarrow> bool" where
  "delegations_ok ds \<longleftrightarrow> sorted_wrt (\<lambda>d e. dg_revoked d = None \<and> dg_revoked e = None \<and> dg_org d = dg_org e \<and>
     dg_delegator d = dg_delegator e \<longrightarrow> dg_ends d \<le> dg_starts e \<or> dg_ends e \<le> dg_starts d) ds \<and>
     (\<forall>d\<in>set ds. dg_starts d < dg_ends d \<and> dg_ends d \<le> dg_starts d + days 366 \<and> dg_delegator d \<noteq> dg_delegate d)"

definition approval_ok :: "approval_db \<Rightarrow> bool" where
  "approval_ok s \<longleftrightarrow> keys_ok s \<and> one_running (ap_instances s) \<and> decisions_ok (ap_decisions s) \<and> delegations_ok (ap_delegations s) \<and>
     (\<forall>r\<in>set (ap_instances s). settled (ap_tasks s) r)"

text \<open>All settled but the instance being worked on; and that instance without an open task.\<close>

definition working :: "uuid \<Rightarrow> approval_db \<Rightarrow> bool" where
  "working i s \<longleftrightarrow> keys_ok s \<and> one_running (ap_instances s) \<and> decisions_ok (ap_decisions s) \<and> delegations_ok (ap_delegations s) \<and>
     (\<forall>r\<in>set (ap_instances s). in_id r \<noteq> i \<longrightarrow> settled (ap_tasks s) r)"

definition idle :: "uuid \<Rightarrow> approval_db \<Rightarrow> bool" where
  "idle i s \<longleftrightarrow> (\<forall>t\<in>set (ap_tasks s). tk_instance t = i \<longrightarrow> tk_status t \<noteq> TaskOpen)"

lemma keys_ok_grow: "keys_ok s \<Longrightarrow> calm s t \<Longrightarrow> keys_ok t"
  by (auto simp: calm_def keys_ok_def intro: less_le_trans)

lemma calm_ok: "calm s t \<Longrightarrow> approval_ok s \<Longrightarrow> approval_ok t"
  using keys_ok_grow [of s t] by (simp add: approval_ok_def calm_def)

lemma calm_working: "calm s t \<Longrightarrow> working i s \<Longrightarrow> working i t"
  using keys_ok_grow [of s t] by (simp add: working_def calm_def)

lemma calm_idle: "calm s t \<Longrightarrow> idle i s \<Longrightarrow> idle i t"
  by (simp add: idle_def calm_def)

lemma ok_working: "approval_ok s \<Longrightarrow> working i s"
  by (simp add: approval_ok_def working_def)

lemma one_instance: "keys_ok s \<Longrightarrow> r \<in> set (ap_instances s) \<Longrightarrow> x \<in> set (ap_instances s) \<Longrightarrow> in_id r = in_id x \<Longrightarrow> r = x"
  by (auto simp: keys_ok_def distinct_map inj_on_def)

lemma one_task: "keys_ok s \<Longrightarrow> t \<in> set (ap_tasks s) \<Longrightarrow> u \<in> set (ap_tasks s) \<Longrightarrow> tk_id t = tk_id u \<Longrightarrow> t = u"
  by (auto simp: keys_ok_def distinct_map inj_on_def)

section \<open>The parts of an operation\<close>

lemma on_tables_fresh: "on_tables fresh_uuid s = Inr (i, t) \<longleftrightarrow>
    i = next_uuid (tables s) \<and> t = s\<lparr>ap_work := (ap_work s)\<lparr>w_db := (tables s)\<lparr>next_uuid := Suc i\<rparr>\<rparr>\<rparr>"
  by (auto simp: on_tables_def on_work_def on_db_def tables_def fresh_uuid_def Let_def split: sum.splits prod.splits)

lemma on_tables_fresh_calm: "tx_rel calm (on_tables fresh_uuid)"
  by (rule on_tables_calm) (auto simp: tx_rel_def fresh_uuid_Inr)

definition opened :: "instance_row \<Rightarrow> node \<Rightarrow> instance_row" where
  "opened r n = r\<lparr>in_route := in_route r @ [Step (nd_id n) OpenStep None None], in_node := Some (nd_id n)\<rparr>"

lemma opened_simps [simp]:
  "in_id (opened r n) = in_id r" "in_org (opened r n) = in_org r" "in_status (opened r n) = in_status r"
  "in_type (opened r n) = in_type r" "in_document (opened r n) = in_document r"
  "in_node (opened r n) = Some (nd_id n)"
  by (simp_all add: opened_def)

lemma open_task_Inr:
  assumes "open_task reg r n sn s = Inr (r', t)"
  obtains k where "r' = opened r n" "ap_tasks t = ap_tasks s @ [k]" "tk_id k = next_uuid (tables s)" "tk_org k = in_org r" "tk_instance k = in_id r"
    "tk_node k = nd_id n" "tk_status k = TaskOpen" "ap_instances t = ap_instances s" "ap_decisions t = ap_decisions s"
    "ap_delegations t = ap_delegations s" "next_uuid (tables t) = Suc (next_uuid (tables s))"
  using assms unfolding open_task_def Let_def
proof (elim tx_bindE, goal_cases)
  case (1 ts s1 step s2 u s3 rule s4 i s5 again s6 u2 s7 u3 s8)
  have "s2 = s" using tx_relD [OF make_step_reads 1(3)] 1(2) by simp
  then show ?case using 1(1) 1(2,4-10) by (auto simp: on_tables_fresh opened_def tables_def)
qed

definition stored :: "instance_row \<Rightarrow> instance_row \<Rightarrow> instance_row" where
  "stored r x = (if in_org x = in_org r \<and> in_id x = in_id r
     then x\<lparr>in_route := in_route r, in_node := in_node r, in_status := in_status r, in_finished := in_finished r,
       in_approved_digest := in_approved_digest r, in_approved_version := in_approved_version r\<rparr> else x)"

lemma save_instance_Inr: "save_instance r s = Inr (u, t) \<longleftrightarrow> t = s\<lparr>ap_instances := map (stored r) (ap_instances s)\<rparr>"
  by (simp add: save_instance_def stored_def [abs_def])

lemma stored_simps [simp]:
  "in_id (stored r x) = in_id x" "in_org (stored r x) = in_org x" "in_type (stored r x) = in_type x" "in_document (stored r x) = in_document x"
  "in_requester (stored r x) = in_requester x"
  by (simp_all add: stored_def)

lemma settled_cong: "in_id r = in_id x \<Longrightarrow> in_status r = in_status x \<Longrightarrow> in_node r = in_node x \<Longrightarrow> settled ts r = settled ts x"
  by (simp add: settled_def open_tasks_def)

lemma keys_ok_stored: "keys_ok s \<Longrightarrow> keys_ok (s\<lparr>ap_instances := map (stored r) (ap_instances s)\<rparr>)"
  by (auto simp: keys_ok_def comp_def tables_def image_iff)

text \<open>Saving the instance worked on, settled, ends the work.\<close>

lemma save_working:
  assumes w: "working i s" and x: "x \<in> set (ap_instances s)" "in_id x = i" "in_org x = in_org r" "in_id r = i"
    and ok: "settled (ap_tasks s) r" "in_status r = InRunning \<Longrightarrow> in_status x = InRunning"
    and run: "save_instance r s = Inr (u, t)"
  shows "approval_ok t" and "stored r x \<in> set (ap_instances t)"
proof -
  have t: "t = s\<lparr>ap_instances := map (stored r) (ap_instances s)\<rparr>" using run by (simp add: save_instance_Inr)
  have keys: "keys_ok s" using w by (simp add: working_def)
  have only: "stored r y = y" if "y \<in> set (ap_instances s)" "in_id y \<noteq> i" for y using that x(4) by (simp add: stored_def)
  have this_one: "y = x" if "y \<in> set (ap_instances s)" "in_id y = i" for y using one_instance [OF keys that(1) x(1)] that(2) x(2) by simp
  have here: "in_status (stored r x) = in_status r" "in_node (stored r x) = in_node r" using x by (simp_all add: stored_def)
  have "settled (ap_tasks s) (stored r x)" using settled_cong [of "stored r x" r] here x ok(1) by simp
  then have "\<forall>y\<in>set (ap_instances t). settled (ap_tasks t) y"
    using w only this_one by (fastforce simp: t working_def)
  moreover have runs: "in_status y = InRunning" if "y \<in> set (ap_instances s)" "in_status (stored r y) = InRunning" for y
    using that this_one [of y] only [of y] here ok(2) by (cases "in_id y = i") auto
  then have "one_running (ap_instances t)"
    using w unfolding t one_running_def working_def by auto
  ultimately show "approval_ok t"
    using w keys_ok_stored [OF keys, of r] by (simp add: approval_ok_def working_def t)
  show "stored r x \<in> set (ap_instances t)" using x(1) by (simp add: t)
qed

lemma idle_no_open: "idle (in_id r) s \<Longrightarrow> open_tasks r (ap_tasks s) = []"
  by (auto simp: idle_def open_tasks_def filter_empty_conv)

lemma open_task_working:
  assumes w: "working (in_id r) s" "idle (in_id r) s" and r: "in_id r \<in> in_id ` set (ap_instances s)" "in_status r = InRunning"
    "\<forall>x\<in>set (ap_instances s). in_id x = in_id r \<longrightarrow> in_org x = in_org r"
    and run: "open_task reg r n sn s = Inr (r', t)"
  shows "working (in_id r) t" "settled (ap_tasks t) r'" "r' = opened r n" "ap_instances t = ap_instances s"
proof -
  obtain k where k: "r' = opened r n" "ap_tasks t = ap_tasks s @ [k]" "tk_id k = next_uuid (tables s)" "tk_org k = in_org r" "tk_instance k = in_id r"
    "tk_node k = nd_id n" "tk_status k = TaskOpen" "ap_instances t = ap_instances s" "ap_decisions t = ap_decisions s"
    "ap_delegations t = ap_delegations s" "next_uuid (tables t) = Suc (next_uuid (tables s))"
    by (rule open_task_Inr [OF run])
  show "r' = opened r n" "ap_instances t = ap_instances s" by (fact k)+
  have "keys_ok t" using w(1) r(1,3) k(2-5,8,11) by (auto simp: working_def keys_ok_def less_Suc_eq)
  moreover have "settled (ap_tasks t) x" if "x \<in> set (ap_instances s)" "in_id x \<noteq> in_id r" for x
    using that w(1) by (auto simp: working_def settled_def open_tasks_def k(2,5))
  ultimately show "working (in_id r) t" using w(1) by (simp add: working_def k(8-10))
  show "settled (ap_tasks t) r'"
    using idle_no_open [OF w(2)] r(2) k(5-7) by (simp add: settled_def k(1,2) open_tasks_def)
qed

section \<open>Ends and continuations\<close>

lemma approve_ok:
  assumes fr: "framed reg" and w: "working (in_id r) s" "idle (in_id r) s" and x: "x \<in> set (ap_instances s)" "in_id x = in_id r" "in_org x = in_org r"
    and run: "approve_instance reg r ctx s = Inr (u, t)"
  shows "approval_ok t" "\<exists>y\<in>set (ap_instances t). in_id y = in_id r \<and> in_status y = InApproved"
proof -
  from run have "approval_ok t \<and> (\<exists>y\<in>set (ap_instances t). in_id y = in_id r \<and> in_status y = InApproved)"
    unfolding approve_instance_def
  proof (elim tx_bindE, goal_cases)
    case (1 a s1 u1 s2 sn s3 ts s4 u2 s5)
    have s4: "s4 = s" using 1(1,2,4) tx_relD [OF read_snapshot_reads 1(3)] by simp
    let ?r = "r\<lparr>in_status := InApproved, in_node := None, in_finished := Some ts, in_approved_version := Some (ss_version sn),
      in_approved_digest := Some (material_digest sn)\<rparr>"
    have st: "settled (ap_tasks s) ?r" using idle_no_open [OF w(2)] by (simp add: settled_def open_tasks_def)
    have saved: "save_instance ?r s = Inr (u2, s5)" using 1(5) s4 by simp
    have "approval_ok s5" "stored ?r x \<in> set (ap_instances s5)"
      using save_working [OF w(1) x(1,2) _ _ st _ saved] x(3) by simp_all
    moreover have c: "calm s5 t" using tx_relD [OF adapter_calm(1) [OF fr, of "in_type r"] 1(6)] 1(1) by simp
    moreover have "in_status (stored ?r x) = InApproved" using x by (simp add: stored_def)
    ultimately show ?case using calm_ok [OF c] x(2)
      by (auto simp: calm_def intro: bexI [of _ "stored ?r x"])
  qed
  then show "approval_ok t" "\<exists>y\<in>set (ap_instances t). in_id y = in_id r \<and> in_status y = InApproved" by auto
qed

text \<open>Where the walk stops: at an end, which approves the document, or at the next task.\<close>

lemma continue_ok:
  assumes fr: "framed reg" and w: "working (in_id r) s" "idle (in_id r) s" and x: "x \<in> set (ap_instances s)" "in_id x = in_id r" "in_org x = in_org r"
    and st: "in_status x = InRunning" "in_status r = InRunning"
    and run: "(if nd_kind n = EndNode then approve_instance reg (r\<lparr>in_route := route\<rparr>) ctx
       else tx_bind (open_task reg (r\<lparr>in_route := route\<rparr>) n sn) save_instance) s = Inr (u, t)"
  shows "approval_ok t"
proof (cases "nd_kind n = EndNode")
  case True
  then show ?thesis using approve_ok(1) [OF fr, of "r\<lparr>in_route := route\<rparr>" s x ctx u t] w x run by simp
next
  case False
  let ?r = "r\<lparr>in_route := route\<rparr>"
  from False run obtain r' s1 where s1: "open_task reg ?r n sn s = Inr (r', s1)" "save_instance r' s1 = Inr (u, t)"
    by (auto simp: tx_bind_Inr)
  have keys: "keys_ok s" using w(1) by (simp add: working_def)
  have orgs: "\<forall>y\<in>set (ap_instances s). in_id y = in_id r \<longrightarrow> in_org y = in_org r"
    using one_instance [OF keys _ x(1)] x(2,3) by force
  have op1: "working (in_id r) s1" "settled (ap_tasks s1) r'" "r' = opened ?r n" "ap_instances s1 = ap_instances s"
    using open_task_working [OF _ _ _ _ _ s1(1)] w x st orgs by (force simp: image_iff)+
  show ?thesis
    by (rule save_working(1) [OF op1(1) _ _ _ _ op1(2) _ s1(2), of x]) (use x op1 st in simp_all)
qed

lemma open_is_one:
  assumes "approval_ok s" "r \<in> set (ap_instances s)" "t \<in> set (ap_tasks s)" "tk_instance t = in_id r" "tk_status t = TaskOpen"
    "u \<in> set (ap_tasks s)" "tk_instance u = in_id r" "tk_status u = TaskOpen"
  shows "u = t"
proof -
  have "set (open_tasks r (ap_tasks s)) \<subseteq> {v. v = hd (open_tasks r (ap_tasks s))}"
    using assms(1,2) by (fastforce simp: approval_ok_def settled_def split: if_splits)
  moreover have "t \<in> set (open_tasks r (ap_tasks s))" "u \<in> set (open_tasks r (ap_tasks s))" using assms by (simp_all add: open_tasks_def)
  ultimately show ?thesis by blast
qed

lemma tasks_working:
  assumes "working i s" "\<forall>k. tk_id (f k) = tk_id k \<and> tk_org (f k) = tk_org k \<and> tk_instance (f k) = tk_instance k \<and> tk_node (f k) = tk_node k"
    "\<forall>k\<in>set (ap_tasks s). tk_instance k \<noteq> i \<longrightarrow> f k = k"
  shows "working i (s\<lparr>ap_tasks := map f (ap_tasks s)\<rparr>)"
proof -
  let ?t = "s\<lparr>ap_tasks := map f (ap_tasks s)\<rparr>"
  have "keys_ok ?t" using assms(1,2) by (auto simp: working_def keys_ok_def comp_def tables_def)
  moreover have "open_tasks r (ap_tasks ?t) = open_tasks r (ap_tasks s)" if "in_id r \<noteq> i" for r
  proof -
    have "filter (\<lambda>k. tk_instance k = in_id r \<and> tk_status k = TaskOpen) (map f ks) = filter (\<lambda>k. tk_instance k = in_id r \<and> tk_status k = TaskOpen) ks"
      if "\<forall>k\<in>set ks. tk_instance k \<noteq> i \<longrightarrow> f k = k" for ks
      using that assms(2) \<open>in_id r \<noteq> i\<close> by (induction ks) auto
    from this [OF assms(3)] show ?thesis by (simp add: open_tasks_def)
  qed
  then have "settled (ap_tasks ?t) r = settled (ap_tasks s) r" if "in_id r \<noteq> i" for r using that by (simp add: settled_def)
  ultimately show ?thesis using assms(1) by (simp add: working_def)
qed

lemma close_task_working:
  assumes ok: "approval_ok s" and r: "r \<in> set (ap_instances s)" and k: "k \<in> set (ap_tasks s)" "tk_org k = org" "tk_instance k = in_id r" "tk_status k = TaskOpen"
    and run: "close_task org (tk_id k) out s = Inr (u, t)"
  shows "working (in_id r) t" "idle (in_id r) t" "ap_instances t = ap_instances s"
proof -
  let ?f = "\<lambda>x. if tk_org x = org \<and> tk_id x = tk_id k then x\<lparr>tk_status := TaskCompleted, tk_outcome := Some out, tk_completed := Some (clock (tables s))\<rparr> else x"
  have t: "t = s\<lparr>ap_tasks := map ?f (ap_tasks s)\<rparr>" using run by (simp add: close_task_def)
  have keys: "keys_ok s" using ok by (simp add: approval_ok_def)
  have this_one: "x = k" if "x \<in> set (ap_tasks s)" "tk_id x = tk_id k" for x using one_task [OF keys that(1) k(1) that(2)] .
  show "working (in_id r) t" unfolding t
    by (rule tasks_working [OF ok_working [OF ok]]) (use this_one k in auto)
  show "idle (in_id r) t"
    using open_is_one [OF ok r k(1,3,4)] k(2) by (auto simp: idle_def t)
  show "ap_instances t = ap_instances s" by (simp add: t)
qed

lemma end_instance_ok:
  assumes fr: "framed reg" and w: "working (in_id r) s" and r: "r \<in> set (ap_instances s)"
    and out: "out \<noteq> OutApproved"
    and run: "end_instance reg r out ctx s = Inr (r', t)"
  shows "approval_ok t" "in_status r' = ended_status out" "in_id r' = in_id r" "in_org r' = in_org r" "in_type r' = in_type r"
    "in_document r' = in_document r" "in_requester r' = in_requester r"
proof -
  let ?cancel = "\<lambda>k. if tk_org k = in_org r \<and> tk_instance k = in_id r \<and> tk_status k = TaskOpen
    then k\<lparr>tk_status := TaskCancelled, tk_completed := Some (clock (tables s))\<rparr> else k"
  let ?s1 = "s\<lparr>ap_tasks := map ?cancel (ap_tasks s)\<rparr>"
  have keys: "keys_ok s" using w by (simp add: working_def)
  have w1: "working (in_id r) ?s1" by (rule tasks_working [OF w]) auto
  have idle1: "idle (in_id r) ?s1" using keys r by (auto simp: idle_def keys_ok_def)
  from run obtain u where res: "r' = r\<lparr>in_route := map (end_entry (in_node r) out (oc_actor ctx)) (in_route r), in_status := ended_status out,
       in_node := None, in_finished := Some (clock (tables s))\<rparr>"
    and steps: "\<exists>s2 a. save_instance r' ?s1 = Inr ((), s2) \<and> adapter_for reg (in_type r) = Inr a \<and>
      da_outcome a (in_org r) (in_document r) out ctx s2 = Inr (u, t)"
    by (auto simp: end_instance_def cancel_tasks_def Let_def tx_bind_Inr tables_def cong: if_cong)
  from steps obtain s2 a where s2: "save_instance r' ?s1 = Inr ((), s2)" "adapter_for reg (in_type r) = Inr a"
    "da_outcome a (in_org r) (in_document r) out ctx s2 = Inr (u, t)" by blast
  have ids: "in_id r' = in_id r" "in_org r' = in_org r" by (simp_all add: res)
  have over: "in_status r' \<noteq> InRunning" "in_node r' = None"
    by (simp_all add: res ended_status_def split: document_outcome.splits)
  have "open_tasks r' (ap_tasks ?s1) = []" using idle_no_open [of r' ?s1] idle1 ids(1) by simp
  then have "settled (ap_tasks ?s1) r'" using over by (simp add: settled_def)
  then have  "approval_ok s2"
    by (intro save_working(1) [OF w1 _ _ _ ids(1) _ _ s2(1), where x = r]) (simp_all add: r ids(2) over(1))
  then show "approval_ok t" using calm_ok [OF tx_relD [OF adapter_calm(1) [OF fr s2(2)] s2(3)]] by simp
  show "in_status r' = ended_status out" "in_id r' = in_id r" "in_org r' = in_org r" "in_type r' = in_type r"
    "in_document r' = in_document r" "in_requester r' = in_requester r" by (simp_all add: res)
qed

end
