(* ===== verification/ApprovalSteps.thy ===== *)
theory ApprovalSteps
  imports ApprovalLaws
begin

text \<open>
  The operations of the approval engine as steps: each keeps the tables in order (\<open>approval_ok\<close>), so every
  reachable state has its running instances at exactly one open task.
\<close>

section \<open>Rows found\<close>

lemma instance_found:
  assumes "get_instance_row org i s = Inr (r, t)"
  shows "t = s" "r \<in> set (ap_instances s)" "in_org r = org" "in_id r = i"
  using assms by (auto simp: get_instance_row_def instance_at_def tx_bind_Inr tx_some_Inr find_Some_iff dest: nth_mem)

lemma task_found:
  assumes "find (\<lambda>k. tk_id k = task) (tasks_of org i s) = Some k"
  shows "k \<in> set (ap_tasks s)" "tk_id k = task" "tk_org k = org" "tk_instance k = i"
proof -
  have "k \<in> set (tasks_of org i s) \<and> tk_id k = task" using assms by (auto simp: find_Some_iff dest: nth_mem)
  then show "k \<in> set (ap_tasks s)" "tk_id k = task" "tk_org k = org" "tk_instance k = i" by (auto simp: tasks_of_def)
qed

section \<open>Each operation\<close>

lemma advance_ok:
  assumes fr: "framed reg" and ok: "approval_ok s" and run: "advance reg org i task ctx ds s = Inr (x, t)"
  shows "approval_ok t"
  using run unfolding advance_def Let_def
proof (elim tx_bindE, goal_cases)
  case (1 r s1 found s2 k s3 u s4 u2 s5 a s6 sn s7 v s8 nr s9)
  note r = instance_found [OF 1(1)]
  have k: "find (\<lambda>k. tk_id k = task) (tasks_of org i s) = Some k" "in_status r = InRunning" "tk_status k = TaskOpen" "s4 = s"
    using 1(2-4) r(1) by (auto simp: tx_some_Inr)
  note k' = task_found [OF k(1)]
  have s5: "working i s5" "idle i s5" "ap_instances s5 = ap_instances s"
    using close_task_working [OF ok r(2) k'(1,3) _ k(3), of TaskApproved u2 s5] 1(5) k(4) k'(2,4) r(4) by simp_all
  have s9: "s9 = s5"
    using 1(6,7) tx_relD [OF read_snapshot_reads 1(7)] tx_relD [OF get_row_reads(2) 1(8)] tx_relD [OF walk_from_reads 1(9)] by simp
  obtain n route where nr: "nr = (n, route)" by (cases nr)
  from 1(10) obtain u3 s10 where s10: "(if nd_kind n = EndNode
      then approve_instance reg (r\<lparr>in_route := map (complete_entry (tk_node k) (deciders (oc_actor ctx) task ds)) (in_route r), in_route := route\<rparr>) ctx
      else tx_bind (open_task reg (r\<lparr>in_route := map (complete_entry (tk_node k) (deciders (oc_actor ctx) task ds)) (in_route r), in_route := route\<rparr>) n sn) save_instance) s5
      = Inr (u3, s10)" "get_instance reg org i s10 = Inr (x, t)"
    by (auto simp: nr s9 tx_bind_Inr)
  have "approval_ok s10"
    using continue_ok [OF fr _ _ _ _ _ _ _ s10(1), of r] s5 r k(2) by simp
  then show ?case using tx_relD [OF get_instance_reads s10(2)] by simp
qed

lemma insert_decision_Inr:
  assumes "insert_decision d s = Inr (i, t)"
  obtains e where "dn_org e = dn_org d" "dn_task e = dn_task d" "dn_actor e = dn_actor d" "dn_behalf e = dn_behalf d" "dn_outcome e = dn_outcome d"
    "dn_instance e = dn_instance d" "dn_id e = i"
    "ap_decisions t = ap_decisions s @ [e]" "ap_instances t = ap_instances s" "ap_tasks t = ap_tasks s" "ap_delegations t = ap_delegations s"
    "next_uuid (tables s) \<le> next_uuid (tables t)"
proof (rule that)
  let ?e = "d\<lparr>dn_id := i, dn_at := clock (tables s)\<rparr>"
  show "ap_decisions t = ap_decisions s @ [?e]" "ap_instances t = ap_instances s" "ap_tasks t = ap_tasks s"
    "ap_delegations t = ap_delegations s" "next_uuid (tables s) \<le> next_uuid (tables t)"
    using assms by (auto simp: insert_decision_def tx_bind_Inr on_tables_fresh tables_def)
qed simp_all

text \<open>A decision not made before, or deciding no task, keeps the tables in order.\<close>

lemma insert_decision_ok:
  assumes ok: "approval_ok s" and new: "deciding (dn_outcome d) \<and> dn_task d \<noteq> None \<Longrightarrow>
      \<not> decided_already (dn_org d) (the (dn_task d)) (dn_actor d) (principal d) s"
    and run: "insert_decision d s = Inr (i, t)"
  shows "approval_ok t"
proof -
  obtain e where e: "dn_org e = dn_org d" "dn_task e = dn_task d" "dn_actor e = dn_actor d" "dn_behalf e = dn_behalf d" "dn_outcome e = dn_outcome d"
    "dn_instance e = dn_instance d" "dn_id e = i"
    "ap_decisions t = ap_decisions s @ [e]" "ap_instances t = ap_instances s" "ap_tasks t = ap_tasks s" "ap_delegations t = ap_delegations s"
    "next_uuid (tables s) \<le> next_uuid (tables t)"
    by (rule insert_decision_Inr [OF run])
  have "apart_decisions y e" if "y \<in> set (ap_decisions s)" for y
  proof -
    have "dn_actor y \<noteq> dn_actor e \<and> principal y \<noteq> principal e"
      if both: "deciding (dn_outcome y)" "deciding (dn_outcome e)" "dn_org y = dn_org e" "dn_task y = dn_task e" "dn_task y \<noteq> None"
    proof -
      obtain k where k: "dn_task y = Some k" using both(5) by auto
      have "\<not> decided_already (dn_org d) k (dn_actor d) (principal d) s" using new both k by (auto simp: e(1-5))
      then have "dn_actor y \<notin> {dn_actor d, principal d} \<and> dn_behalf y \<noteq> Some (principal d)"
        using that(1) \<open>y \<in> set (ap_decisions s)\<close> both k by (auto simp: decided_already_def list_ex_iff e(1-5))
      then show ?thesis by (auto simp: principal_def e(3,4) split: option.splits)
    qed
    then show ?thesis unfolding apart_decisions_def by metis
  qed
  then have "decisions_ok (ap_decisions t)" using ok by (simp add: e(8) decisions_ok_def approval_ok_def sorted_wrt_append)
  moreover have "keys_ok t" using ok e(9-12) by (auto simp: approval_ok_def keys_ok_def intro: less_le_trans)
  ultimately show ?thesis using ok e(9-11) by (simp add: approval_ok_def)
qed

lemma apply_decision_ok:
  assumes fr: "framed reg" and ok: "approval_ok s" and r: "r \<in> set (ap_instances s)" and k: "k \<in> set (ap_tasks s)" "tk_org k = in_org r" "tk_instance k = in_id r" "tk_status k = TaskOpen"
    and run: "apply_decision reg r k base ctx out s = Inr (r', t)"
  shows "approval_ok t" "in_id r' = in_id r" "in_org r' = in_org r"
proof -
  have goals: "approval_ok t \<and> in_id r' = in_id r \<and> in_org r' = in_org r"
  proof (cases "out = Reject \<or> out = ReturnIt")
    case True
    then obtain o1 o2 u s1 where s1: "close_task (in_org r) (tk_id k) o1 s = Inr (u, s1)" "end_instance reg r o2 ctx s1 = Inr (r', t)" "o2 \<noteq> OutApproved"
      using run by (auto simp: apply_decision_def tx_bind_Inr split: if_splits)
    have "working (in_id r) s1" "ap_instances s1 = ap_instances s"
      using close_task_working [OF ok r k s1(1)] by simp_all
    then show ?thesis using end_instance_ok [OF fr _ _ s1(3,2)] r by simp
  next
    case False
    show ?thesis
    proof (cases "out = Approve \<and> step_complete k (decisions_of (in_org r) (in_id r) s) base = Complete")
      case True
      then obtain y s1 where a: "advance reg (in_org r) (in_id r) (tk_id k) ctx (decisions_of (in_org r) (in_id r) s) s = Inr (y, s1)"
        "get_instance_row (in_org r) (in_id r) s1 = Inr (r', t)"
        using run by (auto simp: apply_decision_def tx_bind_Inr)
      then show ?thesis using advance_ok [OF fr ok a(1)] instance_found [OF a(2)] by simp
    next
      case no: False
      then show ?thesis using run False ok by (auto simp: apply_decision_def tx_bind_Inr split: if_splits)
    qed
  qed
  then show "approval_ok t" "in_id r' = in_id r" "in_org r' = in_org r" by simp_all
qed

text \<open>What the checks of a decision establish, and who decides.\<close>

lemma decision_checks_Inr:
  assumes "decision_checks reg org task actor body s = Inr ((r, k, a, sn, base, delegates, for_whom), t)"
  shows "t = s" "r \<in> set (ap_instances s)" "in_org r = org" "in_id r = tk_instance k" "in_status r = InRunning"
    "k \<in> set (ap_tasks s)" "tk_id k = task" "tk_org k = org" "tk_status k = TaskOpen"
    "for_whom = (if actor \<in> set base then None else map_of delegates actor)" "actor \<in> set base \<or> for_whom \<noteq> None"
    "dw_outcome body = Comment \<or> \<not> decided_already org task actor (case for_whom of None \<Rightarrow> actor | Some u \<Rightarrow> u) s"
    "adapter_for reg (in_type r) = Inr a" "da_snapshot a org (in_document r) s = Inr sn"
    "\<exists>n. effective_members reg r k n sn (clock (tables s)) s = Inr ((base, delegates), s)"
    "task_instance org task s = Inr (in_id r, s)" "instance_at org (in_id r) s = Some r"
proof -
  show t: "t = s" using tx_relD [OF checks_reads assms] by simp
  from assms obtain i n where c:
      "get_instance_row org i s = Inr (r, s)" "find (\<lambda>k. tk_id k = task) (tasks_of org i s) = Some k"
      "in_status r = InRunning" "tk_status k = TaskOpen" "adapter_for reg (in_type r) = Inr a"
      "effective_members reg r k n sn (clock (tables s)) s = Inr ((base, delegates), s)"
      "for_whom = (if actor \<in> set base then None else map_of delegates actor)" "actor \<in> set base \<or> for_whom \<noteq> None"
      "dw_outcome body = Comment \<or> \<not> decided_already org task actor (case for_whom of None \<Rightarrow> actor | Some u \<Rightarrow> u) s"
      "da_snapshot a org (in_document r) s = Inr sn" "task_instance org task s = Inr (i, s)"
    unfolding decision_checks_def Let_def
  proof (elim tx_bindE, goal_cases)
    case (1 i s1 r1 s2 found s3 k1 s4 u s5 a1 s6 sn1 s7 u2 s8 v s9 n s10 ts s11 bd s12)
    have ss: "s1 = s" "s2 = s" "s3 = s" "s4 = s" "s5 = s" "s6 = s" "s7 = s" "s8 = s" "s9 = s" "s10 = s" "s11 = s" "s12 = s"
      using tx_relD [OF task_instance_reads 1(2)] tx_relD [OF get_row_reads(1) 1(3)] 1(4-7) tx_relD [OF read_snapshot_reads 1(8)] 1(9)
        tx_relD [OF get_row_reads(2) 1(10)] 1(11,12) tx_relD [OF effective_reads 1(13)] by simp_all
    obtain b ds where bd: "bd = (b, ds)" by (cases bd)
    have "tx_rel (=) (case dw_project body of None \<Rightarrow> tx_return ()
        | Some _ \<Rightarrow> tx_bind (walk_from (wv_graph v) (nd_id n) sn1 []) (\<lambda>(m, _).
            tx_require (da_accepts_project a1 \<and> nd_kind m = EndNode) decision_invalid))"
      by (intro tx_branches reading.tx_ok walk_from_reads)
    note project = tx_relD [OF this]
    from 1(14) have "r1 = r \<and> k1 = k \<and> a1 = a \<and> sn1 = sn \<and> b = base \<and> ds = delegates \<and>
      for_whom = (if actor \<in> set b then None else map_of ds actor) \<and> (actor \<in> set b \<or> for_whom \<noteq> None) \<and>
      (dw_outcome body = Comment \<or> \<not> decided_already org task actor (case for_whom of None \<Rightarrow> actor | Some u \<Rightarrow> u) s)"
      unfolding bd prod.case ss
    proof (elim tx_bindE, goal_cases)
      case (1 u3 s13 u4 s14 again s15 u5 s16)
      have "s14 = s" using project [OF 1(2)] 1(1) by simp
      then show ?case using 1(1,3-5) by auto
    qed
    then have last: "r1 = r" "k1 = k" "a1 = a" "sn1 = sn" "b = base" "ds = delegates" and
      rest: "for_whom = (if actor \<in> set base then None else map_of delegates actor)" "actor \<in> set base \<or> for_whom \<noteq> None"
      "dw_outcome body = Comment \<or> \<not> decided_already org task actor (case for_whom of None \<Rightarrow> actor | Some u \<Rightarrow> u) s"
      by blast+
    have mem: "effective_members reg r k n sn (clock (tables s)) s = Inr ((base, delegates), s)" using 1(12,13) bd ss last by simp
    have snap: "da_snapshot a org (in_document r) s = Inr sn" using 1(8) ss last by (simp add: read_snapshot_def)
    show ?case by (rule 1(1) [OF _ _ _ _ _ mem rest snap]) (use 1(2-7) ss last in simp_all)
  qed
  show "r \<in> set (ap_instances s)" "in_org r = org" "in_id r = tk_instance k" "in_status r = InRunning"
    "k \<in> set (ap_tasks s)" "tk_id k = task" "tk_org k = org" "tk_status k = TaskOpen"
    using instance_found [OF c(1)] task_found [OF c(2)] c(3,4) by simp_all
  show "task_instance org task s = Inr (in_id r, s)" "instance_at org (in_id r) s = Some r"
    using c(1) c(11) instance_found(4) [OF c(1)] by (simp_all add: get_instance_row_def tx_bind_Inr)
  show "for_whom = (if actor \<in> set base then None else map_of delegates actor)" "actor \<in> set base \<or> for_whom \<noteq> None"
    "dw_outcome body = Comment \<or> \<not> decided_already org task actor (case for_whom of None \<Rightarrow> actor | Some u \<Rightarrow> u) s"
    "adapter_for reg (in_type r) = Inr a" "da_snapshot a org (in_document r) s = Inr sn" by (fact c)+
  show "\<exists>n. effective_members reg r k n sn (clock (tables s)) s = Inr ((base, delegates), s)" using c(6) by blast
qed

lemma prepare_calm:
  assumes "framed reg" "adapter_for reg dtype = Inr a"
  shows "tx_rel calm (prepare_document a r actor body)"
proof (cases "if dw_outcome body = Approve then da_prepare a else None")
  case None
  show ?thesis unfolding prepare_document_def None option.case by (intro calm.tx_ok)
next
  case (Some prepare)
  then have "da_prepare a = Some prepare" by (auto split: if_splits)
  then show ?thesis using adapter_calm(2) [OF assms] by (simp add: prepare_document_def Some)
qed

lemma decide_ok:
  assumes fr: "framed reg" and ok: "approval_ok s" and run: "decide reg org task actor body s = Inr (x, t)"
  shows "approval_ok t"
  using run unfolding decide_def
proof (elim tx_bindE, goal_cases)
  case (1 c s1)
  obtain r k a sn base delegates who where c: "c = (r, k, a, sn, base, delegates, who)" by (cases c)
  note k = decision_checks_Inr [OF 1(1) [unfolded c]]
  from 1(2) show ?case unfolding c prod.case
  proof (elim tx_bindE, goal_cases)
    case (1 listed s2 i s3 u s4 r' s5 u2 s6 ds s7 d s8 y s9)
    have s2: "s2 = s" using 1(1) k(1) by simp
    have "principal (new_decision r (Some task) actor who (if who = None then AsMember else AsDelegate) (dw_outcome body) (dw_reject body) (dw_comment body) (ss_version sn) listed)
      = (case who of None \<Rightarrow> actor | Some u \<Rightarrow> u)" by (cases who) (simp_all add: principal_def new_decision_def)
    then have ok3: "approval_ok s3"
      using insert_decision_ok [OF ok _ 1(2) [unfolded s2]] k(3,12) by (auto simp: new_decision_def deciding_def)
    obtain e where e: "ap_instances s3 = ap_instances s" "ap_tasks s3 = ap_tasks s"
      by (rule insert_decision_Inr [OF 1(2) [unfolded s2]]) blast
    have c4: "calm s3 s4" by (rule tx_relD [OF prepare_calm [OF fr k(13)] 1(3)])
    have "approval_ok s5"
      using apply_decision_ok(1) [OF fr calm_ok [OF c4 ok3] _ _ _ _ _ 1(4)] k e c4 by (simp add: calm_def)
    then have "approval_ok s6" by (rule calm_ok [OF tx_relD [OF decision_audit_calm 1(5)]])
    then show ?case
      using tx_relD [OF decisions_for_reads 1(6)] 1(7) tx_relD [OF get_instance_reads 1(8)] 1(9) by simp
  qed
qed

lemma withdraw_ok:
  assumes fr: "framed reg" and ok: "approval_ok s" and run: "withdraw reg org dtype doc actor reason s = Inr (x, t)"
  shows "approval_ok t"
  using run unfolding withdraw_def
proof (elim tx_bindE, goal_cases)
  case (1 found s1 r s2 a s3 sn s4 i s5 r' s6 u s7)
  have ss: "s4 = s" using 1(1-3) tx_relD [OF read_snapshot_reads 1(4)] by simp
  have r: "r \<in> set (ap_instances s)" using 1(1,2) by (auto simp: find_Some_iff dest: nth_mem)
  have ok5: "approval_ok s5"
    by (rule insert_decision_ok [OF ok _ 1(5) [unfolded ss]]) (simp add: new_decision_def deciding_def)
  obtain e where e: "ap_instances s5 = ap_instances s" by (rule insert_decision_Inr [OF 1(5) [unfolded ss]]) blast
  have "approval_ok s6" using end_instance_ok(1) [OF fr ok_working [OF ok5] _ _ 1(6)] r e by simp
  then have "approval_ok s7" by (rule calm_ok [OF tx_relD [OF decision_audit_calm 1(7)]])
  then show ?case using tx_relD [OF get_instance_reads 1(8)] by simp
qed

lemma withdraw_instance_ok:
  assumes fr: "framed reg" and ok: "approval_ok s" and run: "withdraw_instance reg org i actor comment s = Inr (x, t)"
  shows "approval_ok t"
  using run unfolding withdraw_instance_def
proof (elim tx_bindE, goal_cases)
  case (1 r s1 u s2 u2 s3)
  then show ?case using withdraw_ok [OF fr ok] tx_relD [OF get_row_reads(1) 1(1)] by simp
qed

lemma insert_instance_working:
  assumes ok: "approval_ok s" and fresh: "in_id r < next_uuid (tables s)" "in_id r \<notin> in_id ` set (ap_instances s)"
    and run: "insert_instance r s = Inr (u, t)"
  shows "working (in_id r) t" "idle (in_id r) t" "r \<in> set (ap_instances t)"
proof -
  have t: "t = s\<lparr>ap_instances := ap_instances s @ [r]\<rparr>" and none: "\<And>x. x \<in> set (ap_instances s) \<Longrightarrow> in_org x = in_org r \<Longrightarrow>
      in_type x = in_type r \<Longrightarrow> in_document x = in_document r \<Longrightarrow> in_status x \<noteq> InRunning"
    using run by (auto simp: insert_instance_def tx_bind_Inr list_ex_iff)
  have tasks: "tk_instance k \<noteq> in_id r" if "k \<in> set (ap_tasks s)" for k
  proof -
    have "tk_instance k \<in> in_id ` set (ap_instances s)" using that ok by (simp add: approval_ok_def keys_ok_def)
    then show ?thesis using fresh(2) by auto
  qed
  have "one_running (ap_instances t)" using ok none by (fastforce simp: t one_running_def approval_ok_def)
  moreover have "keys_ok t" using ok fresh tasks by (auto simp: t approval_ok_def keys_ok_def tables_def)
  ultimately show "working (in_id r) t" using ok by (auto simp: working_def approval_ok_def t)
  show "idle (in_id r) t" using tasks by (auto simp: idle_def t)
  show "r \<in> set (ap_instances t)" by (simp add: t)
qed

lemma start_ok:
  assumes fr: "framed reg" and ok: "approval_ok s" and run: "start_approval reg org dtype doc resume s = Inr (x, t)"
  shows "approval_ok t"
  using run unfolding start_approval_def Let_def
proof (elim tx_bindE, goal_cases)
  case (1 prior s1 u s2 a s3 sn s4 c s5)
  obtain v n route where c: "c = (v, n, route)" by (cases c)
  have "s4 = s" using 1(1-3) tx_relD [OF read_snapshot_reads 1(4)] by simp
  moreover have "s5 = s4" using 1(5) [unfolded c] by (cases resume) (auto dest: tx_relD [OF resume_reads] tx_relD [OF begin_reads])
  ultimately have s5: "s5 = s" by simp
  from 1(6) show ?case unfolding c prod.case s5
  proof (elim tx_bindE, goal_cases)
    case (1 i s6 ts s7 u2 s8 u3 s9)
    let ?r = "\<lparr>in_id = i, in_org = org, in_type = dtype, in_document = doc, in_workflow = wv_id v, in_version = ss_version sn,
       in_digest = material_digest sn, in_approved_digest = None, in_approved_version = None, in_requester = ss_requester sn,
       in_status = InRunning, in_node = None, in_route = [], in_started = ts, in_finished = None\<rparr>"
    have s7: "s7 = s6" using 1(2) by simp
    have i: "i = next_uuid (tables s)" "next_uuid (tables s6) = Suc i" "ap_instances s6 = ap_instances s"
      using 1(1) by (simp_all add: on_tables_fresh tables_def)
    have ok6: "approval_ok s6" by (rule calm_ok [OF tx_relD [OF on_tables_fresh_calm 1(1)] ok])
    have "i \<notin> in_id ` set (ap_instances s)"
      using ok i(1) by (auto simp: approval_ok_def keys_ok_def)
    then have new: "in_id ?r < next_uuid (tables s6)" "in_id ?r \<notin> in_id ` set (ap_instances s6)" using i by simp_all
    note w = insert_instance_working [OF ok6 new 1(3) [unfolded s7]]
    have "approval_ok s9" by (rule continue_ok [OF fr w _ _ _ _ 1(4)]) simp_all
    then show ?case using tx_relD [OF get_instance_reads 1(5)] by simp
  qed
qed

text \<open>Changes of tasks that keep them, of the instance in force, and of delegations.\<close>

lemma tasks_ok:
  assumes ok: "approval_ok s" and f: "\<And>k. tk_id (f k) = tk_id k \<and> tk_org (f k) = tk_org k \<and> tk_instance (f k) = tk_instance k \<and>
      tk_node (f k) = tk_node k \<and> tk_status (f k) = tk_status k"
  shows "approval_ok (s\<lparr>ap_tasks := map f (ap_tasks s)\<rparr>)"
proof -
  have "open_tasks r (map f ks) = map f (open_tasks r ks)" for r ks
    using f by (induction ks) (auto simp: open_tasks_def)
  then have "settled (map f (ap_tasks s)) r = settled (ap_tasks s) r" for r
    using f by (auto simp: settled_def map_eq_Cons_conv)
  moreover have "keys_ok (s\<lparr>ap_tasks := map f (ap_tasks s)\<rparr>)"
    using ok f by (auto simp: approval_ok_def keys_ok_def comp_def tables_def)
  ultimately show ?thesis using ok by (simp add: approval_ok_def)
qed

lemma delegation_audit_calm: "tx_rel calm (delegation_audit org actor action tt i)"
  unfolding delegation_audit_def by (intro calm.tx_ok audit_calm)

lemma reassign_ok:
  assumes ok: "approval_ok s" and run: "reassign_task reg org actor task users s = Inr (i, t)"
  shows "approval_ok t"
  using run unfolding reassign_task_def
proof (elim tx_bindE, goal_cases)
  case (1 i s1 r s2 found s3 k s4 u s5 a s6 sn s7 el s8 u2 s9 u3 s10 u4 s11)
  have s9: "s9 = s"
    using tx_relD [OF task_instance_reads 1(1)] tx_relD [OF get_row_reads(1) 1(2)] 1(3-6) tx_relD [OF read_snapshot_reads 1(7)]
      tx_relD [OF eligible_reads 1(8)] 1(9) by simp
  have "approval_ok s10" using tasks_ok [OF ok] 1(10) by (simp add: s9)
  then show ?case using calm_ok [OF tx_relD [OF delegation_audit_calm 1(11)]] 1(12) by simp
qed

lemma in_force_instance:
  assumes "in_force org dtype doc s = Some r"
  shows "r \<in> set (ap_instances s)" "in_org r = org" "in_type r = dtype" "in_document r = doc"
proof -
  have "r \<in> set (document_instances org dtype doc s)"
    using assms by (auto simp: in_force_def Let_def find_Some_iff split: option.splits list.splits dest: nth_mem)
  then show "r \<in> set (ap_instances s)" "in_org r = org" "in_type r = dtype" "in_document r = doc"
    by (auto simp: document_instances_def)
qed

text \<open>Saving an approved instance without reopening it keeps the tables in order.\<close>

lemma save_approved:
  assumes ok: "approval_ok s" and r: "r \<in> set (ap_instances s)" "in_status r = InApproved"
    and x: "in_id x = in_id r" "in_org x = in_org r" "in_status x \<noteq> InRunning" "in_node x = in_node r"
    and run: "save_instance x s = Inr (u, t)"
  shows "approval_ok t"
proof (rule save_working(1) [OF ok_working [OF ok] r(1) refl x(2) [symmetric] x(1) _ _ run])
  have "settled (ap_tasks s) r" using ok r by (simp add: approval_ok_def)
  then show "settled (ap_tasks s) x" using r(2) x by (simp add: settled_def open_tasks_def)
qed (use x(3) in simp)

lemma supersede_ok:
  assumes ok: "approval_ok s" and run: "supersede org dtype doc actor s = Inr (u, t)"
  shows "approval_ok t"
  using run unfolding supersede_def
proof (elim tx_bindE, goal_cases)
  case (1 found s1 u s2 r s3 u2 s4)
  have r: "in_force org dtype doc s = Some r" "in_status r = InApproved" "s3 = s" using 1(1-3) by auto
  have "approval_ok s4"
    by (rule save_approved [OF ok in_force_instance(1) [OF r(1)] r(2) _ _ _ _ 1(4) [unfolded r(3)]]) simp_all
  then show ?case by (rule calm_ok [OF tx_relD [OF delegation_audit_calm 1(5)]])
qed

lemma rebase_ok:
  assumes ok: "approval_ok s" and calm: "tx_rel calm mutate" and run: "rebase_digest reg org dtype doc mutate s = Inr (u, t)"
  shows "approval_ok t"
  using run unfolding rebase_digest_def
proof (elim tx_bindE, goal_cases)
  case (1 found s1 u s2)
  have c: "calm s s2" using tx_relD [OF calm 1(2)] 1(1) by simp
  show ?case
  proof (cases "\<exists>r. found = Some r \<and> in_status r = InApproved")
    case False
    then show ?thesis using 1(3) calm_ok [OF c ok] by (auto split: option.splits if_splits)
  next
    case True
    then obtain r where r: "found = Some r" "in_status r = InApproved" by blast
    from 1(3) obtain sn s3 where s3: "document_snapshot reg org dtype doc s2 = Inr (sn, s3)"
      "save_instance (r\<lparr>in_approved_digest := Some (material_digest sn)\<rparr>) s3 = Inr (u, t)"
      by (auto simp: r tx_bind_Inr)
    have "s3 = s2" using s3(1) by (auto simp: document_snapshot_def tx_bind_Inr dest: tx_relD [OF read_snapshot_reads])
    note saved = s3(2) [unfolded this]
    have "in_force org dtype doc s = Some r" using 1(1) r(1) by simp
    then have here: "r \<in> set (ap_instances s2)" using in_force_instance(1) c by (simp add: calm_def)
    show ?thesis by (rule save_approved [OF calm_ok [OF c ok] here r(2) _ _ _ _ saved]) (simp_all add: r(2))
  qed
qed

lemma create_delegation_ok:
  assumes ok: "approval_ok s" and run: "create_delegation reg org actor body s = Inr (d, t)"
  shows "approval_ok t"
  using run unfolding create_delegation_def Let_def
proof (elim tx_bindE, goal_cases)
  case (1 u s1 types s2 member s3 u2 s4 able s5 u3 s6 covering s7 u4 s8 i s9 ts s10 u5 s11 u6 s12)
  have "tx_rel (=) (delegate_holds_everything reg org (dc_delegate body) types)"
    unfolding delegate_holds_everything_def by (intro reading.tx_ok on_tables_reads holders_reads)
  from tx_relD [OF this 1(5)] have "s8 = s" using 1(1-4,6-8) by simp
  then have ok10: "approval_ok s10" using calm_ok [OF tx_relD [OF on_tables_fresh_calm 1(9)]] ok 1(10) by simp
  have "approval_ok s11"
    using ok10 1(11) by (auto simp: insert_delegation_def tx_bind_Inr approval_ok_def keys_ok_def tables_def delegations_ok_def
      sorted_wrt_append list_ex_iff periods_overlap_def)
  then show ?case using calm_ok [OF tx_relD [OF delegation_audit_calm 1(12)]] 1(13) by simp
qed

lemma revoke_delegation_ok:
  assumes ok: "approval_ok s" and run: "revoke_delegation org actor i admin s = Inr (d, t)"
  shows "approval_ok t"
  using run unfolding revoke_delegation_def
proof (elim tx_bindE, goal_cases)
  case (1 row s1 d s2 u s3)
  have ss: "s3 = s" using 1(1-3) by simp
  show ?case
  proof (cases "dg_revoked d = None")
    case False
    then show ?thesis using 1(4) ok by (simp add: ss)
  next
    case True
    then obtain ts u2 s4 where s4: "s4 = s\<lparr>ap_delegations := map (\<lambda>x. if dg_org x = org \<and> dg_id x = i
        then x\<lparr>dg_revoked := Some ts, dg_revoked_by := Some actor\<rparr> else x) (ap_delegations s)\<rparr>"
      "delegation_audit org actor ''approval.delegation.revoke'' ''approval_delegation'' i s4 = Inr (u2, t)"
      using 1(4) by (auto simp: tx_bind_Inr ss)
    have "approval_ok s4"
      using ok by (auto simp: s4(1) approval_ok_def keys_ok_def tables_def delegations_ok_def sorted_wrt_map elim!: sorted_wrt_mono_rel [rotated])
    then show ?thesis by (rule calm_ok [OF tx_relD [OF delegation_audit_calm s4(2)]])
  qed
qed

lemma escalate_ok:
  assumes ok: "approval_ok s" and run: "escalate org ts k s = Inr (n, t)"
  shows "approval_ok t"
proof (cases "escalates ts k")
  case False
  then show ?thesis using run ok by (simp add: escalate_def)
next
  case True
  then obtain a u s1 where s1: "on_tables (audit_write org a ''approval.escalated'' ''approval_task'' (Some (tk_id k)) None Success None) s1 = Inr (u, t)"
    "s1 = s\<lparr>ap_tasks := map (\<lambda>x. if tk_org x = org \<and> tk_id x = tk_id k \<and> tk_escalated x = None
      then x\<lparr>tk_escalated := Some ts\<rparr> else x) (ap_tasks s)\<rparr>"
    using run by (auto simp: escalate_def tx_bind_Inr)
  have "approval_ok s1" unfolding s1(2) by (rule tasks_ok [OF ok]) simp
  then show ?thesis by (rule calm_ok [OF tx_relD [OF audit_calm s1(1)]])
qed

lemma tx_each_keeps:
  assumes "\<And>x s y t. P s \<Longrightarrow> f x s = Inr (y, t) \<Longrightarrow> P t" "P s" "tx_each f xs s = Inr (ys, t)"
  shows "P t"
  using assms(2,3)
proof (induction xs arbitrary: s ys)
  case (Cons x xs)
  then show ?case using assms(1) by (auto simp: tx_bind_Inr) blast
qed simp

lemma escalate_tasks_ok:
  assumes ok: "approval_ok s" and run: "escalate_tasks org s = Inr (n, t)"
  shows "approval_ok t"
  using run unfolding escalate_tasks_def
proof (elim tx_bindE, goal_cases)
  case (1 ts s1 ks s2 ns s3)
  then show ?case using tx_each_keeps [where P = approval_ok, OF escalate_ok _ 1(3)] ok by simp
qed

section \<open>Reachable states\<close>

inductive approval_step :: "registry \<Rightarrow> approval_db \<Rightarrow> approval_db \<Rightarrow> bool" for reg where
  step_start: "start_approval reg org dtype doc resume s = Inr (x, t) \<Longrightarrow> approval_step reg s t"
| step_decide: "decide reg org task actor body s = Inr (y, t) \<Longrightarrow> approval_step reg s t"
| step_withdraw: "withdraw reg org dtype doc actor reason s = Inr (x, t) \<Longrightarrow> approval_step reg s t"
| step_withdraw_instance: "withdraw_instance reg org i actor note s = Inr (x, t) \<Longrightarrow> approval_step reg s t"
| step_reassign: "reassign_task reg org actor task users s = Inr (i, t) \<Longrightarrow> approval_step reg s t"
| step_delegate: "create_delegation reg org actor cover s = Inr (d, t) \<Longrightarrow> approval_step reg s t"
| step_revoke: "revoke_delegation org actor i admin s = Inr (d, t) \<Longrightarrow> approval_step reg s t"
| step_supersede: "supersede org dtype doc actor s = Inr (u, t) \<Longrightarrow> approval_step reg s t"
| step_rebase: "tx_rel calm mutate \<Longrightarrow> rebase_digest reg org dtype doc mutate s = Inr (u, t) \<Longrightarrow> approval_step reg s t"
| step_escalate: "escalate_tasks org s = Inr (n, t) \<Longrightarrow> approval_step reg s t"
| step_around: "calm s t \<Longrightarrow> approval_step reg s t"

inductive approval_reachable :: "registry \<Rightarrow> approval_db \<Rightarrow> bool" for reg where
  approval_empty: "ap_instances s = [] \<Longrightarrow> ap_tasks s = [] \<Longrightarrow> ap_decisions s = [] \<Longrightarrow> ap_delegations s = [] \<Longrightarrow> approval_reachable reg s"
| approval_next: "approval_reachable reg s \<Longrightarrow> approval_step reg s t \<Longrightarrow> approval_reachable reg t"

lemma approval_step_ok:
  assumes "framed reg" "approval_step reg s t" "approval_ok s"
  shows "approval_ok t"
  using assms(2,3)
  by (cases rule: approval_step.cases)
    (blast intro: start_ok [OF assms(1)] decide_ok [OF assms(1)] withdraw_ok [OF assms(1)] withdraw_instance_ok [OF assms(1)]
      reassign_ok create_delegation_ok revoke_delegation_ok supersede_ok rebase_ok escalate_tasks_ok calm_ok)+

lemma approval_reachable_ok:
  assumes "framed reg" "approval_reachable reg s"
  shows "approval_ok s"
  using assms(2)
proof induction
  case (approval_empty s)
  then show ?case by (simp add: approval_ok_def keys_ok_def one_running_def decisions_ok_def delegations_ok_def)
qed (rule approval_step_ok [OF assms(1)])

end
