(* ===== verification/ProjectApprovals.thy ===== *)
theory ProjectApprovals
  imports ApprovalSteps LifecycleLaws
begin

text \<open>
  Projects as approved documents: the adapter of \<open>modules/projects/approval.py\<close> over the lifecycle, and the
  submission of \<open>api/projects.py\<close>, which moves the project first and starts its approval last.
\<close>

section \<open>The adapter\<close>

definition project_material :: "project_row \<Rightarrow> (string \<times> string) list" where
  "project_material p =
     [(''bu_id'', decimal (p_bu p)), (''parent_id'', case p_parent p of None \<Rightarrow> ''None'' | Some i \<Rightarrow> decimal i),
      (''currency'', p_currency p), (''department_code'', p_department p), (''ledger_account_code'', p_account p)]"

definition project_target :: "uuid \<Rightarrow> target" where
  "project_target i = \<lparr>tg_kind = ScopeProject, tg_scope = i, tg_type = Some ''project'', tg_record = Some i, tg_by = None\<rparr>"

definition project_snapshot :: "uuid \<Rightarrow> uuid \<Rightarrow> approval_db \<Rightarrow> problem + snapshot" where
  "project_snapshot org doc s =
     (case find_project org doc (tables s) of
        None \<Rightarrow> Inl not_found
      | Some p \<Rightarrow>
          (case Option.bind (last_submission org doc (tables s)) se_actor of
             None \<Rightarrow> Inl (Problem Conflict None)
           | Some requester \<Rightarrow>
               Inr \<lparr>ss_version = int (p_version p), ss_requester = requester, ss_target = project_target doc,
                 ss_attributes = [], ss_material = project_material p\<rparr>))"

definition project_summary :: "uuid \<Rightarrow> uuid \<Rightarrow> approval_db \<Rightarrow> problem + string \<times> string" where
  "project_summary org doc s =
     (case find_project org doc (tables s) of
        None \<Rightarrow> Inl not_found
      | Some p \<Rightarrow> map_sum id (\<lambda>_. (p_number p, ''/projects/'' @ decimal doc)) (project_snapshot org doc s))"

text \<open>The adapter's answers; reading an instance asks for no more than these.\<close>

definition project_answers :: adapter where
  "project_answers = \<lparr>da_permission = ''project.approve'', da_accepts_project = False, da_snapshot = project_snapshot,
     da_summary = project_summary, da_outcome = (\<lambda>_ _ _ _. tx_return ()), da_prepare = None\<rparr>"

definition decision_comment :: "uuid \<Rightarrow> uuid \<Rightarrow> uuid \<Rightarrow> (approval_db, string option) tx" where
  "decision_comment org doc i =
     tx_bind (instances_for [(''project'', project_answers)] org ''project'' doc) (\<lambda>is.
     tx_bind (tx_each (\<lambda>r. decisions_for org (ir_id r)) is) (\<lambda>ds.
     tx_return (foldl (\<lambda>reason d. if dn_id (dr_row d) = i then dn_comment (dr_row d) else reason) None (concat ds))))"

definition project_outcome ::
  "document_counter list \<Rightarrow> uuid \<Rightarrow> uuid \<Rightarrow> document_outcome \<Rightarrow> outcome_context \<Rightarrow> (approval_db, unit) tx" where
  "project_outcome fs org doc out ctx =
     tx_bind (case oc_decision ctx of None \<Rightarrow> tx_return None | Some i \<Rightarrow> decision_comment org doc i) (\<lambda>reason.
     tx_bind (on_tables (approval_outcome fs org (Some (oc_actor ctx)) doc (if out = OutApproved then Active else Draft) reason)) (\<lambda>_.
     tx_return ()))"

definition project_adapter :: "document_counter list \<Rightarrow> adapter" where
  "project_adapter fs = project_answers\<lparr>da_outcome := project_outcome fs\<rparr>"

section \<open>Submission\<close>

definition approval_running :: "uuid \<Rightarrow> uuid \<Rightarrow> approval_db \<Rightarrow> bool" where
  "approval_running org doc s \<longleftrightarrow>
     list_ex (\<lambda>r. in_org r = org \<and> in_type r = ''project'' \<and> in_document r = doc \<and> in_status r = InRunning) (ap_instances s)"

definition workflow_published :: "uuid \<Rightarrow> uuid \<Rightarrow> approval_db \<Rightarrow> bool" where
  "workflow_published org bu s \<longleftrightarrow>
     (case resolve_version org ''project'' (Some bu) s of Inr (Some v, _) \<Rightarrow> True | _ \<Rightarrow> False)"

definition transition_project ::
  "registry \<Rightarrow> document_counter list \<Rightarrow> uuid \<Rightarrow> uuid \<Rightarrow> uuid \<Rightarrow> transition_create \<Rightarrow> if_match \<Rightarrow> (string \<Rightarrow> bool) \<Rightarrow> (approval_db, project_row) tx" where
  "transition_project reg fs org actor pid body version permitted =
     tx_bind (\<lambda>s. on_tables (transition (\<lambda>o1 d _. approval_running o1 d s) (\<lambda>o1 b _. workflow_published o1 b s)
       fs org (Some actor) pid body version permitted) s) (\<lambda>_.
     tx_bind (if tc_to body = ApprovalPending
              then tx_bind (start_approval reg org ''project'' pid None) (\<lambda>_. tx_return ()) else tx_return ()) (\<lambda>_.
     on_tables (get_project org pid)))"

section \<open>The adapter leaves the engine's tables alone\<close>

lemma instances_for_reads: "tx_rel (=) (instances_for reg org dtype doc)"
  unfolding instances_for_def by (intro reading.tx_ok get_instance_reads)

lemma decision_comment_reads: "tx_rel (=) (decision_comment org doc i)"
  unfolding decision_comment_def by (intro reading.tx_ok instances_for_reads decisions_for_reads)

lemma on_tables_Inr: "on_tables m s = Inr (x, t) \<longleftrightarrow> (\<exists>d. m (tables s) = Inr (x, d) \<and> t = s\<lparr>ap_work := (ap_work s)\<lparr>w_db := d\<rparr>\<rparr>)"
  by (auto simp: on_tables_def on_work_def on_db_def tables_def split: sum.splits prod.splits)

text \<open>The outcome of an approval moves the project, and nothing of the approvals.\<close>

lemma project_outcome_Inr:
  assumes "project_outcome fs org doc out ctx s = Inr (u, t)"
  obtains p where "projects (tables s) doc = Some p" "p_org p = org" "p_status p = ApprovalPending"
    "moved org doc p (if out = OutApproved then Active else Draft) (tables s) (tables t)" "calm s t"
  using assms unfolding project_outcome_def
proof (elim tx_bindE, goal_cases)
  case (1 reason s1 q s2)
  have s1: "s1 = s" using 1(2) tx_relD [OF decision_comment_reads, of _ _ _ s reason s1] by (cases "oc_decision ctx") auto
  obtain d where d: "approval_outcome fs org (Some (oc_actor ctx)) doc (if out = OutApproved then Active else Draft) reason (tables s) = Inr (q, d)"
    "t = s\<lparr>ap_work := (ap_work s)\<lparr>w_db := d\<rparr>\<rparr>"
    using 1(3,4) by (auto simp: on_tables_Inr s1)
  obtain p where p: "projects (tables s) doc = Some p" "p_org p = org" "p_status p = ApprovalPending"
    "moved org doc p (if out = OutApproved then Active else Draft) (tables s) d"
    by (rule approval_outcome_Inr [OF d(1)])
  show ?case by (rule 1(1) [OF p(1-3)]) (use p(4) in \<open>auto simp: d(2) tables_def calm_def moved_def\<close>)
qed

lemma project_outcome_calm: "tx_rel calm (project_outcome fs org doc out ctx)"
  by (auto simp: tx_rel_def elim: project_outcome_Inr)

lemma projects_framed: "framed [(''project'', project_adapter fs)]"
  by (simp add: framed_def project_adapter_def project_answers_def project_outcome_calm)

end
