(* ===== verification/ApprovalSamples.thy ===== *)
theory ApprovalSamples
  imports ProjectApprovals
begin

text \<open>
  Approvals run by the kernel: notes of organization 2, which two members approve together, and project 100,
  submitted by user 9, which user 8 decides.
\<close>

section \<open>Notes\<close>

definition sample_node :: "string \<Rightarrow> node_kind \<Rightarrow> mode \<Rightarrow> node" where
  "sample_node i k m = \<lparr>nd_id = i, nd_kind = k, nd_name = None, nd_approvers = (if k = ApprovalNode then Some PermissionApprovers else None),
     nd_mode = (if k = ApprovalNode then Some m else None), nd_due = None, nd_escalate_after = None, nd_escalate_to = None, nd_repeat = False\<rparr>"

definition sample_edge :: "string \<Rightarrow> string \<Rightarrow> edge" where
  "sample_edge a b = \<lparr>ed_from = a, ed_to = b, ed_when = None, ed_default = False\<rparr>"

definition one_step :: "mode \<Rightarrow> graph" where
  "one_step m = \<lparr>g_nodes = [sample_node ''s'' StartNode m, sample_node ''m'' ApprovalNode m, sample_node ''e'' EndNode m],
     g_edges = [sample_edge ''s'' ''m'', sample_edge ''m'' ''e'']\<rparr>"

definition note_target :: target where
  "note_target = \<lparr>tg_kind = ScopeOrg, tg_scope = 2, tg_type = None, tg_record = None, tg_by = None\<rparr>"

definition note_adapter :: adapter where
  "note_adapter = \<lparr>da_permission = ''n.a'', da_accepts_project = False,
     da_snapshot = (\<lambda>_ _ _. Inr \<lparr>ss_version = 1, ss_requester = 9, ss_target = note_target, ss_attributes = [], ss_material = []\<rparr>),
     da_summary = (\<lambda>_ _ _. Inr ([], [])), da_outcome = (\<lambda>_ _ _ _. tx_return ()), da_prepare = None\<rparr>"

definition note_registry :: registry where
  "note_registry = [(''note'', note_adapter)]"

lemma notes_framed: "framed note_registry"
  by (auto simp: framed_def note_registry_def note_adapter_def intro: calm.tx_ok)

definition sample_grant :: "uuid \<Rightarrow> uuid \<Rightarrow> grant_row" where
  "sample_grant i user = \<lparr>gr_id = i, gr_org = 2, gr_user = user, gr_role = 300, gr_kind = ScopeOrg, gr_scope = 2, gr_by = None, gr_at = 0, gr_from = None\<rparr>"

definition people :: "uuid list \<Rightarrow> string \<Rightarrow> db \<Rightarrow> db" where
  "people us p s = s\<lparr>
     identities := map (\<lambda>i. \<lparr>idn_id = i, idn_email = ''u'', idn_active = True, idn_deactivated = None, idn_privileged = 0, idn_password = ''$argon2id$x''\<rparr>) (9 # us),
     members := map (\<lambda>i. \<lparr>mb_identity = i, mb_org = 2, mb_used = None\<rparr>) (9 # us),
     role_rows := [\<lparr>ro_id = 300, ro_org = 2, ro_code = ''a'', ro_name = ''A'', ro_system = True\<rparr>],
     role_permissions := [(2, 300, p)],
     user_roles := map (\<lambda>i. sample_grant (300 + i) i) us\<rparr>"

definition fresh_approvals :: "db \<Rightarrow> string \<Rightarrow> mode \<Rightarrow> approval_db" where
  "fresh_approvals d dtype m = \<lparr>ap_work = \<lparr>w_db = d, w_jobs = [], w_outbox = []\<rparr>,
     ap_definitions = [\<lparr>wd_id = 600, wd_org = 2, wd_type = dtype, wd_unit = False, wd_scope = 2, wd_retired = None\<rparr>],
     ap_versions = [\<lparr>wv_id = 601, wv_org = 2, wv_definition = 600, wv_number = 1, wv_status = VersionPublished, wv_graph = one_step m\<rparr>],
     ap_instances = [], ap_tasks = [], ap_decisions = [], ap_delegations = []\<rparr>"

definition ran :: "(approval_db, 'a) tx \<Rightarrow> approval_db \<Rightarrow> approval_db" where
  "ran m s = (case m s of Inl e \<Rightarrow> s | Inr (x, t) \<Rightarrow> t)"

definition sample_decision :: "verdict_kind \<Rightarrow> int \<Rightarrow> decision_write" where
  "sample_decision out v = \<lparr>dw_outcome = out, dw_reject = None, dw_comment = None, dw_version = v, dw_project = None, dw_substitutions = None\<rparr>"

definition no_notes :: approval_db where
  "no_notes = fresh_approvals (people [6, 7, 8] ''n.a'' empty_db) ''note'' AllMode"

text \<open>Who may decide does not change with the approvals.\<close>

definition same_people :: "approval_db \<Rightarrow> bool" where
  "same_people s \<longleftrightarrow> (\<exists>n rows. tables s = (people [6, 7, 8] ''n.a'' empty_db)\<lparr>next_uuid := n, audits := rows\<rparr>)"

lemma people_holders:
  "(case holders 2 ''n.a'' note_target (people [6, 7, 8] ''n.a'' empty_db) of Inr (us, t) \<Rightarrow> us = [6, 7, 8] | _ \<Rightarrow> False)"
  "(case separation_applies 2 note_target (people [6, 7, 8] ''n.a'' empty_db) of Inr (b, t) \<Rightarrow> b | _ \<Rightarrow> False)"
  by code_simp+

lemma note_eligible:
  assumes "same_people s"
  shows "eligible_approvers note_registry 2 ''note'' PermissionApprovers note_target (Some 9) s = Inr (\<lparr>el_members = [6, 7, 8], el_excluded = []\<rparr>, s)"
proof -
  obtain n rows where s: "tables s = (people [6, 7, 8] ''n.a'' empty_db)\<lparr>next_uuid := n, audits := rows\<rparr>"
    using assms by (auto simp: same_people_def)
  have "holders 2 ''n.a'' note_target (tables s) = Inr ([6, 7, 8], tables s)"
    using people_holders(1)
    by (auto simp: s holders_def holders_where_def tx_eval eligible_grants_def active_identity_def identity_at_def role_at_def
        cong: option.case_cong split: sum.splits)
  moreover have "separation_applies 2 note_target (tables s) = Inr (True, tables s)"
    using people_holders(2) by (auto simp: s separation_applies_def note_target_def tx_eval)
  ultimately show ?thesis
    by (simp add: eligible_approvers_def tx_eval on_tables_def on_work_def on_db_def tables_def approve_permission_def adapter_for_def
        note_registry_def note_adapter_def)
qed

definition note_snapshot :: snapshot where
  "note_snapshot = \<lparr>ss_version = 1, ss_requester = 9, ss_target = note_target, ss_attributes = [], ss_material = []\<rparr>"

lemma note_node:
  "node_at (one_step AllMode) ''m'' = Some (sample_node ''m'' ApprovalNode AllMode)"
  "node_at (one_step AllMode) ''s'' = Some (sample_node ''s'' StartNode AllMode)"
  "start_id (one_step AllMode) = Some ''s''"
  by code_simp+

lemma note_walks:
  "walk_from (one_step AllMode) ''s'' note_snapshot [] s = Inr ((sample_node ''m'' ApprovalNode AllMode, []), s)"
  "walk_from (one_step AllMode) ''m'' note_snapshot route s = Inr ((sample_node ''e'' EndNode AllMode, route), s)"
  by (simp_all add: walk_from_def walk_def walk_loop.simps choose_edge_def describe_taken_def node_at_def one_step_def sample_node_def
      sample_edge_def tx_eval)

lemma note_adapter_facts:
  "adapter_for note_registry ''note'' = Inr note_adapter" "da_snapshot note_adapter org doc s = Inr note_snapshot"
  "da_accepts_project note_adapter = False" "da_outcome note_adapter org doc out ctx = tx_return ()" "da_prepare note_adapter = None"
  "da_summary note_adapter org doc s = Inr ([], [])"
  by (simp_all add: adapter_for_def note_registry_def note_adapter_def note_snapshot_def)

lemma note_emails:
  assumes "same_people s"
  shows "member_email 2 s 6 = Some ''u''" "member_email 2 s 7 = Some ''u''" "member_email 2 s 8 = Some ''u''" "member_email 2 s 9 = Some ''u''"
    "identity_email 9 (tables s) = Some ''u''" "email_or_removed s 6 = ''u''" "email_or_removed s 7 = ''u''" "email_or_removed s 8 = ''u''" "clock (tables s) = 0"
  using assms by (auto simp: same_people_def member_email_def identity_email_def people_def email_or_removed_def identity_at_def empty_db_def)

lemma note_step:
  assumes "same_people s" "earlier_deciders route ''m'' = []"
  shows "\<exists>x. make_step note_registry 2 ''note'' (Some 9) route (sample_node ''m'' ApprovalNode AllMode) note_snapshot st due s = Inr (x, s) \<and>
    rs_emails x = [''u'', ''u'', ''u''] \<and> rs_label x = ''m'' \<and> rs_mode x = AllMode \<and> rs_node x = ''m''"
  using assms note_eligible [OF assms(1)] note_emails [OF assms(1)]
  by (simp add: make_step_def current_members_def tx_eval sample_node_def note_snapshot_def node_label_def Let_def)

definition note_row :: instance_row where
  "note_row = \<lparr>in_id = 1000, in_org = 2, in_type = ''note'', in_document = 50, in_workflow = 601, in_version = 1, in_digest = [],
     in_approved_digest = None, in_approved_version = None, in_requester = 9, in_status = InRunning, in_node = Some ''m'',
     in_route = [Step ''m'' OpenStep None None], in_started = 0, in_finished = None\<rparr>"

definition note_task :: task_row where
  "note_task = \<lparr>tk_id = 1001, tk_org = 2, tk_instance = 1000, tk_node = ''m'', tk_name = ''m'', tk_rule = PermissionApprovers, tk_mode = AllMode,
     tk_repeat = False, tk_status = TaskOpen, tk_outcome = None, tk_created = 0, tk_due = None, tk_completed = None, tk_escalated = None,
     tk_escalation = None\<rparr>"

definition with_db :: "(db \<Rightarrow> db) \<Rightarrow> approval_db \<Rightarrow> approval_db" where
  "with_db f s = s\<lparr>ap_work := (ap_work s)\<lparr>w_db := f (tables s)\<rparr>\<rparr>"

definition note_sent :: approval_db where
  "note_sent = (with_db (\<lambda>d. d\<lparr>next_uuid := 1002\<rparr>) no_notes)\<lparr>ap_instances := [note_row], ap_tasks := [note_task]\<rparr>"

lemma same_people_with: "same_people s \<Longrightarrow> same_people (with_db (\<lambda>d. d\<lparr>next_uuid := n\<rparr>) s)"
proof -
  assume "same_people s"
  then obtain k rows where "tables s = (people [6, 7, 8] ''n.a'' empty_db)\<lparr>next_uuid := k, audits := rows\<rparr>"
    by (auto simp: same_people_def)
  then have "tables (with_db (\<lambda>d. d\<lparr>next_uuid := n\<rparr>) s) = (people [6, 7, 8] ''n.a'' empty_db)\<lparr>next_uuid := n, audits := rows\<rparr>"
    by (simp add: with_db_def tables_def)
  then show ?thesis unfolding same_people_def by blast
qed

lemma same_people_fields [simp]:
  "same_people (s\<lparr>ap_instances := x\<rparr>) = same_people s" "same_people (s\<lparr>ap_tasks := y\<rparr>) = same_people s"
  "same_people (s\<lparr>ap_decisions := z\<rparr>) = same_people s" "same_people (s\<lparr>ap_delegations := v\<rparr>) = same_people s"
  by (simp_all add: same_people_def tables_def)

lemma no_notes_people: "same_people no_notes"
  by (auto simp: same_people_def no_notes_def fresh_approvals_def tables_def people_def empty_db_def)

lemma tables_fields [simp]:
  "tables (s\<lparr>ap_instances := x\<rparr>) = tables s" "tables (s\<lparr>ap_tasks := y\<rparr>) = tables s"
  "tables (s\<lparr>ap_decisions := z\<rparr>) = tables s" "tables (s\<lparr>ap_delegations := v\<rparr>) = tables s"
  by (simp_all add: tables_def)

lemma note_reads:
  assumes "same_people s" "ap_versions s = ap_versions no_notes" "ap_instances s = [r]" "in_org r = 2" "in_id r = 1000" "in_type r = ''note''"
    "in_workflow r = 601" "in_requester r = 9" "ap_tasks s = [k]" "tk_org k = 2" "tk_instance k = 1000" "tk_node k = ''m''" "tk_rule k = PermissionApprovers"
    "\<exists>st us. in_route r = [Step ''m'' st us None]"
  shows "\<exists>x. get_instance note_registry 2 1000 s = Inr (x, s)"
proof -
  obtain st us where route: "in_route r = [Step ''m'' st us None]" using assms(14) by blast
  have same: "(sample_node ''m'' ApprovalNode AllMode)\<lparr>nd_approvers := Some PermissionApprovers\<rparr> = sample_node ''m'' ApprovalNode AllMode"
    by (simp add: sample_node_def)
  have steps: "\<exists>x. make_step note_registry 2 ''note'' (Some 9) (in_route r) (sample_node ''m'' ApprovalNode AllMode) note_snapshot st due s = Inr (x, s) \<and>
      rs_node x = ''m''" for st due
    using note_step [OF assms(1), of "in_route r" st due] by (auto simp: route earlier_deciders_def entry_node_def)
  obtain x where x: "make_step note_registry 2 ''note'' (Some 9) (in_route r) (sample_node ''m'' ApprovalNode AllMode) note_snapshot st (tk_due k) s = Inr (x, s)" "rs_node x = ''m''"
    using steps by blast
  have version: "get_version 2 601 s = Inr (hd (ap_versions no_notes), s)" "wv_graph (hd (ap_versions no_notes)) = one_step AllMode"
    by (simp_all add: get_version_def version_at_def assms(2) no_notes_def fresh_approvals_def tx_eval)
  show ?thesis
    using assms(3-14) x version note_emails [OF assms(1)]
    by (simp add: get_instance_def get_instance_row_def instance_at_def tx_eval note_adapter_facts read_snapshot_def tasks_of_def
        route entry_step_def List.map_filter_def read_entry_def Let_def task_of_node_def note_node sample_node_def [of "''m''"] same [unfolded sample_node_def])
qed

lemma note_begins: "begin_at 2 ''note'' note_snapshot no_notes = Inr ((hd (ap_versions no_notes), sample_node ''m'' ApprovalNode AllMode, []), no_notes)"
  by (simp add: begin_at_def document_unit_def note_snapshot_def note_target_def resolve_version_def live_version_def no_notes_def fresh_approvals_def tx_eval
      note_node note_walks [unfolded note_snapshot_def note_target_def])

lemma note_start: "\<exists>x. start_approval note_registry 2 ''note'' 50 None no_notes = Inr (x, note_sent)"
proof -
  let ?s1 = "(with_db (\<lambda>d. d\<lparr>next_uuid := 1001\<rparr>) no_notes)\<lparr>ap_instances := [note_row\<lparr>in_node := None, in_route := []\<rparr>]\<rparr>"
  have fresh: "next_uuid (tables no_notes) = 1000" "ap_instances no_notes = []" "ap_tasks no_notes = []"
    by (simp_all add: no_notes_def fresh_approvals_def tables_def people_def empty_db_def)
  have "same_people ?s1" using same_people_with [OF no_notes_people] by simp
  from note_step [OF this, of "[]" OpenStep None] obtain x where x:
    "make_step note_registry 2 ''note'' (Some 9) [] (sample_node ''m'' ApprovalNode AllMode) note_snapshot OpenStep None ?s1 = Inr (x, ?s1)"
    "rs_emails x = [''u'', ''u'', ''u'']" "rs_label x = ''m''" "rs_mode x = AllMode"
    by (auto simp: earlier_deciders_def)
  have sent: "\<exists>x. get_instance note_registry 2 1000 note_sent = Inr (x, note_sent)"
    by (rule note_reads [of _ note_row note_task])
      (use same_people_with [OF no_notes_people] in \<open>simp_all add: note_sent_def note_row_def note_task_def with_db_def\<close>)
  let ?s0 = "with_db (\<lambda>d. d\<lparr>next_uuid := 1001\<rparr>) no_notes"
  let ?r = "note_row\<lparr>in_node := None, in_route := []\<rparr>"
  have s0: "on_tables fresh_uuid no_notes = Inr (1000, ?s0)" "clock (tables ?s0) = 0" "ap_instances ?s0 = []" "ap_tasks ?s0 = []"
    using fresh note_emails(9) [OF no_notes_people]
    by (auto simp: on_tables_fresh with_db_def tables_def)
  have row: "\<lparr>in_id = 1000, in_org = 2, in_type = ''note'', in_document = 50, in_workflow = wv_id (hd (ap_versions no_notes)),
      in_version = ss_version note_snapshot, in_digest = material_digest note_snapshot, in_approved_digest = None, in_approved_version = None,
      in_requester = ss_requester note_snapshot, in_status = InRunning, in_node = None, in_route = [], in_started = 0, in_finished = None\<rparr> = ?r"
    by (simp add: note_row_def no_notes_def fresh_approvals_def note_snapshot_def material_digest_def)
  have s1: "insert_instance ?r ?s0 = Inr ((), ?s1)" using s0(3) by (simp add: insert_instance_def tx_eval tx_require_def)
  have fresh1: "on_tables fresh_uuid ?s1 = Inr (1001, note_sent\<lparr>ap_tasks := [], ap_instances := [?r]\<rparr>)"
    using s0 by (simp add: on_tables_fresh note_sent_def with_db_def tables_def)
  have node: "nd_kind (sample_node ''m'' ApprovalNode AllMode) = ApprovalNode" "nd_due (sample_node ''m'' ApprovalNode AllMode) = None"
    "nd_approvers (sample_node ''m'' ApprovalNode AllMode) = Some PermissionApprovers" "nd_id (sample_node ''m'' ApprovalNode AllMode) = ''m''"
    "nd_repeat (sample_node ''m'' ApprovalNode AllMode) = False" "nd_escalate_after (sample_node ''m'' ApprovalNode AllMode) = None"
    by (simp_all add: sample_node_def)
  have opened: "open_task note_registry ?r (sample_node ''m'' ApprovalNode AllMode) note_snapshot ?s1 =
      Inr (note_row, note_sent\<lparr>ap_instances := [?r]\<rparr>)"
    using x s0 fresh1 by (simp add: open_task_def tx_eval tx_require_def tx_some_def node note_row_def note_task_def note_sent_def Let_def)
  have saved: "save_instance note_row (note_sent\<lparr>ap_instances := [?r]\<rparr>) = Inr ((), note_sent)"
    by (simp add: save_instance_def tx_eval note_row_def note_sent_def)
  show ?thesis
    using sent fresh note_begins s0 row s1 opened saved
    by (simp add: start_approval_def tx_eval document_instances_def note_adapter_facts read_snapshot_def node Let_def)
qed

text \<open>The note before a decision, with whatever was decided of it.\<close>

definition note_open :: "approval_db \<Rightarrow> bool" where
  "note_open s \<longleftrightarrow> same_people s \<and> ap_versions s = ap_versions no_notes \<and> ap_instances s = [note_row] \<and> ap_tasks s = [note_task] \<and>
     ap_delegations s = []"

lemma note_checks:
  assumes s: "note_open s" and b: "actor \<in> {7, 8}" "dw_version body = 1" "dw_project body = None" "\<not> decided_already 2 1001 actor actor s"
  shows "decision_checks note_registry 2 1001 actor body s = Inr ((note_row, note_task, note_adapter, note_snapshot, [6, 7, 8], [], None), s)"
proof -
  have p: "same_people s" using s by (simp add: note_open_def)
  have node: "task_node note_task (sample_node ''m'' ApprovalNode AllMode) = sample_node ''m'' ApprovalNode AllMode"
    "nd_approvers (sample_node ''m'' ApprovalNode AllMode) = Some PermissionApprovers" "nd_id (sample_node ''m'' ApprovalNode AllMode) = ''m''"
    "nd_repeat (sample_node ''m'' ApprovalNode AllMode) = False"
    by (simp_all add: task_node_def sample_node_def note_task_def)
  have row: "in_org note_row = 2" "in_type note_row = ''note''" "in_requester note_row = 9" "in_status note_row = InRunning" "in_document note_row = 50"
    "in_workflow note_row = 601" "in_id note_row = 1000" "tk_status note_task = TaskOpen" "tk_node note_task = ''m''" "tk_escalation note_task = None"
    "tk_instance note_task = 1000" "tk_id note_task = 1001" "tk_org note_task = 2" "tk_repeat note_task = False"
    "earlier_deciders (in_route note_row) ''m'' = []"
    by (simp_all add: note_row_def note_task_def earlier_deciders_def entry_node_def)
  have "current_members note_registry 2 ''note'' (Some 9) (in_route note_row) (sample_node ''m'' ApprovalNode AllMode) note_snapshot s =
      Inr (\<lparr>el_members = [6, 7, 8], el_excluded = []\<rparr>, s)"
    using note_eligible [OF p] by (simp add: current_members_def tx_eval node row note_snapshot_def Let_def tx_some_def)
  then have members: "effective_members note_registry note_row note_task (sample_node ''m'' ApprovalNode AllMode) note_snapshot ts s = Inr (([6, 7, 8], []), s)" for ts
    using s by (simp add: effective_members_def active_delegates_def tx_eval Let_def node row note_open_def)
  have version: "get_version 2 601 s = Inr (hd (ap_versions no_notes), s)" "wv_graph (hd (ap_versions no_notes)) = one_step AllMode"
    using s by (simp_all add: note_open_def get_version_def version_at_def no_notes_def fresh_approvals_def tx_eval)
  have found: "task_instance 2 1001 s = Inr (1000, s)" "get_instance_row 2 1000 s = Inr (note_row, s)"
    "find (\<lambda>k. tk_id k = 1001) (tasks_of 2 1000 s) = Some note_task"
    using s by (simp_all add: note_open_def task_instance_def get_instance_row_def instance_at_def tasks_of_def tx_eval row)
  show ?thesis
    using b found version members
    by (auto simp: decision_checks_def tx_eval tx_require_def tx_some_def row note_adapter_facts read_snapshot_def note_node Let_def
        note_snapshot_def [THEN arg_cong [of _ _ ss_version]])
qed

lemma note_open_sent: "note_open note_sent" "ap_decisions note_sent = []"
proof -
  have none: "ap_decisions (with_db f no_notes) = []" "ap_delegations (with_db f no_notes) = []"
    "ap_versions (with_db f no_notes) = ap_versions no_notes" for f
    by (simp_all add: with_db_def no_notes_def fresh_approvals_def)
  show "note_open note_sent" "ap_decisions note_sent = []"
    using same_people_with [OF no_notes_people, of 1002] none by (simp_all add: note_open_def note_sent_def)
qed

lemma same_people_audits: "same_people s \<Longrightarrow> same_people (with_db (\<lambda>d. d\<lparr>audits := rows\<rparr>) s)"
proof -
  assume "same_people s"
  then obtain k old where "tables s = (people [6, 7, 8] ''n.a'' empty_db)\<lparr>next_uuid := k, audits := old\<rparr>"
    by (auto simp: same_people_def)
  then have "tables (with_db (\<lambda>d. d\<lparr>audits := rows\<rparr>) s) = (people [6, 7, 8] ''n.a'' empty_db)\<lparr>next_uuid := k, audits := rows\<rparr>"
    by (simp add: with_db_def tables_def)
  then show ?thesis unfolding same_people_def by blast
qed

lemma with_db_fields [simp]:
  "ap_instances (with_db f s) = ap_instances s" "ap_tasks (with_db f s) = ap_tasks s" "ap_decisions (with_db f s) = ap_decisions s"
  "ap_delegations (with_db f s) = ap_delegations s" "ap_versions (with_db f s) = ap_versions s" "tables (with_db f s) = f (tables s)"
  by (simp_all add: with_db_def tables_def)

lemma note_correlation: "same_people s \<Longrightarrow> correlation (tables s) \<noteq> []"
  by (auto simp: same_people_def people_def empty_db_def)

lemma note_recorded:
  assumes "list_all (\<lambda>x. dn_actor x \<noteq> dn_actor d) (ap_decisions s)"
  shows "insert_decision d s = Inr (next_uuid (tables s), (with_db (\<lambda>d. d\<lparr>next_uuid := Suc (next_uuid (tables s))\<rparr>) s)
      \<lparr>ap_decisions := ap_decisions s @ [d\<lparr>dn_id := next_uuid (tables s), dn_at := clock (tables s)\<rparr>]\<rparr>)"
proof -
  have "on_tables fresh_uuid s = Inr (next_uuid (tables s), with_db (\<lambda>d. d\<lparr>next_uuid := Suc (next_uuid (tables s))\<rparr>) s)"
    by (simp add: on_tables_fresh with_db_def)
  then show ?thesis using assms by (auto simp: insert_decision_def tx_eval tx_require_def list_all_iff list_ex_iff)
qed

lemma note_audited:
  assumes "same_people s" "action \<noteq> []" "tt \<noteq> []"
  shows "\<exists>row rows. on_tables (audit_write 2 (user_actor u) action tt g None Success None) s = Inr (row, with_db (\<lambda>d. d\<lparr>audits := rows\<rparr>) s)"
proof -
  obtain row d where d: "audit_write 2 (user_actor u) action tt g None Success None (tables s) = Inr (row, d)" "d = (tables s)\<lparr>audits := audits d\<rparr>"
    using note_correlation [OF assms(1)] assms(2,3) by (auto simp: audit_write_def Let_def)
  then have "on_tables (audit_write 2 (user_actor u) action tt g None Success None) s = Inr (row, with_db (\<lambda>_. d) s)"
    by (auto simp: on_tables_Inr with_db_def)
  also have "with_db (\<lambda>_. d) s = with_db (\<lambda>x. x\<lparr>audits := audits d\<rparr>) s" using d(2) by (simp add: with_db_def)
  finally show ?thesis by blast
qed

lemma note_decisions:
  assumes "ap_instances s = [r]" "in_org r = 2" "in_id r = 1000" "\<forall>d\<in>set (ap_decisions s). dn_org d = 2 \<and> dn_instance d = 1000"
  shows "\<exists>ds. decisions_for 2 1000 s = Inr (ds, s) \<and> dr_row ` set ds = set (ap_decisions s)"
  using assms
  by (auto simp: decisions_for_def tx_eval get_instance_row_def instance_at_def decisions_of_def read_decision_def Let_def image_iff)

lemma found_by: "\<exists>x\<in>set xs. P x \<Longrightarrow> \<exists>x. find P xs = Some x"
  by (metis find_None_iff not_None_eq)

text \<open>Users 7 and 8 approve: the note stays open for user 6, with their decisions.\<close>

definition approved_by :: "uuid \<Rightarrow> decision_row \<Rightarrow> bool" where
  "approved_by u d \<longleftrightarrow> dn_org d = 2 \<and> dn_instance d = 1000 \<and> dn_task d = Some 1001 \<and> dn_actor d = u \<and> dn_behalf d = None \<and> dn_outcome d = Approve"

lemma note_decided:
  assumes s: "note_open s" "actor \<in> {7, 8}" "\<forall>x\<in>set (ap_decisions s). \<exists>v. approved_by v x \<and> v \<noteq> actor \<and> v \<noteq> 6"
  shows "\<exists>x t d. decide note_registry 2 1001 actor (sample_decision Approve 1) s = Inr (x, t) \<and> note_open t \<and>
    ap_decisions t = ap_decisions s @ [d] \<and> approved_by actor d"
proof -
  let ?b = "sample_decision Approve 1"
  have p: "same_people s" using s(1) by (simp add: note_open_def)
  have body: "dw_version ?b = 1" "dw_project ?b = None" "dw_outcome ?b = Approve" "dw_substitutions ?b = None" "dw_reject ?b = None" "dw_comment ?b = None"
    by (simp_all add: sample_decision_def)
  have checks: "decision_checks note_registry 2 1001 actor ?b s = Inr ((note_row, note_task, note_adapter, note_snapshot, [6, 7, 8], [], None), s)"
    by (rule note_checks [OF s(1)]) (use s(2,3) in \<open>auto simp: body decided_already_def list_ex_iff approved_by_def\<close>)
  define new where "new = new_decision note_row (Some 1001) actor None AsMember Approve None None (ss_version note_snapshot) [''u'', ''u'', ''u'']"
  define d where "d = new\<lparr>dn_id := next_uuid (tables s), dn_at := clock (tables s)\<rparr>"
  define s1 where "s1 = (with_db (\<lambda>d. d\<lparr>next_uuid := Suc (next_uuid (tables s))\<rparr>) s)\<lparr>ap_decisions := ap_decisions s @ [d]\<rparr>"
  have d: "approved_by actor d" "dn_id d = next_uuid (tables s)"
    by (simp_all add: d_def new_def new_decision_def note_row_def approved_by_def)
  have open1: "note_open s1" using s same_people_with [OF p] by (simp add: note_open_def s1_def)
  have inserted: "insert_decision new s = Inr (next_uuid (tables s), s1)"
    using note_recorded [of new s] s(3) by (auto simp: s1_def d_def list_all_iff approved_by_def new_def new_decision_def)
  obtain rows where audited: "decision_audit note_registry note_row actor s1 = Inr ((), with_db (\<lambda>d. d\<lparr>audits := rows\<rparr>) s1)"
    using note_audited [of s1 "''approval.decision''" "''approval_instance''" actor "Some 1000"] open1
    by (auto simp: decision_audit_def tx_eval note_open_def note_row_def)
  define t where "t = with_db (\<lambda>d. d\<lparr>audits := rows\<rparr>) s1"
  have t: "note_open t" "ap_decisions t = ap_decisions s @ [d]"
    using open1 same_people_audits [of s1] by (simp_all add: note_open_def t_def s1_def)
  have six: "principal x \<noteq> 6" if "x \<in> set (ap_decisions s1)" for x
    using that s(2,3) d(1) by (auto simp: s1_def principal_def approved_by_def)
  have "step_complete note_task (decisions_of 2 1000 s1) [6, 7, 8] = Undecided"
  proof -
    have none: "filter (\<lambda>d. dn_outcome d = Reject \<or> dn_outcome d = ReturnIt) (filter (\<lambda>d. principal d \<in> set [6, 7, 8] \<and> dn_task d = Some (tk_id note_task)) (decisions_of 2 1000 s1)) = []"
      using s(3) d(1) by (auto simp: filter_empty_conv decisions_of_def s1_def approved_by_def)
    have "6 \<notin> principal ` {x \<in> set (decisions_of 2 1000 s1). principal x \<in> {6, 7, 8} \<and> dn_task x = Some (tk_id note_task) \<and> dn_outcome x = Approve}"
      using six by (auto simp: decisions_of_def)
    then show ?thesis unfolding step_complete_def Let_def none by (auto simp: note_task_def)
  qed
  then have undecided: "apply_decision note_registry note_row note_task [6, 7, 8] ctx Approve s1 = Inr (note_row, s1)" for ctx
    by (simp add: apply_decision_def tx_eval note_row_def)
  have all_here: "\<forall>x\<in>set (ap_decisions t). dn_org x = 2 \<and> dn_instance x = 1000" using s(3) d(1) by (auto simp: t(2) approved_by_def)
  obtain ds where ds: "decisions_for 2 1000 t = Inr (ds, t)" "dr_row ` set ds = set (ap_decisions t)"
    using note_decisions [of t note_row, OF _ _ _ all_here] t(1) by (auto simp: note_open_def note_row_def)
  have "d \<in> dr_row ` set ds" by (simp add: ds(2) t(2))
  then obtain r where r: "find (\<lambda>x. dn_id (dr_row x) = next_uuid (tables s)) ds = Some r"
    using found_by [of ds "\<lambda>x. dn_id (dr_row x) = next_uuid (tables s)"] d(2) by blast
  obtain y where y: "get_instance note_registry 2 1000 t = Inr (y, t)"
    using note_reads [of t note_row note_task] t(1) by (auto simp: note_open_def note_row_def note_task_def)
  have listed: "sort (map (email_or_removed s) ([6, 7, 8] @ map fst [])) = [''u'', ''u'', ''u'']" using note_emails [OF p] by simp
  have prepared: "prepare_document note_adapter note_row actor ?b s1 = Inr ((), s1)"
    by (simp add: prepare_document_def body note_adapter_facts tx_eval tx_require_def)
  have "decide note_registry 2 1001 actor ?b s = Inr ((r, y), t)"
    using checks listed inserted prepared undecided audited ds(1) r y
    by (simp add: decide_def tx_eval body tx_some_def t_def note_row_def new_def)
  then show ?thesis using t d by blast
qed

lemma note_reachable:
  "approval_reachable note_registry note_sent"
  "\<exists>s d e. approval_reachable note_registry s \<and> ap_decisions s = [d, e] \<and> approved_by 7 d \<and> approved_by 8 e"
proof -
  have "approval_reachable note_registry no_notes"
    by (rule approval_empty) (simp_all add: no_notes_def fresh_approvals_def)
  then show sent: "approval_reachable note_registry note_sent"
    using note_start by (blast intro: approval_next step_start)
  obtain x s d where s: "decide note_registry 2 1001 7 (sample_decision Approve 1) note_sent = Inr (x, s)" "note_open s"
    "ap_decisions s = [d]" "approved_by 7 d"
    using note_decided [OF note_open_sent(1), of 7] note_open_sent(2) by auto
  have "\<forall>v\<in>set (ap_decisions s). \<exists>u. approved_by u v \<and> u \<noteq> 8 \<and> u \<noteq> 6" using s(3,4) by auto
  from note_decided [OF s(2) _ this] obtain y t e where t: "decide note_registry 2 1001 8 (sample_decision Approve 1) s = Inr (y, t)"
    "ap_decisions t = [d, e]" "approved_by 8 e"
    using s(3) by auto
  have "approval_reachable note_registry t"
    by (rule approval_next [OF approval_next [OF sent step_decide [OF s(1)]] step_decide [OF t(1)]])
  then show "\<exists>s d e. approval_reachable note_registry s \<and> ap_decisions s = [d, e] \<and> approved_by 7 d \<and> approved_by 8 e"
    using t s(4) by blast
qed

section \<open>Leave\<close>

definition sample_cover :: "timestamp \<Rightarrow> timestamp \<Rightarrow> delegation_create" where
  "sample_cover a b = \<lparr>dc_delegate = 7, dc_starts = a, dc_ends = b, dc_types = None, dc_reason = ''leave''\<rparr>"

definition covers_for :: "timestamp \<Rightarrow> timestamp \<Rightarrow> delegation_row \<Rightarrow> bool" where
  "covers_for a b d \<longleftrightarrow> dg_org d = 2 \<and> dg_delegator d = 8 \<and> dg_delegate d = 7 \<and> dg_starts d = a \<and> dg_ends d = b \<and> dg_revoked d = None"

lemma note_covered:
  assumes s: "same_people s" "a < b" "b \<le> a + days 366" "\<forall>d\<in>set (ap_delegations s). \<exists>a' b'. covers_for a' b' d \<and> b' \<le> a"
  shows "\<exists>d t. create_delegation note_registry 2 8 (sample_cover a b) s = Inr (d, t) \<and> same_people t \<and>
    ap_delegations t = ap_delegations s @ [d] \<and> covers_for a b d"
proof -
  obtain n old where ts: "tables s = (people [6, 7, 8] ''n.a'' empty_db)\<lparr>next_uuid := n, audits := old\<rparr>"
    using s(1) by (auto simp: same_people_def)
  have "holders 2 ''n.a'' (organization_target 2) (tables s) = Inr ([6, 7, 8], tables s)"
    using people_holders(1)
    by (auto simp: ts holders_def holders_where_def tx_eval eligible_grants_def active_identity_def identity_at_def role_at_def
        organization_target_def note_target_def cong: option.case_cong split: sum.splits)
  then have "on_tables (holders 2 ''n.a'' (organization_target 2)) s = Inr ([6, 7, 8], s)"
    by (simp add: on_tables_def on_work_def on_db_def tables_def)
  then have able: "delegate_holds_everything note_registry 2 7 [''note''] s = Inr (True, s)"
    by (simp add: delegate_holds_everything_def tx_eval approve_permission_def note_adapter_facts note_adapter_def)
  have types: "covered_types note_registry None = Inr [''note'']"
    by (simp add: covered_types_def note_registry_def Let_def)
  have member: "active_identity 7 (tables s)" "list_ex (\<lambda>m. mb_org m = 2 \<and> mb_identity m = 7) (members (tables s))"
    by (simp_all add: ts people_def active_identity_def identity_at_def)
  let ?d = "\<lparr>dg_id = next_uuid (tables s), dg_org = 2, dg_delegator = 8, dg_delegate = 7, dg_starts = a, dg_ends = b, dg_types = None,
    dg_reason = ''leave'', dg_created = clock (tables s), dg_revoked = None, dg_revoked_by = None\<rparr>"
  define s1 where "s1 = with_db (\<lambda>d. d\<lparr>next_uuid := Suc (next_uuid (tables s))\<rparr>) s"
  have fresh: "on_tables fresh_uuid s = Inr (next_uuid (tables s), s1)" by (simp add: on_tables_fresh with_db_def s1_def)
  define s2 where "s2 = s1\<lparr>ap_delegations := ap_delegations s @ [?d]\<rparr>"
  have apart: "\<not> list_ex (\<lambda>x. dg_org x = 2 \<and> dg_delegator x = 8 \<and> dg_revoked x = None \<and> periods_overlap a b x) (ap_delegations s)"
    "\<not> list_ex (\<lambda>x. dg_org x = 2 \<and> dg_delegate x = 8 \<and> dg_revoked x = None \<and> periods_overlap a b x) (ap_delegations s)"
    using s(4) by (fastforce simp: list_ex_iff covers_for_def periods_overlap_def)+
  have inserted: "insert_delegation ?d s1 = Inr ((), s2)"
    using apart s(2,3) by (simp add: insert_delegation_def tx_eval tx_require_def s1_def s2_def)
  have people2: "same_people s2" using same_people_with [OF s(1)] by (simp add: s1_def s2_def)
  obtain rows where rows: "delegation_audit 2 8 ''approval.delegation.create'' ''approval_delegation'' (next_uuid (tables s)) s2 =
      Inr ((), with_db (\<lambda>d. d\<lparr>audits := rows\<rparr>) s2)"
    using note_audited [OF people2, of "''approval.delegation.create''" "''approval_delegation''" 8 "Some (next_uuid (tables s))"]
    by (auto simp: delegation_audit_def tx_eval)
  have ts1: "clock (tables s1) = clock (tables s)" by (simp add: s1_def)
  have "create_delegation note_registry 2 8 (sample_cover a b) s = Inr (?d, with_db (\<lambda>d. d\<lparr>audits := rows\<rparr>) s2)"
    using types able member apart fresh inserted rows ts1
    by (simp add: create_delegation_def tx_eval tx_require_def sample_cover_def Let_def)
  then show ?thesis using same_people_audits [OF people2] by (auto simp: s2_def covers_for_def)
qed

lemma leave_reachable:
  "\<exists>s d e. approval_reachable note_registry s \<and> ap_delegations s = [d, e] \<and> covers_for 10 20 d \<and> covers_for 20 30 e"
proof -
  have year: "days 366 \<ge> 10" by (simp add: days_def)
  have sent: "same_people note_sent" "ap_delegations note_sent = []" using note_open_sent(1) by (simp_all add: note_open_def)
  obtain d s where s: "create_delegation note_registry 2 8 (sample_cover 10 20) note_sent = Inr (d, s)" "same_people s"
    "ap_delegations s = [d]" "covers_for 10 20 d"
    using note_covered [OF sent(1), of 10 20] sent(2) year by auto
  obtain e t where t: "create_delegation note_registry 2 8 (sample_cover 20 30) s = Inr (e, t)" "ap_delegations t = [d, e]" "covers_for 20 30 e"
    using note_covered [OF s(2), of 20 30] s(3,4) year by auto
  have "approval_reachable note_registry t"
    by (rule approval_next [OF approval_next [OF note_reachable(1) step_delegate [OF s(1)]] step_delegate [OF t(1)]])
  then show ?thesis using t s(4) by blast
qed

end
