(* ===== verification/ApprovalTheorems.thy ===== *)
theory ApprovalTheorems
  imports ApprovalSamples
begin

text \<open>
  What the approval engine guarantees, stated: one open task for a running approval, nobody decides
  twice, deciders are entitled and independent of the requester, a step completes when its mode says so, and
  live delegations do not overlap.  The witnesses run a project's approval.
\<close>

section \<open>Who may decide\<close>

lemma holders_sound:
  assumes "holders org p g s = Inr (us, t)" "u \<in> set us"
  shows "active_identity u s" "may org u p g s"
proof -
  have us: "permission_code p = Inr p" "us = holders_where org g (Some p) None s"
    using assms(1) by (auto simp: holders_def tx_bind_Inr permission_code_def Let_def split: if_splits)
  then have "\<not> foreign org g" using assms(2) by (auto simp: holders_where_def)
  moreover obtain a where a: "a \<in> set (eligible_grants org None g s)" "gr_user a = u" "active_identity u s"
    "(org, gr_role a, p) \<in> set (role_permissions s)"
    using assms(2) us(2) by (auto simp: holders_where_def split: if_splits dest!: in_set_takeD)
  ultimately have "granted org u g a s" using eligible_granted [of org g a None s] by auto
  then show "active_identity u s" "may org u p g s" using a(3,4) by (auto simp: may_def)
qed

lemma eligible_sound:
  assumes "eligible_approvers reg org dtype rule g requester s = Inr (el, t)" "u \<in> set (el_members el)"
  obtains p where "approve_permission reg dtype = Inr p" "active_identity u (tables s)" "may org u p g (tables s)"
    "requester = Some u \<Longrightarrow> separation_applies org g (tables s) = Inr (False, tables s)"
  using assms(1) unfolding eligible_approvers_def
proof (elim tx_bindE, goal_cases)
  case (1 p s1 hs s2 c s3)
  have hs: "approve_permission reg dtype = Inr p" "s1 = s" "s2 = s" "holders org p g (tables s) = Inr (hs, tables s)"
  proof -
    show p: "approve_permission reg dtype = Inr p" "s1 = s" using 1(2) by simp_all
    obtain d where d: "holders org p g (tables s) = Inr (hs, d)" "s2 = s\<lparr>ap_work := (ap_work s)\<lparr>w_db := d\<rparr>\<rparr>"
      using 1(3) p(2) by (auto simp: on_tables_Inr)
    have "d = tables s" using tx_relD [OF holders_reads(1) d(1)] by simp
    then show "s2 = s" "holders org p g (tables s) = Inr (hs, tables s)" using d by (simp_all add: tables_def)
  qed
  have sub: "set (fst c) \<subseteq> set hs \<and> s3 = s"
  proof (cases rule)
    case (RoleApprovers code)
    then show ?thesis using 1(4) hs(3) by (auto simp: tx_bind_Inr dest: tx_relD [OF on_tables_reads [OF holders_reads(2)]])
  qed (use 1(4) hs(3) in auto)
  obtain selected excluded where c: "c = (selected, excluded)" by (cases c)
  obtain sep where sep: "separation_applies org g (tables s) = Inr (sep, tables s)"
    "el_members el = (case requester of Some r \<Rightarrow> if sep \<and> r \<in> set selected then filter (\<lambda>u. u \<noteq> r) selected else selected | None \<Rightarrow> selected)"
  proof -
    from 1(5) sub obtain sep s4 where s4: "on_tables (separation_applies org g) s = Inr (sep, s4)"
      "el = (case requester of
          Some r \<Rightarrow>
            if sep \<and> r \<in> set selected
            then \<lparr>el_members = filter (\<lambda>u. u \<noteq> r) selected, el_excluded = sort_key fst (excluded @ [(r, SeparationOfDuty)])\<rparr>
            else \<lparr>el_members = selected, el_excluded = sort_key fst excluded\<rparr>
        | None \<Rightarrow> \<lparr>el_members = selected, el_excluded = sort_key fst excluded\<rparr>)"
      by (auto simp: c tx_bind_Inr)
    have "s4 = s" using tx_relD [OF on_tables_reads [OF separation_reads] s4(1)] by simp
    then obtain d where d: "separation_applies org g (tables s) = Inr (sep, d)" using s4(1) by (auto simp: on_tables_Inr)
    have "d = tables s" using tx_relD [OF separation_reads d] by simp
    then show ?thesis using that [of sep] d s4(2) by (auto split: option.splits)
  qed
  have mem: "u \<in> set selected" using assms(2) sep(2) by (auto split: option.splits if_splits)
  then have "u \<in> set hs" using sub by (auto simp: c)
  note held = holders_sound [OF hs(4) this]
  have "separation_applies org g (tables s) = Inr (False, tables s)" if "requester = Some u"
    using that assms(2) sep mem by (cases sep) (auto split: if_splits)
  then show ?case using 1(1) [OF hs(1) held] by blast
qed

lemma current_members_sound:
  assumes "current_members reg org dtype requester route n sn s = Inr (el, t)" "u \<in> set (el_members el)"
  obtains p where "approve_permission reg dtype = Inr p" "active_identity u (tables s)" "may org u p (ss_target sn) (tables s)"
    "requester = Some u \<Longrightarrow> separation_applies org (ss_target sn) (tables s) = Inr (False, tables s)"
proof -
  from assms obtain rule el0 where el0: "eligible_approvers reg org dtype rule (ss_target sn) requester s = Inr (el0, t)"
    "u \<in> set (el_members el0)"
    by (auto simp: current_members_def tx_bind_Inr Let_def split: if_splits)
  show ?thesis by (rule eligible_sound [OF el0]) (rule that)
qed

definition entitled :: "registry \<Rightarrow> instance_row \<Rightarrow> snapshot \<Rightarrow> uuid \<Rightarrow> db \<Rightarrow> bool" where
  "entitled reg r sn u s \<longleftrightarrow>
     (\<exists>p. approve_permission reg (in_type r) = Inr p \<and> may (in_org r) u p (ss_target sn) s) \<and> active_identity u s \<and>
     (u = in_requester r \<longrightarrow> separation_applies (in_org r) (ss_target sn) s = Inr (False, s))"

lemma members_entitled:
  assumes "current_members reg (in_org r) (in_type r) (Some (in_requester r)) route n sn s = Inr (el, t)" "u \<in> set (el_members el)"
  shows "entitled reg r sn u (tables s)"
  by (rule current_members_sound [OF assms]) (auto simp: entitled_def)

lemma first_covers_set: "set (first_covers xs) \<subseteq> set xs"
  by (induction xs rule: first_covers.induct) auto

lemma delegates_sound:
  assumes run: "active_delegates reg r k sn base ts s = Inr (ds, t)" and mem: "(u, v) \<in> set ds"
  shows "v \<in> set base" "entitled reg r sn u (tables s)"
    "\<exists>d\<in>set (ap_delegations s). dg_org d = in_org r \<and> dg_delegate d = u \<and> dg_delegator d = v \<and> live_at ts d \<and> covers_type (in_type r) d"
proof -
  let ?rows = "sort_key (\<lambda>d. (dg_created d, dg_id d)) (filter (\<lambda>d. dg_org d = in_org r \<and> live_at ts d \<and>
    dg_delegator d \<in> set base \<and> dg_delegate d \<notin> set base \<and> covers_type (in_type r) d) (ap_delegations s))"
  from run mem obtain able where able: "eligible_approvers reg (in_org r) (in_type r) PermissionApprovers (ss_target sn) (Some (in_requester r)) s = Inr (able, t)"
    and ds: "set ds \<subseteq> (\<lambda>d. (dg_delegate d, dg_delegator d)) ` {d \<in> set ?rows. dg_delegate d \<in> set (el_members able)}"
    by (fastforce simp: active_delegates_def tx_bind_Inr Let_def split: if_splits dest!: subsetD [OF first_covers_set])
  obtain d where d: "d \<in> set ?rows" "dg_delegate d = u" "dg_delegator d = v" "u \<in> set (el_members able)" using ds mem by auto
  show "v \<in> set base" using d by auto
  show "\<exists>d\<in>set (ap_delegations s). dg_org d = in_org r \<and> dg_delegate d = u \<and> dg_delegator d = v \<and> live_at ts d \<and> covers_type (in_type r) d"
    using d by auto
  show "entitled reg r sn u (tables s)"
    by (rule eligible_sound [OF able d(4)]) (auto simp: entitled_def)
qed

lemma effective_sound:
  assumes "effective_members reg r k n sn ts s = Inr ((base, ds), t)"
  shows "u \<in> set base \<Longrightarrow> entitled reg r sn u (tables s)" "\<exists>s1. active_delegates reg r k sn base ts s = Inr (ds, s1)"
proof -
  have goals: "(u \<in> set base \<longrightarrow> entitled reg r sn u (tables s)) \<and> (\<exists>s1. active_delegates reg r k sn base ts s = Inr (ds, s1))"
    using assms unfolding effective_members_def Let_def
  proof (elim tx_bindE, goal_cases)
    case (1 el s1 b s2 d s3)
    have s1: "s1 = s" using tx_relD [OF current_members_reads 1(1)] by simp
    have b: "(u \<in> set b \<longrightarrow> entitled reg r sn u (tables s)) \<and> s2 = s"
      using 1(2) members_entitled [OF 1(1)] s1
      by (auto simp: tx_bind_Inr split: option.splits prod.splits dest: members_entitled tx_relD [OF current_members_reads])
    then show ?case using 1(3,4) by auto
  qed
  then show "u \<in> set base \<Longrightarrow> entitled reg r sn u (tables s)" "\<exists>s1. active_delegates reg r k sn base ts s = Inr (ds, s1)" by auto
qed

section \<open>What a decision leaves alone\<close>

definition same_records :: "approval_db \<Rightarrow> approval_db \<Rightarrow> bool" where
  "same_records s t \<longleftrightarrow> ap_decisions t = ap_decisions s \<and> ap_delegations t = ap_delegations s"

interpretation records: tx_preorder same_records
  by unfold_locales (auto simp: same_records_def)

lemma calm_records: "tx_rel calm m \<Longrightarrow> tx_rel same_records m"
  by (auto simp: tx_rel_def calm_def same_records_def)

lemma reads_records: "tx_rel (=) m \<Longrightarrow> tx_rel same_records m"
  by (auto simp: tx_rel_def same_records_def)

lemma tx_rel_known: "(\<And>x. r = Inr x \<Longrightarrow> tx_rel R (k x)) \<Longrightarrow> tx_rel R (tx_bind (tx_lift r) k)"
  by (auto simp: tx_rel_def tx_bind_Inr)

lemma writes_records:
  "tx_rel same_records (save_instance r)" "tx_rel same_records (close_task org i out)" "tx_rel same_records (cancel_tasks org i)"
  "tx_rel same_records (open_task reg r n sn)"
  by (auto simp: tx_rel_def save_instance_def close_task_def cancel_tasks_def same_records_def elim: open_task_Inr)

lemma approve_records: "framed reg \<Longrightarrow> tx_rel same_records (approve_instance reg r ctx)"
  unfolding approve_instance_def
  by (intro tx_rel_known records.tx_ok writes_records reads_records [OF read_snapshot_reads] calm_records [OF adapter_calm(1)]) assumption+

lemma advance_records: "framed reg \<Longrightarrow> tx_rel same_records (advance reg org i task ctx ds)"
  unfolding advance_def Let_def
  by (intro tx_branches records.tx_ok writes_records approve_records
      reads_records [OF read_snapshot_reads] reads_records [OF get_row_reads(1)] reads_records [OF get_row_reads(2)]
      reads_records [OF walk_from_reads] reads_records [OF get_instance_reads])

lemma apply_records: "framed reg \<Longrightarrow> tx_rel same_records (apply_decision reg r k base ctx out)"
  unfolding apply_decision_def end_instance_def Let_def
  by (intro tx_branches tx_rel_known records.tx_ok writes_records advance_records reads_records [OF get_row_reads(1)]
      calm_records [OF adapter_calm(1)]) assumption+

text \<open>A decision made: what was checked, and the one row it adds.\<close>

lemma decide_Inr:
  assumes fr: "framed reg" and run: "decide reg org task actor body s = Inr ((d, x), t)"
  obtains r k a sn base delegates who e where
    "decision_checks reg org task actor body s = Inr ((r, k, a, sn, base, delegates, who), s)"
    "ap_decisions t = ap_decisions s @ [e]" "ap_delegations t = ap_delegations s"
    "dn_task e = Some task" "dn_actor e = actor" "dn_behalf e = who" "dn_outcome e = dw_outcome body" "dn_org e = org"
  using run unfolding decide_def
proof (elim tx_bindE, goal_cases)
  case (1 c s1)
  obtain r k a sn base delegates who where c: "c = (r, k, a, sn, base, delegates, who)" by (cases c)
  note k = decision_checks_Inr [OF 1(2) [unfolded c]]
  note that = 1(1)
  from 1(3) show ?case unfolding c prod.case
  proof (elim tx_bindE, goal_cases)
    case (1 listed s2 i s3 u s4 r' s5 u2 s6 ds s7 d2 s8 y s9)
    have s2: "s2 = s" using 1(1) k(1) by simp
    obtain e where e: "dn_org e = in_org r" "dn_task e = Some task" "dn_actor e = actor" "dn_behalf e = who" "dn_outcome e = dw_outcome body"
      "ap_decisions s3 = ap_decisions s @ [e]" "ap_delegations s3 = ap_delegations s"
      by (rule insert_decision_Inr [OF 1(2) [unfolded s2]]) (simp add: new_decision_def)
    have "same_records s3 s4" by (rule tx_relD [OF calm_records [OF prepare_calm [OF fr k(13)]] 1(3)])
    moreover have "same_records s4 s5" by (rule tx_relD [OF apply_records [OF fr] 1(4)])
    moreover have "same_records s5 s6" by (rule tx_relD [OF calm_records [OF decision_audit_calm] 1(5)])
    moreover have "t = s6" using tx_relD [OF decisions_for_reads 1(6)] 1(7) tx_relD [OF get_instance_reads 1(8)] 1(9) by simp
    ultimately have same: "ap_decisions t = ap_decisions s @ [e]" "ap_delegations t = ap_delegations s"
      using e(6,7) by (simp_all add: same_records_def)
    show ?case
      by (rule that [OF _ same e(2-5)]) (use \<open>decision_checks reg org task actor body s = Inr (c, s1)\<close> c k(1,3) e(1) in auto)
  qed
qed

section \<open>The guarantees\<close>

text \<open>
  C31. In every reachable state a running approval has exactly one open task, at its current node; any other
  has no current node and no open task; and a document has at most one running approval.
\<close>

theorem approvals_settled:
  assumes "framed reg" "approval_reachable reg s"
  shows "(\<forall>r\<in>set (ap_instances s). in_status r = InRunning \<longrightarrow>
      (\<exists>t\<in>set (ap_tasks s). tk_instance t = in_id r \<and> tk_status t = TaskOpen \<and> in_node r = Some (tk_node t) \<and>
        (\<forall>u\<in>set (ap_tasks s). tk_instance u = in_id r \<and> tk_status u = TaskOpen \<longrightarrow> u = t))) \<and>
    (\<forall>r\<in>set (ap_instances s). in_status r \<noteq> InRunning \<longrightarrow>
      in_node r = None \<and> (\<forall>t\<in>set (ap_tasks s). tk_instance t = in_id r \<longrightarrow> tk_status t \<noteq> TaskOpen)) \<and>
    (\<forall>r\<in>set (ap_instances s). \<forall>x\<in>set (ap_instances s). in_status r = InRunning \<and> in_status x = InRunning \<and>
      in_org r = in_org x \<and> in_type r = in_type x \<and> in_document r = in_document x \<longrightarrow> r = x)"
proof (intro conjI ballI impI)
  have ok: "approval_ok s" by (rule approval_reachable_ok [OF assms])
  fix r assume r: "r \<in> set (ap_instances s)"
  then have st: "settled (ap_tasks s) r" using ok by (simp add: approval_ok_def)
  have mem: "t \<in> set (open_tasks r (ap_tasks s)) \<longleftrightarrow> t \<in> set (ap_tasks s) \<and> tk_instance t = in_id r \<and> tk_status t = TaskOpen" for t
    by (auto simp: open_tasks_def)
  { assume "in_status r = InRunning"
    then obtain t where t: "open_tasks r (ap_tasks s) = [t]" "in_node r = Some (tk_node t)" using st by (auto simp: settled_def)
    show "\<exists>t\<in>set (ap_tasks s). tk_instance t = in_id r \<and> tk_status t = TaskOpen \<and> in_node r = Some (tk_node t) \<and>
        (\<forall>u\<in>set (ap_tasks s). tk_instance u = in_id r \<and> tk_status u = TaskOpen \<longrightarrow> u = t)"
      using mem t by auto
  next
    assume "in_status r \<noteq> InRunning"
    then have over: "open_tasks r (ap_tasks s) = []" "in_node r = None" using st by (simp_all add: settled_def)
    then show "in_node r = None" by simp
    fix t assume "t \<in> set (ap_tasks s)" "tk_instance t = in_id r"
    then show "tk_status t \<noteq> TaskOpen" using mem [of t] over(1) by simp
  next
    fix x assume "x \<in> set (ap_instances s)" "in_status r = InRunning \<and> in_status x = InRunning \<and>
      in_org r = in_org x \<and> in_type r = in_type x \<and> in_document r = in_document x"
    then show "r = x" using ok r by (simp add: approval_ok_def one_running_def)
  }
qed

theorem approvals_settled_witness:
  "in_node note_row = Some (tk_node note_task) \<and> tk_status note_task = TaskOpen"
  using approvals_settled [OF notes_framed note_reachable(1)]
  by (simp add: note_sent_def) (auto simp: note_row_def note_task_def)

text \<open>
  C32. Of any two deciding decisions of one task in a reachable state, the actors differ, and so do the
  people decided for: nobody decides a task twice, as themselves or through a delegate.
\<close>

theorem decided_once:
  assumes "framed reg" "approval_reachable reg s"
    and "i < j" "j < length (ap_decisions s)" "dn_org (ap_decisions s ! i) = dn_org (ap_decisions s ! j)"
    and "dn_task (ap_decisions s ! i) = Some k" "dn_task (ap_decisions s ! j) = Some k"
    and "deciding (dn_outcome (ap_decisions s ! i))" "deciding (dn_outcome (ap_decisions s ! j))"
  shows "dn_actor (ap_decisions s ! i) \<noteq> dn_actor (ap_decisions s ! j) \<and> principal (ap_decisions s ! i) \<noteq> principal (ap_decisions s ! j)"
proof -
  have "sorted_wrt apart_decisions (ap_decisions s)"
    using approval_reachable_ok [OF assms(1,2)] by (simp add: approval_ok_def decisions_ok_def)
  then have "apart_decisions (ap_decisions s ! i) (ap_decisions s ! j)"
    using assms(3,4) by (rule sorted_wrt_nth_less)
  then show ?thesis using assms(5-9) by (simp add: apart_decisions_def)
qed

theorem decided_once_witness:
  "\<exists>(s :: approval_db) d e. ap_decisions s = [d, e] \<and> dn_task d = dn_task e \<and> dn_outcome d = Approve \<and> dn_outcome e = Approve \<and>
     principal d \<noteq> principal e"
proof -
  obtain s d e where s: "approval_reachable note_registry s" "ap_decisions s = [d, e]" "approved_by 7 d" "approved_by 8 e"
    using note_reachable(2) by blast
  then have "principal d \<noteq> principal e"
    using decided_once [OF notes_framed s(1), of 0 1 1001] by (simp add: approved_by_def deciding_def)
  then show ?thesis
    using s(2-4) by (intro exI [of _ s] exI [of _ d] exI [of _ e]) (simp add: approved_by_def)
qed

text \<open>
  C33. Whoever decides is entitled to: the task is open in a running approval; the actor, and the member
  the decision counts for, are active and hold the document type's approval permission at the document's target;
  where separation of duty applies, which an organization may switch off, neither is its requester; and a decision
  for another is under a live delegation
  of theirs that covers the type.  The decision is recorded as the one new row.
\<close>

theorem deciders_entitled:
  assumes "framed reg" "decide reg org task actor body s = Inr (y, t)"
  shows "\<exists>r k a sn e. r \<in> set (ap_instances s) \<and> in_org r = org \<and> in_status r = InRunning \<and>
    k \<in> set (ap_tasks s) \<and> tk_id k = task \<and> tk_instance k = in_id r \<and> tk_status k = TaskOpen \<and>
    adapter_for reg (in_type r) = Inr a \<and> da_snapshot a org (in_document r) s = Inr sn \<and>
    ap_decisions t = ap_decisions s @ [e] \<and> dn_task e = Some task \<and> dn_actor e = actor \<and> dn_outcome e = dw_outcome body \<and>
    entitled reg r sn actor (tables s) \<and> entitled reg r sn (principal e) (tables s) \<and>
    (principal e \<noteq> actor \<longrightarrow> (\<exists>d\<in>set (ap_delegations s). dg_org d = org \<and> dg_delegate d = actor \<and> dg_delegator d = principal e \<and>
       live_at (clock (tables s)) d \<and> covers_type (in_type r) d))"
proof -
  obtain d x where y: "y = (d, x)" by (cases y)
  obtain r k a sn base delegates who e where c:
    "decision_checks reg org task actor body s = Inr ((r, k, a, sn, base, delegates, who), s)"
    "ap_decisions t = ap_decisions s @ [e]" "ap_delegations t = ap_delegations s"
    "dn_task e = Some task" "dn_actor e = actor" "dn_behalf e = who" "dn_outcome e = dw_outcome body" "dn_org e = org"
    by (rule decide_Inr [OF assms(1) assms(2) [unfolded y]])
  note ch = decision_checks_Inr [OF c(1)]
  obtain n where n: "effective_members reg r k n sn (clock (tables s)) s = Inr ((base, delegates), s)" using ch(15) by blast
  obtain s1 where s1: "active_delegates reg r k sn base (clock (tables s)) s = Inr (delegates, s1)" using effective_sound(2) [OF n] by blast
  have who: "entitled reg r sn actor (tables s) \<and> entitled reg r sn (principal e) (tables s) \<and>
    (principal e \<noteq> actor \<longrightarrow> (\<exists>d\<in>set (ap_delegations s). dg_org d = org \<and> dg_delegate d = actor \<and> dg_delegator d = principal e \<and>
       live_at (clock (tables s)) d \<and> covers_type (in_type r) d))"
  proof (cases "actor \<in> set base")
    case True
    then have "principal e = actor" using ch(10) c(5,6) by (simp add: principal_def)
    then show ?thesis using effective_sound(1) [OF n True] by simp
  next
    case False
    then obtain v where v: "who = Some v" "(actor, v) \<in> set delegates" using ch(10,11) by (auto dest: map_of_SomeD)
    note d = delegates_sound [OF s1 v(2)]
    have "principal e = v" using c(6) v(1) by (simp add: principal_def)
    then show ?thesis using effective_sound(1) [OF n d(1)] d(2,3) ch(3) by auto
  qed
  show ?thesis
    by (intro exI [of _ r] exI [of _ k] exI [of _ a] exI [of _ sn] exI [of _ e]) (use who ch c in auto)
qed

theorem deciders_entitled_witness:
  "\<exists>(t :: approval_db) e. ap_decisions t = [e] \<and> dn_actor e = 7 \<and> may 2 7 ''n.a'' note_target (tables note_sent)"
proof -
  obtain x t d where t: "decide note_registry 2 1001 7 (sample_decision Approve 1) note_sent = Inr (x, t)" "ap_decisions t = [d]"
    using note_decided [OF note_open_sent(1), of 7] note_open_sent(2) by auto
  obtain r k a sn e where f: "in_org r = 2" "r \<in> set (ap_instances note_sent)" "ap_decisions t = ap_decisions note_sent @ [e]" "dn_actor e = 7"
    "adapter_for note_registry (in_type r) = Inr a" "da_snapshot a 2 (in_document r) note_sent = Inr sn" "entitled note_registry r sn 7 (tables note_sent)"
    using deciders_entitled [OF notes_framed t(1)] by blast
  have "in_type r = ''note''" using f(2) by (simp add: note_sent_def note_row_def)
  then have "sn = note_snapshot" using f(5,6) by (simp add: note_adapter_facts)
  then have "may 2 7 ''n.a'' note_target (tables note_sent)"
    using f(1,7) \<open>in_type r = ''note''\<close> by (auto simp: entitled_def approve_permission_def note_adapter_facts note_adapter_def note_snapshot_def)
  moreover have "ap_decisions t = [e]" using f(3) note_open_sent(2) by simp
  ultimately show ?thesis using f(4) by blast
qed

text \<open>
  C34. When a step is complete: only decisions for current members on this task count.  If one of them rejects or
  returns, the earliest such decision ends the approval; otherwise the step is complete when some member, all of
  at least one, or the quorum of members approved, by its mode.
\<close>

definition counted :: "task_row \<Rightarrow> uuid list \<Rightarrow> decision_row \<Rightarrow> bool" where
  "counted t mems d \<longleftrightarrow> principal d \<in> set mems \<and> dn_task d = Some (tk_id t)"

definition approving :: "task_row \<Rightarrow> decision_row list \<Rightarrow> uuid list \<Rightarrow> uuid set" where
  "approving t ds mems = {u. \<exists>d\<in>set ds. counted t mems d \<and> principal d = u \<and> dn_outcome d = Approve}"

theorem step_complete_exact:
  "if {d \<in> set ds. counted t mems d \<and> dn_outcome d \<in> {Reject, ReturnIt}} = {}
   then step_complete t ds mems = (if (case tk_mode t of AnyMode \<Rightarrow> approving t ds mems \<noteq> {}
        | AllMode \<Rightarrow> mems \<noteq> [] \<and> approving t ds mems = set mems
        | Quorum q \<Rightarrow> q \<le> int (card (approving t ds mems))) then Complete else Undecided)
   else \<exists>d\<in>set ds. counted t mems d \<and>
       step_complete t ds mems = (if dn_outcome d = Reject then EndRejected else EndReturned) \<and> dn_outcome d \<in> {Reject, ReturnIt} \<and>
       (\<forall>e\<in>set ds. counted t mems e \<and> dn_outcome e \<in> {Reject, ReturnIt} \<longrightarrow> (dn_at d, dn_id d) \<le> (dn_at e, dn_id e))"
proof -
  define evidence where "evidence = filter (\<lambda>d. principal d \<in> set mems \<and> dn_task d = Some (tk_id t)) ds"
  define terminal where "terminal = sort_key (\<lambda>d. (dn_at d, dn_id d)) (filter (\<lambda>d. dn_outcome d = Reject \<or> dn_outcome d = ReturnIt) evidence)"
  define approved where "approved = remdups (map principal (filter (\<lambda>d. dn_outcome d = Approve) evidence))"
  have res: "step_complete t ds mems = (case terminal of d # _ \<Rightarrow> if dn_outcome d = Reject then EndRejected else EndReturned
    | [] \<Rightarrow> if (case tk_mode t of AnyMode \<Rightarrow> approved \<noteq> [] | AllMode \<Rightarrow> mems \<noteq> [] \<and> set mems \<subseteq> set approved | Quorum q \<Rightarrow> q \<le> int (length approved))
       then Complete else Undecided)"
    unfolding step_complete_def Let_def terminal_def approved_def evidence_def by (rule refl)
  have ev: "set evidence = {d \<in> set ds. counted t mems d}" by (auto simp: evidence_def counted_def)
  have ter: "set terminal = {d \<in> set ds. counted t mems d \<and> dn_outcome d \<in> {Reject, ReturnIt}}"
    using ev by (auto simp: terminal_def)
  have app: "set approved = approving t ds mems" "set approved \<subseteq> set mems" "length approved = card (set approved)"
    using ev by (auto simp: approved_def approving_def counted_def length_remdups_card_conv)
  show ?thesis
  proof (cases terminal)
    case Nil
    moreover have "approved = [] \<longleftrightarrow> approving t ds mems = {}" using app(1) by (metis set_empty)
    moreover have "set mems \<subseteq> set approved \<longleftrightarrow> approving t ds mems = set mems" using app(1,2) by auto
    ultimately show ?thesis using ter app(1,3) by (simp add: res split: mode.splits)
  next
    case (Cons d rest)
    have "sorted (map (\<lambda>d. (dn_at d, dn_id d)) terminal)" by (simp add: terminal_def)
    then have first: "\<forall>e\<in>set terminal. (dn_at d, dn_id d) \<le> (dn_at e, dn_id e)" by (auto simp: Cons)
    have d: "d \<in> set terminal" by (simp add: Cons)
    then have some: "{d \<in> set ds. counted t mems d \<and> dn_outcome d \<in> {Reject, ReturnIt}} \<noteq> {}" using ter by auto
    show ?thesis unfolding if_not_P [OF some]
    proof (rule bexI [of _ d])
      show "d \<in> set ds" using d ter by auto
      show "counted t mems d \<and> step_complete t ds mems = (if dn_outcome d = Reject then EndRejected else EndReturned) \<and>
          dn_outcome d \<in> {Reject, ReturnIt} \<and>
          (\<forall>e\<in>set ds. counted t mems e \<and> dn_outcome e \<in> {Reject, ReturnIt} \<longrightarrow> (dn_at d, dn_id d) \<le> (dn_at e, dn_id e))"
      proof (intro conjI ballI impI)
        show "counted t mems d" "dn_outcome d \<in> {Reject, ReturnIt}" using d ter by auto
        show "step_complete t ds mems = (if dn_outcome d = Reject then EndRejected else EndReturned)" by (simp add: res Cons)
        fix e assume "e \<in> set ds" "counted t mems e \<and> dn_outcome e \<in> {Reject, ReturnIt}"
        then have "e \<in> set terminal" using ter by auto
        then show "(dn_at d, dn_id d) \<le> (dn_at e, dn_id e)" using first by blast
      qed
    qed
  qed
qed

theorem step_complete_exact_witness:
  "\<exists>d. step_complete note_task [d] [6, 7] = EndRejected"
proof -
  let ?d = "(new_decision note_row (Some 1001) 7 None AsMember Reject None None 1 [])\<lparr>dn_id := 5\<rparr>"
  have d: "counted note_task [6, 7] ?d" "dn_outcome ?d = Reject"
    by (simp_all add: counted_def principal_def new_decision_def note_task_def)
  then have "{d \<in> set [?d]. counted note_task [6, 7] d \<and> dn_outcome d \<in> {Reject, ReturnIt}} \<noteq> {}" by auto
  from step_complete_exact [of "[?d]" note_task "[6, 7]", unfolded if_not_P [OF this]] d(2)
  have "step_complete note_task [?d] [6, 7] = EndRejected" by auto
  then show ?thesis by blast
qed

text \<open>
  C35. In every reachable state every delegation, alone or not, revoked or not, runs forward for at most 366
  days and is to somebody else; and of two delegations of one person in one organization at most one is
  live at any time.
\<close>

theorem delegations_apart:
  assumes "framed reg" "approval_reachable reg s"
  shows "(\<forall>d\<in>set (ap_delegations s). dg_starts d < dg_ends d \<and> dg_ends d \<le> dg_starts d + days 366 \<and> dg_delegator d \<noteq> dg_delegate d) \<and>
    (\<forall>i j ts. i < j \<and> j < length (ap_delegations s) \<and>
       dg_org (ap_delegations s ! i) = dg_org (ap_delegations s ! j) \<and> dg_delegator (ap_delegations s ! i) = dg_delegator (ap_delegations s ! j) \<longrightarrow>
       \<not> (live_at ts (ap_delegations s ! i) \<and> live_at ts (ap_delegations s ! j)))"
proof (intro conjI allI impI)
  have ok: "delegations_ok (ap_delegations s)"
    using approval_reachable_ok [OF assms(1,2)] by (simp add: approval_ok_def)
  then show "\<forall>d\<in>set (ap_delegations s). dg_starts d < dg_ends d \<and> dg_ends d \<le> dg_starts d + days 366 \<and> dg_delegator d \<noteq> dg_delegate d"
    by (auto simp: delegations_ok_def)
  fix i j ts
  let ?d = "ap_delegations s ! i" and ?e = "ap_delegations s ! j"
  assume ij: "i < j \<and> j < length (ap_delegations s) \<and> dg_org ?d = dg_org ?e \<and> dg_delegator ?d = dg_delegator ?e"
  then have "dg_revoked ?d = None \<Longrightarrow> dg_revoked ?e = None \<Longrightarrow> dg_ends ?d \<le> dg_starts ?e \<or> dg_ends ?e \<le> dg_starts ?d"
    using ok sorted_wrt_nth_less [of _ "ap_delegations s" i j] unfolding delegations_ok_def by blast
  then show "\<not> (live_at ts ?d \<and> live_at ts ?e)" by (auto simp: live_at_def)
qed

theorem delegations_apart_witness:
  "\<exists>(s :: approval_db) d e. ap_delegations s = [d, e] \<and> covers_for 10 20 d \<and> covers_for 20 30 e \<and> \<not> (live_at 20 d \<and> live_at 20 e) \<and>
     dg_ends d \<le> dg_starts d + days 366"
proof -
  obtain s d e where s: "approval_reachable note_registry s" "ap_delegations s = [d, e]" "covers_for 10 20 d" "covers_for 20 30 e"
    using leave_reachable by blast
  note apart = delegations_apart [OF notes_framed s(1)]
  from apart have "\<not> (live_at 20 d \<and> live_at 20 e)"
    by (elim conjE allE [of _ 0] allE [of _ 1] allE [of _ 20]) (use s(2-4) in \<open>simp add: covers_for_def\<close>)
  moreover from apart have "dg_ends d \<le> dg_starts d + days 366" using s(2) by simp
  ultimately show ?thesis using s(2-4) by (intro exI [of _ s] exI [of _ d] exI [of _ e]) simp
qed

text \<open>
  The validation of a delegation compares whole days and the table compares the interval: a delegation of 366 days
  and a moment passes the one and violates the other, which the code does not turn into a problem.
\<close>

theorem delegation_year_unchecked:
  "parse_delegation (sample_cover 0 (days 366 + 1)) = Inr (sample_cover 0 (days 366 + 1)) \<and>
   (case create_delegation note_registry 2 8 (sample_cover 0 (days 366 + 1)) note_sent of
      Inl e \<Rightarrow> e = Raised (CheckViolation ''approval_delegation_check'') | Inr r \<Rightarrow> False)"
  by code_simp

end
