(* ===== verification/ProjectDecisions.thy ===== *)
theory ProjectDecisions
  imports ApprovalTheorems
begin

text \<open>
  The engine and the lifecycle together: while a project's approval runs the project does not move, and the
  decision that ends the approval moves the project once, to active exactly when the approval is approved.
\<close>

section \<open>Work that leaves the projects alone\<close>

definition steady :: "approval_db \<Rightarrow> approval_db \<Rightarrow> bool" where
  "steady s t \<longleftrightarrow> projects (tables t) = projects (tables s)"

interpretation steady: tx_preorder steady
  by unfold_locales (auto simp: steady_def)

lemma reads_steady: "tx_rel (=) m \<Longrightarrow> tx_rel steady m"
  by (auto simp: tx_rel_def steady_def)

lemma on_work_steady: "tx_rel (\<lambda>s t. projects (w_db t) = projects (w_db s)) m \<Longrightarrow> tx_rel steady (on_work m)"
  by (auto simp: tx_rel_def steady_def on_work_def tables_def split: sum.splits prod.splits)

lemma on_tables_steady: "tx_rel (\<lambda>s t. projects t = projects s) m \<Longrightarrow> tx_rel steady (on_tables m)"
  by (auto simp: tx_rel_def steady_def on_tables_Inr tables_def)

lemma audit_steady: "tx_rel steady (on_tables (audit_write org a action tt tg bu out reason))"
  by (rule on_tables_steady) (auto simp: tx_rel_def audit_write_Inr)

lemma add_email_projects: "tx_rel (\<lambda>s t. projects (w_db t) = projects (w_db s)) (add_email org to template ctx key)"
  by (auto simp: tx_rel_def add_email_def add_outbox_def insert_outbox_def tx_bind_Inr on_db_def fresh_uuid_Inr Let_def
      split: sum.splits prod.splits)

lemma decision_audit_steady: "tx_rel steady (decision_audit reg r actor)"
proof -
  have "tx_rel steady (\<lambda>s. tx_lift (da_summary a org doc s) s)" for a org doc
    by (auto simp: tx_rel_def steady_def)
  then show ?thesis
    unfolding decision_audit_def
    by (intro tx_branches steady.tx_ok audit_steady on_work_steady add_email_projects)
qed

lemma writes_steady:
  "tx_rel steady (save_instance r)" "tx_rel steady (close_task org i out)" "tx_rel steady (cancel_tasks org i)"
  by (auto simp: tx_rel_def save_instance_def close_task_def cancel_tasks_def steady_def tables_def)

lemma fresh_steady: "tx_rel steady (on_tables fresh_uuid)"
  by (rule on_tables_steady) (auto simp: tx_rel_def fresh_uuid_Inr)

lemma insert_decision_steady: "tx_rel steady (insert_decision d)"
proof -
  have "tx_rel steady (tx_update (\<lambda>s. s\<lparr>ap_decisions := ap_decisions s @ [f s]\<rparr>))" for f
    by (auto simp: tx_rel_def steady_def tables_def)
  then show ?thesis unfolding insert_decision_def by (intro steady.tx_ok fresh_steady)
qed

lemma open_task_steady: "tx_rel steady (open_task reg r n sn)"
proof -
  have "tx_rel steady (tx_update (\<lambda>s. s\<lparr>ap_tasks := ap_tasks s @ [k]\<rparr>))" for k
    by (auto simp: tx_rel_def steady_def tables_def)
  then show ?thesis unfolding open_task_def Let_def by (intro steady.tx_ok fresh_steady reads_steady [OF make_step_reads])
qed

section \<open>The row of an approval\<close>

lemma instance_at_saved:
  assumes "instance_at org i s = Some x" "save_instance r s = Inr (u, t)" "in_org r = org" "in_id r = i"
  shows "instance_at org i t = Some (stored r x)" "in_status (stored r x) = in_status r"
proof -
  have x: "in_org x = org" "in_id x = i" using assms(1) by (auto simp: instance_at_def find_Some_iff)
  have "find (\<lambda>y. in_org y = org \<and> in_id y = i) (map (stored r) (ap_instances s)) = map_option (stored r) (instance_at org i s)"
    unfolding instance_at_def by (rule find_map_same) simp
  then show "instance_at org i t = Some (stored r x)" using assms(1,2) by (simp add: save_instance_Inr instance_at_def)
  show "in_status (stored r x) = in_status r" using x assms(3,4) by (simp add: stored_def)
qed

lemma instance_at_cong: "ap_instances t = ap_instances s \<Longrightarrow> instance_at org i t = instance_at org i s"
  by (simp add: instance_at_def)

lemma instance_found_at: "get_instance_row org i s = Inr (r, t) \<Longrightarrow> instance_at org i s = Some r"
  by (auto simp: get_instance_row_def tx_bind_Inr)

lemma get_instance_row_of:
  assumes "get_instance reg org i s = Inr (x, t)"
  obtains r where "instance_at org i s = Some r" "ir_status x = in_status r" "ir_document x = in_document r" "ir_type x = in_type r" "t = s"
proof -
  have t: "t = s" using tx_relD [OF get_instance_reads assms] by simp
  from assms show ?thesis
    unfolding get_instance_def
  proof (elim tx_bindE, goal_cases)
    case (1 r s1 a s2 sn s3 v s4 ts s5 steps s6 email s7 address s8)
    show ?case by (rule that [OF instance_found_at [OF 1(1)]]) (use 1(9) t in simp_all)
  qed
qed

section \<open>What ending an approval does to the project\<close>

definition project_moved :: "uuid \<Rightarrow> uuid \<Rightarrow> project_status \<Rightarrow> approval_db \<Rightarrow> approval_db \<Rightarrow> bool" where
  "project_moved org doc to s t \<longleftrightarrow> (\<exists>p. projects (tables s) doc = Some p \<and> p_org p = org \<and> p_status p = ApprovalPending \<and>
     projects (tables t) = (projects (tables s))(doc \<mapsto> p\<lparr>p_status := to, p_version := Suc (p_version p)\<rparr>))"

lemma steady_moved: "steady s t \<Longrightarrow> project_moved org doc to t u \<Longrightarrow> project_moved org doc to s u"
  "steady t u \<Longrightarrow> project_moved org doc to s t \<Longrightarrow> project_moved org doc to s u"
  by (simp_all add: steady_def project_moved_def)

lemma adapter_outcome: "da_outcome (project_adapter fs) = project_outcome fs"
  by (simp add: project_adapter_def)

lemma outcome_moved:
  assumes "project_outcome fs org doc out ctx s = Inr (u, t)"
  shows "project_moved org doc (if out = OutApproved then Active else Draft) s t" "ap_instances t = ap_instances s"
  by (rule project_outcome_Inr [OF assms], simp add: project_moved_def moved_def)
    (rule project_outcome_Inr [OF assms], simp add: calm_def)

text \<open>The instance, of a project, and what became of it.\<close>

definition ended_as :: "uuid \<Rightarrow> uuid \<Rightarrow> uuid \<Rightarrow> approval_db \<Rightarrow> approval_db \<Rightarrow> bool" where
  "ended_as org i doc s t \<longleftrightarrow> (\<exists>r. instance_at org i t = Some r \<and>
     (if in_status r = InRunning then steady s t else project_moved org doc (if in_status r = InApproved then Active else Draft) s t))"

lemma ended_asI:
  assumes "instance_at org i t = Some r" "in_status r = InRunning \<Longrightarrow> steady s t"
    "in_status r \<noteq> InRunning \<Longrightarrow> project_moved org doc (if in_status r = InApproved then Active else Draft) s t"
  shows "ended_as org i doc s t"
  using assms by (cases "in_status r = InRunning") (simp_all add: ended_as_def)

lemma ended_as_from:
  assumes "steady s s1" "ended_as org i doc s1 t"
  shows "ended_as org i doc s t"
proof -
  obtain r where r: "instance_at org i t = Some r"
    "if in_status r = InRunning then steady s1 t else project_moved org doc (if in_status r = InApproved then Active else Draft) s1 t"
    using assms(2) unfolding ended_as_def by blast
  show ?thesis
    by (rule ended_asI [OF r(1)]) (use r(2) steady.R_trans [OF assms(1)] steady_moved(1) [OF assms(1)] in simp_all)
qed

lemma approve_ended:
  assumes ad: "adapter_for reg ''project'' = Inr (project_adapter fs)" and r: "in_type r = ''project''" "in_org r = org" "in_id r = i" "in_document r = doc"
    and x: "instance_at org i s = Some x" and run: "approve_instance reg r ctx s = Inr (u, t)"
  shows "ended_as org i doc s t"
  using run unfolding approve_instance_def r(1) ad
proof (elim tx_bindE, goal_cases)
  case (1 a s1 u1 s2 sn s3 ts s4 u2 s5)
  have s4: "s4 = s" "a = project_adapter fs" using 1(1,2,4) tx_relD [OF read_snapshot_reads 1(3)] by auto
  have out: "project_outcome fs org doc OutApproved ctx s5 = Inr (u, t)" using 1(6) s4(2) r by (simp add: adapter_outcome)
  note saved = instance_at_saved [OF x 1(5) [unfolded s4(1)]]
  have "steady s s5" using tx_relD [OF writes_steady(1) 1(5)] s4(1) by simp
  then have "project_moved org doc Active s t" using outcome_moved(1) [OF out] steady_moved(1) by simp
  moreover have "instance_at org i t = Some (stored (r\<lparr>in_status := InApproved, in_node := None, in_finished := Some ts,
      in_approved_version := Some (ss_version sn), in_approved_digest := Some (material_digest sn)\<rparr>) x)"
    using saved(1) instance_at_cong [OF outcome_moved(2) [OF out], of org i] r by simp
  ultimately show ?case using saved(2) r by (intro ended_asI) auto
qed

lemma continue_ended:
  assumes ad: "adapter_for reg ''project'' = Inr (project_adapter fs)" and r: "in_type r = ''project''" "in_org r = org" "in_id r = i" "in_document r = doc"
    and x: "instance_at org i s = Some x" "in_status r = InRunning"
    and run: "(if nd_kind n = EndNode then approve_instance reg (r\<lparr>in_route := route\<rparr>) ctx
       else tx_bind (open_task reg (r\<lparr>in_route := route\<rparr>) n sn) save_instance) s = Inr (u, t)"
  shows "ended_as org i doc s t"
proof (cases "nd_kind n = EndNode")
  case True
  show ?thesis
    by (rule approve_ended [OF ad _ _ _ _ x(1), of "r\<lparr>in_route := route\<rparr>"]) (use run True r in simp_all)
next
  case False
  let ?r = "r\<lparr>in_route := route\<rparr>"
  from False run obtain r' s1 where s1: "open_task reg ?r n sn s = Inr (r', s1)" "save_instance r' s1 = Inr (u, t)"
    by (auto simp: tx_bind_Inr)
  have opened: "r' = opened ?r n" "ap_instances s1 = ap_instances s" by (rule open_task_Inr [OF s1(1)], simp)+
  have at: "instance_at org i s1 = Some x" using x(1) instance_at_cong [OF opened(2)] by simp
  have st: "steady s t" using tx_relD [OF open_task_steady s1(1)] tx_relD [OF writes_steady(1) s1(2)] steady.R_trans by blast
  have "in_org r' = org" "in_id r' = i" "in_status r' = InRunning" using r x(2) by (simp_all add: opened(1))
  with instance_at_saved [OF at s1(2)] show ?thesis by (intro ended_asI [OF _ st]) auto
qed

lemma advance_ended:
  assumes ad: "adapter_for reg ''project'' = Inr (project_adapter fs)" and r: "instance_at org i s = Some r" "in_type r = ''project''"
    and run: "advance reg org i task ctx ds s = Inr (y, t)"
  shows "ended_as org i (in_document r) s t"
  using run unfolding advance_def Let_def
proof (elim tx_bindE, goal_cases)
  case (1 r1 s1 found s2 k s3 u s4 u2 s5 a s6 sn s7 v s8 nr s9)
  have r1: "r1 = r" "s1 = s" using instance_found_at [OF 1(1)] r(1) tx_relD [OF get_row_reads(1) 1(1)] by simp_all
  have run1: "in_status r = InRunning" "s4 = s" using 1(2-4) r1 by simp_all
  have s5: "steady s s5" "ap_instances s5 = ap_instances s"
    using tx_relD [OF writes_steady(2) 1(5)] 1(5) run1(2) by (simp_all add: close_task_def)
  have s9: "s9 = s5"
    using 1(6,7) tx_relD [OF read_snapshot_reads 1(7)] tx_relD [OF get_row_reads(2) 1(8)] tx_relD [OF walk_from_reads 1(9)] by simp
  have ids: "in_org r = org" "in_id r = i" using r(1) by (auto simp: instance_at_def find_Some_iff)
  obtain n route where nr: "nr = (n, route)" by (cases nr)
  let ?r = "r\<lparr>in_route := map (complete_entry (tk_node k) (deciders (oc_actor ctx) task ds)) (in_route r)\<rparr>"
  from 1(10) [unfolded r1(1) nr s9 prod.case] obtain u3 s10 where s10: "(if nd_kind n = EndNode then approve_instance reg (?r\<lparr>in_route := route\<rparr>) ctx
      else tx_bind (open_task reg (?r\<lparr>in_route := route\<rparr>) n sn) save_instance) s5 = Inr (u3, s10)" "get_instance reg org i s10 = Inr (y, t)"
    by (auto simp: tx_bind_Inr)
  have at: "instance_at org i s5 = Some r" using r(1) instance_at_cong [OF s5(2)] by simp
  have "ended_as org i (in_document r) s5 s10"
    by (rule continue_ended [OF ad _ _ _ _ at _ s10(1)]) (simp_all add: r ids run1)
  moreover have "t = s10" using tx_relD [OF get_instance_reads s10(2)] by simp
  ultimately show ?case using ended_as_from [OF s5(1)] by simp
qed

lemma end_ended:
  assumes ad: "adapter_for reg ''project'' = Inr (project_adapter fs)" and r: "instance_at org i s = Some r" "in_type r = ''project''"
    and out: "out \<noteq> OutApproved" and run: "end_instance reg r out ctx s = Inr (r', t)"
  shows "ended_as org i (in_document r) s t" "in_id r' = i" "in_org r' = org"
proof -
  have ids: "in_org r = org" "in_id r = i" using r(1) by (auto simp: instance_at_def find_Some_iff)
  have "ended_as org i (in_document r) s t \<and> in_id r' = i \<and> in_org r' = org"
    using run unfolding end_instance_def Let_def
  proof (elim tx_bindE, goal_cases)
    case (1 u s1 ts s2 u2 s3 a s4 u3 s5)
    let ?r = "r\<lparr>in_route := map (end_entry (in_node r) out (oc_actor ctx)) (in_route r), in_status := ended_status out,
      in_node := None, in_finished := Some ts\<rparr>"
    have s2: "s2 = s1" "steady s s1" "ap_instances s1 = ap_instances s"
      using 1(2) tx_relD [OF writes_steady(3) 1(1)] 1(1) by (simp_all add: cancel_tasks_def)
    have at: "instance_at org i s1 = Some r" using r(1) instance_at_cong [OF s2(3)] by simp
    note saved = instance_at_saved [OF at 1(3) [unfolded s2(1)]]
    have s4: "s4 = s3" "a = project_adapter fs" using 1(4) ad r(2) by simp_all
    have done1: "project_outcome fs org (in_document r) out ctx s3 = Inr (u3, s5)" using 1(5) s4 ids by (simp add: adapter_outcome)
    have t: "t = s5" "r' = ?r" using 1(6) by simp_all
    have "steady s s3" using s2 tx_relD [OF writes_steady(1) 1(3)] steady.R_trans by blast
    then have "project_moved org (in_document r) Draft s t"
      using outcome_moved(1) [OF done1] out t(1) steady_moved(1) by auto
    moreover have "instance_at org i t = Some (stored ?r r)" "in_status (stored ?r r) = ended_status out"
      using saved ids instance_at_cong [OF outcome_moved(2) [OF done1], of org i] by (simp_all add: t(1))
    moreover have "ended_status out \<noteq> InApproved" "ended_status out \<noteq> InRunning"
      using out by (simp_all add: ended_status_def split: document_outcome.splits)
    ultimately show ?case using ids by (auto simp: t(2) intro: ended_asI)
  qed
  then show "ended_as org i (in_document r) s t" "in_id r' = i" "in_org r' = org" by simp_all
qed

lemma apply_ended:
  assumes ad: "adapter_for reg ''project'' = Inr (project_adapter fs)" and r: "instance_at org i s = Some r" "in_type r = ''project''" "in_status r = InRunning"
    and run: "apply_decision reg r k base ctx out s = Inr (r', t)"
  shows "ended_as org i (in_document r) s t" "in_id r' = i" "in_org r' = org"
proof -
  have ids: "in_org r = org" "in_id r = i" using r(1) by (auto simp: instance_at_def find_Some_iff)
  have "ended_as org i (in_document r) s t \<and> in_id r' = i \<and> in_org r' = org"
  proof (cases "out = Reject \<or> out = ReturnIt")
    case True
    then obtain o1 o2 u s1 where s1: "close_task org (tk_id k) o1 s = Inr (u, s1)" "end_instance reg r o2 ctx s1 = Inr (r', t)" "o2 \<noteq> OutApproved"
      using run ids by (auto simp: apply_decision_def tx_bind_Inr split: if_splits)
    have s: "steady s s1" "instance_at org i s1 = Some r"
      using tx_relD [OF writes_steady(2) s1(1)] s1(1) r(1) by (simp_all add: close_task_def instance_at_def)
    show ?thesis using end_ended [OF ad s(2) r(2) s1(3,2)] ended_as_from [OF s(1)] by simp
  next
    case False
    show ?thesis
    proof (cases "out = Approve \<and> step_complete k (decisions_of org i s) base = Complete")
      case True
      then obtain y s1 where a: "advance reg org i (tk_id k) ctx (decisions_of org i s) s = Inr (y, s1)"
        "get_instance_row org i s1 = Inr (r', t)"
        using run ids by (auto simp: apply_decision_def tx_bind_Inr)
      then show ?thesis using advance_ended [OF ad r(1,2) a(1)] instance_found [OF a(2)] by simp
    next
      case no: False
      then have "t = s" "r' = r" using run False ids by (auto simp: apply_decision_def tx_bind_Inr split: if_splits)
      moreover have "ended_as org i (in_document r) s s" by (rule ended_asI [OF r(1)]) (simp_all add: r(3) steady.R_refl)
      ultimately show ?thesis using ids by simp
    qed
  qed
  then show "ended_as org i (in_document r) s t" "in_id r' = i" "in_org r' = org" by simp_all
qed

text \<open>
  C36. While the approval of a project runs, decisions do not move the project.  The decision that ends it moves the
  project out of its pending status, to active if the approval was approved and back to draft otherwise,
  counting one version; no other project changes.
\<close>

theorem project_follows_approval:
  assumes "adapter_for reg ''project'' = Inr (project_adapter fs)" "task_instance org task s = Inr (i, s)" "instance_at org i s = Some r"
    "in_type r = ''project''" "decide reg org task actor body s = Inr ((d, x), t)"
  shows "if ir_status x = InRunning then projects (tables t) = projects (tables s)
    else \<exists>p. projects (tables s) (in_document r) = Some p \<and> p_org p = org \<and> p_status p = ApprovalPending \<and>
      projects (tables t) = (projects (tables s))(in_document r \<mapsto>
        p\<lparr>p_status := (if ir_status x = InApproved then Active else Draft), p_version := Suc (p_version p)\<rparr>)"
  using assms(5) unfolding decide_def
proof (elim tx_bindE, goal_cases)
  case (1 c s1)
  obtain r1 k a sn base delegates who where c: "c = (r1, k, a, sn, base, delegates, who)" by (cases c)
  note ch = decision_checks_Inr [OF 1(1) [unfolded c]]
  have i: "in_id r1 = i" using ch(16) assms(2) by simp
  then have r1: "r1 = r" using ch(17) assms(3) by simp
  have a: "a = project_adapter fs" using ch(13) assms(1,4) r1 by simp
  from 1(2) show ?case unfolding c prod.case
  proof (elim tx_bindE, goal_cases)
    case (1 listed s2 j s3 u s4 r' s5 u2 s6 ds s7 d2 s8 y s9)
    have s2: "s2 = s" using 1(1) ch(1) by simp
    have z: "get_instance reg org (in_id r') s8 = Inr (x, t)" using 1(8,9) by simp
    have s8: "s8 = s6" using tx_relD [OF decisions_for_reads 1(6)] 1(7) by simp
    have "da_prepare a = None" by (simp add: a project_adapter_def project_answers_def)
    then have s4: "s4 = s3" using 1(3) by (simp add: prepare_document_def split: if_splits)
    have st: "steady s s3" using tx_relD [OF insert_decision_steady 1(2)] s2 by simp
    have "ap_instances s3 = ap_instances s" by (rule insert_decision_Inr [OF 1(2) [unfolded s2]])
    from instance_at_cong [OF this, of org i] have at: "instance_at org i s3 = Some r" using assms(3) by simp
    have "in_status r = InRunning" using ch(5) r1 by simp
    note ended = apply_ended [OF assms(1) at assms(4) this 1(4) [unfolded s4 r1]]
    have audit: "steady s5 s6" "calm s5 s6"
      using tx_relD [OF decision_audit_steady 1(5)] tx_relD [OF decision_audit_calm 1(5)] by simp_all
    obtain q where q: "instance_at org i s5 = Some q"
      "if in_status q = InRunning then steady s3 s5 else project_moved org (in_document r) (if in_status q = InApproved then Active else Draft) s3 s5"
      using ended(1) unfolding ended_as_def by blast
    have "ap_instances s6 = ap_instances s5" using audit(2) by (simp add: calm_def)
    from instance_at_cong [OF this, of org i] q(1) have q6: "instance_at org i s6 = Some q" by simp
    have x: "ir_status x = in_status q" "t = s6"
      by (rule get_instance_row_of [OF z [unfolded s8 ended(2)]], use q6 in simp)+
    show ?case
    proof (cases "in_status q = InRunning")
      case True
      then show ?thesis using q(2) x st audit(1) by (simp add: steady_def)
    next
      case False
      then have "project_moved org (in_document r) (if ir_status x = InApproved then Active else Draft) s t"
        using q(2) x steady_moved(1) [OF st] steady_moved(2) [OF audit(1)] by simp
      then show ?thesis using False x by (simp add: project_moved_def)
    qed
  qed
qed

section \<open>A project returned\<close>

text \<open>Project 100 of the sample organization, submitted by user 9 and returned by user 8.\<close>

definition pending_db :: db where
  "pending_db = (people [8] ''project.approve'' empty_db)\<lparr>
     units := [\<lparr>u_id = 10, u_org = 2, u_parent = None, u_code = ''B'', u_name = ''W'', u_kind = BusinessUnit, u_active = True\<rparr>],
     scopes := [\<lparr>sc_org = 2, sc_kind = ScopeProject, sc_id = 100, sc_parent_kind = ScopeUnit, sc_parent = 10, sc_roll_down = True\<rparr>,
       \<lparr>sc_org = 2, sc_kind = ScopeUnit, sc_id = 10, sc_parent_kind = ScopeOrg, sc_parent = 2, sc_roll_down = True\<rparr>],
     projects := [100 \<mapsto> (sample_project None)\<lparr>p_status := ApprovalPending\<rparr>],
     status_events := [\<lparr>se_org = 2, se_project = 100, se_from = Draft, se_to = ApprovalPending, se_actor = Some 9,
       se_system_actor = None, se_reason = None, se_override = False, se_blocked = (0, 0, 0, ''USD'')\<rparr>]\<rparr>"

definition project_registry :: registry where
  "project_registry = [(''project'', project_adapter [])]"

definition pending_row :: instance_row where
  "pending_row = note_row\<lparr>in_type := ''project'', in_document := 100\<rparr>"

definition project_sent :: approval_db where
  "project_sent = (fresh_approvals pending_db ''project'' AnyMode)\<lparr>ap_instances := [pending_row], ap_tasks := [note_task\<lparr>tk_mode := AnyMode\<rparr>]\<rparr>"

definition sample_return :: decision_write where
  "sample_return = (sample_decision ReturnIt 1)\<lparr>dw_comment := Some ''no''\<rparr>"

lemma project_returned:
  "case decide project_registry 2 1001 8 sample_return project_sent of
     Inr ((d, x), t) \<Rightarrow> ir_status x = InReturned \<and> map_option p_status (projects (tables t) 100) = Some Draft | _ \<Rightarrow> False"
  by code_simp

theorem project_follows_approval_witness:
  "\<exists>d x t. decide project_registry 2 1001 8 sample_return project_sent = Inr ((d, x), t) \<and> ir_status x = InReturned \<and>
     projects (tables t) = (projects (tables project_sent))(100 \<mapsto> (sample_project None)\<lparr>p_status := Draft, p_version := 2\<rparr>)"
proof -
  obtain d x t where run: "decide project_registry 2 1001 8 sample_return project_sent = Inr ((d, x), t)" "ir_status x = InReturned"
    using project_returned by (auto split: sum.splits)
  have "adapter_for project_registry ''project'' = Inr (project_adapter [])" by (simp add: project_registry_def adapter_for_def)
  moreover have "task_instance 2 1001 project_sent = Inr (1000, project_sent)" "instance_at 2 1000 project_sent = Some pending_row"
    "in_type pending_row = ''project''" "in_document pending_row = 100"
    by (simp_all add: task_instance_def instance_at_def project_sent_def pending_row_def note_row_def note_task_def tx_eval tx_some_def)
  moreover have "projects (tables project_sent) 100 = Some ((sample_project None)\<lparr>p_status := ApprovalPending\<rparr>)"
    by (simp add: project_sent_def fresh_approvals_def tables_def pending_db_def)
  ultimately show ?thesis
    using project_follows_approval [OF _ _ _ _ run(1), of "[]" 1000 pending_row] run by (auto simp: sample_project_def)
qed

end
