(* ===== verification/Sessions.thy ===== *)
theory Sessions
  imports Access "HOL-Library.Sublist"
begin

text \<open>
  \<open>flo/kernel/session\<close>: opaque browser sessions kept as the hash of a random token, their idle and
  absolute expiry, rotation and revocation, the recent-authentication guard, the double-submit
  CSRF check and the resolution of a request's session cookie.

  The randomness of \<open>secrets.token_urlsafe\<close> is an argument (the token drawn), SHA-256 a
  parameter of the store, and so is the coarse network prefix of a request's device.
\<close>

section \<open>Devices\<close>

record device =
  dv_ip :: "string option"
  dv_agent :: string

definition browser_family :: "string \<Rightarrow> string" where
  "browser_family value =
     (if sublist ''Edg/'' value then ''Edge''
      else if sublist ''Firefox/'' value then ''Firefox''
      else if sublist ''Chrome/'' value \<or> sublist ''CriOS/'' value then ''Chrome''
      else if sublist ''Safari/'' value then ''Safari''
      else ''Other browser'')"

definition platform_family :: "string \<Rightarrow> string" where
  "platform_family value =
     (if sublist ''iPhone'' value \<or> sublist ''iPad'' value then ''iOS''
      else if sublist ''Android'' value then ''Android''
      else if sublist ''Windows'' value then ''Windows''
      else if sublist ''Macintosh'' value \<or> sublist ''Mac OS X'' value then ''macOS''
      else if sublist ''Linux'' value then ''Linux''
      else ''unknown platform'')"

definition coarse_user_agent :: "string option \<Rightarrow> string" where
  "coarse_user_agent user_agent =
     (let value = (case user_agent of None \<Rightarrow> [] | Some v \<Rightarrow> v)
      in browser_family value @ '' on '' @ platform_family value)"

section \<open>The table\<close>

abbreviation seconds :: timestamp where
  "seconds \<equiv> 1000000"

definition hex64 :: "string \<Rightarrow> bool" where
  "hex64 h \<longleftrightarrow> length h = 64 \<and> list_all (\<lambda>c. c \<in> set ''0123456789abcdef'') h"

text \<open>The CHECK constraints of \<open>auth_session\<close> (migrations 0004 and 0011), in the order they are tested.\<close>

definition session_violation :: "session_row \<Rightarrow> string option" where
  "session_violation r =
     (if \<not> (sn_created r \<le> sn_seen r \<and> sn_seen r \<le> sn_idle r \<and> sn_idle r \<le> sn_absolute r)
        then Some ''auth_session_expiry_order''
      else if \<not> 0 < sn_idle_seconds r then Some ''auth_session_idle_timeout_seconds_check''
      else if \<not> (case sn_mfa r of None \<Rightarrow> True | Some m \<Rightarrow> sn_created r \<le> m \<and> m \<le> sn_seen r)
        then Some ''auth_session_mfa_verification_order''
      else if \<not> (sn_created r \<le> sn_auth r \<and> sn_auth r \<le> sn_seen r) then Some ''auth_session_recent_auth_order''
      else if \<not> (case sn_revoked r of None \<Rightarrow> True | Some v \<Rightarrow> sn_created r \<le> v)
        then Some ''auth_session_revocation_order''
      else if \<not> hex64 (sn_hash r) then Some ''auth_session_token_hash_sha256''
      else None)"

definition insert_session :: "session_row \<Rightarrow> (db, unit) tx" where
  "insert_session r =
     tx_bind (tx_require (sn_idle_seconds r \<le> 2147483647) (Raised NumericValueOutOfRange)) (\<lambda>_.
     tx_bind (case session_violation r of None \<Rightarrow> tx_return () | Some c \<Rightarrow> tx_fail (Raised (CheckViolation c))) (\<lambda>_.
     tx_bind (tx_read (\<lambda>s. list_ex (\<lambda>x. sn_id x = sn_id r) (sessions s))) (\<lambda>known.
     tx_bind (tx_require (\<not> known) (Raised (UniqueViolation ''auth_session_pkey''))) (\<lambda>_.
     tx_bind (tx_read (\<lambda>s. list_ex (\<lambda>x. sn_hash x = sn_hash r) (sessions s))) (\<lambda>taken.
     tx_bind (tx_require (\<not> taken) (Raised (UniqueViolation ''auth_session_token_hash_key''))) (\<lambda>_.
     tx_update (\<lambda>s. s\<lparr>sessions := sessions s @ [r]\<rparr>)))))))"

text \<open>An UPDATE of the rows that satisfy \<open>P\<close>; the rows it returns are the new ones.\<close>

definition update_sessions :: "(session_row \<Rightarrow> bool) \<Rightarrow> (session_row \<Rightarrow> session_row) \<Rightarrow> (db, session_row list) tx" where
  "update_sessions P f = (\<lambda>s.
     let rows = map f (filter P (sessions s)) in
     case List.map_filter session_violation rows of
       c # _ \<Rightarrow> Inl (Raised (CheckViolation c))
     | [] \<Rightarrow> Inr (rows, s\<lparr>sessions := map (\<lambda>r. if P r then f r else r) (sessions s)\<rparr>))"

section \<open>The store\<close>

record session_store =
  ss_idle :: timestamp
  ss_absolute :: timestamp
  ss_digest :: "string \<Rightarrow> string"       \<comment> \<open>\<open>hash_session_token\<close>\<close>

definition make_session_store :: "timestamp \<Rightarrow> timestamp \<Rightarrow> (string \<Rightarrow> string) \<Rightarrow> problem + session_store" where
  "make_session_store idle absolute digest =
     (if idle \<le> 0 then Inl (Raised ValueError)
      else if absolute < idle then Inl (Raised ValueError)
      else Inr \<lparr>ss_idle = idle, ss_absolute = absolute, ss_digest = digest\<rparr>)"

datatype rotation_reason = LoginRotation | MfaCompletion | PasswordChange

text \<open>The organization of an identity with exactly one membership.\<close>

definition only_organization :: "uuid \<Rightarrow> db \<Rightarrow> uuid option" where
  "only_organization identity s =
     (case filter (\<lambda>m. mb_identity m = identity) (members s) of [m] \<Rightarrow> Some (mb_org m) | _ \<Rightarrow> None)"

definition new_session ::
  "session_store \<Rightarrow> uuid \<Rightarrow> uuid \<Rightarrow> string \<Rightarrow> device \<Rightarrow> timestamp \<Rightarrow> bool \<Rightarrow> uuid option \<Rightarrow> session_row" where
  "new_session st i identity token dev ts mfa org =
     \<lparr>sn_id = i, sn_identity = identity, sn_hash = ss_digest st token, sn_created = ts, sn_seen = ts, sn_auth = ts,
      sn_mfa = (if mfa then Some ts else None), sn_idle_seconds = ss_idle st div seconds,
      sn_idle = ts + ss_idle st, sn_absolute = ts + ss_absolute st, sn_org = org, sn_revoked = None,
      sn_ip = dv_ip dev, sn_agent = dv_agent dev\<rparr>"

definition issue_session :: "session_store \<Rightarrow> uuid \<Rightarrow> device \<Rightarrow> bool \<Rightarrow> string \<Rightarrow> (db, session_row \<times> string) tx" where
  "issue_session st identity dev mfa token =
     tx_bind (tx_read clock) (\<lambda>ts.
     tx_bind fresh_uuid (\<lambda>i.
     tx_bind (tx_read (active_identity identity)) (\<lambda>active.
     tx_bind (tx_require active (Raised SessionIssueDenied)) (\<lambda>_.
     tx_bind (tx_read (only_organization identity)) (\<lambda>org.
     let row = new_session st i identity token dev ts mfa org in
     tx_bind (insert_session row) (\<lambda>_.
     tx_return (row, token)))))))"

definition live_session :: "timestamp \<Rightarrow> session_row \<Rightarrow> bool" where
  "live_session ts r \<longleftrightarrow> sn_revoked r = None \<and> ts < sn_idle r \<and> ts < sn_absolute r"

definition refreshed :: "timestamp \<Rightarrow> session_row \<Rightarrow> session_row" where
  "refreshed ts r = r\<lparr>sn_seen := ts, sn_idle := min (ts + sn_idle_seconds r * seconds) (sn_absolute r)\<rparr>"

text \<open>A token that resolves to no live session; the reuse of a revoked one leaves evidence.\<close>

definition refuse_session ::
  "session_store \<Rightarrow> string \<Rightarrow> device \<Rightarrow> timestamp \<Rightarrow> (db, (session_row \<times> bool) option) tx" where
  "refuse_session st token dev ts =
     tx_bind (tx_read (\<lambda>s. find (\<lambda>r. sn_hash r = ss_digest st token) (sessions s))) (\<lambda>rejected.
     case rejected of
       Some r \<Rightarrow>
         if sn_revoked r \<noteq> None then
           tx_bind (tx_update (\<lambda>s. s\<lparr>session_events := session_events s @ [\<lparr>sv_session = Some (sn_id r),
             sv_identity = sn_identity r, sv_type = ''revoked_token_reuse'', sv_at = ts,
             sv_ip = dv_ip dev, sv_agent = dv_agent dev\<rparr>]\<rparr>)) (\<lambda>_. tx_return None)
         else tx_return None
     | None \<Rightarrow> tx_return None)"

text \<open>The session with the flag \<open>org_selection_required\<close>.\<close>

definition authenticate_session ::
  "session_store \<Rightarrow> string \<Rightarrow> device \<Rightarrow> (db, (session_row \<times> bool) option) tx" where
  "authenticate_session st token dev =
     tx_bind (tx_read clock) (\<lambda>ts.
     tx_bind (tx_read (\<lambda>s i. active_identity i s)) (\<lambda>active.
     tx_bind (update_sessions (\<lambda>r. sn_hash r = ss_digest st token \<and> live_session ts r \<and> active (sn_identity r)) (refreshed ts)) (\<lambda>rows.
     case rows of
       r # _ \<Rightarrow> tx_read (\<lambda>s. Some (r, sn_org r = None \<and>
           2 \<le> length (filter (\<lambda>m. mb_identity m = sn_identity r) (members s))))
     | [] \<Rightarrow> refuse_session st token dev ts)))"

definition rotate_session ::
  "session_store \<Rightarrow> session_row \<Rightarrow> uuid \<Rightarrow> device \<Rightarrow> rotation_reason \<Rightarrow> bool \<Rightarrow> string \<Rightarrow> (db, session_row \<times> string) tx" where
  "rotate_session st current identity dev reason mfa token =
     tx_bind (tx_read clock) (\<lambda>ts.
     tx_bind fresh_uuid (\<lambda>i.
     tx_bind (tx_read (active_identity identity)) (\<lambda>active.
     tx_bind (tx_require active (Raised SessionIssueDenied)) (\<lambda>_.
     tx_bind (update_sessions (\<lambda>r. sn_id r = sn_id current \<and> sn_revoked r = None) (\<lambda>r. r\<lparr>sn_revoked := Some ts\<rparr>)) (\<lambda>revoked.
     tx_bind (tx_require (length revoked = 1) (Raised LookupMissing)) (\<lambda>_.
     tx_bind (tx_read (\<lambda>s. if reason = LoginRotation then only_organization identity s else sn_org current)) (\<lambda>org.
     let row = new_session st i identity token dev ts mfa org in
     tx_bind (insert_session row) (\<lambda>_.
     tx_return (row, token)))))))))"

text \<open>Newest first, then by id; each with whether it is the current one.\<close>

definition list_active_sessions :: "uuid \<Rightarrow> uuid \<Rightarrow> db \<Rightarrow> (session_row \<times> bool) list" where
  "list_active_sessions identity current s =
     map (\<lambda>r. (r, sn_id r = current))
       (sort_key (\<lambda>r. - sn_created r) (sort_key sn_id
         (filter (\<lambda>r. sn_identity r = identity \<and> live_session (clock s) r) (sessions s))))"

definition revoke_session :: "uuid \<Rightarrow> uuid \<Rightarrow> (db, bool) tx" where
  "revoke_session i identity =
     tx_bind (tx_read clock) (\<lambda>ts.
     tx_bind (update_sessions (\<lambda>r. sn_id r = i \<and> sn_identity r = identity \<and> sn_revoked r = None)
       (\<lambda>r. r\<lparr>sn_revoked := Some ts\<rparr>)) (\<lambda>rows.
     tx_return (length rows = 1)))"

definition revoke_other_sessions :: "uuid \<Rightarrow> uuid \<Rightarrow> (db, nat) tx" where
  "revoke_other_sessions identity current =
     tx_bind (tx_read clock) (\<lambda>ts.
     tx_bind (update_sessions (\<lambda>r. sn_identity r = identity \<and> sn_id r \<noteq> current \<and> sn_revoked r = None)
       (\<lambda>r. r\<lparr>sn_revoked := Some ts\<rparr>)) (\<lambda>rows.
     tx_return (length rows)))"

definition revoke_every_session :: "uuid \<Rightarrow> (db, nat) tx" where
  "revoke_every_session identity = tx_bind (tx_read clock) (revoke_all_sessions identity)"

section \<open>Guards\<close>

text \<open>\<open>requires_recent_auth\<close>: the age a decorated endpoint allows, and its check of one request.\<close>

definition recent_auth_age :: "timestamp \<Rightarrow> problem + timestamp" where
  "recent_auth_age max_age = (if max_age \<le> 0 then Inl (Raised ValueError) else Inr max_age)"

definition recent_auth :: "timestamp \<Rightarrow> timestamp \<Rightarrow> session_row option \<Rightarrow> problem + session_row" where
  "recent_auth max_age ts session =
     (case session of
        None \<Rightarrow> Inl (Problem Unauthorized None)
      | Some r \<Rightarrow> if max_age < ts - sn_auth r then Inl (Problem StepUpRequired None) else Inr r)"

definition csrf_check :: "string \<Rightarrow> string \<Rightarrow> string \<Rightarrow> problem + unit" where
  "csrf_check http_method cookie_token header_token =
     (if http_method \<in> {''DELETE'', ''PATCH'', ''POST'', ''PUT''} \<and> (cookie_token = [] \<or> cookie_token \<noteq> header_token)
      then Inl (Problem Forbidden None) else Inr ())"

text \<open>
  \<open>SessionAuthenticationMiddleware\<close>: the session the request's cookie resolves to, and whether the
  response must expire the cookie.
\<close>

definition resolve_cookie ::
  "session_store \<Rightarrow> string option \<Rightarrow> device \<Rightarrow> (db, (session_row \<times> bool) option \<times> bool) tx" where
  "resolve_cookie st cookie dev =
     (case cookie of
        None \<Rightarrow> tx_return (None, False)
      | Some token \<Rightarrow>
          if token = [] then tx_return (None, False)
          else tx_bind (authenticate_session st token dev) (\<lambda>found. tx_return (found, found = None)))"

end
