(* ===== verification/Credentials.thy ===== *)
theory Credentials
  imports Sessions Outbox
begin

text \<open>
  \<open>flo/kernel/identity\<close> without its second factor: the password policy (\<open>policy.py\<close>), local
  credentials (\<open>local.py\<close>, \<open>hashing.py\<close>), failed-login windows (\<open>throttle.py\<close>) and password
  resets (\<open>reset.py\<close>), over the tables of migrations 0002, 0010 and 0029.

  Argon2, Unicode normalisation and SHA-256 are parameters.  Text is ASCII, so \<open>str.fold_case\<close> lowers
  letters.  A sign-in runs several transactions on one autocommit connection: what an earlier one
  wrote stays when a later one fails, so requests return the state with the error too.
\<close>

section \<open>Requests over several transactions\<close>

type_synonym ('s, 'a) request = "'s \<Rightarrow> (problem + 'a) \<times> 's"

definition rq_return :: "'a \<Rightarrow> ('s, 'a) request" where
  "rq_return x = (\<lambda>s. (Inr x, s))"

definition rq_fail :: "problem \<Rightarrow> ('s, 'a) request" where
  "rq_fail e = (\<lambda>s. (Inl e, s))"

definition rq_bind :: "('s, 'a) request \<Rightarrow> ('a \<Rightarrow> ('s, 'b) request) \<Rightarrow> ('s, 'b) request" where
  "rq_bind m k = (\<lambda>s. case m s of (Inl e, t) \<Rightarrow> (Inl e, t) | (Inr x, t) \<Rightarrow> k x t)"

definition rq_read :: "('s \<Rightarrow> 'a) \<Rightarrow> ('s, 'a) request" where
  "rq_read f = (\<lambda>s. (Inr (f s), s))"

text \<open>One transaction: rolled back when it raises, committed otherwise.\<close>

definition commit_tx :: "('s, 'a) tx \<Rightarrow> ('s, 'a) request" where
  "commit_tx m = (\<lambda>s. case m s of Inl e \<Rightarrow> (Inl e, s) | Inr (x, t) \<Rightarrow> (Inr x, t))"

text \<open>One transaction that commits and answers an error to raise after it.\<close>

definition settle :: "('s, problem + 'a) tx \<Rightarrow> ('s, 'a) request" where
  "settle m = (\<lambda>s. case m s of Inl e \<Rightarrow> (Inl e, s) | Inr (r, t) \<Rightarrow> (r, t))"

lemmas rq_defs = rq_return_def rq_fail_def rq_bind_def rq_read_def commit_tx_def settle_def

section \<open>The tables\<close>

datatype attempt_kind = IdentityAttempt | ClientAttempt
datatype attempt_outcome = AttemptFailed | AttemptThrottled | AttemptSucceeded

record attempt_row =
  la_id :: nat
  la_kind :: attempt_kind
  la_key :: string
  la_outcome :: attempt_outcome
  la_time :: timestamp

record reset_row =
  rs_id :: uuid
  rs_identity :: uuid
  rs_hash :: string
  rs_created :: timestamp
  rs_expires :: timestamp
  rs_used :: "timestamp option"

record factor_row =
  fa_secret :: "string option"
  fa_set :: "uuid option"
  fa_activated :: "timestamp option"
  fa_pending :: "string option"
  fa_pending_set :: "uuid option"
  fa_failed :: nat
  fa_window :: "timestamp option"
  fa_locked :: "timestamp option"
  fa_updated :: timestamp

record recovery_row =
  rc_selector :: uuid
  rc_identity :: uuid
  rc_set :: uuid
  rc_hash :: string
  rc_created :: timestamp
  rc_used :: "timestamp option"

record mfa_event =
  me_identity :: uuid
  me_session :: uuid
  me_type :: string
  me_at :: timestamp
  me_ip :: "string option"
  me_agent :: string

record auth_db =
  a_work :: work_db
  a_attempts :: "attempt_row list"
  a_attempt_seq :: nat
  a_resets :: "reset_row list"
  a_limits :: "(string \<times> string \<times> timestamp) list"   \<comment> \<open>dimension, key and time\<close>
  a_factors :: "uuid \<rightharpoonup> factor_row"
  a_codes :: "recovery_row list"
  a_steps :: "(uuid \<times> int \<times> timestamp) list"         \<comment> \<open>identity, time step, consumed at\<close>
  a_mfa_events :: "mfa_event list"

definition users :: "auth_db \<Rightarrow> db" where
  "users s = w_db (a_work s)"

definition now_at :: "auth_db \<Rightarrow> timestamp" where
  "now_at s = clock (users s)"

definition on_mail :: "(work_db, 'a) tx \<Rightarrow> (auth_db, 'a) tx" where
  "on_mail m = (\<lambda>s. case m (a_work s) of Inl e \<Rightarrow> Inl e | Inr (x, w) \<Rightarrow> Inr (x, s\<lparr>a_work := w\<rparr>))"

definition on_users :: "(db, 'a) tx \<Rightarrow> (auth_db, 'a) tx" where
  "on_users m = on_mail (on_db m)"

definition fold_case :: "string \<Rightarrow> string" where
  "fold_case = map char_lower"

section \<open>The password policy\<close>

datatype violation = TooShort | TooLong | Compromised

type_synonym blocklist = "string \<Rightarrow> string list"

text \<open>\<open>str.partition\<close>: what lies before and after the first separator, and whether there is one.\<close>

definition partition_at :: "char \<Rightarrow> string \<Rightarrow> string \<times> bool \<times> string" where
  "partition_at c line =
     (let before_it = takeWhile (\<lambda>x. x \<noteq> c) line; rest = dropWhile (\<lambda>x. x \<noteq> c) line
      in (before_it, rest \<noteq> [], drop 1 rest))"

fun bundled_blocklist :: "string list \<Rightarrow> problem + blocklist" where
  "bundled_blocklist [] = Inr (\<lambda>_. [])"
| "bundled_blocklist (line # rest) =
     (if line = [] \<or> hd line = CHR ''#'' then bundled_blocklist rest
      else case partition_at (CHR '':'') line of (lead, found, tail) \<Rightarrow>
        if \<not> found \<or> length lead \<noteq> 5 \<or> length tail \<noteq> 59 then Inl runtime_error
        else case bundled_blocklist rest of
               Inl e \<Rightarrow> Inl e
             | Inr b \<Rightarrow> Inr (b(lead := tail # b lead)))"

record hashing =
  ha_nfkc :: "string \<Rightarrow> string"
  ha_upper_digest :: "string \<Rightarrow> string"   \<comment> \<open>SHA-256 in upper-case hexadecimal digits\<close>
  ha_hash :: "string \<Rightarrow> string"           \<comment> \<open>Argon2id with the salt drawn\<close>
  ha_verify :: "string \<Rightarrow> string \<Rightarrow> bool"
  ha_stale :: "string \<Rightarrow> bool"            \<comment> \<open>\<open>check_needs_rehash\<close>\<close>
  ha_dummy :: string                      \<comment> \<open>the hash verified for an unknown account\<close>
  ha_free :: bool                         \<comment> \<open>a permit comes within two seconds\<close>
  ha_idle :: bool                         \<comment> \<open>a permit is free at once\<close>
  ha_blocked :: blocklist

definition compromised :: "hashing \<Rightarrow> string \<Rightarrow> bool" where
  "compromised h password = (let d = ha_upper_digest h password in drop 5 d \<in> set (ha_blocked h (take 5 d)))"

definition policy_violations :: "hashing \<Rightarrow> bool \<Rightarrow> string \<Rightarrow> violation list" where
  "policy_violations h mfa_enrolled password =
     (let normalized = ha_nfkc h password; least = (if mfa_enrolled then 8 else 15)
      in (if length normalized < least then [TooShort] else []) @
         (if 256 < length normalized then [TooLong] else []) @
         (if compromised h normalized then [Compromised] else []))"

definition require_policy :: "hashing \<Rightarrow> string \<Rightarrow> ('s, unit) tx" where
  "require_policy h password =
     tx_require (policy_violations h False password = []) (Raised PasswordPolicyFailed)"

section \<open>Local credentials\<close>

text \<open>\<open>run_argon2\<close>: one hashing operation within the capacity, or an overload answer.\<close>

definition run_argon2 :: "hashing \<Rightarrow> 'a \<Rightarrow> ('s, 'a) tx" where
  "run_argon2 h x = tx_bind (tx_require (ha_free h) (Problem ServiceUnavailable None)) (\<lambda>_. tx_return x)"

definition find_by_email :: "string \<Rightarrow> db \<Rightarrow> identity_row option" where
  "find_by_email email s = find (\<lambda>r. idn_email r = email \<and> idn_active r) (identities s)"

definition find_identity_by_id :: "uuid \<Rightarrow> db \<Rightarrow> identity_row option" where
  "find_identity_by_id i s = find (\<lambda>r. idn_id r = i \<and> idn_active r) (identities s)"

definition argon2id :: "string \<Rightarrow> bool" where
  "argon2id h \<longleftrightarrow> take 10 h = ''$argon2id$''"

definition insert_identity :: "uuid \<Rightarrow> string \<Rightarrow> string \<Rightarrow> (db, unit) tx" where
  "insert_identity i email hash =
     tx_bind (tx_require (argon2id hash) (Raised (CheckViolation ''identity_password_hash_argon2id''))) (\<lambda>_.
     tx_bind (tx_read (\<lambda>s. list_ex (\<lambda>r. idn_id r = i \<or> fold_case (idn_email r) = fold_case email) (identities s))) (\<lambda>known.
     tx_bind (tx_require (\<not> known) (Raised IdentityExists)) (\<lambda>_.
     tx_update (\<lambda>s. s\<lparr>identities := identities s @ [\<lparr>idn_id = i, idn_email = email, idn_active = True,
       idn_deactivated = None, idn_privileged = 0, idn_password = hash\<rparr>]\<rparr>))))"

text \<open>The UPDATE of the password of the rows that satisfy \<open>P\<close>; the number of rows is returned.\<close>

definition set_password :: "(identity_row \<Rightarrow> bool) \<Rightarrow> string \<Rightarrow> (db, nat) tx" where
  "set_password P hash =
     tx_bind (tx_read (\<lambda>s. length (filter P (identities s)))) (\<lambda>n.
     tx_bind (tx_require (n = 0 \<or> argon2id hash) (Raised (CheckViolation ''identity_password_hash_argon2id''))) (\<lambda>_.
     tx_bind (tx_update (\<lambda>s. s\<lparr>identities := map (\<lambda>r. if P r then r\<lparr>idn_password := hash\<rparr> else r) (identities s)\<rparr>)) (\<lambda>_.
     tx_return n)))"

definition authenticate_password :: "hashing \<Rightarrow> string \<Rightarrow> string \<Rightarrow> (db, uuid option) tx" where
  "authenticate_password h email password =
     tx_bind (tx_require (ha_free h) (Problem ServiceUnavailable None)) (\<lambda>_.
     tx_bind (tx_read (find_by_email (fold_case email))) (\<lambda>stored.
     let normalized = ha_nfkc h password;
         hash = (case stored of None \<Rightarrow> ha_dummy h | Some r \<Rightarrow> idn_password r) in
     if \<not> ha_verify h hash normalized then tx_return None
     else case stored of
            None \<Rightarrow> tx_return None
          | Some r \<Rightarrow>
              if ha_stale h (idn_password r) \<and> ha_idle h
              then tx_bind (set_password (\<lambda>x. idn_id x = idn_id r \<and> idn_password x = idn_password r) (ha_hash h normalized))
                     (\<lambda>_. tx_return (Some (idn_id r)))
              else tx_return (Some (idn_id r))))"

definition create_identity :: "hashing \<Rightarrow> string \<Rightarrow> string \<Rightarrow> (db, uuid) tx" where
  "create_identity h email password =
     tx_bind (require_policy h password) (\<lambda>_.
     tx_bind fresh_uuid (\<lambda>i.
     tx_bind (run_argon2 h (ha_hash h (ha_nfkc h password))) (\<lambda>hash.
     tx_bind (insert_identity i (fold_case email) hash) (\<lambda>_.
     tx_return i))))"

definition change_password :: "hashing \<Rightarrow> uuid \<Rightarrow> string \<Rightarrow> (db, unit) tx" where
  "change_password h identity new =
     tx_bind (require_policy h new) (\<lambda>_.
     tx_bind (run_argon2 h (ha_hash h (ha_nfkc h new))) (\<lambda>hash.
     tx_bind (set_password (\<lambda>r. idn_id r = identity) hash) (\<lambda>n.
     tx_require (n = 1) (Raised IdentityNotFound))))"

definition verify_current_password :: "hashing \<Rightarrow> uuid \<Rightarrow> string \<Rightarrow> (db, bool) tx" where
  "verify_current_password h identity password =
     tx_bind (tx_read (find_identity_by_id identity)) (\<lambda>stored.
     let hash = (case stored of None \<Rightarrow> ha_dummy h | Some r \<Rightarrow> idn_password r) in
     tx_bind (run_argon2 h (ha_verify h hash (ha_nfkc h password))) (\<lambda>ok.
     tx_return (ok \<and> stored \<noteq> None)))"

section \<open>Failed-login windows\<close>

record throttle =
  th_window :: timestamp        \<comment> \<open>\<open>login_window_seconds\<close>, in microseconds\<close>
  th_identity_max :: nat
  th_client_max :: nat
  th_digest :: "string \<Rightarrow> string"

definition attempt_key :: "throttle \<Rightarrow> attempt_kind \<Rightarrow> string \<Rightarrow> string" where
  "attempt_key th kind value =
     th_digest th ((case kind of IdentityAttempt \<Rightarrow> ''identity'' | ClientAttempt \<Rightarrow> ''client'') @ '':'' @ value)"

definition email_key :: "throttle \<Rightarrow> string \<Rightarrow> string" where
  "email_key th email = attempt_key th IdentityAttempt (fold_case (strip email))"

definition client_key :: "throttle \<Rightarrow> string \<Rightarrow> string" where
  "client_key th value = attempt_key th ClientAttempt value"

text \<open>The id of the last success recorded for an identity's key, 0 when there is none.\<close>

definition last_success :: "string \<Rightarrow> auth_db \<Rightarrow> nat" where
  "last_success key s =
     fold max (map la_id (filter (\<lambda>a. la_kind a = IdentityAttempt \<and> la_key a = key \<and> la_outcome a = AttemptSucceeded) (a_attempts s))) 0"

definition count_failures :: "throttle \<Rightarrow> attempt_kind \<Rightarrow> string \<Rightarrow> auth_db \<Rightarrow> nat" where
  "count_failures th kind key s =
     length (filter (\<lambda>a. la_kind a = kind \<and> la_key a = key \<and> la_outcome a = AttemptFailed \<and>
       now_at s - th_window th < la_time a \<and> (kind = ClientAttempt \<or> last_success key s < la_id a)) (a_attempts s))"

definition record_attempt :: "attempt_kind \<Rightarrow> string \<Rightarrow> attempt_outcome \<Rightarrow> (auth_db, unit) tx" where
  "record_attempt kind key oc =
     tx_bind (tx_require (hex64 key) (Raised (CheckViolation ''login_attempt_key_hash_check''))) (\<lambda>_.
     tx_update (\<lambda>s. s\<lparr>a_attempt_seq := Suc (a_attempt_seq s), a_attempts := a_attempts s @
       [\<lparr>la_id = a_attempt_seq s, la_kind = kind, la_key = key, la_outcome = oc, la_time = now_at s\<rparr>]\<rparr>))"

text \<open>\<open>check_client\<close>.\<close>

definition client_limited :: "throttle \<Rightarrow> string \<Rightarrow> auth_db \<Rightarrow> bool" where
  "client_limited th value s \<longleftrightarrow> th_client_max th \<le> count_failures th ClientAttempt (client_key th value) s"

definition identity_limited :: "throttle \<Rightarrow> string \<Rightarrow> auth_db \<Rightarrow> bool" where
  "identity_limited th email s \<longleftrightarrow> th_identity_max th \<le> count_failures th IdentityAttempt (email_key th email) s"

text \<open>The first hundred rows that satisfy \<open>P\<close> are dropped, the others kept.\<close>

fun drop_matching :: "nat \<Rightarrow> ('a \<Rightarrow> bool) \<Rightarrow> 'a list \<Rightarrow> 'a list" where
  "drop_matching n P [] = []"
| "drop_matching 0 P xs = xs"
| "drop_matching (Suc n) P (x # xs) = (if P x then drop_matching n P xs else x # drop_matching (Suc n) P xs)"

definition record_client_failure :: "throttle \<Rightarrow> string \<Rightarrow> (auth_db, unit) tx" where
  "record_client_failure th value =
     tx_bind (record_attempt ClientAttempt (client_key th value) AttemptFailed) (\<lambda>_.
     tx_update (\<lambda>s. s\<lparr>a_attempts := drop_matching 100 (\<lambda>a. la_time a < now_at s - 24 * 3600 * seconds) (a_attempts s)\<rparr>))"

text \<open>The answer is the error raised after the transaction has committed its evidence.\<close>

definition check_throttle :: "throttle \<Rightarrow> string \<Rightarrow> string \<Rightarrow> (auth_db, problem + unit) tx" where
  "check_throttle th email value =
     tx_bind (tx_read (identity_limited th email)) (\<lambda>identity.
     tx_bind (tx_read (client_limited th value)) (\<lambda>client.
     if \<not> identity \<and> \<not> client then tx_return (Inr ())
     else
       tx_bind (if identity then record_attempt IdentityAttempt (email_key th email) AttemptThrottled else tx_return ()) (\<lambda>_.
       tx_bind (if client then record_attempt ClientAttempt (client_key th value) AttemptThrottled else tx_return ()) (\<lambda>_.
       tx_return (Inl (Problem Unauthorized None))))))"

definition record_failure :: "throttle \<Rightarrow> string \<Rightarrow> string \<Rightarrow> (auth_db, unit) tx" where
  "record_failure th email value =
     tx_bind (record_attempt IdentityAttempt (email_key th email) AttemptFailed) (\<lambda>_.
     record_client_failure th value)"

definition record_success :: "throttle \<Rightarrow> string \<Rightarrow> (auth_db, unit) tx" where
  "record_success th email = record_attempt IdentityAttempt (email_key th email) AttemptSucceeded"

section \<open>Password resets\<close>

record reset_service =
  rv_ttl :: timestamp
  rv_window :: timestamp
  rv_email_limit :: nat
  rv_ip_limit :: nat
  rv_digest :: "string \<Rightarrow> string"

definition rate_key :: "reset_service \<Rightarrow> string \<Rightarrow> string" where
  "rate_key rv value = rv_digest rv value"

text \<open>\<open>_record_and_check_rate_limit\<close>: both dimensions are counted with the request's own rows.\<close>

definition rate_limited :: "reset_service \<Rightarrow> string \<Rightarrow> string \<Rightarrow> timestamp \<Rightarrow> (auth_db, bool) tx" where
  "rate_limited rv email ip ts =
     tx_bind (tx_require (hex64 email \<and> hex64 ip) (Raised (CheckViolation ''password_reset_rate_key_sha256''))) (\<lambda>_.
     tx_bind (tx_update (\<lambda>s. s\<lparr>a_limits := filter (\<lambda>(d, k, t). \<not> t < ts - rv_window rv) (a_limits s) @
       [(''email'', email, ts), (''ip'', ip, ts)]\<rparr>)) (\<lambda>_.
     tx_read (\<lambda>s.
       let hits = (\<lambda>dim key. length (filter (\<lambda>(d, k, t). d = dim \<and> k = key \<and> ts - rv_window rv \<le> t) (a_limits s)))
       in rv_email_limit rv < hits ''email'' email \<or> rv_ip_limit rv < hits ''ip'' ip)))"

definition reset_event :: "uuid \<Rightarrow> string \<Rightarrow> timestamp \<Rightarrow> device \<Rightarrow> (auth_db, unit) tx" where
  "reset_event identity kind ts dev =
     on_users (tx_update (\<lambda>s. s\<lparr>session_events := session_events s @ [\<lparr>sv_session = None, sv_identity = identity,
       sv_type = kind, sv_at = ts, sv_ip = dv_ip dev, sv_agent = dv_agent dev\<rparr>]\<rparr>))"

text \<open>An UPDATE that marks resets used, with its CHECK; the rows it returns.\<close>

definition use_resets :: "(reset_row \<Rightarrow> bool) \<Rightarrow> timestamp \<Rightarrow> (auth_db, reset_row list) tx" where
  "use_resets P ts =
     tx_bind (tx_read (\<lambda>s. filter P (a_resets s))) (\<lambda>rows.
     tx_bind (tx_require (list_all (\<lambda>r. rs_created r \<le> ts) rows) (Raised (CheckViolation ''password_reset_use_order''))) (\<lambda>_.
     tx_bind (tx_update (\<lambda>s. s\<lparr>a_resets := map (\<lambda>r. if P r then r\<lparr>rs_used := Some ts\<rparr> else r) (a_resets s)\<rparr>)) (\<lambda>_.
     tx_return rows)))"

definition insert_reset :: "reset_row \<Rightarrow> (auth_db, unit) tx" where
  "insert_reset r =
     tx_bind (tx_require (rs_created r < rs_expires r) (Raised (CheckViolation ''password_reset_expiry_order''))) (\<lambda>_.
     tx_bind (tx_require (hex64 (rs_hash r)) (Raised (CheckViolation ''password_reset_token_hash_sha256''))) (\<lambda>_.
     tx_bind (tx_read (\<lambda>s. list_ex (\<lambda>x. rs_id x = rs_id r) (a_resets s))) (\<lambda>known.
     tx_bind (tx_require (\<not> known) (Raised (UniqueViolation ''password_reset_pkey''))) (\<lambda>_.
     tx_bind (tx_read (\<lambda>s. list_ex (\<lambda>x. rs_hash x = rs_hash r) (a_resets s))) (\<lambda>taken.
     tx_bind (tx_require (\<not> taken) (Raised (UniqueViolation ''password_reset_token_hash_key''))) (\<lambda>_.
     tx_update (\<lambda>s. s\<lparr>a_resets := a_resets s @ [r]\<rparr>)))))))"

definition request_reset :: "reset_service \<Rightarrow> string \<Rightarrow> device \<Rightarrow> string \<Rightarrow> (auth_db, unit) tx" where
  "request_reset rv email dev token =
     (let normalized = fold_case email;
          ip = (case dv_ip dev of None \<Rightarrow> ''unknown'' | Some p \<Rightarrow> if p = [] then ''unknown'' else p) in
     tx_bind (tx_read now_at) (\<lambda>ts.
     tx_bind (rate_limited rv (rate_key rv (''email:'' @ normalized)) (rate_key rv (''ip:'' @ ip)) ts) (\<lambda>limited.
     tx_bind (tx_read (\<lambda>s. find (\<lambda>r. idn_email r = normalized) (identities (users s)))) (\<lambda>row.
     case row of
       None \<Rightarrow> tx_return ()
     | Some r \<Rightarrow>
         if limited then tx_return ()
         else
           tx_bind (use_resets (\<lambda>x. rs_identity x = idn_id r \<and> rs_used x = None) ts) (\<lambda>_.
           tx_bind (on_users fresh_uuid) (\<lambda>i.
           tx_bind (insert_reset \<lparr>rs_id = i, rs_identity = idn_id r, rs_hash = rv_digest rv token, rs_created = ts,
             rs_expires = ts + rv_ttl rv, rs_used = None\<rparr>) (\<lambda>_.
           tx_bind (on_mail (discard_pending_email (idn_id r) ''password-reset-v1'')) (\<lambda>_.
           tx_bind (on_mail (add_identity_email (idn_id r) (idn_email r) ''password-reset-v1''
             [(''reset_url'', JStr (''https://xlr8flo.summello.com/reset?token='' @ token)),
              (''expires_minutes'', JNum (of_int (rv_ttl rv div (60 * seconds))))]
             (''password-reset:'' @ decimal i) ts (ts + rv_ttl rv))) (\<lambda>_.
           reset_event (idn_id r) ''password_reset_requested'' ts dev))))))))) "

definition complete_reset :: "reset_service \<Rightarrow> hashing \<Rightarrow> string \<Rightarrow> string \<Rightarrow> device \<Rightarrow> (auth_db, unit) tx" where
  "complete_reset rv h token password dev =
     tx_bind (require_policy h password) (\<lambda>_.
     tx_bind (tx_read now_at) (\<lambda>ts.
     tx_bind (use_resets (\<lambda>x. rs_hash x = rv_digest rv token \<and> rs_used x = None \<and> ts < rs_expires x) ts) (\<lambda>rows.
     case rows of
       [] \<Rightarrow> tx_fail (Problem InvalidOrExpired None)
     | r # _ \<Rightarrow>
         tx_bind (on_users (change_password h (rs_identity r) password)) (\<lambda>_.
         tx_bind (on_users (revoke_every_session (rs_identity r))) (\<lambda>_.
         reset_event (rs_identity r) ''password_reset_completed'' ts dev)))))"

end
