(* ===== verification/Mfa.thy ===== *)
theory Mfa
  imports Credentials
begin

text \<open>
  \<open>flo/kernel/identity/mfa.py\<close> and \<open>mfa_middleware.py\<close>: the encrypted TOTP factor of an identity,
  its recovery codes, the lock after repeated failures and the access gate (tables of migration 0011).

  AES-GCM, the TOTP generator of \<open>pyotp\<close> and random draws are parameters.  \<open>confirm\<close> and
  \<open>verify\<close> raise after their transaction has committed the failure they recorded: their result is
  the error to raise or the answer, inside one transaction.
\<close>

record mfa_service =
  mf_max :: nat                                     \<comment> \<open>\<open>max_failed_attempts\<close>\<close>
  mf_window :: timestamp
  mf_lock :: timestamp
  mf_seal :: "uuid \<Rightarrow> string \<Rightarrow> string"            \<comment> \<open>nonce and ciphertext in base64, bound to the identity\<close>
  mf_open :: "uuid \<Rightarrow> string \<Rightarrow> string option"
  mf_totp :: "string \<Rightarrow> int \<Rightarrow> string"             \<comment> \<open>the code of a secret at a second\<close>
  mf_uri :: "string \<Rightarrow> string \<Rightarrow> string"
  mf_hex :: "uuid \<Rightarrow> string"
  mf_uuid :: "string \<Rightarrow> uuid option"              \<comment> \<open>\<open>UUID(hex=...)\<close>\<close>

definition mfa_service_ok :: "mfa_service \<Rightarrow> problem + mfa_service" where
  "mfa_service_ok m =
     (if mf_max m < 1 then Inl (Raised ValueError)
      else if mf_window m \<le> 0 \<or> mf_lock m \<le> 0 then Inl (Raised ValueError)
      else Inr m)"

section \<open>The cipher\<close>

definition encrypt_secret :: "mfa_service \<Rightarrow> uuid \<Rightarrow> string \<Rightarrow> string" where
  "encrypt_secret m identity secret = ''v1'' @ ''.'' @ mf_seal m identity secret"

definition decrypt_secret :: "mfa_service \<Rightarrow> uuid \<Rightarrow> string \<Rightarrow> problem + string" where
  "decrypt_secret m identity ciphertext =
     (case partition_at (CHR ''.'') ciphertext of (version, found, encoded) \<Rightarrow>
        if \<not> found \<or> version \<noteq> ''v1'' then Inl runtime_error
        else case mf_open m identity encoded of None \<Rightarrow> Inl runtime_error | Some secret \<Rightarrow> Inr secret)"

section \<open>Codes\<close>

definition code_digit :: "char \<Rightarrow> bool" where
  "code_digit c \<longleftrightarrow> c \<in> set ''0123456789''"

text \<open>\<open>int(now.timestamp())\<close>: whole seconds, towards zero.\<close>

definition whole_seconds :: "timestamp \<Rightarrow> int" where
  "whole_seconds ts = (if 0 \<le> ts then ts div seconds else - ((- ts) div seconds))"

definition matched_time_step :: "mfa_service \<Rightarrow> string \<Rightarrow> string \<Rightarrow> timestamp \<Rightarrow> int option" where
  "matched_time_step m secret code ts =
     (if length code \<noteq> 6 \<or> \<not> list_all code_digit code then None
      else let current = whole_seconds ts div 30
           in find (\<lambda>c. 0 \<le> c \<and> mf_totp m secret (c * 30) = code) [current - 1, current, current + 1])"

definition recovery_selector :: "mfa_service \<Rightarrow> string \<Rightarrow> uuid option" where
  "recovery_selector m code =
     (case partition_at (CHR ''-'') code of (selector, found, secret) \<Rightarrow>
        if \<not> found \<or> secret = [] \<or> length selector \<noteq> 32 then None else mf_uuid m selector)"

definition recovery_code :: "mfa_service \<Rightarrow> string \<Rightarrow> (auth_db, uuid \<times> string) tx" where
  "recovery_code m drawn =
     tx_bind (on_users fresh_uuid) (\<lambda>selector. tx_return (selector, mf_hex m selector @ ''-'' @ drawn))"

section \<open>The gate\<close>

datatype mfa_requirement = MfaNone | MfaEnroll | MfaVerify

definition access_requirement :: "uuid \<Rightarrow> (auth_db, mfa_requirement) tx" where
  "access_requirement identity =
     tx_bind (tx_read (\<lambda>s. (identity_at identity (users s), a_factors s identity))) (\<lambda>(row, factor).
     tx_bind (tx_some row (Problem Unauthorized None)) (\<lambda>r.
     tx_return
       (if (case factor of None \<Rightarrow> False | Some f \<Rightarrow> fa_secret f \<noteq> None) then MfaVerify
        else if 0 < idn_privileged r then MfaEnroll else MfaNone)))"

definition is_privileged :: "uuid \<Rightarrow> auth_db \<Rightarrow> bool" where
  "is_privileged identity s \<longleftrightarrow> (case identity_at identity (users s) of None \<Rightarrow> False | Some r \<Rightarrow> 0 < idn_privileged r)"

definition enrollment_paths :: "string list" where
  "enrollment_paths = [''/api/v1/auth/mfa/enroll'', ''/api/v1/auth/mfa/confirm'', ''/api/v1/auth/logout'']"

definition verification_paths :: "string list" where
  "verification_paths = [''/api/v1/auth/mfa/verify'', ''/api/v1/auth/logout'']"

text \<open>\<open>MfaAccessMiddleware\<close>: a request passes on to the application, or is refused.\<close>

definition mfa_gate :: "session_row option \<Rightarrow> string \<Rightarrow> (auth_db, unit) tx" where
  "mfa_gate session path =
     (case session of
        None \<Rightarrow> tx_return ()
      | Some r \<Rightarrow>
          tx_bind (access_requirement (sn_identity r)) (\<lambda>requirement.
          tx_bind (tx_require (\<not> (requirement = MfaEnroll \<and> path \<notin> set enrollment_paths))
            (Problem MfaEnrollmentRequired None)) (\<lambda>_.
          tx_require (\<not> (requirement = MfaVerify \<and> sn_mfa r = None \<and> path \<notin> set verification_paths))
            (Problem MfaVerificationRequired None))))"

section \<open>Failures and consumption\<close>

definition mfa_note :: "uuid \<Rightarrow> uuid \<Rightarrow> string \<Rightarrow> device \<Rightarrow> timestamp \<Rightarrow> (auth_db, unit) tx" where
  "mfa_note identity session kind dev ts =
     tx_update (\<lambda>s. s\<lparr>a_mfa_events := a_mfa_events s @ [\<lparr>me_identity = identity, me_session = session,
       me_type = kind, me_at = ts, me_ip = dv_ip dev, me_agent = dv_agent dev\<rparr>]\<rparr>)"

definition set_factor :: "uuid \<Rightarrow> factor_row \<Rightarrow> (auth_db, unit) tx" where
  "set_factor identity f = tx_update (\<lambda>s. s\<lparr>a_factors := (a_factors s)(identity \<mapsto> f)\<rparr>)"

definition locked_problem :: "factor_row \<Rightarrow> uuid \<Rightarrow> uuid \<Rightarrow> device \<Rightarrow> timestamp \<Rightarrow> (auth_db, problem option) tx" where
  "locked_problem f identity session dev ts =
     (case fa_locked f of
        None \<Rightarrow> tx_return None
      | Some until \<Rightarrow>
          if until \<le> ts then tx_return None
          else tx_bind (mfa_note identity session ''factor_failure'' dev ts) (\<lambda>_.
               tx_return (Some (Problem TooManyRequests None))))"

text \<open>The factor after one more failure: a window that has passed starts again at one.\<close>

definition failed_factor :: "mfa_service \<Rightarrow> timestamp \<Rightarrow> factor_row \<Rightarrow> factor_row" where
  "failed_factor m ts f =
     (let fresh = (case fa_window f of None \<Rightarrow> True | Some w \<Rightarrow> mf_window m \<le> ts - w);
          attempts = (if fresh then 1 else fa_failed f + 1)
      in f\<lparr>fa_failed := attempts, fa_window := (if fresh then Some ts else fa_window f),
           fa_locked := (if mf_max m \<le> attempts then Some (ts + mf_lock m) else None), fa_updated := ts\<rparr>)"

definition record_mfa_failure ::
  "mfa_service \<Rightarrow> factor_row \<Rightarrow> uuid \<Rightarrow> uuid \<Rightarrow> device \<Rightarrow> timestamp \<Rightarrow> (auth_db, problem) tx" where
  "record_mfa_failure m f identity session dev ts =
     tx_bind (set_factor identity (failed_factor m ts f)) (\<lambda>_.
     tx_bind (mfa_note identity session ''factor_failure'' dev ts) (\<lambda>_.
     if fa_locked (failed_factor m ts f) \<noteq> None
     then tx_bind (mfa_note identity session ''factor_locked'' dev ts) (\<lambda>_. tx_return (Problem TooManyRequests None))
     else tx_return (Problem Unauthorized None)))"

definition consume_time_step :: "uuid \<Rightarrow> int \<Rightarrow> timestamp \<Rightarrow> (auth_db, bool) tx" where
  "consume_time_step identity k ts =
     tx_bind (tx_read (\<lambda>s. list_ex (\<lambda>(i, j, _). i = identity \<and> j = k) (a_steps s))) (\<lambda>known.
     if known then tx_return False
     else tx_bind (tx_update (\<lambda>s. s\<lparr>a_steps := a_steps s @ [(identity, k, ts)]\<rparr>)) (\<lambda>_. tx_return True))"

definition usable_recovery_code :: "uuid \<Rightarrow> uuid \<Rightarrow> uuid \<Rightarrow> recovery_row \<Rightarrow> bool" where
  "usable_recovery_code selector identity set_id r \<longleftrightarrow>
     rc_selector r = selector \<and> rc_identity r = identity \<and> rc_set r = set_id \<and> rc_used r = None"

text \<open>The number of codes left, when the credential is an unused recovery code of the set.\<close>

definition consume_recovery ::
  "mfa_service \<Rightarrow> hashing \<Rightarrow> uuid \<Rightarrow> uuid \<Rightarrow> string \<Rightarrow> timestamp \<Rightarrow> uuid \<Rightarrow> device \<Rightarrow> (auth_db, nat option) tx" where
  "consume_recovery m h identity set_id credential ts session dev =
     (case recovery_selector m credential of
        None \<Rightarrow> tx_return None
      | Some selector \<Rightarrow>
          tx_bind (tx_read (\<lambda>s. find (usable_recovery_code selector identity set_id) (a_codes s))) (\<lambda>row.
          case row of
            None \<Rightarrow> tx_return None
          | Some r \<Rightarrow>
              tx_bind (run_argon2 h (ha_verify h (rc_hash r) credential)) (\<lambda>ok.
              if \<not> ok then tx_return None
              else
                tx_bind (tx_require (rc_created r \<le> ts) (Raised (CheckViolation ''mfa_recovery_code_use_order''))) (\<lambda>_.
                tx_bind (tx_update (\<lambda>s. s\<lparr>a_codes := map (\<lambda>c. if rc_selector c = selector \<and> rc_used c = None
                  then c\<lparr>rc_used := Some ts\<rparr> else c) (a_codes s)\<rparr>)) (\<lambda>_.
                tx_bind (tx_read (\<lambda>s. length (filter (\<lambda>c. rc_identity c = identity \<and> rc_set c = set_id \<and> rc_used c = None) (a_codes s)))) (\<lambda>left.
                tx_bind (if left \<le> 3 then mfa_note identity session ''recovery_codes_low'' dev ts else tx_return ()) (\<lambda>_.
                tx_return (Some left))))))))"

section \<open>Enrollment\<close>

definition insert_recovery :: "recovery_row \<Rightarrow> (auth_db, unit) tx" where
  "insert_recovery r =
     tx_bind (tx_require (argon2id (rc_hash r)) (Raised (CheckViolation ''mfa_recovery_code_argon2id''))) (\<lambda>_.
     tx_bind (tx_read (\<lambda>s. list_ex (\<lambda>x. rc_selector x = rc_selector r) (a_codes s))) (\<lambda>known.
     tx_bind (tx_require (\<not> known) (Raised (UniqueViolation ''mfa_recovery_code_pkey''))) (\<lambda>_.
     tx_update (\<lambda>s. s\<lparr>a_codes := a_codes s @ [r]\<rparr>))))"

definition drop_codes :: "uuid \<Rightarrow> uuid \<Rightarrow> (auth_db, unit) tx" where
  "drop_codes identity kept =
     tx_update (\<lambda>s. s\<lparr>a_codes := filter (\<lambda>c. \<not> (rc_identity c = identity \<and> rc_set c \<noteq> kept)) (a_codes s)\<rparr>)"

definition pending_factor :: "factor_row option \<Rightarrow> string \<Rightarrow> uuid \<Rightarrow> timestamp \<Rightarrow> factor_row" where
  "pending_factor old encrypted enrollment ts =
     (case old of
        None \<Rightarrow> \<lparr>fa_secret = None, fa_set = None, fa_activated = None, fa_pending = Some encrypted,
          fa_pending_set = Some enrollment, fa_failed = 0, fa_window = None, fa_locked = None, fa_updated = ts\<rparr>
      | Some f \<Rightarrow> f\<lparr>fa_pending := Some encrypted, fa_pending_set := Some enrollment, fa_updated := ts\<rparr>)"

definition mfa_enroll ::
  "mfa_service \<Rightarrow> hashing \<Rightarrow> uuid \<Rightarrow> string \<Rightarrow> (nat \<Rightarrow> string) \<Rightarrow> (auth_db, string \<times> string \<times> string list) tx" where
  "mfa_enroll m h identity secret draw =
     tx_bind (tx_read (\<lambda>s. identity_email identity (users s))) (\<lambda>found.
     tx_bind (tx_some found (Problem Unauthorized None)) (\<lambda>email.
     tx_bind (on_users fresh_uuid) (\<lambda>enrollment.
     tx_bind (tx_each (\<lambda>n. recovery_code m (draw n)) [0..<10]) (\<lambda>material.
     tx_bind (tx_each (\<lambda>(selector, code). run_argon2 h (ha_hash h code)) material) (\<lambda>hashes.
     tx_bind (tx_read now_at) (\<lambda>ts.
     tx_bind (tx_read (\<lambda>s. a_factors s identity)) (\<lambda>old.
     tx_bind (set_factor identity (pending_factor old (encrypt_secret m identity secret) enrollment ts)) (\<lambda>_.
     tx_bind (drop_codes identity (case old of None \<Rightarrow> enrollment
       | Some f \<Rightarrow> (case fa_set f of None \<Rightarrow> enrollment | Some active \<Rightarrow> active))) (\<lambda>_.
     tx_bind (tx_each (\<lambda>((selector, code), hash). insert_recovery \<lparr>rc_selector = selector, rc_identity = identity,
       rc_set = enrollment, rc_hash = hash, rc_created = ts, rc_used = None\<rparr>) (zip material hashes)) (\<lambda>_.
     tx_return (secret, mf_uri m secret email, map snd material)))))))))))"

section \<open>Confirmation, verification, removal\<close>

definition activated_factor :: "timestamp \<Rightarrow> factor_row \<Rightarrow> factor_row" where
  "activated_factor ts f = f\<lparr>fa_secret := fa_pending f, fa_set := fa_pending_set f, fa_activated := Some ts,
     fa_pending := None, fa_pending_set := None, fa_failed := 0, fa_window := None, fa_locked := None, fa_updated := ts\<rparr>"

definition mfa_confirm ::
  "mfa_service \<Rightarrow> uuid \<Rightarrow> string \<Rightarrow> uuid \<Rightarrow> device \<Rightarrow> (auth_db, problem + unit) tx" where
  "mfa_confirm m identity code session dev =
     tx_bind (tx_read now_at) (\<lambda>ts.
     tx_bind (tx_read (\<lambda>s. a_factors s identity)) (\<lambda>row.
     case row of
       None \<Rightarrow> tx_return (Inl (Problem BadRequest None))
     | Some f \<Rightarrow>
       (case fa_pending f of
          None \<Rightarrow> tx_return (Inl (Problem BadRequest None))
        | Some ciphertext \<Rightarrow>
            tx_bind (locked_problem f identity session dev ts) (\<lambda>locked.
            case locked of
              Some e \<Rightarrow> tx_return (Inl e)
            | None \<Rightarrow>
                tx_bind (tx_lift (decrypt_secret m identity ciphertext)) (\<lambda>secret.
                tx_bind (case matched_time_step m secret code ts of None \<Rightarrow> tx_return False
                         | Some k \<Rightarrow> consume_time_step identity k ts) (\<lambda>proved.
                if \<not> proved then
                  tx_bind (record_mfa_failure m f identity session dev ts) (\<lambda>e. tx_return (Inl e))
                else
                  tx_bind (set_factor identity (activated_factor ts f)) (\<lambda>_.
                  tx_bind (case fa_pending_set f of None \<Rightarrow> tx_return () | Some e \<Rightarrow> drop_codes identity e) (\<lambda>_.
                  tx_return (Inr ())))))))))"

definition reset_failures :: "timestamp \<Rightarrow> factor_row \<Rightarrow> factor_row" where
  "reset_failures ts f = f\<lparr>fa_failed := 0, fa_window := None, fa_locked := None, fa_updated := ts\<rparr>"

text \<open>A success says whether a recovery code was used, and then how many are left.\<close>

definition mfa_verify ::
  "mfa_service \<Rightarrow> hashing \<Rightarrow> uuid \<Rightarrow> string \<Rightarrow> uuid \<Rightarrow> device \<Rightarrow> (auth_db, problem + bool \<times> nat option) tx" where
  "mfa_verify m h identity credential session dev =
     tx_bind (tx_read now_at) (\<lambda>ts.
     tx_bind (tx_read (\<lambda>s. a_factors s identity)) (\<lambda>row.
     case row of
       None \<Rightarrow> tx_return (Inl (Problem Unauthorized None))
     | Some f \<Rightarrow>
       (case fa_secret f of
          None \<Rightarrow> tx_return (Inl (Problem Unauthorized None))
        | Some ciphertext \<Rightarrow>
            tx_bind (locked_problem f identity session dev ts) (\<lambda>locked.
            case locked of
              Some e \<Rightarrow> tx_return (Inl e)
            | None \<Rightarrow>
                tx_bind (tx_lift (decrypt_secret m identity ciphertext)) (\<lambda>secret.
                tx_bind (case matched_time_step m secret credential ts of None \<Rightarrow> tx_return False
                         | Some k \<Rightarrow> consume_time_step identity k ts) (\<lambda>proved.
                tx_bind (if proved then tx_return (Some (False, None))
                         else case fa_set f of
                                None \<Rightarrow> tx_return None
                              | Some set_id \<Rightarrow>
                                  tx_bind (consume_recovery m h identity set_id credential ts session dev) (\<lambda>left.
                                  tx_return (map_option (\<lambda>n. (True, Some n)) left))) (\<lambda>verified.
                case verified of
                  None \<Rightarrow> tx_bind (record_mfa_failure m f identity session dev ts) (\<lambda>e. tx_return (Inl e))
                | Some v \<Rightarrow>
                    tx_bind (set_factor identity (reset_failures ts f)) (\<lambda>_.
                    tx_return (Inr v)))))))))"

text \<open>Deleting the factor takes its codes and consumed steps with it.\<close>

definition delete_factor :: "uuid \<Rightarrow> (auth_db, bool) tx" where
  "delete_factor identity =
     tx_bind (tx_read (\<lambda>s. a_factors s identity \<noteq> None)) (\<lambda>known.
     tx_bind (tx_update (\<lambda>s. s\<lparr>a_factors := (a_factors s)(identity := None),
       a_codes := filter (\<lambda>c. rc_identity c \<noteq> identity) (a_codes s),
       a_steps := filter (\<lambda>(i, _, _). i \<noteq> identity) (a_steps s)\<rparr>)) (\<lambda>_.
     tx_return known))"

definition mfa_disable ::
  "mfa_service \<Rightarrow> hashing \<Rightarrow> uuid \<Rightarrow> string \<Rightarrow> uuid \<Rightarrow> device \<Rightarrow> (auth_db, bool \<times> nat option) request" where
  "mfa_disable m h identity credential session dev =
     rq_bind (rq_read (is_privileged identity)) (\<lambda>privileged.
     if privileged then rq_fail (Problem Forbidden None)
     else
       rq_bind (settle (mfa_verify m h identity credential session dev)) (\<lambda>v.
       rq_bind (commit_tx (delete_factor identity)) (\<lambda>removed.
       if removed then rq_return v else rq_fail (Problem Conflict None))))"

end
