(* ===== verification/MfaLaws.thy ===== *)
theory MfaLaws
  imports Mfa
begin

text \<open>
  What the second factor guarantees: a proof is accepted once, a locked factor accepts nothing, and the
  number of guesses between two locks is bounded.
\<close>

section \<open>Runs\<close>

lemma on_mail_Inr: "on_mail m s = Inr (x, t) \<longleftrightarrow> (\<exists>w. m (a_work s) = Inr (x, w) \<and> t = s\<lparr>a_work := w\<rparr>)"
  by (auto simp: on_mail_def split: sum.splits)

lemma on_users_Inr: "on_users m s = Inr (x, t) \<longleftrightarrow> (\<exists>d. m (users s) = Inr (x, d) \<and> t = s\<lparr>a_work := (a_work s)\<lparr>w_db := d\<rparr>\<rparr>)"
  by (auto simp: on_users_def on_mail_Inr on_db_def users_def split: sum.splits)

lemma fresh_user_uuid_Inr:
  "on_users fresh_uuid s = Inr (i, t) \<longleftrightarrow>
     i = next_uuid (users s) \<and> t = s\<lparr>a_work := (a_work s)\<lparr>w_db := (users s)\<lparr>next_uuid := Suc i\<rparr>\<rparr>\<rparr>"
  by (auto simp: on_users_Inr fresh_uuid_Inr)

lemma mfa_note_Inr:
  "mfa_note i sess kind dev ts s = Inr (u, t) \<Longrightarrow>
     a_work t = a_work s \<and> a_factors t = a_factors s \<and> a_steps t = a_steps s \<and> a_codes t = a_codes s \<and>
     a_attempts t = a_attempts s \<and> a_resets t = a_resets s"
  by (auto simp: mfa_note_def)

lemma locked_problem_Inr:
  assumes "locked_problem f i sess dev ts s = Inr (r, t)"
  shows "(case r of None \<Rightarrow> t = s \<and> (case fa_locked f of None \<Rightarrow> True | Some until \<Rightarrow> until \<le> ts)
      | Some e \<Rightarrow> e = Problem TooManyRequests None \<and> (\<exists>until. fa_locked f = Some until \<and> ts < until)) \<and>
    a_work t = a_work s \<and> a_factors t = a_factors s \<and> a_steps t = a_steps s \<and> a_codes t = a_codes s"
  using assms by (auto simp: locked_problem_def tx_bind_Inr dest!: mfa_note_Inr split: option.splits if_splits)

lemma record_mfa_failure_Inr:
  assumes "record_mfa_failure m f i sess dev ts s = Inr (e, t)"
  shows "e = Problem (if fa_locked (failed_factor m ts f) = None then Unauthorized else TooManyRequests) None \<and>
    a_factors t = (a_factors s)(i \<mapsto> failed_factor m ts f) \<and>
    a_work t = a_work s \<and> a_steps t = a_steps s \<and> a_codes t = a_codes s"
  using assms by (auto simp: record_mfa_failure_def set_factor_def tx_bind_Inr dest!: mfa_note_Inr split: if_splits)

lemma consume_time_step_Inr:
  assumes "consume_time_step i k ts s = Inr (b, t)"
  shows "a_work t = a_work s" "a_factors t = a_factors s" "a_codes t = a_codes s"
    "b \<Longrightarrow> (\<forall>x\<in>set (a_steps s). \<not> (fst x = i \<and> fst (snd x) = k)) \<and> a_steps t = a_steps s @ [(i, k, ts)]"
    "\<not> b \<Longrightarrow> a_steps t = a_steps s"
  using assms by (auto simp: consume_time_step_def tx_bind_Inr list_ex_iff split: if_splits)

lemma consume_recovery_Inr:
  assumes "consume_recovery m h i set_id credential ts sess dev s = Inr (left, t)"
  shows "a_work t = a_work s" "a_factors t = a_factors s" "a_steps t = a_steps s"
    "left = None \<Longrightarrow> a_codes t = a_codes s"
    "left \<noteq> None \<Longrightarrow> \<exists>sel. recovery_selector m credential = Some sel \<and>
       (\<exists>c\<in>set (a_codes s). usable_recovery_code sel i set_id c \<and> ha_verify h (rc_hash c) credential) \<and>
       a_codes t = map (\<lambda>c. if rc_selector c = sel \<and> rc_used c = None then c\<lparr>rc_used := Some ts\<rparr> else c) (a_codes s)"
  using assms
  by (auto simp: consume_recovery_def run_argon2_def tx_bind_Inr dest!: mfa_note_Inr find_Some_iff_mem
      split: option.splits if_splits)

text \<open>
  A verification is one of five things: no active factor, locked, a failure recorded, a fresh time
  step, or an unused recovery code.
\<close>

definition step_proof :: "mfa_service \<Rightarrow> uuid \<Rightarrow> string \<Rightarrow> auth_db \<Rightarrow> int option" where
  "step_proof m identity credential s =
     (case a_factors s identity of
        None \<Rightarrow> None
      | Some f \<Rightarrow> (case fa_secret f of
          None \<Rightarrow> None
        | Some ciphertext \<Rightarrow> (case decrypt_secret m identity ciphertext of
            Inl e \<Rightarrow> None
          | Inr secret \<Rightarrow> matched_time_step m secret credential (now_at s))))"

definition unlocked :: "timestamp \<Rightarrow> factor_row \<Rightarrow> bool" where
  "unlocked ts f \<longleftrightarrow> (case fa_locked f of None \<Rightarrow> True | Some until \<Rightarrow> until \<le> ts)"

lemma mfa_verify_cases:
  assumes "mfa_verify m h i credential sess dev s = Inr (r, t)"
  obtains (inactive) "r = Inl (Problem Unauthorized None)" "t = s"
      "case a_factors s i of None \<Rightarrow> True | Some f \<Rightarrow> fa_secret f = None"
  | (locked) f where "a_factors s i = Some f" "\<not> unlocked (now_at s) f" "r = Inl (Problem TooManyRequests None)"
      "a_work t = a_work s" "a_factors t = a_factors s" "a_steps t = a_steps s" "a_codes t = a_codes s"
  | (failed) f where "a_factors s i = Some f" "unlocked (now_at s) f"
      "r = Inl (Problem (if fa_locked (failed_factor m (now_at s) f) = None then Unauthorized else TooManyRequests) None)"
      "a_factors t = (a_factors s)(i \<mapsto> failed_factor m (now_at s) f)"
      "a_work t = a_work s" "a_steps t = a_steps s" "a_codes t = a_codes s"
  | (fresh_step) f k where "a_factors s i = Some f" "unlocked (now_at s) f" "r = Inr (False, None)"
      "step_proof m i credential s = Some k" "\<forall>x\<in>set (a_steps s). \<not> (fst x = i \<and> fst (snd x) = k)"
      "a_steps t = a_steps s @ [(i, k, now_at s)]" "a_codes t = a_codes s" "a_work t = a_work s"
      "a_factors t = (a_factors s)(i \<mapsto> reset_failures (now_at s) f)"
  | (recovery) f sel c n where "a_factors s i = Some f" "unlocked (now_at s) f" "r = Inr (True, Some n)"
      "recovery_selector m credential = Some sel" "c \<in> set (a_codes s)" "rc_selector c = sel" "rc_identity c = i" "rc_used c = None"
      "fa_set f = Some (rc_set c)" "ha_verify h (rc_hash c) credential"
      "a_codes t = map (\<lambda>c. if rc_selector c = sel \<and> rc_used c = None then c\<lparr>rc_used := Some (now_at s)\<rparr> else c) (a_codes s)"
      "a_steps t = a_steps s" "a_work t = a_work s"
      "a_factors t = (a_factors s)(i \<mapsto> reset_failures (now_at s) f)"
proof (cases "case a_factors s i of None \<Rightarrow> True | Some f \<Rightarrow> fa_secret f = None")
  case True
  with assms show ?thesis
    by (intro inactive) (auto simp: mfa_verify_def tx_bind_Inr split: option.splits)
next
  case False
  then obtain f ciphertext where f: "a_factors s i = Some f" "fa_secret f = Some ciphertext"
    by (auto split: option.splits)
  from assms obtain lock s1 where lock: "locked_problem f i sess dev (now_at s) s = Inr (lock, s1)"
    and rest: "(case lock of Some e \<Rightarrow> tx_return (Inl e)
        | None \<Rightarrow>
            tx_bind (tx_lift (decrypt_secret m i ciphertext)) (\<lambda>secret.
            tx_bind (case matched_time_step m secret credential (now_at s) of None \<Rightarrow> tx_return False
                     | Some k \<Rightarrow> consume_time_step i k (now_at s)) (\<lambda>proved.
            tx_bind (if proved then tx_return (Some (False, None))
                     else case fa_set f of
                            None \<Rightarrow> tx_return None
                          | Some set_id \<Rightarrow>
                              tx_bind (consume_recovery m h i set_id credential (now_at s) sess dev) (\<lambda>left.
                              tx_return (map_option (\<lambda>n. (True, Some n)) left))) (\<lambda>verified.
            case verified of
              None \<Rightarrow> tx_bind (record_mfa_failure m f i sess dev (now_at s)) (\<lambda>e. tx_return (Inl e))
            | Some v \<Rightarrow>
                tx_bind (set_factor i (reset_failures (now_at s) f)) (\<lambda>_.
                tx_return (Inr v)))))) s1 = Inr (r, t)"
    unfolding mfa_verify_def by (auto simp: tx_bind_Inr f)
  note l = locked_problem_Inr [OF lock]
  show ?thesis
  proof (cases lock)
    case (Some e)
    with l rest show ?thesis by (intro locked [OF f(1)]) (auto simp: unlocked_def)
  next
    case None
    with l have s1: "s1 = s" and open_f: "unlocked (now_at s) f" by (auto simp: unlocked_def)
    from rest None s1 obtain secret proved s2 verified s3 where dec: "decrypt_secret m i ciphertext = Inr secret"
      and proved: "(case matched_time_step m secret credential (now_at s) of None \<Rightarrow> tx_return False
                     | Some k \<Rightarrow> consume_time_step i k (now_at s)) s = Inr (proved, s2)"
      and ver: "(if proved then tx_return (Some (False, None))
                     else case fa_set f of
                            None \<Rightarrow> tx_return None
                          | Some set_id \<Rightarrow>
                              tx_bind (consume_recovery m h i set_id credential (now_at s) sess dev) (\<lambda>left.
                              tx_return (map_option (\<lambda>n. (True, Some n)) left))) s2 = Inr (verified, s3)"
      and fin: "(case verified of
              None \<Rightarrow> tx_bind (record_mfa_failure m f i sess dev (now_at s)) (\<lambda>e. tx_return (Inl e))
            | Some v \<Rightarrow>
                tx_bind (set_factor i (reset_failures (now_at s) f)) (\<lambda>_.
                tx_return (Inr v))) s3 = Inr (r, t)"
      by (auto simp: tx_bind_Inr)
    show ?thesis
    proof (cases proved)
      case True
      with proved obtain k where k: "matched_time_step m secret credential (now_at s) = Some k"
        "consume_time_step i k (now_at s) s = Inr (True, s2)" by (auto split: option.splits)
      note c = consume_time_step_Inr [OF k(2)]
      from True ver have v: "verified = Some (False, None)" "s3 = s2" by auto
      show ?thesis
        by (rule fresh_step [OF f(1) open_f, of k]) (use v fin c k(1) dec f in \<open>auto simp: step_proof_def set_factor_def tx_bind_Inr\<close>)
    next
      case False
      with proved have s2: "a_work s2 = a_work s" "a_factors s2 = a_factors s" "a_codes s2 = a_codes s" "a_steps s2 = a_steps s"
        by (auto split: option.splits dest: consume_time_step_Inr)
      show ?thesis
      proof (cases verified)
        case None
        with False ver s2 have s3: "a_work s3 = a_work s" "a_factors s3 = a_factors s" "a_codes s3 = a_codes s" "a_steps s3 = a_steps s"
          by (auto simp: tx_bind_Inr split: option.splits dest: consume_recovery_Inr)
        from fin None obtain e where "record_mfa_failure m f i sess dev (now_at s) s3 = Inr (e, t)" "r = Inl e"
          by (auto simp: tx_bind_Inr)
        with record_mfa_failure_Inr [OF this(1)] s3 show ?thesis by (intro failed [OF f(1) open_f]) auto
      next
        case (Some v)
        with False ver obtain set_id n where rec: "fa_set f = Some set_id" "v = (True, Some n)"
          "consume_recovery m h i set_id credential (now_at s) sess dev s2 = Inr (Some n, s3)"
          by (auto simp: tx_bind_Inr eq_commute [of "Some v"] split: option.splits)
        note c = consume_recovery_Inr [OF rec(3)]
        from c(5) s2 obtain sel c where sel: "recovery_selector m credential = Some sel" "c \<in> set (a_codes s)"
          "usable_recovery_code sel i set_id c" "ha_verify h (rc_hash c) credential"
          "a_codes s3 = map (\<lambda>c. if rc_selector c = sel \<and> rc_used c = None then c\<lparr>rc_used := Some (now_at s)\<rparr> else c) (a_codes s)"
          by auto
        have t: "t = s3\<lparr>a_factors := (a_factors s3)(i \<mapsto> reset_failures (now_at s) f)\<rparr>" "r = Inr v"
          using fin Some by (auto simp: set_factor_def tx_bind_Inr)
        show ?thesis
          by (rule recovery [OF f(1) open_f, of n sel c])
             (use sel t rec(1,2) c(1-3) s2 in \<open>auto simp: usable_recovery_code_def\<close>)
      qed
    qed
  qed
qed

section \<open>Each proof once\<close>

text \<open>What a successful verification consumed.\<close>

datatype proof_used = TimeStep int | RecoveryCode uuid

definition proof_of :: "mfa_service \<Rightarrow> uuid \<Rightarrow> string \<Rightarrow> bool \<times> nat option \<Rightarrow> auth_db \<Rightarrow> proof_used option" where
  "proof_of m identity credential v s =
     (if fst v then map_option RecoveryCode (recovery_selector m credential)
      else map_option TimeStep (step_proof m identity credential s))"

fun spent :: "uuid \<Rightarrow> proof_used \<Rightarrow> auth_db \<Rightarrow> bool" where
  "spent identity (TimeStep k) s \<longleftrightarrow> (\<exists>x\<in>set (a_steps s). fst x = identity \<and> fst (snd x) = k)"
| "spent identity (RecoveryCode sel) s \<longleftrightarrow> sel < next_uuid (users s) \<and>
     \<not> (\<exists>c\<in>set (a_codes s). rc_selector c = sel \<and> rc_identity c = identity \<and> rc_used c = None)"

definition codes_ok :: "auth_db \<Rightarrow> bool" where
  "codes_ok s \<longleftrightarrow> (\<forall>c\<in>set (a_codes s). rc_selector c < next_uuid (users s))"

text \<open>
  Events while an identity keeps its factor: verifications, confirmations and enrolments of anyone, the
  removal of another identity's factor, anything that leaves the codes and steps alone.
\<close>

inductive factor_step :: "mfa_service \<Rightarrow> uuid \<Rightarrow> auth_db \<Rightarrow> auth_db \<Rightarrow> bool" for m identity where
  verified: "mfa_verify m h i credential sess dev s = Inr (r, t) \<Longrightarrow> factor_step m identity s t"
| confirmed: "mfa_confirm m i code sess dev s = Inr (q, t) \<Longrightarrow> factor_step m identity s t"
| enrolled: "mfa_enroll m h i secret draw s = Inr (e, t) \<Longrightarrow> factor_step m identity s t"
| removed: "delete_factor i s = Inr (b, t) \<Longrightarrow> i \<noteq> identity \<Longrightarrow> factor_step m identity s t"
| elsewhere: "a_codes t = a_codes s \<Longrightarrow> a_steps t = a_steps s \<Longrightarrow> next_uuid (users s) \<le> next_uuid (users t) \<Longrightarrow> factor_step m identity s t"

inductive factor_reaches :: "mfa_service \<Rightarrow> uuid \<Rightarrow> auth_db \<Rightarrow> auth_db \<Rightarrow> bool" for m identity s where
  here: "factor_reaches m identity s s"
| later: "factor_reaches m identity s t \<Longrightarrow> factor_step m identity t u \<Longrightarrow> factor_reaches m identity s u"

text \<open>How the steps and codes change: steps only grow for the identity; a code is used, dropped, kept or new.\<close>

definition codes_after :: "uuid \<Rightarrow> auth_db \<Rightarrow> auth_db \<Rightarrow> bool" where
  "codes_after identity s t \<longleftrightarrow> next_uuid (users s) \<le> next_uuid (users t) \<and>
     (\<forall>x\<in>set (a_steps s). fst x = identity \<longrightarrow> x \<in> set (a_steps t)) \<and>
     (\<forall>c\<in>set (a_codes t). rc_selector c < next_uuid (users t) \<and> next_uuid (users s) \<le> rc_selector c \<or>
        (\<exists>d\<in>set (a_codes s). rc_selector d = rc_selector c \<and> rc_identity d = rc_identity c \<and> (rc_used c = None \<longrightarrow> rc_used d = None)))"

lemma codes_afterI:
  assumes "next_uuid (users t) = next_uuid (users s)" "set (a_steps s) \<subseteq> set (a_steps t)"
    "\<forall>c\<in>set (a_codes t). \<exists>d\<in>set (a_codes s). rc_selector d = rc_selector c \<and> rc_identity d = rc_identity c \<and> (rc_used c = None \<longrightarrow> rc_used d = None)"
  shows "codes_after identity s t"
  unfolding codes_after_def using assms by auto

interpretation ca: tx_preorder "codes_after identity" for identity
proof (unfold_locales, goal_cases)
  case (1 s)
  show ?case by (auto simp: codes_after_def)
next
  case (2 s t u)
  show ?case unfolding codes_after_def
  proof (intro conjI ballI impI)
    show "next_uuid (users s) \<le> next_uuid (users u)" using 2 by (simp add: codes_after_def)
    show "x \<in> set (a_steps u)" if "x \<in> set (a_steps s)" "fst x = identity" for x
      using that 2 by (simp add: codes_after_def)
    fix c assume "c \<in> set (a_codes u)"
    with 2(2) consider "rc_selector c < next_uuid (users u)" "next_uuid (users t) \<le> rc_selector c"
      | d where "d \<in> set (a_codes t)" "rc_selector d = rc_selector c" "rc_identity d = rc_identity c" "rc_used c = None \<longrightarrow> rc_used d = None"
      unfolding codes_after_def by blast
    then show "rc_selector c < next_uuid (users u) \<and> next_uuid (users s) \<le> rc_selector c \<or>
        (\<exists>d\<in>set (a_codes s). rc_selector d = rc_selector c \<and> rc_identity d = rc_identity c \<and> (rc_used c = None \<longrightarrow> rc_used d = None))"
    proof cases
      case 1
      with 2(1) show ?thesis by (auto simp: codes_after_def)
    next
      case (2 d)
      with \<open>codes_after identity s t\<close> \<open>codes_after identity t u\<close> show ?thesis
        unfolding codes_after_def by (metis order_less_le_trans)
    qed
  qed
qed

lemma codes_after_spent:
  assumes "codes_after identity s t" "spent identity p s"
  shows "spent identity p t"
proof (cases p)
  case (TimeStep k)
  with assms show ?thesis by (auto simp: codes_after_def)
next
  case (RecoveryCode sel)
  with assms show ?thesis by (fastforce simp: codes_after_def)
qed

lemma codes_after_ok: "codes_after identity s t \<Longrightarrow> codes_ok s \<Longrightarrow> codes_ok t"
  unfolding codes_after_def codes_ok_def by (metis order_less_le_trans)

text \<open>One fact per operation.\<close>

lemma note_codes: "tx_rel (codes_after identity) (mfa_note i sess kind dev ts)"
  by (auto intro!: tx_relI codes_afterI dest!: mfa_note_Inr simp: users_def)

lemma set_factor_codes: "tx_rel (codes_after identity) (set_factor i f)"
  by (auto intro!: tx_relI codes_afterI simp: set_factor_def users_def)

lemma drop_codes_codes: "tx_rel (codes_after identity) (drop_codes i e)"
  by (auto intro!: tx_relI codes_afterI simp: drop_codes_def users_def)

lemma fresh_codes: "tx_rel (codes_after identity) (on_users fresh_uuid)"
  by (auto intro!: tx_relI simp: fresh_user_uuid_Inr codes_after_def users_def)

lemma consume_step_codes: "tx_rel (codes_after identity) (consume_time_step i k ts)"
proof (rule tx_relI)
  fix s b t
  assume "consume_time_step i k ts s = Inr (b, t)"
  note c = consume_time_step_Inr [OF this]
  show "codes_after identity s t" by (rule codes_afterI) (use c in \<open>cases b; auto simp: users_def\<close>)+
qed

lemma consume_recovery_codes: "tx_rel (codes_after identity) (consume_recovery m h i set_id credential ts sess dev)"
proof (rule tx_relI)
  fix s left t
  assume "consume_recovery m h i set_id credential ts sess dev s = Inr (left, t)"
  note c = consume_recovery_Inr [OF this]
  show "codes_after identity s t"
  proof (rule codes_afterI)
    show "next_uuid (users t) = next_uuid (users s)" "set (a_steps s) \<subseteq> set (a_steps t)" using c(1-3) by (auto simp: users_def)
    show "\<forall>x\<in>set (a_codes t). \<exists>d\<in>set (a_codes s). rc_selector d = rc_selector x \<and> rc_identity d = rc_identity x \<and> (rc_used x = None \<longrightarrow> rc_used d = None)"
    proof (cases left)
      case None
      with c(4) show ?thesis by auto
    next
      case (Some n)
      with c(5) show ?thesis by (auto split: if_splits) blast+
    qed
  qed
qed

lemmas mfa_codes = note_codes set_factor_codes drop_codes_codes consume_step_codes consume_recovery_codes

lemma locked_problem_codes: "tx_rel (codes_after identity) (locked_problem f i sess dev ts)"
  unfolding locked_problem_def by (intro tx_branches ca.tx_ok mfa_codes)

lemma record_failure_codes: "tx_rel (codes_after identity) (record_mfa_failure m f i sess dev ts)"
  unfolding record_mfa_failure_def by (intro tx_branches ca.tx_ok mfa_codes)

lemma mfa_verify_codes: "tx_rel (codes_after identity) (mfa_verify m h i credential sess dev)"
  unfolding mfa_verify_def
  by (intro tx_branches ca.tx_ok mfa_codes locked_problem_codes record_failure_codes)

lemma mfa_confirm_codes: "tx_rel (codes_after identity) (mfa_confirm m i code sess dev)"
  unfolding mfa_confirm_def
  by (intro tx_branches ca.tx_ok mfa_codes locked_problem_codes record_failure_codes)

lemma delete_factor_codes: "i \<noteq> identity \<Longrightarrow> tx_rel (codes_after identity) (delete_factor i)"
  by (auto intro!: tx_relI simp: delete_factor_def tx_bind_Inr codes_after_def users_def)

text \<open>Enrolment inserts only codes whose selectors it has just drawn.\<close>

lemma material_Inr:
  assumes "tx_each (\<lambda>n. recovery_code m (draw n)) ns s = Inr (material, t)"
  shows "(\<forall>p\<in>set material. next_uuid (users s) \<le> fst p \<and> fst p < next_uuid (users t)) \<and>
    next_uuid (users s) \<le> next_uuid (users t) \<and> a_codes t = a_codes s \<and> a_steps t = a_steps s"
  using assms
proof (induction ns arbitrary: s material)
  case Nil
  then show ?case by simp
next
  case (Cons n ns)
  then obtain rest s1 where s1: "s1 = s\<lparr>a_work := (a_work s)\<lparr>w_db := (users s)\<lparr>next_uuid := Suc (next_uuid (users s))\<rparr>\<rparr>\<rparr>"
    and m: "material = (next_uuid (users s), mf_hex m (next_uuid (users s)) @ ''-'' @ draw n) # rest"
    and run: "tx_each (\<lambda>n. recovery_code m (draw n)) ns s1 = Inr (rest, t)"
    by (auto simp: recovery_code_def tx_bind_Inr fresh_user_uuid_Inr)
  have "next_uuid (users s1) = Suc (next_uuid (users s))" "a_codes s1 = a_codes s" "a_steps s1 = a_steps s"
    by (simp_all add: s1 users_def)
  with Cons.IH [OF run] m show ?case by auto
qed

lemma insert_each_Inr:
  assumes "tx_each (\<lambda>((selector, code), hash). insert_recovery (row selector hash)) pairs s = Inr (us, t)"
  shows "a_codes t = a_codes s @ map (\<lambda>((selector, code), hash). row selector hash) pairs \<and>
    a_steps t = a_steps s \<and> users t = users s"
  using assms
proof (induction pairs arbitrary: s us)
  case Nil
  then show ?case by simp
next
  case (Cons p pairs)
  obtain selector code hash where p: "p = ((selector, code), hash)" by (metis prod.exhaust)
  from Cons.prems obtain us' where
    "tx_each (\<lambda>((selector, code), hash). insert_recovery (row selector hash)) pairs (s\<lparr>a_codes := a_codes s @ [row selector hash]\<rparr>) = Inr (us', t)"
    by (auto simp: p insert_recovery_def tx_bind_Inr)
  from Cons.IH [OF this] show ?case by (simp add: p users_def)
qed

lemma run_each_Inr:
  "tx_each (\<lambda>p. run_argon2 h (f p)) ps s = Inr (hs, t) \<Longrightarrow> t = s"
  by (induction ps arbitrary: hs) (auto simp: run_argon2_def tx_bind_Inr)

lemma mfa_enroll_codes:
  assumes "mfa_enroll m h i secret draw s = Inr (e, t)"
  shows "codes_after identity s t"
proof -
  from assms obtain s1 material s2 kept hashes us f where
    s1: "s1 = s\<lparr>a_work := (a_work s)\<lparr>w_db := (users s)\<lparr>next_uuid := Suc (next_uuid (users s))\<rparr>\<rparr>\<rparr>"
    and material: "tx_each (\<lambda>n. recovery_code m (draw n)) [0..<10] s1 = Inr (material, s2)"
    and ins: "tx_each (\<lambda>((selector, code), hash). insert_recovery \<lparr>rc_selector = selector, rc_identity = i,
       rc_set = next_uuid (users s), rc_hash = hash, rc_created = now_at s2, rc_used = None\<rparr>) (zip material hashes)
      (s2\<lparr>a_factors := f, a_codes := filter (\<lambda>c. \<not> (rc_identity c = i \<and> rc_set c \<noteq> kept)) (a_codes s2)\<rparr>) = Inr (us, t)"
    by (auto simp: mfa_enroll_def tx_bind_Inr fresh_user_uuid_Inr set_factor_def drop_codes_def split_def
        dest!: run_each_Inr)
  note mat = material_Inr [OF material] and new = insert_each_Inr [OF ins]
  have s1': "next_uuid (users s1) = Suc (next_uuid (users s))" "a_codes s1 = a_codes s" "a_steps s1 = a_steps s"
    by (simp_all add: s1 users_def)
  have nt: "next_uuid (users t) = next_uuid (users s2)" using new by (simp add: users_def)
  show ?thesis unfolding codes_after_def nt
  proof (intro conjI ballI impI)
    show "next_uuid (users s) \<le> next_uuid (users s2)" using mat s1' by simp
    show "x \<in> set (a_steps t)" if "x \<in> set (a_steps s)" for x using that mat new s1' by simp
    fix c assume "c \<in> set (a_codes t)"
    with new mat s1' have "c \<in> set (a_codes s) \<or> (\<exists>p\<in>set material. rc_selector c = fst p)"
      by auto (metis fst_conv set_zip_leftD)
    then show "rc_selector c < next_uuid (users s2) \<and> next_uuid (users s) \<le> rc_selector c \<or>
        (\<exists>d\<in>set (a_codes s). rc_selector d = rc_selector c \<and> rc_identity d = rc_identity c \<and> (rc_used c = None \<longrightarrow> rc_used d = None))"
      using mat s1' by fastforce
  qed
qed

lemma factor_step_codes: "factor_step m identity s t \<Longrightarrow> codes_after identity s t"
proof (induction rule: factor_step.induct)
  case (verified h i credential sess dev s r t)
  then show ?case by (rule tx_relD [OF mfa_verify_codes])
next
  case (confirmed i code sess dev s q t)
  then show ?case by (rule tx_relD [OF mfa_confirm_codes])
next
  case (enrolled h i secret draw s e t)
  then show ?case by (rule mfa_enroll_codes)
next
  case (removed i s b t)
  then show ?case using tx_relD [OF delete_factor_codes] by blast
next
  case (elsewhere t s)
  then show ?case by (auto simp: codes_after_def)
qed

lemma factor_reaches_codes: "factor_reaches m identity s t \<Longrightarrow> codes_after identity s t"
  by (induction rule: factor_reaches.induct) (blast intro: ca.R_refl ca.R_trans factor_step_codes)+

lemma verified_proof:
  assumes "mfa_verify m h identity credential sess dev s = Inr (Inr v, t)" "codes_ok s"
  shows "\<exists>p. proof_of m identity credential v s = Some p \<and> \<not> spent identity p s \<and> spent identity p t"
  using assms(1)
proof (cases rule: mfa_verify_cases)
  case (fresh_step f k)
  then show ?thesis by (intro exI [of _ "TimeStep k"]) (auto simp: proof_of_def)
next
  case (recovery f sel c n)
  have "rc_selector c < next_uuid (users s)" using recovery(5) assms(2) by (auto simp: codes_ok_def)
  with recovery show ?thesis by (intro exI [of _ "RecoveryCode sel"]) (auto simp: proof_of_def users_def split: if_splits)
qed auto

text \<open>
  C38. A second-factor proof is accepted at most once while the identity keeps its factor: two successful
  verifications, with any events between them, never rest on the same time step or recovery code.
\<close>

theorem mfa_proofs_single_use:
  assumes "codes_ok s"
    and "mfa_verify m h identity credential sess dev s = Inr (Inr v, t)"
    and "factor_reaches m identity t u"
    and "mfa_verify m h identity credential' sess' dev' u = Inr (Inr v', w)"
  shows "\<exists>p p'. proof_of m identity credential v s = Some p \<and> proof_of m identity credential' v' u = Some p' \<and> p \<noteq> p'"
proof -
  obtain p where p: "proof_of m identity credential v s = Some p" "spent identity p t"
    using verified_proof [OF assms(2,1)] by blast
  have after: "codes_after identity s t" by (rule tx_relD [OF mfa_verify_codes assms(2)])
  have "codes_ok u"
    using codes_after_ok [OF factor_reaches_codes [OF assms(3)] codes_after_ok [OF after assms(1)]] .
  then obtain p' where p': "proof_of m identity credential' v' u = Some p'" "\<not> spent identity p' u"
    using verified_proof [OF assms(4)] by blast
  moreover have "spent identity p u" by (rule codes_after_spent [OF factor_reaches_codes [OF assms(3)] p(2)])
  ultimately show ?thesis using p(1) by blast
qed

section \<open>The lock\<close>

definition at_clock :: "timestamp \<Rightarrow> auth_db \<Rightarrow> auth_db" where
  "at_clock ts s = s\<lparr>a_work := at_time ts (a_work s)\<rparr>"

lemma at_clock_simps [simp]:
  "now_at (at_clock ts s) = ts" "a_factors (at_clock ts s) = a_factors s" "a_steps (at_clock ts s) = a_steps s"
  "a_codes (at_clock ts s) = a_codes s"
  by (simp_all add: at_clock_def now_at_def users_def at_time_def)

text \<open>A run of guesses against one factor, each at its time; the answers in order.\<close>

fun guess_all ::
  "mfa_service \<Rightarrow> hashing \<Rightarrow> uuid \<Rightarrow> uuid \<Rightarrow> device \<Rightarrow> (timestamp \<times> string) list \<Rightarrow> auth_db \<Rightarrow> (problem + bool \<times> nat option) list" where
  "guess_all m h identity sess dev [] s = []"
| "guess_all m h identity sess dev ((ts, credential) # rest) s =
     (case settle (mfa_verify m h identity credential sess dev) (at_clock ts s) of
        (answer, t) \<Rightarrow> answer # guess_all m h identity sess dev rest t)"

text \<open>The factor locked past \<open>horizon\<close>, or unlocked with some failures in a window that began after \<open>origin\<close>.\<close>

definition tried :: "timestamp \<Rightarrow> timestamp \<Rightarrow> nat \<Rightarrow> factor_row \<Rightarrow> bool" where
  "tried origin horizon n f \<longleftrightarrow> fa_failed f = n \<and> fa_locked f = None \<and>
     (case fa_window f of None \<Rightarrow> n = 0 | Some w \<Rightarrow> origin \<le> w)"

definition shut :: "timestamp \<Rightarrow> factor_row \<Rightarrow> bool" where
  "shut horizon f \<longleftrightarrow> (\<exists>until. fa_locked f = Some until \<and> horizon \<le> until)"

lemma settle_cases:
  "settle m s = (answer, t) \<Longrightarrow> (\<exists>e. m s = Inl e \<and> answer = Inl e \<and> t = s) \<or> m s = Inr (answer, t)"
  by (auto simp: settle_def split: sum.splits)

text \<open>The errors a verification raises without committing are never the answer to a wrong code.\<close>

definition refusal :: problem where
  "refusal = Problem Unauthorized None"

lemma tx_err_if: "(b \<Longrightarrow> tx_err E m) \<Longrightarrow> (\<not> b \<Longrightarrow> tx_err E n) \<Longrightarrow> tx_err E (if b then m else n)"
  by simp

lemma tx_err_option: "tx_err E m \<Longrightarrow> (\<And>x. tx_err E (f x)) \<Longrightarrow> tx_err E (case v of None \<Rightarrow> m | Some x \<Rightarrow> f x)"
  by (simp split: option.split)

lemma mfa_parts_err:
  "tx_err E (mfa_note i sess kind dev ts)" "tx_err E (set_factor i f)" "tx_err E (tx_return x)" "tx_err E (tx_read g)"
  by (simp_all add: mfa_note_def set_factor_def)

lemma locked_problem_err: "tx_err E (locked_problem f i sess dev ts)"
  unfolding locked_problem_def by (intro tx_err_option tx_err_if tx_err_bind mfa_parts_err)

lemma record_failure_err: "tx_err E (record_mfa_failure m f i sess dev ts)"
  unfolding record_mfa_failure_def by (intro tx_err_option tx_err_if tx_err_bind mfa_parts_err)

lemma consume_step_err: "tx_err E (consume_time_step i k ts)"
  unfolding consume_time_step_def by (intro tx_err_if tx_err_bind mfa_parts_err) simp

lemma consume_recovery_err: "tx_err (\<lambda>e. e \<noteq> refusal) (consume_recovery m h i set_id credential ts sess dev)"
  unfolding consume_recovery_def run_argon2_def
  by (intro tx_err_option tx_err_if tx_err_bind mfa_parts_err) (simp_all add: refusal_def)

lemma decrypt_err: "tx_err (\<lambda>e. e \<noteq> refusal) (tx_lift (decrypt_secret m i ciphertext))"
  by (auto simp: decrypt_secret_def runtime_error_def refusal_def split: prod.splits option.splits if_splits)

lemma mfa_verify_err:
  assumes "mfa_verify m h i credential sess dev s = Inl e"
  shows "e \<noteq> refusal"
proof -
  have "tx_err (\<lambda>e. e \<noteq> refusal) (mfa_verify m h i credential sess dev)"
    unfolding mfa_verify_def
    by (intro tx_err_option tx_err_if tx_err_bind mfa_parts_err locked_problem_err record_failure_err consume_step_err
        consume_recovery_err decrypt_err)
  then show ?thesis using assms by (rule tx_errD)
qed

lemma failed_factor_tried:
  assumes "tried origin horizon n f" "origin \<le> ts" "ts < origin + mf_window m" "ts < horizon" "horizon \<le> origin + mf_lock m" "n < mf_max m"
  shows "fa_locked (failed_factor m ts f) = None \<and> tried origin horizon (Suc n) (failed_factor m ts f) \<and> Suc n < mf_max m \<or>
    shut horizon (failed_factor m ts f) \<and> fa_locked (failed_factor m ts f) \<noteq> None"
  using assms by (auto simp: tried_def shut_def failed_factor_def Let_def split: option.splits if_splits)

definition evaluated :: "(problem + 'a) list \<Rightarrow> nat" where
  "evaluated answers = length (filter (\<lambda>a. case a of Inl e \<Rightarrow> e = refusal | Inr _ \<Rightarrow> False) answers)"

lemma evaluated_simps [simp]:
  "evaluated [] = 0" "evaluated (Inl e # as) = (if e = refusal then Suc (evaluated as) else evaluated as)"
  "evaluated (Inr x # as) = evaluated as"
  by (simp_all add: evaluated_def)

lemma guess_raised:
  assumes "settle (mfa_verify m h i credential sess dev) (at_clock ts s) = (answer, t)"
  shows "(\<exists>e. answer = Inl e \<and> e \<noteq> refusal \<and> a_factors t = a_factors s) \<or>
    mfa_verify m h i credential sess dev (at_clock ts s) = Inr (answer, t)"
  using settle_cases [OF assms] mfa_verify_err by auto

lemma guesses_shut:
  assumes "a_factors s identity = Some f" "shut horizon f" "fa_secret f \<noteq> None" "\<forall>g\<in>set guesses. fst g < horizon"
  shows "evaluated (guess_all m h identity sess dev guesses s) = 0"
  using assms
proof (induction guesses arbitrary: s)
  case Nil
  then show ?case by simp
next
  case (Cons g guesses)
  obtain ts credential where g: "g = (ts, credential)" by (cases g)
  obtain answer t where run: "settle (mfa_verify m h identity credential sess dev) (at_clock ts s) = (answer, t)"
    by (cases "settle (mfa_verify m h identity credential sess dev) (at_clock ts s)")
  have closed: "\<not> unlocked ts f" using Cons.prems(2,4) g by (auto simp: shut_def unlocked_def)
  from guess_raised [OF run] have "a_factors t identity = Some f \<and> (\<exists>e. answer = Inl e \<and> e \<noteq> refusal)"
  proof (elim disjE exE conjE)
    fix e assume "answer = Inl e" "e \<noteq> refusal" "a_factors t = a_factors s"
    then show ?thesis using Cons.prems(1) by simp
  next
    assume "mfa_verify m h identity credential sess dev (at_clock ts s) = Inr (answer, t)"
    then show ?thesis by (cases rule: mfa_verify_cases) (use Cons.prems(1,3) closed in \<open>auto simp: refusal_def\<close>)
  qed
  with Cons.IH [of t] Cons.prems(2-4) g run show ?case by auto
qed

lemma guesses_tried:
  assumes "a_factors s identity = Some f" "tried origin horizon n f" "fa_secret f \<noteq> None" "n < mf_max m"
    and "\<forall>g\<in>set guesses. origin \<le> fst g \<and> fst g < origin + mf_window m \<and> fst g < horizon" "horizon \<le> origin + mf_lock m"
    and "\<forall>a\<in>set (guess_all m h identity sess dev guesses s). isl a"
  shows "evaluated (guess_all m h identity sess dev guesses s) + n < mf_max m"
  using assms
proof (induction guesses arbitrary: s f n)
  case Nil
  then show ?case by simp
next
  case (Cons g guesses)
  obtain ts credential where g: "g = (ts, credential)" by (cases g)
  obtain answer t where run: "settle (mfa_verify m h identity credential sess dev) (at_clock ts s) = (answer, t)"
    by (cases "settle (mfa_verify m h identity credential sess dev) (at_clock ts s)")
  have list: "guess_all m h identity sess dev (g # guesses) s = answer # guess_all m h identity sess dev guesses t"
    by (simp add: g run)
  have open_f: "unlocked ts f" using Cons.prems(2) by (simp add: tried_def unlocked_def)
  have wrong: "isl answer" "\<forall>a\<in>set (guess_all m h identity sess dev guesses t). isl a"
    using Cons.prems(7) unfolding list by simp_all
  from guess_raised [OF run] show ?case
  proof (elim disjE exE conjE)
    fix e assume e: "answer = Inl e" "e \<noteq> refusal" "a_factors t = a_factors s"
    have "evaluated (guess_all m h identity sess dev guesses t) + n < mf_max m"
      by (rule Cons.IH [of t f]) (use Cons.prems e wrong in auto)
    then show ?thesis by (simp add: list e)
  next
    assume "mfa_verify m h identity credential sess dev (at_clock ts s) = Inr (answer, t)"
    then show ?thesis
    proof (cases rule: mfa_verify_cases)
      case (failed f')
      then have f': "f' = f" "a_factors t identity = Some (failed_factor m ts f)" using Cons.prems(1) by auto
      have secret: "fa_secret (failed_factor m ts f) \<noteq> None" using Cons.prems(3) by (simp add: failed_factor_def Let_def)
      have now: "origin \<le> ts" "ts < origin + mf_window m" "ts < horizon" using Cons.prems(5) g by auto
      consider "fa_locked (failed_factor m ts f) = None" "tried origin horizon (Suc n) (failed_factor m ts f)" "Suc n < mf_max m"
        | "shut horizon (failed_factor m ts f)" "fa_locked (failed_factor m ts f) \<noteq> None"
        using failed_factor_tried [OF Cons.prems(2) now Cons.prems(6,4)] by auto
      then show ?thesis
      proof cases
        case 1
        have "evaluated (guess_all m h identity sess dev guesses t) + Suc n < mf_max m"
          by (rule Cons.IH [of t "failed_factor m ts f"]) (use 1 f'(2) secret Cons.prems(5,6) wrong in auto)
        then show ?thesis using failed(3) 1(1) f'(1) by (simp add: list refusal_def)
      next
        case 2
        have "evaluated (guess_all m h identity sess dev guesses t) = 0"
          by (rule guesses_shut [OF f'(2) 2(1) secret]) (use Cons.prems(5) in auto)
        then show ?thesis using failed(3) 2(2) f'(1) Cons.prems(4) by (simp add: list refusal_def)
      qed
    qed (use wrong Cons.prems(1,3) open_f in auto)
  qed
qed

text \<open>
  Against an active factor with no recorded failure, however many guesses arrive within one failure
  window and before a lock would lapse, at most \<open>max_failed_attempts\<close> of them are compared with the
  secret unless one succeeds: fewer than that many are answered as wrong, the next starts the lock and
  every later one is refused unread.
\<close>

theorem mfa_guesses_bounded:
  assumes "a_factors s identity = Some f" "fa_secret f \<noteq> None"
    and "fa_failed f = 0" "fa_window f = None" "fa_locked f = None" "1 \<le> mf_max m"
    and "\<forall>g\<in>set guesses. origin \<le> fst g \<and> fst g < origin + mf_window m \<and> fst g < origin + mf_lock m"
    and "\<forall>a\<in>set (guess_all m h identity sess dev guesses s). isl a"
  shows "evaluated (guess_all m h identity sess dev guesses s) < mf_max m"
proof -
  have "evaluated (guess_all m h identity sess dev guesses s) + 0 < mf_max m"
    by (rule guesses_tried [where origin = origin and horizon = "origin + mf_lock m" and f = f])
       (use assms in \<open>auto simp: tried_def\<close>)
  then show ?thesis by simp
qed

end
