(* ===== verification/SessionLaws.thy ===== *)
theory SessionLaws
  imports Sessions
begin

text \<open>
  What the session store guarantees: the table's constraints hold in every state, a dead token stays
  dead whatever happens next, a fresh token resolves to its own session, and a rotation replaces one
  session by another.
\<close>

section \<open>Updates and insertions\<close>

lemma map_filter_Nil_iff: "List.map_filter f xs = [] \<longleftrightarrow> (\<forall>x\<in>set xs. f x = None)"
  by (induction xs) (auto simp: List.map_filter_simps split: option.split)

lemma update_sessions_Inr:
  "update_sessions P f s = Inr (rows, t) \<longleftrightarrow>
     (\<forall>r\<in>set (sessions s). P r \<longrightarrow> session_violation (f r) = None) \<and>
     rows = map f (filter P (sessions s)) \<and>
     t = s\<lparr>sessions := map (\<lambda>r. if P r then f r else r) (sessions s)\<rparr>"
proof (cases "List.map_filter session_violation (map f (filter P (sessions s)))")
  case Nil
  then have "\<forall>r\<in>set (sessions s). P r \<longrightarrow> session_violation (f r) = None" by (auto simp: map_filter_Nil_iff)
  with Nil show ?thesis by (auto simp: update_sessions_def Let_def)
next
  case (Cons c cs)
  then have "\<not> (\<forall>r\<in>set (sessions s). P r \<longrightarrow> session_violation (f r) = None)"
    using map_filter_Nil_iff [of session_violation "map f (filter P (sessions s))"] by auto
  with Cons show ?thesis by (auto simp: update_sessions_def Let_def)
qed

lemma insert_session_Inr:
  "insert_session r s = Inr (u, t) \<longleftrightarrow>
     sn_idle_seconds r \<le> 2147483647 \<and> session_violation r = None \<and>
     (\<forall>x\<in>set (sessions s). sn_id x \<noteq> sn_id r \<and> sn_hash x \<noteq> sn_hash r) \<and>
     t = s\<lparr>sessions := sessions s @ [r]\<rparr>"
  by (cases "session_violation r") (auto simp: insert_session_def tx_bind_Inr list_ex_iff)

text \<open>Running the store's operations.\<close>

lemma issue_session_Inr:
  assumes "issue_session st identity dev mfa token s = Inr ((r, tok), t)"
  shows "tok = token" "active_identity identity s"
    "r = new_session st (next_uuid s) identity token dev (clock s) mfa (only_organization identity s)"
    "session_violation r = None" "\<forall>x\<in>set (sessions s). sn_id x \<noteq> sn_id r \<and> sn_hash x \<noteq> sn_hash r"
    "t = s\<lparr>next_uuid := Suc (next_uuid s), sessions := sessions s @ [r]\<rparr>"
proof -
  have kept: "only_organization identity (s\<lparr>next_uuid := n\<rparr>) = only_organization identity s"
    "active_identity identity (s\<lparr>next_uuid := n\<rparr>) = active_identity identity s" for n
    by (simp_all add: only_organization_def active_identity_def identity_at_def)
  from assms show "tok = token" "active_identity identity s"
    "r = new_session st (next_uuid s) identity token dev (clock s) mfa (only_organization identity s)"
    "session_violation r = None" "\<forall>x\<in>set (sessions s). sn_id x \<noteq> sn_id r \<and> sn_hash x \<noteq> sn_hash r"
    "t = s\<lparr>next_uuid := Suc (next_uuid s), sessions := sessions s @ [r]\<rparr>"
    by (auto simp: issue_session_def tx_bind_Inr fresh_uuid_Inr insert_session_Inr Let_def kept)
qed

lemma rotate_session_Inr:
  assumes "rotate_session st c identity dev reason mfa token s = Inr ((r, tok), t)"
  shows "tok = token" "active_identity identity s"
    "\<exists>org. r = new_session st (next_uuid s) identity token dev (clock s) mfa org"
    "session_violation r = None" "\<forall>x\<in>set (sessions s). sn_id x \<noteq> sn_id r \<and> sn_hash x \<noteq> sn_hash r"
    "length (filter (\<lambda>x. sn_id x = sn_id c \<and> sn_revoked x = None) (sessions s)) = 1"
    "\<forall>x\<in>set (sessions s). sn_id x = sn_id c \<and> sn_revoked x = None \<longrightarrow> session_violation (x\<lparr>sn_revoked := Some (clock s)\<rparr>) = None"
    "t = s\<lparr>next_uuid := Suc (next_uuid s), sessions :=
       map (\<lambda>x. if sn_id x = sn_id c \<and> sn_revoked x = None then x\<lparr>sn_revoked := Some (clock s)\<rparr> else x) (sessions s) @ [r]\<rparr>"
proof -
  have kept: "active_identity identity (s\<lparr>next_uuid := n\<rparr>) = active_identity identity s" for n
    by (simp add: active_identity_def identity_at_def)
  obtain org s' where run: "insert_session (new_session st (next_uuid s) identity token dev (clock s) mfa org) s' = Inr ((), t)"
    and r: "r = new_session st (next_uuid s) identity token dev (clock s) mfa org"
    and upd: "update_sessions (\<lambda>x. sn_id x = sn_id c \<and> sn_revoked x = None) (\<lambda>x. x\<lparr>sn_revoked := Some (clock s)\<rparr>)
      (s\<lparr>next_uuid := Suc (next_uuid s)\<rparr>) = Inr (map (\<lambda>x. x\<lparr>sn_revoked := Some (clock s)\<rparr>) (filter (\<lambda>x. sn_id x = sn_id c \<and> sn_revoked x = None) (sessions s)), s')"
    and one: "length (filter (\<lambda>x. sn_id x = sn_id c \<and> sn_revoked x = None) (sessions s)) = 1"
    and "tok = token" "active_identity identity s"
    using assms by (auto simp: rotate_session_def tx_bind_Inr fresh_uuid_Inr update_sessions_Inr Let_def kept)
  then show "tok = token" "active_identity identity s" by simp_all
  show "\<exists>org. r = new_session st (next_uuid s) identity token dev (clock s) mfa org" using r by blast
  show "session_violation r = None" using run r by (simp add: insert_session_Inr)
  show "length (filter (\<lambda>x. sn_id x = sn_id c \<and> sn_revoked x = None) (sessions s)) = 1" by (fact one)
  from upd show "\<forall>x\<in>set (sessions s). sn_id x = sn_id c \<and> sn_revoked x = None \<longrightarrow> session_violation (x\<lparr>sn_revoked := Some (clock s)\<rparr>) = None"
    by (simp add: update_sessions_Inr)
  show "\<forall>x\<in>set (sessions s). sn_id x \<noteq> sn_id r \<and> sn_hash x \<noteq> sn_hash r"
  proof
    fix x assume "x \<in> set (sessions s)"
    then have "(if sn_id x = sn_id c \<and> sn_revoked x = None then x\<lparr>sn_revoked := Some (clock s)\<rparr> else x) \<in> set (sessions s')"
      using upd by (simp add: update_sessions_Inr)
    with run r have "sn_id (if sn_id x = sn_id c \<and> sn_revoked x = None then x\<lparr>sn_revoked := Some (clock s)\<rparr> else x) \<noteq> sn_id r \<and>
        sn_hash (if sn_id x = sn_id c \<and> sn_revoked x = None then x\<lparr>sn_revoked := Some (clock s)\<rparr> else x) \<noteq> sn_hash r"
      unfolding insert_session_Inr by blast
    then show "sn_id x \<noteq> sn_id r \<and> sn_hash x \<noteq> sn_hash r" by (simp split: if_splits)
  qed
  from upd run r show "t = s\<lparr>next_uuid := Suc (next_uuid s), sessions :=
       map (\<lambda>x. if sn_id x = sn_id c \<and> sn_revoked x = None then x\<lparr>sn_revoked := Some (clock s)\<rparr> else x) (sessions s) @ [r]\<rparr>"
    by (simp add: update_sessions_Inr insert_session_Inr)
qed



section \<open>The table's invariant\<close>

definition sessions_ok :: "db \<Rightarrow> bool" where
  "sessions_ok s \<longleftrightarrow> distinct (map sn_id (sessions s)) \<and> distinct (map sn_hash (sessions s)) \<and>
     (\<forall>r\<in>set (sessions s). sn_id r < next_uuid s \<and> session_violation r = None)"



text \<open>
  How the table changes: each row is refreshed while live, revoked, or kept, and at most one row with a
  fresh id and hash is appended.
\<close>

definition row_after :: "db \<Rightarrow> session_row \<Rightarrow> session_row \<Rightarrow> bool" where
  "row_after s r r' \<longleftrightarrow> r' = r \<or>
     session_violation r' = None \<and>
       (live_session (clock s) r \<and> r' = refreshed (clock s) r \<or> sn_revoked r = None \<and> r' = r\<lparr>sn_revoked := Some (clock s)\<rparr>)"



lemma revoked_row_after:
  "P r \<Longrightarrow> sn_revoked r = None \<Longrightarrow> session_violation (r\<lparr>sn_revoked := Some (clock s)\<rparr>) = None \<Longrightarrow>
     row_after s r (r\<lparr>sn_revoked := Some (clock s)\<rparr>)"
  by (simp add: row_after_def)






lemma sessions_ok_empty: "sessions s = [] \<Longrightarrow> sessions_ok s"
  by (simp add: sessions_ok_def)

section \<open>Dead tokens\<close>







section \<open>A fresh token resolves to its session\<close>

lemma refreshed_ok:
  assumes "session_violation r = None" "sn_created r \<le> ts" "sn_seen r \<le> ts" "ts < sn_absolute r"
  shows "session_violation (refreshed ts r) = None"
proof -
  have "0 < sn_idle_seconds r" using assms(1) by (auto simp: session_violation_def split: if_splits)
  with assms show ?thesis
    by (auto simp: session_violation_def refreshed_def split: if_splits option.splits)
qed

lemma fresh_token_resolves:
  assumes u: "filter (\<lambda>x. sn_hash x = ss_digest st token) (sessions u) = [r]"
    and r: "session_violation r = None" "sn_revoked r = None" "sn_seen r \<le> clock u" "clock u < sn_idle r"
    and active: "active_identity (sn_identity r) u"
  shows "\<exists>sel v. authenticate_session st token dev u = Inr (Some (refreshed (clock u) r, sel), v)"
proof -
  have order: "sn_created r \<le> sn_seen r" "sn_idle r \<le> sn_absolute r"
    using r(1) by (auto simp: session_violation_def split: if_splits)
  let ?P = "\<lambda>x. sn_hash x = ss_digest st token \<and> live_session (clock u) x \<and> active_identity (sn_identity x) u"
  have "filter ?P (sessions u) = filter (\<lambda>x. live_session (clock u) x \<and> active_identity (sn_identity x) u)
      (filter (\<lambda>x. sn_hash x = ss_digest st token) (sessions u))"
    by (simp add: conj_commute conj_left_commute)
  also have "\<dots> = [r]" using r order active by (simp add: u live_session_def)
  finally have rows: "filter ?P (sessions u) = [r]" .
  have fine: "session_violation (refreshed (clock u) r) = None"
    by (rule refreshed_ok) (use r order in auto)
  have "update_sessions ?P (refreshed (clock u)) u =
      Inr ([refreshed (clock u) r], u\<lparr>sessions := map (\<lambda>x. if ?P x then refreshed (clock u) x else x) (sessions u)\<rparr>)"
    unfolding update_sessions_def Let_def rows by (simp add: List.map_filter_simps fine)
  then show ?thesis
    by (auto simp: authenticate_session_def tx_bind_def tx_read_def)
qed

section \<open>Properties\<close>


text \<open>
  The token a login returns authenticates to the session that was issued, for the same identity and
  device, at any later time within the idle timeout while the identity stays active and the table is
  untouched; the refresh never moves the idle expiry past the absolute one.
\<close>

theorem issued_token_authenticates:
  assumes "issue_session st identity dev mfa token s = Inr ((r, cookie), t)"
    and "sessions u = sessions t" "clock t \<le> clock u" "clock u < clock t + ss_idle st"
    and "active_identity identity u"
  shows "\<exists>sel v. authenticate_session st cookie dev' u = Inr (Some (refreshed (clock u) r, sel), v) \<and>
    sn_identity r = identity \<and> sn_idle (refreshed (clock u) r) \<le> clock t + ss_absolute st"
proof -
  note run = issue_session_Inr [OF assms(1)]
  have r: "sn_identity r = identity" "sn_hash r = ss_digest st token" "sn_revoked r = None" "sn_seen r = clock s"
    "sn_idle r = clock s + ss_idle st" "sn_absolute r = clock s + ss_absolute st" by (simp_all add: run(3) new_session_def)
  have c: "clock t = clock s" by (simp add: run(6))
  have "filter (\<lambda>x. sn_hash x = ss_digest st token) (sessions u) = [r]"
    using run(5) r(2) by (auto simp: assms(2) run(6) filter_empty_conv)
  then have "\<exists>sel v. authenticate_session st token dev' u = Inr (Some (refreshed (clock u) r, sel), v)"
    by (rule fresh_token_resolves) (use run(4) r c assms(3-5) in auto)
  then show ?thesis using r c run(1) by (auto simp: refreshed_def)
qed

text \<open>
  A rotation leaves exactly the replacement in the place of the current session: the live sessions
  afterwards are the live ones before without the current one, and the new one.
\<close>

theorem rotation_replaces_session:
  assumes "sessions_ok s" "0 < ss_idle st" "ss_idle st \<le> ss_absolute st"
    and "rotate_session st c identity dev reason mfa token s = Inr ((r, cookie), t)"
  shows "filter (live_session (clock t)) (sessions t) =
    filter (\<lambda>x. live_session (clock s) x \<and> sn_id x \<noteq> sn_id c) (sessions s) @ [r] \<and>
    sn_hash r = ss_digest st cookie \<and> sn_identity r = identity"
proof -
  note run = rotate_session_Inr [OF assms(4)]
  from run(3) obtain org where r: "r = new_session st (next_uuid s) identity token dev (clock s) mfa org" ..
  then have new: "live_session (clock s) r" "sn_hash r = ss_digest st token" "sn_identity r = identity"
    using assms(2,3) by (simp_all add: live_session_def new_session_def)
  let ?f = "\<lambda>x. if sn_id x = sn_id c \<and> sn_revoked x = None then x\<lparr>sn_revoked := Some (clock s)\<rparr> else x"
  have "filter (live_session (clock s)) (map ?f xs) = filter (\<lambda>x. live_session (clock s) x \<and> sn_id x \<noteq> sn_id c) xs" for xs
    by (induction xs) (auto simp: live_session_def)
  with new show ?thesis by (simp add: run(1,8))
qed

end
