(* ===== verification/SignIn.thy ===== *)
theory SignIn
  imports MfaLaws SessionLaws
begin

text \<open>
  \<open>flo/api/auth.py\<close>: the sign-in endpoints composed from the session store, the credentials, the
  throttle and the second factor, each request a sequence of transactions.  Cookies and response
  headers are not modelled; a missing session is reported before the body is validated; the cookie's value is the token returned with a session.
\<close>

section \<open>The endpoints\<close>

record sign_in =
  si_store :: session_store
  si_hashing :: hashing
  si_throttle :: throttle
  si_mfa :: mfa_service
  si_reset :: reset_service

definition sized :: "nat \<Rightarrow> nat \<Rightarrow> string \<Rightarrow> bool" where
  "sized lo hi text \<longleftrightarrow> lo \<le> length text \<and> length text \<le> hi"

definition bad_request :: problem where
  "bad_request = Problem ValidationFailed None"

definition rq_require :: "bool \<Rightarrow> problem \<Rightarrow> ('s, unit) request" where
  "rq_require b e = (if b then rq_return () else rq_fail e)"

text \<open>\<open>except SessionIssueDenied\<close> around the store.\<close>

definition issuing :: "(db, session_row \<times> string) tx \<Rightarrow> (auth_db, session_row \<times> string) tx" where
  "issuing m = tx_catch (on_users m)
     (\<lambda>e. tx_fail (if e = Raised SessionIssueDenied then Problem Unauthorized None else e))"

definition require_session :: "session_row option \<Rightarrow> (auth_db, session_row) request" where
  "require_session session =
     (case session of None \<Rightarrow> rq_fail (Problem Unauthorized None) | Some r \<Rightarrow> rq_return r)"

definition login ::
  "sign_in \<Rightarrow> string \<Rightarrow> string \<Rightarrow> session_row option \<Rightarrow> device \<Rightarrow> string \<Rightarrow> string \<Rightarrow> (auth_db, session_row \<times> string) request" where
  "login si email password existing dev client token =
     rq_bind (rq_require (sized 3 254 email \<and> sized 1 256 password) bad_request) (\<lambda>_.
     rq_bind (settle (check_throttle (si_throttle si) email client)) (\<lambda>_.
     rq_bind (commit_tx (on_users (authenticate_password (si_hashing si) email password))) (\<lambda>found.
     case found of
       None \<Rightarrow>
         rq_bind (commit_tx (record_failure (si_throttle si) email client)) (\<lambda>_.
         rq_fail (Problem Unauthorized None))
     | Some identity \<Rightarrow>
         rq_bind (commit_tx (record_success (si_throttle si) email)) (\<lambda>_.
         rq_bind (commit_tx (access_requirement identity)) (\<lambda>requirement.
         commit_tx (issuing
           (case existing of
              Some current \<Rightarrow> rotate_session (si_store si) current identity dev LoginRotation (requirement = MfaNone) token
            | None \<Rightarrow> issue_session (si_store si) identity dev (requirement = MfaNone) token)))))))"

definition mfa_completion :: "sign_in \<Rightarrow> session_row \<Rightarrow> device \<Rightarrow> bool \<Rightarrow> string \<Rightarrow> (auth_db, session_row \<times> string) request" where
  "mfa_completion si session dev verified token =
     commit_tx (issuing (rotate_session (si_store si) session (sn_identity session) dev MfaCompletion verified token))"

definition enroll_mfa ::
  "sign_in \<Rightarrow> session_row option \<Rightarrow> string \<Rightarrow> string \<Rightarrow> (nat \<Rightarrow> string) \<Rightarrow> (auth_db, string \<times> string \<times> string list) request" where
  "enroll_mfa si session password secret draw =
     rq_bind (require_session session) (\<lambda>r.
     rq_bind (rq_require (sized 1 256 password) bad_request) (\<lambda>_.
     rq_bind (commit_tx (on_users (verify_current_password (si_hashing si) (sn_identity r) password))) (\<lambda>ok.
     rq_bind (rq_require ok (Problem Unauthorized None)) (\<lambda>_.
     commit_tx (mfa_enroll (si_mfa si) (si_hashing si) (sn_identity r) secret draw)))))"

definition confirm_mfa ::
  "sign_in \<Rightarrow> session_row option \<Rightarrow> string \<Rightarrow> device \<Rightarrow> string \<Rightarrow> (auth_db, session_row \<times> string) request" where
  "confirm_mfa si session code dev token =
     rq_bind (require_session session) (\<lambda>r.
     rq_bind (rq_require (sized 6 80 code) bad_request) (\<lambda>_.
     rq_bind (settle (mfa_confirm (si_mfa si) (sn_identity r) code (sn_id r) dev)) (\<lambda>_.
     mfa_completion si r dev True token)))"

text \<open>With the number of recovery codes left, when one was used.\<close>

definition verify_mfa ::
  "sign_in \<Rightarrow> session_row option \<Rightarrow> string \<Rightarrow> device \<Rightarrow> string \<Rightarrow> (auth_db, (session_row \<times> string) \<times> nat option) request" where
  "verify_mfa si session code dev token =
     rq_bind (require_session session) (\<lambda>r.
     rq_bind (rq_require (sized 6 80 code) bad_request) (\<lambda>_.
     rq_bind (settle (mfa_verify (si_mfa si) (si_hashing si) (sn_identity r) code (sn_id r) dev)) (\<lambda>v.
     rq_bind (mfa_completion si r dev True token) (\<lambda>x.
     rq_return (x, snd v)))))"

text \<open>\<open>MfaDeleteRequest\<close>: exactly one of a code and a recovery credential.\<close>

definition delete_credential :: "string option \<Rightarrow> string option \<Rightarrow> problem + string" where
  "delete_credential code recovery =
     (case (code, recovery) of
        (Some c, None) \<Rightarrow> if sized 6 80 c then Inr c else Inl bad_request
      | (None, Some c) \<Rightarrow> if sized 6 80 c then Inr c else Inl bad_request
      | _ \<Rightarrow> Inl bad_request)"

definition disable_mfa ::
  "sign_in \<Rightarrow> session_row option \<Rightarrow> string option \<Rightarrow> string option \<Rightarrow> device \<Rightarrow> string \<Rightarrow> (auth_db, session_row \<times> string) request" where
  "disable_mfa si session code recovery dev token =
     rq_bind (require_session session) (\<lambda>r.
     rq_bind (commit_tx (tx_lift (delete_credential code recovery))) (\<lambda>credential.
     rq_bind (rq_read now_at) (\<lambda>ts.
     rq_bind (commit_tx (tx_lift (recent_auth (15 * 60 * seconds) ts (Some r)))) (\<lambda>_.
     rq_bind (mfa_disable (si_mfa si) (si_hashing si) (sn_identity r) credential (sn_id r) dev) (\<lambda>_.
     mfa_completion si r dev False token)))))"

definition request_password_reset :: "sign_in \<Rightarrow> string \<Rightarrow> device \<Rightarrow> string \<Rightarrow> (auth_db, unit) request" where
  "request_password_reset si email dev token =
     rq_bind (rq_require (sized 3 254 email) bad_request) (\<lambda>_.
     commit_tx (request_reset (si_reset si) email dev token))"

definition reset_password :: "sign_in \<Rightarrow> string \<Rightarrow> string \<Rightarrow> device \<Rightarrow> (auth_db, unit) request" where
  "reset_password si token password dev =
     rq_bind (rq_require (sized 1 256 token \<and> sized 1 256 password) bad_request) (\<lambda>_.
     commit_tx (tx_catch (complete_reset (si_reset si) (si_hashing si) token password dev)
       (\<lambda>e. tx_fail (if e = Raised PasswordPolicyFailed then bad_request else e))))"

definition logout :: "session_row option \<Rightarrow> (auth_db, unit) request" where
  "logout session =
     rq_bind (require_session session) (\<lambda>r.
     rq_bind (commit_tx (on_users (revoke_session (sn_id r) (sn_identity r)))) (\<lambda>_. rq_return ()))"

definition list_sessions :: "session_row option \<Rightarrow> (auth_db, (session_row \<times> bool) list) request" where
  "list_sessions session =
     rq_bind (require_session session) (\<lambda>r.
     rq_read (\<lambda>s. list_active_sessions (sn_identity r) (sn_id r) (users s)))"

definition drop_other_sessions :: "session_row option \<Rightarrow> (auth_db, unit) request" where
  "drop_other_sessions session =
     rq_bind (require_session session) (\<lambda>r.
     rq_bind (commit_tx (on_users (revoke_other_sessions (sn_identity r) (sn_id r)))) (\<lambda>_. rq_return ()))"

definition drop_session :: "session_row option \<Rightarrow> uuid \<Rightarrow> (auth_db, unit) request" where
  "drop_session session i =
     rq_bind (require_session session) (\<lambda>r.
     rq_bind (commit_tx (on_users (revoke_session i (sn_identity r)))) (\<lambda>ok.
     rq_require ok (Problem NotFound None)))"

end
