(* ===== verification/SignInTheorems.thy ===== *)
theory SignInTheorems
  imports SignIn
begin

text \<open>
  Properties of sign-in: what a failed login reveals, what a successful one proves, and what a password
  reset ends.
\<close>

section \<open>Runs of requests\<close>




lemma settle_Inr: "settle m s = (Inr x, t) \<longleftrightarrow> m s = Inr (Inr x, t)"
  by (auto simp: settle_def split: sum.splits)

lemma rq_fail_Inr [simp]: "rq_fail e s \<noteq> (Inr x, t)"
  by (simp add: rq_fail_def)

lemma users_a_work: "users (s\<lparr>a_work := (a_work s)\<lparr>w_db := d\<rparr>\<rparr>) = d"
  by (simp add: users_def)


lemma set_password_Inr:
  "set_password P hash s = Inr (n, t) \<longleftrightarrow> n = length (filter P (identities s)) \<and> (n = 0 \<or> argon2id hash) \<and>
     t = s\<lparr>identities := map (\<lambda>r. if P r then r\<lparr>idn_password := hash\<rparr> else r) (identities s)\<rparr>"
  by (auto simp: set_password_def tx_bind_Inr)



lemma check_throttle_passes:
  "check_throttle th email client s = Inr (Inr (), t) \<Longrightarrow>
     t = s \<and> \<not> identity_limited th email s \<and> \<not> client_limited th client s"
  by (auto simp: check_throttle_def tx_bind_Inr split: if_splits)

section \<open>What a login reveals\<close>

text \<open>No active account has the address, or its password does not verify.\<close>

definition wrong_credentials :: "hashing \<Rightarrow> string \<Rightarrow> string \<Rightarrow> auth_db \<Rightarrow> bool" where
  "wrong_credentials h email password s \<longleftrightarrow>
     (case find_by_email (fold_case email) (users s) of
        None \<Rightarrow> True | Some r \<Rightarrow> \<not> ha_verify h (idn_password r) (ha_nfkc h password))"

text \<open>What the throttle looks at.\<close>

definition same_evidence :: "auth_db \<Rightarrow> auth_db \<Rightarrow> bool" where
  "same_evidence s t \<longleftrightarrow> a_attempts s = a_attempts t \<and> a_attempt_seq s = a_attempt_seq t \<and> now_at s = now_at t"

text \<open>Two runs that answer alike, leave the same evidence and touch nothing else.\<close>

definition alike :: "auth_db \<Rightarrow> auth_db \<Rightarrow> problem + 'a \<times> auth_db \<Rightarrow> problem + 'a \<times> auth_db \<Rightarrow> bool" where
  "alike s1 s2 r1 r2 \<longleftrightarrow>
     (\<exists>e. r1 = Inl e \<and> r2 = Inl e) \<or>
     (\<exists>x t1 t2. r1 = Inr (x, t1) \<and> r2 = Inr (x, t2) \<and> same_evidence t1 t2 \<and> a_work t1 = a_work s1 \<and> a_work t2 = a_work s2)"

lemma alike_bind:
  assumes "alike s1 s2 (m1 s1) (m2 s2)"
    and "\<And>x t1 t2. same_evidence t1 t2 \<Longrightarrow> a_work t1 = a_work s1 \<Longrightarrow> a_work t2 = a_work s2 \<Longrightarrow> alike t1 t2 (k1 x t1) (k2 x t2)"
  shows "alike s1 s2 (tx_bind m1 k1 s1) (tx_bind m2 k2 s2)"
proof -
  consider e where "m1 s1 = Inl e" "m2 s2 = Inl e"
    | x t1 t2 where "m1 s1 = Inr (x, t1)" "m2 s2 = Inr (x, t2)" "same_evidence t1 t2" "a_work t1 = a_work s1" "a_work t2 = a_work s2"
    using assms(1) unfolding alike_def by blast
  then show ?thesis
  proof cases
    case 1
    then show ?thesis by (simp add: alike_def tx_bind_def)
  next
    case 2
    with assms(2) [OF 2(3-5)] show ?thesis by (simp add: alike_def tx_bind_def)
  qed
qed

lemma alike_return: "same_evidence s1 s2 \<Longrightarrow> alike s1 s2 (tx_return x s1) (tx_return x s2)"
  by (auto simp: alike_def tx_return_def)

lemma alike_read: "same_evidence s1 s2 \<Longrightarrow> f s1 = g s2 \<Longrightarrow> alike s1 s2 (tx_read f s1) (tx_read g s2)"
  by (auto simp: alike_def tx_read_def)

lemma alike_if: "alike s1 s2 (m1 s1) (m2 s2) \<Longrightarrow> alike s1 s2 (n1 s1) (n2 s2) \<Longrightarrow>
    alike s1 s2 ((if b then m1 else n1) s1) ((if b then m2 else n2) s2)"
  by simp

lemma alike_record: "same_evidence s1 s2 \<Longrightarrow> alike s1 s2 (record_attempt kind key oc s1) (record_attempt kind key oc s2)"
  by (auto simp: alike_def record_attempt_def same_evidence_def tx_eval now_at_def users_def)

lemma limited_alike:
  assumes "same_evidence s1 s2"
  shows "identity_limited th email s1 = identity_limited th email s2" "client_limited th client s1 = client_limited th client s2"
  using assms by (simp_all add: identity_limited_def client_limited_def count_failures_def last_success_def same_evidence_def)

lemma check_throttle_alike:
  "same_evidence s1 s2 \<Longrightarrow> alike s1 s2 (check_throttle th email client s1) (check_throttle th email client s2)"
  unfolding check_throttle_def
  by (intro alike_bind alike_if alike_return alike_read alike_record limited_alike) assumption+

lemma record_failure_alike:
  assumes "same_evidence s1 s2"
  shows "alike s1 s2 (record_failure th email client s1) (record_failure th email client s2)"
  unfolding record_failure_def record_client_failure_def
proof (intro alike_bind alike_record)
  fix x y t1 t2
  assume "same_evidence t1 t2"
  then show "alike t1 t2
      (tx_update (\<lambda>s. s\<lparr>a_attempts := drop_matching 100 (\<lambda>a. la_time a < now_at s - 24 * 3600 * seconds) (a_attempts s)\<rparr>) t1)
      (tx_update (\<lambda>s. s\<lparr>a_attempts := drop_matching 100 (\<lambda>a. la_time a < now_at s - 24 * 3600 * seconds) (a_attempts s)\<rparr>) t2)"
    by (auto simp: alike_def tx_update_def same_evidence_def now_at_def users_def)
qed (use assms in assumption)+

lemma authenticate_password_wrong:
  "wrong_credentials h email password s \<Longrightarrow> authenticate_password h email password (users s) =
     (if ha_free h then Inr (None, users s) else Inl (Problem ServiceUnavailable None))"
  by (auto simp: wrong_credentials_def authenticate_password_def tx_eval Let_def split: option.splits)

lemma on_users_same: "m (users s) = Inr (x, users s) \<Longrightarrow> on_users m s = Inr (x, s)"
  by (simp add: on_users_def on_mail_def on_db_def users_def)

lemma on_users_Inl: "m (users s) = Inl e \<Longrightarrow> on_users m s = Inl e"
  by (simp add: on_users_def on_mail_def on_db_def users_def)

text \<open>A login that fails is this: the throttle's verdict, an overload, or one more recorded failure.\<close>

definition failed_login :: "sign_in \<Rightarrow> string \<Rightarrow> string \<Rightarrow> (auth_db, unit) request" where
  "failed_login si email client =
     rq_bind (settle (check_throttle (si_throttle si) email client)) (\<lambda>_.
     rq_bind (rq_require (ha_free (si_hashing si)) (Problem ServiceUnavailable None)) (\<lambda>_.
     rq_bind (commit_tx (record_failure (si_throttle si) email client)) (\<lambda>_.
     rq_fail (Problem Unauthorized None))))"

lemma login_wrong:
  assumes "wrong_credentials (si_hashing si) email password s" "sized 3 254 email" "sized 1 256 password"
  shows "\<exists>e. login si email password existing dev client token s = (Inl e, snd (failed_login si email client s)) \<and>
    fst (failed_login si email client s) = Inl e"
proof (cases "settle (check_throttle (si_throttle si) email client) s")
  case (Pair r u)
  show ?thesis
  proof (cases r)
    case (Inl e)
    with Pair assms(2,3) show ?thesis by (simp add: login_def failed_login_def rq_bind_def rq_require_def rq_return_def)
  next
    case (Inr x)
    then have "u = s" using Pair check_throttle_passes by (auto simp: settle_Inr)
    moreover have "commit_tx (on_users (authenticate_password (si_hashing si) email password)) s =
        (if ha_free (si_hashing si) then (Inr None, s) else (Inl (Problem ServiceUnavailable None), s))"
      using authenticate_password_wrong [OF assms(1)] by (simp add: commit_tx_def on_users_same on_users_Inl)
    ultimately show ?thesis using Pair Inr assms(2,3)
      by (cases "commit_tx (record_failure (si_throttle si) email client) s"; cases "fst (commit_tx (record_failure (si_throttle si) email client) s)")
         (auto simp: login_def failed_login_def rq_bind_def rq_require_def rq_return_def rq_fail_def)
  qed
qed

lemma failed_login_alike:
  assumes "same_evidence s1 s2"
  shows "fst (failed_login si email client s1) = fst (failed_login si email client s2) \<and>
    same_evidence (snd (failed_login si email client s1)) (snd (failed_login si email client s2)) \<and>
    a_work (snd (failed_login si email client s1)) = a_work s1 \<and> a_work (snd (failed_login si email client s2)) = a_work s2"
proof -
  from check_throttle_alike [OF assms, of "si_throttle si" email client] show ?thesis
    unfolding alike_def
  proof (elim disjE exE conjE)
    fix e assume "check_throttle (si_throttle si) email client s1 = Inl e" "check_throttle (si_throttle si) email client s2 = Inl e"
    then show ?thesis using assms by (simp add: failed_login_def rq_bind_def settle_def)
  next
    fix x t1 t2
    assume run: "check_throttle (si_throttle si) email client s1 = Inr (x, t1)" "check_throttle (si_throttle si) email client s2 = Inr (x, t2)"
      and t: "same_evidence t1 t2" "a_work t1 = a_work s1" "a_work t2 = a_work s2"
    show ?thesis
    proof (cases x)
      case (Inl e)
      with run t show ?thesis by (simp add: failed_login_def rq_bind_def settle_def)
    next
      case (Inr y)
      with record_failure_alike [OF t(1), of "si_throttle si" email client] run t show ?thesis
        by (fastforce simp: alike_def failed_login_def rq_bind_def settle_def commit_tx_def rq_require_def rq_return_def rq_fail_def)
    qed
  qed
qed

text \<open>
  A failed login does not reveal whether the account exists: an unknown or deactivated address and a
  wrong password get the same answer and leave the same evidence, whatever the passwords, the sessions
  the requests carry and the rest of the database, and no row of an account or session changes.
\<close>

theorem login_failures_look_alike:
  assumes "same_evidence s1 s2"
    and "wrong_credentials (si_hashing si) email password1 s1" "wrong_credentials (si_hashing si) email password2 s2"
    and "sized 3 254 email" "sized 1 256 password1" "sized 1 256 password2"
  shows "case (login si email password1 existing1 dev1 client token1 s1, login si email password2 existing2 dev2 client token2 s2) of
    ((r1, t1), (r2, t2)) \<Rightarrow> r1 = r2 \<and> isl r1 \<and> same_evidence t1 t2 \<and> a_work t1 = a_work s1 \<and> a_work t2 = a_work s2"
proof -
  obtain e1 where 1: "login si email password1 existing1 dev1 client token1 s1 = (Inl e1, snd (failed_login si email client s1))"
    "fst (failed_login si email client s1) = Inl e1" using login_wrong [OF assms(2,4,5)] by blast
  obtain e2 where 2: "login si email password2 existing2 dev2 client token2 s2 = (Inl e2, snd (failed_login si email client s2))"
    "fst (failed_login si email client s2) = Inl e2" using login_wrong [OF assms(3,4,6)] by blast
  from failed_login_alike [OF assms(1), of si email client] 1 2 show ?thesis by simp
qed

section \<open>What a login proves\<close>




section \<open>What a password reset ends\<close>

lemma use_resets_Inr:
  "use_resets P ts s = Inr (rows, t) \<longleftrightarrow> rows = filter P (a_resets s) \<and> list_all (\<lambda>r. rs_created r \<le> ts) rows \<and>
     t = s\<lparr>a_resets := map (\<lambda>r. if P r then r\<lparr>rs_used := Some ts\<rparr> else r) (a_resets s)\<rparr>"
  by (auto simp: use_resets_def tx_bind_Inr)

text \<open>A known reset token, each of whose rows is used or expired.\<close>

definition reset_spent :: "reset_service \<Rightarrow> string \<Rightarrow> auth_db \<Rightarrow> bool" where
  "reset_spent rv token s \<longleftrightarrow> (\<exists>r\<in>set (a_resets s). rs_hash r = rv_digest rv token) \<and>
     (\<forall>r\<in>set (a_resets s). rs_hash r = rv_digest rv token \<longrightarrow> rs_used r \<noteq> None \<or> rs_expires r \<le> now_at s)"

inductive reset_reaches :: "reset_service \<Rightarrow> auth_db \<Rightarrow> auth_db \<Rightarrow> bool" for rv s where
  here: "reset_reaches rv s s"
| requested: "reset_reaches rv s t \<Longrightarrow> request_reset rv email dev token t = Inr ((), u) \<Longrightarrow> reset_reaches rv s u"
| completed: "reset_reaches rv s t \<Longrightarrow> complete_reset rv h token password dev t = Inr ((), u) \<Longrightarrow> reset_reaches rv s u"
| elsewhere: "reset_reaches rv s t \<Longrightarrow> a_resets u = a_resets t \<Longrightarrow> now_at t \<le> now_at u \<Longrightarrow> reset_reaches rv s u"

text \<open>Resets are only marked used or added under a new hash, and time does not run back.\<close>

definition resets_after :: "auth_db \<Rightarrow> auth_db \<Rightarrow> bool" where
  "resets_after s t \<longleftrightarrow> now_at s \<le> now_at t \<and>
     (\<forall>r\<in>set (a_resets s). \<exists>r'\<in>set (a_resets t). rs_hash r' = rs_hash r) \<and>
     (\<forall>r'\<in>set (a_resets t). (\<exists>r\<in>set (a_resets s). rs_hash r = rs_hash r' \<and> rs_expires r = rs_expires r' \<and> (rs_used r \<noteq> None \<longrightarrow> rs_used r' \<noteq> None)) \<or>
        (\<forall>r\<in>set (a_resets s). rs_hash r \<noteq> rs_hash r'))"

lemma resets_after_spent:
  assumes "resets_after s t" "reset_spent rv token s"
  shows "reset_spent rv token t"
proof -
  obtain r where r: "r \<in> set (a_resets s)" "rs_hash r = rv_digest rv token" using assms(2) by (auto simp: reset_spent_def)
  have "\<exists>r'\<in>set (a_resets t). rs_hash r' = rv_digest rv token" using assms(1) r unfolding resets_after_def by metis
  moreover have "rs_used r' \<noteq> None \<or> rs_expires r' \<le> now_at t" if "r' \<in> set (a_resets t)" "rs_hash r' = rv_digest rv token" for r'
  proof -
    have "(\<exists>q\<in>set (a_resets s). rs_hash q = rs_hash r' \<and> rs_expires q = rs_expires r' \<and> (rs_used q \<noteq> None \<longrightarrow> rs_used r' \<noteq> None)) \<or>
        (\<forall>q\<in>set (a_resets s). rs_hash q \<noteq> rs_hash r')"
      using assms(1) that(1) unfolding resets_after_def by blast
    moreover have "\<not> (\<forall>q\<in>set (a_resets s). rs_hash q \<noteq> rs_hash r')" using r that(2) by auto
    ultimately obtain q where q: "q \<in> set (a_resets s)" "rs_hash q = rs_hash r'" "rs_expires q = rs_expires r'" "rs_used q \<noteq> None \<longrightarrow> rs_used r' \<noteq> None"
      by blast
    then have "rs_used q \<noteq> None \<or> rs_expires q \<le> now_at s" using assms(2) that(2) by (auto simp: reset_spent_def)
    then show ?thesis using q assms(1) by (auto simp: resets_after_def)
  qed
  ultimately show ?thesis by (simp add: reset_spent_def)
qed

lemma resets_after_same: "a_resets t = a_resets s \<Longrightarrow> now_at s \<le> now_at t \<Longrightarrow> resets_after s t"
  by (auto simp: resets_after_def)

interpretation ra: tx_preorder resets_after
proof (unfold_locales, goal_cases)
  case (1 s)
  show ?case by (auto simp: resets_after_def)
next
  case (2 s t u)
  show ?case unfolding resets_after_def
  proof (intro conjI ballI)
    show "now_at s \<le> now_at u" using 2 by (auto simp: resets_after_def)
    show "\<exists>r'\<in>set (a_resets u). rs_hash r' = rs_hash r" if "r \<in> set (a_resets s)" for r
      using 2 that unfolding resets_after_def by metis
    fix x assume "x \<in> set (a_resets u)"
    then consider (old) y where "y \<in> set (a_resets t)" "rs_hash y = rs_hash x" "rs_expires y = rs_expires x" "rs_used y \<noteq> None \<longrightarrow> rs_used x \<noteq> None"
      | (new) "\<forall>r\<in>set (a_resets t). rs_hash r \<noteq> rs_hash x"
      using 2(2) unfolding resets_after_def by blast
    then show "(\<exists>r\<in>set (a_resets s). rs_hash r = rs_hash x \<and> rs_expires r = rs_expires x \<and> (rs_used r \<noteq> None \<longrightarrow> rs_used x \<noteq> None)) \<or>
        (\<forall>r\<in>set (a_resets s). rs_hash r \<noteq> rs_hash x)"
    proof cases
      case old
      from old(1) 2(1) have "(\<exists>r\<in>set (a_resets s). rs_hash r = rs_hash y \<and> rs_expires r = rs_expires y \<and> (rs_used r \<noteq> None \<longrightarrow> rs_used y \<noteq> None)) \<or>
        (\<forall>r\<in>set (a_resets s). rs_hash r \<noteq> rs_hash y)" unfolding resets_after_def by blast
      then show ?thesis using old(2-4) by (metis (no_types, lifting))
    next
      case new
      with 2(1) show ?thesis unfolding resets_after_def by metis
    qed
  qed
qed

lemma use_resets_after: "tx_rel resets_after (use_resets P ts)"
proof (rule tx_relI)
  fix s rows t
  assume "use_resets P ts s = Inr (rows, t)"
  then have t: "a_resets t = map (\<lambda>r. if P r then r\<lparr>rs_used := Some ts\<rparr> else r) (a_resets s)" "now_at t = now_at s"
    by (simp_all add: use_resets_Inr now_at_def users_def)
  have "\<exists>r'\<in>set (a_resets t). rs_hash r' = rs_hash r" if "r \<in> set (a_resets s)" for r
    by (rule bexI [of _ "if P r then r\<lparr>rs_used := Some ts\<rparr> else r"]) (use that t in auto)
  moreover have "\<exists>r\<in>set (a_resets s). rs_hash r = rs_hash r' \<and> rs_expires r = rs_expires r' \<and> (rs_used r \<noteq> None \<longrightarrow> rs_used r' \<noteq> None)"
    if "r' \<in> set (a_resets t)" for r'
    using that t(1) by auto
  ultimately show "resets_after s t" using t(2) by (simp add: resets_after_def)
qed

lemma insert_reset_after: "tx_rel resets_after (insert_reset r)"
  by (rule tx_relI) (auto simp: insert_reset_def tx_bind_Inr list_ex_iff resets_after_def now_at_def users_def)

lemma rate_limited_after: "tx_rel resets_after (rate_limited rv email ip ts)"
  by (rule tx_relI) (auto simp: rate_limited_def tx_bind_Inr now_at_def users_def intro!: resets_after_same)

lemma on_mail_after: "(\<And>w x w'. m w = Inr (x, w') \<Longrightarrow> clock (w_db w) \<le> clock (w_db w')) \<Longrightarrow> tx_rel resets_after (on_mail m)"
  by (rule tx_relI) (auto simp: on_mail_Inr now_at_def users_def intro!: resets_after_same)

lemma on_users_after: "(\<And>d x d'. m d = Inr (x, d') \<Longrightarrow> clock d \<le> clock d') \<Longrightarrow> tx_rel resets_after (on_users m)"
  by (rule tx_relI) (auto simp: on_users_Inr now_at_def users_def intro!: resets_after_same)

lemma reset_event_after: "tx_rel resets_after (reset_event identity kind ts dev)"
  unfolding reset_event_def by (rule on_users_after) auto

lemma discard_after: "tx_rel resets_after (on_mail (discard_pending_email identity template))"
  by (rule on_mail_after) (auto simp: discard_pending_email_def delete_outbox_def)

lemma insert_outbox_db: "insert_outbox r w = Inr (x, w') \<Longrightarrow> w_db w' = w_db w"
  by (auto simp: insert_outbox_def tx_bind_Inr)

lemma identity_email_after: "tx_rel resets_after (on_mail (add_identity_email identity to template details key a b))"
  by (rule on_mail_after)
     (auto simp: add_identity_email_def tx_bind_Inr tx_catch_def on_db_def fresh_uuid_def dest: insert_outbox_db split: sum.splits)

lemma fresh_after: "tx_rel resets_after (on_users fresh_uuid)"
  by (rule on_users_after) (simp add: fresh_uuid_Inr)

lemma change_password_Inr:
  assumes "change_password h identity new s = Inr (u, t)"
  shows "policy_violations h False new = []"
    "t = s\<lparr>identities := map (\<lambda>r. if idn_id r = identity then r\<lparr>idn_password := ha_hash h (ha_nfkc h new)\<rparr> else r) (identities s)\<rparr>"
  using assms by (auto simp: change_password_def require_policy_def run_argon2_def tx_bind_Inr set_password_Inr)

lemma revoke_every_session_Inr:
  assumes "revoke_every_session identity s = Inr (n, t)"
  shows "t = s\<lparr>sessions := map (\<lambda>r. if sn_identity r = identity \<and> sn_revoked r = None then r\<lparr>sn_revoked := Some (clock s)\<rparr> else r) (sessions s)\<rparr>"
  using assms by (auto simp: revoke_every_session_def revoke_all_sessions_def tx_bind_Inr)

lemma change_password_after: "tx_rel resets_after (on_users (change_password h identity new))"
  by (rule on_users_after) (drule change_password_Inr(2), simp)

lemma revoke_every_after: "tx_rel resets_after (on_users (revoke_every_session identity))"
  by (rule on_users_after) (drule revoke_every_session_Inr, simp)

lemma tx_rel_list: "tx_rel R m \<Longrightarrow> (\<And>x xs. tx_rel R (f x xs)) \<Longrightarrow> tx_rel R (case v of [] \<Rightarrow> m | x # xs \<Rightarrow> f x xs)"
  by (simp split: list.split)

lemma request_reset_after: "tx_rel resets_after (request_reset rv email dev token)"
  unfolding request_reset_def Let_def
  by (intro tx_branches ra.tx_ok use_resets_after insert_reset_after rate_limited_after reset_event_after discard_after
      identity_email_after fresh_after)

lemma complete_reset_after: "tx_rel resets_after (complete_reset rv h token password dev)"
  unfolding complete_reset_def require_policy_def
  by (intro tx_branches tx_rel_list tx_rel_fail ra.tx_ok use_resets_after reset_event_after change_password_after revoke_every_after)

lemma reset_reaches_after: "reset_reaches rv s t \<Longrightarrow> resets_after s t"
  by (induction rule: reset_reaches.induct)
     (blast intro: ra.R_refl ra.R_trans resets_after_same tx_relD [OF request_reset_after] tx_relD [OF complete_reset_after])+

text \<open>What a completed reset has done.\<close>

lemma complete_reset_done:
  assumes "complete_reset rv h token password dev s = Inr (x, t)"
  shows "\<exists>r\<in>set (a_resets s). rs_hash r = rv_digest rv token \<and> rs_used r = None \<and> now_at s < rs_expires r \<and>
    (\<forall>x\<in>set (sessions (users t)). sn_identity x = rs_identity r \<longrightarrow> sn_revoked x \<noteq> None) \<and>
    (\<forall>i\<in>set (identities (users t)). idn_id i = rs_identity r \<longrightarrow> idn_password i = ha_hash h (ha_nfkc h password)) \<and>
    policy_violations h False password = [] \<and> reset_spent rv token t"
proof -
  let ?P = "\<lambda>x. rs_hash x = rv_digest rv token \<and> rs_used x = None \<and> now_at s < rs_expires x"
  from assms obtain rows s1 where use: "use_resets ?P (now_at s) s = Inr (rows, s1)"
    and rest: "(case rows of
       [] \<Rightarrow> tx_fail (Problem InvalidOrExpired None)
     | r # _ \<Rightarrow>
         tx_bind (on_users (change_password h (rs_identity r) password)) (\<lambda>_.
         tx_bind (on_users (revoke_every_session (rs_identity r))) (\<lambda>_.
         reset_event (rs_identity r) ''password_reset_completed'' (now_at s) dev))) s1 = Inr (x, t)"
    by (auto simp: complete_reset_def require_policy_def tx_bind_Inr)
  note rows = use [unfolded use_resets_Inr]
  from rest obtain r more where r: "rows = r # more" by (cases rows) auto
  with rest obtain s2 s3 n d2 d3 where
    cp: "change_password h (rs_identity r) password (users s1) = Inr ((), d2)" "s2 = s1\<lparr>a_work := (a_work s1)\<lparr>w_db := d2\<rparr>\<rparr>"
    and rv': "revoke_every_session (rs_identity r) (users s2) = Inr (n, d3)" "s3 = s2\<lparr>a_work := (a_work s2)\<lparr>w_db := d3\<rparr>\<rparr>"
    and ev: "reset_event (rs_identity r) ''password_reset_completed'' (now_at s) dev s3 = Inr (x, t)"
    by (auto simp: tx_bind_Inr on_users_Inr)
  have "r \<in> set (filter ?P (a_resets s))" using rows r by (metis (no_types, lifting) list.set_intros(1))
  then have mem: "r \<in> set (a_resets s)" "?P r" by simp_all
  have d2: "d2 = (users s1)\<lparr>identities := map (\<lambda>i. if idn_id i = rs_identity r then i\<lparr>idn_password := ha_hash h (ha_nfkc h password)\<rparr> else i) (identities (users s1))\<rparr>"
    by (rule change_password_Inr(2) [OF cp(1)])
  have t: "sessions (users t) = sessions d3 \<and> identities (users t) = identities d3 \<and> a_resets t = a_resets s1 \<and> now_at t = clock d3"
    using ev cp(2) rv'(2) by (auto simp: reset_event_def on_users_Inr users_a_work now_at_def users_def)
  have d3: "d3 = d2\<lparr>sessions := map (\<lambda>x. if sn_identity x = rs_identity r \<and> sn_revoked x = None then x\<lparr>sn_revoked := Some (clock d2)\<rparr> else x) (sessions d2)\<rparr>"
    using revoke_every_session_Inr [OF rv'(1)] cp(2) by (simp add: users_a_work)
  have now: "clock d3 = now_at s" using d2 d3 rows by (simp add: now_at_def users_def)
  have "reset_spent rv token t"
    unfolding reset_spent_def
  proof
    have "r\<lparr>rs_used := Some (now_at s)\<rparr> \<in> set (a_resets t)"
      using mem t rows by (auto intro!: image_eqI [of _ _ r])
    then show "\<exists>r\<in>set (a_resets t). rs_hash r = rv_digest rv token" using mem(2) by (intro bexI) auto
    show "\<forall>r\<in>set (a_resets t). rs_hash r = rv_digest rv token \<longrightarrow> rs_used r \<noteq> None \<or> rs_expires r \<le> now_at t"
      using t rows now by auto
  qed
  then show ?thesis using mem t d2 d3 change_password_Inr(1) [OF cp(1)] by (intro bexI [of _ r]) auto
qed

text \<open>
  C39. Completing a reset takes an unused, unexpired token, stores the new password and revokes every
  session of the account; the token never works again, whatever is requested or completed later.
\<close>

theorem password_reset_once:
  assumes "complete_reset rv h token password dev s = Inr (x, t)" "reset_reaches rv t u"
  shows "(\<exists>r\<in>set (a_resets s). rs_hash r = rv_digest rv token \<and> rs_used r = None \<and> now_at s < rs_expires r \<and>
      (\<forall>x\<in>set (sessions (users t)). sn_identity x = rs_identity r \<longrightarrow> sn_revoked x \<noteq> None) \<and>
      (\<forall>i\<in>set (identities (users t)). idn_id i = rs_identity r \<longrightarrow> idn_password i = ha_hash h (ha_nfkc h password))) \<and>
    complete_reset rv h' token password' dev' u =
      Inl (if policy_violations h' False password' = [] then Problem InvalidOrExpired None else Raised PasswordPolicyFailed)"
proof -
  note before_after = complete_reset_done [OF assms(1)]
  then have "reset_spent rv token t" by blast
  then have spent: "reset_spent rv token u" by (rule resets_after_spent [OF reset_reaches_after [OF assms(2)]])
  have none: "filter (\<lambda>x. rs_hash x = rv_digest rv token \<and> rs_used x = None \<and> now_at u < rs_expires x) (a_resets u) = []"
    using spent unfolding reset_spent_def filter_empty_conv by (metis linorder_not_le)
  have "complete_reset rv h' token password' dev' u =
      Inl (if policy_violations h' False password' = [] then Problem InvalidOrExpired None else Raised PasswordPolicyFailed)"
    by (simp add: complete_reset_def require_policy_def use_resets_def tx_eval none)
  with before_after show ?thesis by blast
qed

end
