(* ===== verification/SignInRuns.thy ===== *)
theory SignInRuns
  imports SignInTheorems
begin

text \<open>
  Sign-in on a small database: one account with a password and an active second factor.  Each run is
  evaluated once and discharges the hypotheses of one property.
\<close>

section \<open>The sample\<close>

definition tx_answers :: "('s, 'a) tx \<Rightarrow> 's \<Rightarrow> ('a \<Rightarrow> bool) \<Rightarrow> bool" where
  "tx_answers m s P \<longleftrightarrow> (case m s of Inl e \<Rightarrow> False | Inr (x, t) \<Rightarrow> P x)"

definition tx_after :: "('s, 'a) tx \<Rightarrow> 's \<Rightarrow> 's" where
  "tx_after m s = (case m s of Inl e \<Rightarrow> s | Inr (x, t) \<Rightarrow> t)"

lemma tx_answers_run: "tx_answers m s P \<Longrightarrow> \<exists>x. P x \<and> m s = Inr (x, tx_after m s)"
  by (auto simp: tx_answers_def tx_after_def split: sum.splits)

definition toy_digest :: "string \<Rightarrow> string" where
  "toy_digest t = replicate 63 (CHR ''0'') @ [''0123456789abcdef'' ! (length t mod 16)]"

definition toy_store :: session_store where
  "toy_store = \<lparr>ss_idle = 1800 * seconds, ss_absolute = 43200 * seconds, ss_digest = toy_digest\<rparr>"

definition toy_hashing :: hashing where
  "toy_hashing = \<lparr>ha_nfkc = id, ha_upper_digest = (\<lambda>_. replicate 64 (CHR ''A'')), ha_hash = (\<lambda>p. ''$argon2id$'' @ p),
     ha_verify = (\<lambda>h p. h = ''$argon2id$'' @ p), ha_stale = (\<lambda>_. False), ha_dummy = ''$argon2id$?'',
     ha_free = True, ha_idle = True, ha_blocked = (\<lambda>_. [])\<rparr>"

definition toy_throttle :: throttle where
  "toy_throttle = \<lparr>th_window = 900 * seconds, th_identity_max = 10, th_client_max = 30, th_digest = toy_digest\<rparr>"

definition toy_mfa :: mfa_service where
  "toy_mfa = \<lparr>mf_max = 2, mf_window = 300 * seconds, mf_lock = 900 * seconds, mf_seal = (\<lambda>i s. s),
     mf_open = (\<lambda>i s. Some s), mf_totp = (\<lambda>s k. if k = 3000 then ''100100'' else if k = 3060 then ''100102'' else ''none''), mf_uri = (\<lambda>s e. e),
     mf_hex = (\<lambda>i. replicate 32 (CHR ''0'')), mf_uuid = (\<lambda>t. None)\<rparr>"

definition toy_reset :: reset_service where
  "toy_reset = \<lparr>rv_ttl = 1800 * seconds, rv_window = 3600 * seconds, rv_email_limit = 5, rv_ip_limit = 20, rv_digest = toy_digest\<rparr>"

definition toy_sign_in :: sign_in where
  "toy_sign_in = \<lparr>si_store = toy_store, si_hashing = toy_hashing, si_throttle = toy_throttle, si_mfa = toy_mfa, si_reset = toy_reset\<rparr>"

definition toy_device :: device where
  "toy_device = \<lparr>dv_ip = None, dv_agent = coarse_user_agent None\<rparr>"

definition toy_users :: db where
  "toy_users = empty_db\<lparr>identities := [\<lparr>idn_id = 7, idn_email = ''kim@works.example'', idn_active = True,
     idn_deactivated = None, idn_privileged = 0, idn_password = ''$argon2id$correct horse staple''\<rparr>],
     clock := 3000 * seconds\<rparr>"

definition toy_auth :: auth_db where
  "toy_auth = \<lparr>a_work = \<lparr>w_db = toy_users, w_jobs = [], w_outbox = []\<rparr>, a_attempts = [], a_attempt_seq = 1,
     a_resets = [], a_limits = [],
     a_factors = [7 \<mapsto> \<lparr>fa_secret = Some ''v1.s'', fa_set = Some 5, fa_activated = Some 0, fa_pending = None,
       fa_pending_set = None, fa_failed = 0, fa_window = None, fa_locked = None, fa_updated = 0\<rparr>],
     a_codes = [], a_steps = [], a_mfa_events = []\<rparr>"

section \<open>Sessions\<close>

definition toy_issue :: "(db, session_row \<times> string) tx" where
  "toy_issue = issue_session toy_store 7 toy_device True ''a''"

definition issued_users :: db where
  "issued_users = tx_after toy_issue toy_users"

definition revoked_users :: db where
  "revoked_users = tx_after (revoke_session 1000 7) issued_users"

lemma issued: "tx_answers toy_issue toy_users (\<lambda>(r, c). c = ''a'' \<and> sn_id r = 1000)"
  by code_simp


lemma revoked_ok: "sessions_ok revoked_users" "sessions_ok issued_users" "sessions_ok toy_users"
  by code_simp+




lemma issued_facts: "clock issued_users = 3000 * seconds \<and> active_identity 7 (issued_users\<lparr>clock := 3060 * seconds\<rparr>)"
  by code_simp

theorem issued_token_authenticates_witness:
  "\<exists>r sel v. authenticate_session toy_store ''a'' toy_device (issued_users\<lparr>clock := 3060 * seconds\<rparr>) = Inr (Some (r, sel), v) \<and>
     sn_identity r = 7 \<and> sn_idle r \<le> 46200 * seconds"
proof -
  obtain r where run: "issue_session toy_store 7 toy_device True ''a'' toy_users = Inr ((r, ''a''), issued_users)"
    using tx_answers_run [OF issued] by (auto simp: toy_issue_def issued_users_def)
  have "\<exists>sel v. authenticate_session toy_store ''a'' toy_device (issued_users\<lparr>clock := 3060 * seconds\<rparr>) =
        Inr (Some (refreshed (clock (issued_users\<lparr>clock := 3060 * seconds\<rparr>)) r, sel), v) \<and>
      sn_identity r = 7 \<and> sn_idle (refreshed (clock (issued_users\<lparr>clock := 3060 * seconds\<rparr>)) r) \<le> clock issued_users + ss_absolute toy_store"
    by (rule issued_token_authenticates [OF run]) (use issued_facts in \<open>auto simp: toy_store_def\<close>)
  then show ?thesis using issued_facts by (auto simp: toy_store_def refreshed_def)
qed

definition toy_rotate :: "(db, session_row \<times> string) tx" where
  "toy_rotate = rotate_session toy_store (hd (sessions issued_users)) 7 toy_device MfaCompletion True ''bb''"

lemma rotated: "tx_answers toy_rotate issued_users (\<lambda>(r, c). c = ''bb'' \<and> sn_id r = 1001) \<and>
    filter (\<lambda>x. live_session (clock issued_users) x \<and> sn_id x \<noteq> sn_id (hd (sessions issued_users))) (sessions issued_users) = []"
  by code_simp

theorem rotation_replaces_session_witness:
  "\<exists>r t. toy_rotate issued_users = Inr ((r, ''bb''), t) \<and> filter (live_session (clock t)) (sessions t) = [r] \<and> sn_id r = 1001"
proof -
  obtain r where run: "toy_rotate issued_users = Inr ((r, ''bb''), tx_after toy_rotate issued_users)" "sn_id r = 1001"
    using tx_answers_run [OF conjunct1 [OF rotated]] by auto
  have "filter (live_session (clock (tx_after toy_rotate issued_users))) (sessions (tx_after toy_rotate issued_users)) =
      filter (\<lambda>x. live_session (clock issued_users) x \<and> sn_id x \<noteq> sn_id (hd (sessions issued_users))) (sessions issued_users) @ [r] \<and>
      sn_hash r = ss_digest toy_store ''bb'' \<and> sn_identity r = 7"
    by (rule rotation_replaces_session [OF revoked_ok(2)]) (use run(1) in \<open>simp_all add: toy_store_def toy_rotate_def\<close>)
  then show ?thesis using run rotated by auto
qed

section \<open>The second factor\<close>

definition toy_verify :: "string \<Rightarrow> (auth_db, problem + bool \<times> nat option) tx" where
  "toy_verify code = mfa_verify toy_mfa toy_hashing 7 code 1000 toy_device"

definition verified_auth :: auth_db where
  "verified_auth = tx_after (toy_verify ''100100'') toy_auth"

lemma verifies:
  "tx_answers (toy_verify ''100100'') toy_auth (\<lambda>r. r = Inr (False, None))"
  "tx_answers (toy_verify ''100102'') (at_clock (3060 * seconds) verified_auth) (\<lambda>r. r = Inr (False, None))"
  "tx_answers (toy_verify ''100100'') (at_clock (3010 * seconds) verified_auth) isl"
  by code_simp+

theorem mfa_proofs_single_use_witness:
  "\<exists>p p'. proof_of toy_mfa 7 ''100100'' (False, None) toy_auth = Some p \<and>
     proof_of toy_mfa 7 ''100102'' (False, None) (at_clock (3060 * seconds) verified_auth) = Some p' \<and> p \<noteq> p'"
proof -
  have 1: "mfa_verify toy_mfa toy_hashing 7 ''100100'' 1000 toy_device toy_auth = Inr (Inr (False, None), verified_auth)"
    using tx_answers_run [OF verifies(1)] by (simp add: toy_verify_def verified_auth_def)
  have 2: "mfa_verify toy_mfa toy_hashing 7 ''100102'' 1000 toy_device (at_clock (3060 * seconds) verified_auth) =
      Inr (Inr (False, None), tx_after (toy_verify ''100102'') (at_clock (3060 * seconds) verified_auth))"
    using tx_answers_run [OF verifies(2)] by (simp add: toy_verify_def)
  have reach: "factor_reaches toy_mfa 7 verified_auth (at_clock (3060 * seconds) verified_auth)"
    by (rule factor_reaches.later [OF factor_reaches.here factor_step.elsewhere])
       (simp_all add: at_clock_def at_time_def users_def)
  show ?thesis
    by (rule mfa_proofs_single_use [OF _ 1 reach 2]) (simp add: codes_ok_def toy_auth_def)
qed

definition toy_guesses :: "(timestamp \<times> string) list" where
  "toy_guesses = [(3000 * seconds, ''000000''), (3001 * seconds, ''000001''), (3002 * seconds, ''000002''), (3003 * seconds, ''100100'')]"

lemma guesses_wrong: "list_all isl (guess_all toy_mfa toy_hashing 7 1000 toy_device toy_guesses toy_auth)"
  by code_simp

theorem mfa_guesses_bounded_witness:
  "evaluated (guess_all toy_mfa toy_hashing 7 1000 toy_device toy_guesses toy_auth) < 2"
proof -
  have wrong: "\<forall>a\<in>set (guess_all toy_mfa toy_hashing 7 1000 toy_device toy_guesses toy_auth). isl a"
    using guesses_wrong by (simp only: list_all_iff)
  have times: "\<forall>g\<in>set toy_guesses. 3000 * seconds \<le> fst g \<and> fst g < 3000 * seconds + mf_window toy_mfa \<and> fst g < 3000 * seconds + mf_lock toy_mfa"
    by (simp add: toy_guesses_def toy_mfa_def)
  obtain f where f: "a_factors toy_auth 7 = Some f" "fa_secret f \<noteq> None" "fa_failed f = 0" "fa_window f = None" "fa_locked f = None"
    by (simp add: toy_auth_def)
  have "evaluated (guess_all toy_mfa toy_hashing 7 1000 toy_device toy_guesses toy_auth) < mf_max toy_mfa"
    by (rule mfa_guesses_bounded [OF f _ times wrong]) (simp add: toy_mfa_def)
  then show ?thesis by (simp add: toy_mfa_def)
qed

section \<open>Login\<close>

definition no_accounts :: auth_db where
  "no_accounts = toy_auth\<lparr>a_work := (a_work toy_auth)\<lparr>w_db := empty_db\<lparr>clock := 3000 * seconds\<rparr>\<rparr>\<rparr>"

lemma both_wrong:
  "wrong_credentials toy_hashing ''Kim@works.example'' ''guess'' toy_auth"
  "wrong_credentials toy_hashing ''Kim@works.example'' ''other'' no_accounts"
  "now_at toy_auth = now_at no_accounts"
  by code_simp+

theorem login_failures_look_alike_witness:
  "fst (login toy_sign_in ''Kim@works.example'' ''guess'' None toy_device ''client'' ''a'' toy_auth) =
   fst (login toy_sign_in ''Kim@works.example'' ''other'' None toy_device ''client'' ''a'' no_accounts)"
proof -
  have "same_evidence toy_auth no_accounts" using both_wrong(3) by (simp add: same_evidence_def no_accounts_def)
  then have "case (login toy_sign_in ''Kim@works.example'' ''guess'' None toy_device ''client'' ''a'' toy_auth,
      login toy_sign_in ''Kim@works.example'' ''other'' None toy_device ''client'' ''a'' no_accounts) of
    ((r1, t1), (r2, t2)) \<Rightarrow> r1 = r2 \<and> isl r1 \<and> same_evidence t1 t2 \<and> a_work t1 = a_work toy_auth \<and> a_work t2 = a_work no_accounts"
    by (rule login_failures_look_alike) (use both_wrong in \<open>simp_all add: toy_sign_in_def sized_def\<close>)
  then show ?thesis by (simp split: prod.splits)
qed





section \<open>Reset\<close>

definition reset_requested :: auth_db where
  "reset_requested = tx_after (request_reset toy_reset ''Kim@works.example'' toy_device ''a'') toy_auth"

definition toy_complete :: "(auth_db, unit) tx" where
  "toy_complete = complete_reset toy_reset toy_hashing ''a'' ''a brand new pass phrase'' toy_device"

lemma reset_completed: "tx_answers toy_complete reset_requested (\<lambda>_. True)"
  by code_simp

theorem password_reset_once_witness:
  "toy_complete (tx_after toy_complete reset_requested) = Inl (Problem InvalidOrExpired None)"
proof -
  obtain x where run: "complete_reset toy_reset toy_hashing ''a'' ''a brand new pass phrase'' toy_device reset_requested =
      Inr (x, tx_after toy_complete reset_requested)"
    using tx_answers_run [OF reset_completed] by (auto simp: toy_complete_def)
  show ?thesis
    using password_reset_once [OF run reset_reaches.here, of toy_hashing "''a brand new pass phrase''" toy_device]
      complete_reset_done [OF run]
    by (auto simp: toy_complete_def)
qed

end
