(* ===== verification/Spec2Isabelle.thy ===== *)
theory Spec2Isabelle
  imports LedgerTheorems BudgetTheorems BudgetReadTheorems Reconcile LifecycleLaws AccessLaws OutboxLaws WorkflowLaws ProjectDecisions  SignInRuns
begin

text \<open>
  \<^bold>\<open>The program.\<close>  \<open>flo\<close> (\<open>src/apps/api/src/flo\<close>) is a multi-tenant service for capital projects: an
  organization has a tree of units, fiscal periods, master codes and settings; projects form trees below
  units; money moves on an append-only ledger whose running balances gate every posting; documents go
  through approval workflows; users act through roles granted at a scope; side effects leave through a
  job queue and an outbox.  All of it is Python over one PostgreSQL database, and the constraints and
  triggers of \<open>src/migrations\<close> are part of what the code relies on.

  \<^bold>\<open>How it is modelled.\<close>  One record field per table (\<open>Database\<close>), rows as records, enumerations as
  datatypes.  An operation is a function \<open>('s, 'a) tx\<close> from the state to an error or to a result and the
  new state (\<open>Prelude\<close>): an error carries no state because \<open>tenant_transaction\<close>
  (\<open>kernel/tenancy/rls.py\<close>) rolls back when an exception leaves it, and \<open>tx_catch\<close> is a savepoint.  Guards come
  in the order of the code; what the database would refuse is an explicit error value
  (\<open>CheckViolation\<close>, \<open>UniqueViolation\<close> and so on) at the place of the statement.  Row locks serialise the
  writers of one project or document, so one operation is one step; where two workers interleave (the
  outbox), the steps are explicit.  Every query filters on the organization of the request's scope, an
  argument \<open>org\<close>.  Decimals are rationals kept on the grid of \<open>numeric(18,4)\<close>, Python integers are \<open>int\<close>, texts
  are ASCII, times are microseconds.  Identifiers come from a counter: \<open>uuid4\<close> never repeats.

  \<^bold>\<open>The theories\<close>, in the order of the imports (code under \<open>flo\<close> in brackets):

  \<^item> \<open>Prelude\<close>: errors [\<open>kernel/errors/codes.py\<close>], state passing, the locale \<open>tx_preorder\<close> for relations that a
    piece of work respects (instances: the ledger only grows, a tree is kept, an event log is untouched).
  \<^item> \<open>Money\<close> [\<open>kernel/money.py\<close>]: rounding half up, arithmetic, allocation of an amount to weights.
  \<^item> \<open>Database\<close>: dates, the rows, the audit writer [\<open>kernel/audit/writer.py\<close>].
  \<^item> \<open>Org\<close> [\<open>modules/org/service.py\<close>, \<open>settings.py\<close>]: effective settings and usable master codes.
  \<^item> \<open>Fiscal\<close> [\<open>modules/org/fiscal.py\<close>]: calendars, periods, their transitions and the posting check.
  \<^item> \<open>Ledger\<close>, \<open>LedgerLaws\<close>, \<open>LedgerTheorems\<close> [\<open>modules/budget/ledger.py\<close>, \<open>ledger_rules.py\<close>]: \<open>post_entry\<close> with the
    constraints of migrations 0019 to 0023; the invariant \<open>ledger_ok\<close>; idempotence, no overdraft, which entries
    a posting may append.
  \<^item> \<open>Postings\<close>, \<open>Holdings\<close>, \<open>Transfers\<close>, \<open>TransferLaws\<close>, \<open>FundingLaws\<close>, \<open>BudgetTheorems\<close>
    [\<open>modules/budget/postings.py\<close>, \<open>reservations.py\<close>, \<open>transfers.py\<close>, \<open>service.py\<close>, \<open>funding_policy.py\<close>,
    \<open>modules/projects/hierarchy.py\<close>]: reservations, commitments, actuals, releases, reversals, transfers along
    the project tree; every bucket is what its open holdings add up to.
  \<^item> \<open>Paging\<close>, \<open>BudgetReads\<close>, \<open>BudgetReadTheorems\<close>, \<open>Reconcile\<close> [\<open>modules/budget/queries.py\<close>, \<open>aggregate.py\<close>,
    \<open>reconcile.py\<close>]: balances as of a period, keyset pages (locale \<open>pager\<close>), drift reports against the
    abstract sum of the ledger.
  \<^item> \<open>Numbering\<close> [\<open>modules/org/numbering.py\<close>]: document numbers and their counters.
  \<^item> \<open>Access\<close>, \<open>AccessLaws\<close> [\<open>modules/identity/resolver.py\<close>, \<open>service.py\<close>, \<open>models.py\<close>]: roles, grants, the recursive resolution
    of access.
  \<^item> \<open>Projects\<close>, \<open>ProjectLaws\<close>, \<open>Lifecycle\<close>, \<open>LifecycleLaws\<close> [\<open>modules/projects/service.py\<close>, \<open>lifecycle.py\<close>]: the
    tree and its walks, creation, changes, and the states of a project as reachable states of an inductive
    relation.
  \<^item> \<open>Work\<close>, \<open>Outbox\<close>, \<open>WorkLaws\<close>, \<open>OutboxLaws\<close> [\<open>kernel/jobs\<close>, \<open>kernel/outbox\<close>]: queue, leases, retries, and the
    two runner loops (locale \<open>worker\<close>, interpreted for both).
  \<^item> \<open>Conditions\<close>, \<open>ConditionLaws\<close>, \<open>Workflows\<close>, \<open>CycleSearch\<close>, \<open>WorkflowLaws\<close>
    [\<open>modules/approvals/conditions.py\<close>, \<open>validation.py\<close>, \<open>preview.py\<close>, \<open>schemas.py\<close>]: the condition language, the
    graph validation and the walk that routes a document.

  \<^item> \<open>Approvals\<close>, \<open>Decisions\<close>, \<open>ApprovalLaws\<close>, \<open>ApprovalSteps\<close>, \<open>ApprovalTheorems\<close>
    [\<open>modules/approvals/engine.py\<close>, \<open>eligibility.py\<close>, \<open>decisions.py\<close>, \<open>delegation.py\<close>, \<open>material.py\<close>, \<open>reminders.py\<close>]: approvals
    from start to end, who may decide, delegations, the approval in force; the tables in order (\<open>approval_ok\<close>) in every
    reachable state, for any registry of documents whose callbacks keep to themselves (\<open>framed\<close>).
  \<^item> \<open>ProjectApprovals\<close>, \<open>ApprovalSamples\<close>, \<open>ProjectDecisions\<close> [\<open>modules/projects/approval.py\<close>, \<open>api/projects.py\<close>]:
    projects as approved documents, and that a project follows its approval.
  \<^item> \<open>Sessions\<close>, \<open>SessionLaws\<close> [\<open>kernel/session\<close>]: the sessions of identities, their rotation and revocation, the
    step-up and CSRF guards; dead tokens stay dead, an issued token authenticates, a rotation leaves one session.
  \<^item> \<open>Credentials\<close>, \<open>Mfa\<close>, \<open>MfaLaws\<close> [\<open>kernel/identity\<close>]: the password policy, local credentials, failed-login windows,
    password resets, second factors with their lockout and recovery codes; a proof is accepted once, and guesses
    against a factor are bounded.
  \<^item> \<open>SignIn\<close>, \<open>SignInTheorems\<close>, \<open>SignInRuns\<close> [\<open>api/auth.py\<close>]: the sign-in endpoints, as requests that commit several
    transactions (\<open>commit_tx\<close>, \<open>settle\<close>); what a login proves, that failures look alike, that a reset token works once;
    every property is run on one small database.

  \<^bold>\<open>Bounds and fuel.\<close>  \<open>unit_chain\<close> has one more step than there are units, \<open>units_under\<close> as many as units, the
  subtree walk one more than projects: without a cycle they visit a row once, and on a cycle the query of the
  code would not return, which is the error \<open>QueryNotReturning\<close>.  \<open>chain_up\<close> has six steps because the tree is
  at most five deep (\<open>walks_reach_the_root\<close>).  The searches \<open>component\<close>, \<open>ancestors\<close> and \<open>depth_from\<close> have one
  step per node of the graph; \<open>CycleSearch\<close> and \<open>WorkflowLaws\<close> prove it enough.  The walk itself is a
  \<open>partial_function\<close>, and \<open>validated_walks_end\<close> shows that it returns on a validated graph.  The runner loops
  recurse over the list of clock readings they are given.  The resolver's recursion \<open>containing\<close> terminates on
  any table.
  \<open>unit_above\<close>, the unit of a project's approval, has one step more than there are scopes.

  \<^bold>\<open>What comes from elsewhere\<close> is an argument of the definitions: job and outbox handlers, the e-mail provider,
  the counters of a project's open documents, the attributes and adapters of a document; password hashing, text
  normalisation, digests, one-time passwords and the cipher of secrets, which are third-party code.  A job handler may
  commit on connections of its own, and its failure then keeps that.  The wording of messages, e-mail
  templates and explanations is not modelled.

  \<^bold>\<open>Not modelled.\<close>  The HTTP layer (\<open>api\<close>, \<open>web\<close>) beyond sign-in is routing and serialisation over the services, with
  cookies and response models.  Imports, requisitions, change requests, schedule and risks, invitations, attachments
  and the idempotency log are further modules over the services modelled here; they are listed in the manifest with
  their status.  Where they move money or open balance rows, the reachable states of \<open>BudgetTheorems\<close> have their
  steps.
\<close>

end
